(* ===== verification/Prelude.thy ===== *)
theory Prelude
  imports Main
begin

text \<open>
  Shared ground of the development: the Python exceptions the sources raise, the
  state-and-exception actions in which stateful code is written, the dynamic values that
  cross an injected port, the small regular expressions the sources match, and the
  library lemmas the component theories rely on.

  Stateful Python code is a function from a state to an outcome and a new state. A port
  call (a clock, a provider, a test double) is answered by an arbitrary strategy that sees
  the trace of the earlier calls, so a theorem quantifies over every possible environment,
  one that raises and one that kills the process at that call included.
\<close>

named_theorems keeps_intros \<open>rules that show an action keeps an invariant\<close>
named_theorems act_simps \<open>unfolding of the primitive actions\<close>


section \<open>Exceptions and actions\<close>

text \<open>
  \<open>Refused\<close> is the source's own closed refusal (\<open>Refused\<close> and \<open>Refusal\<close> in the various
  modules) with its category; \<open>AlreadyReserved\<close> the subclass the campaign journal raises;
  \<open>Crash\<close> any other \<open>Exception\<close> of Python or of an injected object; \<open>Killed\<close> stands for
  the death of the process at a port call: no \<open>except\<close> and no \<open>finally\<close> runs after it.
\<close>

datatype exc = Refused string | AlreadyReserved string | Crash | Killed

type_synonym 'a res = "exc + 'a"
type_synonym ('s, 'a) act = "'s \<Rightarrow> 'a res \<times> 's"

definition require :: "bool \<Rightarrow> string \<Rightarrow> unit res" where
  "require b category = (if b then Inr () else Inl (Refused category))"

fun bind_res :: "'a res \<Rightarrow> ('a \<Rightarrow> 'b res) \<Rightarrow> 'b res" where
  "bind_res (Inl e) f = Inl e"
| "bind_res (Inr x) f = f x"

fun each_res :: "('a \<Rightarrow> unit res) \<Rightarrow> 'a list \<Rightarrow> unit res" where
  "each_res f [] = Inr ()"
| "each_res f (x # xs) = bind_res (f x) (\<lambda>_. each_res f xs)"

definition return_act :: "'a \<Rightarrow> ('s, 'a) act" where
  "return_act x s = (Inr x, s)"

definition raise_act :: "exc \<Rightarrow> ('s, 'a) act" where
  "raise_act e s = (Inl e, s)"

definition bind_act :: "('s, 'a) act \<Rightarrow> ('a \<Rightarrow> ('s, 'b) act) \<Rightarrow> ('s, 'b) act" where
  "bind_act m f s = (case m s of (Inl e, t) \<Rightarrow> (Inl e, t) | (Inr x, t) \<Rightarrow> f x t)"

definition then_act :: "('s, 'a) act \<Rightarrow> ('s, 'b) act \<Rightarrow> ('s, 'b) act" where
  "then_act m k = bind_act m (\<lambda>_. k)"

definition require_act :: "bool \<Rightarrow> string \<Rightarrow> ('s, unit) act" where
  "require_act b category = (if b then return_act () else raise_act (Refused category))"

definition lift_res :: "'a res \<Rightarrow> ('s, 'a) act" where
  "lift_res r s = (r, s)"

definition gets_act :: "('s \<Rightarrow> 'a) \<Rightarrow> ('s, 'a) act" where
  "gets_act f s = (Inr (f s), s)"

definition modify_act :: "('s \<Rightarrow> 's) \<Rightarrow> ('s, unit) act" where
  "modify_act f s = (Inr (), f s)"

text \<open>\<open>try: m except Exception as e: h(e)\<close>; the death of the process is not caught.\<close>

definition catch_act :: "('s, 'a) act \<Rightarrow> (exc \<Rightarrow> ('s, 'a) act) \<Rightarrow> ('s, 'a) act" where
  "catch_act m h s = (case m s of
      (Inr x, t) \<Rightarrow> (Inr x, t)
    | (Inl e, t) \<Rightarrow> if e = Killed then (Inl e, t) else h e t)"

text \<open>\<open>try: m finally: f\<close>; an exception of \<open>f\<close> replaces the one under way.\<close>

definition finally_act :: "('s, 'a) act \<Rightarrow> ('s, unit) act \<Rightarrow> ('s, 'a) act" where
  "finally_act m f s = (case m s of
      (r, t) \<Rightarrow> if r = Inl Killed then (r, t)
                else (case f t of (Inl e, u) \<Rightarrow> (Inl e, u) | (Inr _, u) \<Rightarrow> (r, u)))"

fun each_act :: "('a \<Rightarrow> ('s, unit) act) \<Rightarrow> 'a list \<Rightarrow> ('s, unit) act" where
  "each_act f [] = return_act ()"
| "each_act f (x # xs) = then_act (f x) (each_act f xs)"

text \<open>Python's \<open>all(...)\<close> over a generator: it stops at the first false element.\<close>

fun all_act :: "('a \<Rightarrow> ('s, bool) act) \<Rightarrow> 'a list \<Rightarrow> ('s, bool) act" where
  "all_act f [] = return_act True"
| "all_act f (x # xs) = bind_act (f x) (\<lambda>b. if b then all_act f xs else return_act False)"

declare return_act_def [act_simps] raise_act_def [act_simps] bind_act_def [act_simps]
  then_act_def [act_simps] require_act_def [act_simps] lift_res_def [act_simps]
  gets_act_def [act_simps] modify_act_def [act_simps] catch_act_def [act_simps]
  finally_act_def [act_simps]

lemma require_Inr [simp]: "require b c = Inr u \<longleftrightarrow> b"
  by (simp add: require_def)

lemma bind_res_Inr: "bind_res m f = Inr y \<longleftrightarrow> (\<exists>x. m = Inr x \<and> f x = Inr y)"
  by (cases m) auto

lemma bind_res_require [simp]: "bind_res (require b c) f = Inr y \<longleftrightarrow> b \<and> f () = Inr y"
  by (auto simp: require_def)

lemma each_res_Inr: "each_res f xs = Inr u \<longleftrightarrow> (\<forall>x\<in>set xs. f x = Inr ())"
  by (induction xs) (auto simp: bind_res_Inr)

lemma bind_act_Inr:
  "bind_act m f s = (Inr y, t) \<longleftrightarrow> (\<exists>x u. m s = (Inr x, u) \<and> f x u = (Inr y, t))"
  by (auto simp: bind_act_def split: prod.splits sum.splits)

lemma bind_gets [simp]: "bind_act (gets_act f) g s = g (f s) s"
  by (simp add: act_simps)

lemma then_modify [simp]: "then_act (modify_act f) k s = k (f s)"
  by (simp add: act_simps)

lemma require_act_Inr [simp]: "require_act b c s = (Inr u, t) \<longleftrightarrow> b \<and> t = s"
  by (auto simp: act_simps)


section \<open>Invariants of actions\<close>

text \<open>\<open>keeps I m\<close>: whatever the outcome of \<open>m\<close>, it ends in \<open>I\<close> when it starts in \<open>I\<close>.\<close>

definition keeps :: "('s \<Rightarrow> bool) \<Rightarrow> ('s, 'a) act \<Rightarrow> bool" where
  "keeps I m \<longleftrightarrow> (\<forall>s. I s \<longrightarrow> I (snd (m s)))"

lemma keepsD: "keeps I m \<Longrightarrow> I s \<Longrightarrow> m s = (r, t) \<Longrightarrow> I t"
  by (auto simp: keeps_def dest!: spec [of _ s])

lemma keeps_bind [keeps_intros]:
  assumes "keeps I m" and "\<And>x. keeps I (f x)"
  shows "keeps I (bind_act m f)"
  unfolding keeps_def
proof (intro allI impI)
  fix s assume I: "I s"
  obtain r t where m: "m s = (r, t)" by force
  with assms(1) I have t: "I t" by (blast dest: keepsD)
  show "I (snd (bind_act m f s))"
  proof (cases r)
    case (Inl e)
    with m t show ?thesis by (simp add: bind_act_def)
  next
    case (Inr x)
    from t assms(2) [of x] have "I (snd (f x t))" by (simp add: keeps_def)
    with m Inr show ?thesis by (simp add: bind_act_def)
  qed
qed

lemma keeps_then [keeps_intros]: "keeps I m \<Longrightarrow> keeps I k \<Longrightarrow> keeps I (then_act m k)"
  unfolding then_act_def by (rule keeps_bind)

lemma keeps_pure [keeps_intros, simp]:
  "keeps I (return_act x)" "keeps I (raise_act e)" "keeps I (require_act b c)"
  "keeps I (lift_res r)" "keeps I (gets_act f)"
  by (auto simp: keeps_def act_simps)

lemma keeps_modify: "(\<And>s. I s \<Longrightarrow> I (f s)) \<Longrightarrow> keeps I (modify_act f)"
  by (auto simp: keeps_def act_simps)

lemma keeps_if [keeps_intros]: "keeps I m \<Longrightarrow> keeps I k \<Longrightarrow> keeps I (if b then m else k)"
  by simp

lemma keeps_each [keeps_intros]: "(\<And>x. x \<in> set xs \<Longrightarrow> keeps I (f x)) \<Longrightarrow> keeps I (each_act f xs)"
  by (induction xs) (auto intro: keeps_intros)

lemma keeps_all [keeps_intros]: "(\<And>x. x \<in> set xs \<Longrightarrow> keeps I (f x)) \<Longrightarrow> keeps I (all_act f xs)"
  by (induction xs) (auto intro!: keeps_intros)

lemma keeps_catch [keeps_intros]:
  assumes "keeps I m" and "\<And>e. keeps I (h e)"
  shows "keeps I (catch_act m h)"
  unfolding keeps_def
proof (intro allI impI)
  fix s assume I: "I s"
  obtain r t where m: "m s = (r, t)" by force
  with assms(1) I have t: "I t" by (blast dest: keepsD)
  with m assms(2) show "I (snd (catch_act m h s))"
    by (auto simp: catch_act_def keeps_def split: sum.splits)
qed

lemma keeps_finally [keeps_intros]:
  assumes "keeps I m" and "keeps I f"
  shows "keeps I (finally_act m f)"
  unfolding keeps_def
proof (intro allI impI)
  fix s assume I: "I s"
  obtain r t where m: "m s = (r, t)" by force
  with assms(1) I have t: "I t" by (blast dest: keepsD)
  obtain q u where f: "f t = (q, u)" by force
  with assms(2) t have "I u" by (blast dest: keepsD)
  with m f t show "I (snd (finally_act m f s))"
    by (auto simp: finally_act_def split: sum.splits)
qed


section \<open>Triples\<close>

text \<open>
  \<open>hoare I P m Q\<close>: started in a state with \<open>I\<close> and \<open>P\<close>, the action ends in \<open>I\<close> on every
  outcome, an exception or the death of the process included, and with \<open>Q\<close> of the value
  when it returns one.
\<close>

definition hoare ::
    "('s \<Rightarrow> bool) \<Rightarrow> ('s \<Rightarrow> bool) \<Rightarrow> ('s, 'a) act \<Rightarrow> ('a \<Rightarrow> 's \<Rightarrow> bool) \<Rightarrow> bool" where
  "hoare I P m Q \<longleftrightarrow> (\<forall>s r t. I s \<longrightarrow> P s \<longrightarrow> m s = (r, t) \<longrightarrow> I t \<and> (\<forall>x. r = Inr x \<longrightarrow> Q x t))"

lemma hoareI:
  "(\<And>s r t. I s \<Longrightarrow> P s \<Longrightarrow> m s = (r, t) \<Longrightarrow> I t \<and> (\<forall>x. r = Inr x \<longrightarrow> Q x t)) \<Longrightarrow> hoare I P m Q"
  by (auto simp: hoare_def)

lemma hoareD: "hoare I P m Q \<Longrightarrow> I s \<Longrightarrow> P s \<Longrightarrow> m s = (r, t) \<Longrightarrow> I t"
  by (auto simp: hoare_def)

lemma hoareD_value: "hoare I P m Q \<Longrightarrow> I s \<Longrightarrow> P s \<Longrightarrow> m s = (Inr x, t) \<Longrightarrow> Q x t"
  by (auto simp: hoare_def)

lemma hoare_bind:
  assumes "hoare I P m R" and "\<And>x. hoare I (R x) (f x) Q"
  shows "hoare I P (bind_act m f) Q"
proof (rule hoareI)
  fix s r t assume s: "I s" "P s" and b: "bind_act m f s = (r, t)"
  obtain q u where m: "m s = (q, u)" by force
  with assms(1) s have u: "I u" "\<forall>x. q = Inr x \<longrightarrow> R x u" by (auto simp: hoare_def)
  show "I t \<and> (\<forall>x. r = Inr x \<longrightarrow> Q x t)"
  proof (cases q)
    case (Inl e)
    with b m u show ?thesis by (auto simp: bind_act_def)
  next
    case (Inr x)
    with b m have "f x u = (r, t)" by (simp add: bind_act_def)
    with assms(2) [of x] u Inr show ?thesis by (auto simp: hoare_def)
  qed
qed

lemma hoare_then:
  assumes "hoare I P m R" and "\<And>x. hoare I (R x) k Q"
  shows "hoare I P (then_act m k) Q"
  unfolding then_act_def by (rule hoare_bind) (rule assms)+

lemma hoare_pre: "hoare I P m Q \<Longrightarrow> (\<And>s. I s \<Longrightarrow> P' s \<Longrightarrow> P s) \<Longrightarrow> hoare I P' m Q"
  by (auto simp: hoare_def)

lemma hoare_post: "hoare I P m Q \<Longrightarrow> (\<And>x s. I s \<Longrightarrow> Q x s \<Longrightarrow> Q' x s) \<Longrightarrow> hoare I P m Q'"
  by (auto simp: hoare_def)

lemma hoare_return: "(\<And>s. I s \<Longrightarrow> P s \<Longrightarrow> Q x s) \<Longrightarrow> hoare I P (return_act x) Q"
  by (auto simp: hoare_def act_simps)

lemma hoare_raise: "hoare I P (raise_act e) Q"
  by (auto simp: hoare_def act_simps)

lemma hoare_require: "hoare I P (require_act b c) (\<lambda>_ s. P s \<and> b)"
  by (auto simp: hoare_def act_simps)

lemma hoare_lift: "hoare I P (lift_res r) (\<lambda>x s. P s \<and> r = Inr x)"
  by (auto simp: hoare_def act_simps)

lemma hoare_gets: "hoare I P (gets_act f) (\<lambda>x s. P s \<and> x = f s)"
  by (auto simp: hoare_def act_simps)

lemma hoare_if: "(b \<Longrightarrow> hoare I P m Q) \<Longrightarrow> (\<not> b \<Longrightarrow> hoare I P k Q) \<Longrightarrow> hoare I P (if b then m else k) Q"
  by simp

lemma hoare_assume: "(A \<Longrightarrow> hoare I P m Q) \<Longrightarrow> hoare I (\<lambda>s. P s \<and> A) m Q"
  by (auto simp: hoare_def)

lemma hoare_catch:
  assumes "hoare I P m Q" and "\<And>e. hoare I (\<lambda>_. True) (h e) Q"
  shows "hoare I P (catch_act m h) Q"
proof (rule hoareI)
  fix s r t assume s: "I s" "P s" and c: "catch_act m h s = (r, t)"
  obtain q u where m: "m s = (q, u)" by force
  with assms(1) s have u: "I u" "\<forall>x. q = Inr x \<longrightarrow> Q x u" by (auto simp: hoare_def)
  show "I t \<and> (\<forall>x. r = Inr x \<longrightarrow> Q x t)"
  proof (cases "q = r \<and> u = t")
    case True
    with u show ?thesis by auto
  next
    case False
    with c m obtain e where "h e u = (r, t)"
      by (auto simp: catch_act_def split: sum.splits if_splits)
    with assms(2) [of e] u(1) show ?thesis by (auto simp: hoare_def)
  qed
qed

text \<open>A kept fact travels along.\<close>

lemma hoare_frame:
  "hoare I P m Q \<Longrightarrow> keeps A m \<Longrightarrow> hoare I (\<lambda>s. P s \<and> A s) m (\<lambda>x s. Q x s \<and> A s)"
  by (fastforce simp: hoare_def keeps_def)

lemma hoare_keeps: "hoare I (\<lambda>_. True) m Q \<Longrightarrow> keeps I m"
  unfolding hoare_def keeps_def by (metis prod.collapse)

lemma keeps_hoare: "keeps I m \<Longrightarrow> hoare I P m (\<lambda>_ _. True)"
  by (auto simp: hoare_def dest: keepsD)

text \<open>\<open>silent v m\<close>: whatever the outcome, the action leaves the view \<open>v\<close> of the state alone.\<close>

definition silent :: "('s \<Rightarrow> 'v) \<Rightarrow> ('s, 'a) act \<Rightarrow> bool" where
  "silent v m \<longleftrightarrow> (\<forall>s. v (snd (m s)) = v s)"

lemma silent_iff_keeps: "silent v m \<longleftrightarrow> (\<forall>x. keeps (\<lambda>s. v s = x) m)"
  unfolding silent_def keeps_def by blast

lemma silent_bind: "silent v m \<Longrightarrow> (\<And>x. silent v (f x)) \<Longrightarrow> silent v (bind_act m f)"
  by (simp add: silent_iff_keeps keeps_bind)

lemma silent_then: "silent v m \<Longrightarrow> silent v k \<Longrightarrow> silent v (then_act m k)"
  by (simp add: silent_iff_keeps keeps_then)

lemma silent_pure [simp]:
  "silent v (return_act x)" "silent v (raise_act e)" "silent v (require_act b c)"
  "silent v (lift_res r)" "silent v (gets_act f)"
  by (simp_all add: silent_iff_keeps)

lemma silent_modify: "(\<And>s. v (f s) = v s) \<Longrightarrow> silent v (modify_act f)"
  by (simp add: silent_def act_simps)

lemma silentD: "silent v m \<Longrightarrow> m s = (r, t) \<Longrightarrow> v t = v s"
  unfolding silent_def by (metis snd_conv)

lemma hoare_silent: "silent v m \<Longrightarrow> hoare (\<lambda>s. A (v s)) (\<lambda>s. B (v s)) m (\<lambda>_ s. B (v s))"
  unfolding hoare_def by (auto dest: silentD)

lemma keeps_silent: "silent v m \<Longrightarrow> keeps (\<lambda>s. A (v s)) m"
  by (simp add: silent_def keeps_def)

text \<open>A loop whose body establishes \<open>D x\<close> for its element, with \<open>D\<close> kept by the other rounds.\<close>

lemma hoare_each:
  assumes "\<And>x. x \<in> set xs \<Longrightarrow> hoare I P (f x) (\<lambda>_ s. P s \<and> D x s)"
    and "\<And>x y. x \<in> set xs \<Longrightarrow> keeps (D y) (f x)"
  shows "hoare I P (each_act f xs) (\<lambda>_ s. P s \<and> (\<forall>x\<in>set xs. D x s))"
  using assms
proof (induction xs)
  case Nil
  show ?case by (simp add: hoare_def act_simps)
next
  case (Cons x xs)
  have "hoare I P (f x) (\<lambda>_ s. P s \<and> D x s)" using Cons.prems(1) by simp
  moreover have "hoare I P (each_act f xs) (\<lambda>_ s. P s \<and> (\<forall>x\<in>set xs. D x s))"
    by (rule Cons.IH) (use Cons.prems in auto)
  moreover have "keeps (D x) (each_act f xs)"
    by (rule keeps_each) (use Cons.prems(2) in auto)
  ultimately show ?case
    by (auto intro!: hoare_then hoare_post [OF hoare_frame])
qed

lemma hoare_all:
  assumes "\<And>x. x \<in> set xs \<Longrightarrow> hoare I P (f x) (\<lambda>b s. P s \<and> (b \<longrightarrow> D x s))"
    and "\<And>x y. x \<in> set xs \<Longrightarrow> keeps (D y) (f x)"
  shows "hoare I P (all_act f xs) (\<lambda>b s. P s \<and> (b \<longrightarrow> (\<forall>x\<in>set xs. D x s)))"
  using assms
proof (induction xs)
  case Nil
  show ?case by (simp add: hoare_def act_simps)
next
  case (Cons x xs)
  have f: "hoare I P (f x) (\<lambda>b s. P s \<and> (b \<longrightarrow> D x s))" using Cons.prems(1) by simp
  have IH: "hoare I P (all_act f xs) (\<lambda>b s. P s \<and> (b \<longrightarrow> (\<forall>x\<in>set xs. D x s)))"
    by (rule Cons.IH) (use Cons.prems in auto)
  have k: "keeps (D x) (all_act f xs)"
    by (rule keeps_all) (use Cons.prems(2) in auto)
  show ?case
    unfolding all_act.simps
  proof (rule hoare_bind [OF f])
    fix b
    show "hoare I (\<lambda>s. P s \<and> (b \<longrightarrow> D x s)) (if b then all_act f xs else return_act False)
      (\<lambda>b s. P s \<and> (b \<longrightarrow> (\<forall>x\<in>set (x # xs). D x s)))"
      using hoare_frame [OF IH k]
      by (cases b) (auto intro: hoare_post hoare_return)
  qed
qed


text \<open>
  \<open>total P m Q\<close>: started in a state with \<open>P\<close>, the action returns a value, with \<open>Q\<close>.
\<close>

definition total :: "('s \<Rightarrow> bool) \<Rightarrow> ('s, 'a) act \<Rightarrow> ('a \<Rightarrow> 's \<Rightarrow> bool) \<Rightarrow> bool" where
  "total P m Q \<longleftrightarrow> (\<forall>s. P s \<longrightarrow> (\<exists>x t. m s = (Inr x, t) \<and> Q x t))"

lemma totalI: "(\<And>s. P s \<Longrightarrow> \<exists>x t. m s = (Inr x, t) \<and> Q x t) \<Longrightarrow> total P m Q"
  by (simp add: total_def)

lemma totalD: "total P m Q \<Longrightarrow> P s \<Longrightarrow> \<exists>x t. m s = (Inr x, t) \<and> Q x t"
  by (simp add: total_def)

lemma total_bind: "total P m R \<Longrightarrow> (\<And>x. total (R x) (f x) Q) \<Longrightarrow> total P (bind_act m f) Q"
  by (fastforce simp: total_def bind_act_def)

lemma total_then: "total P m R \<Longrightarrow> (\<And>x. total (R x) k Q) \<Longrightarrow> total P (then_act m k) Q"
  unfolding then_act_def by (rule total_bind)

lemma total_pre: "total P m Q \<Longrightarrow> (\<And>s. P' s \<Longrightarrow> P s) \<Longrightarrow> total P' m Q"
  by (simp add: total_def)

lemma total_post: "total P m Q \<Longrightarrow> (\<And>x s. Q x s \<Longrightarrow> Q' x s) \<Longrightarrow> total P m Q'"
  unfolding total_def by metis

lemma total_return: "(\<And>s. P s \<Longrightarrow> Q x s) \<Longrightarrow> total P (return_act x) Q"
  by (simp add: total_def act_simps)

lemma total_require: "(\<And>s. P s \<Longrightarrow> b) \<Longrightarrow> total P (require_act b c) (\<lambda>_. P)"
  by (auto simp: total_def act_simps)

lemma total_lift: "r = Inr y \<Longrightarrow> total P (lift_res r) (\<lambda>x s. P s \<and> x = y)"
  by (simp add: total_def act_simps)

lemma total_gets: "total P (gets_act f) (\<lambda>x s. P s \<and> x = f s)"
  by (simp add: total_def act_simps)

lemma total_modify: "(\<And>s. P s \<Longrightarrow> Q (f s)) \<Longrightarrow> total P (modify_act f) (\<lambda>_. Q)"
  by (simp add: total_def act_simps)

lemma total_assume: "(A \<Longrightarrow> total P m Q) \<Longrightarrow> total (\<lambda>s. P s \<and> A) m Q"
  by (simp add: total_def)


section \<open>Clock readings\<close>

text \<open>
  A reading or a bound of a clock: an integer, an infinity, a NaN, or a value that is no
  number at all. Fractional floats and booleans as readings are outside the model.
\<close>

datatype tick = Tick int | PosInf | NegInf | NaN | NotNumber


section \<open>Dynamic Python values\<close>

text \<open>
  What an injected port may answer. A dictionary is the list of its items. Strings are
  those with code points below 256; floats, bytes and containers with other keys do not
  occur at the modelled ports.
\<close>

datatype pyval =
    PNone
  | PBool bool
  | PInt int
  | PStr string
  | PList "pyval list"
  | PDict "(string \<times> pyval) list"

text \<open>Python's \<open>==\<close>: a \<open>bool\<close> is an \<open>int\<close>, and the order of a dictionary does not matter.\<close>

fun py_eq :: "pyval \<Rightarrow> pyval \<Rightarrow> bool"
and py_eqs :: "pyval list \<Rightarrow> pyval list \<Rightarrow> bool" where
  "py_eq PNone y = (y = PNone)"
| "py_eq (PBool a) y =
     (case y of PBool b \<Rightarrow> a = b | PInt n \<Rightarrow> n = of_bool a | _ \<Rightarrow> False)"
| "py_eq (PInt n) y =
     (case y of PBool b \<Rightarrow> n = of_bool b | PInt m \<Rightarrow> n = m | _ \<Rightarrow> False)"
| "py_eq (PStr s) y = (y = PStr s)"
| "py_eq (PList xs) y =
     (case y of PList ys \<Rightarrow> py_eqs xs ys | _ \<Rightarrow> False)"
| "py_eq (PDict xs) y =
     (case y of
        PDict ys \<Rightarrow> length xs = length ys \<and>
          (\<forall>(k, a)\<in>set xs. case map_of ys k of None \<Rightarrow> False | Some b \<Rightarrow> py_eq a b)
      | _ \<Rightarrow> False)"
| "py_eqs [] ys = (ys = [])"
| "py_eqs (x # xs) ys = (case ys of [] \<Rightarrow> False | y # ys' \<Rightarrow> py_eq x y \<and> py_eqs xs ys')"

text \<open>\<open>x is True\<close>, \<open>x is False\<close>.\<close>

definition is_bool :: "bool \<Rightarrow> pyval \<Rightarrow> bool" where
  "is_bool b v \<longleftrightarrow> v = PBool b"

text \<open>\<open>d.get(key)\<close> on the items of a dictionary.\<close>

definition dict_get :: "(string \<times> pyval) list \<Rightarrow> string \<Rightarrow> pyval" where
  "dict_get d k = (case map_of d k of None \<Rightarrow> PNone | Some v \<Rightarrow> v)"

text \<open>A list or a dict in a membership test against a set or a dict raises \<open>TypeError\<close>.\<close>

definition hashable :: "pyval \<Rightarrow> bool" where
  "hashable v \<longleftrightarrow> (case v of PList _ \<Rightarrow> False | PDict _ \<Rightarrow> False | _ \<Rightarrow> True)"

text \<open>The number an ordering comparison sees; \<open>None\<close> where Python raises \<open>TypeError\<close>.\<close>

fun py_number :: "pyval \<Rightarrow> int option" where
  "py_number (PInt n) = Some n"
| "py_number (PBool b) = Some (of_bool b)"
| "py_number _ = None"

lemma py_eq_PInt_iff: "py_eq (PInt n) (PInt m) \<longleftrightarrow> n = m"
  by simp


section \<open>Characters and the regular expressions of the sources\<close>

definition code_in :: "nat \<Rightarrow> nat \<Rightarrow> char \<Rightarrow> bool" where
  "code_in lo hi c \<longleftrightarrow> lo \<le> of_char c \<and> of_char c \<le> hi"

definition is_digit :: "char \<Rightarrow> bool" where
  "is_digit = code_in 48 57"

definition is_lower :: "char \<Rightarrow> bool" where
  "is_lower = code_in 97 122"

definition is_upper :: "char \<Rightarrow> bool" where
  "is_upper = code_in 65 90"

text \<open>\<open>[a-f0-9]\<close>\<close>

definition is_hex :: "char \<Rightarrow> bool" where
  "is_hex c \<longleftrightarrow> code_in 97 102 c \<or> is_digit c"

definition is_ascii :: "string \<Rightarrow> bool" where
  "is_ascii = list_all (\<lambda>c. (of_char c :: nat) < 128)"

text \<open>\<open>re.fullmatch(r"[a-f0-9]{n}", s)\<close>\<close>

definition fullmatch_hex :: "nat \<Rightarrow> string \<Rightarrow> bool" where
  "fullmatch_hex n s \<longleftrightarrow> length s = n \<and> list_all is_hex s"

text \<open>\<open>re.fullmatch(r"[a-zA-Z0-9_-]{1,128}", s)\<close>\<close>

definition fullmatch_identity :: "string \<Rightarrow> bool" where
  "fullmatch_identity s \<longleftrightarrow> 1 \<le> length s \<and> length s \<le> 128 \<and>
     list_all (\<lambda>c. is_lower c \<or> is_upper c \<or> is_digit c \<or> c \<in> {CHR ''_'', CHR ''-''}) s"

text \<open>The value of a string of decimal digits.\<close>

definition digit_value :: "char \<Rightarrow> int" where
  "digit_value c = int (of_char c) - 48"

definition decimal_value :: "string \<Rightarrow> int" where
  "decimal_value s = fold (\<lambda>c n. n * 10 + digit_value c) s 0"

text \<open>\<open>str(n)\<close> for an \<open>int\<close>.\<close>

fun nat_digits :: "nat \<Rightarrow> string" where
  "nat_digits n = (if n < 10 then [char_of (48 + n)]
                   else nat_digits (n div 10) @ [char_of (48 + n mod 10)])"

declare nat_digits.simps [simp del]

definition py_str_int :: "int \<Rightarrow> string" where
  "py_str_int n = (if n < 0 then CHR ''-'' # nat_digits (nat (- n)) else nat_digits (nat n))"

lemma decimal_value_snoc: "decimal_value (s @ [c]) = decimal_value s * 10 + digit_value c"
  by (simp add: decimal_value_def)

lemma digit_value_char_of: "n < 10 \<Longrightarrow> digit_value (char_of (48 + n)) = int n"
  by (simp add: digit_value_def)

text \<open>\<open>int(str(n)) = n\<close>\<close>

lemma decimal_value_nat_digits: "decimal_value (nat_digits n) = int n"
proof (induction n rule: nat_digits.induct)
  case (1 n)
  show ?case
  proof (cases "n < 10")
    case True
    then show ?thesis
      by (subst nat_digits.simps) (simp add: decimal_value_def digit_value_char_of)
  next
    case False
    with 1 have "decimal_value (nat_digits (n div 10)) = int (n div 10)" by simp
    with False show ?thesis
      by (subst nat_digits.simps)
         (simp add: decimal_value_snoc digit_value_char_of zmod_int zdiv_int)
  qed
qed

lemma nat_digits_inj: "nat_digits m = nat_digits n \<Longrightarrow> m = n"
  using decimal_value_nat_digits by (metis of_nat_eq_iff)

lemma nat_digits_is_digit: "list_all is_digit (nat_digits n)"
proof (induction n rule: nat_digits.induct)
  case (1 n)
  have d: "is_digit (char_of (48 + k))" if "k < 10" for k :: nat
    using that by (simp add: is_digit_def code_in_def)
  show ?case
  proof (cases "n < 10")
    case True
    then show ?thesis by (subst nat_digits.simps) (simp add: d)
  next
    case False
    with 1 show ?thesis by (subst nat_digits.simps) (simp add: d)
  qed
qed

lemma decimal_py_str_int: "0 \<le> n \<Longrightarrow> decimal_value (py_str_int n) = n"
  by (simp add: py_str_int_def decimal_value_nat_digits)


text \<open>\<open>len(s.encode())\<close> on strings with code points below 256.\<close>

definition utf8_length :: "string \<Rightarrow> int" where
  "utf8_length s = sum_list (map (\<lambda>c. if (of_char c :: nat) < 128 then 1 else 2) s)"


text \<open>\<open>text.split(c)\<close>, \<open>text.strip()\<close> and \<open>sep.join(...)\<close>; the white space is the ASCII one.\<close>

fun split_on :: "char \<Rightarrow> string \<Rightarrow> string list" where
  "split_on c [] = [[]]"
| "split_on c (x # xs) = (if x = c then [] # split_on c xs
     else (case split_on c xs of [] \<Rightarrow> [[x]] | w # ws \<Rightarrow> (x # w) # ws))"

definition is_space :: "char \<Rightarrow> bool" where
  "is_space c \<longleftrightarrow> code_in 9 13 c \<or> c = CHR '' ''"

definition strip :: "string \<Rightarrow> string" where
  "strip s = rev (dropWhile is_space (rev (dropWhile is_space s)))"

fun join :: "string \<Rightarrow> string list \<Rightarrow> string" where
  "join sep [] = []"
| "join sep [x] = x"
| "join sep (x # xs) = x @ sep @ join sep xs"


section \<open>Counting in traces\<close>

lemma count_list_append_single:
  "count_list (xs @ [x]) y = count_list xs y + (if x = y then 1 else 0)"
  by simp

lemma distinct_map_filter_snoc:
  "distinct (List.map_filter f (xs @ [x])) \<longleftrightarrow>
     (case f x of None \<Rightarrow> distinct (List.map_filter f xs)
      | Some y \<Rightarrow> distinct (List.map_filter f xs) \<and> y \<notin> set (List.map_filter f xs))"
  by (auto simp: List.map_filter_def split: option.splits)

end
