(* ===== verification/Latch.thy ===== *)
theory Latch
  imports Prelude
begin

text \<open>
  The contract every durable journal of the operator tools gives its client: a key can be
  spent once and stays spent. The client lemmas say what that buys: the external effects
  issued under a freshly spent key are pairwise different, whatever happens between them.
  The locale is interpreted on the journal of the fixed-origin lifecycle, on the campaign
  journal of the finite runner, on the D1 operator journal and on the journal of the
  composition rehearsal.
\<close>

text \<open>Which keys the effects of a trace used, in order.\<close>

definition keys_used :: "('e \<Rightarrow> 'k option) \<Rightarrow> 'e list \<Rightarrow> 'k list" where
  "keys_used key_of tr = List.map_filter key_of tr"

lemma keys_used_Nil [simp]: "keys_used f [] = []"
  by (simp add: keys_used_def List.map_filter_def)

lemma keys_used_append [simp]: "keys_used f (xs @ ys) = keys_used f xs @ keys_used f ys"
  by (simp add: keys_used_def List.map_filter_def)

lemma keys_used_single: "keys_used f [x] = (case f x of None \<Rightarrow> [] | Some k \<Rightarrow> [k])"
  by (simp add: keys_used_def List.map_filter_def split: option.split)

lemma keys_used_Cons: "keys_used f (x # xs) = (case f x of None \<Rightarrow> [] | Some k \<Rightarrow> [k]) @ keys_used f xs"
  by (simp add: keys_used_def List.map_filter_def split: option.split)

lemma keys_used_mem: "x \<in> set tr \<Longrightarrow> f x = Some k \<Longrightarrow> k \<in> set (keys_used f tr)"
  by (force simp: keys_used_def List.map_filter_def)

locale one_shot =
  fixes spent :: "'j \<Rightarrow> 'k set"
    and key :: "'r \<Rightarrow> 'k"
    and spend :: "'r \<Rightarrow> 'j \<Rightarrow> 'j res"
  assumes spend_fresh: "spend r j = Inr j' \<Longrightarrow> key r \<notin> spent j"
    and spend_spent: "spend r j = Inr j' \<Longrightarrow> spent j' = insert (key r) (spent j)"
begin

definition once_ok :: "('e \<Rightarrow> 'k option) \<Rightarrow> 'j \<Rightarrow> 'e list \<Rightarrow> bool" where
  "once_ok key_of j tr \<longleftrightarrow> distinct (keys_used key_of tr) \<and> set (keys_used key_of tr) \<subseteq> spent j"

lemma once_ok_start: "once_ok key_of j []"
  by (simp add: once_ok_def)

lemma once_ok_other: "key_of e = None \<Longrightarrow> once_ok key_of j (tr @ [e]) \<longleftrightarrow> once_ok key_of j tr"
  by (simp add: once_ok_def keys_used_single)

lemma once_ok_grow: "spent j \<subseteq> spent j' \<Longrightarrow> once_ok key_of j tr \<Longrightarrow> once_ok key_of j' tr"
  by (auto simp: once_ok_def)

lemma once_ok_spend:
  assumes "spend r j = Inr j'" and "key_of e = Some (key r)" and "once_ok key_of j tr"
  shows "once_ok key_of j' (tr @ [e])"
  using assms spend_fresh [OF assms(1)] spend_spent [OF assms(1)]
  by (auto simp: once_ok_def keys_used_single)

lemma once_ok_distinct: "once_ok key_of j tr \<Longrightarrow> distinct (keys_used key_of tr)"
  by (simp add: once_ok_def)

text \<open>A spent key is refused for ever: no later state of the journal lets it through.\<close>

lemma spend_never_again:
  assumes "spend r j = Inr j'" and "spent j' \<subseteq> spent u" and "key r' = key r"
  shows "spend r' u \<noteq> Inr v"
proof
  assume "spend r' u = Inr v"
  then have "key r' \<notin> spent u" by (rule spend_fresh)
  with spend_spent [OF assms(1)] assms(2,3) show False by auto
qed

end

end
