(* ===== verification/Fixed_Origin_Lifecycle.thy ===== *)
theory Fixed_Origin_Lifecycle
  imports Latch
begin

text \<open>
  \<open>scripts/fixed_origin_lifecycle.py\<close>: the one-attempt lifecycle of the fixed-origin
  qualification. The journal row is the record \<open>lbody\<close>, the owner marker file the flag
  \<open>owner\<close>, and the injected operations and clock are the environment: every call appends
  its event and the answer to the trace, and the answer is what an arbitrary strategy
  gives for that trace. The theorems hold for every strategy.
\<close>

section \<open>Data\<close>

text \<open>The calls that leave the process: the clock and the \<open>OfflineOperations\<close> seam.\<close>

datatype lev =
    LClock
  | LAbsent string string
  | LCreate string string
  | LInitializeGuard string int int
  | LGuard string
  | LInstall "string list" string int int
  | LDisable string
  | LRestore string
  | LDelete string string pyval

type_synonym ltrace = "(lev \<times> pyval res) list"
type_synonym lenv = "ltrace \<Rightarrow> lev \<Rightarrow> pyval res"

text \<open>One entry of \<open>state["operations"]\<close>.\<close>

record op_entry =
  attempted :: bool
  acknowledged :: bool
  result :: "pyval option"

record lbody =
  run :: string
  startsAt :: int
  expiresAt :: int
  qualificationStartsAt :: int
  qualificationExpiresAt :: int
  captureDigest :: string
  operations :: "(string \<times> op_entry) list"
  resources :: "(string \<times> string) list"
  cleanupConfirmed :: "bool option"
  outcome :: "string option"

record lstate =
  body :: lbody
  owner :: bool
  trace :: ltrace

definition LIMITS :: "(string \<times> pyval) list" where
  "LIMITS = [(''fga'', PInt 96), (''receiver'', PInt 16), (''lifetimeMs'', PInt 1200000)]"

definition LIMIT_fga :: int where "LIMIT_fga = 96"
definition LIMIT_receiver :: int where "LIMIT_receiver = 16"
definition LIMIT_lifetimeMs :: int where "LIMIT_lifetimeMs = 1200000"

definition SECRET_NAMES :: "string list" where
  "SECRET_NAMES = [''FGA_FIXED_ORIGIN_CAPABILITY'', ''FGA_FIXED_ORIGIN_CANARY'']"

definition QUALIFICATION_BINDINGS :: "string list" where
  "QUALIFICATION_BINDINGS =
     [''FIXED_ORIGIN_DB'', ''FIXED_ORIGIN_RUN'', ''FIXED_ORIGIN_CAPABILITY'',
      ''FIXED_ORIGIN_CANARY'', ''FIXED_ORIGIN_RECEIVER'']"


section \<open>Construction\<close>

definition initial_body :: "string \<Rightarrow> int \<Rightarrow> string \<Rightarrow> lbody" where
  "initial_body r starts digest =
     \<lparr>run = r, startsAt = starts, expiresAt = starts + LIMIT_lifetimeMs,
      qualificationStartsAt = starts, qualificationExpiresAt = starts + 600000,
      captureDigest = digest, operations = [],
      resources = [(''d1'', ''fga-fixed-origin-db-'' @ r),
                   (''receiver'', ''fga-fixed-origin-recv-'' @ r)]
                  @ map (\<lambda>n. (''actions-secret'', n)) SECRET_NAMES,
      cleanupConfirmed = None, outcome = None\<rparr>"

definition same_scope :: "lbody \<Rightarrow> lbody \<Rightarrow> bool" where
  "same_scope saved state \<longleftrightarrow>
     run saved = run state \<and> startsAt saved = startsAt state \<and>
     expiresAt saved = expiresAt state \<and>
     qualificationStartsAt saved = qualificationStartsAt state \<and>
     qualificationExpiresAt saved = qualificationExpiresAt state \<and>
     captureDigest saved = captureDigest state \<and> resources saved = resources state"

text \<open>
  \<open>Lifecycle.__init__\<close> on the journal file: \<open>None\<close> is a file without the row. The row
  is inserted when it is absent, and a row of another scope is refused.
\<close>

definition lifecycle_init ::
    "lbody option \<Rightarrow> string \<Rightarrow> int \<Rightarrow> string \<Rightarrow> bool \<Rightarrow> lbody option \<times> unit res" where
  "lifecycle_init file r starts digest offline =
     (if \<not> fullmatch_hex 32 r \<or> \<not> fullmatch_hex 64 digest \<or> starts < 0 \<or> \<not> offline
      then (file, Inl (Refused ''invalid_offline_scope''))
      else
        (let state = initial_body r starts digest;
             saved = (case file of None \<Rightarrow> state | Some b \<Rightarrow> b)
         in (Some saved,
             if same_scope saved state then Inr ()
             else Inl (Refused ''journal_scope_mismatch''))))"


section \<open>Ports, latch, clock\<close>

definition port :: "lenv \<Rightarrow> lev \<Rightarrow> (lstate, pyval) act" where
  "port env e s = (let r = env (trace s) e in (r, s\<lparr>trace := trace s @ [(e, r)]\<rparr>))"

definition state_act :: "(lstate, lbody) act" where
  "state_act = gets_act body"

definition save :: "(lbody \<Rightarrow> lbody) \<Rightarrow> (lstate, unit) act" where
  "save f = modify_act (\<lambda>s. s\<lparr>body := f (body s)\<rparr>)"

text \<open>\<open>_ownership\<close>: the exclusive marker file; a process that dies leaves it behind.\<close>

definition ownership :: "(lstate, 'a) act \<Rightarrow> (lstate, 'a) act" where
  "ownership m = bind_act (gets_act owner) (\<lambda>held.
     if held then raise_act (Refused ''lifecycle_owner_or_recovery_required'')
     else then_act (modify_act (\<lambda>s. s\<lparr>owner := True\<rparr>))
            (finally_act m (modify_act (\<lambda>s. s\<lparr>owner := False\<rparr>))))"

text \<open>The committed first transaction of \<open>_once\<close>: latch the key or refuse.\<close>

definition latch :: "string \<Rightarrow> lbody \<Rightarrow> lbody res" where
  "latch key b =
     (if map_of (operations b) key \<noteq> None
      then Inl (Refused ''operation_already_attempted'')
      else Inr (b\<lparr>operations := operations b @
                   [(key, \<lparr>attempted = True, acknowledged = False, result = None\<rparr>)]\<rparr>))"

definition acknowledge :: "string \<Rightarrow> pyval \<Rightarrow> lbody \<Rightarrow> lbody" where
  "acknowledge key r b = b\<lparr>operations := map (\<lambda>(k, e).
     if k = key then (k, e\<lparr>result := Some r, acknowledged := True\<rparr>) else (k, e)) (operations b)\<rparr>"

definition once :: "string \<Rightarrow> (lstate, pyval) act \<Rightarrow> (lstate, pyval) act" where
  "once key operation =
     bind_act state_act (\<lambda>b. case latch key b of
       Inl e \<Rightarrow> raise_act e
     | Inr b' \<Rightarrow>
         then_act (save (\<lambda>_. b'))
           (bind_act operation (\<lambda>r.
              then_act (save (acknowledge key r)) (return_act r))))"

definition time :: "lenv \<Rightarrow> (lstate, unit) act" where
  "time env = bind_act state_act (\<lambda>b. bind_act (port env LClock) (\<lambda>now.
     require_act (case now of PInt n \<Rightarrow> startsAt b \<le> n \<and> n < expiresAt b | _ \<Rightarrow> False)
       ''expired_or_invalid_clock''))"

definition role_ready :: "bool \<Rightarrow> int \<Rightarrow> pyval \<Rightarrow> bool" where
  "role_ready disabled limit v \<longleftrightarrow>
     (case v of PInt n \<Rightarrow> 0 \<le> n \<and> n \<le> limit \<and> (disabled \<or> n \<noteq> limit) | _ \<Rightarrow> False)"

definition guard_ready :: "lbody \<Rightarrow> bool \<Rightarrow> (string \<times> pyval) list \<Rightarrow> bool" where
  "guard_ready b disabled g \<longleftrightarrow>
     py_eq (dict_get g ''run'') (PStr (run b)) \<and>
     py_eq (dict_get g ''startsAt'') (PInt (startsAt b)) \<and>
     py_eq (dict_get g ''expiresAt'') (PInt (expiresAt b)) \<and>
     is_bool (\<not> disabled) (dict_get g ''enabled'') \<and>
     is_bool True (dict_get g ''initialized'') \<and>
     py_eq (dict_get g ''limits'') (PDict LIMITS) \<and>
     role_ready disabled LIMIT_fga (dict_get g ''fga'') \<and>
     role_ready disabled LIMIT_receiver (dict_get g ''receiver'')"

text \<open>The second clock reading of \<open>_guard\<close>: a chained comparison on whatever it is.\<close>

definition qualification_window :: "lenv \<Rightarrow> (lstate, unit) act" where
  "qualification_window env = bind_act state_act (\<lambda>b. bind_act (port env LClock) (\<lambda>now.
     case py_number now of
       None \<Rightarrow> raise_act Crash
     | Some n \<Rightarrow> require_act
         (qualificationStartsAt b \<le> n \<and> n < qualificationExpiresAt b)
         ''qualification_window_expired''))"

definition guard :: "lenv \<Rightarrow> bool \<Rightarrow> (lstate, unit) act" where
  "guard env disabled =
     then_act (if disabled then return_act () else then_act (time env) (qualification_window env))
       (bind_act state_act (\<lambda>b. bind_act (port env (LGuard (run b))) (\<lambda>g.
          case g of
            PDict d \<Rightarrow> require_act (guard_ready b disabled d) ''durable_guard_not_ready''
          | _ \<Rightarrow> raise_act Crash)))"


section \<open>Provisioning\<close>

text \<open>
  \<open>uuid.UUID(s)\<close> for a string of \<open>[a-zA-Z0-9_-]\<close>: the hyphens go, 32 characters must
  remain, and \<open>int(hex, 16)\<close> must accept them (a \<open>0x\<close> prefix and single underscores
  between digits are allowed by Python).
\<close>

definition hex16 :: "char \<Rightarrow> bool" where
  "hex16 c \<longleftrightarrow> is_hex c \<or> code_in 65 70 c"

fun underscored_hex :: "string \<Rightarrow> bool" where
  "underscored_hex [] = False"
| "underscored_hex [c] = hex16 c"
| "underscored_hex (c # d # s) =
     (hex16 c \<and> (if d = CHR ''_'' then underscored_hex s else underscored_hex (d # s)))"

definition int16_accepts :: "string \<Rightarrow> bool" where
  "int16_accepts h \<longleftrightarrow> underscored_hex h \<or>
     (take 2 h \<in> {''0x'', ''0X''} \<and>
      (underscored_hex (drop 2 h) \<or> (take 1 (drop 2 h) = ''_'' \<and> underscored_hex (drop 3 h))))"

definition uuid_parses :: "string \<Rightarrow> bool" where
  "uuid_parses s = (let h = filter (\<lambda>c. c \<noteq> CHR ''-'') s in length h = 32 \<and> int16_accepts h)"

text \<open>\<open>str(uuid.UUID(s)) == s\<close>: lower-case digits in groups of 8, 4, 4, 4 and 12.\<close>

definition uuid_canonical :: "string \<Rightarrow> bool" where
  "uuid_canonical s \<longleftrightarrow> length s = 36 \<and>
     (\<forall>i\<in>set [0..<36]. if i \<in> {8, 13, 18, 23} then s ! i = CHR ''-'' else is_hex (s ! i))"

definition check_identity :: "string \<Rightarrow> string \<Rightarrow> pyval \<Rightarrow> pyval res" where
  "check_identity kind name v = (case v of
     PStr i \<Rightarrow>
       if \<not> fullmatch_identity i then Inl (Refused ''unacknowledged_identity'')
       else if kind \<noteq> ''d1'' \<and> i \<noteq> name then Inl (Refused ''identity_mismatch'')
       else if kind = ''d1'' \<and> \<not> uuid_parses i then Inl Crash
       else if kind = ''d1'' \<and> \<not> uuid_canonical i then Inl (Refused ''identity_mismatch'')
       else Inr v
   | _ \<Rightarrow> Inl (Refused ''unacknowledged_identity''))"

definition create_key :: "string \<Rightarrow> string" where "create_key name = ''create:'' @ name"
definition delete_key :: "string \<Rightarrow> string" where "delete_key name = ''delete:'' @ name"

definition preflight :: "lenv \<Rightarrow> (string \<times> string) list \<Rightarrow> (lstate, pyval) act" where
  "preflight env rows = bind_act
     (all_act (\<lambda>(kind, name). bind_act (port env (LAbsent kind name))
        (\<lambda>v. return_act (is_bool True v))) rows)
     (\<lambda>b. return_act (PBool b))"

definition create :: "lenv \<Rightarrow> string \<Rightarrow> string \<Rightarrow> (lstate, pyval) act" where
  "create env kind name =
     bind_act (port env (LCreate kind name)) (\<lambda>v. lift_res (check_identity kind name v))"

definition confirm :: "string \<Rightarrow> (lstate, pyval) act \<Rightarrow> string \<Rightarrow> (lstate, unit) act" where
  "confirm key operation category =
     bind_act (once key operation) (\<lambda>v. require_act (is_bool True v) category)"

definition provision_row :: "lenv \<Rightarrow> string \<times> string \<Rightarrow> (lstate, unit) act" where
  "provision_row env row = then_act (time env)
     (bind_act (once (create_key (snd row)) (create env (fst row) (snd row)))
        (\<lambda>_. return_act ()))"

definition provision_body :: "lenv \<Rightarrow> (lstate, unit) act" where
  "provision_body env = then_act (time env) (bind_act state_act (\<lambda>state.
     then_act (require_act (operations state = []) ''attempt_already_started'')
    (then_act (confirm ''preflight'' (preflight env (resources state))
                 ''resource_or_secret_preexists'')
    (then_act (each_act (provision_row env) (resources state))
    (then_act (confirm ''initialize_guard''
                 (port env (LInitializeGuard (run state) (startsAt state) (expiresAt state)))
                 ''guard_initialization_unconfirmed'')
    (then_act (guard env False)
    (then_act (confirm ''install''
                 (port env (LInstall QUALIFICATION_BINDINGS (run state)
                    (qualificationStartsAt state) (qualificationExpiresAt state)))
                 ''install_unconfirmed'')
       (guard env False))))))))"

definition provision :: "lenv \<Rightarrow> (lstate, unit) act" where
  "provision env = ownership (provision_body env)"


section \<open>Cleanup\<close>

definition exact_restore :: "lbody \<Rightarrow> pyval" where
  "exact_restore b = PDict
     [(''captureDigest'', PStr (captureDigest b)),
      (''ordinaryRoutesVerified'', PBool True),
      (''qualificationBindingsAbsent'', PBool True),
      (''writeGatesDisabled'', PBool True),
      (''productionStateUnchanged'', PBool True)]"

definition delete_row :: "lenv \<Rightarrow> string \<times> string \<Rightarrow> (lstate, unit) act" where
  "delete_row env row = bind_act state_act (\<lambda>b.
     case map_of (operations b) (create_key (snd row)) of
       None \<Rightarrow> return_act ()
     | Some creation \<Rightarrow>
         if \<not> acknowledged creation then raise_act (Refused ''creation_ambiguous'')
         else (case result creation of
             None \<Rightarrow> raise_act Crash
           | Some identity \<Rightarrow>
               confirm (delete_key (snd row)) (port env (LDelete (fst row) (snd row) identity))
                 ''deletion_absence_unconfirmed''))"

definition cleanup_try :: "lenv \<Rightarrow> lbody \<Rightarrow> (lstate, bool) act" where
  "cleanup_try env state =
     then_act (confirm ''disable'' (port env (LDisable (run state))) ''admission_off_unconfirmed'')
    (then_act (guard env True)
    (bind_act (once ''restore'' (port env (LRestore (captureDigest state)))) (\<lambda>restored.
     then_act (require_act (py_eq restored (exact_restore state)) ''exact_restore_unconfirmed'')
    (then_act (each_act (delete_row env) (rev (resources state)))
       (return_act True)))))"

definition cleanup_body :: "lenv \<Rightarrow> (lstate, bool) act" where
  "cleanup_body env = bind_act state_act (\<lambda>state.
     case cleanupConfirmed state of
       Some c \<Rightarrow> return_act c
     | None \<Rightarrow>
         bind_act (catch_act (cleanup_try env state) (\<lambda>_. return_act False)) (\<lambda>confirmed.
         then_act (save (\<lambda>b. b\<lparr>cleanupConfirmed := Some confirmed,
                     outcome := Some (if confirmed then ''cleanup_confirmed''
                                      else ''cleanup_unconfirmed'')\<rparr>))
           (return_act confirmed)))"

definition cleanup :: "lenv \<Rightarrow> (lstate, bool) act" where
  "cleanup env = ownership (cleanup_body env)"

definition attempt :: "lenv \<Rightarrow> (lstate, bool) act" where
  "attempt env = then_act
     (finally_act (provision env) (bind_act (cleanup env) (\<lambda>_. return_act ())))
     (bind_act state_act (\<lambda>b. return_act (cleanupConfirmed b = Some True)))"

text \<open>The public entry points, and a history of calls, each by its own process and environment.\<close>

datatype lcall = Provision | Cleanup | Attempt

definition call :: "lenv \<Rightarrow> lcall \<Rightarrow> lstate \<Rightarrow> lstate" where
  "call env c s = (case c of
     Provision \<Rightarrow> snd (provision env s) | Cleanup \<Rightarrow> snd (cleanup env s)
   | Attempt \<Rightarrow> snd (attempt env s))"

fun calls :: "(lenv \<times> lcall) list \<Rightarrow> lstate \<Rightarrow> lstate" where
  "calls [] s = s"
| "calls ((env, c) # cs) s = calls cs (call env c s)"

definition fresh :: "string \<Rightarrow> int \<Rightarrow> string \<Rightarrow> lstate" where
  "fresh r starts digest = \<lparr>body = initial_body r starts digest, owner = False, trace = []\<rparr>"



section \<open>The protocol the lifecycle promises\<close>

text \<open>The journal key under which an effect is issued; reads and the clock have none.\<close>

fun lkey :: "lev \<Rightarrow> string option" where
  "lkey (LCreate kind name) = Some (create_key name)"
| "lkey (LInitializeGuard r a b) = Some ''initialize_guard''"
| "lkey (LInstall bs r a b) = Some ''install''"
| "lkey (LDisable r) = Some ''disable''"
| "lkey (LRestore d) = Some ''restore''"
| "lkey (LDelete kind name i) = Some (delete_key name)"
| "lkey _ = None"

definition did :: "ltrace \<Rightarrow> lev \<Rightarrow> pyval \<Rightarrow> bool" where
  "did tr e v \<longleftrightarrow> (e, Inr v) \<in> set tr"

definition created :: "ltrace \<Rightarrow> string \<times> string \<Rightarrow> bool" where
  "created tr row \<longleftrightarrow>
     (\<exists>v. did tr (LCreate (fst row) (snd row)) v \<and> check_identity (fst row) (snd row) v = Inr v)"

definition absent_seen :: "ltrace \<Rightarrow> string \<times> string \<Rightarrow> bool" where
  "absent_seen tr row \<longleftrightarrow> did tr (LAbsent (fst row) (snd row)) (PBool True)"

text \<open>The last call was a guard read that shows the guard ready (enabled or disabled).\<close>

definition guard_seen :: "lbody \<Rightarrow> bool \<Rightarrow> ltrace \<Rightarrow> bool" where
  "guard_seen B disabled tr \<longleftrightarrow> tr \<noteq> [] \<and>
     (\<exists>g. last tr = (LGuard (run B), Inr (PDict g)) \<and> guard_ready B disabled g)"

definition clock_seen :: "lbody \<Rightarrow> ltrace \<Rightarrow> bool" where
  "clock_seen B tr \<longleftrightarrow> tr \<noteq> [] \<and>
     (\<exists>n. last tr = (LClock, Inr (PInt n)) \<and> startsAt B \<le> n \<and> n < expiresAt B)"

definition restored_seen :: "lbody \<Rightarrow> ltrace \<Rightarrow> bool" where
  "restored_seen B tr \<longleftrightarrow>
     (\<exists>x. did tr (LRestore (captureDigest B)) x \<and> py_eq x (exact_restore B))"

text \<open>
  What must have happened before an effect may be issued: nothing is created outside the
  journal's lifetime or before its absence was observed; nothing is published before every
  resource was acknowledged and the guard read back enabled; production is restored only
  after admission was disabled and read back; nothing is deleted before the exact
  restoration, and then only under the identity the creation acknowledged.
\<close>

fun permitted :: "lbody \<Rightarrow> ltrace \<Rightarrow> lev \<Rightarrow> bool" where
  "permitted B tr (LCreate kind name) =
     ((kind, name) \<in> set (resources B) \<and> clock_seen B tr \<and> absent_seen tr (kind, name))"
| "permitted B tr (LInitializeGuard r a b) =
     (r = run B \<and> a = startsAt B \<and> b = expiresAt B \<and> (\<forall>row\<in>set (resources B). created tr row))"
| "permitted B tr (LInstall bs r a b) =
     (bs = QUALIFICATION_BINDINGS \<and> r = run B \<and> a = qualificationStartsAt B \<and>
      b = qualificationExpiresAt B \<and> guard_seen B False tr \<and>
      (\<forall>row\<in>set (resources B). created tr row))"
| "permitted B tr (LDisable r) = (r = run B)"
| "permitted B tr (LRestore d) =
     (d = captureDigest B \<and> did tr (LDisable (run B)) (PBool True) \<and> guard_seen B True tr)"
| "permitted B tr (LDelete kind name v) =
     ((kind, name) \<in> set (resources B) \<and> did tr (LDisable (run B)) (PBool True) \<and>
      restored_seen B tr \<and> did tr (LCreate kind name) v \<and> check_identity kind name v = Inr v)"
| "permitted B tr _ = True"

definition justified :: "lbody \<Rightarrow> ltrace \<Rightarrow> bool" where
  "justified B tr \<longleftrightarrow> (\<forall>i<length tr. permitted B (take i tr) (fst (tr ! i)))"

lemma justified_Nil [simp]: "justified B []"
  by (simp add: justified_def)

lemma justified_snoc [simp]: "justified B (tr @ [x]) \<longleftrightarrow> justified B tr \<and> permitted B tr (fst x)"
  by (auto simp: justified_def nth_append less_Suc_eq)

lemma did_append [simp]: "did (tr @ zs) e v \<longleftrightarrow> did tr e v \<or> did zs e v"
  by (auto simp: did_def)

lemma did_mono: "did tr e v \<Longrightarrow> did (tr @ zs) e v"
  by simp

lemma created_append: "created tr row \<Longrightarrow> created (tr @ zs) row"
  by (auto simp: created_def)

lemma same_scope_refl [simp]: "same_scope b b"
  by (simp add: same_scope_def)

lemma guard_ready_scope: "same_scope b B \<Longrightarrow> guard_ready b d g = guard_ready B d g"
  by (simp add: guard_ready_def same_scope_def)

lemma exact_restore_scope: "same_scope b B \<Longrightarrow> exact_restore b = exact_restore B"
  by (simp add: exact_restore_def same_scope_def)

lemma latch_Inr:
  "latch key b = Inr b' \<longleftrightarrow> map_of (operations b) key = None \<and>
     b' = b\<lparr>operations := operations b @
       [(key, \<lparr>attempted = True, acknowledged = False, result = None\<rparr>)]\<rparr>"
  by (auto simp: latch_def)

definition op_keys :: "lbody \<Rightarrow> string set" where
  "op_keys b = fst ` set (operations b)"

interpretation lj: one_shot op_keys "\<lambda>k. k" latch
  by unfold_locales (auto simp: latch_Inr map_of_eq_None_iff op_keys_def)

lemma map_of_acknowledge:
  "map_of (operations (acknowledge key r b)) k =
     (if k = key then map_option (\<lambda>e. e\<lparr>result := Some r, acknowledged := True\<rparr>) (map_of (operations b) k)
      else map_of (operations b) k)"
proof -
  have "map_of (map (\<lambda>(k, e). if k = key then (k, f e) else (k, e)) xs) k =
    (if k = key then map_option f (map_of xs k) else map_of xs k)" for f :: "op_entry \<Rightarrow> op_entry" and xs
    by (induction xs) auto
  then show ?thesis by (simp add: acknowledge_def)
qed

lemma keys_acknowledge [simp]: "op_keys (acknowledge key r b) = op_keys b"
  by (force simp: acknowledge_def op_keys_def)

lemma key_distinct [simp]:
  "create_key n \<noteq> delete_key m" "delete_key m \<noteq> create_key n"
  "create_key n \<noteq> ''preflight''" "create_key n \<noteq> ''initialize_guard''" "create_key n \<noteq> ''install''"
  "create_key n \<noteq> ''disable''" "create_key n \<noteq> ''restore''"
  "''preflight'' \<noteq> create_key n" "''initialize_guard'' \<noteq> create_key n" "''install'' \<noteq> create_key n"
  "''disable'' \<noteq> create_key n" "''restore'' \<noteq> create_key n"
  "create_key n = create_key m \<longleftrightarrow> n = m"
  by (auto simp: create_key_def delete_key_def)

lemma lkey_create: "lkey e = Some (create_key name) \<Longrightarrow> \<exists>kind. e = LCreate kind name"
  by (cases e) auto



section \<open>The invariant and its preservation\<close>

text \<open>What a latch or an acknowledgement leaves alone.\<close>

definition journal_step :: "lbody \<Rightarrow> lbody \<Rightarrow> bool" where
  "journal_step b' b \<longleftrightarrow> same_scope b' b \<and> cleanupConfirmed b' = cleanupConfirmed b"

text \<open>Facts that only grow: kept by every port call and by every journal write.\<close>

definition lasting :: "(lstate \<Rightarrow> bool) \<Rightarrow> bool" where
  "lasting A \<longleftrightarrow>
     (\<forall>s x. A s \<longrightarrow> A (s\<lparr>trace := trace s @ [x]\<rparr>)) \<and>
     (\<forall>s b. A s \<longrightarrow> journal_step b (body s) \<longrightarrow> A (s\<lparr>body := b\<rparr>))"

lemma lasting_trace: "(\<And>tr x. A tr \<Longrightarrow> A (tr @ [x])) \<Longrightarrow> lasting (\<lambda>s. A (trace s))"
  by (simp add: lasting_def)

lemma lasting_did: "lasting (\<lambda>s. did (trace s) e v)"
  by (rule lasting_trace) simp

lemma lasting_created: "lasting (\<lambda>s. created (trace s) row)"
  by (rule lasting_trace) (rule created_append)

lemma lasting_all: "(\<And>x. lasting (\<lambda>s. A x s)) \<Longrightarrow> lasting (\<lambda>s. \<forall>x\<in>S. A x s)"
  by (auto simp: lasting_def)

lemma lasting_conj: "lasting A \<Longrightarrow> lasting C \<Longrightarrow> lasting (\<lambda>s. A s \<and> C s)"
  by (auto simp: lasting_def)

lemma lasting_restored: "lasting (\<lambda>s. restored_seen B (trace s))"
  by (rule lasting_trace) (auto simp: restored_seen_def)

lemma lasting_absent: "lasting (\<lambda>s. absent_seen (trace s) row)"
  unfolding absent_seen_def by (rule lasting_did)

lemmas lasting_intros = lasting_did lasting_created lasting_all lasting_conj lasting_restored
  lasting_absent


lemma lasting_confirmed: "lasting (\<lambda>s. cleanupConfirmed (body s) = c)"
  by (simp add: lasting_def journal_step_def)

lemma journal_step_latch: "latch key b = Inr b' \<Longrightarrow> journal_step b' b"
  by (auto simp: latch_Inr same_scope_def journal_step_def)

lemma journal_step_acknowledge: "journal_step (acknowledge key r b) b"
  by (simp add: acknowledge_def same_scope_def journal_step_def)

lemma keeps_port: "lasting A \<Longrightarrow> keeps A (port env e)"
  by (auto simp: keeps_def port_def lasting_def Let_def)

lemma keeps_state [simp]: "keeps A state_act"
  by (simp add: state_act_def)

lemma keeps_save: "lasting A \<Longrightarrow> (\<And>b. journal_step (f b) b) \<Longrightarrow> keeps A (save f)"
  unfolding save_def by (rule keeps_modify) (auto simp: lasting_def)

lemma keeps_once: "lasting A \<Longrightarrow> keeps A op \<Longrightarrow> keeps A (once key op)"
proof -
  assume A: "lasting A" and op: "keeps A op"
  have rest: "keeps A (bind_act op (\<lambda>r. then_act (save (acknowledge key r)) (return_act r)))"
    by (intro keeps_intros op keeps_save [OF A] journal_step_acknowledge)
  show ?thesis
    unfolding keeps_def
  proof (intro allI impI)
    fix s assume s: "A s"
    show "A (snd (once key op s))"
    proof (cases "latch key (body s)")
      case (Inl e)
      with s show ?thesis by (simp add: once_def act_simps state_act_def)
    next
      case (Inr b)
      with A s journal_step_latch [OF Inr] have "A (s\<lparr>body := b\<rparr>)" by (simp add: lasting_def)
      with rest Inr show ?thesis
        by (simp add: once_def state_act_def save_def keeps_def)
    qed
  qed
qed

lemma keeps_time: "lasting A \<Longrightarrow> keeps A (time env)"
  unfolding time_def by (intro keeps_intros keeps_port keeps_state)

lemma keeps_guard: "lasting A \<Longrightarrow> keeps A (guard env d)"
  unfolding guard_def qualification_window_def
  by (intro keeps_intros keeps_port keeps_state keeps_time)
     (auto split: pyval.split option.split intro: keeps_intros)

lemma keeps_create: "lasting A \<Longrightarrow> keeps A (create env kind name)"
  unfolding create_def by (intro keeps_intros keeps_port)

lemma keeps_confirm: "lasting A \<Longrightarrow> keeps A op \<Longrightarrow> keeps A (confirm key op c)"
  unfolding confirm_def by (intro keeps_intros keeps_once)

lemma keeps_provision_row: "lasting A \<Longrightarrow> keeps A (provision_row env row)"
  unfolding provision_row_def by (intro keeps_intros keeps_time keeps_once keeps_create)

lemma keeps_delete_row: "lasting A \<Longrightarrow> keeps A (delete_row env row)"
  unfolding delete_row_def
  by (intro keeps_intros keeps_state)
     (auto split: option.split intro!: keeps_intros keeps_confirm keeps_port)

lemma keeps_preflight: "lasting A \<Longrightarrow> keeps A (preflight env rows)"
  unfolding preflight_def by (intro keeps_intros) (auto intro!: keeps_intros keeps_port)

lemmas keeps_lasting = keeps_port keeps_once keeps_time keeps_guard keeps_create keeps_confirm
  keeps_provision_row keeps_delete_row keeps_preflight

text \<open>An acknowledged creation of the journal is a creation of the trace.\<close>

definition acks_ok :: "lbody \<Rightarrow> lstate \<Rightarrow> bool" where
  "acks_ok B s \<longleftrightarrow> (\<forall>row\<in>set (resources B). \<forall>en.
     map_of (operations (body s)) (create_key (snd row)) = Some en \<longrightarrow> acknowledged en \<longrightarrow>
     (\<exists>v. result en = Some v \<and> did (trace s) (LCreate (fst row) (snd row)) v \<and>
          check_identity (fst row) (snd row) v = Inr v))"

definition linv :: "lbody \<Rightarrow> lstate \<Rightarrow> bool" where
  "linv B s \<longleftrightarrow> same_scope (body s) B \<and> distinct (map snd (resources B)) \<and>
     lj.once_ok (lkey \<circ> fst) (body s) (trace s) \<and> justified B (trace s) \<and> acks_ok B s"

lemma acks_ok_append: "acks_ok B s \<Longrightarrow> acks_ok B (s\<lparr>trace := trace s @ [x]\<rparr>)"
  by (fastforce simp: acks_ok_def)

lemma linv_port:
  assumes "linv B s" and "lkey e = None" and "permitted B (trace s) e"
  shows "linv B (s\<lparr>trace := trace s @ [(e, r)]\<rparr>)"
  using assms by (simp add: linv_def lj.once_ok_other acks_ok_append)

lemma hoare_read:
  assumes "lkey e = None" and "\<And>tr. permitted B tr e"
  shows "hoare (linv B) P (port env e)
           (\<lambda>v s. trace s \<noteq> [] \<and> last (trace s) = (e, Inr v) \<and> did (trace s) e v)"
  by (rule hoareI) (auto simp: port_def Let_def did_def assms intro!: linv_port)

lemma linv_owner [simp]: "linv B (s\<lparr>owner := x\<rparr>) = linv B s"
  by (simp add: linv_def acks_ok_def)

lemma linv_acknowledge:
  assumes "linv B s" and "\<And>row v. row \<in> set (resources B) \<Longrightarrow> key = create_key (snd row) \<Longrightarrow>
      did (trace s) (LCreate (fst row) (snd row)) r \<and> check_identity (fst row) (snd row) r = Inr r"
  shows "linv B (s\<lparr>body := acknowledge key r (body s)\<rparr>)"
proof -
  have "same_scope (acknowledge key r (body s)) B"
    using assms(1) journal_step_acknowledge [of key r "body s"]
    by (auto simp: linv_def same_scope_def journal_step_def)
  moreover have "acks_ok B (s\<lparr>body := acknowledge key r (body s)\<rparr>)"
    using assms by (auto simp: linv_def acks_ok_def map_of_acknowledge)
  ultimately show ?thesis
    using assms(1) by (auto simp: linv_def lj.once_ok_def)
qed

lemma linv_latch:
  assumes "linv B s" and "latch key (body s) = Inr b"
  shows "linv B (s\<lparr>body := b\<rparr>)"
proof -
  have "same_scope b B"
    using assms journal_step_latch [OF assms(2)]
    by (auto simp: linv_def same_scope_def journal_step_def)
  moreover have "acks_ok B (s\<lparr>body := b\<rparr>)"
    using assms by (auto simp: linv_def acks_ok_def latch_Inr map_add_def split: option.splits)
  moreover have "lj.once_ok (lkey \<circ> fst) b (trace s)"
    by (rule lj.once_ok_grow [of "body s"]) (use assms in \<open>auto simp: linv_def latch_Inr op_keys_def\<close>)
  ultimately show ?thesis using assms(1) by (simp add: linv_def)
qed

text \<open>An operation that makes exactly the one call \<open>e\<close> and returns only what was answered.\<close>

definition fires :: "lev \<Rightarrow> (pyval \<Rightarrow> bool) \<Rightarrow> (lstate, pyval) act \<Rightarrow> bool" where
  "fires e V op \<longleftrightarrow> (\<forall>s. \<exists>a q. op s = (q, s\<lparr>trace := trace s @ [(e, a)]\<rparr>) \<and>
     (\<forall>v. q = Inr v \<longrightarrow> a = Inr v \<and> V v))"

lemma fires_port: "fires e (\<lambda>_. True) (port env e)"
  by (auto simp: fires_def port_def Let_def)

lemma check_identity_Inr: "check_identity kind name v = Inr u \<Longrightarrow> u = v"
  by (auto simp: check_identity_def split: pyval.splits if_splits)

lemma fires_create:
  "fires (LCreate kind name) (\<lambda>v. check_identity kind name v = Inr v) (create env kind name)"
  unfolding fires_def create_def
proof
  fix s :: lstate
  define a where "a = env (trace s) (LCreate kind name)"
  show "\<exists>a q. bind_act (port env (LCreate kind name)) (\<lambda>v. lift_res (check_identity kind name v)) s
      = (q, s\<lparr>trace := trace s @ [(LCreate kind name, a)]\<rparr>) \<and>
      (\<forall>v. q = Inr v \<longrightarrow> a = Inr v \<and> check_identity kind name v = Inr v)"
    by (intro exI [of _ a] exI [of _ "bind_res a (check_identity kind name)"])
       (cases a; auto simp: port_def Let_def act_simps a_def dest: check_identity_Inr)
qed

lemma linv_fire:
  assumes "linv B s" and "latch key (body s) = Inr b" and "lkey e = Some key"
    and "permitted B (trace s) e"
  shows "linv B (s\<lparr>body := b, trace := trace s @ [(e, a)]\<rparr>)"
proof -
  from assms(1,2) have l: "linv B (s\<lparr>body := b\<rparr>)" by (rule linv_latch)
  have "lj.once_ok (lkey \<circ> fst) b (trace s @ [(e, a)])"
    by (rule lj.once_ok_spend [OF assms(2)]) (use assms in \<open>auto simp: linv_def\<close>)
  with l assms(4) acks_ok_append [of B "s\<lparr>body := b\<rparr>" "(e, a)"] show ?thesis
    by (simp add: linv_def)
qed

lemma hoare_once_fires:
  assumes op: "fires e V op" and key: "lkey e = Some key"
    and V: "\<And>kind name v. e = LCreate kind name \<Longrightarrow> V v \<Longrightarrow> check_identity kind name v = Inr v"
  shows "hoare (linv B) (\<lambda>s. permitted B (trace s) e) (once key op) (\<lambda>v s. did (trace s) e v \<and> V v)"
proof (rule hoareI)
  fix s r t
  assume I: "linv B s" and P: "permitted B (trace s) e" and run: "once key op s = (r, t)"
  show "linv B t \<and> (\<forall>v. r = Inr v \<longrightarrow> did (trace t) e v \<and> V v)"
  proof (cases "latch key (body s)")
    case (Inl x)
    with run I show ?thesis by (auto simp: once_def state_act_def raise_act_def)
  next
    case (Inr b)
    obtain a q where fire: "op (s\<lparr>body := b\<rparr>) = (q, s\<lparr>body := b, trace := trace s @ [(e, a)]\<rparr>)"
      and q: "\<And>v. q = Inr v \<Longrightarrow> a = Inr v \<and> V v"
      using op [unfolded fires_def, rule_format, of "s\<lparr>body := b\<rparr>"] by auto
    let ?u = "s\<lparr>body := b, trace := trace s @ [(e, a)]\<rparr>"
    have u: "linv B ?u" by (rule linv_fire [OF I Inr key P])
    show ?thesis
    proof (cases q)
      case (Inl x)
      with run Inr fire u show ?thesis
        by (auto simp: once_def state_act_def save_def bind_act_def [of op])
    next
      case v: (Inr v)
      from q [OF v] have a: "a = Inr v" and Vv: "V v" by auto
      have "linv B (?u\<lparr>body := acknowledge key v (body ?u)\<rparr>)"
      proof (rule linv_acknowledge [OF u])
        fix row assume row: "row \<in> set (resources B)" and k: "key = create_key (snd row)"
        from key k obtain kind where e: "e = LCreate kind (snd row)" by (auto dest: lkey_create)
        with P have "(kind, snd row) \<in> set (resources B)" by simp
        with row I have "(kind, snd row) = row"
          unfolding linv_def distinct_map inj_on_def by (metis snd_conv)
        then have "kind = fst row" by (metis fst_conv)
        with e Vv V a show "did (trace ?u) (LCreate (fst row) (snd row)) v \<and>
            check_identity (fst row) (snd row) v = Inr v"
          by (auto simp: did_def)
      qed
      with run Inr fire v a Vv show ?thesis
        by (auto simp: once_def state_act_def save_def bind_act_def [of op] return_act_def did_def)
    qed
  qed
qed

lemma hoare_confirm_fires:
  assumes "fires e V op" and "lkey e = Some key" and "\<And>kind name. e \<noteq> LCreate kind name"
  shows "hoare (linv B) (\<lambda>s. permitted B (trace s) e) (confirm key op c)
           (\<lambda>_ s. did (trace s) e (PBool True))"
  unfolding confirm_def
  by (rule hoare_bind [OF hoare_once_fires [OF assms(1,2)]], use assms(3) in blast)
     (rule hoare_post [OF hoare_require], auto simp: is_bool_def)

lemma hoare_once_quiet:
  assumes op: "hoare (linv B) P op Q" and P: "\<And>s b. P s \<Longrightarrow> P (s\<lparr>body := b\<rparr>)"
    and Q: "\<And>v s b. Q v s \<Longrightarrow> Q v (s\<lparr>body := b\<rparr>)" and key: "\<And>n. key \<noteq> create_key n"
  shows "hoare (linv B) P (once key op) Q"
proof (rule hoareI)
  fix s r t
  assume I: "linv B s" and s: "P s" and run: "once key op s = (r, t)"
  show "linv B t \<and> (\<forall>v. r = Inr v \<longrightarrow> Q v t)"
  proof (cases "latch key (body s)")
    case (Inl x)
    with run I show ?thesis by (auto simp: once_def state_act_def raise_act_def)
  next
    case (Inr b)
    obtain q u where o: "op (s\<lparr>body := b\<rparr>) = (q, u)" by force
    from op linv_latch [OF I Inr] P [OF s] o have u: "linv B u" "\<forall>v. q = Inr v \<longrightarrow> Q v u"
      by (auto simp: hoare_def)
    show ?thesis
    proof (cases q)
      case (Inl x)
      with run Inr o u show ?thesis
        by (auto simp: once_def state_act_def save_def bind_act_def [of op])
    next
      case v: (Inr v)
      have "linv B (u\<lparr>body := acknowledge key v (body u)\<rparr>)"
        by (rule linv_acknowledge [OF u(1)]) (use key in auto)
      with run Inr o u v Q show ?thesis
        by (auto simp: once_def state_act_def save_def bind_act_def [of op] return_act_def)
    qed
  qed
qed

lemma hoare_state: "hoare I P state_act (\<lambda>b s. P s \<and> b = body s)"
  unfolding state_act_def by (rule hoare_gets)

lemma hoare_time: "hoare (linv B) P (time env) (\<lambda>_ s. clock_seen B (trace s))"
proof (rule hoareI)
  fix s r t assume I: "linv B s" and m: "time env s = (r, t)"
  from I have "same_scope (body s) B" by (simp add: linv_def)
  with I m linv_port [OF I, of LClock "env (trace s) LClock"]
  show "linv B t \<and> (\<forall>x. r = Inr x \<longrightarrow> clock_seen B (trace t))"
    by (auto simp: time_def state_act_def port_def Let_def act_simps clock_seen_def same_scope_def
        split: sum.splits pyval.splits if_splits)
qed

lemma hoare_qualification_window: "hoare (linv B) P (qualification_window env) (\<lambda>_ _. True)"
  unfolding qualification_window_def
  by (rule hoare_bind [OF hoare_state], rule hoare_bind [OF hoare_read [where P = "\<lambda>_. True", THEN hoare_pre]])
     (auto simp: hoare_def act_simps split: option.splits)

lemma hoare_guard: "hoare (linv B) P (guard env d) (\<lambda>_ s. guard_seen B d (trace s))"
proof -
  have start: "hoare (linv B) P
      (if d then return_act () else then_act (time env) (qualification_window env)) (\<lambda>_ _. True)"
    by (auto intro!: hoare_return hoare_then [OF hoare_time] hoare_qualification_window)
  have read: "hoare (linv B) (\<lambda>_. True) (bind_act state_act (\<lambda>b. bind_act (port env (LGuard (run b)))
      (\<lambda>g. case g of PDict dd \<Rightarrow> require_act (guard_ready b d dd) ''durable_guard_not_ready''
        | _ \<Rightarrow> raise_act Crash))) (\<lambda>_ s. guard_seen B d (trace s))"
  proof (rule hoareI)
    fix s r t assume I: "linv B s" and m: "bind_act state_act (\<lambda>b. bind_act (port env (LGuard (run b)))
      (\<lambda>g. case g of PDict dd \<Rightarrow> require_act (guard_ready b d dd) ''durable_guard_not_ready''
        | _ \<Rightarrow> raise_act Crash)) s = (r, t)"
    from I have sc: "same_scope (body s) B" by (simp add: linv_def)
    with I m linv_port [OF I, of "LGuard (run B)" "env (trace s) (LGuard (run B))"]
    show "linv B t \<and> (\<forall>x. r = Inr x \<longrightarrow> guard_seen B d (trace t))"
      by (auto simp: state_act_def port_def Let_def act_simps guard_seen_def guard_ready_scope [OF sc]
          same_scope_def split: sum.splits pyval.splits if_splits)
  qed
  show ?thesis unfolding guard_def by (rule hoare_then [OF start read])
qed

lemma hoare_preflight:
  "hoare (linv B) (\<lambda>_. True) (preflight env rows)
     (\<lambda>v s. is_bool True v \<longrightarrow> (\<forall>row\<in>set rows. absent_seen (trace s) row))"
proof -
  let ?f = "\<lambda>(kind, name). bind_act (port env (LAbsent kind name)) (\<lambda>v. return_act (is_bool True v))"
  have row: "hoare (linv B) (\<lambda>_. True) (?f row) (\<lambda>b s. True \<and> (b \<longrightarrow> absent_seen (trace s) row))" for row
    by (cases row)
       (auto simp: absent_seen_def is_bool_def intro!: hoare_bind [OF hoare_read] hoare_return)
  have keep: "keeps (\<lambda>s. absent_seen (trace s) row) (?f row')" for row row'
    by (cases row') (auto intro!: keeps_intros keeps_port lasting_intros)
  show ?thesis
    unfolding preflight_def
    by (rule hoare_bind [OF hoare_all [where P = "\<lambda>_. True" and D = "\<lambda>row s. absent_seen (trace s) row", OF row keep]])
       (auto simp: is_bool_def intro: hoare_return)
qed

lemma hoare_provision_row:
  "hoare (linv B) (\<lambda>s. absent_seen (trace s) row \<and> row \<in> set (resources B)) (provision_row env row)
     (\<lambda>_ s. created (trace s) row)"
proof -
  have "hoare (linv B) (\<lambda>s. True \<and> (absent_seen (trace s) row \<and> row \<in> set (resources B))) (time env)
      (\<lambda>_ s. clock_seen B (trace s) \<and> (absent_seen (trace s) row \<and> row \<in> set (resources B)))"
    by (rule hoare_frame [OF hoare_time keeps_time])
       (auto simp: lasting_def absent_seen_def)
  then have t: "hoare (linv B) (\<lambda>s. absent_seen (trace s) row \<and> row \<in> set (resources B)) (time env)
      (\<lambda>_ s. permitted B (trace s) (LCreate (fst row) (snd row)))"
    by (rule hoare_post [OF hoare_pre]) auto
  have c: "hoare (linv B) (\<lambda>s. permitted B (trace s) (LCreate (fst row) (snd row)))
      (once (create_key (snd row)) (create env (fst row) (snd row)))
      (\<lambda>v s. did (trace s) (LCreate (fst row) (snd row)) v \<and>
         check_identity (fst row) (snd row) v = Inr v)"
    by (rule hoare_once_fires [OF fires_create]) auto
  show ?thesis
    unfolding provision_row_def
    by (rule hoare_then [OF t], rule hoare_bind [OF c], rule hoare_return) (auto simp: created_def)
qed

text \<open>Every creation that was ever attempted is a known one and was deleted under its identity.\<close>

definition settled :: "ltrace \<Rightarrow> string \<times> string \<Rightarrow> bool" where
  "settled tr row \<longleftrightarrow> (\<forall>r. (LCreate (fst row) (snd row), r) \<in> set tr \<longrightarrow>
     (\<exists>v. did tr (LCreate (fst row) (snd row)) v \<and>
          did tr (LDelete (fst row) (snd row) v) (PBool True)))"

lemma settled_append: "settled tr row \<Longrightarrow> (\<And>k n. e \<noteq> LCreate k n) \<Longrightarrow> settled (tr @ [(e, a)]) row"
  by (auto simp: settled_def)

lemma not_created_settled:
  assumes "linv B s" and "map_of (operations (body s)) (create_key (snd row)) = None"
  shows "settled (trace s) row"
proof -
  have "(LCreate (fst row) (snd row), r) \<notin> set (trace s)" for r
  proof
    assume "(LCreate (fst row) (snd row), r) \<in> set (trace s)"
    then have "create_key (snd row) \<in> set (keys_used (lkey \<circ> fst) (trace s))"
      by (rule keys_used_mem) simp
    with assms show False
      by (auto simp: linv_def lj.once_ok_def op_keys_def map_of_eq_None_iff)
  qed
  then show ?thesis by (simp add: settled_def)
qed

lemma confirm_port_trace:
  "confirm key (port env e) c s = (r, t) \<Longrightarrow> trace t = trace s \<or> (\<exists>a. trace t = trace s @ [(e, a)])"
  by (auto simp: confirm_def once_def state_act_def save_def port_def Let_def act_simps
      split: sum.splits prod.splits if_splits)

lemma delete_row_trace:
  "delete_row env row s = (r, t) \<Longrightarrow>
     trace t = trace s \<or> (\<exists>v a. trace t = trace s @ [(LDelete (fst row) (snd row) v, a)])"
  unfolding delete_row_def
  by (auto simp: state_act_def return_act_def raise_act_def split: option.splits if_splits
      dest: confirm_port_trace)

lemma keeps_settled_delete_row: "keeps (\<lambda>s. settled (trace s) row') (delete_row env row)"
  unfolding keeps_def
proof (intro allI impI)
  fix s :: lstate assume s: "settled (trace s) row'"
  obtain r t where d: "delete_row env row s = (r, t)" by force
  from s delete_row_trace [OF d] have "settled (trace t) row'" by (auto intro: settled_append)
  with d show "settled (trace (snd (delete_row env row s))) row'" by simp
qed

lemma hoare_delete_row:
  "hoare (linv B) (\<lambda>s. row \<in> set (resources B) \<and> did (trace s) (LDisable (run B)) (PBool True) \<and>
       restored_seen B (trace s)) (delete_row env row) (\<lambda>_ s. settled (trace s) row)"
proof (rule hoareI)
  fix s r t
  assume I: "linv B s" and P: "row \<in> set (resources B) \<and> did (trace s) (LDisable (run B)) (PBool True) \<and>
       restored_seen B (trace s)" and m: "delete_row env row s = (r, t)"
  show "linv B t \<and> (\<forall>x. r = Inr x \<longrightarrow> settled (trace t) row)"
  proof (cases "map_of (operations (body s)) (create_key (snd row))")
    case None
    with m I not_created_settled [OF I None] show ?thesis
      by (auto simp: delete_row_def state_act_def return_act_def)
  next
    case (Some en)
    show ?thesis
    proof (cases "acknowledged en")
      case False
      with m Some I show ?thesis by (auto simp: delete_row_def state_act_def raise_act_def)
    next
      case True
      with I P Some obtain v where v: "result en = Some v"
        "did (trace s) (LCreate (fst row) (snd row)) v" "check_identity (fst row) (snd row) v = Inr v"
        by (auto simp: linv_def acks_ok_def)
      let ?e = "LDelete (fst row) (snd row) v"
      have c: "confirm (delete_key (snd row)) (port env ?e) ''deletion_absence_unconfirmed'' s = (r, t)"
        using m Some True v by (simp add: delete_row_def state_act_def)
      have p: "permitted B (trace s) ?e" using P v by simp
      have h: "hoare (linv B) (\<lambda>s. permitted B (trace s) ?e)
          (confirm (delete_key (snd row)) (port env ?e) ''deletion_absence_unconfirmed'')
          (\<lambda>_ s. did (trace s) ?e (PBool True))"
        by (rule hoare_confirm_fires [OF fires_port]) auto
      have "did (trace t) (LCreate (fst row) (snd row)) v"
        using v(2) c by (auto dest!: confirm_port_trace)
      with hoareD [OF h I p c] hoareD_value [OF h I p] c show ?thesis
        by (auto simp: settled_def)
    qed
  qed
qed

lemma hoare_state_scope:
  "hoare (linv B) P state_act (\<lambda>b s. (P s \<and> b = body s) \<and> same_scope b B)"
  by (rule hoareI) (auto simp: state_act_def act_simps linv_def)

lemma hoare_provision_tail:
  assumes "same_scope b B"
  shows "hoare (linv B) (\<lambda>s. \<forall>row\<in>set (resources B). created (trace s) row)
     (then_act (confirm ''initialize_guard''
                 (port env (LInitializeGuard (run b) (startsAt b) (expiresAt b)))
                 ''guard_initialization_unconfirmed'')
    (then_act (guard env False)
    (then_act (confirm ''install''
                 (port env (LInstall QUALIFICATION_BINDINGS (run b)
                    (qualificationStartsAt b) (qualificationExpiresAt b)))
                 ''install_unconfirmed'')
       (guard env False))))
     (\<lambda>_ s. guard_seen B False (trace s))"
    (is "hoare _ ?C (then_act ?init (then_act _ (then_act ?install _))) _")
proof -
  have lC: "lasting ?C" by (intro lasting_intros)
  have init: "hoare (linv B) (\<lambda>s. permitted B (trace s) (LInitializeGuard (run b) (startsAt b) (expiresAt b)) \<and> ?C s)
      ?init (\<lambda>_ s. did (trace s) (LInitializeGuard (run b) (startsAt b) (expiresAt b)) (PBool True) \<and> ?C s)"
    by (rule hoare_frame [OF hoare_confirm_fires [OF fires_port]]) (auto intro!: keeps_lasting lC)
  have g: "hoare (linv B) (\<lambda>s. True \<and> ?C s) (guard env False) (\<lambda>_ s. guard_seen B False (trace s) \<and> ?C s)"
    by (rule hoare_frame [OF hoare_guard]) (intro keeps_lasting lC)
  have install: "hoare (linv B) (\<lambda>s. permitted B (trace s) (LInstall QUALIFICATION_BINDINGS (run b)
      (qualificationStartsAt b) (qualificationExpiresAt b))) ?install (\<lambda>_ _. True)"
    by (rule hoare_post [OF hoare_confirm_fires [OF fires_port]]) auto
  show ?thesis
  proof (rule hoare_then [OF hoare_pre [OF init]])
    fix s :: lstate assume "\<forall>row\<in>set (resources B). created (trace s) row"
    with assms show "permitted B (trace s) (LInitializeGuard (run b) (startsAt b) (expiresAt b)) \<and> ?C s"
      by (simp add: same_scope_def)
  next
    show "hoare (linv B) (\<lambda>s. did (trace s) (LInitializeGuard (run b) (startsAt b) (expiresAt b)) (PBool True) \<and> ?C s)
        (then_act (guard env False) (then_act ?install (guard env False))) (\<lambda>_ s. guard_seen B False (trace s))"
      by (rule hoare_then [OF hoare_pre [OF g]], simp,
          rule hoare_then [OF hoare_pre [OF install] hoare_guard])
         (use assms in \<open>simp add: same_scope_def\<close>)
  qed
qed

lemma hoare_provision_body:
  "hoare (linv B) (\<lambda>_. True) (provision_body env) (\<lambda>_ s. guard_seen B False (trace s))"
proof -
  let ?A = "\<lambda>s. \<forall>row\<in>set (resources B). absent_seen (trace s) row"
  have pre: "hoare (linv B) (\<lambda>_. True) (confirm ''preflight'' (preflight env (resources B)) c) (\<lambda>_. ?A)" for c
    unfolding confirm_def
    by (rule hoare_bind [OF hoare_once_quiet [OF hoare_preflight]])
       (auto intro: hoare_post [OF hoare_require])
  have lA: "lasting ?A" by (intro lasting_intros)
  have rows: "hoare (linv B) ?A (each_act (provision_row env) (resources B))
      (\<lambda>_ s. ?A s \<and> (\<forall>row\<in>set (resources B). created (trace s) row))"
  proof (rule hoare_each)
    fix row assume "row \<in> set (resources B)"
    then show "hoare (linv B) ?A (provision_row env row) (\<lambda>_ s. ?A s \<and> created (trace s) row)"
      by (intro hoare_post [OF hoare_pre [OF hoare_frame [OF hoare_provision_row
            keeps_provision_row [OF lA]]]]) auto
  qed (intro keeps_lasting lasting_intros)
  have tail: "hoare (linv B) (\<lambda>_. True)
     (then_act (require_act ok ''attempt_already_started'')
    (then_act (confirm ''preflight'' (preflight env (resources B)) ''resource_or_secret_preexists'')
    (then_act (each_act (provision_row env) (resources B)) k)))
     (\<lambda>_ s. guard_seen B False (trace s))"
    if "hoare (linv B) (\<lambda>s. \<forall>row\<in>set (resources B). created (trace s) row) k (\<lambda>_ s. guard_seen B False (trace s))"
    for ok k
    by (rule hoare_then [OF hoare_require], rule hoare_then [OF hoare_pre [OF pre]], simp,
        rule hoare_then [OF rows], rule hoare_pre [OF that], simp)
  show ?thesis
    unfolding provision_body_def
  proof (rule hoare_then [OF hoare_time], rule hoare_bind [OF hoare_state_scope], rule hoare_assume)
    fix b assume sc: "same_scope b B"
    then have r: "resources b = resources B" by (simp add: same_scope_def)
    show "hoare (linv B) (\<lambda>s. clock_seen B (trace s) \<and> b = body s)
     (then_act (require_act (operations b = []) ''attempt_already_started'')
    (then_act (confirm ''preflight'' (preflight env (resources b)) ''resource_or_secret_preexists'')
    (then_act (each_act (provision_row env) (resources b))
    (then_act (confirm ''initialize_guard''
                 (port env (LInitializeGuard (run b) (startsAt b) (expiresAt b)))
                 ''guard_initialization_unconfirmed'')
    (then_act (guard env False)
    (then_act (confirm ''install''
                 (port env (LInstall QUALIFICATION_BINDINGS (run b)
                    (qualificationStartsAt b) (qualificationExpiresAt b)))
                 ''install_unconfirmed'')
       (guard env False)))))))
     (\<lambda>_ s. guard_seen B False (trace s))"
      unfolding r by (rule hoare_pre [OF tail [OF hoare_provision_tail [OF sc]]]) simp
  qed
qed

lemma hoare_cleanup_try:
  assumes sc: "same_scope b B"
  shows "hoare (linv B) (\<lambda>_. True) (cleanup_try env b)
     (\<lambda>_ s. (did (trace s) (LDisable (run B)) (PBool True) \<and> restored_seen B (trace s)) \<and>
        (\<forall>row\<in>set (resources B). settled (trace s) row))"
proof -
  have eq: "run b = run B" "captureDigest b = captureDigest B" "resources b = resources B"
    "exact_restore b = exact_restore B"
    using sc exact_restore_scope [OF sc] by (auto simp: same_scope_def)
  let ?D = "\<lambda>s. did (trace s) (LDisable (run B)) (PBool True)"
  have disable: "hoare (linv B) (\<lambda>_. True)
      (confirm ''disable'' (port env (LDisable (run B))) ''admission_off_unconfirmed'') (\<lambda>_. ?D)"
    by (rule hoare_pre [OF hoare_confirm_fires [OF fires_port]]) auto
  have g: "hoare (linv B) (\<lambda>s. True \<and> ?D s) (guard env True) (\<lambda>_ s. guard_seen B True (trace s) \<and> ?D s)"
    by (rule hoare_frame [OF hoare_guard]) (intro keeps_lasting lasting_intros)
  have restore: "hoare (linv B) (\<lambda>s. permitted B (trace s) (LRestore (captureDigest B)) \<and> ?D s)
      (once ''restore'' (port env (LRestore (captureDigest B))))
      (\<lambda>v s. (did (trace s) (LRestore (captureDigest B)) v \<and> True) \<and> ?D s)"
    by (rule hoare_frame [OF hoare_once_fires [OF fires_port]])
       (auto intro!: keeps_lasting lasting_intros)
  let ?R = "\<lambda>s. ?D s \<and> restored_seen B (trace s)"
  have rows: "hoare (linv B) ?R (each_act (delete_row env) (rev (resources B)))
      (\<lambda>_ s. ?R s \<and> (\<forall>row\<in>set (rev (resources B)). settled (trace s) row))"
  proof (rule hoare_each)
    fix row assume "row \<in> set (rev (resources B))"
    then have row: "row \<in> set (resources B)" by simp
    have R: "lasting ?R" by (intro lasting_intros)
    show "hoare (linv B) ?R (delete_row env row) (\<lambda>_ s. ?R s \<and> settled (trace s) row)"
      by (rule hoare_post [OF hoare_pre [OF hoare_frame [OF hoare_delete_row keeps_delete_row [OF R]]]])
         (use row in auto)
  qed (rule keeps_settled_delete_row)
  show ?thesis
    unfolding cleanup_try_def eq
  proof (rule hoare_then [OF disable], rule hoare_then [OF hoare_pre [OF g]], simp,
      rule hoare_bind [OF hoare_pre [OF restore]])
    fix s :: lstate assume "guard_seen B True (trace s) \<and> ?D s"
    then show "permitted B (trace s) (LRestore (captureDigest B)) \<and> ?D s" by simp
  next
    fix v
    show "hoare (linv B) (\<lambda>s. (did (trace s) (LRestore (captureDigest B)) v \<and> True) \<and> ?D s)
      (then_act (require_act (py_eq v (exact_restore B)) ''exact_restore_unconfirmed'')
        (then_act (each_act (delete_row env) (rev (resources B))) (return_act True)))
      (\<lambda>_ s. ?R s \<and> (\<forall>row\<in>set (resources B). settled (trace s) row))"
      by (rule hoare_then [OF hoare_require], rule hoare_then [OF hoare_pre [OF rows]])
         (auto simp: restored_seen_def intro: hoare_return)
  qed
qed

lemma keeps_cleanup_try: "lasting A \<Longrightarrow> keeps A (cleanup_try env b)"
  unfolding cleanup_try_def by (intro keeps_intros keeps_lasting)

lemma keeps_provision_body: "lasting A \<Longrightarrow> keeps A (provision_body env)"
  unfolding provision_body_def by (intro keeps_intros keeps_lasting keeps_state)

text \<open>The invariant of every history: a confirmed cleanup stays a complete one.\<close>

definition hinv :: "lbody \<Rightarrow> lstate \<Rightarrow> bool" where
  "hinv B s \<longleftrightarrow> linv B s \<and> (cleanupConfirmed (body s) = Some True \<longrightarrow>
     did (trace s) (LDisable (run B)) (PBool True) \<and> restored_seen B (trace s) \<and>
     (\<forall>row\<in>set (resources B). settled (trace s) row))"

lemma disabled_operations:
  assumes "linv B s" and "did (trace s) (LDisable r) v"
  shows "operations (body s) \<noteq> []"
proof -
  have "''disable'' \<in> set (keys_used (lkey \<circ> fst) (trace s))"
    by (rule keys_used_mem [of "(LDisable r, Inr v)"]) (use assms in \<open>auto simp: did_def\<close>)
  with assms(1) show ?thesis by (auto simp: linv_def lj.once_ok_def op_keys_def)
qed

lemma keeps_hinv_provision: "keeps (hinv B) (provision_body env)"
  unfolding keeps_def
proof (intro allI impI)
  fix s assume s: "hinv B s"
  obtain r t where m: "provision_body env s = (r, t)" by force
  from s have I: "linv B s" by (simp add: hinv_def)
  have t: "linv B t" by (rule hoareD [OF hoare_provision_body I _ m]) simp
  have c: "cleanupConfirmed (body t) = cleanupConfirmed (body s)"
    using keepsD [OF keeps_provision_body [OF lasting_confirmed [of "cleanupConfirmed (body s)"]] _ m]
    by simp
  show "hinv B (snd (provision_body env s))"
  proof (cases "cleanupConfirmed (body s) = Some True")
    case False
    with t c m show ?thesis by (simp add: hinv_def)
  next
    case True
    with s have s': "did (trace s) (LDisable (run B)) (PBool True)" "restored_seen B (trace s)"
      "\<forall>row\<in>set (resources B). settled (trace s) row" by (auto simp: hinv_def)
    from disabled_operations [OF I s'(1)] m have "\<exists>a. trace t = trace s @ [(LClock, a)]"
      by (auto simp: provision_body_def time_def state_act_def port_def Let_def act_simps
          split: sum.splits if_splits)
    with s' have "restored_seen B (trace t)" "\<forall>row\<in>set (resources B). settled (trace t) row"
      "did (trace t) (LDisable (run B)) (PBool True)"
      by (auto simp: restored_seen_def intro!: settled_append)
    with t m show ?thesis by (simp add: hinv_def)
  qed
qed

lemma linv_confirmed: "linv B s \<Longrightarrow> linv B (s\<lparr>body := body s\<lparr>cleanupConfirmed := c, outcome := x\<rparr>\<rparr>)"
  by (auto simp: linv_def acks_ok_def same_scope_def lj.once_ok_def op_keys_def)

lemma keeps_hinv_cleanup: "keeps (hinv B) (cleanup_body env)"
  unfolding keeps_def
proof (intro allI impI)
  fix s assume s: "hinv B s"
  then have I: "linv B s" and sc: "same_scope (body s) B" by (auto simp: hinv_def linv_def)
  show "hinv B (snd (cleanup_body env s))"
  proof (cases "cleanupConfirmed (body s)")
    case (Some c)
    with s show ?thesis by (simp add: cleanup_body_def state_act_def return_act_def)
  next
    case None
    obtain r t where m: "cleanup_try env (body s) s = (r, t)" by force
    note h = hoare_cleanup_try [OF sc]
    have t: "linv B t" by (rule hoareD [OF h I _ m]) simp
    have c: "cleanupConfirmed (body t) = None"
      using keepsD [OF keeps_cleanup_try [OF lasting_confirmed] None m] .
    show ?thesis
    proof (cases r)
      case (Inl e)
      with None m t c linv_confirmed [OF t] show ?thesis
        by (auto simp: cleanup_body_def state_act_def save_def act_simps hinv_def)
    next
      case (Inr b)
      with m have m': "cleanup_try env (body s) s = (Inr b, t)" by simp
      have "(did (trace t) (LDisable (run B)) (PBool True) \<and> restored_seen B (trace t)) \<and>
        (\<forall>row\<in>set (resources B). settled (trace t) row)"
        by (rule hoareD_value [OF h I _ m']) simp
      with None m' t linv_confirmed [OF t] show ?thesis
        by (auto simp: cleanup_body_def state_act_def save_def act_simps hinv_def)
    qed
  qed
qed

lemma hinv_owner [simp]: "hinv B (s\<lparr>owner := x\<rparr>) = hinv B s"
  by (simp add: hinv_def)

lemma keeps_hinv_ownership: "keeps (hinv B) m \<Longrightarrow> keeps (hinv B) (ownership m)"
  unfolding ownership_def by (intro keeps_intros keeps_modify) auto

lemma hinv_call: "hinv B s \<Longrightarrow> hinv B (call env c s)"
proof -
  have p: "keeps (hinv B) (provision env)"
    unfolding provision_def by (rule keeps_hinv_ownership [OF keeps_hinv_provision])
  have c: "keeps (hinv B) (cleanup env)"
    unfolding cleanup_def by (rule keeps_hinv_ownership [OF keeps_hinv_cleanup])
  have a: "keeps (hinv B) (attempt env)"
    unfolding attempt_def by (intro keeps_intros p c keeps_state)
  assume "hinv B s"
  with p c a show ?thesis by (auto simp: call_def keeps_def split: lcall.split)
qed

lemma hinv_calls: "hinv B s \<Longrightarrow> hinv B (calls cs s)"
  by (induction cs s rule: calls.induct) (auto intro: hinv_call)

lemma hinv_fresh: "hinv (initial_body r starts digest) (fresh r starts digest)"
  by (simp add: hinv_def linv_def fresh_def initial_body_def acks_ok_def lj.once_ok_start SECRET_NAMES_def)

lemma history_inv: "hinv (initial_body r starts digest) (calls cs (fresh r starts digest))"
  by (rule hinv_calls [OF hinv_fresh])


section \<open>Fencing after a crash\<close>












section \<open>Example environments\<close>

definition example_run :: string where "example_run = replicate 32 (CHR ''a'')"
definition example_digest :: string where "example_digest = replicate 64 (CHR ''0'')"

text \<open>Operations that behave, at a clock that stands at the start of the window.\<close>

definition honest :: lenv where
  "honest tr e = (case e of
     LClock \<Rightarrow> Inr (PInt 1000)
   | LCreate kind name \<Rightarrow>
       Inr (PStr (if kind = ''d1'' then ''01234567-89ab-cdef-0123-456789abcdef'' else name))
   | LGuard r \<Rightarrow> Inr (PDict
       [(''run'', PStr r), (''startsAt'', PInt 1000), (''expiresAt'', PInt 1201000),
        (''enabled'', PBool (\<not> did tr (LDisable r) (PBool True))),
        (''initialized'', PBool True), (''limits'', PDict LIMITS),
        (''fga'', PInt 3), (''receiver'', PInt 0)])
   | LRestore d \<Rightarrow> Inr (exact_restore (initial_body example_run 1000 d))
   | _ \<Rightarrow> Inr (PBool True))"



section \<open>Properties\<close>

text \<open>C1: Whatever the environment does, and however often and in whatever order provision,
  cleanup and attempt are called on one journal, each effect (creating or deleting a given
  resource, initialising the guard, installing, disabling, restoring) is issued at most once.\<close>

theorem lifecycle_effects_at_most_once:
  "distinct (keys_used (lkey \<circ> fst) (trace (calls cs (fresh r starts digest))))"
  using history_inv [of r starts digest cs] unfolding hinv_def linv_def
  by (blast intro: lj.once_ok_distinct)


text \<open>C6: A journal that says the cleanup is confirmed tells the truth in every history: admission
  was disabled, the exact restoration was answered, and every creation that was ever
  attempted was acknowledged and deleted under the acknowledged identity.\<close>

theorem lifecycle_confirmed_cleanup_is_complete:
  assumes "cleanupConfirmed (body (calls cs (fresh r starts digest))) = Some True"
    and "row \<in> set (resources (initial_body r starts digest))"
  shows "settled (trace (calls cs (fresh r starts digest))) row \<and>
    restored_seen (initial_body r starts digest) (trace (calls cs (fresh r starts digest))) \<and>
    did (trace (calls cs (fresh r starts digest))) (LDisable r) (PBool True)"
proof -
  have "run (initial_body r starts digest) = r" by (simp add: initial_body_def)
  with history_inv [of r starts digest cs] assms show ?thesis by (auto simp: hinv_def)
qed

lemma honest_attempt_confirms:
  "cleanupConfirmed (body (calls [(honest, Attempt)] (fresh example_run 1000 example_digest))) = Some True"
  by code_simp

lemma example_resource:
  "(''receiver'', ''fga-fixed-origin-recv-'' @ example_run)
     \<in> set (resources (initial_body example_run 1000 example_digest))"
  by (simp add: initial_body_def)

theorem lifecycle_confirmed_cleanup_is_complete_witness:
  "settled (trace (calls [(honest, Attempt)] (fresh example_run 1000 example_digest)))
     (''receiver'', ''fga-fixed-origin-recv-'' @ example_run)"
  using lifecycle_confirmed_cleanup_is_complete [OF honest_attempt_confirms example_resource]
  by simp




text \<open>Opening a journal that exists never changes its row, and succeeds only when the row
  has exactly the scope asked for, with the lifetime of twenty minutes and the qualification
  window of ten.\<close>

theorem lifecycle_reopen_keeps_row:
  assumes "lifecycle_init (Some b) r starts digest offline = (file, res)"
  shows "file = Some b \<and> (res = Inr () \<longrightarrow>
    run b = r \<and> captureDigest b = digest \<and> startsAt b = starts \<and>
    expiresAt b - startsAt b = 1200000 \<and> qualificationExpiresAt b - startsAt b = 600000)"
  using assms
  by (auto simp: lifecycle_init_def same_scope_def initial_body_def LIMIT_lifetimeMs_def Let_def
      split: if_splits)

theorem lifecycle_reopen_keeps_row_witness:
  "expiresAt (initial_body example_run 1000 example_digest) -
   startsAt (initial_body example_run 1000 example_digest) = 1200000"
proof -
  have "lifecycle_init (Some (initial_body example_run 1000 example_digest))
      example_run 1000 example_digest True =
      (Some (initial_body example_run 1000 example_digest), Inr ())"
    by code_simp
  from lifecycle_reopen_keeps_row [OF this] show ?thesis by simp
qed

end
