(* ===== verification/Runner_Packet.thy ===== *)
theory Runner_Packet
  imports Encoding
begin

text \<open>
  The packet of the finite PMB-1 runner (\<open>probes/pmb1-finite-runner/runner.py\<close>): costs and
  their arithmetic, operations, cases, the packet, and \<open>validate_packet\<close> with its checks in
  the order of the source. Dataclass fields have their declared types, so the checks that
  only reject a value of another type are vacuous here.
\<close>

section \<open>Data\<close>

definition PROFILE :: string where "PROFILE = ''pmb1-private-application-no-real-v1''"
definition OBJECT_PROFILE :: string where "OBJECT_PROFILE = ''pmb1-private-object-kv-interface-v1''"

definition REQUIRED_STAGES :: "string list" where
  "REQUIRED_STAGES =
     [''settle'', ''close'', ''closure_readback'', ''baseline'', ''challenge'',
      ''challenge_readback'', ''temporary_install'', ''preflight'', ''admission_off'',
      ''restore'', ''restore_readback'', ''restored'', ''cleanup'', ''cleanup_readback'']"

definition CASE_OBLIGATIONS :: "string list" where
  "CASE_OBLIGATIONS =
     [''happy_path'', ''admitted_before_close'',
      ''stale_callback_guarded_upsert_replace_cascade'', ''lost_close_ack'',
      ''restart_stale_generation_malformed_control'', ''deadline_or_credential_expiry'',
      ''restore_with_both_delayed_generations'',
      ''scheduled_session_audit_auth_failure_status'',
      ''service_queue_hint_alarm_separate_store'',
      ''operator_schema_guard_bypass_bookkeeping'', ''mutate_revert_broken_guard'',
      ''declared_interruption'']"

definition INTERRUPTIONS :: "string list" where
  "INTERRUPTIONS =
     [''timeout'', ''partial_output'', ''malformed'', ''truncated'', ''unsupported'',
      ''unknown_restore'', ''unknown_cleanup'']"

record cost =
  requests :: int
  reader_queries :: int
  receipt_reads :: int
  metadata_reads :: int
  authenticated_checks :: int
  mutations :: int
  creates :: int
  deletes :: int
  sql_statements :: int
  effects :: int
  outbound_bytes :: int
  inbound_bytes :: int
  artifact_bytes :: int
  challenges :: int
  captures :: int

text \<open>\<open>dataclasses.fields\<close> of a cost, in order.\<close>

definition cost_fields :: "cost \<Rightarrow> int list" where
  "cost_fields c =
     [requests c, reader_queries c, receipt_reads c, metadata_reads c, authenticated_checks c,
      mutations c, creates c, deletes c, sql_statements c, effects c, outbound_bytes c,
      inbound_bytes c, artifact_bytes c, challenges c, captures c]"

definition Cost :: cost where
  "Cost = \<lparr>requests = 0, reader_queries = 0, receipt_reads = 0, metadata_reads = 0,
     authenticated_checks = 0, mutations = 0, creates = 0, deletes = 0, sql_statements = 0,
     effects = 0, outbound_bytes = 0, inbound_bytes = 0, artifact_bytes = 0, challenges = 0,
     captures = 0\<rparr>"

definition validate_cost :: "cost \<Rightarrow> unit res" where
  "validate_cost c = require (list_all (\<lambda>v. 0 \<le> v) (cost_fields c)) ''invalid_cost''"

definition plus_cost :: "cost \<Rightarrow> cost \<Rightarrow> cost" where
  "plus_cost a b = \<lparr>
     requests = requests a + requests b,
     reader_queries = reader_queries a + reader_queries b,
     receipt_reads = receipt_reads a + receipt_reads b,
     metadata_reads = metadata_reads a + metadata_reads b,
     authenticated_checks = authenticated_checks a + authenticated_checks b,
     mutations = mutations a + mutations b,
     creates = creates a + creates b,
     deletes = deletes a + deletes b,
     sql_statements = sql_statements a + sql_statements b,
     effects = effects a + effects b,
     outbound_bytes = outbound_bytes a + outbound_bytes b,
     inbound_bytes = inbound_bytes a + inbound_bytes b,
     artifact_bytes = artifact_bytes a + artifact_bytes b,
     challenges = challenges a + challenges b,
     captures = captures a + captures b\<rparr>"

definition cost_le :: "cost \<Rightarrow> cost \<Rightarrow> bool" where
  "cost_le a b = list_all2 (\<le>) (cost_fields a) (cost_fields b)"

definition within :: "cost \<Rightarrow> cost \<Rightarrow> bool res" where
  "within a limit = bind_res (validate_cost a) (\<lambda>_.
     bind_res (validate_cost limit) (\<lambda>_. Inr (cost_le a limit)))"

definition RUN_LIMIT :: cost where
  "RUN_LIMIT = \<lparr>requests = 160, reader_queries = 96, receipt_reads = 20, metadata_reads = 4,
     authenticated_checks = 4, mutations = 32, creates = 2, deletes = 2, sql_statements = 256,
     effects = 2048, outbound_bytes = 4 * 1024 ^ 2, inbound_bytes = 16 * 1024 ^ 2,
     artifact_bytes = 8 * 1024 ^ 2, challenges = 12, captures = 3\<rparr>"

definition CAMPAIGN_LIMIT :: cost where
  "CAMPAIGN_LIMIT = \<lparr>requests = requests RUN_LIMIT * 12,
     reader_queries = reader_queries RUN_LIMIT * 12,
     receipt_reads = receipt_reads RUN_LIMIT * 12,
     metadata_reads = metadata_reads RUN_LIMIT * 12,
     authenticated_checks = authenticated_checks RUN_LIMIT * 12,
     mutations = mutations RUN_LIMIT * 12, creates = 2, deletes = 2,
     sql_statements = sql_statements RUN_LIMIT * 12, effects = effects RUN_LIMIT * 12,
     outbound_bytes = outbound_bytes RUN_LIMIT * 12,
     inbound_bytes = inbound_bytes RUN_LIMIT * 12,
     artifact_bytes = artifact_bytes RUN_LIMIT * 12, challenges = challenges RUN_LIMIT * 12,
     captures = captures RUN_LIMIT * 12\<rparr>"

record operation =
  op_name :: string
  op_stage :: string
  op_cost :: cost
  op_channel :: string
  op_action :: string
  op_capture :: "string option"
  op_resource :: "string option"

record run_case =
  case_number :: int
  case_operations :: "operation list"
  case_interruption :: "string option"

record source_context =
  cx_candidate :: string
  cx_artifact :: string
  cx_configuration :: string
  cx_schema :: string
  cx_guards :: string
  cx_oracle :: string
  cx_population :: "string list"
  cx_generations :: "string list"
  cx_table_count :: int
  cx_schema_objects :: int
  cx_program_pin :: string

record packet =
  pk_key :: string
  pk_source_pin :: string
  pk_profile :: string
  pk_object_profile :: string
  pk_cases :: "run_case list"
  pk_starts :: tick
  pk_deadline :: tick
  pk_baseline_freshness :: tick
  pk_context :: "source_context option"
  pk_selected_case :: int


section \<open>The canonical encoding and its digest\<close>

definition json_option :: "string option \<Rightarrow> json" where
  "json_option x = (case x of None \<Rightarrow> JNull | Some s \<Rightarrow> JStr s)"

text \<open>A rejected reading is never encoded: \<open>validate_packet\<close> refuses it first.\<close>

fun json_tick :: "tick \<Rightarrow> json" where
  "json_tick (Tick n) = JInt n"
| "json_tick _ = JNull"

definition cost_json :: "cost \<Rightarrow> json" where
  "cost_json c = JObj
     [(''requests'', JInt (requests c)), (''reader_queries'', JInt (reader_queries c)),
      (''receipt_reads'', JInt (receipt_reads c)), (''metadata_reads'', JInt (metadata_reads c)),
      (''authenticated_checks'', JInt (authenticated_checks c)),
      (''mutations'', JInt (mutations c)), (''creates'', JInt (creates c)),
      (''deletes'', JInt (deletes c)), (''sql_statements'', JInt (sql_statements c)),
      (''effects'', JInt (effects c)), (''outbound_bytes'', JInt (outbound_bytes c)),
      (''inbound_bytes'', JInt (inbound_bytes c)), (''artifact_bytes'', JInt (artifact_bytes c)),
      (''challenges'', JInt (challenges c)), (''captures'', JInt (captures c))]"

definition operation_json :: "operation \<Rightarrow> json" where
  "operation_json op = JObj
     [(''name'', JStr (op_name op)), (''stage'', JStr (op_stage op)),
      (''cost'', cost_json (op_cost op)), (''channel'', JStr (op_channel op)),
      (''action'', JStr (op_action op)), (''capture'', json_option (op_capture op)),
      (''resource'', json_option (op_resource op))]"

definition case_json :: "run_case \<Rightarrow> json" where
  "case_json c = JObj
     [(''number'', JInt (case_number c)),
      (''operations'', JArr (map operation_json (case_operations c))),
      (''interruption'', json_option (case_interruption c))]"

definition context_json :: "source_context \<Rightarrow> json" where
  "context_json c = JObj
     [(''candidate'', JStr (cx_candidate c)), (''artifact'', JStr (cx_artifact c)),
      (''configuration'', JStr (cx_configuration c)), (''schema'', JStr (cx_schema c)),
      (''guards'', JStr (cx_guards c)), (''oracle'', JStr (cx_oracle c)),
      (''population'', JArr (map JStr (cx_population c))),
      (''generations'', JArr (map JStr (cx_generations c))),
      (''table_count'', JInt (cx_table_count c)),
      (''schema_objects'', JInt (cx_schema_objects c)),
      (''program_pin'', JStr (cx_program_pin c))]"

definition packet_json :: "packet \<Rightarrow> json" where
  "packet_json p = JObj
     [(''key'', JStr (pk_key p)), (''source_pin'', JStr (pk_source_pin p)),
      (''profile'', JStr (pk_profile p)), (''object_profile'', JStr (pk_object_profile p)),
      (''cases'', JArr (map case_json (pk_cases p))), (''starts'', json_tick (pk_starts p)),
      (''deadline'', json_tick (pk_deadline p)),
      (''baseline_freshness'', json_tick (pk_baseline_freshness p)),
      (''context'', case pk_context p of None \<Rightarrow> JNull | Some c \<Rightarrow> context_json c),
      (''selected_case'', JInt (pk_selected_case p))]"

definition packet_digest :: "packet \<Rightarrow> string" where
  "packet_digest p = sha256_hex (dumps (packet_json p))"


section \<open>validate\_packet\<close>

definition hex64 :: "string \<Rightarrow> bool" where
  "hex64 s \<longleftrightarrow> length s = 64 \<and> list_all is_hex s"

definition validate_binding :: "packet \<Rightarrow> unit res" where
  "validate_binding p = require
     (pk_key p \<noteq> [] \<and> length (pk_key p) \<le> 128 \<and> hex64 (pk_source_pin p) \<and>
      pk_profile p = PROFILE \<and> pk_object_profile p = OBJECT_PROFILE) ''packet_binding''"

definition generation_text :: "string \<Rightarrow> bool" where
  "generation_text g \<longleftrightarrow> is_ascii g \<and> g \<noteq> [] \<and> list_all is_digit g \<and> hd g \<noteq> CHR ''0'' \<and>
     decimal_value g \<le> 9223372036854775807"

definition validate_context :: "source_context \<Rightarrow> unit res" where
  "validate_context c = bind_res (require
     (list_all hex64 [cx_candidate c, cx_artifact c, cx_configuration c, cx_schema c,
        cx_guards c, cx_oracle c, cx_program_pin c] \<and>
      cx_population c \<noteq> [] \<and> distinct (cx_population c) \<and>
      length (cx_generations c) = length (cx_population c) \<and>
      list_all generation_text (cx_generations c)) ''source_population_binding'') (\<lambda>_.
     require (1 \<le> cx_table_count c \<and> cx_table_count c \<le> 8 \<and>
              1 \<le> cx_schema_objects c \<and> cx_schema_objects c \<le> 64)
       ''selected_candidate_exceeds_accepted_miniature_allocation'')"

definition validate_window :: "packet \<Rightarrow> unit res" where
  "validate_window p = require (case (pk_starts p, pk_deadline p, pk_baseline_freshness p) of
     (Tick s, Tick d, Tick f) \<Rightarrow> 0 \<le> s \<and> s < d \<and> d - s \<le> 14400 \<and> 0 < f \<and> f \<le> 60
   | _ \<Rightarrow> False) ''packet_window''"

text \<open>\<open>tuple(dict.fromkeys(xs))\<close>: the first occurrences, in order.\<close>

fun uniq :: "'a list \<Rightarrow> 'a list" where
  "uniq [] = []"
| "uniq (x # xs) = x # filter (\<lambda>y. y \<noteq> x) (uniq xs)"

definition index_of :: "'a list \<Rightarrow> 'a \<Rightarrow> nat" where
  "index_of xs x = length (takeWhile (\<lambda>y. y \<noteq> x) xs)"

definition terminal_stage :: "string option \<Rightarrow> string" where
  "terminal_stage i = (if i = Some ''unknown_restore'' then ''restore''
     else if i = Some ''unknown_cleanup'' then ''cleanup'' else ''challenge'')"

definition expected_stages :: "run_case \<Rightarrow> string list" where
  "expected_stages c = (if case_number c \<noteq> 12 then REQUIRED_STAGES
     else take (index_of REQUIRED_STAGES (terminal_stage (case_interruption c))) REQUIRED_STAGES
          @ [''interruption''])"

definition CAPTURE_STAGES :: "string list" where
  "CAPTURE_STAGES = [''baseline'', ''preflight'', ''restored'']"

text \<open>The accumulators of the loop over the operations of a case.\<close>

record op_scan =
  sc_names :: "string list"
  sc_resources :: "(string \<times> string) list"
  sc_run :: cost
  sc_captures :: "string list"
  sc_queries :: int
  sc_wire :: int

definition categories :: "cost \<Rightarrow> int" where
  "categories c = reader_queries c + receipt_reads c + metadata_reads c +
     authenticated_checks c + mutations c + creates c + deletes c"

definition resource_action :: "cost \<Rightarrow> string" where
  "resource_action c = (if creates c \<noteq> 0 then ''create'' else ''delete'')"

definition scan_name :: "operation \<Rightarrow> op_scan \<Rightarrow> op_scan res" where
  "scan_name op st = bind_res (require
     (op_name op \<noteq> [] \<and> op_name op \<notin> set (sc_names st) \<and> op_action op \<noteq> [] \<and>
      op_channel op \<noteq> [] \<and> requests (op_cost op) \<le> 1 \<and> sql_statements (op_cost op) \<le> 8 \<and>
      outbound_bytes (op_cost op) \<le> 65536 \<and> inbound_bytes (op_cost op) \<le> 262144 \<and>
      captures (op_cost op) \<le> 1) ''operation_bound_or_identity'')
     (\<lambda>_. Inr (st\<lparr>sc_names := op_name op # sc_names st\<rparr>))"

definition scan_request :: "operation \<Rightarrow> unit res" where
  "scan_request op = bind_res
     (require (categories (op_cost op) = requests (op_cost op)) ''one_real_request_per_operation'')
     (\<lambda>_. require (reader_queries (op_cost op) = 0 \<or>
        (op_stage op \<in> set CAPTURE_STAGES \<and> outbound_bytes (op_cost op) \<le> 32768))
        ''reader_request_bound'')"

definition scan_capture :: "operation \<Rightarrow> op_scan \<Rightarrow> op_scan res" where
  "scan_capture op st =
     (let st = (if op_stage op \<in> set CAPTURE_STAGES
                then st\<lparr>sc_queries := sc_queries st + reader_queries (op_cost op),
                        sc_wire := sc_wire st + inbound_bytes (op_cost op)\<rparr> else st)
      in case op_capture op of
        Some cap \<Rightarrow> bind_res (require
            (cap = op_stage op \<and> captures (op_cost op) = 1 \<and> cap \<in> set CAPTURE_STAGES \<and>
             1 \<le> sc_queries st \<and> sc_queries st \<le> 32 \<and> sc_wire st \<le> 4 * 1024 ^ 2)
            ''capture_order_or_query_bound'')
          (\<lambda>_. Inr (st\<lparr>sc_captures := sc_captures st @ [cap], sc_queries := 0, sc_wire := 0\<rparr>))
      | None \<Rightarrow> bind_res (require (captures (op_cost op) = 0) ''undeclared_capture'') (\<lambda>_. Inr st))"

definition scan_resource :: "operation \<Rightarrow> op_scan \<Rightarrow> op_scan res" where
  "scan_resource op st =
     (if creates (op_cost op) \<noteq> 0 \<or> deletes (op_cost op) \<noteq> 0
      then (case op_resource op of
          None \<Rightarrow> Inl (Refused ''resource_latch'')
        | Some r \<Rightarrow> bind_res (require (r \<noteq> [] \<and>
              (r, resource_action (op_cost op)) \<notin> set (sc_resources st)) ''resource_latch'')
            (\<lambda>_. Inr (st\<lparr>sc_resources := (r, resource_action (op_cost op)) # sc_resources st\<rparr>)))
      else Inr st)"

definition scan_operation :: "operation \<Rightarrow> op_scan \<Rightarrow> op_scan res" where
  "scan_operation op st =
     bind_res (validate_cost (op_cost op)) (\<lambda>_.
     bind_res (scan_name op st) (\<lambda>st1.
     bind_res (scan_request op) (\<lambda>_.
     bind_res (scan_capture op st1) (\<lambda>st2.
     bind_res (scan_resource op st2) (\<lambda>st3.
     Inr (st3\<lparr>sc_run := plus_cost (sc_run st3) (op_cost op)\<rparr>))))))"

fun scan_operations :: "operation list \<Rightarrow> op_scan \<Rightarrow> op_scan res" where
  "scan_operations [] st = Inr st"
| "scan_operations (op # ops) st = bind_res (scan_operation op st) (scan_operations ops)"

definition validate_shape :: "run_case \<Rightarrow> unit res" where
  "validate_shape c =
     (let ops = case_operations c; stages = uniq (map op_stage ops) in
      bind_res (require (ops \<noteq> [] \<and> (case_interruption c = None \<or> case_number c = 12))
        ''case_operations'') (\<lambda>_.
      bind_res (require (case_number c \<noteq> 12 \<or>
        (case case_interruption c of None \<Rightarrow> False | Some i \<Rightarrow> i \<in> set INTERRUPTIONS))
        ''case12_reachable_interruption_required'') (\<lambda>_.
      bind_res (require (stages = expected_stages c) ''fixed_case_stage_order'') (\<lambda>_.
      bind_res (require (case_number c = 12 \<or> (\<exists>x\<in>set ops. op_stage x = ''challenge'' \<and>
          op_action x = CASE_OBLIGATIONS ! nat (case_number c - 1) \<and> challenges (op_cost x) = 1))
        ''exact_case_obligation_missing'') (\<lambda>_.
      bind_res (require (case_number c \<noteq> 12 \<or> (\<exists>x\<in>set ops. op_stage x = ''interruption'' \<and>
          Some (op_action x) = case_interruption c \<and> challenges (op_cost x) = 1))
        ''exact_terminal_sequence_missing'') (\<lambda>_.
      require (list_all (\<lambda>(a, b). index_of stages (op_stage a) \<le> index_of stages (op_stage b))
          (zip ops (drop 1 ops))) ''stage_reentry''))))))"

text \<open>The accumulators of the loop over the cases.\<close>

record case_scan =
  cs_names :: "string list"
  cs_resources :: "(string \<times> string) list"
  cs_campaign :: cost

definition validate_case :: "run_case \<Rightarrow> case_scan \<Rightarrow> case_scan res" where
  "validate_case c st =
     bind_res (validate_shape c) (\<lambda>_.
     bind_res (scan_operations (case_operations c)
        \<lparr>sc_names = cs_names st, sc_resources = cs_resources st, sc_run = Cost,
         sc_captures = [], sc_queries = 0, sc_wire = 0\<rparr>) (\<lambda>sc.
     bind_res (require (sc_captures sc = (if case_number c \<noteq> 12 then CAPTURE_STAGES else [''baseline'']))
        ''exact_captures_no_replacement'') (\<lambda>_.
     bind_res (within (sc_run sc) RUN_LIMIT) (\<lambda>ok.
     bind_res (require ok ''run_budget'') (\<lambda>_.
     Inr \<lparr>cs_names = sc_names sc, cs_resources = sc_resources sc,
          cs_campaign = plus_cost (cs_campaign st) (sc_run sc)\<rparr>)))))"

fun validate_cases :: "run_case list \<Rightarrow> case_scan \<Rightarrow> case_scan res" where
  "validate_cases [] st = Inr st"
| "validate_cases (c # cs) st = bind_res (validate_case c st) (validate_cases cs)"

definition validate_campaign :: "run_case list \<Rightarrow> unit res" where
  "validate_campaign cs =
     bind_res (require (map case_number cs = [1..12]) ''exact_twelve_case_inventory'') (\<lambda>_.
     bind_res (validate_cases cs \<lparr>cs_names = [], cs_resources = [], cs_campaign = Cost\<rparr>) (\<lambda>st.
     bind_res (within (cs_campaign st) CAMPAIGN_LIMIT) (\<lambda>ok. require ok ''campaign_budget'')))"

definition validate_packet :: "packet \<Rightarrow> unit res" where
  "validate_packet p =
     bind_res (validate_binding p) (\<lambda>_.
     case pk_context p of
       None \<Rightarrow> Inl (Refused ''complete_source_population_context_required'')
     | Some c \<Rightarrow>
       bind_res (require (1 \<le> pk_selected_case p \<and> pk_selected_case p \<le> 12)
         ''source_rehearsal_case_selection'') (\<lambda>_.
       bind_res (validate_context c) (\<lambda>_.
       bind_res (validate_window p) (\<lambda>_.
       bind_res (require (length (dumps (packet_json p)) \<le> 1024 ^ 2) ''plan_byte_bound'') (\<lambda>_.
       validate_campaign (pk_cases p))))))"


section \<open>What the validator accepts\<close>

text \<open>The checks on one operation that look at nothing but the operation.\<close>

definition needs_resource :: "operation \<Rightarrow> bool" where
  "needs_resource op \<longleftrightarrow> creates (op_cost op) \<noteq> 0 \<or> deletes (op_cost op) \<noteq> 0"

definition resource_key :: "operation \<Rightarrow> (string \<times> string) option" where
  "resource_key op = (if needs_resource op
     then map_option (\<lambda>r. (r, resource_action (op_cost op))) (op_resource op) else None)"

definition op_ok :: "operation \<Rightarrow> bool" where
  "op_ok op \<longleftrightarrow> list_all (\<lambda>v. 0 \<le> v) (cost_fields (op_cost op)) \<and>
     op_name op \<noteq> [] \<and> op_action op \<noteq> [] \<and> op_channel op \<noteq> [] \<and>
     requests (op_cost op) \<le> 1 \<and> sql_statements (op_cost op) \<le> 8 \<and>
     outbound_bytes (op_cost op) \<le> 65536 \<and> inbound_bytes (op_cost op) \<le> 262144 \<and>
     captures (op_cost op) \<le> 1 \<and> categories (op_cost op) = requests (op_cost op) \<and>
     (reader_queries (op_cost op) = 0 \<or>
        op_stage op \<in> set CAPTURE_STAGES \<and> outbound_bytes (op_cost op) \<le> 32768) \<and>
     (needs_resource op \<longrightarrow> (\<exists>r. op_resource op = Some r \<and> r \<noteq> []))"

text \<open>The capture counters alone.\<close>

definition capture_step :: "operation \<Rightarrow> string list \<times> int \<times> int \<Rightarrow> (string list \<times> int \<times> int) option" where
  "capture_step op st = (case scan_capture op
     \<lparr>sc_names = [], sc_resources = [], sc_run = Cost, sc_captures = fst st,
      sc_queries = fst (snd st), sc_wire = snd (snd st)\<rparr> of
     Inl _ \<Rightarrow> None | Inr sc \<Rightarrow> Some (sc_captures sc, sc_queries sc, sc_wire sc))"

fun capture_scan :: "operation list \<Rightarrow> string list \<times> int \<times> int \<Rightarrow> (string list \<times> int \<times> int) option" where
  "capture_scan [] st = Some st"
| "capture_scan (op # ops) st = Option.bind (capture_step op st) (capture_scan ops)"

definition total_cost :: "operation list \<Rightarrow> cost" where
  "total_cost ops = foldl plus_cost Cost (map op_cost ops)"

definition resource_keys :: "operation list \<Rightarrow> (string \<times> string) list" where
  "resource_keys = List.map_filter resource_key"

lemma resource_keys_simps [simp]:
  "resource_keys [] = []"
  "resource_keys (op # ops) = (case resource_key op of None \<Rightarrow> [] | Some k \<Rightarrow> [k]) @ resource_keys ops"
  by (auto simp: resource_keys_def List.map_filter_def split: option.split)

lemma resource_keys_append [simp]: "resource_keys (xs @ ys) = resource_keys xs @ resource_keys ys"
  by (simp add: resource_keys_def List.map_filter_def)

lemma scan_capture_frame:
  "scan_capture op st = Inr st' \<longleftrightarrow>
   (\<exists>caps q w. capture_step op (sc_captures st, sc_queries st, sc_wire st) = Some (caps, q, w) \<and>
     st' = st\<lparr>sc_captures := caps, sc_queries := q, sc_wire := w\<rparr>)"
  by (cases st; cases "op_capture op")
     (auto simp: scan_capture_def capture_step_def Let_def require_def split: if_splits)

lemma scan_resource_Inr:
  "scan_resource op st = Inr st' \<longleftrightarrow>
     (needs_resource op \<longrightarrow> (\<exists>r. op_resource op = Some r \<and> r \<noteq> [])) \<and>
     (\<forall>k. resource_key op = Some k \<longrightarrow> k \<notin> set (sc_resources st)) \<and>
     st' = st\<lparr>sc_resources := resource_keys [op] @ sc_resources st\<rparr>"
  by (cases "op_resource op")
     (auto simp: scan_resource_def needs_resource_def resource_key_def require_def split: if_splits)

lemma scan_operation_Inr:
  "scan_operation op st = Inr st' \<longleftrightarrow>
     op_ok op \<and> op_name op \<notin> set (sc_names st) \<and>
     set (resource_keys [op]) \<inter> set (sc_resources st) = {} \<and>
     (\<exists>caps q w. capture_step op (sc_captures st, sc_queries st, sc_wire st) = Some (caps, q, w) \<and>
       st' = \<lparr>sc_names = op_name op # sc_names st,
              sc_resources = resource_keys [op] @ sc_resources st,
              sc_run = plus_cost (sc_run st) (op_cost op), sc_captures = caps,
              sc_queries = q, sc_wire = w\<rparr>)"
  unfolding scan_operation_def bind_res_Inr scan_capture_frame scan_resource_Inr
    validate_cost_def scan_name_def scan_request_def op_ok_def
  by (cases st) (auto split: option.splits)

lemma scan_operations_Inr:
  "scan_operations ops st = Inr st' \<longleftrightarrow>
     (\<forall>op\<in>set ops. op_ok op) \<and>
     distinct (map op_name ops) \<and> set (map op_name ops) \<inter> set (sc_names st) = {} \<and>
     distinct (resource_keys ops) \<and> set (resource_keys ops) \<inter> set (sc_resources st) = {} \<and>
     (\<exists>caps q w. capture_scan ops (sc_captures st, sc_queries st, sc_wire st) = Some (caps, q, w) \<and>
       st' = \<lparr>sc_names = rev (map op_name ops) @ sc_names st,
              sc_resources = rev (resource_keys ops) @ sc_resources st,
              sc_run = foldl plus_cost (sc_run st) (map op_cost ops), sc_captures = caps,
              sc_queries = q, sc_wire = w\<rparr>)"
proof (induction ops arbitrary: st)
  case Nil
  show ?case by (cases st) auto
next
  case (Cons op ops)
  show ?case
  proof (cases "capture_step op (sc_captures st, sc_queries st, sc_wire st)")
    case None
    then show ?thesis by (simp add: bind_res_Inr scan_operation_Inr)
  next
    case (Some x)
    obtain caps q w where x: "x = (caps, q, w)" by (cases x)
    let ?st = "\<lparr>sc_names = op_name op # sc_names st, sc_resources = resource_keys [op] @ sc_resources st,
        sc_run = plus_cost (sc_run st) (op_cost op), sc_captures = caps, sc_queries = q, sc_wire = w\<rparr>"
    have "scan_operations (op # ops) st = Inr st' \<longleftrightarrow> op_ok op \<and> op_name op \<notin> set (sc_names st) \<and>
        set (resource_keys [op]) \<inter> set (sc_resources st) = {} \<and> scan_operations ops ?st = Inr st'"
      using Some x by (auto simp: bind_res_Inr scan_operation_Inr)
    also have "\<dots> \<longleftrightarrow>
      (\<forall>op\<in>set (op # ops). op_ok op) \<and> distinct (map op_name (op # ops)) \<and>
      set (map op_name (op # ops)) \<inter> set (sc_names st) = {} \<and>
      distinct (resource_keys (op # ops)) \<and> set (resource_keys (op # ops)) \<inter> set (sc_resources st) = {} \<and>
      (\<exists>caps q w. capture_scan (op # ops) (sc_captures st, sc_queries st, sc_wire st) = Some (caps, q, w) \<and>
       st' = \<lparr>sc_names = rev (map op_name (op # ops)) @ sc_names st,
              sc_resources = rev (resource_keys (op # ops)) @ sc_resources st,
              sc_run = foldl plus_cost (sc_run st) (map op_cost (op # ops)), sc_captures = caps,
              sc_queries = q, sc_wire = w\<rparr>)"
      unfolding Cons.IH [of ?st] using Some x by (auto split: option.splits)
    finally show ?thesis .
  qed
qed


subsection \<open>Cost arithmetic\<close>

lemma plus_cost_assoc: "plus_cost (plus_cost a b) c = plus_cost a (plus_cost b c)"
  by (simp add: plus_cost_def)

lemma plus_cost_Cost [simp]: "plus_cost Cost c = c" "plus_cost c Cost = c"
  by (simp_all add: plus_cost_def Cost_def)

lemma foldl_plus_cost: "foldl plus_cost c xs = plus_cost c (foldl plus_cost Cost xs)"
proof (induction xs arbitrary: c)
  case Nil
  show ?case by simp
next
  case (Cons x xs)
  from Cons [of "plus_cost c x"] Cons [of x] show ?case by (simp add: plus_cost_assoc)
qed

lemma total_cost_simps [simp]:
  "total_cost [] = Cost"
  "total_cost (op # ops) = plus_cost (op_cost op) (total_cost ops)"
  by (simp_all add: total_cost_def foldl_plus_cost [of "op_cost op"])

lemma total_cost_append: "total_cost (xs @ ys) = plus_cost (total_cost xs) (total_cost ys)"
  by (induction xs) (simp_all add: plus_cost_assoc)

lemma total_cost_concat:
  "foldl plus_cost Cost (map (\<lambda>c. total_cost (f c)) cs) = total_cost (concat (map f cs))"
  by (induction cs) (simp_all add: total_cost_append foldl_plus_cost [of "total_cost _"])

definition nonneg :: "cost \<Rightarrow> bool" where
  "nonneg c = list_all (\<lambda>v. 0 \<le> v) (cost_fields c)"

lemma nonneg_Cost [simp]: "nonneg Cost"
  by (simp add: nonneg_def cost_fields_def Cost_def)

lemma nonneg_plus: "nonneg a \<Longrightarrow> nonneg b \<Longrightarrow> nonneg (plus_cost a b)"
  by (simp add: nonneg_def cost_fields_def plus_cost_def)

lemma nonneg_total: "(\<And>op. op \<in> set ops \<Longrightarrow> nonneg (op_cost op)) \<Longrightarrow> nonneg (total_cost ops)"
  by (induction ops) (simp_all add: nonneg_plus)

lemma op_ok_nonneg: "op_ok op \<Longrightarrow> nonneg (op_cost op)"
  by (simp add: op_ok_def nonneg_def)

lemma cost_le_plus: "nonneg b \<Longrightarrow> cost_le a (plus_cost a b)"
  by (simp add: nonneg_def cost_le_def cost_fields_def plus_cost_def)

lemma cost_le_trans: "cost_le a b \<Longrightarrow> cost_le b c \<Longrightarrow> cost_le a c"
  by (simp add: cost_le_def cost_fields_def)

lemma cost_le_prefix:
  assumes "\<And>op. op \<in> set ys \<Longrightarrow> nonneg (op_cost op)"
  shows "cost_le (total_cost xs) (total_cost (xs @ ys))"
  unfolding total_cost_append by (rule cost_le_plus [OF nonneg_total [OF assms]])

lemma within_Inr: "within a b = Inr ok \<longleftrightarrow> nonneg a \<and> nonneg b \<and> ok = cost_le a b"
  by (auto simp: within_def validate_cost_def nonneg_def)

lemma limits_nonneg [simp]: "nonneg RUN_LIMIT" "nonneg CAMPAIGN_LIMIT"
  by (simp_all add: nonneg_def cost_fields_def RUN_LIMIT_def CAMPAIGN_LIMIT_def)


subsection \<open>Cases and the campaign\<close>

definition case_ok :: "run_case \<Rightarrow> bool" where
  "case_ok c \<longleftrightarrow> validate_shape c = Inr () \<and> (\<forall>op\<in>set (case_operations c). op_ok op) \<and>
     (\<exists>q w. capture_scan (case_operations c) ([], 0, 0) =
        Some (if case_number c \<noteq> 12 then CAPTURE_STAGES else [''baseline''], q, w)) \<and>
     cost_le (total_cost (case_operations c)) RUN_LIMIT"

definition campaign_operations :: "run_case list \<Rightarrow> operation list" where
  "campaign_operations cs = concat (map case_operations cs)"

text \<open>The declarative reading of the loop over the cases.\<close>

definition campaign_ok :: "run_case list \<Rightarrow> bool" where
  "campaign_ok cs \<longleftrightarrow> map case_number cs = [1..12] \<and> (\<forall>c\<in>set cs. case_ok c) \<and>
     distinct (map op_name (campaign_operations cs)) \<and>
     distinct (resource_keys (campaign_operations cs)) \<and>
     cost_le (total_cost (campaign_operations cs)) CAMPAIGN_LIMIT"

lemma validate_case_Inr:
  "validate_case c st = Inr st' \<longleftrightarrow>
     case_ok c \<and> distinct (map op_name (case_operations c)) \<and>
     set (map op_name (case_operations c)) \<inter> set (cs_names st) = {} \<and>
     distinct (resource_keys (case_operations c)) \<and>
     set (resource_keys (case_operations c)) \<inter> set (cs_resources st) = {} \<and>
     st' = \<lparr>cs_names = rev (map op_name (case_operations c)) @ cs_names st,
            cs_resources = rev (resource_keys (case_operations c)) @ cs_resources st,
            cs_campaign = plus_cost (cs_campaign st) (total_cost (case_operations c))\<rparr>"
proof -
  have n: "nonneg (total_cost (case_operations c))" if "\<forall>op\<in>set (case_operations c). op_ok op"
    by (rule nonneg_total) (use that in \<open>auto intro: op_ok_nonneg\<close>)
  show ?thesis
    unfolding validate_case_def bind_res_Inr scan_operations_Inr within_Inr case_ok_def
    using n by (auto simp flip: total_cost_def)
qed

lemma validate_cases_Inr:
  "validate_cases cs st = Inr st' \<longleftrightarrow>
     (\<forall>c\<in>set cs. case_ok c) \<and> distinct (map op_name (campaign_operations cs)) \<and>
     set (map op_name (campaign_operations cs)) \<inter> set (cs_names st) = {} \<and>
     distinct (resource_keys (campaign_operations cs)) \<and>
     set (resource_keys (campaign_operations cs)) \<inter> set (cs_resources st) = {} \<and>
     st' = \<lparr>cs_names = rev (map op_name (campaign_operations cs)) @ cs_names st,
            cs_resources = rev (resource_keys (campaign_operations cs)) @ cs_resources st,
            cs_campaign = foldl plus_cost (cs_campaign st)
              (map (\<lambda>c. total_cost (case_operations c)) cs)\<rparr>"
proof (induction cs arbitrary: st)
  case Nil
  show ?case by (cases st) (auto simp: campaign_operations_def)
next
  case (Cons c cs)
  have split: "campaign_operations (c # cs) = case_operations c @ campaign_operations cs"
    by (simp add: campaign_operations_def)
  show ?case
    unfolding validate_cases.simps bind_res_Inr validate_case_Inr Cons.IH split
    by (auto simp del: set_map)
qed

theorem validate_campaign_iff: "validate_campaign cs = Inr () \<longleftrightarrow> campaign_ok cs"
proof -
  have n: "nonneg (total_cost (campaign_operations cs))" if "\<forall>c\<in>set cs. case_ok c"
    by (rule nonneg_total)
       (use that in \<open>auto simp: campaign_operations_def case_ok_def intro: op_ok_nonneg\<close>)
  show ?thesis
    unfolding validate_campaign_def bind_res_Inr validate_cases_Inr within_Inr campaign_ok_def
    using n by (auto simp: total_cost_concat simp flip: campaign_operations_def)
qed

lemma validate_packet_campaign: "validate_packet p = Inr () \<Longrightarrow> campaign_ok (pk_cases p)"
  by (auto simp: validate_packet_def bind_res_Inr simp flip: validate_campaign_iff
      split: option.splits)

lemma validate_packet_window:
  "validate_packet p = Inr () \<Longrightarrow> \<exists>s d f. pk_starts p = Tick s \<and> pk_deadline p = Tick d \<and>
     pk_baseline_freshness p = Tick f \<and> 0 \<le> s \<and> s < d \<and> d - s \<le> 14400 \<and> 0 < f \<and> f \<le> 60"
  by (auto simp: validate_packet_def bind_res_Inr validate_window_def
      split: option.splits tick.splits)


subsection \<open>Stage order\<close>

lemma set_uniq [simp]: "set (uniq xs) = set xs"
  by (induction xs) auto

lemma sorted_wrt_consecutive:
  assumes "transp R" and "list_all (\<lambda>(a, b). R a b) (zip xs (drop 1 xs))"
  shows "sorted_wrt R xs"
proof -
  have "sorted_wrt R xs" if "transp R" "\<forall>i. Suc i < length xs \<longrightarrow> R (xs ! i) (xs ! Suc i)" for xs
    using that by (simp add: sorted_wrt_iff_nth_Suc_transp)
  moreover have "\<forall>i. Suc i < length xs \<longrightarrow> R (xs ! i) (xs ! Suc i)"
    using assms(2) by (auto simp: list_all_length)
  ultimately show ?thesis using assms(1) by blast
qed

lemma case_ok_stages:
  assumes "case_ok c"
  shows "set (map op_stage (case_operations c)) = set (expected_stages c)"
    and "sorted (map (\<lambda>op. index_of (expected_stages c) (op_stage op)) (case_operations c))"
proof -
  let ?ops = "case_operations c"
  from assms have u: "uniq (map op_stage ?ops) = expected_stages c"
    and z: "list_all (\<lambda>(a, b). index_of (uniq (map op_stage ?ops)) (op_stage a)
       \<le> index_of (uniq (map op_stage ?ops)) (op_stage b)) (zip ?ops (drop 1 ?ops))"
    by (auto simp: case_ok_def validate_shape_def Let_def)
  from u show "set (map op_stage ?ops) = set (expected_stages c)" by (metis set_uniq)
  from z u have "sorted_wrt (\<lambda>a b. index_of (expected_stages c) (op_stage a)
      \<le> index_of (expected_stages c) (op_stage b)) ?ops"
    by (intro sorted_wrt_consecutive) (auto simp: transp_def)
  then show "sorted (map (\<lambda>op. index_of (expected_stages c) (op_stage op)) ?ops)"
    by (simp add: sorted_map)
qed

end
