(* ===== verification/Campaign_Journal.thy ===== *)
theory Campaign_Journal
  imports Latch Runner_Packet
begin

text \<open>
  The durable journal of the finite runner (class \<open>SQLiteJournal\<close> of
  \<open>probes/pmb1-finite-runner/runner.py\<close>): the singleton campaign row and the operations
  table, and the four transactions on them. A transaction that raises leaves the tables as
  they were. The journal is interpreted as a one-shot latch keyed by the operation name.
\<close>

section \<open>Receipts\<close>

record snapshot =
  sn_canonical :: string
  sn_source_pin :: string
  sn_identity :: string
  sn_complete :: bool

record receipt =
  rc_status :: string
  rc_actual_cost :: cost
  rc_evidence :: string
  rc_snapshot :: "snapshot option"


section \<open>Tables\<close>

record campaign_row =
  cr_packet :: string
  cr_digest :: string
  cr_status :: string
  cr_reason :: string

record operation_row =
  or_case :: int
  or_operation :: string
  or_status :: string
  or_actual :: "string option"
  or_evidence_digest :: "string option"
  or_evidence :: "string option"
  or_snapshot :: "string option"

record journal =
  campaign :: "campaign_row option"
  rows :: "(string \<times> operation_row) list"

definition empty_journal :: journal where
  "empty_journal = \<lparr>campaign = None, rows = []\<rparr>"

text \<open>\<open>INSERT INTO campaign\<close>: the singleton key makes a second insertion fail.\<close>

definition j_latch :: "packet \<Rightarrow> string \<Rightarrow> journal \<Rightarrow> journal res" where
  "j_latch p digest j = (case campaign j of
     Some _ \<Rightarrow> Inl (AlreadyReserved ''campaign_already_reserved_no_replay'')
   | None \<Rightarrow> Inr (j\<lparr>campaign := Some \<lparr>cr_packet = dumps (packet_json p), cr_digest = digest,
                                        cr_status = ''running'', cr_reason = ''''\<rparr>\<rparr>))"

definition dispatching :: "journal \<Rightarrow> bool" where
  "dispatching j \<longleftrightarrow> (\<exists>r\<in>set (rows j). or_status (snd r) = ''dispatching'')"

definition running :: "journal \<Rightarrow> bool" where
  "running j \<longleftrightarrow> (case campaign j of None \<Rightarrow> False | Some c \<Rightarrow> cr_status c = ''running'')"

text \<open>A name that is already in the table violates the primary key.\<close>

definition j_reserve :: "int \<Rightarrow> operation \<Rightarrow> journal \<Rightarrow> journal res" where
  "j_reserve n op j =
     (if \<not> running j \<or> dispatching j then Inl (Refused ''journal_terminal_or_unknown'')
      else if map_of (rows j) (op_name op) \<noteq> None then Inl Crash
      else Inr (j\<lparr>rows := rows j @ [(op_name op,
        \<lparr>or_case = n, or_operation = dumps (operation_json op), or_status = ''dispatching'',
         or_actual = None, or_evidence_digest = None, or_evidence = None, or_snapshot = None\<rparr>)]\<rparr>))"

definition finish_matches :: "int \<Rightarrow> operation \<Rightarrow> string \<times> operation_row \<Rightarrow> bool" where
  "finish_matches n op row \<longleftrightarrow> fst row = op_name op \<and> or_case (snd row) = n \<and>
     or_operation (snd row) = dumps (operation_json op) \<and> or_status (snd row) = ''dispatching''"

definition finish_row :: "receipt \<Rightarrow> operation_row \<Rightarrow> operation_row" where
  "finish_row r row = row\<lparr>or_status := rc_status r,
     or_actual := Some (dumps (cost_json (rc_actual_cost r))),
     or_evidence_digest := Some (sha256_hex (rc_evidence r)),
     or_evidence := Some (rc_evidence r),
     or_snapshot := map_option sn_canonical (rc_snapshot r)\<rparr>"

definition j_finish :: "int \<Rightarrow> operation \<Rightarrow> receipt \<Rightarrow> journal \<Rightarrow> journal res" where
  "j_finish n op r j =
     (if length (filter (finish_matches n op) (rows j)) \<noteq> 1
      then Inl (Refused ''journal_finish_not_exact'')
      else Inr (j\<lparr>rows := map (\<lambda>row. if finish_matches n op row
                                     then (fst row, finish_row r (snd row)) else row) (rows j)\<rparr>))"

definition terminal_allowed :: "string \<Rightarrow> string \<Rightarrow> bool" where
  "terminal_allowed status current \<longleftrightarrow>
     (if status = ''unknown''
      then current \<in> {''running'', ''mechanism_complete'', ''closed_refusal''}
      else current = ''running'')"

definition j_terminal :: "string \<Rightarrow> string \<Rightarrow> journal \<Rightarrow> journal res" where
  "j_terminal status reason j = (case campaign j of
     None \<Rightarrow> Inl (Refused ''journal_terminal_not_exact'')
   | Some c \<Rightarrow> if terminal_allowed status (cr_status c)
       then Inr (j\<lparr>campaign := Some (c\<lparr>cr_status := status, cr_reason := reason\<rparr>)\<rparr>)
       else Inl (Refused ''journal_terminal_not_exact''))"


section \<open>The journal as a one-shot latch\<close>

definition reserved :: "journal \<Rightarrow> string set" where
  "reserved j = fst ` set (rows j)"

lemma j_reserve_Inr:
  "j_reserve n op j = Inr j' \<longleftrightarrow> running j \<and> \<not> dispatching j \<and> op_name op \<notin> reserved j \<and>
     j' = j\<lparr>rows := rows j @ [(op_name op,
        \<lparr>or_case = n, or_operation = dumps (operation_json op), or_status = ''dispatching'',
         or_actual = None, or_evidence_digest = None, or_evidence = None, or_snapshot = None\<rparr>)]\<rparr>"
  by (auto simp: j_reserve_def reserved_def map_of_eq_None_iff)

interpretation cj: one_shot reserved "\<lambda>x. op_name (snd x)" "\<lambda>x. j_reserve (fst x) (snd x)"
  by unfold_locales (auto simp: j_reserve_Inr reserved_def)

lemma j_finish_Inr:
  "j_finish n op r j = Inr j' \<Longrightarrow> campaign j' = campaign j \<and> map fst (rows j') = map fst (rows j)"
  by (auto simp: j_finish_def split: if_splits)

lemma j_terminal_Inr: "j_terminal s q j = Inr j' \<Longrightarrow> rows j' = rows j \<and> campaign j' \<noteq> None"
  by (auto simp: j_terminal_def split: option.splits if_splits)

lemma j_latch_Inr: "j_latch p d j = Inr j' \<Longrightarrow> campaign j = None \<and> rows j' = rows j \<and> campaign j' \<noteq> None"
  by (auto simp: j_latch_def split: option.splits)

lemma reserved_rows: "map fst (rows j') = map fst (rows j) \<Longrightarrow> reserved j' = reserved j"
  unfolding reserved_def by (metis set_map)

lemma reserved_latch: "j_latch p d j = Inr j' \<Longrightarrow> reserved j' = reserved j"
  by (auto simp: reserved_def dest!: j_latch_Inr)

lemma reserved_finish: "j_finish n op r j = Inr j' \<Longrightarrow> reserved j' = reserved j"
  by (rule reserved_rows) (simp add: j_finish_Inr)

lemma reserved_terminal: "j_terminal s q j = Inr j' \<Longrightarrow> reserved j' = reserved j"
  by (auto simp: reserved_def dest!: j_terminal_Inr)

lemmas reserved_steps = reserved_latch reserved_finish reserved_terminal


section \<open>The invariant of the journal\<close>

definition open_rows :: "journal \<Rightarrow> string list" where
  "open_rows j = map fst (filter (\<lambda>r. or_status (snd r) = ''dispatching'') (rows j))"

text \<open>
  Names are unique, at most one operation is open, and no operation was ever reserved
  without a campaign.
\<close>

definition journal_inv :: "journal \<Rightarrow> bool" where
  "journal_inv j \<longleftrightarrow> distinct (map fst (rows j)) \<and> length (open_rows j) \<le> 1 \<and>
     (campaign j = None \<longrightarrow> rows j = [])"

lemma journal_inv_empty: "journal_inv empty_journal"
  by (simp add: journal_inv_def empty_journal_def open_rows_def)

lemma open_rows_none: "\<not> dispatching j \<Longrightarrow> open_rows j = []"
  by (auto simp: open_rows_def dispatching_def filter_empty_conv)

lemma journal_inv_reserve: "journal_inv j \<Longrightarrow> j_reserve n op j = Inr j' \<Longrightarrow> journal_inv j'"
  by (auto simp: journal_inv_def j_reserve_Inr reserved_def running_def open_rows_def
      dispatching_def filter_empty_conv split: option.splits)

lemma journal_inv_finish:
  assumes "journal_inv j" and "j_finish n op r j = Inr j'" and "rc_status r \<noteq> ''dispatching''"
  shows "journal_inv j' \<and> open_rows j' = []"
proof -
  let ?f = "\<lambda>row. if finish_matches n op row then (fst row, finish_row r (snd row)) else row"
  let ?d = "\<lambda>row. or_status (snd row) = ''dispatching''"
  from assms(2) have len: "length (filter (finish_matches n op) (rows j)) = 1"
    and j': "j' = j\<lparr>rows := map ?f (rows j)\<rparr>"
    by (auto simp: j_finish_def split: if_splits)
  have "?d (?f row) \<longleftrightarrow> ?d row \<and> \<not> finish_matches n op row" for row
    using assms(3) by (simp add: finish_row_def)
  then have open': "length (open_rows j') = length (filter (\<lambda>row. ?d row \<and> \<not> finish_matches n op row) (rows j))"
    unfolding open_rows_def j' by (simp add: filter_map o_def)
  have "length (filter (\<lambda>row. ?d row \<and> \<not> finish_matches n op row) (rows j)) +
      length (filter (finish_matches n op) (rows j)) = length (filter ?d (rows j))"
  proof -
    have "filter (finish_matches n op) (rows j) = filter (\<lambda>row. ?d row \<and> finish_matches n op row) (rows j)"
      by (rule filter_cong) (auto simp: finish_matches_def)
    then show ?thesis
      using sum_length_filter_compl [of "finish_matches n op" "filter ?d (rows j)"]
      by (simp add: conj_commute)
  qed
  moreover have "length (filter ?d (rows j)) \<le> 1"
    using assms(1) by (simp add: journal_inv_def open_rows_def)
  ultimately have "length (open_rows j') = 0"
    using len open' by linarith
  moreover from j_finish_Inr [OF assms(2)] assms(1) have "distinct (map fst (rows j'))"
    and "campaign j' = None \<longrightarrow> rows j' = []"
    by (auto simp: journal_inv_def)
  ultimately show ?thesis by (simp add: journal_inv_def)
qed

lemma journal_inv_latch: "journal_inv j \<Longrightarrow> j_latch p d j = Inr j' \<Longrightarrow> journal_inv j'"
  by (auto simp: journal_inv_def open_rows_def dest!: j_latch_Inr)

lemma journal_inv_terminal: "journal_inv j \<Longrightarrow> j_terminal s q j = Inr j' \<Longrightarrow> journal_inv j'"
  by (auto simp: journal_inv_def open_rows_def dest!: j_terminal_Inr)

end
