(* ===== verification/Mechanism_Program.thy ===== *)
theory Mechanism_Program
  imports Runner_Packet
begin

text \<open>
  The source-owned programs of the finite runner
  (\<open>probes/pmb1-finite-runner/mechanism.py\<close>): the schema text and its guard triggers,
  \<open>setup_sql\<close>, the twelve \<open>programs\<close> and \<open>make_packet\<close>. The bytes of source files that
  \<open>source_pin\<close> hashes are parameters.
\<close>

section \<open>Schema text\<close>

definition nl :: string where "nl = [CHR 0x0A]"

definition TABLES :: "string list" where
  "TABLES = [''control'', ''application'', ''audit'', ''session'', ''quota'', ''object_kv'',
     ''alarm'', ''cascade_parent'']"

definition SCHEMA :: string where
  "SCHEMA = nl @ concat (map (\<lambda>l. l @ nl)
   [''PRAGMA foreign_keys=ON;'',
    ''CREATE TABLE control(id INTEGER PRIMARY KEY, state TEXT NOT NULL, generation INTEGER NOT NULL);'',
    ''INSERT INTO control VALUES(1,'open',1);'',
    ''CREATE TABLE application(id INTEGER PRIMARY KEY, value TEXT NOT NULL);'',
    ''INSERT INTO application VALUES(1,'synthetic');'',
    ''CREATE TABLE audit(id INTEGER PRIMARY KEY, event TEXT NOT NULL);'',
    ''CREATE TABLE cascade_parent(id INTEGER PRIMARY KEY);'',
    ''INSERT INTO cascade_parent VALUES(1);'',
    ''CREATE TABLE session(id INTEGER PRIMARY KEY, value TEXT NOT NULL,'',
    '' parent_id INTEGER NOT NULL DEFAULT 1 REFERENCES cascade_parent(id) ON DELETE CASCADE);'',
    ''INSERT INTO session(id,value) VALUES(1,'synthetic');'',
    ''CREATE TABLE quota(id INTEGER PRIMARY KEY, credit INTEGER NOT NULL);'',
    ''INSERT INTO quota VALUES(1,100);'',
    ''CREATE TABLE object_kv(id TEXT PRIMARY KEY, value BLOB NOT NULL);'',
    ''INSERT INTO object_kv VALUES('binary',x'00ff');'',
    ''CREATE TABLE alarm(id INTEGER PRIMARY KEY, instant INTEGER);'',
    ''INSERT INTO alarm VALUES(1,NULL);''])"

fun chunks8 :: "'a list \<Rightarrow> 'a list list" where
  "chunks8 [] = []"
| "chunks8 (x # xs) = take 8 (x # xs) # chunks8 (drop 7 xs)"

definition schema_statements :: "string list" where
  "schema_statements =
     map (\<lambda>v. strip v @ '';'') (filter (\<lambda>v. strip v \<noteq> []) (split_on (CHR '';'') SCHEMA))"

text \<open>The guard on one action of one table.\<close>

definition guard_text :: "string \<Rightarrow> string \<Rightarrow> string \<Rightarrow> string" where
  "guard_text table action lower =
     ''CREATE TRIGGER guard_'' @ table @ ''_'' @ lower @ nl @
     ''            BEFORE '' @ action @ '' ON '' @ table @ nl @
     ''            WHEN COALESCE((SELECT state='open' AND generation=1'' @ nl @
     ''                          FROM control WHERE id=1),0)=0'' @
     (if table = ''cascade_parent'' \<and> action = ''DELETE''
      then '' AND NOT EXISTS(SELECT 1 FROM session WHERE parent_id=OLD.id)'' else '''') @ nl @
     ''            BEGIN SELECT RAISE(ABORT,'closed'); END;''"

definition guard_statements :: "string list" where
  "guard_statements = concat (map (\<lambda>table. map (\<lambda>(action, lower). guard_text table action lower)
     [(''INSERT'', ''insert''), (''UPDATE'', ''update''), (''DELETE'', ''delete'')]) (tl TABLES))"

definition setup_sql :: "string list" where
  "setup_sql = map (join nl) (chunks8 (schema_statements @ guard_statements))"

section \<open>Challenges\<close>

definition CHALLENGES :: "(int \<times> string list) list" where
  "CHALLENGES =
   [(1, [''UPDATE application SET value='forbidden' WHERE id=1'']),
    (2, [''UPDATE application SET value='late-admitted' WHERE id=1'']),
    (3, [''INSERT INTO application VALUES(1,'stale') ON CONFLICT(id) DO UPDATE SET value='stale'' @ [CHR 0x27],
         ''INSERT OR REPLACE INTO application VALUES(1,'stale')'',
         ''DELETE FROM cascade_parent WHERE id=1'']),
    (7, [''UPDATE application SET value='original-delayed' WHERE id=1'',
         ''UPDATE application SET value='temporary-delayed' WHERE id=1'']),
    (8, [''INSERT INTO audit VALUES(1,'scheduled-maintenance')'',
         ''INSERT INTO session(id,value) VALUES(2,'session-write')'',
         ''INSERT INTO audit VALUES(2,'authentication-failure')'',
         ''UPDATE quota SET credit=credit-1 WHERE id=1'']),
    (9, [''INSERT INTO audit VALUES(1,'service-entry')'',
         ''INSERT INTO audit VALUES(2,'queue-entry')'',
         ''INSERT INTO audit VALUES(3,'hint-entry')'',
         ''UPDATE alarm SET instant=999 WHERE id=1'',
         ''UPDATE object_kv SET value=x'ff00' WHERE id='binary'' @ [CHR 0x27]])]"


section \<open>The twelve programs\<close>

definition Operation :: "string \<Rightarrow> string \<Rightarrow> cost \<Rightarrow> string \<Rightarrow> string \<Rightarrow> string option \<Rightarrow> operation" where
  "Operation name stage c channel action cap =
     \<lparr>op_name = name, op_stage = stage, op_cost = c, op_channel = channel, op_action = action,
      op_capture = cap, op_resource = None\<rparr>"

definition case_name :: "int \<Rightarrow> string" where
  "case_name n = ''case'' @ py_str_int n"

definition setup_operations :: "int \<Rightarrow> operation list" where
  "setup_operations n = map (\<lambda>i. Operation (case_name n @ ''_setup_'' @ py_str_int (int i)) ''settle''
     (Cost\<lparr>requests := 1, mutations := 1, sql_statements := 8, effects := 8,
           artifact_bytes := 16384\<rparr>)
     ''mechanism'' (''sqlite.setup.'' @ py_str_int (int i)) None) [0..<length setup_sql]"

definition capture_operations :: "int \<Rightarrow> string \<Rightarrow> operation list" where
  "capture_operations n stage = map (\<lambda>page. let last = (page = length TABLES) in
     Operation (case_name n @ ''_'' @ stage @ ''_'' @ py_str_int (int page)) stage
     (Cost\<lparr>requests := 1, reader_queries := 1, sql_statements := 1, captures := of_bool last,
           artifact_bytes := 16384\<rparr>)
     ''mechanism'' (''sqlite.capture.'' @ py_str_int (int page)) (if last then Some stage else None))
     [0..<length TABLES + 1]"

definition stage_action :: "int \<Rightarrow> string \<Rightarrow> string \<Rightarrow> string" where
  "stage_action n interruption stage =
     (if stage = ''challenge'' then CASE_OBLIGATIONS ! nat (n - 1)
      else if stage = ''interruption'' then interruption
      else case_name n @ ''.'' @ stage)"

definition stage_cost :: "string \<Rightarrow> cost" where
  "stage_cost stage =
     (let mutation = stage \<in> set [''settle'', ''close'', ''challenge'', ''temporary_install'',
                                 ''admission_off'', ''restore''];
          local = stage \<in> set [''cleanup'', ''interruption'']
      in Cost\<lparr>requests := (if local then 0 else 1),
              mutations := of_bool (mutation \<and> \<not> local),
              receipt_reads := of_bool (\<not> mutation \<and> \<not> local),
              sql_statements := (if local then 0 else if stage = ''challenge'' then 8 else 1),
              effects := (if stage = ''challenge'' then 8 else of_bool (mutation \<and> \<not> local)),
              artifact_bytes := 16384,
              challenges := of_bool (stage \<in> set [''challenge'', ''interruption''])\<rparr>)"

definition challenge_operations :: "int \<Rightarrow> operation list" where
  "challenge_operations n = (case map_of CHALLENGES n of
     None \<Rightarrow> []
   | Some sqls \<Rightarrow> map (\<lambda>i. Operation (case_name n @ ''_challenge_'' @ py_str_int (int i)) ''challenge''
       (stage_cost ''challenge''\<lparr>challenges := 0\<rparr>) ''mechanism''
       (''sqlite.challenge.'' @ py_str_int (int i)) None) [1..<length sqls])"

definition delayed_operations :: "operation list" where
  "delayed_operations = map (\<lambda>i. Operation (''case7_delayed_after_restore_'' @ py_str_int (int i))
     ''restore_readback''
     (Cost\<lparr>requests := 1, mutations := 1, sql_statements := 8, effects := 1,
           artifact_bytes := 16384\<rparr>)
     ''mechanism'' (''sqlite.restored-delayed.'' @ py_str_int (int i)) None) [0..<2]"

definition stage_operations :: "int \<Rightarrow> string \<Rightarrow> string \<Rightarrow> operation list" where
  "stage_operations n interruption stage =
     (if stage = ''settle'' then setup_operations n else []) @
     (if stage \<in> set CAPTURE_STAGES then capture_operations n stage
      else [Operation (case_name n @ ''_'' @ stage) stage (stage_cost stage) ''mechanism''
              (stage_action n interruption stage) None] @
           (if stage = ''challenge'' then challenge_operations n else []) @
           (if stage = ''restore_readback'' \<and> n = 7 then delayed_operations else []))"

definition program_stages :: "int \<Rightarrow> string \<Rightarrow> string list" where
  "program_stages n interruption = (if n \<noteq> 12 then REQUIRED_STAGES
     else take (index_of REQUIRED_STAGES (terminal_stage (Some interruption))) REQUIRED_STAGES
          @ [''interruption''])"

definition program_case :: "int \<Rightarrow> string \<Rightarrow> run_case" where
  "program_case n interruption =
     \<lparr>case_number = n,
      case_operations = concat (map (stage_operations n interruption) (program_stages n interruption)),
      case_interruption = (if n = 12 then Some interruption else None)\<rparr>"

definition programs :: "string \<Rightarrow> run_case list res" where
  "programs interruption =
     bind_res (require (interruption = ''partial_output'')
       ''uncovered_interruption_variant_no_allocation'')
     (\<lambda>_. Inr (map (\<lambda>n. program_case n interruption) [1..12]))"

text \<open>
  \<open>make_packet\<close>; the parameters are the pin of the three source files and the pin of the
  oracle file, which the source computes from their bytes.
\<close>

definition make_context :: "string \<Rightarrow> string \<Rightarrow> run_case list \<Rightarrow> source_context" where
  "make_context pin oracle_pin cs =
     \<lparr>cx_candidate = pin,
      cx_artifact = sha256_hex ''synthetic-retained-artifact'',
      cx_configuration = sha256_hex (dumps (JObj [(''tables'', JArr (map JStr TABLES)),
                                                  (''closed_generation'', JInt 1)])),
      cx_schema = sha256_hex SCHEMA,
      cx_guards = sha256_hex (join nl setup_sql),
      cx_oracle = oracle_pin,
      cx_population = [''synthetic-d1'', ''synthetic-object-kv-alarm''],
      cx_generations = [''1'', ''1''],
      cx_table_count = 8,
      cx_schema_objects = 29,
      cx_program_pin = sha256_hex (dumps (JArr (map case_json cs)))\<rparr>"

definition make_packet :: "string \<Rightarrow> string \<Rightarrow> int \<Rightarrow> string \<Rightarrow> packet res" where
  "make_packet pin oracle_pin n interruption =
     bind_res (programs interruption) (\<lambda>cs. Inr
       \<lparr>pk_key = ''source-case-'' @ py_str_int n, pk_source_pin = pin, pk_profile = PROFILE,
        pk_object_profile = OBJECT_PROFILE, pk_cases = cs, pk_starts = Tick 0,
        pk_deadline = Tick 1200, pk_baseline_freshness = Tick 60,
        pk_context = Some (make_context pin oracle_pin cs), pk_selected_case = n\<rparr>)"

end
