(* ===== verification/Runner.thy ===== *)
theory Runner
  imports Campaign_Journal Mechanism_Program
begin

text \<open>
  The finite PMB-1 runner (class \<open>Runner\<close> of \<open>probes/pmb1-finite-runner/runner.py\<close>).
  The clock, the source check, the adapter, the oracle and the durability of each journal
  transaction are the environment: every call appends an event with its answer to the
  trace, and an arbitrary strategy chooses the answer from the trace. A journal
  transaction may fail, commit and lose its acknowledgement, or kill the process before or
  after the commit.
\<close>

section \<open>Environment\<close>

datatype jfault = Fine | Fails | LostAck | DiesBefore | DiesAfter

datatype revent =
    EClock "tick res"
  | ESource "string res"
  | EJournal jfault
  | EInvoke operation int "receipt res"
  | EVerifyReceipt operation receipt "unit res"
  | EVerify snapshot "unit res"

type_synonym rtrace = "revent list"

record renv =
  e_clock :: "rtrace \<Rightarrow> tick res"
  e_source :: "rtrace \<Rightarrow> string res"
  e_same :: "rtrace \<Rightarrow> bool"
  e_journal :: "rtrace \<Rightarrow> jfault"
  e_invoke :: "rtrace \<Rightarrow> operation \<Rightarrow> int \<Rightarrow> receipt res"
  e_verify_receipt :: "rtrace \<Rightarrow> operation \<Rightarrow> receipt \<Rightarrow> unit res"
  e_verify :: "rtrace \<Rightarrow> snapshot \<Rightarrow> unit res"

text \<open>
  What a runner is constructed with, beside the journal: the packet, the pins that
  \<open>make_packet\<close> computes from the source files, whether the oracle and the adapters are
  exactly the mechanism's, and the program pin of the adapter.
\<close>

record runner_config =
  su_packet :: packet
  su_pin :: string
  su_oracle_pin :: string
  su_drivers :: bool
  su_adapter_pin :: string

record rstate =
  r_journal :: journal
  r_trace :: rtrace
  r_last :: int
  r_latched :: bool
  r_completed :: int

record run_result =
  res_status :: string
  res_completed :: int
  res_reason :: string
  res_scope :: string
  res_qualification :: string

definition Result :: "string \<Rightarrow> int \<Rightarrow> string \<Rightarrow> run_result" where
  "Result status completed reason = \<lparr>res_status = status, res_completed = completed,
     res_reason = reason, res_scope = ''SOURCE_SYNTHETIC_ONLY'', res_qualification = ''NO_GO''\<rparr>"

definition emit :: "(rtrace \<Rightarrow> 'a res) \<Rightarrow> ('a res \<Rightarrow> revent) \<Rightarrow> (rstate, 'a) act" where
  "emit answer event s =
     (let a = answer (r_trace s) in (a, s\<lparr>r_trace := r_trace s @ [event a]\<rparr>))"

definition clock :: "renv \<Rightarrow> (rstate, tick) act" where
  "clock env = emit (e_clock env) EClock"

definition source_check :: "renv \<Rightarrow> (rstate, string) act" where
  "source_check env = emit (e_source env) ESource"

definition invoke :: "renv \<Rightarrow> operation \<Rightarrow> int \<Rightarrow> (rstate, receipt) act" where
  "invoke env op deadline =
     (if op_channel op = ''mechanism''
      then emit (\<lambda>tr. e_invoke env tr op deadline) (EInvoke op deadline)
      else raise_act (Refused ''provider_dispatch_disabled''))"

definition verify_receipt :: "renv \<Rightarrow> operation \<Rightarrow> receipt \<Rightarrow> (rstate, unit) act" where
  "verify_receipt env op r = emit (\<lambda>tr. e_verify_receipt env tr op r) (EVerifyReceipt op r)"

definition verify :: "renv \<Rightarrow> snapshot \<Rightarrow> (rstate, unit) act" where
  "verify env snap = emit (\<lambda>tr. e_verify env tr snap) (EVerify snap)"

text \<open>One journal transaction under the fault the environment chooses.\<close>

definition transact :: "renv \<Rightarrow> (journal \<Rightarrow> journal res) \<Rightarrow> (rstate, unit) act" where
  "transact env f s =
     (let fault = e_journal env (r_trace s); t = s\<lparr>r_trace := r_trace s @ [EJournal fault]\<rparr> in
      case fault of
        Fails \<Rightarrow> (Inl Crash, t)
      | DiesBefore \<Rightarrow> (Inl Killed, t)
      | _ \<Rightarrow> (case f (r_journal s) of
          Inl e \<Rightarrow> (Inl e, t)
        | Inr j \<Rightarrow> (if fault = Fine then Inr () else if fault = LostAck then Inl Crash
                   else Inl Killed, t\<lparr>r_journal := j\<rparr>)))"


section \<open>The boundary check\<close>

fun tick_value :: "tick \<Rightarrow> int" where
  "tick_value (Tick n) = n"
| "tick_value _ = 0"

definition starts :: "runner_config \<Rightarrow> int" where "starts su = tick_value (pk_starts (su_packet su))"
definition deadline :: "runner_config \<Rightarrow> int" where "deadline su = tick_value (pk_deadline (su_packet su))"
definition freshness :: "runner_config \<Rightarrow> int" where
  "freshness su = tick_value (pk_baseline_freshness (su_packet su))"

text \<open>\<open>now < min(end, packet.deadline)\<close>\<close>

definition before :: "runner_config \<Rightarrow> int \<Rightarrow> tick \<Rightarrow> bool" where
  "before su now end = (case end of
     Tick e \<Rightarrow> now < min e (deadline su) | PosInf \<Rightarrow> now < deadline su | _ \<Rightarrow> False)"

definition check :: "renv \<Rightarrow> runner_config \<Rightarrow> tick \<Rightarrow> (rstate, int) act" where
  "check env su end = bind_act (clock env) (\<lambda>reading.
     case reading of
       Tick now \<Rightarrow>
         then_act (require_act (starts su \<le> now \<and> before su now end) ''deadline_or_not_started'')
        (bind_act (gets_act r_last) (\<lambda>last.
         then_act (require_act (last \<le> now) ''monotonic_clock_rewound'')
        (then_act (modify_act (\<lambda>s. s\<lparr>r_last := now\<rparr>))
        (bind_act (source_check env) (\<lambda>pin.
         then_act (require_act (pin = pk_source_pin (su_packet su)) ''source_binding_drift'')
        (bind_act (gets_act (\<lambda>s. e_same env (r_trace s))) (\<lambda>same.
         then_act (require_act same ''source_program_identity_drift'')
        (bind_act (clock env) (\<lambda>again.
         case again of
           Tick after \<Rightarrow>
             then_act (require_act (now \<le> after) ''monotonic_clock_rewound'')
            (then_act (require_act (starts su \<le> after \<and> before su after end)
               ''deadline_or_not_started'')
            (then_act (modify_act (\<lambda>s. s\<lparr>r_last := after\<rparr>))
               (return_act after)))
         | _ \<Rightarrow> raise_act (Refused ''monotonic_clock_rewound''))))))))))
     | _ \<Rightarrow> raise_act (Refused ''invalid_monotonic_clock''))"


section \<open>One operation\<close>

text \<open>The mutable locals of the loop over the operations.\<close>

record loop_vars =
  lv_snapshots :: "(string \<times> snapshot) list"
  lv_baseline :: "int option"
  lv_restored :: "int option"
  lv_call_end :: int

definition fresh_enough :: "runner_config \<Rightarrow> string \<Rightarrow> int \<Rightarrow> int option \<Rightarrow> operation \<Rightarrow> bool" where
  "fresh_enough su stage now since op \<longleftrightarrow>
     (case since of None \<Rightarrow> True | Some b \<Rightarrow> op_stage op = stage \<longrightarrow> now - b < freshness su)"

definition stage_bound :: "runner_config \<Rightarrow> string \<Rightarrow> int option \<Rightarrow> operation \<Rightarrow> int" where
  "stage_bound su stage since op = (case since of
     None \<Rightarrow> deadline su
   | Some b \<Rightarrow> if op_stage op = stage then b + freshness su else deadline su)"

definition call_end :: "runner_config \<Rightarrow> tick \<Rightarrow> int \<Rightarrow> loop_vars \<Rightarrow> operation \<Rightarrow> int" where
  "call_end su run_end now v op = Min {now + 60, tick_value run_end, deadline su,
     stage_bound su ''preflight'' (lv_baseline v) op,
     stage_bound su ''restored'' (lv_restored v) op}"

definition retained_bytes :: "operation \<Rightarrow> receipt \<Rightarrow> int" where
  "retained_bytes op r = int (length (rc_evidence r)) +
     (case rc_snapshot r of None \<Rightarrow> 0 | Some sn \<Rightarrow> int (length (sn_canonical sn))) +
     int (length (dumps (operation_json op))) +
     int (length (dumps (cost_json (rc_actual_cost r))))"

definition check_receipt :: "operation \<Rightarrow> receipt \<Rightarrow> unit res" where
  "check_receipt op r =
     bind_res (require (rc_status r \<in> {''confirmed'', ''refused'', ''unknown''} \<and> rc_evidence r \<noteq> [])
       ''invalid_or_unmeasurable_receipt'') (\<lambda>_.
     bind_res (within (rc_actual_cost r) (op_cost op)) (\<lambda>ok.
     bind_res (require ok ''invalid_or_unmeasurable_receipt'') (\<lambda>_.
     require (retained_bytes op r \<le> artifact_bytes (rc_actual_cost r))
       ''unaccounted_retained_artifact_bytes'')))"

definition snapshot_ok :: "runner_config \<Rightarrow> snapshot option \<Rightarrow> bool" where
  "snapshot_ok su x = (case x of
     None \<Rightarrow> False
   | Some sn \<Rightarrow> sn_complete sn \<and> sn_canonical sn \<noteq> [] \<and> length (sn_canonical sn) \<le> 512 * 1024 \<and>
       sn_source_pin sn = pk_source_pin (su_packet su) \<and> sn_identity sn \<noteq> [])"

text \<open>\<open>if snapshots: first = snapshots["baseline"]; ...\<close>\<close>

definition same_as_baseline :: "(string \<times> snapshot) list \<Rightarrow> snapshot \<Rightarrow> unit res" where
  "same_as_baseline snaps sn =
     (if snaps = [] then Inr () else (case map_of snaps ''baseline'' of
        None \<Rightarrow> Inl Crash
      | Some first \<Rightarrow> require (sn_identity sn = sn_identity first \<and> sn_canonical sn = sn_canonical first)
          ''complete_typed_equality_failed''))"

definition take_capture :: "renv \<Rightarrow> runner_config \<Rightarrow> operation \<Rightarrow> receipt \<Rightarrow> int \<Rightarrow> loop_vars \<Rightarrow> (rstate, loop_vars) act" where
  "take_capture env su op r now v = (case op_capture op of
     None \<Rightarrow> return_act v
   | Some cap \<Rightarrow>
       then_act (require_act (snapshot_ok su (rc_snapshot r)) ''incomplete_or_unbound_snapshot'')
         (case rc_snapshot r of
            None \<Rightarrow> raise_act Crash
          | Some sn \<Rightarrow>
              then_act (lift_res (same_as_baseline (lv_snapshots v) sn))
             (then_act (verify env sn)
             (then_act (check env su (Tick (lv_call_end v)))
                (return_act (v\<lparr>lv_snapshots := (cap, sn) # lv_snapshots v,
                   lv_baseline := (if cap = ''baseline'' then Some now else lv_baseline v)\<rparr>))))))"

definition interruption_reason :: "run_case \<Rightarrow> string" where
  "interruption_reason c = (case case_interruption c of
     None \<Rightarrow> ''interruption'' | Some i \<Rightarrow> if i = [] then ''interruption'' else i)"

text \<open>The part of the loop body after the receipt was checked and recorded.\<close>

definition settle :: "renv \<Rightarrow> runner_config \<Rightarrow> run_case \<Rightarrow> operation \<Rightarrow> receipt \<Rightarrow> int \<Rightarrow> loop_vars \<Rightarrow> (rstate, loop_vars \<times> run_result option) act" where
  "settle env su c op r now v =
     (let ce = Tick (lv_call_end v) in
      then_act (check env su ce)
     (then_act (require_act (rc_status r \<noteq> ''unknown'') ''operation_outcome_unknown'')
     (then_act (verify_receipt env op r)
     (then_act (check env su ce)
     (if op_stage op = ''interruption''
      then then_act (require_act (rc_status r = ''refused'') ''interruption_did_not_refuse'')
          (then_act (check env su ce)
          (then_act (transact env (j_terminal ''closed_refusal'' (interruption_reason c)))
          (then_act (check env su ce)
          (bind_act (gets_act r_completed) (\<lambda>n.
             return_act (v, Some (Result ''closed_refusal'' n (interruption_reason c))))))))
      else
        then_act (require_act (rc_status r = ''confirmed'') ''operation_refused_shared_reuse_stopped'')
       (bind_act (if op_stage op = ''restore_readback''
                  then bind_act (check env su ce) (\<lambda>at. return_act (v\<lparr>lv_restored := Some at\<rparr>))
                  else return_act v) (\<lambda>v.
        bind_act (take_capture env su op r now v) (\<lambda>v.
        then_act (check env su ce) (return_act (v, None))))))))))"

definition run_operation :: "renv \<Rightarrow> runner_config \<Rightarrow> run_case \<Rightarrow> tick \<Rightarrow> operation \<Rightarrow> loop_vars \<Rightarrow> (rstate, loop_vars \<times> run_result option) act" where
  "run_operation env su c run_end op v =
     bind_act (check env su run_end) (\<lambda>now.
     then_act (require_act (fresh_enough su ''preflight'' now (lv_baseline v) op) ''baseline_freshness'')
    (then_act (require_act (fresh_enough su ''restored'' now (lv_restored v) op) ''restored_freshness'')
    (then_act (transact env (j_reserve (case_number c) op))
    (let v = v\<lparr>lv_call_end := call_end su run_end now v op\<rparr>; ce = Tick (lv_call_end v) in
     then_act (check env su ce)
    (bind_act (invoke env op (lv_call_end v)) (\<lambda>r.
     then_act (check env su ce)
    (then_act (lift_res (check_receipt op r))
    (then_act (transact env (j_finish (case_number c) op r))
       (settle env su c op r now v)))))))))"

fun run_operations :: "renv \<Rightarrow> runner_config \<Rightarrow> run_case \<Rightarrow> tick \<Rightarrow> operation list \<Rightarrow> loop_vars \<Rightarrow> (rstate, loop_vars \<times> run_result option) act" where
  "run_operations env su c run_end [] v = return_act (v, None)"
| "run_operations env su c run_end (op # ops) v =
     bind_act (run_operation env su c run_end op v) (\<lambda>(v, early).
       case early of
         Some res \<Rightarrow> return_act (v, Some res)
       | None \<Rightarrow> run_operations env su c run_end ops v)"


section \<open>The run\<close>

text \<open>\<open>min(self.clock() + 1200, self.packet.deadline)\<close>\<close>

fun run_end :: "runner_config \<Rightarrow> tick \<Rightarrow> tick res" where
  "run_end su (Tick n) = Inr (Tick (min (n + 1200) (deadline su)))"
| "run_end su PosInf = Inr (Tick (deadline su))"
| "run_end su NegInf = Inr NegInf"
| "run_end su NaN = Inr NaN"
| "run_end su NotNumber = Inl Crash"

definition selected_case :: "packet \<Rightarrow> run_case option" where
  "selected_case p = List.find (\<lambda>c. case_number c = pk_selected_case p) (pk_cases p)"

definition case12_interruption :: "packet \<Rightarrow> string" where
  "case12_interruption p = (case case_interruption (pk_cases p ! 11) of
     None \<Rightarrow> ''partial_output'' | Some i \<Rightarrow> if i = [] then ''partial_output'' else i)"

text \<open>The refusals before the reservation.\<close>

definition check_program :: "runner_config \<Rightarrow> unit res" where
  "check_program su = (let p = su_packet su in
     bind_res (make_packet (su_pin su) (su_oracle_pin su) (pk_selected_case p) (case12_interruption p)) (\<lambda>expected.
     bind_res (require (pk_cases p = pk_cases expected \<and> pk_context p = pk_context expected \<and>
          pk_source_pin p = pk_source_pin expected \<and> su_drivers su)
        ''source_owned_program_or_driver_required'') (\<lambda>_.
     require (case pk_context p of None \<Rightarrow> False | Some cx \<Rightarrow> su_adapter_pin su = cx_program_pin cx)
        ''source_owned_adapter_program_binding_required'')))"

definition latch_campaign :: "renv \<Rightarrow> runner_config \<Rightarrow> (rstate, unit) act" where
  "latch_campaign env su =
     then_act (modify_act (\<lambda>s. s\<lparr>r_latched := True\<rparr>))
       (catch_act (transact env (j_latch (su_packet su) (packet_digest (su_packet su))))
          (\<lambda>e. case e of
             AlreadyReserved c \<Rightarrow>
               then_act (modify_act (\<lambda>s. s\<lparr>r_latched := False\<rparr>)) (raise_act e)
           | _ \<Rightarrow> raise_act e))"

text \<open>The loop over the cases runs the selected one, and then the terminal transaction.\<close>

definition run_selected :: "renv \<Rightarrow> runner_config \<Rightarrow> (rstate, run_result) act" where
  "run_selected env su =
     (let done = (\<lambda>ce. then_act (check env su (Tick ce))
          (then_act (transact env (j_terminal ''mechanism_complete'' ''selected_source_case_complete''))
          (then_act (check env su (Tick ce))
          (bind_act (gets_act r_completed) (\<lambda>n.
             return_act (Result ''mechanism_complete'' n ''selected_source_case_complete''))))))
      in case selected_case (su_packet su) of
        None \<Rightarrow> done (deadline su)
      | Some c \<Rightarrow>
          bind_act (clock env) (\<lambda>reading.
          bind_act (lift_res (run_end su reading)) (\<lambda>re.
          bind_act (run_operations env su c re (case_operations c)
             \<lparr>lv_snapshots = [], lv_baseline = None, lv_restored = None,
              lv_call_end = deadline su\<rparr>) (\<lambda>(v, early).
          case early of
            Some res \<Rightarrow> return_act res
          | None \<Rightarrow>
              then_act (modify_act (\<lambda>s. s\<lparr>r_completed := r_completed s + 1\<rparr>))
                (done (lv_call_end v))))))"

definition run_try :: "renv \<Rightarrow> runner_config \<Rightarrow> (rstate, run_result) act" where
  "run_try env su =
     then_act (lift_res (validate_packet (su_packet su)))
    (then_act (check env su (Tick (deadline su)))
    (then_act (lift_res (check_program su))
    (then_act (latch_campaign env su)
       (run_selected env su))))"

fun reason_of :: "exc \<Rightarrow> string" where
  "reason_of (Refused c) = c"
| "reason_of (AlreadyReserved c) = c"
| "reason_of _ = ''external_ack_or_adapter_unknown''"

definition run_failed :: "renv \<Rightarrow> exc \<Rightarrow> (rstate, run_result) act" where
  "run_failed env e = bind_act (gets_act (\<lambda>s. (r_latched s, r_completed s))) (\<lambda>(latched, n).
     if latched then
       bind_act (catch_act (then_act (transact env (j_terminal ''unknown'' (reason_of e)))
                              (return_act (reason_of e)))
                   (\<lambda>_. return_act ''terminal_ack_unknown''))
         (\<lambda>reason. return_act (Result ''unknown'' n reason))
     else return_act (Result ''refused'' n (reason_of e)))"

definition run :: "renv \<Rightarrow> runner_config \<Rightarrow> (rstate, run_result) act" where
  "run env su = catch_act (run_try env su) (run_failed env)"

text \<open>A new runner on a journal, and a history of runners, each with its own environment.\<close>

definition start :: "runner_config \<Rightarrow> journal \<times> rtrace \<Rightarrow> rstate" where
  "start su x = \<lparr>r_journal = fst x, r_trace = snd x, r_last = starts su, r_latched = False,
     r_completed = 0\<rparr>"

definition run_once :: "renv \<times> runner_config \<Rightarrow> journal \<times> rtrace \<Rightarrow> journal \<times> rtrace" where
  "run_once x y = (let t = snd (run (fst x) (snd x) (start (snd x) y)) in (r_journal t, r_trace t))"

fun runs :: "(renv \<times> runner_config) list \<Rightarrow> journal \<times> rtrace \<Rightarrow> journal \<times> rtrace" where
  "runs [] y = y"
| "runs (x # xs) y = runs xs (run_once x y)"

end
