(* ===== verification/Runner_Safety.thy ===== *)
theory Runner_Safety
  imports Runner
begin

text \<open>
  What a history of runs of the finite runner can dispatch. The lemmas are triples over the
  actions of \<open>Runner\<close>: an observation (a clock, source or oracle call) leaves the journal
  and the list of dispatched operations alone, a reservation comes before its dispatch, and
  a campaign that exists never dispatches again.
\<close>

section \<open>Dispatched operations and quiet actions\<close>

fun invoked_op :: "revent \<Rightarrow> operation option" where
  "invoked_op (EInvoke op _ _) = Some op"
| "invoked_op _ = None"

definition invoked :: "rtrace \<Rightarrow> operation list" where
  "invoked tr = keys_used invoked_op tr"

lemma invoked_Nil [simp]: "invoked [] = []"
  by (simp add: invoked_def)

lemma invoked_snoc [simp]:
  "invoked (tr @ [e]) = invoked tr @ (case invoked_op e of None \<Rightarrow> [] | Some op \<Rightarrow> [op])"
  by (simp add: invoked_def keys_used_single)

definition core :: "rstate \<Rightarrow> journal \<times> operation list \<times> bool \<times> int" where
  "core s = (r_journal s, invoked (r_trace s), r_latched s, r_completed s)"

definition quiet :: "(rstate, 'a) act \<Rightarrow> bool" where
  "quiet m \<longleftrightarrow> (\<forall>s. core (snd (m s)) = core s)"

lemma quiet_iff_keeps: "quiet m \<longleftrightarrow> (\<forall>v. keeps (\<lambda>s. core s = v) m)"
  unfolding quiet_def keeps_def by blast

lemma quiet_bind [keeps_intros]: "quiet m \<Longrightarrow> (\<And>x. quiet (f x)) \<Longrightarrow> quiet (bind_act m f)"
  by (simp add: quiet_iff_keeps keeps_bind)

lemma quiet_then [keeps_intros]: "quiet m \<Longrightarrow> quiet k \<Longrightarrow> quiet (then_act m k)"
  unfolding then_act_def by (rule quiet_bind)

lemma quiet_pure [keeps_intros, simp]:
  "quiet (return_act x)" "quiet (raise_act e)" "quiet (require_act b c)"
  "quiet (lift_res r)" "quiet (gets_act f)"
  by (simp_all add: quiet_iff_keeps)

lemma quiet_if: "quiet m \<Longrightarrow> quiet k \<Longrightarrow> quiet (if b then m else k)"
  by simp

lemma quiet_last [simp]: "quiet (modify_act (\<lambda>s. s\<lparr>r_last := f s\<rparr>))"
  by (simp add: quiet_def act_simps core_def)

lemma quiet_emit: "(\<And>a. invoked_op (ev a) = None) \<Longrightarrow> quiet (emit f ev)"
  by (simp add: quiet_def emit_def core_def Let_def)

lemma quiet_ports [keeps_intros, simp]:
  "quiet (clock env)" "quiet (source_check env)" "quiet (verify_receipt env op r)"
  "quiet (verify env sn)"
  by (simp_all add: clock_def source_check_def verify_receipt_def verify_def quiet_emit)

lemma quiet_check [keeps_intros, simp]: "quiet (check env su e)"
  unfolding check_def by (auto intro!: keeps_intros split: tick.split)

lemma hoare_quiet:
  "quiet m \<Longrightarrow> hoare (\<lambda>s. A (core s)) (\<lambda>s. B (core s)) m (\<lambda>_ s. B (core s))"
  unfolding hoare_def quiet_def by (metis snd_conv)

lemma keeps_quiet: "quiet m \<Longrightarrow> keeps (\<lambda>s. A (core s)) m"
  by (simp add: quiet_def keeps_def)

lemma quiet_take_capture [keeps_intros, simp]: "quiet (take_capture env su op r now v)"
  unfolding take_capture_def
  by (auto intro!: keeps_intros split: option.split)

text \<open>A journal transaction touches the journal only, and only by a successful step.\<close>
lemma transact_unfold:
  "transact env f s =
     (let t = s\<lparr>r_trace := r_trace s @ [EJournal (e_journal env (r_trace s))]\<rparr> in
      case e_journal env (r_trace s) of
        Fails \<Rightarrow> (Inl Crash, t)
      | DiesBefore \<Rightarrow> (Inl Killed, t)
      | Fine \<Rightarrow> (case f (r_journal s) of Inl e \<Rightarrow> (Inl e, t) | Inr j \<Rightarrow> (Inr (), t\<lparr>r_journal := j\<rparr>))
      | LostAck \<Rightarrow> (case f (r_journal s) of Inl e \<Rightarrow> (Inl e, t) | Inr j \<Rightarrow> (Inl Crash, t\<lparr>r_journal := j\<rparr>))
      | DiesAfter \<Rightarrow> (case f (r_journal s) of Inl e \<Rightarrow> (Inl e, t) | Inr j \<Rightarrow> (Inl Killed, t\<lparr>r_journal := j\<rparr>)))"
  by (simp add: transact_def Let_def split: jfault.split sum.split)

lemma transact_core:
  assumes "transact env f s = (r, t)"
  shows "core t = core s \<and> (\<forall>x. r \<noteq> Inr x) \<or>
    (\<exists>j. f (r_journal s) = Inr j \<and> core t = (j, snd (core s)))"
  using assms unfolding transact_unfold
  by (auto simp: core_def Let_def split: jfault.splits sum.splits)

lemma transact_hoare:
  assumes "\<And>j j' z. f j = Inr j' \<Longrightarrow> A (j, z) \<Longrightarrow> B (j, z) \<Longrightarrow> A (j', z) \<and> C (j', z)"
  shows "hoare (\<lambda>s. A (core s)) (\<lambda>s. B (core s)) (transact env f) (\<lambda>_ s. C (core s))"
proof (rule hoareI)
  fix s r t assume I: "A (core s)" and P: "B (core s)" and e: "transact env f s = (r, t)"
  have "core s = (r_journal s, snd (core s))" by (simp add: core_def)
  with transact_core [OF e] I P assms show "A (core t) \<and> (\<forall>x. r = Inr x \<longrightarrow> C (core t))"
    by metis
qed

lemma transact_keeps:
  "(\<And>j j' z. f j = Inr j' \<Longrightarrow> A (j, z) \<Longrightarrow> A (j', z)) \<Longrightarrow> keeps (\<lambda>s. A (core s)) (transact env f)"
  by (rule hoare_keeps, rule transact_hoare [where B = "\<lambda>_. True" and C = "\<lambda>_. True"]) simp

lemma invoke_core:
  "hoare (\<lambda>s. A (core s)) (\<lambda>s. \<exists>j ops z. core s = (j, ops, z) \<and> A (j, ops @ [op], z) \<and> C (j, ops @ [op], z))
     (invoke env op d) (\<lambda>_ s. C (core s))"
  by (auto simp: hoare_def invoke_def emit_def core_def act_simps Let_def split: if_splits)


section \<open>The run of one case\<close>

definition row_keys :: "journal \<Rightarrow> (string \<times> int \<times> string) list" where
  "row_keys j = map (\<lambda>r. (fst r, or_case (snd r), or_operation (snd r))) (rows j)"

definition op_key :: "run_case \<Rightarrow> operation \<Rightarrow> string \<times> int \<times> string" where
  "op_key c op = (op_name op, case_number c, dumps (operation_json op))"

text \<open>
  The journal holds exactly a prefix of the operations of the case, and everything in it was
  dispatched, the last row perhaps excepted.
\<close>

definition recorded :: "packet \<Rightarrow> journal \<Rightarrow> bool" where
  "recorded p j \<longleftrightarrow> (case campaign j of None \<Rightarrow> False
     | Some r \<Rightarrow> cr_packet r = dumps (packet_json p) \<and> cr_digest r = packet_digest p)"

definition dispatched_of :: "packet \<Rightarrow> run_case \<Rightarrow> journal \<Rightarrow> operation list \<Rightarrow> bool" where
  "dispatched_of p c j ops \<longleftrightarrow> journal_inv j \<and> recorded p j \<and>
     (\<exists>ps qs. case_operations c = ps @ qs \<and> row_keys j = map (op_key c) ps \<and>
        (ops = ps \<or> ps \<noteq> [] \<and> ops = butlast ps))"

abbreviation A_case :: "packet \<Rightarrow> run_case \<Rightarrow> journal \<times> operation list \<times> bool \<times> int \<Rightarrow> bool" where
  "A_case p c x \<equiv> dispatched_of p c (fst x) (fst (snd x))"

abbreviation B_done :: "run_case \<Rightarrow> operation list \<Rightarrow> journal \<times> operation list \<times> bool \<times> int \<Rightarrow> bool" where
  "B_done c ps x \<equiv> row_keys (fst x) = map (op_key c) ps \<and> fst (snd x) = ps"

lemma row_keys_reserve:
  "j_reserve (case_number c) op j = Inr j' \<Longrightarrow> row_keys j' = row_keys j @ [op_key c op]"
  by (auto simp: j_reserve_Inr row_keys_def op_key_def)

lemma row_keys_finish: "j_finish n op r j = Inr j' \<Longrightarrow> row_keys j' = row_keys j"
  by (auto simp: j_finish_def row_keys_def finish_row_def split: if_splits)

lemma row_keys_terminal: "j_terminal st q j = Inr j' \<Longrightarrow> row_keys j' = row_keys j"
  by (auto simp: row_keys_def dest!: j_terminal_Inr)

lemma campaign_reserve: "j_reserve n op j = Inr j' \<Longrightarrow> campaign j' = campaign j"
  by (auto simp: j_reserve_Inr)

lemma terminal_campaign: "j_terminal st q j = Inr j' \<Longrightarrow> campaign j \<noteq> None"
  by (auto simp: j_terminal_def split: option.splits)

lemma recorded_terminal: "j_terminal st q j = Inr j' \<Longrightarrow> recorded p j' = recorded p j"
  by (auto simp: recorded_def j_terminal_def split: option.splits if_splits)

lemma terminal_dispatched:
  "j_terminal st q j = Inr j' \<Longrightarrow> dispatched_of p c j ops \<Longrightarrow> dispatched_of p c j' ops"
  using journal_inv_terminal [of j st q j'] recorded_terminal [of st q j j' p] row_keys_terminal [of st q j j']
  unfolding dispatched_of_def by simp

lemma finish_dispatched:
  "j_finish n op r j = Inr j' \<Longrightarrow> rc_status r \<noteq> ''dispatching'' \<Longrightarrow> dispatched_of p c j ops \<Longrightarrow>
   dispatched_of p c j' ops"
  using journal_inv_finish [of j n op r j'] j_finish_Inr [of n op r j j'] row_keys_finish [of n op r j j']
  unfolding dispatched_of_def recorded_def by simp

lemma reserve_dispatched:
  assumes "j_reserve (case_number c) op j = Inr j'" and "dispatched_of p c j ops"
    and "row_keys j = map (op_key c) ps" and "ops = ps" and "case_operations c = ps @ op # qs"
  shows "dispatched_of p c j' ops" and "dispatched_of p c j' (ops @ [op])"
    and "row_keys j' = map (op_key c) (ps @ [op])"
proof -
  show rk: "row_keys j' = map (op_key c) (ps @ [op])"
    using row_keys_reserve [OF assms(1)] assms(3) by simp
  have "case_operations c = (ps @ [op]) @ qs" using assms(5) by simp
  moreover have "journal_inv j'" "recorded p j'"
    using assms(2) campaign_reserve [OF assms(1)] journal_inv_reserve [OF _ assms(1)]
    unfolding dispatched_of_def recorded_def by simp_all
  ultimately show "dispatched_of p c j' ops" "dispatched_of p c j' (ops @ [op])"
    using rk assms(4) unfolding dispatched_of_def
    by (metis Nil_is_append_conv butlast_snoc not_Cons_self2)+
qed

lemma check_receipt_status: "check_receipt op r = Inr u \<Longrightarrow> rc_status r \<noteq> ''dispatching''"
  by (auto simp: check_receipt_def bind_res_Inr)

lemma terminal_step:
  "hoare (\<lambda>s. A_case p c (core s)) (\<lambda>s. B_done c ps (core s)) (transact env (j_terminal st q))
     (\<lambda>_ s. B_done c ps (core s))"
  by (rule transact_hoare) (auto dest: terminal_dispatched row_keys_terminal)

lemmas quiet_step = hoare_quiet [where A = "A_case p c" and B = "B_done c ps" for p c ps]

lemma settle_step:
  "hoare (\<lambda>s. A_case p c (core s)) (\<lambda>s. B_done c ps (core s)) (settle env su c op r now v)
     (\<lambda>_ s. B_done c ps (core s))"
  unfolding settle_def Let_def
  by (intro hoare_then [OF terminal_step] hoare_then [OF quiet_step] hoare_bind [OF quiet_step]
        hoare_if quiet_step keeps_intros quiet_if)

lemma run_operation_step:
  assumes "case_operations c = ps @ op # qs"
  shows "hoare (\<lambda>s. A_case p c (core s)) (\<lambda>s. B_done c ps (core s)) (run_operation env su c re op v)
     (\<lambda>_ s. B_done c (ps @ [op]) (core s))"
proof -
  let ?res = "\<lambda>x. A_case p c x \<and> A_case p c (fst x, fst (snd x) @ [op], snd (snd x)) \<and>
      row_keys (fst x) = map (op_key c) (ps @ [op]) \<and> fst (snd x) = ps"
  have res: "hoare (\<lambda>s. A_case p c (core s)) (\<lambda>s. B_done c ps (core s))
      (transact env (j_reserve (case_number c) op)) (\<lambda>_ s. ?res (core s))"
    by (rule transact_hoare) (use reserve_dispatched [OF _ _ _ _ assms] in auto)
  have chk: "hoare (\<lambda>s. A_case p c (core s)) (\<lambda>s. ?res (core s)) (check env su e) (\<lambda>_ s. ?res (core s))" for e
    by (rule hoare_quiet) simp
  have inv: "hoare (\<lambda>s. A_case p c (core s)) (\<lambda>s. ?res (core s)) (invoke env op d)
      (\<lambda>_ s. B_done c (ps @ [op]) (core s))" for d
    by (rule hoare_pre [OF invoke_core]) (auto simp: core_def)
  have fin: "hoare (\<lambda>s. A_case p c (core s)) (\<lambda>s. B_done c (ps @ [op]) (core s) \<and> check_receipt op r = Inr u)
      (transact env (j_finish (case_number c) op r)) (\<lambda>_ s. B_done c (ps @ [op]) (core s))" for r u
    by (rule transact_hoare)
       (auto dest: row_keys_finish intro: finish_dispatched [OF _ check_receipt_status])
  show ?thesis
    unfolding run_operation_def Let_def
    by (intro hoare_bind [OF quiet_step] hoare_then [OF quiet_step] hoare_then [OF res]
          hoare_then [OF chk] hoare_bind [OF inv] hoare_then [OF hoare_lift] hoare_then [OF fin]
          settle_step quiet_check quiet_pure)
qed

lemma run_operations_step:
  assumes "case_operations c = ps @ ops"
  shows "hoare (\<lambda>s. A_case p c (core s)) (\<lambda>s. B_done c ps (core s)) (run_operations env su c re ops v)
     (\<lambda>(v, early) s. early = None \<longrightarrow> B_done c (ps @ ops) (core s))"
  using assms
proof (induction ops arbitrary: ps v)
  case Nil
  show ?case by (auto intro: hoare_return)
next
  case (Cons op ops)
  show ?case unfolding run_operations.simps
  proof (rule hoare_bind [OF run_operation_step [OF Cons.prems]])
    fix x :: "loop_vars \<times> run_result option"
    obtain v early where x: "x = (v, early)" by force
    show "hoare (\<lambda>s. A_case p c (core s)) (\<lambda>s. B_done c (ps @ [op]) (core s))
        ((case x of (v, early) \<Rightarrow> case early of Some res \<Rightarrow> return_act (v, Some res)
           | None \<Rightarrow> run_operations env su c re ops v))
        (\<lambda>(v, early) s. early = None \<longrightarrow> B_done c (ps @ op # ops) (core s))"
      using Cons.IH [of "ps @ [op]"] Cons.prems x
      by (auto intro: hoare_return split: option.split)
  qed
qed


section \<open>One run\<close>

text \<open>A triple under a stronger invariant is one under the weaker.\<close>

lemma hoare_inv:
  assumes "hoare I P m Q" and "\<And>s. I s \<Longrightarrow> J s" and "\<And>s. J s \<Longrightarrow> P' s \<Longrightarrow> I s \<and> P s"
  shows "hoare J P' m (\<lambda>_ _. True)"
  using assms unfolding hoare_def by blast

lemma quiet_completed: "keeps (\<lambda>s. A_case p c (core s)) (modify_act (\<lambda>s. s\<lparr>r_completed := f s\<rparr>))"
  by (simp add: keeps_def act_simps core_def)

lemma terminal_keeps: "keeps (\<lambda>s. A_case p c (core s)) (transact env (j_terminal st q))"
  by (rule transact_keeps) (auto dest: terminal_dispatched)

lemma quiet_case: "quiet m \<Longrightarrow> keeps (\<lambda>s. A_case p c (core s)) m"
  by (rule keeps_quiet)

lemma run_operations_keeps:
  assumes "A_case p c (core s)" and "B_done c [] (core s)"
    and "run_operations env su c re (case_operations c) v s = (r, t)"
  shows "A_case p c (core t)"
  using hoareD [OF run_operations_step [of c "[]" "case_operations c" p env su re v] assms(1) _ assms(3)]
    assms(2) by simp

lemma run_selected_step:
  assumes "selected_case (su_packet su) = Some c"
  shows "hoare (\<lambda>s. A_case p c (core s)) (\<lambda>s. B_done c [] (core s)) (run_selected env su) (\<lambda>_ _. True)"
proof -
  have ops: "hoare (\<lambda>s. A_case p c (core s)) (\<lambda>s. B_done c [] (core s))
      (run_operations env su c re (case_operations c) v) (\<lambda>_ _. True)" for re v
    by (rule hoare_post [OF run_operations_step]) auto
  show ?thesis
    unfolding run_selected_def Let_def assms option.case
    by (intro hoare_bind [OF ops] hoare_bind [OF quiet_step] quiet_ports quiet_pure)
       (auto intro!: keeps_hoare keeps_then keeps_bind terminal_keeps quiet_completed
          quiet_case [OF quiet_check] split: option.split)
qed

lemma selected_case_mem: "selected_case p = Some c \<Longrightarrow> c \<in> set (pk_cases p)"
  by (auto simp: selected_case_def find_Some_iff)

lemma selected_case_exists: "validate_packet p = Inr () \<Longrightarrow> \<exists>c. selected_case p = Some c"
proof -
  assume v: "validate_packet p = Inr ()"
  then have "map case_number (pk_cases p) = [1..12]" and "pk_selected_case p \<in> {1..12}"
    using validate_packet_campaign [OF v]
    by (auto simp: campaign_ok_def validate_packet_def bind_res_Inr split: option.splits)
  then have "pk_selected_case p \<in> set (map case_number (pk_cases p))" by simp
  then have "selected_case p \<noteq> None"
    unfolding selected_case_def find_None_iff by auto
  then show "\<exists>c. selected_case p = Some c" by blast
qed

text \<open>The state of a run on a journal without a campaign.\<close>

definition fresh_run :: "packet \<Rightarrow> journal \<Rightarrow> journal \<times> operation list \<times> bool \<times> int \<Rightarrow> bool" where
  "fresh_run p j0 x \<longleftrightarrow> fst x = j0 \<and> fst (snd x) = [] \<or>
     validate_packet p = Inr () \<and> (\<exists>c\<in>set (pk_cases p). A_case p c x)"

lemma latch_dispatched:
  assumes "j_latch p (packet_digest p) j = Inr j'" and "rows j = []"
  shows "dispatched_of p c j' [] \<and> row_keys j' = []"
proof -
  have "journal_inv j" using assms(2) by (simp add: journal_inv_def open_rows_def)
  then show ?thesis
    using assms journal_inv_latch [OF _ assms(1)] j_latch_Inr [OF assms(1)]
    by (auto simp: dispatched_of_def row_keys_def recorded_def j_latch_def split: option.splits)
qed

lemma latch_step:
  assumes "validate_packet (su_packet su) = Inr ()" and "selected_case (su_packet su) = Some c"
    and "rows j0 = []"
  shows "hoare (\<lambda>s. fresh_run (su_packet su) j0 (core s)) (\<lambda>s. fst (core s) = j0 \<and> fst (snd (core s)) = [])
     (latch_campaign env su) (\<lambda>_ s. A_case (su_packet su) c (core s) \<and> B_done c [] (core s))"
proof -
  let ?p = "su_packet su"
  let ?C = "\<lambda>x. A_case ?p c x \<and> B_done c [] x"
  have l: "hoare (\<lambda>s. fresh_run ?p j0 (core s)) (\<lambda>s. fst (core s) = j0 \<and> fst (snd (core s)) = [])
     (transact env (j_latch ?p (packet_digest ?p))) (\<lambda>_ s. ?C (core s))"
    by (rule transact_hoare)
       (use latch_dispatched [of ?p _ _ c] assms selected_case_mem [OF assms(2)]
         in \<open>fastforce simp: fresh_run_def\<close>)
  show ?thesis
  proof (rule hoareI)
    fix s r t
    assume I: "fresh_run ?p j0 (core s)" and P: "fst (core s) = j0 \<and> fst (snd (core s)) = []"
      and e: "latch_campaign env su s = (r, t)"
    let ?s = "s\<lparr>r_latched := True\<rparr>"
    obtain q u where tr: "transact env (j_latch ?p (packet_digest ?p)) ?s = (q, u)" by force
    have "fresh_run ?p j0 (core ?s)" "fst (core ?s) = j0 \<and> fst (snd (core ?s)) = []"
      using I P by (auto simp: core_def fresh_run_def)
    from l [unfolded hoare_def, rule_format, OF this tr]
    have u: "fresh_run ?p j0 (core u)" "\<forall>x. q = Inr x \<longrightarrow> ?C (core u)" by auto
    have "fresh_run ?p j0 (core (u\<lparr>r_latched := False\<rparr>))"
      using u(1) by (simp add: fresh_run_def core_def)
    with e tr u show "fresh_run ?p j0 (core t) \<and> (\<forall>x. r = Inr x \<longrightarrow> ?C (core t))"
      by (auto simp: latch_campaign_def act_simps split: sum.splits exc.splits if_splits)
  qed
qed

lemma fresh_run_step:
  assumes "campaign j0 = None" and "rows j0 = []"
  shows "hoare (\<lambda>s. fresh_run (su_packet su) j0 (core s)) (\<lambda>s. fst (core s) = j0 \<and> fst (snd (core s)) = [])
     (run env su) (\<lambda>_ _. True)"
proof -
  let ?p = "su_packet su"
  let ?I = "\<lambda>s. fresh_run ?p j0 (core s)"
  let ?P = "\<lambda>s. fst (core s) = j0 \<and> fst (snd (core s)) = []"
  have q: "hoare ?I ?P m (\<lambda>_. ?P)" if "quiet m" for m :: "(rstate, 'b) act"
    using hoare_quiet [OF that, of "fresh_run ?p j0" "\<lambda>x. fst x = j0 \<and> fst (snd x) = []"] .
  have tried: "hoare ?I ?P (run_try env su) (\<lambda>_ _. True)"
    unfolding run_try_def
  proof (rule hoare_then [OF hoare_lift], rule hoare_assume)
    fix u assume "validate_packet ?p = Inr u"
    then have v: "validate_packet ?p = Inr ()" by simp
    from selected_case_exists [OF v] obtain c where c: "selected_case ?p = Some c" by blast
    have sel: "hoare ?I (\<lambda>s. A_case ?p c (core s) \<and> B_done c [] (core s)) (run_selected env su) (\<lambda>_ _. True)"
      by (rule hoare_inv [OF run_selected_step [OF c, of ?p]])
         (use v selected_case_mem [OF c] in \<open>auto simp: fresh_run_def\<close>)
    show "hoare ?I ?P (then_act (check env su (Tick (deadline su)))
        (then_act (lift_res (check_program su)) (then_act (latch_campaign env su) (run_selected env su))))
        (\<lambda>_ _. True)"
      by (intro hoare_then [OF q] hoare_then [OF latch_step [OF v c assms(2)]] sel quiet_check quiet_pure)
  qed
  have closing: "keeps ?I (transact env (j_terminal st r))" for st r
    by (rule transact_keeps)
       (use assms(1) in \<open>auto simp: fresh_run_def dest: terminal_campaign terminal_dispatched\<close>)
  have fail: "keeps ?I (run_failed env e)" for e
    unfolding run_failed_def by (auto intro!: keeps_intros closing)
  show ?thesis
    unfolding run_def by (intro hoare_catch tried keeps_hoare fail)
qed


section \<open>A reserved campaign\<close>

text \<open>
  What a run may do to a journal that has a campaign: nothing but record that its outcome is
  unknown. It happens when the reservation of the run itself fails without an answer.
\<close>

definition downgraded :: "journal \<Rightarrow> journal \<Rightarrow> bool" where
  "downgraded j j' \<longleftrightarrow> rows j' = rows j \<and> (campaign j' = campaign j \<or>
     (\<exists>r q. campaign j = Some r \<and> campaign j' = Some (r\<lparr>cr_status := ''unknown'', cr_reason := q\<rparr>)))"

definition held :: "journal \<Rightarrow> operation list \<Rightarrow> journal \<times> operation list \<times> bool \<times> int \<Rightarrow> bool" where
  "held j0 ops x \<longleftrightarrow> downgraded j0 (fst x) \<and> fst (snd x) = ops"

lemma downgraded_campaign: "downgraded j j' \<Longrightarrow> campaign j \<noteq> None \<Longrightarrow> campaign j' \<noteq> None"
  by (auto simp: downgraded_def)

lemma downgraded_terminal:
  "j_terminal ''unknown'' q j' = Inr j'' \<Longrightarrow> downgraded j j' \<Longrightarrow> downgraded j j''"
  by (cases "campaign j'"; cases "campaign j")
     (auto simp: downgraded_def j_terminal_def split: if_splits)

lemma latch_held:
  assumes "campaign j0 \<noteq> None"
  shows "hoare (\<lambda>s. held j0 ops (core s)) (\<lambda>_. True) (latch_campaign env su) (\<lambda>_ _. False)"
proof (rule hoareI)
  fix s r t assume I: "held j0 ops (core s)" and e: "latch_campaign env su s = (r, t)"
  let ?f = "j_latch (su_packet su) (packet_digest (su_packet su))"
  let ?s = "s\<lparr>r_latched := True\<rparr>"
  obtain q u where tr: "transact env ?f ?s = (q, u)" by force
  have "campaign (r_journal s) \<noteq> None"
    using I assms downgraded_campaign by (auto simp: held_def core_def)
  then have no: "?f (r_journal s) \<noteq> Inr j" for j
    by (auto simp: j_latch_def)
  then have u: "core u = core ?s" "\<forall>x. q \<noteq> Inr x"
    using transact_core [OF tr] by auto
  have "held j0 ops (core u)" "held j0 ops (core (u\<lparr>r_latched := False\<rparr>))"
    using I u(1) by (auto simp: held_def core_def)
  with e tr u(2) show "held j0 ops (core t) \<and> (\<forall>x. r = Inr x \<longrightarrow> False)"
    by (auto simp: latch_campaign_def act_simps split: sum.splits exc.splits if_splits)
qed

lemma run_held:
  assumes "campaign j0 \<noteq> None"
  shows "keeps (\<lambda>s. held j0 ops (core s)) (run env su)"
proof -
  let ?I = "\<lambda>s. held j0 ops (core s)"
  have none: "hoare ?I (\<lambda>_. False) (run_selected env su) (\<lambda>_ _. True)"
    by (simp add: hoare_def)
  have latch: "keeps ?I (then_act (latch_campaign env su) (run_selected env su))"
    by (rule hoare_keeps, rule hoare_then [OF latch_held [OF assms] none])
  have closing: "keeps ?I (transact env (j_terminal ''unknown'' q))" for q
    by (rule transact_keeps) (auto simp: held_def dest: downgraded_terminal)
  show ?thesis
    unfolding run_def run_try_def run_failed_def
    by (intro keeps_catch keeps_then latch)
       (auto intro!: keeps_intros closing keeps_quiet [OF quiet_check])
qed


section \<open>A refused run\<close>

definition untouched :: "journal \<Rightarrow> operation list \<Rightarrow> journal \<times> operation list \<times> bool \<times> int \<Rightarrow> bool" where
  "untouched j0 ops x \<longleftrightarrow> (\<not> fst (snd (snd x)) \<longrightarrow> fst x = j0 \<and> fst (snd x) = ops)"

lemma transact_latched: "keeps r_latched (transact env f)"
  unfolding keeps_def transact_unfold by (simp add: Let_def split: jfault.split sum.split)

lemma quiet_latched: "quiet m \<Longrightarrow> keeps r_latched m"
  using keeps_quiet [of m "\<lambda>x. fst (snd (snd x))"] by (simp add: core_def)

lemma invoke_latched: "keeps r_latched (invoke env op d)"
  by (simp add: keeps_def invoke_def emit_def act_simps Let_def)

lemma settle_latched: "keeps r_latched (settle env su c op r now v)"
  unfolding settle_def Let_def
  by (auto intro!: keeps_intros transact_latched quiet_latched [OF quiet_check] quiet_latched [OF quiet_ports(3)]
       quiet_latched [OF quiet_take_capture])

lemma run_operation_latched: "keeps r_latched (run_operation env su c re op v)"
  unfolding run_operation_def Let_def
  by (intro keeps_bind keeps_then keeps_pure transact_latched quiet_latched [OF quiet_check]
        invoke_latched settle_latched)

lemma run_operations_latched: "keeps r_latched (run_operations env su c re ops v)"
  by (induction ops arbitrary: v)
     (auto intro!: keeps_bind run_operation_latched split: option.split)

lemma run_selected_latched: "keeps r_latched (run_selected env su)"
  unfolding run_selected_def Let_def
  by (auto intro!: keeps_intros keeps_modify transact_latched quiet_latched [OF quiet_check]
       quiet_latched [OF quiet_ports(1)] run_operations_latched split: option.split)

lemma latched_untouched: "hoare (\<lambda>s. untouched j0 ops (core s)) r_latched m (\<lambda>_ _. True)"
  if "keeps r_latched m"
  using that by (fastforce simp: hoare_def untouched_def core_def dest: keepsD)

lemma latch_untouched:
  "hoare (\<lambda>s. untouched j0 ops (core s)) (\<lambda>s. \<not> r_latched s) (latch_campaign env su) (\<lambda>_. r_latched)"
proof (rule hoareI)
  fix s r t assume I: "untouched j0 ops (core s)" "\<not> r_latched s"
    and e: "latch_campaign env su s = (r, t)"
  let ?f = "j_latch (su_packet su) (packet_digest (su_packet su))"
  let ?s = "s\<lparr>r_latched := True\<rparr>"
  obtain q u where tr: "transact env ?f ?s = (q, u)" by force
  have l: "r_latched u" using keepsD [OF transact_latched _ tr] by simp
  have a: "core u = core ?s" if "q = Inl (AlreadyReserved c)" for c
    using tr that unfolding transact_unfold
    by (auto simp: core_def Let_def split: jfault.splits sum.splits)
  show "untouched j0 ops (core t) \<and> (\<forall>x. r = Inr x \<longrightarrow> r_latched t)"
    using e tr l I a
    by (auto simp: latch_campaign_def act_simps untouched_def core_def split: sum.splits exc.splits if_splits)
qed

lemma run_try_untouched:
  "hoare (\<lambda>s. untouched j0 ops (core s)) (\<lambda>s. \<not> r_latched s) (run_try env su) (\<lambda>_ _. True)"
proof -
  have q: "hoare (\<lambda>s. untouched j0 ops (core s)) (\<lambda>s. \<not> r_latched s) m (\<lambda>_ s. \<not> r_latched s)"
    if "quiet m" for m :: "(rstate, 'b) act"
    using hoare_quiet [OF that, of "untouched j0 ops" "\<lambda>x. \<not> fst (snd (snd x))"] by (simp add: core_def)
  show ?thesis
    unfolding run_try_def
    by (intro hoare_then [OF latch_untouched] hoare_then [OF q]
          latched_untouched run_selected_latched quiet_check quiet_pure)
qed

lemma Result_status [simp]: "res_status (Result s n r) = s"
  by (simp add: Result_def)

text \<open>A run that returns without having crossed the reservation boundary is the only one that
  reports \<open>refused\<close>.\<close>

lemma settle_result:
  "settle env su c op r now v s = (Inr (w, Some res), t) \<Longrightarrow> res_status res = ''closed_refusal''"
  unfolding settle_def Let_def
  by (auto simp: then_act_def bind_act_Inr return_act_def gets_act_def split: if_splits)

lemma run_operation_result:
  "run_operation env su c re op v s = (Inr (w, Some res), t) \<Longrightarrow> res_status res = ''closed_refusal''"
  unfolding run_operation_def Let_def
  by (auto simp: then_act_def bind_act_Inr dest: settle_result)

lemma run_operations_result:
  "run_operations env su c re ops v s = (Inr (w, Some res), t) \<Longrightarrow> res_status res = ''closed_refusal''"
proof (induction ops arbitrary: v s)
  case Nil
  then show ?case by (simp add: return_act_def)
next
  case (Cons op ops)
  then show ?case
    by (auto simp: bind_act_Inr return_act_def split: option.splits dest: run_operation_result)
qed

lemma run_try_result:
  "run_try env su s = (Inr res, t) \<Longrightarrow> res_status res \<in> {''closed_refusal'', ''mechanism_complete''}"
  unfolding run_try_def run_selected_def Let_def
  by (auto simp: then_act_def bind_act_Inr return_act_def gets_act_def
      split: option.splits dest: run_operations_result)

end
