(* ===== verification/Runner_Trace.thy ===== *)
theory Runner_Trace
  imports Runner_Safety
begin

text \<open>
  What the trace of one run of the finite runner looks like: every dispatch directly follows
  a successful boundary check, and a run that reports completion dispatched, recorded and
  verified every operation of its case, with all captures equal to the baseline.
\<close>

section \<open>Boundary checks before dispatches\<close>

text \<open>
  The trace ends with a source check that answered the pin of the packet and a clock reading
  inside the window and before \<open>d\<close>.
\<close>

definition ready :: "runner_config \<Rightarrow> int \<Rightarrow> rtrace \<Rightarrow> bool" where
  "ready su d tr \<longleftrightarrow> (\<exists>pre now. tr = pre @ [ESource (Inr (pk_source_pin (su_packet su))), EClock (Inr (Tick now))] \<and>
     starts su \<le> now \<and> now < d \<and> d \<le> deadline su)"

definition timely :: "runner_config \<Rightarrow> rtrace \<Rightarrow> bool" where
  "timely su tr \<longleftrightarrow> (\<forall>pre op d r post. tr = pre @ EInvoke op d r # post \<longrightarrow> ready su d pre)"

lemma timely_Nil [simp]: "timely su []"
  by (simp add: timely_def)

lemma timely_snoc:
  "timely su (tr @ [e]) \<longleftrightarrow> timely su tr \<and> (\<forall>op d r. e = EInvoke op d r \<longrightarrow> ready su d tr)"
proof (intro iffI conjI)
  assume t: "timely su (tr @ [e])"
  then show "\<forall>op d r. e = EInvoke op d r \<longrightarrow> ready su d tr"
    by (auto simp: timely_def)
  from t show "timely su tr"
    unfolding timely_def by (metis append.assoc append_Cons)
next
  assume a: "timely su tr \<and> (\<forall>op d r. e = EInvoke op d r \<longrightarrow> ready su d tr)"
  show "timely su (tr @ [e])"
    unfolding timely_def
  proof (intro allI impI)
    fix pre op d r post assume eq: "tr @ [e] = pre @ EInvoke op d r # post"
    show "ready su d pre"
    proof (cases post rule: rev_cases)
      case Nil
      with eq a show ?thesis by simp
    next
      case (snoc post' x)
      with eq have "tr = pre @ EInvoke op d r # post'" by simp
      with a show ?thesis unfolding timely_def by blast
    qed
  qed
qed

abbreviation on_time :: "runner_config \<Rightarrow> rstate \<Rightarrow> bool" where
  "on_time su s \<equiv> timely su (r_trace s)"

lemma emit_on_time: "(\<And>a. invoked_op (ev a) = None) \<Longrightarrow> keeps (on_time su) (emit f ev)"
  by (auto simp: keeps_def emit_def Let_def timely_snoc) (metis invoked_op.simps(1) option.distinct(1))

lemma ports_on_time [keeps_intros]:
  "keeps (on_time su) (clock env)" "keeps (on_time su) (source_check env)"
  "keeps (on_time su) (verify_receipt env op r)" "keeps (on_time su) (verify env sn)"
  unfolding clock_def source_check_def verify_receipt_def verify_def by (rule emit_on_time, simp)+

lemma transact_on_time [keeps_intros]: "keeps (on_time su) (transact env f)"
  unfolding keeps_def transact_unfold
  by (simp add: Let_def timely_snoc split: jfault.split sum.split)

lemma last_on_time [keeps_intros]: "keeps (on_time su) (modify_act (\<lambda>s. s\<lparr>r_last := f s\<rparr>))"
  by (simp add: keeps_modify)

lemma check_on_time [keeps_intros]: "keeps (on_time su) (check env su e)"
  unfolding check_def by (auto intro!: keeps_intros split: tick.split)

lemma tick_Inr:
  "(case x of Tick n \<Rightarrow> f n | _ \<Rightarrow> raise_act e) s = (Inr y, t) \<longleftrightarrow> (\<exists>n. x = Tick n \<and> f n s = (Inr y, t))"
  by (cases x) (auto simp: raise_act_def)

lemma check_ready:
  assumes "check env su (Tick d) s = (Inr now, t)" and "d \<le> deadline su"
  shows "ready su d (r_trace t) \<and> now < d \<and> starts su \<le> now"
  using assms unfolding check_def
  by (auto simp: then_act_def bind_act_Inr clock_def source_check_def emit_def Let_def tick_Inr
      modify_act_def gets_act_def return_act_def before_def ready_def)

lemma call_end_le: "call_end su re now v op \<le> deadline su"
  unfolding call_end_def by (rule Min_le) auto

lemma invoke_on_time: "hoare (on_time su) (\<lambda>s. ready su d (r_trace s)) (invoke env op d) (\<lambda>_ _. True)"
  by (auto simp: hoare_def invoke_def emit_def act_simps Let_def timely_snoc split: if_splits)

lemma settle_on_time: "keeps (on_time su) (settle env su c op r now v)"
  unfolding settle_def take_capture_def Let_def by (auto intro!: keeps_intros split: option.split)

lemma run_operation_on_time: "keeps (on_time su) (run_operation env su c re op v)"
proof -
  let ?d = "\<lambda>now. call_end su re now v op"
  have chk: "hoare (on_time su) (\<lambda>_. True) (check env su (Tick (?d now))) (\<lambda>_ s. ready su (?d now) (r_trace s))" for now
    using check_on_time check_ready [OF _ call_end_le]
    by (auto simp: hoare_def dest: keepsD)
  have rest: "hoare (on_time su) P (transact env f) (\<lambda>_ _. True)"
    "hoare (on_time su) P (check env su e) (\<lambda>_ _. True)" for P f e
    by (auto intro: keeps_hoare keeps_intros)
  have body: "hoare (on_time su) (\<lambda>_. True)
     (then_act (check env su (Tick (?d now))) (bind_act (invoke env op (?d now)) k)) (\<lambda>_ _. True)"
    if "\<And>r. keeps (on_time su) (k r)" for now and k :: "receipt \<Rightarrow> (rstate, 'b) act"
    by (intro hoare_then [OF chk] hoare_bind [OF invoke_on_time] keeps_hoare that)
  show ?thesis
    unfolding run_operation_def Let_def loop_vars.select_convs loop_vars.update_convs
    by (simp, intro keeps_bind [OF check_on_time] keeps_then [OF keeps_pure(3)] keeps_then [OF transact_on_time])
       (rule hoare_keeps [where Q = "\<lambda>_ _. True"], intro body keeps_then keeps_pure check_on_time transact_on_time settle_on_time)
qed

lemma run_operations_on_time: "keeps (on_time su) (run_operations env su c re ops v)"
  by (induction ops arbitrary: v)
     (auto intro!: keeps_bind run_operation_on_time split: option.split)

lemma latch_on_time: "keeps (on_time su) (latch_campaign env su)"
  unfolding latch_campaign_def
  by (intro keeps_then keeps_catch keeps_modify transact_on_time)
     (auto intro!: keeps_intros keeps_modify split: exc.split)

lemma run_on_time: "keeps (on_time su) (run env su)"
  unfolding run_def run_try_def run_selected_def run_failed_def Let_def
  by (intro keeps_catch keeps_then keeps_pure check_on_time latch_on_time)
     (auto intro!: keeps_intros keeps_modify run_operations_on_time split: option.split)


section \<open>A completed run\<close>

text \<open>Every action only adds to the trace.\<close>

definition grows :: "(rstate, 'a) act \<Rightarrow> bool" where
  "grows m \<longleftrightarrow> (\<forall>e s. e \<in> set (r_trace s) \<longrightarrow> e \<in> set (r_trace (snd (m s))))"

lemma growsD: "grows m \<Longrightarrow> m s = (r, t) \<Longrightarrow> e \<in> set (r_trace s) \<Longrightarrow> e \<in> set (r_trace t)"
  unfolding grows_def by (metis snd_conv)

lemma grows_keeps: "grows m \<longleftrightarrow> (\<forall>e. keeps (\<lambda>s. e \<in> set (r_trace s)) m)"
  by (auto simp: grows_def keeps_def)

lemma grows_compose:
  "grows m \<Longrightarrow> (\<And>x. grows (f x)) \<Longrightarrow> grows (bind_act m f)"
  "grows m \<Longrightarrow> grows k \<Longrightarrow> grows (then_act m k)"
  by (simp_all add: grows_keeps keeps_bind keeps_then)

lemma grows_pure:
  "grows (return_act x)" "grows (raise_act e)" "grows (require_act b c)" "grows (lift_res r)"
  "grows (gets_act f)" "grows (modify_act (\<lambda>s. s\<lparr>r_last := g s\<rparr>))" "grows (modify_act (\<lambda>s. s\<lparr>r_completed := h s\<rparr>))"
  by (auto simp: grows_def act_simps)

lemma grows_emit: "grows (emit f ev)"
  by (simp add: grows_def emit_def Let_def)

lemma grows_transact: "grows (transact env f)"
  unfolding grows_def transact_unfold by (simp add: Let_def split: jfault.split sum.split)

lemma grows_ports:
  "grows (clock env)" "grows (source_check env)" "grows (verify_receipt env op r)" "grows (verify env sn)"
  "grows (invoke env op d)"
  unfolding clock_def source_check_def verify_receipt_def verify_def invoke_def
  by (simp_all add: grows_emit grows_pure)

lemma grows_check: "grows (check env su e)"
  unfolding check_def by (auto intro!: grows_compose grows_pure grows_ports split: tick.split)

lemma grows_take_capture: "grows (take_capture env su op r now v)"
  unfolding take_capture_def
  by (auto intro!: grows_compose grows_pure grows_ports grows_check split: option.split)

lemma grows_settle: "grows (settle env su c op r now v)"
  unfolding settle_def Let_def
  by (auto intro!: grows_compose grows_pure grows_ports grows_check grows_take_capture grows_transact)

lemmas grows_all = grows_compose grows_pure grows_ports grows_check grows_take_capture grows_transact grows_settle

lemma grows_run_operation: "grows (run_operation env su c re op v)"
  unfolding run_operation_def Let_def by (intro grows_all)

lemma grows_run_operations: "grows (run_operations env su c re ops v)"
  by (induction ops arbitrary: v)
     (auto intro!: grows_compose grows_pure grows_run_operation split: option.split)

text \<open>
  An operation passed: it was dispatched, its receipt confirmed, within its cost and accepted
  by the oracle, and a capture gave a complete snapshot, accepted by the oracle too, with the
  identity and the canonical bytes \<open>first\<close>.
\<close>

definition captured :: "runner_config \<Rightarrow> string \<times> string \<Rightarrow> rtrace \<Rightarrow> receipt \<Rightarrow> bool" where
  "captured su first tr r \<longleftrightarrow> (\<exists>sn. rc_snapshot r = Some sn \<and> snapshot_ok su (Some sn) \<and>
     EVerify sn (Inr ()) \<in> set tr \<and> (sn_identity sn, sn_canonical sn) = first)"

definition passed :: "runner_config \<Rightarrow> string \<times> string \<Rightarrow> rtrace \<Rightarrow> operation \<Rightarrow> bool" where
  "passed su first tr op \<longleftrightarrow> (\<exists>r d. EInvoke op d (Inr r) \<in> set tr \<and> EVerifyReceipt op r (Inr ()) \<in> set tr \<and>
     rc_status r = ''confirmed'' \<and> check_receipt op r = Inr () \<and>
     (op_capture op \<noteq> None \<longrightarrow> captured su first tr r))"

lemma passed_grow: "passed su first tr op \<Longrightarrow> set tr \<subseteq> set tr' \<Longrightarrow> passed su first tr' op"
  unfolding passed_def captured_def by blast

lemma quietD: "quiet m \<Longrightarrow> m s = (r, t) \<Longrightarrow> core t = core s"
  unfolding quiet_def by (metis snd_conv)

lemma grows_set: "grows m \<Longrightarrow> m s = (r, t) \<Longrightarrow> set (r_trace s) \<subseteq> set (r_trace t)"
  by (auto dest: growsD)

lemma transact_Inr:
  "transact env f s = (Inr u, t) \<Longrightarrow> f (r_journal s) = Inr (r_journal t) \<and> invoked (r_trace t) = invoked (r_trace s)"
  unfolding transact_unfold by (auto simp: Let_def split: jfault.splits sum.splits)

text \<open>The capture of one operation: what it adds to the snapshots taken so far.\<close>

definition capture_taken ::
    "runner_config \<Rightarrow> operation \<Rightarrow> receipt \<Rightarrow> rtrace \<Rightarrow> (string \<times> snapshot) list \<Rightarrow> (string \<times> snapshot) list \<Rightarrow> bool" where
  "capture_taken su op r tr snaps snaps' \<longleftrightarrow> (case op_capture op of
      None \<Rightarrow> snaps' = snaps
    | Some cap \<Rightarrow> \<exists>sn. rc_snapshot r = Some sn \<and> snapshot_ok su (Some sn) \<and> EVerify sn (Inr ()) \<in> set tr \<and>
        same_as_baseline snaps sn = Inr () \<and> snaps' = (cap, sn) # snaps)"

lemma capture_taken_grow:
  "capture_taken su op r tr x y \<Longrightarrow> set tr \<subseteq> set tr' \<Longrightarrow> capture_taken su op r tr' x y"
  by (auto simp: capture_taken_def split: option.splits)

lemma take_capture_Inr:
  assumes "take_capture env su op r now v s = (Inr w, t)"
  shows "capture_taken su op r (r_trace t) (lv_snapshots v) (lv_snapshots w)"
proof (cases "op_capture op")
  case None
  with assms show ?thesis by (simp add: take_capture_def return_act_def capture_taken_def)
next
  case (Some cap)
  with assms obtain sn u x where sn: "rc_snapshot r = Some sn" "snapshot_ok su (Some sn)"
    "same_as_baseline (lv_snapshots v) sn = Inr ()" "verify env sn s = (Inr (), u)"
    "check env su (Tick (lv_call_end v)) u = (Inr x, t)" "lv_snapshots w = (cap, sn) # lv_snapshots v"
    by (auto simp: take_capture_def then_act_def bind_act_Inr return_act_def lift_res_def raise_act_def
        split: option.splits if_splits)
  from sn(4) have "EVerify sn (Inr ()) \<in> set (r_trace u)"
    by (auto simp: verify_def emit_def Let_def)
  with grows_set [OF grows_check sn(5)] sn Some show ?thesis by (auto simp: capture_taken_def)
qed

lemma settle_None:
  assumes "settle env su c op r now v s = (Inr (w, None), t)"
  shows "rc_status r = ''confirmed'' \<and> EVerifyReceipt op r (Inr ()) \<in> set (r_trace t) \<and> core t = core s \<and>
    capture_taken su op r (r_trace t) (lv_snapshots v) (lv_snapshots w)"
proof -
  let ?ce = "Tick (lv_call_end v)"
  let ?restored = "if op_stage op = ''restore_readback''
     then bind_act (check env su ?ce) (\<lambda>at. return_act (v\<lparr>lv_restored := Some at\<rparr>)) else return_act v"
  from assms obtain a b d s1 s2 s3 s4 s5 v' where s: "rc_status r = ''confirmed''"
    and c1: "check env su ?ce s = (Inr a, s1)" and vr: "verify_receipt env op r s1 = (Inr (), s2)"
    and c2: "check env su ?ce s2 = (Inr b, s3)" and re: "?restored s3 = (Inr v', s4)"
    and tc: "take_capture env su op r now v' s4 = (Inr w, s5)" and c3: "check env su ?ce s5 = (Inr d, t)"
    unfolding settle_def Let_def
    by (auto simp: then_act_def bind_act_Inr return_act_def split: if_splits)
  have q: "quiet ?restored" by (simp add: quiet_bind)
  have v': "lv_snapshots v' = lv_snapshots v"
    using re by (auto simp: bind_act_Inr return_act_def split: if_splits)
  have core: "core t = core s"
    using quietD [OF quiet_check c1] quietD [OF quiet_ports(3) vr] quietD [OF quiet_check c2]
      quietD [OF q re] quietD [OF quiet_take_capture tc] quietD [OF quiet_check c3] by simp
  have "EVerifyReceipt op r (Inr ()) \<in> set (r_trace s2)"
    using vr by (auto simp: verify_receipt_def emit_def Let_def)
  moreover have g: "grows ?restored" by (simp add: grows_compose grows_pure grows_check)
  ultimately have "EVerifyReceipt op r (Inr ()) \<in> set (r_trace t)"
    using growsD [OF grows_check c2] growsD [OF g re] growsD [OF grows_take_capture tc]
      growsD [OF grows_check c3] by blast
  with s core capture_taken_grow [OF take_capture_Inr [OF tc] grows_set [OF grows_check c3]] v' show ?thesis
    by simp
qed

lemma invoke_Inr:
  assumes "invoke env op d s = (Inr r, t)"
  shows "EInvoke op d (Inr r) \<in> set (r_trace t) \<and> r_journal t = r_journal s \<and>
    invoked (r_trace t) = invoked (r_trace s) @ [op]"
  using assms by (auto simp: invoke_def emit_def Let_def raise_act_def split: if_splits)

lemma run_operation_None:
  assumes "run_operation env su c re op v s = (Inr (w, None), t)"
  obtains r d j where "EInvoke op d (Inr r) \<in> set (r_trace t)" "EVerifyReceipt op r (Inr ()) \<in> set (r_trace t)"
    "rc_status r = ''confirmed''" "check_receipt op r = Inr ()"
    "j_reserve (case_number c) op (r_journal s) = Inr j" "j_finish (case_number c) op r j = Inr (r_journal t)"
    "invoked (r_trace t) = invoked (r_trace s) @ [op]"
    "capture_taken su op r (r_trace t) (lv_snapshots v) (lv_snapshots w)"
proof -
  let ?v = "\<lambda>now. v\<lparr>lv_call_end := call_end su re now v op\<rparr>"
  from assms obtain now a b r s1 s2 s3 s4 s5 s6 where
    c1: "check env su re s = (Inr now, s1)"
    and t1: "transact env (j_reserve (case_number c) op) s1 = (Inr (), s2)"
    and c2: "check env su (Tick (call_end su re now v op)) s2 = (Inr a, s3)"
    and i: "invoke env op (call_end su re now v op) s3 = (Inr r, s4)"
    and c3: "check env su (Tick (call_end su re now v op)) s4 = (Inr b, s5)"
    and rc: "check_receipt op r = Inr ()"
    and t2: "transact env (j_finish (case_number c) op r) s5 = (Inr (), s6)"
    and st: "settle env su c op r now (?v now) s6 = (Inr (w, None), t)"
    unfolding run_operation_def Let_def
    by (auto simp: then_act_def bind_act_Inr lift_res_def)
  have cores: "core s1 = core s" "core s3 = core s2" "core s5 = core s4" "core t = core s6"
    using quietD [OF quiet_check c1] quietD [OF quiet_check c2] quietD [OF quiet_check c3]
      settle_None [OF st] by simp_all
  have inv: "EInvoke op (call_end su re now v op) (Inr r) \<in> set (r_trace t)"
    using invoke_Inr [OF i] growsD [OF grows_check c3] growsD [OF grows_transact t2] growsD [OF grows_settle st]
    by blast
  have "lv_snapshots (?v now) = lv_snapshots v" by simp
  with cores transact_Inr [OF t1] transact_Inr [OF t2] invoke_Inr [OF i] rc settle_None [OF st] inv
  show thesis
    by (intro that [of _ r "r_journal s2"]) (simp_all add: core_def)
qed

text \<open>All snapshots taken so far agree with \<open>first\<close>.\<close>

definition agreed :: "string \<times> string \<Rightarrow> (string \<times> snapshot) list \<Rightarrow> bool" where
  "agreed first snaps \<longleftrightarrow> (\<forall>x\<in>set snaps. (sn_identity (snd x), sn_canonical (snd x)) = first)"

lemma same_as_baseline_agreed:
  "same_as_baseline snaps sn = Inr () \<Longrightarrow> agreed first snaps \<Longrightarrow> snaps \<noteq> [] \<Longrightarrow>
   (sn_identity sn, sn_canonical sn) = first"
  by (auto simp: same_as_baseline_def agreed_def split: option.splits dest!: map_of_SomeD)

lemma capture_taken_agreed:
  assumes "capture_taken su op r tr snaps snaps'" and "agreed first snaps"
  shows "\<exists>f. agreed f snaps' \<and> (snaps \<noteq> [] \<longrightarrow> f = first) \<and> (op_capture op \<noteq> None \<longrightarrow> captured su f tr r)"
proof (cases "op_capture op")
  case None
  with assms show ?thesis by (intro exI [of _ first]) (simp add: capture_taken_def)
next
  case (Some cap)
  with assms(1) obtain sn where sn: "rc_snapshot r = Some sn" "snapshot_ok su (Some sn)"
    "EVerify sn (Inr ()) \<in> set tr" "same_as_baseline snaps sn = Inr ()" "snaps' = (cap, sn) # snaps"
    by (auto simp: capture_taken_def)
  let ?f = "(sn_identity sn, sn_canonical sn)"
  have "snaps \<noteq> [] \<longrightarrow> ?f = first" using same_as_baseline_agreed [OF sn(4) assms(2)] by blast
  with sn assms(2) show ?thesis by (intro exI [of _ ?f]) (auto simp: captured_def agreed_def)
qed

definition statuses :: "journal \<Rightarrow> string list" where
  "statuses j = map (or_status \<circ> snd) (rows j)"

lemma finish_statuses:
  assumes "j_reserve n op j = Inr j1" and "j_finish n op r j1 = Inr j2"
    and "list_all (\<lambda>x. x = ''confirmed'') (statuses j)" and "rc_status r = ''confirmed''"
  shows "list_all (\<lambda>x. x = ''confirmed'') (statuses j2)"
proof -
  have "\<forall>row\<in>set (rows j1). \<not> finish_matches n op row \<longrightarrow> or_status (snd row) = ''confirmed''"
    using assms(1,3) by (auto simp: j_reserve_Inr statuses_def finish_matches_def list_all_iff)
  with assms(2,4) show ?thesis
    by (fastforce simp: j_finish_def statuses_def finish_row_def list_all_iff split: if_splits)
qed

lemma run_operations_None:
  assumes "run_operations env su c re ops v s = (Inr (w, None), t)"
    and "agreed first (lv_snapshots v)" and "list_all (\<lambda>x. x = ''confirmed'') (statuses (r_journal s))"
    and "lv_snapshots v = [] \<longrightarrow> (\<forall>op\<in>D. op_capture op = None)"
    and "\<forall>op\<in>D. passed su first (r_trace s) op"
  shows "invoked (r_trace t) = invoked (r_trace s) @ ops \<and>
    list_all (\<lambda>x. x = ''confirmed'') (statuses (r_journal t)) \<and>
    (\<exists>f. \<forall>op\<in>D \<union> set ops. passed su f (r_trace t) op)"
  using assms
proof (induction ops arbitrary: v s first D)
  case Nil
  then show ?case by (intro conjI exI [of _ first]) (simp_all add: return_act_def)
next
  case (Cons op ops)
  from Cons.prems(1) obtain v' u where one: "run_operation env su c re op v s = (Inr (v', None), u)"
    and rest: "run_operations env su c re ops v' u = (Inr (w, None), t)"
    by (auto simp: bind_act_Inr return_act_def split: option.splits)
  obtain r d j where o: "EInvoke op d (Inr r) \<in> set (r_trace u)" "EVerifyReceipt op r (Inr ()) \<in> set (r_trace u)"
    "rc_status r = ''confirmed''" "check_receipt op r = Inr ()"
    "j_reserve (case_number c) op (r_journal s) = Inr j" "j_finish (case_number c) op r j = Inr (r_journal u)"
    "invoked (r_trace u) = invoked (r_trace s) @ [op]"
    "capture_taken su op r (r_trace u) (lv_snapshots v) (lv_snapshots v')"
    using run_operation_None [OF one] by blast
  obtain f where f: "agreed f (lv_snapshots v')" "lv_snapshots v \<noteq> [] \<longrightarrow> f = first"
    "op_capture op \<noteq> None \<longrightarrow> captured su f (r_trace u) r"
    using capture_taken_agreed [OF o(8) Cons.prems(2)] by blast
  have conf: "list_all (\<lambda>x. x = ''confirmed'') (statuses (r_journal u))"
    using finish_statuses [OF o(5,6) Cons.prems(3) o(3)] .
  have none: "lv_snapshots v' = [] \<longrightarrow> (\<forall>x\<in>insert op D. op_capture x = None)"
    using o(8) Cons.prems(4) by (auto simp: capture_taken_def split: option.splits)
  have p: "\<forall>x\<in>insert op D. passed su f (r_trace u) x"
  proof
    fix x assume "x \<in> insert op D"
    then consider "x = op" | "x \<in> D" by blast
    then show "passed su f (r_trace u) x"
    proof cases
      case 1
      with o f show ?thesis unfolding passed_def by blast
    next
      case 2
      with Cons.prems(4,5) f(2) have "passed su f (r_trace s) x"
        by (cases "lv_snapshots v = []") (auto simp: passed_def)
      then show ?thesis by (rule passed_grow) (rule grows_set [OF grows_run_operation one])
    qed
  qed
  from Cons.IH [OF rest f(1) conf none p] o(7) show ?case by auto
qed

lemma terminal_effect:
  "j_terminal st q j = Inr j' \<Longrightarrow> statuses j' = statuses j \<and> (\<exists>r. campaign j' = Some r \<and> cr_status r = st)"
  by (auto simp: j_terminal_def statuses_def split: option.splits if_splits)

lemma run_selected_complete:
  assumes "run_selected env su s = (Inr res, t)" and "res_status res = ''mechanism_complete''"
    and "selected_case (su_packet su) = Some c" and "rows (r_journal s) = []"
  shows "invoked (r_trace t) = invoked (r_trace s) @ case_operations c \<and>
    list_all (\<lambda>x. x = ''confirmed'') (statuses (r_journal t)) \<and>
    (\<exists>r. campaign (r_journal t) = Some r \<and> cr_status r = ''mechanism_complete'') \<and>
    (\<exists>f. \<forall>op\<in>set (case_operations c). passed su f (r_trace t) op)"
proof -
  let ?v = "\<lparr>lv_snapshots = [], lv_baseline = None, lv_restored = None, lv_call_end = deadline su\<rparr>"
  let ?final = "j_terminal ''mechanism_complete'' ''selected_source_case_complete''"
  let ?tail = "\<lambda>w early. case early of Some res \<Rightarrow> return_act res | None \<Rightarrow>
      then_act (modify_act (\<lambda>s. s\<lparr>r_completed := r_completed s + 1\<rparr>))
     (then_act (check env su (Tick (lv_call_end w))) (then_act (transact env ?final)
     (then_act (check env su (Tick (lv_call_end w))) (bind_act (gets_act r_completed) (\<lambda>n.
        return_act (Result ''mechanism_complete'' n ''selected_source_case_complete''))))))"
  from assms(1) obtain x re w early s1 s2 where cl: "clock env s = (Inr x, s1)"
    and ops': "run_operations env su c re (case_operations c) ?v s1 = (Inr (w, early), s2)"
    and tail: "?tail w early s2 = (Inr res, t)"
    unfolding run_selected_def Let_def assms(3) option.case bind_act_Inr by (auto simp: lift_res_def)
  have early: "early = None"
    using ops' tail assms(2) by (cases early) (auto simp: return_act_def dest: run_operations_result)
  with ops' have ops: "run_operations env su c re (case_operations c) ?v s1 = (Inr (w, None), s2)" by simp
  from tail early obtain a b s3 s4 where
    c1: "check env su (Tick (lv_call_end w)) (s2\<lparr>r_completed := r_completed s2 + 1\<rparr>) = (Inr a, s3)"
    and tr: "transact env ?final s3 = (Inr (), s4)"
    and c2: "check env su (Tick (lv_call_end w)) s4 = (Inr b, t)"
    by (auto simp: then_act_def bind_act_Inr modify_act_def gets_act_def return_act_def)
  have j: "r_journal s1 = r_journal s" "invoked (r_trace s1) = invoked (r_trace s)"
    using quietD [OF quiet_ports(1) cl] by (simp_all add: core_def)
  have j3: "r_journal s3 = r_journal s2" "invoked (r_trace s3) = invoked (r_trace s2)"
    using quietD [OF quiet_check c1] by (simp_all add: core_def)
  have jt: "r_journal t = r_journal s4" "invoked (r_trace t) = invoked (r_trace s4)"
    using quietD [OF quiet_check c2] by (simp_all add: core_def)
  note loop = run_operations_None [OF ops, of "([], [])" "{}" ]
  have fin: "invoked (r_trace s2) = invoked (r_trace s) @ case_operations c"
    "list_all (\<lambda>x. x = ''confirmed'') (statuses (r_journal s2))"
    "\<exists>f. \<forall>op\<in>set (case_operations c). passed su f (r_trace s2) op"
    using loop j assms(4) by (auto simp: agreed_def statuses_def)
  have g: "set (r_trace s2) \<subseteq> set (r_trace t)"
    using grows_set [OF grows_check c1] grows_set [OF grows_transact tr] grows_set [OF grows_check c2] by simp
  from transact_Inr [OF tr] have "?final (r_journal s3) = Inr (r_journal t)" "invoked (r_trace s4) = invoked (r_trace s3)"
    using jt by simp_all
  moreover from this(1) have "statuses (r_journal t) = statuses (r_journal s3)"
    "\<exists>r. campaign (r_journal t) = Some r \<and> cr_status r = ''mechanism_complete''"
    by (auto dest: terminal_effect)
  moreover have "\<exists>f. \<forall>op\<in>set (case_operations c). passed su f (r_trace t) op"
    using fin(3) passed_grow [OF _ g] by blast
  ultimately show ?thesis
    using fin(1,2) j3 jt by simp
qed

lemma latch_campaign_Inr:
  "latch_campaign env su s = (Inr u, t) \<Longrightarrow>
   j_latch (su_packet su) (packet_digest (su_packet su)) (r_journal s) = Inr (r_journal t) \<and>
   invoked (r_trace t) = invoked (r_trace s)"
  unfolding latch_campaign_def
  by (auto simp: act_simps split: sum.splits if_splits exc.splits prod.splits dest!: transact_Inr)

lemma run_complete:
  assumes "run env su (start su (j, [])) = (Inr res, t)" and "res_status res = ''mechanism_complete''"
    and "rows j = []"
  obtains c where "validate_packet (su_packet su) = Inr ()" "selected_case (su_packet su) = Some c"
    "invoked (r_trace t) = case_operations c"
    "list_all (\<lambda>x. x = ''confirmed'') (statuses (r_journal t))"
    "\<exists>r. campaign (r_journal t) = Some r \<and> cr_status r = ''mechanism_complete''"
    "\<exists>f. \<forall>op\<in>set (case_operations c). passed su f (r_trace t) op"
proof -
  let ?s = "start su (j, [])"
  have "run_try env su ?s = (Inr res, t)"
    using assms(1,2)
    by (auto simp: run_def run_failed_def act_simps split: sum.splits if_splits prod.splits)
  then obtain a s1 s2 where v: "validate_packet (su_packet su) = Inr ()"
    and c: "check env su (Tick (deadline su)) ?s = (Inr a, s1)"
    and l: "latch_campaign env su s1 = (Inr (), s2)" and r: "run_selected env su s2 = (Inr res, t)"
    unfolding run_try_def by (auto simp: then_act_def bind_act_Inr lift_res_def)
  from selected_case_exists [OF v] obtain k where k: "selected_case (su_packet su) = Some k" by blast
  have s1: "r_journal s1 = j" "invoked (r_trace s1) = []"
    using quietD [OF quiet_check c] by (simp_all add: core_def start_def)
  have "rows (r_journal s2) = []" "invoked (r_trace s2) = []"
    using latch_campaign_Inr [OF l] s1 assms(3) by (auto dest: j_latch_Inr)
  with run_selected_complete [OF r assms(2) k] v k show thesis
    by (intro that [of k]) auto
qed

end
