(* ===== verification/Encoding_Lengths.thy ===== *)
theory Encoding_Lengths
  imports Encoding "HOL-Library.Multiset"
begin

text \<open>
  A SHA-256 digest is 64 hexadecimal characters; bounds on the length of encoded strings,
  objects and arrays, and a bound that is computed from the lengths alone, for the size
  checks of concrete values.
\<close>

section \<open>Digests are hexadecimal\<close>

lemma sha_round_length: "length s = 8 \<Longrightarrow> length (sha_round s kw) = 8"
  by (cases "(s, kw)" rule: sha_round.cases) (auto simp: Let_def)

lemma foldl_sha_round_length: "length s = 8 \<Longrightarrow> length (foldl sha_round s xs) = 8"
  by (induction xs arbitrary: s) (simp_all add: sha_round_length)

lemma sha_blocks_length: "length hs = 8 \<Longrightarrow> length (sha_blocks n hs ws) = 8"
  by (induction n hs ws rule: sha_blocks.induct) (simp_all add: sha_block_def foldl_sha_round_length)

lemma hex_word_hex: "length (hex_word w) = 8 \<and> list_all is_hex (hex_word w)"
proof -
  have "unat (x AND 15) < 16" for x :: u32
  proof -
    have "x AND 15 = take_bit 4 x" using take_bit_eq_mask [of 4 x] by (simp add: mask_eq_exp_minus_1)
    then have "unat (x AND 15) = take_bit 4 (unat x)" by (simp add: unsigned_take_bit_eq)
    then show ?thesis using take_bit_nat_less_exp [of 4 "unat x"] by simp
  qed
  then show ?thesis
    unfolding hex_word_def list_all_iff by (auto intro!: hex_digit_is_hex)
qed

lemma concat_hex_words: "length (concat (map hex_word ws)) = 8 * length ws \<and> list_all is_hex (concat (map hex_word ws))"
  by (induction ws) (simp_all add: hex_word_hex)

lemma sha256_hex_text: "length (sha256_hex s) = 64 \<and> list_all is_hex (sha256_hex s)"
  unfolding sha256_hex_def Let_def
  using concat_hex_words [of "sha_blocks n sha_init ws" for n ws]
  by (simp add: sha_blocks_length sha_init_def)


section \<open>The size of an encoding\<close>

lemma commas_length: "length (commas xs) \<le> sum_list (map length xs) + length xs"
  by (induction xs rule: commas.induct) simp_all

lemma escape_length: "length (escape_char c) \<le> 6"
  by (simp add: escape_char_def Let_def)

lemma dumps_string_length: "length (dumps_string s) \<le> 6 * length s + 2"
proof -
  have "length (concat (map escape_char s)) \<le> 6 * length s"
    by (induction s) (use escape_length in \<open>auto intro: add_mono\<close>)
  then show ?thesis by (simp add: dumps_string_def)
qed

text \<open>The encoding of an object: its keys and values with one colon and one comma each.\<close>

lemma sum_list_sort: "sum_list (map f (sort_key k xs)) = sum_list (map f xs)" for f :: "_ \<Rightarrow> nat"
  by (metis mset_map mset_sort sum_mset_sum_list)

lemma dumps_object_length:
  "length (dumps (JObj kvs)) \<le>
     2 + sum_list (map (\<lambda>(k, v). length (dumps_string k) + length (dumps v) + 2) kvs)"
proof -
  let ?kv = "map (\<lambda>(k, v). (k, dumps v)) kvs"
  let ?w = "\<lambda>(k, s). dumps_string k @ CHR '':'' # s"
  have "length (commas (map ?w (sort_key fst ?kv))) \<le>
      sum_list (map length (map ?w (sort_key fst ?kv))) + length (map ?w (sort_key fst ?kv))"
    by (rule commas_length)
  also have "sum_list (map length (map ?w (sort_key fst ?kv))) = sum_list (map (length \<circ> ?w) ?kv)"
    by (simp only: map_map sum_list_sort)
  also have "\<dots> = sum_list (map (\<lambda>(k, v). length (dumps_string k) + length (dumps v) + 1) kvs)"
    by (simp add: comp_def split_def)
  also have "\<dots> + length (map ?w (sort_key fst ?kv)) =
      sum_list (map (\<lambda>(k, v). length (dumps_string k) + length (dumps v) + 2) kvs)"
    by (induction kvs) auto
  finally show ?thesis by simp
qed

lemma dumps_array_length:
  assumes "\<And>x. x \<in> set xs \<Longrightarrow> length (dumps x) \<le> b"
  shows "length (dumps (JArr xs)) \<le> (b + 1) * length xs + 2"
proof -
  have "sum_list (map length (map dumps xs)) \<le> b * length xs"
    using assms by (induction xs) (auto intro: add_mono)
  with commas_length [of "map dumps xs"] show ?thesis by simp
qed

fun text_bound :: "json \<Rightarrow> int" where
  "text_bound (JObj kvs) = 2 + sum_list (map (\<lambda>(k, v). 6 * int (length k) + text_bound v + 4) kvs)"
| "text_bound (JArr xs) = 2 + sum_list (map (\<lambda>x. text_bound x + 1) xs)"
| "text_bound (JStr s) = 6 * int (length s) + 2"
| "text_bound JNull = 4"
| "text_bound (JBool b) = 5"
| "text_bound (JInt n) = int (length (py_str_int n))"

lemma sum_list_le:
  fixes f :: "'a \<Rightarrow> int"
  shows "(\<And>x. x \<in> set xs \<Longrightarrow> int (g x) \<le> f x) \<Longrightarrow> int (sum_list (map g xs)) \<le> sum_list (map f xs)"
  by (induction xs) (auto intro!: add_mono)

lemma dumps_text_bound: "int (length (dumps v)) \<le> text_bound v"
proof (induction v rule: text_bound.induct)
  case (1 kvs)
  have "int (length (dumps_string k) + length (dumps v) + 2) \<le> 6 * int (length k) + text_bound v + 4"
    if "(k, v) \<in> set kvs" for k v
    using 1 [OF that refl] dumps_string_length [of k] by simp
  then have "int (sum_list (map (\<lambda>(k, v). length (dumps_string k) + length (dumps v) + 2) kvs)) \<le>
      sum_list (map (\<lambda>(k, v). 6 * int (length k) + text_bound v + 4) kvs)"
    by (intro sum_list_le) auto
  with dumps_object_length [of kvs] show ?case by simp
next
  case (2 xs)
  have "length (dumps (JArr xs)) \<le> 2 + sum_list (map (\<lambda>x. length (dumps x) + 1) xs)"
  proof -
    have "sum_list (map length (map dumps xs)) + length xs = sum_list (map (\<lambda>x. length (dumps x) + 1) xs)"
      by (induction xs) auto
    with commas_length [of "map dumps xs"] show ?thesis by simp
  qed
  moreover have "int (sum_list (map (\<lambda>x. length (dumps x) + 1) xs)) \<le> sum_list (map (\<lambda>x. text_bound x + 1) xs)"
    using 2 by (intro sum_list_le) auto
  ultimately show ?case by simp
next
  case (3 s)
  with dumps_string_length [of s] show ?case by simp
qed simp_all

end
