(* ===== verification/Encoding_Sizes.thy ===== *)
theory Encoding_Sizes
  imports Runner_Packet Encoding_Lengths
begin

text \<open>
  A SHA-256 digest is 64 hexadecimal characters, and bounds on the length of encoded numbers
  and costs. The size checks of the packets and leases rest on them.
\<close>

section \<open>Digests are hexadecimal\<close>

lemma hex64_sha256: "hex64 (sha256_hex s)"
  using sha256_hex_text [of s] by (simp add: hex64_def)


section \<open>Numbers and costs\<close>

lemma nat_digits_length: "n < 10 ^ k \<Longrightarrow> length (nat_digits n) \<le> max 1 k"
proof (induction n arbitrary: k rule: nat_digits.induct)
  case (1 n)
  show ?case
  proof (cases "n < 10")
    case True
    then show ?thesis by (simp add: nat_digits.simps [of n])
  next
    case False
    have "(10::nat) ^ 1 < 10 ^ k" using 1(2) False by simp
    then have k: "1 < k" by (rule power_less_imp_less_exp [rotated]) simp
    then have "n div 10 < 10 ^ (k - 1)"
      using 1(2) by (cases k) (auto simp: less_mult_imp_div_less mult.commute)
    from 1(1) [OF False this] False k show ?thesis by (simp add: nat_digits.simps [of n])
  qed
qed

lemma py_str_int_length: "0 \<le> n \<Longrightarrow> n \<le> 99999 \<Longrightarrow> length (py_str_int n) \<le> 5"
  using nat_digits_length [of "nat n" 5] by (simp add: py_str_int_def)

lemma cost_json_length:
  assumes "list_all (\<lambda>v. 0 \<le> v \<and> v \<le> 99999) (cost_fields c)"
  shows "length (dumps (cost_json c)) \<le> 360"
proof -
  have b: "length (py_str_int v) \<le> 5" if "v \<in> set (cost_fields c)" for v
    using assms that by (auto simp: list_all_iff intro: py_str_int_length)
  have "length (dumps (cost_json c)) \<le> 2 + sum_list (map (\<lambda>v. length (py_str_int v)) (cost_fields c)) + 283"
    unfolding cost_json_def
    by (rule order_trans [OF dumps_object_length])
       (simp add: cost_fields_def dumps_string_def escape_char_def)
  also have "sum_list (map (\<lambda>v. length (py_str_int v)) (cost_fields c)) \<le> 5 * 15"
    using b sum_list_mono [of "cost_fields c" "\<lambda>v. length (py_str_int v)" "\<lambda>_. 5"]
    by (simp add: cost_fields_def)
  finally show ?thesis by simp
qed

end
