(* ===== verification/Mechanism_Checks.thy ===== *)
theory Mechanism_Checks
  imports Mechanism_Program Encoding_Sizes
begin

text \<open>
  The source-owned packets of \<open>make_packet\<close> pass the runner's own \<open>validate_packet\<close>. The
  checks inside one case are evaluated; the checks across the campaign (unique names, the
  campaign budget, the size of the encoded plan) follow from facts about the cases.
\<close>

section \<open>The size of an operation\<close>

definition small_op :: "operation \<Rightarrow> bool" where
  "small_op op \<longleftrightarrow> length (op_name op) \<le> 40 \<and> length (op_stage op) \<le> 20 \<and>
     length (op_channel op) \<le> 10 \<and> length (op_action op) \<le> 48 \<and> op_resource op = None \<and>
     (case op_capture op of None \<Rightarrow> True | Some c \<Rightarrow> length c \<le> 20) \<and>
     list_all (\<lambda>v. 0 \<le> v \<and> v \<le> 99999) (cost_fields (op_cost op))"

lemma small_op_length: "small_op op \<Longrightarrow> length (dumps (operation_json op)) \<le> 1400"
proof -
  assume s: "small_op op"
  have "length (dumps (operation_json op)) \<le> 2 + 75 + length (dumps_string (op_name op)) +
     length (dumps_string (op_stage op)) + length (dumps (cost_json (op_cost op))) +
     length (dumps_string (op_channel op)) + length (dumps_string (op_action op)) +
     length (dumps (json_option (op_capture op))) + length (dumps (json_option (op_resource op)))"
    unfolding operation_json_def
    by (rule order_trans [OF dumps_object_length]) (simp add: dumps_string_def escape_char_def)
  moreover have "length (dumps (json_option (op_capture op))) \<le> 122"
    using s dumps_string_length [of "the (op_capture op)"]
    by (auto simp: small_op_def json_option_def split: option.splits)
  moreover have "length (dumps (json_option (op_resource op))) = 4"
    using s by (simp add: small_op_def json_option_def)
  ultimately show ?thesis
    using s cost_json_length [of "op_cost op"] dumps_string_length [of "op_name op"]
      dumps_string_length [of "op_stage op"] dumps_string_length [of "op_channel op"]
      dumps_string_length [of "op_action op"]
    by (simp add: small_op_def)
qed


section \<open>The cases\<close>

lemma strip_Nil: "strip v = [] \<longleftrightarrow> list_all is_space v"
proof -
  have "dropWhile is_space (rev (dropWhile is_space v)) = [] \<longleftrightarrow> (\<forall>x\<in>set (dropWhile is_space v). is_space x)"
    by simp
  also have "\<dots> \<longleftrightarrow> (\<forall>x\<in>set v. is_space x)"
    by (metis dropWhile_eq_Nil_conv hd_dropWhile hd_in_set list.set(1) empty_iff)
  finally show ?thesis by (simp add: strip_def list_all_iff)
qed

lemma schema_pieces: "length (filter (\<lambda>v. \<not> list_all is_space v) (split_on (CHR '';'') SCHEMA)) = 16"
  by code_simp

lemma length_chunks8: "length (chunks8 xs) = (length xs + 7) div 8"
proof (induction xs rule: chunks8.induct)
  case (2 x xs)
  then show ?case by (cases "length xs < 7") auto
qed simp

lemma length_setup_sql: "length setup_sql = 5"
proof -
  have "length schema_statements = 16"
    using schema_pieces by (simp add: schema_statements_def strip_Nil)
  moreover have "length guard_statements = 21"
    by (simp add: guard_statements_def TABLES_def)
  ultimately show ?thesis by (simp add: setup_sql_def length_chunks8)
qed

lemma setup_operations_five [code]:
  "setup_operations n = map (\<lambda>i. Operation (case_name n @ ''_setup_'' @ py_str_int (int i)) ''settle''
     (Cost\<lparr>requests := 1, mutations := 1, sql_statements := 8, effects := 8,
           artifact_bytes := 16384\<rparr>)
     ''mechanism'' (''sqlite.setup.'' @ py_str_int (int i)) None) [0..<5]"
  by (simp add: setup_operations_def length_setup_sql)

definition start_scan :: case_scan where
  "start_scan = \<lparr>cs_names = [], cs_resources = [], cs_campaign = Cost\<rparr>"

definition tagged :: "string \<Rightarrow> operation \<Rightarrow> bool" where
  "tagged tag op \<longleftrightarrow> takeWhile (\<lambda>c. c \<noteq> CHR ''_'') (op_name op) = tag"

definition checked :: "run_case \<Rightarrow> bool" where
  "checked c \<longleftrightarrow>
     (case validate_case c start_scan of
        Inl _ \<Rightarrow> False
      | Inr st \<Rightarrow> cs_resources st = [] \<and> cost_le (cs_campaign st) (RUN_LIMIT\<lparr>creates := 0, deletes := 0\<rparr>)) \<and>
     list_all small_op (case_operations c) \<and> length (case_operations c) \<le> 50 \<and>
     list_all (tagged (case_name (case_number c))) (case_operations c)"

abbreviation own_case :: "int \<Rightarrow> run_case" where
  "own_case n \<equiv> program_case n ''partial_output''"

lemma checked_1: "checked (own_case 1)" by code_simp
lemma checked_2: "checked (own_case 2)" by code_simp
lemma checked_3: "checked (own_case 3)" by code_simp
lemma checked_4: "checked (own_case 4)" by code_simp
lemma checked_5: "checked (own_case 5)" by code_simp
lemma checked_6: "checked (own_case 6)" by code_simp
lemma checked_7: "checked (own_case 7)" by code_simp
lemma checked_8: "checked (own_case 8)" by code_simp
lemma checked_9: "checked (own_case 9)" by code_simp
lemma checked_10: "checked (own_case 10)" by code_simp
lemma checked_11: "checked (own_case 11)" by code_simp
lemma checked_12: "checked (own_case 12)" by code_simp

lemma upto_12: "[1..12] = [1, 2, 3, 4, 5, 6, 7, 8, 9, 10, 11, 12::int]"
  by code_simp

lemma checked_all: "n \<in> set [1..12] \<Longrightarrow> checked (own_case n)"
  unfolding upto_12
  using checked_1 checked_2 checked_3 checked_4 checked_5 checked_6 checked_7 checked_8 checked_9
    checked_10 checked_11 checked_12 by auto


section \<open>The campaign\<close>

lemma validate_case_start:
  assumes "validate_case c start_scan = Inr st"
  shows "case_ok c" "distinct (map op_name (case_operations c))"
    "cs_resources st = rev (resource_keys (case_operations c))"
    "cs_campaign st = total_cost (case_operations c)"
  using assms unfolding validate_case_Inr by (auto simp: start_scan_def)

lemma checked_facts:
  assumes "checked c"
  shows "case_ok c" "distinct (map op_name (case_operations c))" "resource_keys (case_operations c) = []"
    "cost_le (total_cost (case_operations c)) (RUN_LIMIT\<lparr>creates := 0, deletes := 0\<rparr>)"
    "\<forall>op\<in>set (case_operations c). small_op op" "length (case_operations c) \<le> 50"
    "\<forall>op\<in>set (case_operations c). tagged (case_name (case_number c)) op"
  using assms validate_case_start [of c]
  by (auto simp: checked_def list_all_iff split: sum.splits)

text \<open>Names of different cases have different tags.\<close>

lemma distinct_tagged:
  assumes "\<And>n. n \<in> set ns \<Longrightarrow> distinct (map op_name (f n)) \<and> (\<forall>op\<in>set (f n). tagged (tag n) op)"
    and "distinct (map tag ns)"
  shows "distinct (map op_name (concat (map f ns)))"
  using assms
proof (induction ns)
  case (Cons n ns)
  have "op_name a \<noteq> op_name b" if "a \<in> set (f n)" "m \<in> set ns" "b \<in> set (f m)" for a b m
  proof
    assume eq: "op_name a = op_name b"
    have "tagged (tag n) a" "tagged (tag m) b" using Cons.prems(1) that by auto
    with eq have "tag n = tag m" by (simp add: tagged_def)
    with Cons.prems(2) that(2) show False by auto
  qed
  then have "set (map op_name (f n)) \<inter> set (map op_name (concat (map f ns))) = {}" by auto
  with Cons show ?case by auto
qed simp

lemma cost_le_sum:
  assumes "\<And>x. x \<in> set xs \<Longrightarrow> cost_le (g x) b"
  shows "cost_le (foldl plus_cost Cost (map g xs)) (foldl plus_cost Cost (map (\<lambda>_. b) xs))"
  using assms
proof (induction xs)
  case (Cons x xs)
  have mono: "cost_le a b \<Longrightarrow> cost_le c d \<Longrightarrow> cost_le (plus_cost a c) (plus_cost b d)" for a b c d
    by (simp add: cost_le_def cost_fields_def plus_cost_def)
  from Cons show ?case
    by (simp add: foldl_plus_cost [of "g x"] foldl_plus_cost [of b] mono)
qed (simp add: cost_le_def cost_fields_def)

definition own_cases :: "run_case list" where
  "own_cases = map own_case [1..12]"

lemma programs_own: "programs ''partial_output'' = Inr own_cases"
  by (simp add: programs_def own_cases_def require_def)

lemma case_number_own [simp]: "case_number (program_case n i) = n"
  by (simp add: program_case_def)

lemma own_campaign_ok: "campaign_ok own_cases"
proof -
  have c: "checked (own_case n)" if "n \<in> set [1..12]" for n using checked_all [OF that] .
  have ops: "campaign_operations own_cases = concat (map (\<lambda>n. case_operations (own_case n)) [1..12])"
    by (simp add: campaign_operations_def own_cases_def comp_def)
  have "distinct (map case_name [1..12])" by code_simp
  then have "distinct (map op_name (campaign_operations own_cases))"
    unfolding ops using checked_facts(2,7) [OF c] by (intro distinct_tagged) auto
  moreover have "resource_keys (concat (map (\<lambda>n. case_operations (own_case n)) ns)) = []"
    if "set ns \<subseteq> set [1..12]" for ns
    using that by (induction ns) (auto simp: checked_facts(3) [OF c])
  then have "resource_keys (campaign_operations own_cases) = []" unfolding ops by blast
  moreover have "cost_le (total_cost (campaign_operations own_cases)) CAMPAIGN_LIMIT"
  proof -
    let ?b = "RUN_LIMIT\<lparr>creates := 0, deletes := 0\<rparr>"
    have "cost_le (total_cost (campaign_operations own_cases)) (foldl plus_cost Cost (map (\<lambda>_. ?b) [1..12::int]))"
      unfolding ops total_cost_concat [symmetric] by (rule cost_le_sum) (rule checked_facts(4) [OF c])
    moreover have "cost_le (foldl plus_cost Cost (map (\<lambda>_. ?b) [1..12::int])) CAMPAIGN_LIMIT"
      by code_simp
    ultimately show ?thesis by (rule cost_le_trans)
  qed
  moreover have "map case_number own_cases = [1..12]"
    by (simp add: own_cases_def comp_def)
  ultimately show ?thesis
    using checked_facts(1) [OF c] by (auto simp: campaign_ok_def own_cases_def)
qed

lemma case_json_length:
  assumes "checked c" and "0 \<le> case_number c" "case_number c \<le> 12"
    and "case case_interruption c of None \<Rightarrow> True | Some i \<Rightarrow> length i \<le> 20"
  shows "length (dumps (case_json c)) \<le> 71000"
proof -
  let ?ops = "case_operations c"
  have "length (dumps (JArr (map operation_json ?ops))) \<le> (1400 + 1) * length (map operation_json ?ops) + 2"
    by (rule dumps_array_length) (use checked_facts(5) [OF assms(1)] small_op_length in auto)
  moreover have "length ?ops \<le> 50" by (rule checked_facts(6) [OF assms(1)])
  ultimately have "length (dumps (JArr (map operation_json ?ops))) \<le> 70052" by simp
  moreover have "length (dumps (JInt (case_number c))) \<le> 5"
    using py_str_int_length assms(2,3) by simp
  moreover have "length (dumps (json_option (case_interruption c))) \<le> 122"
    using assms(4) dumps_string_length [of "the (case_interruption c)"]
    by (auto simp: json_option_def split: option.splits)
  moreover have "length (dumps (case_json c)) \<le> 2 + 48 + length (dumps (JInt (case_number c))) +
      length (dumps (JArr (map operation_json ?ops))) + length (dumps (json_option (case_interruption c)))"
    unfolding case_json_def
    by (rule order_trans [OF dumps_object_length])
       (simp add: dumps_string_def escape_char_def del: dumps.simps)
  ultimately show ?thesis by linarith
qed

end
