(* ===== verification/Packet_Properties.thy ===== *)
theory Packet_Properties
  imports Mechanism_Checks
begin

text \<open>
  The source's own packets are valid, and what validity promises.
\<close>

lemma own_population:
  "validate_context (make_context pin oracle_pin cs) = Inr ()" if "hex64 pin" "hex64 oracle_pin"
proof -
  have "generation_text ''1''" by code_simp
  moreover have "distinct [''synthetic-d1'', ''synthetic-object-kv-alarm'']" by code_simp
  ultimately show ?thesis
    using that by (simp add: validate_context_def make_context_def hex64_sha256 require_def)
qed

lemma pin_json_length: "hex64 s \<Longrightarrow> length (dumps (JStr s)) \<le> 386"
  using dumps_string_length [of s] by (simp add: hex64_def)

lemma context_json_length:
  assumes "hex64 pin" and "hex64 oracle_pin"
  shows "length (dumps (context_json (make_context pin oracle_pin cs))) \<le> 5000"
proof -
  let ?c = "make_context pin oracle_pin cs"
  have pop: "length (dumps (JArr (map JStr (cx_population ?c)))) \<le> 400" "length (dumps (JArr (map JStr (cx_generations ?c)))) \<le> 40"
    "length (dumps (JInt (cx_table_count ?c))) \<le> 5" "length (dumps (JInt (cx_schema_objects ?c))) \<le> 5"
    by (simp_all add: make_context_def dumps_string_def escape_char_def py_str_int_length)
  have "length (dumps (context_json ?c)) \<le> 2 + 160 + length (dumps (JStr (cx_candidate ?c))) +
     length (dumps (JStr (cx_artifact ?c))) + length (dumps (JStr (cx_configuration ?c))) +
     length (dumps (JStr (cx_schema ?c))) + length (dumps (JStr (cx_guards ?c))) +
     length (dumps (JStr (cx_oracle ?c))) + length (dumps (JArr (map JStr (cx_population ?c)))) +
     length (dumps (JArr (map JStr (cx_generations ?c)))) + length (dumps (JInt (cx_table_count ?c))) +
     length (dumps (JInt (cx_schema_objects ?c))) + length (dumps (JStr (cx_program_pin ?c)))"
    unfolding context_json_def
    by (rule order_trans [OF dumps_object_length])
       (simp add: dumps_string_def [of "_ # _"] escape_char_def del: dumps.simps)
  moreover have "length (dumps (JStr (cx_candidate ?c))) \<le> 386" "length (dumps (JStr (cx_artifact ?c))) \<le> 386"
    "length (dumps (JStr (cx_configuration ?c))) \<le> 386" "length (dumps (JStr (cx_schema ?c))) \<le> 386"
    "length (dumps (JStr (cx_guards ?c))) \<le> 386" "length (dumps (JStr (cx_oracle ?c))) \<le> 386"
    "length (dumps (JStr (cx_program_pin ?c))) \<le> 386"
    by (rule pin_json_length, simp add: make_context_def hex64_sha256 assms)+
  ultimately show ?thesis using pop by linarith
qed

definition own_packet :: "string \<Rightarrow> string \<Rightarrow> int \<Rightarrow> packet" where
  "own_packet pin oracle_pin n =
     \<lparr>pk_key = ''source-case-'' @ py_str_int n, pk_source_pin = pin, pk_profile = PROFILE,
      pk_object_profile = OBJECT_PROFILE, pk_cases = own_cases, pk_starts = Tick 0,
      pk_deadline = Tick 1200, pk_baseline_freshness = Tick 60,
      pk_context = Some (make_context pin oracle_pin own_cases), pk_selected_case = n\<rparr>"

lemma make_packet_own: "make_packet pin oracle_pin n ''partial_output'' = Inr (own_packet pin oracle_pin n)"
  by (simp add: make_packet_def programs_own own_packet_def)

lemma own_packet_length:
  assumes "hex64 pin" and "hex64 oracle_pin" and "1 \<le> n" "n \<le> 12"
  shows "length (dumps (packet_json (own_packet pin oracle_pin n))) \<le> 1024 ^ 2"
proof -
  let ?p = "own_packet pin oracle_pin n"
  have c: "length (dumps (case_json x)) \<le> 71000" if "x \<in> set own_cases" for x
  proof -
    from that obtain m where m: "m \<in> set [1..12]" "x = own_case m" by (auto simp: own_cases_def)
    then show ?thesis
      using case_json_length [OF checked_all [OF m(1)]] by (auto simp: program_case_def)
  qed
  have "length (dumps (JArr (map case_json own_cases))) \<le> (71000 + 1) * length (map case_json own_cases) + 2"
    by (rule dumps_array_length) (use c in auto)
  moreover have "length own_cases = 12" by (simp add: own_cases_def)
  ultimately have cases: "length (dumps (JArr (map case_json own_cases))) \<le> 852014" by simp
  have key: "length (dumps (JStr (pk_key ?p))) \<le> 150"
    using dumps_string_length [of "pk_key ?p"] py_str_int_length [of n] assms(3,4) by (simp add: own_packet_def)
  have small: "length (dumps (JStr PROFILE)) \<le> 300" "length (dumps (JStr OBJECT_PROFILE)) \<le> 300"
    "length (dumps (JInt n)) \<le> 5" "length (dumps (JInt 0)) \<le> 5" "length (dumps (JInt 1200)) \<le> 5" "length (dumps (JInt 60)) \<le> 5"
    using dumps_string_length [of PROFILE] dumps_string_length [of OBJECT_PROFILE] py_str_int_length assms(3,4)
    by (simp_all add: PROFILE_def OBJECT_PROFILE_def)
  have "length (dumps (packet_json ?p)) \<le> 2 + 150 + length (dumps (JStr (pk_key ?p))) +
     length (dumps (JStr pin)) + length (dumps (JStr PROFILE)) + length (dumps (JStr OBJECT_PROFILE)) +
     length (dumps (JArr (map case_json own_cases))) + length (dumps (JInt 0)) + length (dumps (JInt 1200)) +
     length (dumps (JInt 60)) + length (dumps (context_json (make_context pin oracle_pin own_cases))) +
     length (dumps (JInt n))"
    unfolding packet_json_def
    by (rule order_trans [OF dumps_object_length])
       (simp add: own_packet_def dumps_string_def [of "_ # _"] escape_char_def del: dumps.simps)
  with cases key small pin_json_length [OF assms(1)] context_json_length [OF assms(1,2), of own_cases]
  show ?thesis by simp
qed

lemma own_packet_valid:
  assumes "hex64 pin" and "hex64 oracle_pin" and "1 \<le> n" "n \<le> 12"
  shows "validate_packet (own_packet pin oracle_pin n) = Inr ()"
proof -
  let ?p = "own_packet pin oracle_pin n"
  have "validate_binding ?p = Inr ()"
    using assms(1,3,4) py_str_int_length [of n]
    by (simp add: validate_binding_def own_packet_def require_def)
  moreover have "validate_window ?p = Inr ()"
    by (simp add: validate_window_def own_packet_def require_def)
  moreover have "validate_campaign own_cases = Inr ()"
    using own_campaign_ok by (simp add: validate_campaign_iff)
  moreover have "pk_context ?p = Some (make_context pin oracle_pin own_cases)" "pk_cases ?p = own_cases"
    "pk_selected_case ?p = n"
    by (simp_all add: own_packet_def)
  ultimately show ?thesis
    using own_packet_length [OF assms] own_population [OF assms(1,2)] assms(3,4)
    by (simp add: validate_packet_def require_def)
qed


section \<open>Properties\<close>

definition zero_pin :: string where "zero_pin = replicate 64 (CHR ''0'')"

lemma zero_pin_hex: "hex64 zero_pin"
  by code_simp

text \<open>C20: For every pair of source digests and every selection of one of the twelve cases, the
  packet the source builds for itself is accepted by the runner's validator: identities,
  context, window, size of the encoded plan, stage order, captures, unique names, resource
  latches, the run budget of every case and the campaign budget.\<close>

theorem make_packet_valid:
  assumes "hex64 pin" and "hex64 oracle_pin" and "1 \<le> n" and "n \<le> 12"
  shows "\<exists>p. make_packet pin oracle_pin n ''partial_output'' = Inr p \<and> validate_packet p = Inr ()"
  using own_packet_valid [OF assms] make_packet_own by blast

theorem make_packet_valid_witness:
  "\<exists>p. make_packet zero_pin zero_pin 7 ''partial_output'' = Inr p \<and> validate_packet p = Inr ()"
  using make_packet_valid [OF zero_pin_hex zero_pin_hex, of 7] by simp

text \<open>A packet the validator accepts has exactly the twelve cases, every case stays within
  the run budget and all of them together within the campaign budget in each of the fifteen
  counters, no two operations of the campaign share a name, and no resource is created twice
  or deleted twice.\<close>

theorem validate_packet_budgets:
  assumes "validate_packet p = Inr ()"
  shows "map case_number (pk_cases p) = [1..12] \<and>
    (\<forall>c\<in>set (pk_cases p). cost_le (total_cost (case_operations c)) RUN_LIMIT) \<and>
    cost_le (total_cost (campaign_operations (pk_cases p))) CAMPAIGN_LIMIT \<and>
    distinct (map op_name (campaign_operations (pk_cases p))) \<and>
    distinct (resource_keys (campaign_operations (pk_cases p)))"
  using validate_packet_campaign [OF assms] by (auto simp: campaign_ok_def case_ok_def)

theorem validate_packet_budgets_witness:
  "cost_le (total_cost (campaign_operations (pk_cases (own_packet zero_pin zero_pin 3)))) CAMPAIGN_LIMIT"
  using validate_packet_budgets [OF own_packet_valid [OF zero_pin_hex zero_pin_hex, of 3]] by simp

text \<open>In a packet the validator accepts the operations of every case go through the stages
  of the protocol in order and never return to an earlier stage, and every stage occurs.\<close>

theorem validate_packet_stage_order:
  assumes "validate_packet p = Inr ()" and "c \<in> set (pk_cases p)"
  shows "set (map op_stage (case_operations c)) = set (expected_stages c) \<and>
    sorted (map (\<lambda>op. index_of (expected_stages c) (op_stage op)) (case_operations c))"
  using validate_packet_campaign [OF assms(1)] assms(2) case_ok_stages by (auto simp: campaign_ok_def)

theorem validate_packet_stage_order_witness:
  "sorted (map (\<lambda>op. index_of (expected_stages (own_case 5)) (op_stage op)) (case_operations (own_case 5)))"
proof -
  have "own_case 5 \<in> set (pk_cases (own_packet zero_pin zero_pin 5))"
    by (simp add: own_packet_def own_cases_def)
  from validate_packet_stage_order [OF own_packet_valid [OF zero_pin_hex zero_pin_hex] this]
  show ?thesis by simp
qed

end
