(* ===== verification/Runner_Progress.thy ===== *)
theory Runner_Progress
  imports Runner_Trace Packet_Properties
begin

text \<open>
  The runner completes when it can: with a clock that does not run backwards and stays
  within the freshness bound, a source that does not drift, a journal that acknowledges and
  an adapter and an oracle that confirm, a run of a case without an interruption reports
  completion.
\<close>

section \<open>A cooperative environment\<close>

record answers =
  an_time :: "rtrace \<Rightarrow> int"
  an_low :: int
  an_high :: int
  an_receipt :: "operation \<Rightarrow> receipt"
  an_first :: "string \<times> string"

definition cooperative :: "renv \<Rightarrow> runner_config \<Rightarrow> answers \<Rightarrow> bool" where
  "cooperative env su a \<longleftrightarrow>
     (\<forall>tr. e_clock env tr = Inr (Tick (an_time a tr)) \<and> an_low a \<le> an_time a tr \<and> an_time a tr \<le> an_high a \<and>
        e_source env tr = Inr (pk_source_pin (su_packet su)) \<and> e_same env tr \<and> e_journal env tr = Fine \<and>
        (\<forall>e. an_time a tr \<le> an_time a (tr @ [e])) \<and>
        (\<forall>op d. e_invoke env tr op d = Inr (an_receipt a op)) \<and>
        (\<forall>op r. e_verify_receipt env tr op r = Inr ()) \<and> (\<forall>sn. e_verify env tr sn = Inr ())) \<and>
     starts su \<le> an_low a \<and> an_high a < deadline su \<and> an_high a < an_low a + freshness su \<and> freshness su \<le> 60"

definition answered :: "runner_config \<Rightarrow> answers \<Rightarrow> operation \<Rightarrow> bool" where
  "answered su a op \<longleftrightarrow> rc_status (an_receipt a op) = ''confirmed'' \<and>
     check_receipt op (an_receipt a op) = Inr () \<and>
     (op_capture op \<noteq> None \<longrightarrow> (\<exists>sn. rc_snapshot (an_receipt a op) = Some sn \<and> snapshot_ok su (Some sn) \<and>
        (sn_identity sn, sn_canonical sn) = an_first a))"

definition confirms :: "runner_config \<Rightarrow> answers \<Rightarrow> operation \<Rightarrow> bool" where
  "confirms su a op \<longleftrightarrow> answered su a op \<and> op_channel op = ''mechanism'' \<and> op_stage op \<noteq> ''interruption''"

definition steady :: "answers \<Rightarrow> (journal \<Rightarrow> int \<Rightarrow> bool) \<Rightarrow> rstate \<Rightarrow> bool" where
  "steady a K s \<longleftrightarrow> r_last s \<le> an_time a (r_trace s) \<and> K (r_journal s) (r_completed s)"

lemma before_le: "before su y e \<Longrightarrow> x \<le> y \<Longrightarrow> before su x e"
  by (auto simp: before_def split: tick.splits)

lemma emit_total:
  assumes "cooperative env su a" and "\<And>tr. f tr = Inr x"
  shows "total (steady a K) (emit f ev) (\<lambda>y s. steady a K s \<and> y = x)"
  using assms by (auto simp: total_def emit_def Let_def steady_def cooperative_def intro: order_trans)

lemma port_totals:
  assumes "cooperative env su a"
  shows "total (steady a K) (verify_receipt env op r) (\<lambda>_. steady a K)"
    and "total (steady a K) (verify env sn) (\<lambda>_. steady a K)"
    and "op_channel op = ''mechanism'' \<Longrightarrow>
       total (steady a K) (invoke env op d) (\<lambda>x s. steady a K s \<and> x = an_receipt a op)"
  unfolding verify_receipt_def verify_def invoke_def
  using assms by (auto simp: cooperative_def intro!: emit_total [OF assms] total_post [OF emit_total [OF assms]])

lemma transact_total:
  assumes "cooperative env su a" and "\<And>j n. K j n \<Longrightarrow> \<exists>j'. f j = Inr j' \<and> K' j' n"
  shows "total (steady a K) (transact env f) (\<lambda>_. steady a K')"
proof (rule totalI)
  fix s assume s: "steady a K s"
  with assms(2) obtain j' where "f (r_journal s) = Inr j'" "K' j' (r_completed s)"
    by (auto simp: steady_def)
  moreover have "e_journal env (r_trace s) = Fine" "an_time a (r_trace s) \<le> an_time a (r_trace s @ [EJournal Fine])"
    using assms(1) by (auto simp: cooperative_def)
  ultimately show "\<exists>x t. transact env f s = (Inr x, t) \<and> steady a K' t"
    using s by (auto simp: transact_unfold Let_def steady_def)
qed

lemma check_total:
  assumes "cooperative env su a" and "before su (an_high a) e"
  shows "total (steady a K) (check env su e) (\<lambda>x s. steady a K s \<and> an_low a \<le> x \<and> x \<le> an_high a)"
proof (rule totalI)
  fix s assume s: "steady a K s"
  let ?tm = "an_time a"
  let ?t0 = "r_trace s"
  let ?t1 = "?t0 @ [EClock (Inr (Tick (?tm ?t0)))]"
  let ?t2 = "?t1 @ [ESource (Inr (pk_source_pin (su_packet su)))]"
  let ?t3 = "?t2 @ [EClock (Inr (Tick (?tm ?t2)))]"
  have tm: "?tm ?t0 \<le> ?tm ?t1" "?tm ?t1 \<le> ?tm ?t2" "?tm ?t2 \<le> ?tm ?t3"
    and low: "an_low a \<le> ?tm tr" "?tm tr \<le> an_high a" for tr
    using assms(1) unfolding cooperative_def by blast+
  have tm2: "?tm ?t0 \<le> ?tm ?t2" by (rule order_trans [OF tm(1,2)])
  have b: "before su (?tm tr) e" for tr by (rule before_le [OF assms(2) low(2)])
  have starts: "starts su \<le> ?tm tr" for tr using assms(1) low(1) [of tr] unfolding cooperative_def by linarith
  have "check env su e s = (Inr (?tm ?t2), s\<lparr>r_trace := ?t3, r_last := ?tm ?t2\<rparr>)"
    using assms(1) s b starts tm tm2
    by (simp add: check_def clock_def source_check_def emit_def act_simps Let_def cooperative_def steady_def)
  with s tm low [of ?t2] show "\<exists>x t. check env su e s = (Inr x, t) \<and> steady a K t \<and> an_low a \<le> x \<and> x \<le> an_high a"
    by (auto simp: steady_def)
qed

lemma check_steady:
  "cooperative env su a \<Longrightarrow> before su (an_high a) e \<Longrightarrow> total (steady a K) (check env su e) (\<lambda>_. steady a K)"
  by (rule total_post [OF check_total]) auto


section \<open>One operation\<close>

text \<open>The journal between two operations: running, nothing open, the given names reserved.\<close>

definition idle :: "string set \<Rightarrow> journal \<Rightarrow> bool" where
  "idle names j \<longleftrightarrow> running j \<and> \<not> dispatching j \<and> reserved j = names"

lemma reserve_idle:
  assumes "idle names j" and "op_name op \<notin> names"
  obtains j1 where "j_reserve n op j = Inr j1"
    "\<And>r. rc_status r = ''confirmed'' \<Longrightarrow> \<exists>j2. j_finish n op r j1 = Inr j2 \<and> idle (insert (op_name op) names) j2"
proof -
  define row where "row = \<lparr>or_case = n, or_operation = dumps (operation_json op), or_status = ''dispatching'',
     or_actual = None, or_evidence_digest = None, or_evidence = None, or_snapshot = None\<rparr>"
  let ?j1 = "j\<lparr>rows := rows j @ [(op_name op, row)]\<rparr>"
  have r: "j_reserve n op j = Inr ?j1"
    using assms by (simp add: j_reserve_Inr idle_def row_def)
  have no: "\<not> finish_matches n op x" if "x \<in> set (rows j)" for x
  proof
    assume "finish_matches n op x"
    then have "op_name op \<in> reserved j" using that unfolding finish_matches_def reserved_def by (metis imageI)
    with assms show False by (simp add: idle_def)
  qed
  have yes: "finish_matches n op (op_name op, row)" by (simp add: finish_matches_def row_def)
  have one: "length (filter (finish_matches n op) (rows ?j1)) = 1"
    using no yes by (simp add: filter_empty_conv)
  show thesis
  proof (rule that [OF r])
    fix rc :: receipt assume c: "rc_status rc = ''confirmed''"
    let ?f = "\<lambda>x. if finish_matches n op x then (fst x, finish_row rc (snd x)) else x"
    let ?j2 = "?j1\<lparr>rows := map ?f (rows ?j1)\<rparr>"
    have "j_finish n op rc ?j1 = Inr ?j2" using one by (simp add: j_finish_def)
    moreover have rows: "rows ?j2 = rows j @ [(op_name op, finish_row rc row)]"
      using no yes by (auto simp: map_idI)
    have "idle (insert (op_name op) names) ?j2"
      using assms c unfolding idle_def dispatching_def reserved_def rows
      by (auto simp: finish_row_def running_def)
    ultimately show "\<exists>j2. j_finish n op rc ?j1 = Inr j2 \<and> idle (insert (op_name op) names) j2" by blast
  qed
qed

text \<open>
  The loop variables between two operations: the recorded times are in the range of the
  clock, and the snapshots agree and contain the baseline as soon as there is one.
\<close>

definition vars_ok :: "answers \<Rightarrow> loop_vars \<Rightarrow> bool" where
  "vars_ok a v \<longleftrightarrow>
     (\<forall>x. lv_baseline v = Some x \<longrightarrow> an_low a \<le> x) \<and> (\<forall>x. lv_restored v = Some x \<longrightarrow> an_low a \<le> x) \<and>
     agreed (an_first a) (lv_snapshots v) \<and>
     (lv_snapshots v \<noteq> [] \<longrightarrow> map_of (lv_snapshots v) ''baseline'' \<noteq> None)"

lemma call_end_high:
  assumes "cooperative env su a" and "vars_ok a v" and "before su (an_high a) (Tick re)" and "an_low a \<le> now"
  shows "an_high a < call_end su (Tick re) now v op"
  using assms
  by (auto simp: call_end_def stage_bound_def cooperative_def vars_ok_def before_def split: option.splits)

lemma fresh_enough_total:
  assumes "cooperative env su a" and "\<And>x. since = Some x \<Longrightarrow> an_low a \<le> x" and "now \<le> an_high a"
  shows "fresh_enough su stage now since op"
  using assms by (fastforce simp: fresh_enough_def cooperative_def split: option.splits)

lemma same_as_baseline_total:
  assumes "vars_ok a v" and "(sn_identity sn, sn_canonical sn) = an_first a"
  shows "same_as_baseline (lv_snapshots v) sn = Inr ()"
proof (cases "lv_snapshots v = []")
  case False
  with assms(1) obtain y where y: "map_of (lv_snapshots v) ''baseline'' = Some y"
    by (auto simp: vars_ok_def)
  then have "(sn_identity y, sn_canonical y) = an_first a"
    using assms(1) map_of_SomeD [OF y] by (fastforce simp: vars_ok_def agreed_def)
  with assms(2) have "(sn_identity sn, sn_canonical sn) = (sn_identity y, sn_canonical y)" by simp
  with y False show ?thesis by (auto simp: same_as_baseline_def require_def)
qed (simp add: same_as_baseline_def)

lemma take_capture_total:
  assumes "cooperative env su a" and "confirms su a op" and "vars_ok a v" and "an_low a \<le> now"
    and "before su (an_high a) (Tick (lv_call_end v))"
    and "lv_snapshots v = [] \<longrightarrow> op_capture op \<in> {None, Some ''baseline''}"
  shows "total (steady a K) (take_capture env su op (an_receipt a op) now v) (\<lambda>w s. steady a K s \<and> vars_ok a w \<and>
     lv_call_end w = lv_call_end v \<and> (lv_snapshots w = [] \<longleftrightarrow> lv_snapshots v = [] \<and> op_capture op = None))"
proof (cases "op_capture op")
  case None
  with assms(3) show ?thesis by (auto simp: take_capture_def intro: total_return)
next
  case (Some cap)
  with assms(2) obtain sn where sn: "rc_snapshot (an_receipt a op) = Some sn" "snapshot_ok su (Some sn)"
    "(sn_identity sn, sn_canonical sn) = an_first a" by (auto simp: confirms_def answered_def)
  let ?w = "v\<lparr>lv_snapshots := (cap, sn) # lv_snapshots v,
     lv_baseline := (if cap = ''baseline'' then Some now else lv_baseline v)\<rparr>"
  have w: "vars_ok a ?w"
    using assms(3,4,6) sn(3) Some by (auto simp: vars_ok_def agreed_def)
  have "total (steady a K) (then_act (require_act (snapshot_ok su (Some sn)) ''incomplete_or_unbound_snapshot'')
      (then_act (lift_res (same_as_baseline (lv_snapshots v) sn)) (then_act (verify env sn)
      (then_act (check env su (Tick (lv_call_end v))) (return_act ?w))))) (\<lambda>w s. steady a K s \<and> w = ?w)"
    by (intro total_then [OF total_require] total_then [OF total_lift [OF same_as_baseline_total [OF assms(3) sn(3)]]]
         total_then [OF total_pre [OF port_totals(2) [OF assms(1)]]]
         total_then [OF check_total [OF assms(1,5)]] total_return)
       (auto simp: sn(2))
  from total_post [OF this, of "\<lambda>w s. steady a K s \<and> vars_ok a w \<and>
     lv_call_end w = lv_call_end v \<and> (lv_snapshots w = [] \<longleftrightarrow> lv_snapshots v = [] \<and> op_capture op = None)"] w
  show ?thesis by (simp add: take_capture_def Some sn(1))
qed

lemma settle_total:
  assumes "cooperative env su a" and "confirms su a op" and "vars_ok a v" and "an_low a \<le> now"
    and "before su (an_high a) (Tick (lv_call_end v))"
    and "lv_snapshots v = [] \<longrightarrow> op_capture op \<in> {None, Some ''baseline''}"
  shows "total (steady a K) (settle env su c op (an_receipt a op) now v) (\<lambda>x s. steady a K s \<and> vars_ok a (fst x) \<and>
     snd x = None \<and> lv_call_end (fst x) = lv_call_end v \<and>
     (lv_snapshots (fst x) = [] \<longleftrightarrow> lv_snapshots v = [] \<and> op_capture op = None))"
proof -
  let ?ce = "Tick (lv_call_end v)"
  let ?Q = "\<lambda>w. vars_ok a w \<and> lv_call_end w = lv_call_end v \<and> lv_snapshots w = lv_snapshots v"
  have chk: "total (steady a K) (check env su ?ce) (\<lambda>_. steady a K)"
    by (rule check_steady [OF assms(1,5)])
  have restored: "total (steady a K) (if op_stage op = ''restore_readback''
      then bind_act (check env su ?ce) (\<lambda>at. return_act (v\<lparr>lv_restored := Some at\<rparr>)) else return_act v)
      (\<lambda>w s. steady a K s \<and> ?Q w)"
    using assms(3)
    by (auto intro!: total_bind [OF check_total [OF assms(1,5)]] total_return simp: vars_ok_def)
  have tail: "total (\<lambda>s. steady a K s \<and> ?Q w)
      (bind_act (take_capture env su op (an_receipt a op) now w) (\<lambda>v. then_act (check env su ?ce) (return_act (v, None))))
      (\<lambda>x s. steady a K s \<and> vars_ok a (fst x) \<and> snd x = None \<and> lv_call_end (fst x) = lv_call_end v \<and>
         (lv_snapshots (fst x) = [] \<longleftrightarrow> lv_snapshots v = [] \<and> op_capture op = None))" for w
  proof (rule total_assume, elim conjE)
    assume w: "vars_ok a w" "lv_call_end w = lv_call_end v" "lv_snapshots w = lv_snapshots v"
    have cap: "total (steady a K) (take_capture env su op (an_receipt a op) now w) (\<lambda>w s. steady a K s \<and> (vars_ok a w \<and>
       lv_call_end w = lv_call_end v \<and> (lv_snapshots w = [] \<longleftrightarrow> lv_snapshots v = [] \<and> op_capture op = None)))"
      using take_capture_total [OF assms(1,2) w(1) assms(4), of K] assms(5,6) w by simp
    show "total (steady a K)
      (bind_act (take_capture env su op (an_receipt a op) now w) (\<lambda>v. then_act (check env su ?ce) (return_act (v, None))))
      (\<lambda>x s. steady a K s \<and> vars_ok a (fst x) \<and> snd x = None \<and> lv_call_end (fst x) = lv_call_end v \<and>
         (lv_snapshots (fst x) = [] \<longleftrightarrow> lv_snapshots v = [] \<and> op_capture op = None))"
      by (intro total_bind [OF cap] total_assume total_then [OF chk] total_return) auto
  qed
  have st: "rc_status (an_receipt a op) = ''confirmed''" "op_stage op \<noteq> ''interruption''"
    using assms(2) by (auto simp: confirms_def answered_def)
  show ?thesis
    unfolding settle_def Let_def if_not_P [OF st(2)]
    by (intro total_then [OF chk] total_then [OF total_require] total_then [OF port_totals(1) [OF assms(1)]]
          total_bind [OF restored] tail)
       (auto simp: st)
qed


lemma run_operation_total:
  assumes coop: "cooperative env su a" and "confirms su a op" and "vars_ok a v"
    and "before su (an_high a) (Tick re)" and "op_name op \<notin> names"
    and "lv_snapshots v = [] \<longrightarrow> op_capture op \<in> {None, Some ''baseline''}"
  shows "total (steady a (\<lambda>j n. idle names j \<and> C n)) (run_operation env su c (Tick re) op v)
    (\<lambda>x s. steady a (\<lambda>j n. idle (insert (op_name op) names) j \<and> C n) s \<and> vars_ok a (fst x) \<and> snd x = None \<and>
       before su (an_high a) (Tick (lv_call_end (fst x))) \<and>
       (lv_snapshots (fst x) = [] \<longleftrightarrow> lv_snapshots v = [] \<and> op_capture op = None))"
proof -
  let ?n = "case_number c"
  let ?r = "an_receipt a op"
  let ?v = "\<lambda>now. v\<lparr>lv_call_end := call_end su (Tick re) now v op\<rparr>"
  let ?K1 = "\<lambda>j n. (\<exists>j2. j_finish ?n op ?r j = Inr j2 \<and> idle (insert (op_name op) names) j2) \<and> C n"
  let ?K2 = "\<lambda>j n. idle (insert (op_name op) names) j \<and> C n"
  have conf: "rc_status ?r = ''confirmed''" "check_receipt op ?r = Inr ()" "op_channel op = ''mechanism''"
    using assms(2) by (auto simp: confirms_def answered_def)
  have reserve: "total (steady a (\<lambda>j n. idle names j \<and> C n)) (transact env (j_reserve ?n op)) (\<lambda>_. steady a ?K1)"
    by (rule transact_total [OF coop]) (metis assms(5) conf(1) reserve_idle)
  have finish: "total (steady a ?K1) (transact env (j_finish ?n op ?r)) (\<lambda>_. steady a ?K2)"
    by (rule transact_total [OF coop]) auto
  have body: "total (steady a (\<lambda>j n. idle names j \<and> C n))
     (then_act (require_act (fresh_enough su ''preflight'' now (lv_baseline v) op) ''baseline_freshness'')
     (then_act (require_act (fresh_enough su ''restored'' now (lv_restored v) op) ''restored_freshness'')
     (then_act (transact env (j_reserve ?n op)) (then_act (check env su (Tick (lv_call_end (?v now))))
     (bind_act (invoke env op (lv_call_end (?v now))) (\<lambda>r. then_act (check env su (Tick (lv_call_end (?v now))))
     (then_act (lift_res (check_receipt op r)) (then_act (transact env (j_finish ?n op r))
       (settle env su c op r now (?v now))))))))))
     (\<lambda>x s. steady a ?K2 s \<and> vars_ok a (fst x) \<and> snd x = None \<and>
       before su (an_high a) (Tick (lv_call_end (fst x))) \<and>
       (lv_snapshots (fst x) = [] \<longleftrightarrow> lv_snapshots v = [] \<and> op_capture op = None))"
    if now: "an_low a \<le> now" "now \<le> an_high a" for now
  proof -
    have fresh: "fresh_enough su st now (lv_baseline v) op" "fresh_enough su st now (lv_restored v) op" for st
      using assms(3) now by (auto intro!: fresh_enough_total [OF coop] simp: vars_ok_def)
    have ce: "before su (an_high a) (Tick (lv_call_end (?v now)))"
      using call_end_high [OF coop assms(3,4) now(1), of op] coop by (simp add: before_def cooperative_def)
    have v: "vars_ok a (?v now)" using assms(3) by (simp add: vars_ok_def)
    have chk: "total (steady a K) (check env su (Tick (lv_call_end (?v now)))) (\<lambda>_. steady a K)" for K
      by (rule check_steady [OF coop ce])
    have snaps: "lv_snapshots (?v now) = [] \<longrightarrow> op_capture op \<in> {None, Some ''baseline''}"
      using assms(6) by simp
    have settled: "total (steady a ?K2) (settle env su c op ?r now (?v now)) (\<lambda>x s. steady a ?K2 s \<and> vars_ok a (fst x) \<and>
       snd x = None \<and> before su (an_high a) (Tick (lv_call_end (fst x))) \<and>
       (lv_snapshots (fst x) = [] \<longleftrightarrow> lv_snapshots v = [] \<and> op_capture op = None))"
      by (rule total_post [OF settle_total [OF coop assms(2) v now(1) ce snaps]]) (use ce in simp)
    have after: "total (steady a ?K1)
       (then_act (lift_res (check_receipt op ?r)) (then_act (transact env (j_finish ?n op ?r))
       (settle env su c op ?r now (?v now)))) (\<lambda>x s. steady a ?K2 s \<and> vars_ok a (fst x) \<and>
       snd x = None \<and> before su (an_high a) (Tick (lv_call_end (fst x))) \<and>
       (lv_snapshots (fst x) = [] \<longleftrightarrow> lv_snapshots v = [] \<and> op_capture op = None))"
      by (intro total_then [OF total_lift [OF conf(2)]] total_then [OF total_pre [OF finish]]
            settled) auto
    show ?thesis
      by (intro total_then [OF total_require] total_then [OF reserve] total_then [OF chk]
            total_bind [OF port_totals(3) [OF coop conf(3)]] total_assume)
         (use fresh after in auto)
  qed
  show ?thesis
    unfolding run_operation_def Let_def
    by (intro total_bind [OF check_total [OF coop assms(4)]] total_assume) (use body in auto)
qed

text \<open>The captures still to come, once there is no snapshot yet, begin with the baseline.\<close>

definition captures_of :: "operation list \<Rightarrow> string list" where
  "captures_of ops = keys_used op_capture ops"

lemma captures_of_simps [simp]:
  "captures_of [] = []"
  "captures_of (op # ops) = (case op_capture op of None \<Rightarrow> [] | Some c \<Rightarrow> [c]) @ captures_of ops"
  using keys_used_append [of op_capture "[op]" ops] by (simp_all add: captures_of_def keys_used_single)

lemma capture_step_captures:
  "capture_step op (cs, q, w) = Some (cs', q', w') \<Longrightarrow> cs' = cs @ captures_of [op]"
  by (auto simp: capture_step_def scan_capture_def Let_def require_def split: option.splits if_splits)

lemma capture_scan_captures:
  "capture_scan ops (cs, q, w) = Some (caps, q', w') \<Longrightarrow> caps = cs @ captures_of ops"
proof (induction ops arbitrary: cs q w)
  case (Cons op ops)
  from Cons.prems obtain cs1 q1 w1 where 1: "capture_step op (cs, q, w) = Some (cs1, q1, w1)"
    and 2: "capture_scan ops (cs1, q1, w1) = Some (caps, q', w')"
    by (auto simp: bind_eq_Some_conv)
  from Cons.IH [OF 2] capture_step_captures [OF 1] show ?case by simp
qed simp

lemma run_operations_total:
  assumes coop: "cooperative env su a" and "\<forall>op\<in>set ops. confirms su a op" and "vars_ok a v"
    and "before su (an_high a) (Tick re)" and "distinct (map op_name ops)" and "set (map op_name ops) \<inter> names = {}"
    and "lv_snapshots v = [] \<longrightarrow> take 1 (captures_of ops) \<in> {[], [''baseline'']}"
    and "before su (an_high a) (Tick (lv_call_end v))"
  shows "total (steady a (\<lambda>j n. idle names j \<and> C n)) (run_operations env su c (Tick re) ops v)
    (\<lambda>x s. steady a (\<lambda>j n. running j \<and> C n) s \<and> snd x = None \<and> before su (an_high a) (Tick (lv_call_end (fst x))))"
  using assms(2-)
proof (induction ops arbitrary: v names)
  case Nil
  then show ?case by (auto intro!: total_return simp: steady_def idle_def)
next
  case (Cons op ops)
  have cap: "lv_snapshots v = [] \<longrightarrow> op_capture op \<in> {None, Some ''baseline''}"
    using Cons.prems(6) by (auto split: option.splits)
  have op: "confirms su a op" "op_name op \<notin> names" using Cons.prems(1,5) by auto
  note one = run_operation_total [OF coop op(1) Cons.prems(2,3) op(2) cap, of C c]
  show ?case unfolding run_operations.simps
  proof (rule total_bind [OF one], rule total_assume, elim conjE)
    fix x :: "loop_vars \<times> run_result option"
    assume x: "vars_ok a (fst x)" "snd x = None" "before su (an_high a) (Tick (lv_call_end (fst x)))"
      "(lv_snapshots (fst x) = []) = (lv_snapshots v = [] \<and> op_capture op = None)"
    have "lv_snapshots (fst x) = [] \<longrightarrow> take 1 (captures_of ops) \<in> {[], [''baseline'']}"
      using Cons.prems(6) x(4) by auto
    from Cons.IH [OF _ x(1) Cons.prems(3) _ _ this x(3), of "insert (op_name op) names"] Cons.prems(1,4,5) x(2)
    show "total (steady a (\<lambda>j n. idle (insert (op_name op) names) j \<and> C n))
      (case x of (v, early) \<Rightarrow> case early of Some res \<Rightarrow> return_act (v, Some res)
         | None \<Rightarrow> run_operations env su c (Tick re) ops v)
      (\<lambda>x s. steady a (\<lambda>j n. running j \<and> C n) s \<and> snd x = None \<and> before su (an_high a) (Tick (lv_call_end (fst x))))"
      by (cases x) auto
  qed
qed



section \<open>The run\<close>

lemma latch_total:
  assumes "cooperative env su a"
  shows "total (steady a (\<lambda>j n. campaign j = None \<and> rows j = [] \<and> n = k)) (latch_campaign env su)
     (\<lambda>_. steady a (\<lambda>j n. idle {} j \<and> n = k))"
proof (rule totalI)
  fix s assume s: "steady a (\<lambda>j n. campaign j = None \<and> rows j = [] \<and> n = k) s"
  let ?p = "su_packet su"
  let ?J = "\<lambda>j n. campaign j = None \<and> rows j = [] \<and> n = k"
  have "total (steady a ?J) (transact env (j_latch ?p (packet_digest ?p))) (\<lambda>_. steady a (\<lambda>j n. idle {} j \<and> n = k))"
    by (rule transact_total [OF assms])
       (auto simp: j_latch_def idle_def running_def dispatching_def reserved_def)
  moreover have "steady a ?J (s\<lparr>r_latched := True\<rparr>)" using s by (simp add: steady_def)
  ultimately obtain u where "transact env (j_latch ?p (packet_digest ?p)) (s\<lparr>r_latched := True\<rparr>) = (Inr (), u)"
    "steady a (\<lambda>j n. idle {} j \<and> n = k) u" by (auto simp: total_def)
  then show "\<exists>x t. latch_campaign env su s = (Inr x, t) \<and> steady a (\<lambda>j n. idle {} j \<and> n = k) t"
    by (auto simp: latch_campaign_def act_simps)
qed

lemma run_selected_total:
  assumes coop: "cooperative env su a" and sel: "selected_case (su_packet su) = Some c"
    and conf: "\<forall>op\<in>set (case_operations c). confirms su a op"
    and names: "distinct (map op_name (case_operations c))"
    and caps: "take 1 (captures_of (case_operations c)) \<in> {[], [''baseline'']}"
  shows "total (steady a (\<lambda>j n. idle {} j \<and> n = 0)) (run_selected env su)
     (\<lambda>x _. x = Result ''mechanism_complete'' 1 ''selected_source_case_complete'')"
proof -
  let ?v = "\<lparr>lv_snapshots = [], lv_baseline = None, lv_restored = None, lv_call_end = deadline su\<rparr>"
  let ?final = "j_terminal ''mechanism_complete'' ''selected_source_case_complete''"
  let ?K = "\<lambda>j n. running j \<and> n = (0::int)"
  have hd: "an_high a < deadline su" using coop by (simp add: cooperative_def)
  have clk: "total (steady a K) (clock env) (\<lambda>x s. steady a K s \<and> (\<exists>n. x = Tick n \<and> an_low a \<le> n))" for K
    using coop by (auto simp: total_def clock_def emit_def Let_def cooperative_def steady_def intro: order_trans)
  have ops: "total (steady a (\<lambda>j n. idle {} j \<and> n = 0)) (run_operations env su c (Tick re) (case_operations c) ?v)
     (\<lambda>x s. steady a ?K s \<and> snd x = None \<and> before su (an_high a) (Tick (lv_call_end (fst x))))"
    if "before su (an_high a) (Tick re)" for re
    by (rule run_operations_total [OF coop conf _ that names]) (use caps hd in \<open>auto simp: vars_ok_def agreed_def before_def\<close>)
  have close: "total (steady a (\<lambda>j n. running j \<and> n = 1)) (transact env ?final) (\<lambda>_. steady a (\<lambda>j n. n = 1))"
    by (rule transact_total [OF coop])
       (auto simp: j_terminal_def running_def terminal_allowed_def split: option.splits)
  have count: "total (steady a ?K) (modify_act (\<lambda>s. s\<lparr>r_completed := r_completed s + 1\<rparr>)) (\<lambda>_. steady a (\<lambda>j n. running j \<and> n = 1))"
    by (rule total_modify) (simp add: steady_def)
  have fin: "total (steady a (\<lambda>j n. running j \<and> n = 1)) (then_act (check env su (Tick ce)) (then_act (transact env ?final)
       (then_act (check env su (Tick ce)) (bind_act (gets_act r_completed) (\<lambda>n.
          return_act (Result ''mechanism_complete'' n ''selected_source_case_complete''))))))
     (\<lambda>x _. x = Result ''mechanism_complete'' 1 ''selected_source_case_complete'')"
    if "before su (an_high a) (Tick ce)" for ce
    by (intro total_then [OF check_steady [OF coop that]] total_then [OF close]
          total_bind [OF total_gets] total_return) (auto simp: steady_def)
  show ?thesis
    unfolding run_selected_def Let_def sel option.case
  proof (rule total_bind [OF clk], rule total_assume, elim exE conjE)
    fix x n assume x: "x = Tick n" "an_low a \<le> n"
    let ?re = "min (n + 1200) (deadline su)"
    have re: "before su (an_high a) (Tick ?re)"
      using x(2) coop by (auto simp: before_def cooperative_def)
    show "total (steady a (\<lambda>j n. idle {} j \<and> n = 0)) (bind_act (lift_res (run_end su x)) (\<lambda>re.
       bind_act (run_operations env su c re (case_operations c) ?v) (\<lambda>(v, early). case early of
          Some res \<Rightarrow> return_act res
        | None \<Rightarrow> then_act (modify_act (\<lambda>s. s\<lparr>r_completed := r_completed s + 1\<rparr>))
            (then_act (check env su (Tick (lv_call_end v))) (then_act (transact env ?final)
            (then_act (check env su (Tick (lv_call_end v))) (bind_act (gets_act r_completed) (\<lambda>n.
               return_act (Result ''mechanism_complete'' n ''selected_source_case_complete'')))))))))
       (\<lambda>x _. x = Result ''mechanism_complete'' 1 ''selected_source_case_complete'')"
      unfolding x(1)
    proof (rule total_bind [OF total_lift [of _ "Tick ?re"]], simp, rule total_assume, simp only:,
        rule total_bind [OF ops [OF re]], rule total_assume, elim conjE)
      fix y :: "loop_vars \<times> run_result option"
      assume "snd y = None" "before su (an_high a) (Tick (lv_call_end (fst y)))"
      then show "total (steady a ?K) (case y of (v, early) \<Rightarrow> case early of
          Some res \<Rightarrow> return_act res
        | None \<Rightarrow> then_act (modify_act (\<lambda>s. s\<lparr>r_completed := r_completed s + 1\<rparr>))
            (then_act (check env su (Tick (lv_call_end v))) (then_act (transact env ?final)
            (then_act (check env su (Tick (lv_call_end v))) (bind_act (gets_act r_completed) (\<lambda>n.
               return_act (Result ''mechanism_complete'' n ''selected_source_case_complete'')))))))
       (\<lambda>x _. x = Result ''mechanism_complete'' 1 ''selected_source_case_complete'')"
        by (cases y) (auto intro!: total_then [OF count] fin)
    qed
  qed
qed

end
