(* ===== verification/Runner_Properties.thy ===== *)
theory Runner_Properties
  imports Runner_Progress
begin

text \<open>
  The properties of the finite runner: what a history of runs can dispatch, when it
  dispatches, what a reported outcome means, and that a run in a cooperative environment
  completes. The example configuration is the source's own packet for case 1.
\<close>

section \<open>Histories\<close>

definition history_ok :: "journal \<times> rtrace \<Rightarrow> bool" where
  "history_ok y \<longleftrightarrow> campaign (fst y) = None \<and> rows (fst y) = [] \<and> invoked (snd y) = [] \<or>
     (\<exists>p. validate_packet p = Inr () \<and> (\<exists>c\<in>set (pk_cases p). dispatched_of p c (fst y) (invoked (snd y))))"

lemma recorded_campaign: "recorded p j \<Longrightarrow> campaign j \<noteq> None"
  by (auto simp: recorded_def split: option.splits)

lemma downgraded_dispatched:
  assumes "dispatched_of p c j ops" and "downgraded j j'"
  shows "dispatched_of p c j' ops"
proof -
  have "journal_inv j'" "recorded p j'" "row_keys j' = row_keys j"
    using assms
    by (auto simp: dispatched_of_def downgraded_def journal_inv_def recorded_def row_keys_def open_rows_def
        split: option.splits)
  with assms(1) show ?thesis by (simp add: dispatched_of_def)
qed

lemma core_start: "core (start su y) = (fst y, invoked (snd y), False, 0)"
  by (simp add: core_def start_def)

lemma run_once_held:
  assumes "campaign (fst y) \<noteq> None"
  shows "downgraded (fst y) (fst (run_once x y)) \<and> invoked (snd (run_once x y)) = invoked (snd y)"
proof -
  have "held (fst y) (invoked (snd y)) (core (start (snd x) y))"
    by (simp add: held_def downgraded_def core_start)
  with run_held [OF assms, of "invoked (snd y)" "fst x" "snd x"]
  have "held (fst y) (invoked (snd y)) (core (snd (run (fst x) (snd x) (start (snd x) y))))"
    by (simp add: keeps_def)
  then show ?thesis by (simp add: run_once_def Let_def held_def core_def)
qed

lemma run_once_history: "history_ok y \<Longrightarrow> history_ok (run_once x y)"
proof -
  assume h: "history_ok y"
  show "history_ok (run_once x y)"
  proof (cases "campaign (fst y) = None")
    case True
    with h have y: "rows (fst y) = []" "invoked (snd y) = []"
      by (auto simp: history_ok_def dispatched_of_def dest: recorded_campaign)
    let ?s = "start (snd x) y"
    obtain r t where t: "run (fst x) (snd x) ?s = (r, t)" by force
    have "fresh_run (su_packet (snd x)) (fst y) (core ?s)" by (simp add: fresh_run_def core_start y)
    from hoareD [OF fresh_run_step [OF True y(1)] this _ t] y(2)
    have "fresh_run (su_packet (snd x)) (fst y) (core t)" by (simp add: core_start)
    with t True y show ?thesis
      by (auto simp: history_ok_def run_once_def fresh_run_def core_def)
  next
    case False
    with h obtain p c where "validate_packet p = Inr ()" "c \<in> set (pk_cases p)"
      "dispatched_of p c (fst y) (invoked (snd y))" by (auto simp: history_ok_def)
    with run_once_held [OF False, of x] downgraded_dispatched show ?thesis
      unfolding history_ok_def by metis
  qed
qed

lemma runs_history: "history_ok y \<Longrightarrow> history_ok (runs xs y)"
proof (induction xs arbitrary: y)
  case (Cons x xs)
  show ?case unfolding runs.simps by (rule Cons.IH) (rule run_once_history [OF Cons.prems])
qed simp

lemma history_start: "history_ok (empty_journal, [])"
  by (simp add: history_ok_def empty_journal_def)

lemma dispatched_names: "dispatched_of p c j ops \<Longrightarrow> set (map op_name ops) \<subseteq> reserved j"
proof -
  assume d: "dispatched_of p c j ops"
  then obtain ps where ps: "row_keys j = map (op_key c) ps" "ops = ps \<or> ops = butlast ps"
    by (auto simp: dispatched_of_def)
  have "map fst (row_keys j) = map op_name ps" using ps(1) by (simp add: op_key_def)
  moreover have "map fst (row_keys j) = map fst (rows j)" by (simp add: row_keys_def)
  ultimately have "set (map op_name ps) = set (map fst (rows j))" by simp
  then have "set (map op_name ps) = reserved j" by (simp add: reserved_def)
  with ps(2) show ?thesis by (auto dest: in_set_butlastD)
qed

lemma dispatched_prefix: "dispatched_of p c j ops \<Longrightarrow> \<exists>qs. case_operations c = ops @ qs"
proof -
  assume "dispatched_of p c j ops"
  then obtain ps qs where "case_operations c = ps @ qs" "ops = ps \<or> ps \<noteq> [] \<and> ops = butlast ps"
    by (auto simp: dispatched_of_def)
  moreover have "ps \<noteq> [] \<Longrightarrow> ps = butlast ps @ [last ps]" by simp
  ultimately show ?thesis by (metis append.assoc)
qed

lemma case_op_names:
  assumes "campaign_ok cs" and "c \<in> set cs"
  shows "distinct (map op_name (case_operations c))"
proof -
  from assms(2) obtain xs ys where "cs = xs @ c # ys" by (meson split_list)
  with assms(1) show ?thesis by (simp add: campaign_ok_def campaign_operations_def)
qed

lemma dispatched_budget:
  assumes "validate_packet p = Inr ()" and "c \<in> set (pk_cases p)" and "dispatched_of p c j ops"
  shows "cost_le (total_cost ops) RUN_LIMIT" and "distinct (map op_name ops)"
proof -
  from dispatched_prefix [OF assms(3)] obtain qs where q: "case_operations c = ops @ qs" by blast
  have camp: "campaign_ok (pk_cases p)" by (rule validate_packet_campaign [OF assms(1)])
  then have c: "case_ok c" using assms(2) by (simp add: campaign_ok_def)
  then have "cost_le (total_cost (ops @ qs)) RUN_LIMIT" "\<forall>op\<in>set qs. nonneg (op_cost op)"
    using q by (auto simp: case_ok_def intro: op_ok_nonneg)
  then show "cost_le (total_cost ops) RUN_LIMIT"
    by (blast intro: cost_le_trans cost_le_prefix)
  show "distinct (map op_name ops)"
    using case_op_names [OF camp assms(2)] q by simp
qed

lemma history_within_budget:
  assumes "history_ok y"
  shows "distinct (map op_name (invoked (snd y))) \<and> set (map op_name (invoked (snd y))) \<subseteq> reserved (fst y) \<and>
    cost_le (total_cost (invoked (snd y))) RUN_LIMIT"
proof (cases "invoked (snd y) = []")
  case True
  then show ?thesis by (simp add: cost_le_def cost_fields_def Cost_def RUN_LIMIT_def)
next
  case False
  with assms obtain p c where d: "validate_packet p = Inr ()" "c \<in> set (pk_cases p)"
    "dispatched_of p c (fst y) (invoked (snd y))" by (auto simp: history_ok_def)
  from dispatched_budget [OF d] dispatched_names [OF d(3)] show ?thesis by blast
qed


section \<open>The source's own configuration\<close>

definition own_config :: "string \<Rightarrow> string \<Rightarrow> int \<Rightarrow> runner_config" where
  "own_config pin oracle_pin n =
     \<lparr>su_packet = own_packet pin oracle_pin n, su_pin = pin, su_oracle_pin = oracle_pin, su_drivers = True,
      su_adapter_pin = cx_program_pin (make_context pin oracle_pin own_cases)\<rparr>"

lemma own_twelfth: "own_cases ! 11 = own_case 12"
  by (simp add: own_cases_def upto_12)

lemma check_program_own: "check_program (own_config pin oracle_pin n) = Inr ()"
proof -
  have "case12_interruption (own_packet pin oracle_pin n) = ''partial_output''"
    by (simp add: case12_interruption_def own_packet_def own_twelfth program_case_def)
  then show ?thesis
    by (simp add: check_program_def Let_def own_config_def make_packet_own require_def)
       (simp add: own_packet_def)
qed

lemma find_own: "n \<in> set ns \<Longrightarrow> List.find (\<lambda>c. case_number c = n) (map own_case ns) = Some (own_case n)"
  by (induction ns) auto

lemma selected_own: "1 \<le> n \<Longrightarrow> n \<le> 12 \<Longrightarrow> selected_case (own_packet pin oracle_pin n) = Some (own_case n)"
  using find_own [of n "[1..12]"] by (simp add: selected_case_def own_packet_def own_cases_def)

lemma Operation_simps [simp]:
  "op_channel (Operation a b c d e f) = d" "op_cost (Operation a b c d e f) = c"
  by (simp_all add: Operation_def)

lemma stage_cost_bytes [simp]: "artifact_bytes (stage_cost st) = 16384"
  by (simp add: stage_cost_def Let_def)

lemma stage_operation:
  assumes "op \<in> set (stage_operations n i st)"
  shows "op_channel op = ''mechanism'' \<and> artifact_bytes (op_cost op) = 16384"
proof -
  have "op \<in> set (setup_operations n) \<or> op \<in> set (capture_operations n st) \<or> op \<in> set (challenge_operations n) \<or>
      op \<in> set delayed_operations \<or>
      op = Operation (case_name n @ ''_'' @ st) st (stage_cost st) ''mechanism'' (stage_action n i st) None"
    using assms by (auto simp: stage_operations_def split: if_splits)
  then show ?thesis
    by (elim disjE) (auto simp: setup_operations_def capture_operations_def challenge_operations_def
        delayed_operations_def Let_def split: option.splits)
qed

lemma own_operation:
  assumes "op \<in> set (case_operations (own_case n))"
  shows "op_channel op = ''mechanism''" and "artifact_bytes (op_cost op) = 16384"
  using assms stage_operation by (auto simp: program_case_def)

lemma own_case_stages:
  assumes "1 \<le> n" "n \<le> 11" and "op \<in> set (case_operations (own_case n))"
  shows "op_stage op \<noteq> ''interruption''"
proof -
  have "case_ok (own_case n)" using checked_facts(1) [OF checked_all [of n]] assms by simp
  from case_ok_stages(1) [OF this] assms have "op_stage op \<in> set REQUIRED_STAGES"
    by (auto simp: expected_stages_def)
  then show ?thesis by (auto simp: REQUIRED_STAGES_def)
qed

lemma own_case_captures:
  assumes "1 \<le> n" "n \<le> 11"
  shows "take 1 (captures_of (case_operations (own_case n))) = [''baseline'']"
proof -
  have "case_ok (own_case n)" using checked_facts(1) [OF checked_all [of n]] assms by simp
  then obtain q w where "capture_scan (case_operations (own_case n)) ([], 0, 0) = Some (CAPTURE_STAGES, q, w)"
    using assms by (auto simp: case_ok_def)
  then have "captures_of (case_operations (own_case n)) = CAPTURE_STAGES"
    using capture_scan_captures by fastforce
  then show ?thesis by (simp add: CAPTURE_STAGES_def)
qed

lemma own_run_completes:
  assumes "hex64 pin" and "hex64 oracle_pin" and "1 \<le> n" and "n \<le> 11"
    and "cooperative env (own_config pin oracle_pin n) a"
    and "\<forall>op\<in>set (case_operations (own_case n)). answered (own_config pin oracle_pin n) a op"
    and "campaign j = None" and "rows j = []"
  shows "\<exists>t. run env (own_config pin oracle_pin n) (start (own_config pin oracle_pin n) (j, [])) =
     (Inr (Result ''mechanism_complete'' 1 ''selected_source_case_complete''), t)"
proof -
  let ?su = "own_config pin oracle_pin n"
  let ?K = "\<lambda>j n. campaign j = None \<and> rows j = [] \<and> n = 0"
  have valid: "validate_packet (su_packet ?su) = Inr ()"
    using own_packet_valid [OF assms(1-3)] assms(4) by (simp add: own_config_def)
  have sel: "selected_case (su_packet ?su) = Some (own_case n)"
    using selected_own [of n pin oracle_pin] assms(3,4) by (simp add: own_config_def)
  have conf: "\<forall>op\<in>set (case_operations (own_case n)). confirms ?su a op"
    using assms(6) own_operation(1) own_case_stages [OF assms(3,4)] by (simp add: confirms_def)
  have names: "distinct (map op_name (case_operations (own_case n)))"
    using checked_facts(2) [OF checked_all [of n]] assms(3,4) by simp
  have b: "before ?su (an_high a) (Tick (deadline ?su))"
    using assms(5) by (simp add: before_def cooperative_def)
  have caps: "take 1 (captures_of (case_operations (own_case n))) \<in> {[], [''baseline'']}"
    using own_case_captures [OF assms(3,4)] by simp
  have "total (steady a ?K) (run_try env ?su) (\<lambda>x _. x = Result ''mechanism_complete'' 1 ''selected_source_case_complete'')"
    unfolding run_try_def
    by (intro total_then [OF total_pre [OF total_lift [OF valid]]] total_then [OF total_pre [OF check_steady [OF assms(5) b]]]
          total_then [OF total_pre [OF total_lift [OF check_program_own]]]
          total_then [OF total_pre [OF latch_total [OF assms(5)]]])
       (auto intro!: run_selected_total [OF assms(5) sel conf names caps])
  moreover have "steady a ?K (start ?su (j, []))"
    using assms(5,7,8) unfolding steady_def cooperative_def by (auto simp: start_def intro: order_trans)
  ultimately obtain t where
    "run_try env ?su (start ?su (j, [])) = (Inr (Result ''mechanism_complete'' 1 ''selected_source_case_complete''), t)"
    by (auto simp: total_def)
  then show ?thesis by (auto simp: run_def catch_act_def)
qed


section \<open>An example environment\<close>

definition example_snapshot :: snapshot where
  "example_snapshot = \<lparr>sn_canonical = ''rows'', sn_source_pin = zero_pin, sn_identity = ''population'', sn_complete = True\<rparr>"

definition example_receipt :: "operation \<Rightarrow> receipt" where
  "example_receipt op = \<lparr>rc_status = ''confirmed'', rc_actual_cost = op_cost op, rc_evidence = ''observed'',
     rc_snapshot = (if op_capture op = None then None else Some example_snapshot)\<rparr>"

definition example_env :: renv where
  "example_env = \<lparr>e_clock = \<lambda>_. Inr (Tick 5), e_source = \<lambda>_. Inr zero_pin, e_same = \<lambda>_. True,
     e_journal = \<lambda>_. Fine, e_invoke = \<lambda>_ op _. Inr (example_receipt op),
     e_verify_receipt = \<lambda>_ _ _. Inr (), e_verify = \<lambda>_ _. Inr ()\<rparr>"

definition example_answers :: answers where
  "example_answers = \<lparr>an_time = \<lambda>_. 5, an_low = 5, an_high = 5, an_receipt = example_receipt,
     an_first = (''population'', ''rows'')\<rparr>"

abbreviation example_config :: runner_config where
  "example_config \<equiv> own_config zero_pin zero_pin 1"

lemma example_cooperative: "cooperative example_env example_config example_answers"
  by (simp add: cooperative_def example_env_def example_answers_def starts_def deadline_def freshness_def
      own_config_def own_packet_def)

lemma own_case_op_ok: "op \<in> set (case_operations (own_case 1)) \<Longrightarrow> op_ok op"
  using checked_facts(1) [OF checked_1] by (simp add: case_ok_def)

lemma example_answered: "\<forall>op\<in>set (case_operations (own_case 1)). answered example_config example_answers op"
proof
  fix op assume op: "op \<in> set (case_operations (own_case 1))"
  have n: "nonneg (op_cost op)" by (rule op_ok_nonneg [OF own_case_op_ok [OF op]])
  have le: "cost_le (op_cost op) (op_cost op)" by (simp add: cost_le_def cost_fields_def)
  have small: "small_op op" using checked_facts(5) [OF checked_1] op by simp
  have "length (dumps (operation_json op)) \<le> 1400" "length (dumps (cost_json (op_cost op))) \<le> 360"
    using small_op_length [OF small] cost_json_length small by (simp_all add: small_op_def)
  then have "retained_bytes op (example_receipt op) \<le> 16384"
    by (simp add: retained_bytes_def example_receipt_def example_snapshot_def)
  with n le own_operation(2) [OF op] show "answered example_config example_answers op"
    by (auto simp: answered_def example_answers_def example_receipt_def check_receipt_def require_def within_Inr
        bind_res_Inr snapshot_ok_def example_snapshot_def own_config_def own_packet_def)
qed


section \<open>Properties\<close>

text \<open>C2: Over any number of runs on one journal, with any packets, any configurations and any
  environments, failing, acknowledging late or dying at every journal transaction included,
  the operations ever dispatched have pairwise different names, each was durably reserved in
  the journal before, and their declared costs together stay within the budget of one run.\<close>

theorem runner_history_within_budget:
  "distinct (map op_name (invoked (snd (runs xs (empty_journal, []))))) \<and>
   set (map op_name (invoked (snd (runs xs (empty_journal, []))))) \<subseteq> reserved (fst (runs xs (empty_journal, []))) \<and>
   cost_le (total_cost (invoked (snd (runs xs (empty_journal, []))))) RUN_LIMIT"
  by (rule history_within_budget [OF runs_history [OF history_start]])

text \<open>Over any such history everything that was dispatched is a prefix, in order, of the
  operations of one case of one validated packet, and the campaign row of the journal holds
  exactly that packet and its digest.\<close>

theorem runner_history_one_case:
  "invoked (snd (runs xs (empty_journal, []))) = [] \<or>
   (\<exists>p c rest. validate_packet p = Inr () \<and> c \<in> set (pk_cases p) \<and>
      case_operations c = invoked (snd (runs xs (empty_journal, []))) @ rest \<and>
      recorded p (fst (runs xs (empty_journal, []))))"
  using runs_history [OF history_start, of xs] dispatched_prefix
  unfolding history_ok_def dispatched_of_def by metis

text \<open>C15: A journal that has a campaign, terminal, crashed or still running, never lets another
  run dispatch: the run leaves all operation rows as they are and changes the campaign row at
  most to the status unknown.\<close>

theorem runner_no_replay:
  assumes "campaign (fst y) \<noteq> None"
  shows "invoked (snd (run_once x y)) = invoked (snd y) \<and> downgraded (fst y) (fst (run_once x y))"
  using run_once_held [OF assms] by simp

definition example_reserved :: journal where
  "example_reserved = \<lparr>campaign = Some \<lparr>cr_packet = ''{}'', cr_digest = ''d'', cr_status = ''running'', cr_reason = ''''\<rparr>,
     rows = []\<rparr>"

theorem runner_no_replay_witness:
  "invoked (snd (run_once (example_env, example_config) (example_reserved, []))) = []"
  using runner_no_replay [of "(example_reserved, [])" "(example_env, example_config)"]
  by (simp add: example_reserved_def)

text \<open>C19: A run that reports \<open>refused\<close> dispatched nothing and left the journal exactly as it was.\<close>

theorem runner_refused_is_clean:
  assumes "run env su (start su y) = (Inr res, t)" and "res_status res = ''refused''"
  shows "r_journal t = fst y \<and> invoked (r_trace t) = invoked (snd y)"
proof -
  obtain q u where try_it: "run_try env su (start su y) = (q, u)" by force
  have "untouched (fst y) (invoked (snd y)) (core (start su y))" "\<not> r_latched (start su y)"
    by (simp_all add: untouched_def core_start) (simp add: start_def)
  from hoareD [OF run_try_untouched this try_it]
  have u: "untouched (fst y) (invoked (snd y)) (core u)" .
  obtain e where e: "q = Inl e" "run_failed env e u = (Inr res, t)"
    using assms try_it run_try_result [of env su "start su y" res t]
    by (auto simp: run_def catch_act_def split: sum.splits if_splits)
  then have "\<not> r_latched u" "t = u"
    using assms(2)
    by (auto simp: run_failed_def act_simps Result_def split: if_splits prod.splits sum.splits)
  with u show ?thesis by (simp add: untouched_def core_def)
qed

lemma example_refused:
  "run example_env (own_config zero_pin zero_pin 13) (start (own_config zero_pin zero_pin 13) (example_reserved, [])) =
   (Inr (Result ''refused'' 0 ''source_rehearsal_case_selection''),
    start (own_config zero_pin zero_pin 13) (example_reserved, []))"
proof -
  let ?p = "own_packet zero_pin zero_pin 13"
  have "validate_binding ?p = Inr ()"
    using zero_pin_hex py_str_int_length [of 13] by (simp add: validate_binding_def own_packet_def require_def)
  then have "validate_packet ?p = Inl (Refused ''source_rehearsal_case_selection'')"
    by (simp add: validate_packet_def own_packet_def require_def)
  then show ?thesis
    by (simp add: run_def run_try_def run_failed_def act_simps own_config_def start_def)
qed

theorem runner_refused_is_clean_witness:
  "r_journal (start (own_config zero_pin zero_pin 13) (example_reserved, [])) = example_reserved"
  using runner_refused_is_clean [OF example_refused] by simp

text \<open>C16: Every dispatch of a run comes directly after a source check that answered the packet's
  source pin and a clock reading inside the packet's window and before the deadline handed to
  the adapter, which is never later than the packet's deadline.\<close>

theorem runner_dispatches_on_time:
  "timely su (r_trace (snd (run env su (start su (j, [])))))"
  using run_on_time [of su env] by (simp add: keeps_def start_def)

text \<open>C3: A run that reports \<open>mechanism_complete\<close> dispatched exactly the operations of the selected
  case in their order; every one was confirmed within its declared cost and accepted by the
  oracle, every capture gave a complete snapshot accepted by the oracle with the same identity
  and the same canonical bytes, every journal row says confirmed and the campaign complete.\<close>

theorem runner_completion_is_complete:
  assumes "run env su (start su (j, [])) = (Inr res, t)" and "res_status res = ''mechanism_complete''"
    and "rows j = []"
  shows "\<exists>c first. selected_case (su_packet su) = Some c \<and> invoked (r_trace t) = case_operations c \<and>
    (\<forall>op\<in>set (case_operations c). passed su first (r_trace t) op) \<and>
    list_all (\<lambda>x. x = ''confirmed'') (statuses (r_journal t)) \<and>
    (\<exists>r. campaign (r_journal t) = Some r \<and> cr_status r = ''mechanism_complete'')"
  using run_complete [OF assms] by metis

lemma example_completes:
  "\<exists>t. run example_env example_config (start example_config (empty_journal, [])) =
     (Inr (Result ''mechanism_complete'' 1 ''selected_source_case_complete''), t)"
  using own_run_completes [OF zero_pin_hex zero_pin_hex _ _ example_cooperative example_answered]
  by (simp add: empty_journal_def)

theorem runner_completion_is_complete_witness:
  "\<exists>c. selected_case (su_packet example_config) = Some c \<and>
     invoked (r_trace (snd (run example_env example_config (start example_config (empty_journal, []))))) = case_operations c"
proof -
  from example_completes obtain t where t: "run example_env example_config (start example_config (empty_journal, [])) =
     (Inr (Result ''mechanism_complete'' 1 ''selected_source_case_complete''), t)" ..
  from runner_completion_is_complete [OF t] t show ?thesis by (auto simp: empty_journal_def)
qed

text \<open>C10: The runner finishes when it can. For the source's own packet of any case from 1 to 11
  on an unused journal, with a clock that never runs backwards and stays within the freshness
  bound, an undrifted source, a journal that acknowledges, and an adapter and an oracle that
  confirm every operation within its cost, the run returns the result mechanism_complete with
  one completed case.\<close>

theorem runner_completes:
  assumes "hex64 pin" and "hex64 oracle_pin" and "1 \<le> n" and "n \<le> 11"
    and "cooperative env (own_config pin oracle_pin n) a"
    and "\<forall>op\<in>set (case_operations (program_case n ''partial_output'')). answered (own_config pin oracle_pin n) a op"
  shows "\<exists>t. run env (own_config pin oracle_pin n) (start (own_config pin oracle_pin n) (empty_journal, [])) =
     (Inr (Result ''mechanism_complete'' 1 ''selected_source_case_complete''), t)"
  using own_run_completes [OF assms] by (simp add: empty_journal_def)

theorem runner_completes_witness:
  "\<exists>t. run example_env example_config (start example_config (empty_journal, [])) =
     (Inr (Result ''mechanism_complete'' 1 ''selected_source_case_complete''), t)"
  using runner_completes [OF zero_pin_hex zero_pin_hex _ _ example_cooperative example_answered] by simp

end
