(* ===== verification/Control_Types.thy ===== *)
theory Control_Types
  imports Encoding
begin

text \<open>
  The data of the D1 operator control protocol (\<open>probes/pmb1-d1-adapter/adapter.py\<close>): windows,
  intents, generations as canonical decimal text, the results and receipts, and the two
  validators of what the observer reads back.
\<close>

section \<open>Generations\<close>

definition MAX_GENERATION :: int where "MAX_GENERATION = 9223372036854775807"

definition generation_ok :: "bool \<Rightarrow> string \<Rightarrow> bool" where
  "generation_ok increment s \<longleftrightarrow> 1 \<le> length s \<and> length s \<le> 19 \<and> is_ascii s \<and> list_all is_digit s \<and>
     hd s \<noteq> CHR ''0'' \<and> decimal_value s \<le> MAX_GENERATION - of_bool increment"

definition generation :: "bool \<Rightarrow> pyval \<Rightarrow> string res" where
  "generation increment v = (case v of
     PStr s \<Rightarrow> if generation_ok increment s then Inr s else Inl (Refused ''invalid_or_exhausted_generation'')
   | _ \<Rightarrow> Inl (Refused ''invalid_or_exhausted_generation''))"


section \<open>Windows and intents\<close>

record window =
  starts :: tick
  dispatch_until :: tick
  reconcile_until :: tick

definition validate_window :: "window \<Rightarrow> unit res" where
  "validate_window w = (case (starts w, dispatch_until w, reconcile_until w) of
     (Tick s, Tick d, Tick r) \<Rightarrow>
       bind_res (require (0 \<le> s \<and> s < d \<and> d \<le> r) ''invalid_window'')
         (\<lambda>_. require (r - s \<le> 300) ''window_exceeds_five_minute_source_ceiling'')
   | _ \<Rightarrow> Inl (Refused ''invalid_window''))"

record intent =
  key :: string
  operation :: string
  expected :: string
  window :: window
  target_id :: string
  candidate :: string
  transition_limit :: int

definition read_limit :: "intent \<Rightarrow> int" where
  "read_limit i = (if transition_limit i = 1 then 8 else 16)"

definition generation_number :: "intent \<Rightarrow> int" where
  "generation_number i = decimal_value (expected i)"

definition next_generation :: "intent \<Rightarrow> string" where
  "next_generation i = py_str_int (generation_number i + 1)"

definition target :: "intent \<Rightarrow> string" where
  "target i = (if operation i = ''close'' then ''closed'' else ''open'')"


section \<open>Results and receipts\<close>

record result =
  status :: string
  reason :: string
  observed_generation :: "string option"
  observed_state :: "string option"
  confirmed_at :: "tick option"

definition Result :: "string \<Rightarrow> string \<Rightarrow> result" where
  "Result s r = \<lparr>status = s, reason = r, observed_generation = None, observed_state = None, confirmed_at = None\<rparr>"

record confirmed_receipt =
  reference :: string
  predecessor :: intent
  receipt_result :: result
  receipt_status :: string


section \<open>Readback validators\<close>

text \<open>What the observer answers: \<open>CompleteRows\<close>, or an object of another type.\<close>

datatype reply = CompleteRows "pyval list" pyval | OtherReply

definition CONTROL_KEYS :: "string list" where
  "CONTROL_KEYS = [''singleton_type'', ''singleton_text'', ''rowid_type'', ''rowid_text'',
     ''generation_type'', ''generation_text'', ''state_type'', ''state'']"

definition FIXED_CONTROL :: "(string \<times> string) list" where
  "FIXED_CONTROL = [(''singleton_type'', ''integer''), (''singleton_text'', ''1''), (''rowid_type'', ''integer''),
     (''rowid_text'', ''1''), (''generation_type'', ''integer''), (''state_type'', ''text'')]"

definition validate_control :: "reply \<Rightarrow> (string \<times> string) res" where
  "validate_control r = (case r of
     CompleteRows rows complete \<Rightarrow>
       if complete \<noteq> PBool True then Inl (Refused ''incomplete_control'')
       else (case rows of
         [PDict row] \<Rightarrow>
           if set (map fst row) \<noteq> set CONTROL_KEYS then Inl (Refused ''invalid_control'')
           else if list_ex (\<lambda>(k, v). dict_get row k \<noteq> PStr v) FIXED_CONTROL then Inl (Refused ''invalid_control'')
           else (case dict_get row ''state'' of
             PStr s \<Rightarrow> if s \<in> {''open'', ''closed''}
               then bind_res (generation False (dict_get row ''generation_text'')) (\<lambda>g. Inr (g, s))
               else Inl (Refused ''invalid_control'')
           | _ \<Rightarrow> Inl (Refused ''invalid_control''))
       | _ \<Rightarrow> Inl (Refused ''invalid_control''))
   | OtherReply \<Rightarrow> Inl (Refused ''incomplete_control''))"

definition schema_row :: "pyval \<Rightarrow> pyval res" where
  "schema_row v = (case v of
     PDict row \<Rightarrow>
       if set (map fst row) \<noteq> {''type'', ''name'', ''tbl_name'', ''sql''} then Inl (Refused ''invalid_schema'')
       else (case (dict_get row ''type'', dict_get row ''name'', dict_get row ''tbl_name'') of
         (PStr t, PStr n, PStr b) \<Rightarrow>
           (case dict_get row ''sql'' of
              PNone \<Rightarrow> Inr (PDict [(''type'', PStr t), (''name'', PStr n), (''table'', PStr b), (''sql_sha2_256'', PNone)])
            | PStr q \<Rightarrow> Inr (PDict [(''type'', PStr t), (''name'', PStr n), (''table'', PStr b),
                (''sql_sha2_256'', PStr (sha256_hex q))])
            | _ \<Rightarrow> Inl (Refused ''invalid_schema''))
       | _ \<Rightarrow> Inl (Refused ''invalid_schema''))
   | _ \<Rightarrow> Inl (Refused ''invalid_schema''))"

fun schema_rows :: "pyval list \<Rightarrow> pyval list res" where
  "schema_rows [] = Inr []"
| "schema_rows (v # vs) = bind_res (schema_row v) (\<lambda>x. bind_res (schema_rows vs) (\<lambda>xs. Inr (x # xs)))"

text \<open>The second argument is the decoded \<open>candidate_schema\<close> of the manifest.\<close>

definition validate_schema :: "reply \<Rightarrow> pyval \<Rightarrow> unit res" where
  "validate_schema r manifest = (case r of
     CompleteRows rows complete \<Rightarrow>
       bind_res (require (complete = PBool True) ''incomplete_schema'') (\<lambda>_.
       bind_res (schema_rows rows) (\<lambda>actual. require (py_eq (PList actual) manifest) ''schema_or_guard_mismatch''))
   | OtherReply \<Rightarrow> Inl (Refused ''incomplete_schema''))"


section \<open>Lemmas\<close>

lemma generation_ok_weaken: "generation_ok True s \<Longrightarrow> generation_ok False s"
  by (simp add: generation_ok_def)

lemma generation_Inr: "generation b v = Inr s \<longleftrightarrow> v = PStr s \<and> generation_ok b s"
  by (auto simp: generation_def split: pyval.splits)

lemma decimal_value_nonneg: "list_all is_digit s \<Longrightarrow> 0 \<le> decimal_value s"
proof (induction s rule: rev_induct)
  case Nil
  show ?case by (simp add: decimal_value_def)
next
  case (snoc c s)
  then show ?case by (auto simp: decimal_value_snoc digit_value_def is_digit_def code_in_def)
qed

lemma generation_number_nonneg: "generation_ok b (expected i) \<Longrightarrow> 0 \<le> generation_number i"
  by (simp add: generation_ok_def generation_number_def decimal_value_nonneg)

lemma next_generation_number:
  assumes "generation_ok b (expected i)"
  shows "decimal_value (next_generation i) = generation_number i + 1"
  using generation_number_nonneg [OF assms] by (simp add: next_generation_def decimal_py_str_int)

text \<open>A generation is the canonical text of its number: no other text of the number is accepted.\<close>

lemma digit_range: "is_digit c \<Longrightarrow> 0 \<le> digit_value c \<and> digit_value c < 10 \<and> char_of (48 + nat (digit_value c)) = c"
  by (auto simp: is_digit_def code_in_def digit_value_def nat_diff_distrib)

lemma canonical_digits:
  assumes "list_all is_digit s" and "s \<noteq> []" and "hd s \<noteq> CHR ''0''"
  shows "1 \<le> decimal_value s \<and> nat_digits (nat (decimal_value s)) = s"
  using assms
proof (induction s rule: rev_induct)
  case (snoc c s)
  have c: "0 \<le> digit_value c" "digit_value c < 10" "char_of (48 + nat (digit_value c)) = c"
    using snoc.prems(1) digit_range by auto
  show ?case
  proof (cases "s = []")
    case True
    have "digit_value c \<noteq> 0"
    proof
      assume "digit_value c = 0"
      with c(3) have "c = char_of (48 :: nat)" by simp
      also have "\<dots> = CHR ''0''" by code_simp
      finally have "c = CHR ''0''" .
      with snoc.prems(3) True show False by simp
    qed
    moreover have "nat (digit_value c) < 10" using c by simp
    ultimately show ?thesis
      using c True by (subst nat_digits.simps) (simp add: decimal_value_def)
  next
    case False
    with snoc have IH: "1 \<le> decimal_value s" "nat_digits (nat (decimal_value s)) = s" by auto
    let ?v = "decimal_value s" and ?d = "digit_value c"
    have n: "nat (?v * 10 + ?d) = nat ?v * 10 + nat ?d" using c IH(1) by (simp add: nat_add_distrib nat_mult_distrib)
    have d: "nat ?d < 10" using c by simp
    have "(nat ?v * 10 + nat ?d) div 10 = nat ?v" "(nat ?v * 10 + nat ?d) mod 10 = nat ?d"
      using d by simp_all
    moreover have "\<not> nat ?v * 10 + nat ?d < 10" using IH(1) by linarith
    ultimately have "nat_digits (nat (?v * 10 + ?d)) = s @ [c]"
      using c(3) IH(2) by (subst nat_digits.simps) (simp add: n)
    with c IH(1) show ?thesis by (simp add: decimal_value_snoc)
  qed
qed simp

lemma generation_canonical: "generation_ok b s \<Longrightarrow> py_str_int (decimal_value s) = s"
  using canonical_digits [of s] by (cases s) (simp_all add: generation_ok_def py_str_int_def)

lemma nat_digits_shape: "0 < n \<Longrightarrow> nat_digits n \<noteq> [] \<and> hd (nat_digits n) \<noteq> CHR ''0''"
proof (induction n rule: nat_digits.induct)
  case (1 n)
  show ?case
  proof (cases "n < 10")
    case True
    have "char_of (48 + n) \<noteq> CHR ''0''"
    proof
      assume "char_of (48 + n) = CHR ''0''"
      then have "(of_char (char_of (48 + n) :: char) :: nat) = of_char (CHR ''0'')" by simp
      with True 1(2) show False by simp
    qed
    with True show ?thesis by (subst (1 2) nat_digits.simps) simp
  next
    case False
    with 1 have "nat_digits (n div 10) \<noteq> [] \<and> hd (nat_digits (n div 10)) \<noteq> CHR ''0''" by simp
    with False show ?thesis by (subst (1 2) nat_digits.simps) simp
  qed
qed

lemma nat_digits_bounds: "n < 10 ^ Suc k \<Longrightarrow> 1 \<le> length (nat_digits n) \<and> length (nat_digits n) \<le> Suc k"
proof (induction k arbitrary: n)
  case 0
  then show ?case by (subst (1 2) nat_digits.simps) simp
next
  case (Suc k)
  show ?case
  proof (cases "n < 10")
    case True
    then show ?thesis by (subst (1 2) nat_digits.simps) simp
  next
    case False
    have "n div 10 < 10 ^ Suc k" using Suc.prems by (simp add: div_less_iff_less_mult mult.commute)
    from Suc.IH [OF this] False show ?thesis by (subst (1 2) nat_digits.simps) simp
  qed
qed

lemma generation_ok_number:
  assumes "1 \<le> n" and "n \<le> MAX_GENERATION - of_bool b"
  shows "generation_ok b (py_str_int n)"
proof -
  let ?s = "nat_digits (nat n)"
  have s: "py_str_int n = ?s" using assms by (simp add: py_str_int_def)
  have "nat n < 10 ^ Suc 18" using assms by (cases b) (simp_all add: MAX_GENERATION_def nat_less_iff)
  then have "1 \<le> length ?s \<and> length ?s \<le> 19" using nat_digits_bounds [of "nat n" 18] by simp
  moreover have d: "list_all is_digit ?s" by (rule nat_digits_is_digit)
  moreover have "is_digit c \<Longrightarrow> (of_char c :: nat) < 128" for c by (auto simp: is_digit_def code_in_def)
  then have "is_ascii ?s" using d by (auto simp: is_ascii_def list_all_iff)
  moreover have "hd ?s \<noteq> CHR ''0''" using nat_digits_shape assms by simp
  moreover have "decimal_value ?s = n" using assms by (simp add: decimal_value_nat_digits)
  ultimately show ?thesis using assms unfolding s by (simp add: generation_ok_def)
qed

lemma generation_ok_pos: "generation_ok b s \<Longrightarrow> 1 \<le> decimal_value s"
  using canonical_digits [of s] by (cases s) (simp_all add: generation_ok_def)

lemma validate_window_Inr:
  "validate_window w = Inr u \<longleftrightarrow> (\<exists>s d r. w = \<lparr>starts = Tick s, dispatch_until = Tick d, reconcile_until = Tick r\<rparr> \<and>
     0 \<le> s \<and> s < d \<and> d \<le> r \<and> r - s \<le> 300)"
  by (cases w) (auto simp: validate_window_def split: tick.splits)

lemma validate_control_Inr:
  "validate_control r = Inr (g, s) \<Longrightarrow> generation_ok False g \<and> (s = ''open'' \<or> s = ''closed'')"
  by (auto simp: validate_control_def bind_res_Inr generation_Inr
      split: reply.splits list.splits pyval.splits if_splits)

end
