(* ===== verification/Operator_Journal.thy ===== *)
theory Operator_Journal
  imports Latch Control_Types
begin

text \<open>
  The external operator journal of the D1 control protocol (class \<open>SQLiteJournal\<close> of
  \<open>probes/pmb1-native-d1-binding/journal.py\<close>): its five tables as a record, every operation
  as a function from the tables to a value and new tables or a refusal, and the transaction
  around an operation with its four clock guards. The stored text of an intent is the
  canonical encoding of the intent, so the table holds the intent itself; the phase
  \<open>dispatched\<close> column is a boolean.
\<close>

section \<open>Tables\<close>

record entry =
  e_intent :: intent
  e_phase :: string
  e_dispatched :: bool
  e_root :: string
  e_ordinal :: int
  e_successor :: "string option"
  e_confirmation :: "string option"
  e_reads :: int
  e_reconciliations :: int

record request =
  q_text :: string
  q_reserved :: int
  q_received :: "int option"

record tables =
  b_target :: string
  b_packet :: string
  b_active :: "string option"
  b_ordinal :: int
  b_bytes :: int
  entries :: "(string \<times> entry) list"
  requests :: "(int \<times> request) list"
  allocations :: "(int \<times> (int \<times> int)) list"
  batches :: "(string \<times> int) list"

type_synonym 'a jop = "tables \<Rightarrow> ('a \<times> tables) res"

text \<open>\<open>provision\<close>: the empty tables of a new journal.\<close>

definition provisioned :: "string \<Rightarrow> string \<Rightarrow> tables" where
  "provisioned tid packet = \<lparr>b_target = tid, b_packet = packet, b_active = None, b_ordinal = 0,
     b_bytes = 0, entries = [], requests = [], allocations = [], batches = []\<rparr>"


section \<open>Guards and transactions\<close>

definition guard :: "tick res \<Rightarrow> tick \<Rightarrow> unit res" where
  "guard reading deadline = bind_res reading (\<lambda>now. case (now, deadline) of
     (Tick n, Tick d) \<Rightarrow> require (0 \<le> n \<and> n < d) ''external_journal_deadline''
   | _ \<Rightarrow> Inl (Refused ''external_journal_deadline''))"

text \<open>What the clock answers at the four guards of one transaction.\<close>

record readings =
  at_start :: "tick res"
  at_begin :: "tick res"
  at_commit :: "tick res"
  at_return :: "tick res"

text \<open>
  A refusal or an exception before the commit rolls back; one after the commit leaves the
  new tables and loses the acknowledgement.
\<close>

definition transaction :: "string \<Rightarrow> string \<Rightarrow> readings \<Rightarrow> tick \<Rightarrow> 'a jop \<Rightarrow> tables \<Rightarrow> 'a res \<times> tables" where
  "transaction tid packet rd deadline f t =
     (case bind_res (guard (at_start rd) deadline) (\<lambda>_.
           bind_res (require (b_target t = tid \<and> b_packet t = packet) ''external_journal_binding'') (\<lambda>_.
           bind_res (guard (at_begin rd) deadline) (\<lambda>_.
           bind_res (f t) (\<lambda>out.
           bind_res (guard (at_commit rd) deadline) (\<lambda>_. Inr out))))) of
        Inl e \<Rightarrow> (Inl e, t)
      | Inr (x, t') \<Rightarrow> (bind_res (guard (at_return rd) deadline) (\<lambda>_. Inr x), t'))"


section \<open>Operations on entries\<close>

definition find_entry :: "string \<Rightarrow> tables \<Rightarrow> entry res" where
  "find_entry k t = (case map_of (entries t) k of
     None \<Rightarrow> Inl (Refused ''external_journal_unknown_key'') | Some e \<Rightarrow> Inr e)"

definition update_entry :: "string \<Rightarrow> (entry \<Rightarrow> entry) \<Rightarrow> tables \<Rightarrow> tables" where
  "update_entry k f t = t\<lparr>entries := map (\<lambda>(k', e). (k', if k' = k then f e else e)) (entries t)\<rparr>"

definition new_entry :: "intent \<Rightarrow> string \<Rightarrow> int \<Rightarrow> entry" where
  "new_entry i root n = \<lparr>e_intent = i, e_phase = ''latched'', e_dispatched = False, e_root = root, e_ordinal = n,
     e_successor = None, e_confirmation = None, e_reads = 0, e_reconciliations = 0\<rparr>"

definition insert_entry :: "intent \<Rightarrow> string \<Rightarrow> int \<Rightarrow> tables \<Rightarrow> tables" where
  "insert_entry i root n t =
     t\<lparr>entries := entries t @ [(key i, new_entry i root n)], b_active := Some (key i)\<rparr>"

definition is_candidate :: "string \<Rightarrow> bool" where
  "is_candidate s \<longleftrightarrow> length s = 64 \<and> list_all is_hex s"

definition valid_intent :: "tables \<Rightarrow> intent \<Rightarrow> unit res" where
  "valid_intent t i =
     bind_res (require (target_id i = b_target t) ''external_journal_intent'') (\<lambda>_.
     bind_res (validate_window (window i)) (\<lambda>_.
     bind_res (generation True (PStr (expected i))) (\<lambda>_.
     require (operation i \<in> {''close'', ''reopen''} \<and> 1 \<le> length (key i) \<and> length (key i) \<le> 128 \<and>
       is_ascii (key i) \<and> is_candidate (candidate i) \<and> transition_limit i \<in> {1, 2, 3})
       ''external_journal_intent'')))"

definition latch :: "intent \<Rightarrow> bool jop" where
  "latch i t =
     bind_res (valid_intent t i) (\<lambda>_.
     bind_res (require (generation_number i + transition_limit i \<le> MAX_GENERATION) ''external_journal_root_headroom'') (\<lambda>_.
     if entries t \<noteq> [] then Inr (False, t) else Inr (True, insert_entry i (key i) 1 t)))"

text \<open>What \<open>get\<close> returns of an entry (\<open>JournalEntry\<close>).\<close>

definition get :: "string \<Rightarrow> entry jop" where
  "get k t = bind_res (find_entry k t) (\<lambda>e. Inr (e, t))"

text \<open>The comparisons of \<open>advance\<close>, in its order; any mismatch returns \<open>False\<close>.\<close>

definition receipt_matches :: "confirmed_receipt \<Rightarrow> intent \<Rightarrow> bool" where
  "receipt_matches r p \<longleftrightarrow> predecessor r = p \<and> receipt_status r = ''CONFIRMED'' \<and>
     status (receipt_result r) = ''confirmed'' \<and>
     reason (receipt_result r) = ''one_row_and_independent_readback'' \<and>
     observed_generation (receipt_result r) = Some (next_generation p) \<and>
     observed_state (receipt_result r) = Some (target p)"

definition may_advance :: "intent \<Rightarrow> intent \<Rightarrow> confirmed_receipt \<Rightarrow> entry \<Rightarrow> intent \<Rightarrow> tables \<Rightarrow> bool" where
  "may_advance p s r row root t \<longleftrightarrow>
     b_active t = Some (key p) \<and> e_intent row = p \<and> e_phase row = ''confirmed'' \<and> e_dispatched row \<and>
     e_successor row = None \<and> e_ordinal row < transition_limit root \<and> 1 \<le> e_ordinal row \<and>
     generation_number root + transition_limit root \<le> MAX_GENERATION \<and>
     expected p = py_str_int (generation_number root + e_ordinal row - 1) \<and>
     generation_number s + transition_limit root - e_ordinal row \<le> MAX_GENERATION \<and>
     key s \<noteq> key p \<and> candidate s = candidate p \<and> candidate s = candidate root \<and>
     window s = window root \<and> transition_limit s = transition_limit root \<and>
     operation s \<noteq> operation p \<and> expected s = next_generation p \<and> receipt_matches r p \<and>
     \<not> list_ex (\<lambda>(k, e). k = key s \<or> e_confirmation e = Some (reference r)) (entries t)"

definition advance :: "intent \<Rightarrow> intent \<Rightarrow> confirmed_receipt \<Rightarrow> bool jop" where
  "advance p s r t =
     bind_res (valid_intent t p) (\<lambda>_. bind_res (valid_intent t s) (\<lambda>_.
     bind_res (find_entry (key p) t) (\<lambda>row.
     bind_res (find_entry (e_root row) t) (\<lambda>root.
     bind_res (valid_intent t (e_intent root)) (\<lambda>_.
     if may_advance p s r row (e_intent root) t
     then Inr (True, insert_entry s (e_root row) (e_ordinal row + 1)
        (update_entry (key p) (\<lambda>e. e\<lparr>e_successor := Some (key s), e_confirmation := Some (reference r)\<rparr>) t))
     else Inr (False, t))))))"

definition spend_read :: "string \<Rightarrow> bool jop" where
  "spend_read k t =
     bind_res (find_entry k t) (\<lambda>row. bind_res (find_entry (e_root row) t) (\<lambda>root.
     if e_reads root \<ge> read_limit (e_intent root) then Inr (False, t)
     else Inr (True, update_entry (e_root row) (\<lambda>e. e\<lparr>e_reads := e_reads e + 1\<rparr>) t)))"

definition claim_dispatch :: "string \<Rightarrow> bool jop" where
  "claim_dispatch k t =
     bind_res (find_entry k t) (\<lambda>row.
     if e_phase row \<noteq> ''latched'' \<or> e_dispatched row \<or> b_active t \<noteq> Some k then Inr (False, t)
     else Inr (True, update_entry k (\<lambda>e. e\<lparr>e_phase := ''dispatching'', e_dispatched := True\<rparr>) t))"

definition claim_reconcile :: "string \<Rightarrow> bool jop" where
  "claim_reconcile k t =
     bind_res (find_entry k t) (\<lambda>row. bind_res (find_entry (e_root row) t) (\<lambda>root.
     if \<not> e_dispatched row \<or> e_reconciliations root \<ge> 2 then Inr (False, t)
     else Inr (True, update_entry (e_root row) (\<lambda>e. e\<lparr>e_reconciliations := e_reconciliations e + 1\<rparr>) t)))"

definition settle :: "string \<Rightarrow> string \<Rightarrow> unit jop" where
  "settle k phase t =
     bind_res (require (phase \<in> {''refused'', ''unknown'', ''confirmed''}) ''external_journal_phase'') (\<lambda>_.
     bind_res (find_entry k t) (\<lambda>row.
     bind_res (require (e_successor row = None) ''external_journal_consumed'') (\<lambda>_.
     bind_res (require (phase = ''confirmed'' \<longrightarrow> e_dispatched row) ''external_journal_unclaimed_confirmation'') (\<lambda>_.
     Inr ((), update_entry k (\<lambda>e. e\<lparr>e_phase := phase\<rparr>) t)))))"


section \<open>Operations on requests\<close>

definition charge_request :: "string \<Rightarrow> int \<Rightarrow> tables \<Rightarrow> tables" where
  "charge_request query allowance t =
     t\<lparr>requests := requests t @ [(b_ordinal t, \<lparr>q_text = query, q_reserved = allowance, q_received = None\<rparr>)],
       b_ordinal := b_ordinal t + 1, b_bytes := b_bytes t + allowance\<rparr>"

text \<open>An ordinal that is already in the table violates the primary key.\<close>

definition reserve_request :: "string \<Rightarrow> int \<Rightarrow> int \<Rightarrow> int \<Rightarrow> int jop" where
  "reserve_request query allowance max_total max_queries t =
     bind_res (require (1 \<le> utf8_length query \<and> utf8_length query \<le> 256 * 1024 \<and> 1 \<le> allowance \<and> allowance \<le> 512 * 1024 \<and>
       1 \<le> max_total \<and> max_total \<le> 16 * 1024 * 1024 \<and> 1 \<le> max_queries \<and> max_queries \<le> 2048)
       ''native_d1_request_budget_shape'') (\<lambda>_.
     bind_res (require (b_ordinal t < max_queries \<and> b_bytes t + allowance \<le> max_total)
       ''native_d1_budget_exhausted'') (\<lambda>_.
     if map_of (requests t) (b_ordinal t) \<noteq> None then Inl Crash
     else Inr (b_ordinal t, charge_request query allowance t)))"

definition remaining :: "int \<Rightarrow> (int \<times> int) jop" where
  "remaining max_total t = Inr ((b_ordinal t, max_total - b_bytes t), t)"

definition received :: "int \<Rightarrow> int \<Rightarrow> unit jop" where
  "received n count t = (case map_of (requests t) n of
     None \<Rightarrow> Inl (Refused ''native_d1_accounting'')
   | Some q \<Rightarrow> bind_res (require (q_received q = None \<and> 0 \<le> count \<and> count \<le> q_reserved q) ''native_d1_accounting'')
       (\<lambda>_. Inr ((), t\<lparr>requests := map (\<lambda>(k, r). (k, if k = n then r\<lparr>q_received := Some count\<rparr> else r)) (requests t),
                       b_bytes := b_bytes t - (q_reserved q - count)\<rparr>)))"

record limits =
  l_requests :: int
  l_statements :: int
  l_request_bytes :: int
  l_response_bytes :: int

definition limits_shape :: "int \<Rightarrow> int \<Rightarrow> int \<Rightarrow> limits \<Rightarrow> bool" where
  "limits_shape statements request_bytes allowance l \<longleftrightarrow>
     statements \<in> {1, 2} \<and> 1 \<le> request_bytes \<and> request_bytes \<le> 256 * 1024 \<and>
     1 \<le> allowance \<and> allowance \<le> 512 * 1024 \<and>
     0 < l_requests l \<and> 0 < l_statements l \<and> 0 < l_request_bytes l \<and> 0 < l_response_bytes l \<and>
     l_requests l \<le> 2048 \<and> l_statements l \<le> 2048 \<and> l_request_bytes l \<le> 16 * 1024 * 1024 \<and>
     l_response_bytes l \<le> 16 * 1024 * 1024"

definition extra_statements :: "tables \<Rightarrow> int" where
  "extra_statements t = sum_list (map (\<lambda>(_, s, _). s - 1) (allocations t))"

definition request_bytes_used :: "tables \<Rightarrow> int" where
  "request_bytes_used t = sum_list (map (\<lambda>(_, _, b). b) (allocations t))"

text \<open>The intent of a two-statement batch is spent once; a read carries no intent.\<close>

definition spend_batch :: "int \<Rightarrow> intent option \<Rightarrow> tables \<Rightarrow> tables res" where
  "spend_batch statements i t =
     (if statements = 2 then (case i of
        None \<Rightarrow> Inl (Refused ''exact_successor_intent_required'')
      | Some i \<Rightarrow>
          bind_res (valid_intent t i) (\<lambda>_. bind_res (find_entry (key i) t) (\<lambda>e.
          bind_res (require (e_intent e = i \<and> e_phase e = ''dispatching'' \<and> e_dispatched e \<and>
             b_active t = Some (key i) \<and> map_of (batches t) (key i) = None)
             ''exact_successor_dispatch_already_spent'') (\<lambda>_.
          if list_ex (\<lambda>(_, n). n = b_ordinal t) (batches t) then Inl Crash
          else Inr (t\<lparr>batches := batches t @ [(key i, b_ordinal t)]\<rparr>)))))
      else bind_res (require (i = None) ''exact_successor_read_intent'') (\<lambda>_. Inr t))"

definition reserve_exact_request ::
    "string \<Rightarrow> int \<Rightarrow> int \<Rightarrow> int \<Rightarrow> limits \<Rightarrow> intent option \<Rightarrow> int jop" where
  "reserve_exact_request descriptor statements allowance request_bytes l i t =
     bind_res (require (limits_shape statements request_bytes allowance l) ''exact_successor_allocation_shape'') (\<lambda>_.
     bind_res (require (length (requests t) = length (allocations t)) ''exact_successor_prior_allocation_unknown'') (\<lambda>_.
     bind_res (require (b_ordinal t < l_requests l \<and>
        b_ordinal t + extra_statements t + statements \<le> l_statements l \<and>
        request_bytes_used t + request_bytes \<le> l_request_bytes l \<and>
        b_bytes t + allowance \<le> l_response_bytes l) ''exact_successor_budget_exhausted'') (\<lambda>_.
     bind_res (spend_batch statements i t) (\<lambda>u.
     if map_of (requests u) (b_ordinal u) \<noteq> None \<or> map_of (allocations u) (b_ordinal u) \<noteq> None then Inl Crash
     else Inr (b_ordinal u, (charge_request descriptor allowance u)
       \<lparr>allocations := allocations u @ [(b_ordinal u, statements, request_bytes)]\<rparr>)))))"

end
