(* ===== verification/Operator_Invariants.thy ===== *)
theory Operator_Invariants
  imports Operator_Journal
begin

text \<open>
  What the operator journal keeps. It is a one-shot latch for dispatches; its entries form
  one chain of adjacent transitions that starts at the root intent, stays within the root's
  limits, and is never rewritten once consumed; and its request counters account for every
  reserved byte.
\<close>

section \<open>Lookup and update\<close>

lemma map_of_update [simp]:
  "map_of (entries (update_entry k f t)) k' = (if k' = k then map_option f (map_of (entries t) k) else map_of (entries t) k')"
proof -
  have "map_of (map (\<lambda>(k', e). (k', if k' = k then f e else e)) es) k' =
      (if k' = k then map_option f (map_of es k) else map_of es k')" for es
    by (induction es) auto
  then show ?thesis by (simp add: update_entry_def)
qed

lemma update_entry_keys [simp]: "map fst (entries (update_entry k f t)) = map fst (entries t)"
  by (simp add: update_entry_def comp_def split_def)

lemma update_entry_rest [simp]:
  "b_target (update_entry k f t) = b_target t" "b_packet (update_entry k f t) = b_packet t"
  "b_active (update_entry k f t) = b_active t" "b_ordinal (update_entry k f t) = b_ordinal t"
  "b_bytes (update_entry k f t) = b_bytes t" "requests (update_entry k f t) = requests t"
  "allocations (update_entry k f t) = allocations t" "batches (update_entry k f t) = batches t"
  by (simp_all add: update_entry_def)

lemma find_entry_Inr: "find_entry k t = Inr e \<longleftrightarrow> map_of (entries t) k = Some e"
  by (simp add: find_entry_def split: option.split)


section \<open>Dispatch as a one-shot latch\<close>

definition claimed :: "tables \<Rightarrow> string set" where
  "claimed t = {k. \<exists>e. map_of (entries t) k = Some e \<and> e_dispatched e}"

definition claim :: "string \<Rightarrow> tables \<Rightarrow> tables res" where
  "claim k t = bind_res (claim_dispatch k t) (\<lambda>(won, t'). if won then Inr t' else Inl (Refused ''dispatch_claim_unconfirmed''))"

lemma claim_dispatch_Inr:
  "claim_dispatch k t = Inr (won, t') \<longleftrightarrow> (\<exists>e. map_of (entries t) k = Some e \<and>
     (won \<longleftrightarrow> e_phase e = ''latched'' \<and> \<not> e_dispatched e \<and> b_active t = Some k) \<and>
     t' = (if won then update_entry k (\<lambda>e. e\<lparr>e_phase := ''dispatching'', e_dispatched := True\<rparr>) t else t))"
  by (auto simp: claim_dispatch_def bind_res_Inr find_entry_Inr)

lemma claim_Inr: "claim k t = Inr t' \<longleftrightarrow> claim_dispatch k t = Inr (True, t')"
  by (auto simp: claim_def bind_res_Inr split: if_splits)

interpretation oj: one_shot claimed "\<lambda>k. k" claim
  by unfold_locales (auto simp: claim_Inr claim_dispatch_Inr claimed_def)

lemma claimed_update:
  "(\<And>e. e_dispatched (f e) = e_dispatched e) \<Longrightarrow> claimed (update_entry k f t) = claimed t"
  by (auto simp: claimed_def)

lemma claimed_insert: "map_of (entries t) (key i) = None \<Longrightarrow> claimed (insert_entry i r n t) = claimed t"
  by (auto simp: claimed_def insert_entry_def new_entry_def map_add_def split: option.splits)


section \<open>The chain of transitions\<close>

definition same_scope :: "intent \<Rightarrow> intent \<Rightarrow> bool" where
  "same_scope a b \<longleftrightarrow> candidate a = candidate b \<and> window a = window b \<and> target_id a = target_id b \<and>
     transition_limit a = transition_limit b"

text \<open>A consumed entry and its successor.\<close>

definition follows :: "string \<times> entry \<Rightarrow> string \<times> entry \<Rightarrow> bool" where
  "follows x y \<longleftrightarrow> e_successor (snd x) = Some (fst y) \<and> e_confirmation (snd x) \<noteq> None \<and>
     e_phase (snd x) = ''confirmed'' \<and> e_dispatched (snd x) \<and> e_ordinal (snd y) = e_ordinal (snd x) + 1 \<and>
     generation_number (e_intent (snd y)) = generation_number (e_intent (snd x)) + 1 \<and>
     operation (e_intent (snd y)) \<noteq> operation (e_intent (snd x)) \<and>
     same_scope (e_intent (snd y)) (e_intent (snd x)) \<and> e_root (snd y) = e_root (snd x)"

definition entry_ok :: "tables \<Rightarrow> string \<times> entry \<Rightarrow> bool" where
  "entry_ok t x \<longleftrightarrow> key (e_intent (snd x)) = fst x \<and> valid_intent t (e_intent (snd x)) = Inr () \<and>
     (e_phase (snd x) = ''confirmed'' \<longrightarrow> e_dispatched (snd x))"

definition root_ok :: "int \<Rightarrow> string \<times> entry \<Rightarrow> bool" where
  "root_ok n x \<longleftrightarrow> e_ordinal (snd x) = 1 \<and> e_root (snd x) = fst x \<and>
     n \<le> transition_limit (e_intent (snd x)) \<and>
     generation_number (e_intent (snd x)) + transition_limit (e_intent (snd x)) \<le> MAX_GENERATION \<and>
     0 \<le> e_reads (snd x) \<and> e_reads (snd x) \<le> read_limit (e_intent (snd x)) \<and>
     0 \<le> e_reconciliations (snd x) \<and> e_reconciliations (snd x) \<le> 2"

definition tip_ok :: "tables \<Rightarrow> string \<times> entry \<Rightarrow> bool" where
  "tip_ok t x \<longleftrightarrow> b_active t = Some (fst x) \<and> e_successor (snd x) = None \<and> e_confirmation (snd x) = None"

definition chain :: "tables \<Rightarrow> bool" where
  "chain t \<longleftrightarrow> distinct (map fst (entries t)) \<and> (\<forall>x\<in>set (entries t). entry_ok t x) \<and>
     successively follows (entries t) \<and>
     distinct (keys_used (\<lambda>x. e_confirmation (snd x)) (entries t)) \<and>
     (entries t \<noteq> [] \<longrightarrow> root_ok (int (length (entries t))) (hd (entries t)) \<and> tip_ok t (last (entries t)))"

lemma chain_provisioned: "chain (provisioned tid packet)"
  by (simp add: chain_def provisioned_def)

lemma successively_snoc:
  "successively P (xs @ [x]) \<longleftrightarrow> successively P xs \<and> (xs \<noteq> [] \<longrightarrow> P (last xs) x)"
  by (auto simp: successively_append_iff)

lemma chain_ordinal:
  assumes "successively follows es" and "es \<noteq> []"
  shows "e_ordinal (snd (last es)) = e_ordinal (snd (hd es)) + int (length es) - 1"
  using assms
proof (induction es rule: rev_induct)
  case (snoc x es)
  then show ?case by (cases "es = []") (auto simp: successively_snoc follows_def)
qed simp

lemma chain_generation:
  assumes "successively follows es" and "es \<noteq> []"
  shows "generation_number (e_intent (snd (last es))) =
    generation_number (e_intent (snd (hd es))) + int (length es) - 1"
  using assms
proof (induction es rule: rev_induct)
  case (snoc x es)
  then show ?case by (cases "es = []") (auto simp: successively_snoc follows_def)
qed simp

lemma chain_scope:
  assumes "successively follows es" and "x \<in> set es"
  shows "same_scope (e_intent (snd x)) (e_intent (snd (hd es))) \<and> e_root (snd x) = e_root (snd (hd es))"
  using assms
proof (induction es arbitrary: x rule: rev_induct)
  case (snoc y es)
  show ?case
  proof (cases "es = []")
    case True
    with snoc.prems(2) show ?thesis by (simp add: same_scope_def)
  next
    case False
    have es: "successively follows es" and y: "follows (last es) y"
      using snoc.prems(1) False by (simp_all add: successively_snoc)
    show ?thesis
    proof (cases "x = y")
      case True
      from snoc.IH [OF es, of "last es"] False y True show ?thesis
        by (auto simp: follows_def same_scope_def)
    next
      case False
      with snoc.IH [OF es, of x] snoc.prems(2) \<open>es \<noteq> []\<close> show ?thesis by simp
    qed
  qed
qed simp

text \<open>Only the last entry has no successor.\<close>

lemma no_successor_last:
  assumes "successively follows es" and "x \<in> set es" and "e_successor (snd x) = None"
  shows "x = last es"
  using assms
proof (induction es rule: rev_induct)
  case (snoc y es)
  show ?case
  proof (rule ccontr)
    assume "x \<noteq> last (es @ [y])"
    with snoc.prems have x: "x \<in> set es" by simp
    with snoc have "x = last es" "follows (last es) y" by (auto simp: successively_snoc)
    with snoc.prems(3) show False by (simp add: follows_def)
  qed
qed simp

lemma map_of_last:
  "distinct (map fst es) \<Longrightarrow> es \<noteq> [] \<Longrightarrow> map_of es (fst (last es)) = Some (snd (last es))"
  by (simp add: map_of_eq_Some_iff)

lemma map_of_hd: "es \<noteq> [] \<Longrightarrow> map_of es (fst (hd es)) = Some (snd (hd es))"
  by (cases es) auto

lemma update_last:
  assumes "distinct (map fst (entries t))" and "entries t = pre @ [(k, e)]"
  shows "entries (update_entry k f t) = pre @ [(k, f e)]"
proof -
  have "fst x \<noteq> k" if "x \<in> set pre" for x
    using assms that by force
  then have "map (\<lambda>(k', e). (k', if k' = k then f e else e)) pre = pre"
    by (intro map_idI) auto
  with assms(2) show ?thesis by (simp add: update_entry_def)
qed


section \<open>Every operation keeps the chain\<close>

lemma valid_intent_cong: "b_target t' = b_target t \<Longrightarrow> valid_intent t' i = valid_intent t i"
  by (simp add: valid_intent_def)

lemma chain_tables:
  assumes "b_target t' = b_target t" and "b_active t' = b_active t" and "entries t' = entries t" and "chain t"
  shows "chain t'"
  using assms(2-) valid_intent_cong [OF assms(1)] by (simp add: chain_def entry_ok_def tip_ok_def)

text \<open>An update of the counters of one entry.\<close>

lemma chain_counters:
  assumes "chain t"
    and f: "\<And>e. e_intent (f e) = e_intent e" "\<And>e. e_phase (f e) = e_phase e" "\<And>e. e_dispatched (f e) = e_dispatched e"
      "\<And>e. e_root (f e) = e_root e" "\<And>e. e_ordinal (f e) = e_ordinal e" "\<And>e. e_successor (f e) = e_successor e"
      "\<And>e. e_confirmation (f e) = e_confirmation e"
    and root: "entries t \<noteq> [] \<Longrightarrow> fst (hd (entries t)) = k \<Longrightarrow>
      root_ok (int (length (entries t))) (k, f (snd (hd (entries t))))"
  shows "chain (update_entry k f t)"
proof -
  let ?g = "\<lambda>x. (fst x, if fst x = k then f (snd x) else snd x)"
  have e: "entries (update_entry k f t) = map ?g (entries t)"
    by (simp add: update_entry_def split_def)
  have "follows (?g x) (?g y) = follows x y" for x y by (simp add: follows_def f)
  then have "successively follows (map ?g (entries t)) = successively follows (entries t)"
    unfolding successively_map by simp
  moreover have "keys_used (\<lambda>x. e_confirmation (snd x)) (map ?g xs) = keys_used (\<lambda>x. e_confirmation (snd x)) xs" for xs
    by (induction xs) (simp_all add: keys_used_def List.map_filter_def f)
  moreover have "valid_intent (update_entry k f t) i = valid_intent t i" for i
    by (simp add: valid_intent_def)
  moreover have "root_ok (int (length (entries t))) (?g (hd (entries t)))" if "entries t \<noteq> []"
    using that assms(1) root by (cases "fst (hd (entries t)) = k") (auto simp: chain_def)
  ultimately show ?thesis
    using assms(1) unfolding chain_def e
    by (auto simp: entry_ok_def tip_ok_def hd_map last_map comp_def f)
qed

text \<open>An update of the phase of the last entry.\<close>

lemma chain_phase:
  assumes "chain t" and last: "entries t \<noteq> []" "fst (last (entries t)) = k"
    and f: "\<And>e. e_intent (f e) = e_intent e" "\<And>e. e_root (f e) = e_root e" "\<And>e. e_ordinal (f e) = e_ordinal e"
      "\<And>e. e_successor (f e) = e_successor e" "\<And>e. e_confirmation (f e) = e_confirmation e"
      "\<And>e. e_reads (f e) = e_reads e" "\<And>e. e_reconciliations (f e) = e_reconciliations e"
    and phase: "e_phase (f (snd (last (entries t)))) = ''confirmed'' \<Longrightarrow> e_dispatched (f (snd (last (entries t))))"
  shows "chain (update_entry k f t)"
proof -
  obtain pre e where t: "entries t = pre @ [(k, e)]"
    using last by (metis append_butlast_last_id prod.collapse)
  have d: "distinct (map fst (entries t))" using assms(1) by (simp add: chain_def)
  note new = update_last [OF d t, of f]
  have "valid_intent (update_entry k f t) i = valid_intent t i" for i
    by (simp add: valid_intent_def)
  moreover have "follows x (k, f e) = follows x (k, e)" for x by (simp add: follows_def f)
  ultimately show ?thesis
    using assms(1) phase unfolding chain_def new t
    by (cases "pre = []") (auto simp: successively_snoc entry_ok_def tip_ok_def root_ok_def f keys_used_single)
qed

lemma chain_active:
  assumes "chain t" and "entries t \<noteq> []" and "b_active t = Some k"
  shows "fst (last (entries t)) = k"
  using assms by (simp add: chain_def tip_ok_def)

lemma chain_root_entry:
  assumes "chain t" and "map_of (entries t) k = Some row"
  shows "entries t \<noteq> []" and "e_root row = fst (hd (entries t))"
    and "map_of (entries t) (e_root row) = Some (snd (hd (entries t)))"
proof -
  have mem: "(k, row) \<in> set (entries t)" using map_of_SomeD [OF assms(2)] .
  then show ne: "entries t \<noteq> []" by auto
  have "e_root row = e_root (snd (hd (entries t)))"
    using chain_scope [of "entries t" "(k, row)"] assms(1) mem by (simp add: chain_def)
  with assms(1) ne show r: "e_root row = fst (hd (entries t))"
    by (auto simp: chain_def root_ok_def)
  show "map_of (entries t) (e_root row) = Some (snd (hd (entries t)))"
    unfolding r by (rule map_of_hd [OF ne])
qed

lemma chain_latch:
  assumes "chain t" and "latch i t = Inr (won, t')"
  shows "chain t'"
proof (cases "entries t = []")
  case False
  with assms show ?thesis by (auto simp: latch_def bind_res_Inr)
next
  case True
  with assms(2) have v: "valid_intent t i = Inr ()" "generation_number i + transition_limit i \<le> MAX_GENERATION"
    and t': "t' = insert_entry i (key i) 1 t" by (auto simp: latch_def bind_res_Inr)
  then have lim: "1 \<le> transition_limit i"
    by (auto simp: valid_intent_def bind_res_Inr)
  have "valid_intent t' j = valid_intent t j" for j by (simp add: t' insert_entry_def valid_intent_def)
  with v lim True show ?thesis
    by (simp add: chain_def t' insert_entry_def new_entry_def entry_ok_def root_ok_def tip_ok_def
        keys_used_single read_limit_def)
qed

lemma chain_spend_read:
  assumes "chain t" and "spend_read k t = Inr (won, t')"
  shows "chain t'"
proof -
  from assms(2) obtain row root where r: "map_of (entries t) k = Some row" "map_of (entries t) (e_root row) = Some root"
    and t': "if e_reads root \<ge> read_limit (e_intent root) then t' = t
      else t' = update_entry (e_root row) (\<lambda>e. e\<lparr>e_reads := e_reads e + 1\<rparr>) t"
    by (auto simp: spend_read_def bind_res_Inr find_entry_Inr split: if_splits)
  have root: "root = snd (hd (entries t))" "e_root row = fst (hd (entries t))" "entries t \<noteq> []"
    using chain_root_entry [OF assms(1) r(1)] r(2) by auto
  have "root_ok (int (length (entries t))) (hd (entries t))" using assms(1) root(3) by (simp add: chain_def)
  then show ?thesis
    using t' root assms(1) by (auto intro!: chain_counters simp: root_ok_def split: if_splits)
qed

lemma chain_claim_reconcile:
  assumes "chain t" and "claim_reconcile k t = Inr (won, t')"
  shows "chain t'"
proof -
  from assms(2) obtain row root where r: "map_of (entries t) k = Some row" "map_of (entries t) (e_root row) = Some root"
    and t': "if \<not> e_dispatched row \<or> e_reconciliations root \<ge> 2 then t' = t
      else t' = update_entry (e_root row) (\<lambda>e. e\<lparr>e_reconciliations := e_reconciliations e + 1\<rparr>) t"
    by (auto simp: claim_reconcile_def bind_res_Inr find_entry_Inr split: if_splits)
  have root: "root = snd (hd (entries t))" "e_root row = fst (hd (entries t))" "entries t \<noteq> []"
    using chain_root_entry [OF assms(1) r(1)] r(2) by auto
  have "root_ok (int (length (entries t))) (hd (entries t))" using assms(1) root(3) by (simp add: chain_def)
  then show ?thesis
    using t' root assms(1) by (auto intro!: chain_counters simp: root_ok_def split: if_splits)
qed

lemma chain_claim_dispatch:
  assumes "chain t" and "claim_dispatch k t = Inr (won, t')"
  shows "chain t'"
proof -
  from assms(2) obtain e where e: "map_of (entries t) k = Some e" and w: "won \<longleftrightarrow> e_phase e = ''latched'' \<and>
      \<not> e_dispatched e \<and> b_active t = Some k"
    and t': "t' = (if won then update_entry k (\<lambda>e. e\<lparr>e_phase := ''dispatching'', e_dispatched := True\<rparr>) t else t)"
    unfolding claim_dispatch_Inr by blast
  have ne: "entries t \<noteq> []" using e by auto
  show ?thesis
  proof (cases won)
    case True
    with w have "fst (last (entries t)) = k" using chain_active [OF assms(1) ne] by blast
    with True t' assms(1) ne show ?thesis by (auto intro!: chain_phase)
  next
    case False
    with t' assms(1) show ?thesis by simp
  qed
qed

lemma chain_settle:
  assumes "chain t" and "settle k phase t = Inr (u, t')"
  shows "chain t'"
proof -
  from assms(2) obtain row where r: "map_of (entries t) k = Some row" "e_successor row = None"
    "phase = ''confirmed'' \<longrightarrow> e_dispatched row" and t': "t' = update_entry k (\<lambda>e. e\<lparr>e_phase := phase\<rparr>) t"
    by (auto simp: settle_def bind_res_Inr find_entry_Inr)
  have "(k, row) = last (entries t)"
    using no_successor_last [of "entries t" "(k, row)"] assms(1) r map_of_SomeD [OF r(1)] by (simp add: chain_def)
  then have "fst (last (entries t)) = k" "snd (last (entries t)) = row" by (metis fst_conv snd_conv)+
  moreover have "entries t \<noteq> []" using r(1) by auto
  ultimately show ?thesis
    unfolding t' using assms(1) r(3) by (intro chain_phase) auto
qed

lemma valid_intent_generation: "valid_intent t i = Inr u \<Longrightarrow> generation_ok True (expected i)"
  by (auto simp: valid_intent_def bind_res_Inr generation_Inr)

lemma advance_Inr:
  assumes "advance p s r t = Inr (True, t')"
  obtains row root where "map_of (entries t) (key p) = Some row" "map_of (entries t) (e_root row) = Some root"
    "valid_intent t p = Inr ()" "valid_intent t s = Inr ()" "may_advance p s r row (e_intent root) t"
    "t' = insert_entry s (e_root row) (e_ordinal row + 1)
        (update_entry (key p) (\<lambda>e. e\<lparr>e_successor := Some (key s), e_confirmation := Some (reference r)\<rparr>) t)"
  using assms by (auto simp: advance_def bind_res_Inr find_entry_Inr split: if_splits)

lemma advance_False: "advance p s r t = Inr (False, t') \<Longrightarrow> t' = t"
  by (auto simp: advance_def bind_res_Inr split: if_splits)

text \<open>What a granted advance knows of the predecessor: it is the tip of the chain.\<close>

lemma advance_tip:
  assumes "chain t" and "map_of (entries t) (key p) = Some row" and "map_of (entries t) (e_root row) = Some root"
    and "may_advance p s r row (e_intent root) t"
  shows "entries t \<noteq> []" "last (entries t) = (key p, row)" "root = snd (hd (entries t))"
    "e_ordinal row = int (length (entries t))" "int (length (entries t)) < transition_limit (e_intent root)"
    "same_scope p (e_intent root)"
proof -
  show ne: "entries t \<noteq> []" using assms(2) by auto
  have act: "b_active t = Some (key p)" using assms(4) by (simp add: may_advance_def)
  have "fst (last (entries t)) = key p" using chain_active [OF assms(1) ne act] .
  moreover have "distinct (map fst (entries t))" using assms(1) by (simp add: chain_def)
  ultimately show last: "last (entries t) = (key p, row)"
    using map_of_last [of "entries t"] ne assms(2) by (metis option.inject prod.collapse)
  show root: "root = snd (hd (entries t))"
    using chain_root_entry(3) [OF assms(1,2)] assms(3) by simp
  have succ: "successively follows (entries t)" and rk: "root_ok (int (length (entries t))) (hd (entries t))"
    using assms(1) ne by (simp_all add: chain_def)
  show ord: "e_ordinal row = int (length (entries t))"
    using chain_ordinal [OF succ ne] rk last by (simp add: root_ok_def)
  show "int (length (entries t)) < transition_limit (e_intent root)"
    using assms(4) ord by (simp add: may_advance_def)
  have "(key p, row) \<in> set (entries t)" using ne last by (metis last_in_set)
  from chain_scope [OF succ this] root assms(4) show "same_scope p (e_intent root)"
    by (simp add: may_advance_def)
qed

lemma chain_advance:
  assumes "chain t" and adv: "advance p s r t = Inr (won, t')"
  shows "chain t'"
proof (cases won)
  case False
  with adv assms(1) show ?thesis by (auto dest: advance_False)
next
  case True
  with adv obtain row root where r1: "map_of (entries t) (key p) = Some row"
    and r2: "map_of (entries t) (e_root row) = Some root"
    and vp: "valid_intent t p = Inr ()" and vs: "valid_intent t s = Inr ()"
    and may: "may_advance p s r row (e_intent root) t"
    and t': "t' = insert_entry s (e_root row) (e_ordinal row + 1)
        (update_entry (key p) (\<lambda>e. e\<lparr>e_successor := Some (key s), e_confirmation := Some (reference r)\<rparr>) t)"
    by (auto elim: advance_Inr)
  note tip = advance_tip [OF assms(1) r1 r2 may]
  let ?row = "row\<lparr>e_successor := Some (key s), e_confirmation := Some (reference r)\<rparr>"
  let ?new = "new_entry s (e_root row) (e_ordinal row + 1)"
  obtain pre where t: "entries t = pre @ [(key p, row)]"
    using tip(1,2) by (metis append_butlast_last_id)
  have d: "distinct (map fst (entries t))" using assms(1) by (simp add: chain_def)
  have es: "entries t' = (pre @ [(key p, ?row)]) @ [(key s, ?new)]"
    using update_last [OF d t] by (simp add: t' insert_entry_def)
  have fresh: "key s \<notin> fst ` set (entries t)" "Some (reference r) \<notin> (\<lambda>x. e_confirmation (snd x)) ` set (entries t)"
    using may by (auto simp: may_advance_def list_ex_iff)
  have gen: "generation_number s = generation_number p + 1"
  proof -
    have "expected s = next_generation p" using may by (simp add: may_advance_def)
    then show ?thesis
      using next_generation_number [OF valid_intent_generation [OF vp]] by (simp add: generation_number_def)
  qed
  have scope: "same_scope s p"
    using may tip(6) vp vs by (auto simp: may_advance_def same_scope_def valid_intent_def bind_res_Inr)
  have link: "follows (key p, ?row) (key s, ?new)"
    using may gen scope by (simp add: follows_def new_entry_def may_advance_def)
  have same: "follows x (key p, ?row) = follows x (key p, row)" for x by (simp add: follows_def)
  have vi: "valid_intent t' i = valid_intent t i" for i
    by (rule valid_intent_cong) (simp add: t' insert_entry_def)
  have conf: "keys_used (\<lambda>x. e_confirmation (snd x)) (entries t') =
      keys_used (\<lambda>x. e_confirmation (snd x)) pre @ [reference r]"
    unfolding es by (simp add: keys_used_Cons new_entry_def)
  have nc: "reference r \<notin> set (keys_used (\<lambda>x. e_confirmation (snd x)) pre)"
    using fresh(2) t by (force simp: keys_used_def List.map_filter_def)
  have hd: "root_ok (int (length (entries t'))) (hd (entries t'))"
  proof -
    have "root_ok (int (length (entries t))) (hd (entries t))" using assms(1) tip(1) by (simp add: chain_def)
    then show ?thesis
      using tip(3,5) t unfolding es by (cases pre) (auto simp: root_ok_def)
  qed
  have keys: "distinct (map fst (entries t'))"
    using d fresh(1) by (auto simp: es t)
  have ok: "entry_ok t' x" if "x \<in> set (entries t')" for x
  proof -
    have "entry_ok t (key p, row)" "\<forall>x\<in>set pre. entry_ok t x" using assms(1) t by (simp_all add: chain_def)
    then have "entry_ok t' (key p, ?row)" "entry_ok t' (key s, ?new)" "\<forall>x\<in>set pre. entry_ok t' x"
      using vs by (simp_all add: entry_ok_def vi new_entry_def)
    with that es show ?thesis by auto
  qed
  have "successively follows (entries t)" using assms(1) by (simp add: chain_def)
  then have succ: "successively follows (entries t')"
    using link unfolding es t successively_snoc same by simp
  have dc: "distinct (keys_used (\<lambda>x. e_confirmation (snd x)) (entries t'))"
    using assms(1) nc unfolding conf by (simp add: chain_def t)
  have "tip_ok t' (last (entries t'))"
    by (simp add: es tip_ok_def new_entry_def) (simp add: t' insert_entry_def)
  with keys ok succ dc hd show ?thesis by (simp add: chain_def)
qed

lemma chain_requests:
  "reserve_request q a m n t = Inr (x, t') \<Longrightarrow> chain t \<Longrightarrow> chain t'"
  "received k c t = Inr (u, t') \<Longrightarrow> chain t \<Longrightarrow> chain t'"
  "reserve_exact_request d st a b l i t = Inr (x, t') \<Longrightarrow> chain t \<Longrightarrow> chain t'"
  by (auto simp: reserve_request_def received_def reserve_exact_request_def spend_batch_def charge_request_def
      bind_res_Inr elim: chain_tables [rotated 3] split: if_splits option.splits)


section \<open>Transactions\<close>

lemma transaction_cases:
  assumes "transaction tid packet rd d f t = (r, t')"
  shows "t' = t \<and> (\<forall>x. r \<noteq> Inr x) \<or> (\<exists>x. f t = Inr (x, t') \<and> (r = Inr x \<or> (\<forall>y. r \<noteq> Inr y)))"
  using assms unfolding transaction_def
  by (auto simp: bind_res_Inr split: sum.splits prod.splits)

text \<open>An invariant of the operation is one of the transaction, acknowledged or not.\<close>

lemma transaction_keeps:
  assumes "transaction tid packet rd d f t = (r, t')" and "I t" and "\<And>x u. f t = Inr (x, u) \<Longrightarrow> I u"
  shows "I t'"
  using transaction_cases [OF assms(1)] assms(2,3) by blast

lemma transaction_Inr: "transaction tid packet rd d f t = (Inr x, t') \<Longrightarrow> f t = Inr (x, t')"
  using transaction_cases [of tid packet rd d f t "Inr x" t'] by auto


section \<open>Request accounting\<close>

text \<open>What a request costs against the response budget: its reservation until it is received.\<close>

definition charged :: "request \<Rightarrow> int" where
  "charged q = (case q_received q of None \<Rightarrow> q_reserved q | Some c \<Rightarrow> c)"

definition accounts :: "tables \<Rightarrow> bool" where
  "accounts t \<longleftrightarrow> map fst (requests t) = map int [0..<length (requests t)] \<and>
     b_ordinal t = int (length (requests t)) \<and>
     b_bytes t = sum_list (map (\<lambda>x. charged (snd x)) (requests t)) \<and>
     (\<forall>x\<in>set (requests t). 0 \<le> charged (snd x) \<and> charged (snd x) \<le> q_reserved (snd x) \<and> q_reserved (snd x) \<le> 512 * 1024)"

lemma accounts_provisioned: "accounts (provisioned tid packet)"
  by (simp add: accounts_def provisioned_def)

lemma accounts_cong:
  "b_ordinal t' = b_ordinal t \<Longrightarrow> b_bytes t' = b_bytes t \<Longrightarrow> requests t' = requests t \<Longrightarrow> accounts t' = accounts t"
  by (simp add: accounts_def)

lemma accounts_fresh: "accounts t \<Longrightarrow> map_of (requests t) (b_ordinal t) = None"
proof -
  assume a: "accounts t"
  then have "b_ordinal t \<notin> set (map fst (requests t))" by (auto simp: accounts_def)
  then show ?thesis by (simp add: map_of_eq_None_iff)
qed

lemma accounts_charge:
  assumes "accounts t" and "1 \<le> allowance" and "allowance \<le> 512 * 1024"
  shows "accounts (charge_request q allowance t)"
  using assms by (auto simp: accounts_def charge_request_def charged_def)

lemma accounts_reserve: "accounts t \<Longrightarrow> reserve_request q a m n t = Inr (x, t') \<Longrightarrow> accounts t'"
  by (auto simp: reserve_request_def bind_res_Inr split: if_splits intro: accounts_charge)

lemma sum_list_update_key:
  assumes "distinct (map fst xs)" and "map_of xs n = Some q"
  shows "sum_list (map (\<lambda>x. g (snd x)) (map (\<lambda>(k, r). (k, if k = n then f r else r)) xs)) =
    sum_list (map (\<lambda>x. g (snd x)) xs) - g q + (g (f q) :: int)"
  using assms
proof (induction xs)
  case (Cons x xs)
  show ?case
  proof (cases "fst x = n")
    case True
    with Cons.prems(1) have "\<forall>y\<in>set xs. fst y \<noteq> n" by (auto simp: rev_image_eqI)
    then have "map (\<lambda>(k, r). (k, if k = n then f r else r)) xs = xs"
      by (intro map_idI) auto
    with True Cons.prems show ?thesis by (cases x) auto
  next
    case False
    with Cons show ?thesis by (cases x) auto
  qed
qed simp

lemma accounts_received:
  assumes "accounts t" and "received n c t = Inr (u, t')"
  shows "accounts t' \<and> b_bytes t' \<le> b_bytes t"
proof -
  from assms(2) obtain q where q: "map_of (requests t) n = Some q" "q_received q = None" "0 \<le> c" "c \<le> q_reserved q"
    and t': "t' = t\<lparr>requests := map (\<lambda>(k, r). (k, if k = n then r\<lparr>q_received := Some c\<rparr> else r)) (requests t),
       b_bytes := b_bytes t - (q_reserved q - c)\<rparr>"
    by (auto simp: received_def bind_res_Inr split: option.splits)
  have d: "distinct (map fst (requests t))" using assms(1) by (simp add: accounts_def distinct_map inj_on_def)
  have "sum_list (map (\<lambda>x. charged (snd x)) (requests t')) = sum_list (map (\<lambda>x. charged (snd x)) (requests t)) - q_reserved q + c"
    using sum_list_update_key [OF d q(1), of charged "\<lambda>r. r\<lparr>q_received := Some c\<rparr>"] q(2)
    by (simp add: t' charged_def)
  moreover have "map fst (requests t') = map fst (requests t)" by (simp add: t' comp_def split_def)
  moreover have "0 \<le> charged (snd x) \<and> charged (snd x) \<le> q_reserved (snd x) \<and> q_reserved (snd x) \<le> 512 * 1024"
    if "x \<in> set (requests t')" for x
  proof -
    from that obtain k r where r: "(k, r) \<in> set (requests t)" "x = (k, if k = n then r\<lparr>q_received := Some c\<rparr> else r)"
      by (auto simp: t')
    then have old: "0 \<le> charged r \<and> charged r \<le> q_reserved r \<and> q_reserved r \<le> 512 * 1024"
      using assms(1) by (auto simp: accounts_def)
    have "k = n \<Longrightarrow> r = q" using d q(1) r(1) by (metis map_of_eq_Some_iff option.inject)
    with old r(2) q(3,4) show ?thesis by (auto simp: charged_def)
  qed
  ultimately show ?thesis
    using assms(1) q(4) unfolding accounts_def by (simp add: t')
qed

end
