(* ===== verification/Operator_Control.thy ===== *)
theory Operator_Control
  imports Operator_Invariants
begin

text \<open>
  The D1 operator control protocol (class \<open>Adapter\<close> of \<open>probes/pmb1-d1-adapter/adapter.py\<close>)
  on its durable journal. The clock, the source files, the independent observer, the writer,
  the confirmation custodian and the durability of each journal transaction are the
  environment: every call appends an event with its answer to the trace.
\<close>

section \<open>Pinned source\<close>

definition PINS :: "(string \<times> string) list" where
  "PINS =
    [(''bootstrap.sql'', ''5961b61bcb612bd8e2b569d9848955bcb8d346c7aa9f003b4cb5a9a3a7f0b82b''),
     (''close.sql'', ''98623876d1121459b100f001e655d4e632fc1ffe7da756e48a1dccc4a40c1e9f''),
     (''control.py'', ''d8c1cfa9fecf22b24635810438bbc508f17dc146ebcce67c3137d5ae0c4d1857''),
     (''fixture.py'', ''3b7461876f80ca66e2f0e2ada979e70d1cf6e2480aa7d023b88e47d4e5716059''),
     (''guards.sql'', ''14e8a7a1aa6aae07e35066b24b6cd41f5530c215f68aef1969965ad62642571e''),
     (''manifest.json'', ''3a6b0d8fda2b07a3e4999ece220eee84c28c7d906ca4a87ed67faf693e009e50''),
     (''readback.sql'', ''4927c060bab3de5312ce843c916f89d5ef5f4bb5b0ece500cec8263dc9de8222''),
     (''README.md'', ''592ca18ffcace44004e4d67197222eff63005c97d7a7f04f1b855055957af2a7''),
     (''reopen.sql'', ''33b96dacc532444803d94d7ded2512d313e492d1873520c058746103f2f9bfd8''),
     (''schema.sql'', ''449fbbf112513c0204a5155b055c9c3b7ab8f51db43811f31290d8e8c2794baa''),
     (''test_control.py'', ''a7ffa89b38602592d7ecf5e83b25f78e860765e007dd71c9d5aaee5cd0395827'')]"

text \<open>
  The bytes of the pinned files, and the decoded \<open>candidate_schema\<close> of the manifest among
  them.
\<close>

record sources =
  so_files :: "(string \<times> string) list"
  so_schema :: pyval

definition verify_source :: "(string \<times> string) list \<Rightarrow> sources \<Rightarrow> unit res" where
  "verify_source pins s = require
     (list_all (\<lambda>(n, h). map_option sha256_hex (map_of (so_files s) n) = Some h) pins) ''source_pin_mismatch''"


section \<open>Environment\<close>

text \<open>One journal transaction: it runs with the given clock answers, cannot be opened, or the
  process dies before or after it.\<close>

datatype jfault = Runs readings | Unavailable | DiesBefore | DiesAfter readings

datatype cevent =
    CNow "tick res"
  | CSources "sources res"
  | CRecheck "pyval res"
  | CRead string tick "reply res"
  | CDispatch intent string tick "pyval res"
  | CConfirm string "confirmed_receipt option res"
  | CJournal jfault

type_synonym ctrace = "cevent list"

record cenv =
  n_now :: "ctrace \<Rightarrow> tick res"
  n_sources :: "ctrace \<Rightarrow> sources res"
  n_recheck :: "ctrace \<Rightarrow> pyval res"
  n_read :: "ctrace \<Rightarrow> string \<Rightarrow> tick \<Rightarrow> reply res"
  n_dispatch :: "ctrace \<Rightarrow> intent \<Rightarrow> string \<Rightarrow> tick \<Rightarrow> pyval res"
  n_confirm :: "ctrace \<Rightarrow> string \<Rightarrow> tick \<Rightarrow> confirmed_receipt option res"
  n_journal :: "ctrace \<Rightarrow> jfault"

text \<open>
  What an adapter is constructed with: the pins of the source files (\<open>PINS\<close>), the optional
  descriptor of a prospective candidate (its candidate, its manifest and the manifest's decoded
  schema), the bound target, the packet of the journal, and whether it has a custodian.
\<close>

record control =
  c_pins :: "(string \<times> string) list"
  c_descriptor :: "(string \<times> string \<times> pyval) option"
  c_target :: string
  c_packet :: string
  c_confirmations :: bool

text \<open>
  The construction of a descriptor and of an adapter. A port is known by its identity: the
  writer must not be the observer, nor a custodian any of the other ports.
\<close>

definition source_descriptor :: "string \<Rightarrow> string \<Rightarrow> pyval \<Rightarrow> (string \<times> string \<times> pyval) res" where
  "source_descriptor cand manifest schema =
     bind_res (require (length cand = 64 \<and> list_all is_hex cand \<and> manifest \<noteq> []) ''invalid_source_descriptor'')
       (\<lambda>_. Inr (cand, manifest, schema))"

definition adapter_init ::
    "nat \<Rightarrow> nat \<Rightarrow> nat \<Rightarrow> nat option \<Rightarrow> string \<Rightarrow> string \<Rightarrow> (string \<times> string \<times> pyval) option \<Rightarrow> control res" where
  "adapter_init writer observer journal confirmations tid packet src =
     bind_res (require (writer \<noteq> observer) ''writer_is_not_independent_observer'') (\<lambda>_.
     bind_res (require (case confirmations of None \<Rightarrow> True | Some p \<Rightarrow> p \<notin> {writer, observer, journal})
       ''confirmation_custodian_is_not_independent'') (\<lambda>_.
     bind_res (require (1 \<le> length tid \<and> length tid \<le> 128 \<and> is_ascii tid) ''invalid_target_binding'') (\<lambda>_.
     Inr \<lparr>c_pins = PINS, c_descriptor = src, c_target = tid, c_packet = packet,
       c_confirmations = (confirmations \<noteq> None)\<rparr>)))"

definition CANDIDATE :: string where
  "CANDIDATE = the (map_of PINS ''manifest.json'')"

definition control_candidate :: "control \<Rightarrow> string" where
  "control_candidate c = (case c_descriptor c of None \<Rightarrow> CANDIDATE | Some (cand, _, _) \<Rightarrow> cand)"

record cstate =
  k_tables :: tables
  k_trace :: ctrace
  k_last :: int
  k_claimed :: bool

definition emit :: "(ctrace \<Rightarrow> 'a res) \<Rightarrow> ('a res \<Rightarrow> cevent) \<Rightarrow> (cstate, 'a) act" where
  "emit answer event s = (let a = answer (k_trace s) in (a, s\<lparr>k_trace := k_trace s @ [event a]\<rparr>))"

definition journal_call :: "cenv \<Rightarrow> control \<Rightarrow> tick \<Rightarrow> 'a jop \<Rightarrow> (cstate, 'a) act" where
  "journal_call env c deadline f s =
     (let fault = n_journal env (k_trace s); s = s\<lparr>k_trace := k_trace s @ [CJournal fault]\<rparr> in
      case fault of
        Unavailable \<Rightarrow> (Inl Crash, s)
      | DiesBefore \<Rightarrow> (Inl Killed, s)
      | Runs rd \<Rightarrow> (case transaction (c_target c) (c_packet c) rd deadline f (k_tables s) of
          (r, t) \<Rightarrow> (r, s\<lparr>k_tables := t\<rparr>))
      | DiesAfter rd \<Rightarrow> (Inl Killed, s\<lparr>k_tables := snd (transaction (c_target c) (c_packet c) rd deadline f (k_tables s))\<rparr>))"

definition source_files :: "cenv \<Rightarrow> control \<Rightarrow> (cstate, sources) act" where
  "source_files env c =
     bind_act (emit (n_sources env) CSources) (\<lambda>s.
     then_act (lift_res (verify_source (c_pins c) s))
       (case c_descriptor c of
          None \<Rightarrow> return_act s
        | Some (_, manifest, schema) \<Rightarrow>
            bind_act (emit (n_recheck env) CRecheck) (\<lambda>r.
            then_act (require_act (r = PNone) ''source_recheck_not_a_local_void_check'')
              (return_act (s\<lparr>so_files := (''manifest.json'', manifest) # so_files s, so_schema := schema\<rparr>)))))"

definition source_text :: "sources \<Rightarrow> string \<Rightarrow> string res" where
  "source_text s name = (case map_of (so_files s) name of None \<Rightarrow> Inl Crash | Some x \<Rightarrow> Inr x)"


section \<open>Boundary check\<close>

definition check_intent :: "control \<Rightarrow> intent \<Rightarrow> unit res" where
  "check_intent c i =
     bind_res (validate_window (window i)) (\<lambda>_.
     bind_res (require (candidate i = control_candidate c \<and> operation i \<in> {''close'', ''reopen''}) ''invalid_intent'') (\<lambda>_.
     bind_res (generation True (PStr (expected i))) (\<lambda>_.
     bind_res (require (target_id i = c_target c) ''wrong_target_binding'') (\<lambda>_.
     bind_res (require (transition_limit i \<in> {1, 2, 3}) ''invalid_transition_limit'') (\<lambda>_.
     require (1 \<le> length (key i) \<and> length (key i) \<le> 128 \<and> is_ascii (key i)) ''invalid_intent_key'')))))"

definition window_end :: "bool \<Rightarrow> intent \<Rightarrow> tick" where
  "window_end reconciliation i = (if reconciliation then reconcile_until (window i) else dispatch_until (window i))"

definition in_window :: "bool \<Rightarrow> intent \<Rightarrow> int \<Rightarrow> bool" where
  "in_window reconciliation i now = (case (starts (window i), window_end reconciliation i) of
     (Tick s, Tick e) \<Rightarrow> s \<le> now \<and> now < e | _ \<Rightarrow> False)"

definition check :: "cenv \<Rightarrow> control \<Rightarrow> bool \<Rightarrow> intent \<Rightarrow> (cstate, tick) act" where
  "check env c reconciliation i =
     then_act (lift_res (check_intent c i))
    (bind_act (emit (n_now env) CNow) (\<lambda>reading.
     bind_act (gets_act k_last) (\<lambda>last.
     case reading of
       Tick now \<Rightarrow>
         then_act (require_act (last \<le> now) ''clock_unusable'')
        (then_act (modify_act (\<lambda>s. s\<lparr>k_last := now\<rparr>))
        (then_act (require_act (in_window reconciliation i now) ''deadline_or_not_started'')
        (then_act (source_files env c)
        (bind_act (emit (n_now env) CNow) (\<lambda>again.
         case again of
           Tick after \<Rightarrow>
             then_act (require_act (now \<le> after \<and> in_window reconciliation i after)
               ''clock_or_deadline_after_source_check'')
            (then_act (modify_act (\<lambda>s. s\<lparr>k_last := after\<rparr>))
               (return_act (window_end reconciliation i)))
         | _ \<Rightarrow> raise_act (Refused ''clock_or_deadline_after_source_check''))))))
     | _ \<Rightarrow> raise_act (Refused ''clock_unusable''))))"


section \<open>Observation\<close>

text \<open>One pass of the loop over the two readback queries.\<close>

definition observe_query :: "cenv \<Rightarrow> control \<Rightarrow> bool \<Rightarrow> intent \<Rightarrow> sources \<Rightarrow> string \<Rightarrow> (cstate, reply) act" where
  "observe_query env c rec i files name =
     bind_act (check env c rec i) (\<lambda>until.
     bind_act (journal_call env c until (spend_read (key i))) (\<lambda>granted.
     then_act (require_act granted ''read_budget_exhausted'')
    (bind_act (check env c rec i) (\<lambda>until.
     bind_act (lift_res (source_text files name)) (\<lambda>sql.
     bind_act (emit (\<lambda>tr. n_read env tr sql until) (CRead sql until)) (\<lambda>r.
     then_act (check env c rec i) (return_act r)))))))"

definition observe :: "cenv \<Rightarrow> control \<Rightarrow> bool \<Rightarrow> intent \<Rightarrow> (cstate, string \<times> string) act" where
  "observe env c rec i =
     bind_act (source_files env c) (\<lambda>files.
     bind_act (observe_query env c rec i files ''readback.sql'') (\<lambda>control_rows.
     bind_act (observe_query env c rec i files ''schema.sql'') (\<lambda>schema.
     then_act (lift_res (validate_schema schema (so_schema files)))
       (lift_res (validate_control control_rows)))))"


section \<open>Dispatch\<close>

text \<open>The receipt of the writer: exactly \<open>{"success": True, "changes": n}\<close>.\<close>

definition receipt_changes :: "pyval \<Rightarrow> int res" where
  "receipt_changes v = (case v of
     PDict row \<Rightarrow>
       if set (map fst row) = {''success'', ''changes''} \<and> is_bool True (dict_get row ''success'')
       then (case dict_get row ''changes'' of PInt n \<Rightarrow> Inr n | _ \<Rightarrow> Inl (Refused ''malformed_receipt''))
       else Inl (Refused ''malformed_receipt'')
   | _ \<Rightarrow> Inl (Refused ''malformed_receipt''))"

definition before_state :: "intent \<Rightarrow> string" where
  "before_state i = (if operation i = ''close'' then ''open'' else ''closed'')"

definition settle_journal :: "cenv \<Rightarrow> control \<Rightarrow> bool \<Rightarrow> intent \<Rightarrow> string \<Rightarrow> (cstate, unit) act" where
  "settle_journal env c rec i phase =
     bind_act (check env c rec i) (\<lambda>until. journal_call env c until (settle (key i) phase))"

definition dispatch_try :: "cenv \<Rightarrow> control \<Rightarrow> intent \<Rightarrow> (cstate, result) act" where
  "dispatch_try env c i =
     then_act (check env c False i)
    (bind_act (observe env c False i) (\<lambda>before.
     then_act (require_act (before = (expected i, before_state i)) ''stale_or_wrong_state'')
    (bind_act (check env c False i) (\<lambda>until.
     then_act (modify_act (\<lambda>s. s\<lparr>k_claimed := True\<rparr>))
    (bind_act (journal_call env c until (claim_dispatch (key i))) (\<lambda>won.
     then_act (require_act won ''dispatch_claim_unconfirmed'')
    (then_act (check env c False i)
    (bind_act (source_files env c) (\<lambda>files.
     bind_act (lift_res (source_text files (operation i @ ''.sql''))) (\<lambda>sql.
     bind_act (check env c False i) (\<lambda>until.
     bind_act (emit (\<lambda>tr. n_dispatch env tr i sql until) (CDispatch i sql until)) (\<lambda>receipt.
     then_act (check env c False i)
    (bind_act (lift_res (receipt_changes receipt)) (\<lambda>changes.
     if changes = 0 then
       then_act (settle_journal env c False i ''refused'')
      (then_act (check env c False i)
         (return_act (Result ''refused'' ''zero_affected_rows'')))
     else
       then_act (require_act (changes = 1) ''affected_rows_not_one'')
      (bind_act (observe env c False i) (\<lambda>observed.
       then_act (require_act (observed = (next_generation i, target i)) ''transition_readback_mismatch'')
      (then_act (settle_journal env c False i ''confirmed'')
      (then_act (check env c False i)
      (bind_act (gets_act k_last) (\<lambda>last.
         return_act \<lparr>status = ''confirmed'', reason = ''one_row_and_independent_readback'',
           observed_generation = Some (fst observed), observed_state = Some (snd observed),
           confirmed_at = Some (Tick last)\<rparr>))))))))))))))))))))"

definition dispatch_failed :: "cenv \<Rightarrow> control \<Rightarrow> intent \<Rightarrow> (cstate, result) act" where
  "dispatch_failed env c i =
     bind_act (gets_act k_claimed) (\<lambda>claimed.
     let outcome = (if claimed then ''unknown'' else ''refused'') in
     then_act (catch_act (settle_journal env c True i outcome) (\<lambda>_. return_act ()))
       (return_act (Result outcome ''operation_unconfirmed'')))"

definition dispatch_reserved :: "cenv \<Rightarrow> control \<Rightarrow> intent \<Rightarrow> (cstate, result) act" where
  "dispatch_reserved env c i =
     then_act (modify_act (\<lambda>s. s\<lparr>k_claimed := False\<rparr>))
       (catch_act (dispatch_try env c i) (\<lambda>_. dispatch_failed env c i))"


section \<open>Execute, advance, reconcile\<close>

text \<open>The reservation returns whether dispatching may go on, or the result to return.\<close>

definition execute_reserve :: "cenv \<Rightarrow> control \<Rightarrow> intent \<Rightarrow> (cstate, result option) act" where
  "execute_reserve env c i =
     bind_act (check env c False i) (\<lambda>until.
     then_act (require_act (generation_number i + transition_limit i \<le> MAX_GENERATION)
       ''lifecycle_generation_headroom_exhausted'')
    (bind_act (journal_call env c until (latch i)) (\<lambda>won.
     if \<not> won then return_act (Some (Result ''refused'' ''intent_already_latched_or_unconfirmed''))
     else then_act (check env c False i) (return_act None))))"

definition execute :: "cenv \<Rightarrow> control \<Rightarrow> intent \<Rightarrow> (cstate, result) act" where
  "execute env c i =
     bind_act (catch_act (execute_reserve env c i)
        (\<lambda>_. return_act (Some (Result ''refused'' ''reservation_unconfirmed'')))) (\<lambda>early.
     case early of Some r \<Rightarrow> return_act r | None \<Rightarrow> dispatch_reserved env c i)"

definition control_close :: "cenv \<Rightarrow> control \<Rightarrow> string \<Rightarrow> string \<Rightarrow> window \<Rightarrow> (cstate, result) act" where
  "control_close env c k e w = execute env c \<lparr>key = k, operation = ''close'', expected = e, window = w,
     target_id = c_target c, candidate = control_candidate c, transition_limit = 1\<rparr>"

definition control_reopen :: "cenv \<Rightarrow> control \<Rightarrow> string \<Rightarrow> string \<Rightarrow> window \<Rightarrow> (cstate, result) act" where
  "control_reopen env c k e w = execute env c \<lparr>key = k, operation = ''reopen'', expected = e, window = w,
     target_id = c_target c, candidate = control_candidate c, transition_limit = 1\<rparr>"

text \<open>\<open>confirmed_at\<close> is a number in the window of the predecessor and not in the future.\<close>

definition confirmed_in_time :: "intent \<Rightarrow> tick option \<Rightarrow> int \<Rightarrow> bool" where
  "confirmed_in_time p at clock = (case at of
     Some (Tick n) \<Rightarrow> in_window False p n \<and> n \<le> clock | _ \<Rightarrow> False)"

definition advance_reserve :: "cenv \<Rightarrow> control \<Rightarrow> intent \<Rightarrow> intent \<Rightarrow> string \<Rightarrow> (cstate, result option) act" where
  "advance_reserve env c p s ref =
     bind_act (check env c False s) (\<lambda>until.
     then_act (check env c False p)
    (then_act (require_act (c_confirmations c \<and> 1 \<le> length ref \<and> length ref \<le> 128 \<and> is_ascii ref \<and>
        key s \<noteq> key p \<and> expected s = next_generation p \<and> operation s \<noteq> operation p \<and>
        window s = window p \<and> transition_limit s = transition_limit p) ''invalid_successor'')
    (bind_act (emit (\<lambda>tr. n_confirm env tr ref until) (CConfirm ref)) (\<lambda>answer.
     then_act (check env c False s)
       (case answer of
          None \<Rightarrow> raise_act (Refused ''invalid_retained_confirmation'')
        | Some r \<Rightarrow>
            bind_act (gets_act k_last) (\<lambda>last.
            then_act (require_act (reference r = ref \<and> receipt_matches r p \<and>
              confirmed_in_time p (confirmed_at (receipt_result r)) last) ''invalid_retained_confirmation'')
           (bind_act (journal_call env c until (advance p s r)) (\<lambda>won.
            then_act (require_act won ''successor_reservation_refused'')
           (then_act (check env c False s) (return_act None))))))))))"

definition control_advance :: "cenv \<Rightarrow> control \<Rightarrow> intent \<Rightarrow> intent \<Rightarrow> string \<Rightarrow> (cstate, result) act" where
  "control_advance env c p s ref =
     bind_act (catch_act (advance_reserve env c p s ref)
        (\<lambda>_. return_act (Some (Result ''refused'' ''successor_reservation_unconfirmed'')))) (\<lambda>early.
     case early of Some r \<Rightarrow> return_act r | None \<Rightarrow> dispatch_reserved env c s)"

definition reconcile_try :: "cenv \<Rightarrow> control \<Rightarrow> intent \<Rightarrow> (cstate, result) act" where
  "reconcile_try env c i =
     bind_act (check env c True i) (\<lambda>until.
     bind_act (journal_call env c until (get (key i))) (\<lambda>row.
     then_act (require_act (e_intent row = i \<and> e_dispatched row) ''not_exact_uncertain_intent'')
    (then_act (check env c True i)
    (bind_act (journal_call env c until (claim_reconcile (key i))) (\<lambda>won.
     then_act (require_act won ''reconciliation_budget_exhausted'')
    (bind_act (observe env c True i) (\<lambda>observed.
       return_act (if observed = (next_generation i, target i)
         then (Result ''observed'' ''current_target_only_receipt_remains_unknown'')
           \<lparr>observed_generation := Some (fst observed), observed_state := Some (snd observed)\<rparr>
         else (Result ''unknown'' ''target_not_observed'')
           \<lparr>observed_generation := Some (fst observed), observed_state := Some (snd observed)\<rparr>))))))))"

definition reconcile :: "cenv \<Rightarrow> control \<Rightarrow> intent \<Rightarrow> (cstate, result) act" where
  "reconcile env c i = catch_act (reconcile_try env c i)
     (\<lambda>_. return_act (Result ''unknown'' ''reconciliation_unconfirmed''))"


section \<open>Histories\<close>

text \<open>
  A call on the journal by some adapter, whose clock stood at the given time. Adapters of
  different sessions share nothing but the journal.
\<close>

datatype ccall = Execute intent | Advance intent intent string | Reconcile intent

definition perform :: "cenv \<Rightarrow> control \<Rightarrow> ccall \<Rightarrow> (cstate, result) act" where
  "perform env c x = (case x of
     Execute i \<Rightarrow> execute env c i | Advance p s ref \<Rightarrow> control_advance env c p s ref | Reconcile i \<Rightarrow> reconcile env c i)"

definition session :: "cenv \<times> control \<times> int \<times> ccall \<Rightarrow> tables \<times> ctrace \<Rightarrow> tables \<times> ctrace" where
  "session x y = (case x of (env, c, clock, call) \<Rightarrow>
     let s = snd (perform env c call \<lparr>k_tables = fst y, k_trace = snd y, k_last = clock, k_claimed = False\<rparr>)
     in (k_tables s, k_trace s))"

fun sessions :: "(cenv \<times> control \<times> int \<times> ccall) list \<Rightarrow> tables \<times> ctrace \<Rightarrow> tables \<times> ctrace" where
  "sessions [] y = y"
| "sessions (x # xs) y = sessions xs (session x y)"

end
