(* ===== verification/Operator_Safety.thy ===== *)
theory Operator_Safety
  imports Operator_Control
begin

text \<open>
  What any history of control sessions on one journal can do: every transition is
  dispatched at most once, to an operation the journal granted before, and the independent
  observer is read at most as often as the root intent allows.
\<close>

section \<open>The view of a session\<close>

fun sent_key :: "cevent \<Rightarrow> string option" where
  "sent_key (CDispatch i _ _ _) = Some (key i)"
| "sent_key _ = None"

fun read_mark :: "cevent \<Rightarrow> string option" where
  "read_mark (CRead sql _ _) = Some sql"
| "read_mark _ = None"

definition sent :: "ctrace \<Rightarrow> string list" where
  "sent tr = keys_used sent_key tr"

definition reads :: "ctrace \<Rightarrow> int" where
  "reads tr = int (length (keys_used read_mark tr))"

lemma trace_Nil [simp]: "sent [] = []" "reads [] = 0"
  by (simp_all add: sent_def reads_def)

lemma trace_snoc [simp]:
  "sent (tr @ [e]) = sent tr @ (case sent_key e of None \<Rightarrow> [] | Some k \<Rightarrow> [k])"
  "reads (tr @ [e]) = reads tr + (if read_mark e = None then 0 else 1)"
  by (simp_all add: sent_def reads_def keys_used_single split: option.split)

definition view :: "cstate \<Rightarrow> tables \<times> string list \<times> int" where
  "view s = (k_tables s, sent (k_trace s), reads (k_trace s))"

lemma silent_emit: "(\<And>a. sent_key (ev a) = None \<and> read_mark (ev a) = None) \<Longrightarrow> silent view (emit f ev)"
  by (simp add: silent_def emit_def view_def Let_def)

lemma silent_source_files [simp]: "silent view (source_files env c)"
  unfolding source_files_def
  by (auto intro!: silent_bind silent_then silent_emit split: option.split)

lemma silent_check [simp]: "silent view (check env c rec i)"
  unfolding check_def
  by (auto intro!: silent_bind silent_then silent_emit silent_modify simp: view_def split: tick.split)

lemma journal_call_cases:
  assumes "journal_call env c d f s = (r, t)"
  shows "view t = view s \<and> (\<forall>x. r \<noteq> Inr x) \<or>
    (\<exists>x u. f (k_tables s) = Inr (x, u) \<and> view t = (u, snd (view s)) \<and> (r = Inr x \<or> (\<forall>y. r \<noteq> Inr y)))"
proof -
  have tx: "snd (transaction tid p rd d f u) = u \<and> (\<forall>x. fst (transaction tid p rd d f u) \<noteq> Inr x) \<or>
      (\<exists>x w. f u = Inr (x, w) \<and> snd (transaction tid p rd d f u) = w \<and>
        (fst (transaction tid p rd d f u) = Inr x \<or> (\<forall>y. fst (transaction tid p rd d f u) \<noteq> Inr y)))" for tid p rd u
    using transaction_cases [of tid p rd d f u "fst (transaction tid p rd d f u)" "snd (transaction tid p rd d f u)"]
    by auto
  show ?thesis
  proof (cases "n_journal env (k_trace s)")
    case (Runs rd)
    with assms tx [of "c_target c" "c_packet c" rd "k_tables s"] show ?thesis
      by (auto simp: journal_call_def Let_def view_def split: prod.splits)
  next
    case (DiesAfter rd)
    with assms tx [of "c_target c" "c_packet c" rd "k_tables s"] show ?thesis
      by (auto simp: journal_call_def Let_def view_def)
  qed (use assms in \<open>auto simp: journal_call_def Let_def view_def\<close>)
qed

lemma journal_hoare:
  assumes "\<And>t x u z. f t = Inr (x, u) \<Longrightarrow> A (t, z) \<Longrightarrow> B (t, z) \<Longrightarrow> A (u, z) \<and> C x (u, z)"
  shows "hoare (\<lambda>s. A (view s)) (\<lambda>s. B (view s)) (journal_call env c d f) (\<lambda>x s. C x (view s))"
proof (rule hoareI)
  fix s r t assume I: "A (view s)" "B (view s)" and e: "journal_call env c d f s = (r, t)"
  have v: "view s = (k_tables s, snd (view s))" by (simp add: view_def)
  from journal_call_cases [OF e] show "A (view t) \<and> (\<forall>x. r = Inr x \<longrightarrow> C x (view t))"
    using I v assms by (metis sum.inject(2))
qed


section \<open>The invariant\<close>

definition total_reads :: "tables \<Rightarrow> int" where
  "total_reads t = (case entries t of [] \<Rightarrow> 0 | x # _ \<Rightarrow> e_reads (snd x))"

definition sound :: "tables \<times> string list \<times> int \<Rightarrow> bool" where
  "sound v \<longleftrightarrow> chain (fst v) \<and> distinct (fst (snd v)) \<and> set (fst (snd v)) \<subseteq> claimed (fst v) \<and>
     snd (snd v) \<le> total_reads (fst v)"

lemma total_reads_update:
  "(\<And>e. e_reads (f e) = e_reads e) \<Longrightarrow> total_reads (update_entry k f t) = total_reads t"
  by (simp add: total_reads_def update_entry_def split_def split: list.split)

lemma total_reads_insert: "total_reads (insert_entry i r n t) = total_reads t"
  by (simp add: total_reads_def insert_entry_def new_entry_def split: list.split)

lemma total_reads_nonempty: "entries t \<noteq> [] \<Longrightarrow> total_reads t = e_reads (snd (hd (entries t)))"
  by (cases "entries t") (simp_all add: total_reads_def)

text \<open>Operations that keep claims and reads.\<close>

lemma sound_same:
  "sound (t, z) \<Longrightarrow> chain u \<Longrightarrow> claimed t \<subseteq> claimed u \<Longrightarrow> total_reads t \<le> total_reads u \<Longrightarrow> sound (u, z)"
  by (auto simp: sound_def)

lemma latch_sound: "latch i t = Inr (x, u) \<Longrightarrow> sound (t, z) \<Longrightarrow> sound (u, z)"
proof (rule sound_same)
  assume l: "latch i t = Inr (x, u)" and s: "sound (t, z)"
  from s show "chain u" using chain_latch l by (auto simp: sound_def)
  from l show "claimed t \<subseteq> claimed u" "total_reads t \<le> total_reads u"
    by (auto simp: latch_def bind_res_Inr claimed_insert total_reads_insert split: if_splits)
qed

lemma advance_sound: "advance p s r t = Inr (x, u) \<Longrightarrow> sound (t, z) \<Longrightarrow> sound (u, z)"
proof (rule sound_same)
  assume l: "advance p s r t = Inr (x, u)" and a: "sound (t, z)"
  from a show "chain u" using chain_advance l by (auto simp: sound_def)
  show "claimed t \<subseteq> claimed u" "total_reads t \<le> total_reads u"
  proof -
    have "claimed u = claimed t \<and> total_reads u = total_reads t"
    proof (cases x)
      case True
      with l have "advance p s r t = Inr (True, u)" by simp
      then obtain row where m: "map_of (entries t) (key p) = Some row"
        and may: "\<exists>root. may_advance p s r row root t"
        and u: "u = insert_entry s (e_root row) (e_ordinal row + 1)
          (update_entry (key p) (\<lambda>e. e\<lparr>e_successor := Some (key s), e_confirmation := Some (reference r)\<rparr>) t)"
        using advance_Inr by metis
      from may have "map_of (entries t) (key s) = None"
        by (auto simp: may_advance_def list_ex_iff map_of_eq_None_iff)
      then have "map_of (entries (update_entry (key p) f t)) (key s) = None" for f
        by (cases "key s = key p") auto
      from claimed_insert [OF this] show ?thesis
        by (simp add: u claimed_update total_reads_insert total_reads_update)
    qed (use l in \<open>auto dest: advance_False\<close>)
    then show "claimed t \<subseteq> claimed u" "total_reads t \<le> total_reads u" by simp_all
  qed
qed

lemma get_sound: "get k t = Inr (x, u) \<Longrightarrow> sound (t, z) \<Longrightarrow> sound (u, z)"
  by (auto simp: get_def bind_res_Inr)

lemma settle_sound: "settle k ph t = Inr (x, u) \<Longrightarrow> sound (t, z) \<Longrightarrow> sound (u, z)"
proof (rule sound_same)
  assume l: "settle k ph t = Inr (x, u)" and s: "sound (t, z)"
  from s show "chain u" using chain_settle l by (auto simp: sound_def)
  from l show "claimed t \<subseteq> claimed u" "total_reads t \<le> total_reads u"
    by (auto simp: settle_def bind_res_Inr claimed_update total_reads_update)
qed

lemma claim_reconcile_sound: "claim_reconcile k t = Inr (x, u) \<Longrightarrow> sound (t, z) \<Longrightarrow> sound (u, z)"
proof (rule sound_same)
  assume l: "claim_reconcile k t = Inr (x, u)" and s: "sound (t, z)"
  from s show "chain u" using chain_claim_reconcile l by (auto simp: sound_def)
  from l show "claimed t \<subseteq> claimed u" "total_reads t \<le> total_reads u"
    by (auto simp: claim_reconcile_def bind_res_Inr claimed_update total_reads_update split: if_splits)
qed

lemma spend_read_sound:
  assumes "spend_read k t = Inr (x, u)" and "sound (t, z)"
  shows "sound (u, z) \<and> (x \<longrightarrow> snd z + 1 \<le> total_reads u)"
proof -
  have ch: "chain t" "chain u" using assms chain_spend_read by (auto simp: sound_def)
  from assms(1) obtain row root where r: "map_of (entries t) k = Some row" "map_of (entries t) (e_root row) = Some root"
    and u: "u = (if x then update_entry (e_root row) (\<lambda>e. e\<lparr>e_reads := e_reads e + 1\<rparr>) t else t)"
    by (auto simp: spend_read_def bind_res_Inr find_entry_Inr split: if_splits)
  note root = chain_root_entry [OF ch(1) r(1)]
  have "total_reads (update_entry (e_root row) (\<lambda>e. e\<lparr>e_reads := e_reads e + 1\<rparr>) t) = total_reads t + 1"
    using root by (cases "entries t") (auto simp: total_reads_def update_entry_def)
  moreover have "claimed (update_entry (e_root row) (\<lambda>e. e\<lparr>e_reads := e_reads e + 1\<rparr>) t) = claimed t"
    by (simp add: claimed_update)
  ultimately show ?thesis
    using assms(2) ch(2) by (auto simp: u sound_def)
qed

lemma claim_dispatch_sound:
  assumes "claim_dispatch k t = Inr (x, u)" and "sound (t, z)"
  shows "sound (u, z) \<and> (x \<longrightarrow> k \<in> claimed u \<and> k \<notin> set (fst z))"
proof -
  have ch: "chain u" using assms chain_claim_dispatch by (auto simp: sound_def)
  show ?thesis
  proof (cases x)
    case True
    then have c: "claim k t = Inr u" using assms(1) by (simp add: claim_Inr)
    from True assms(1) have "u = update_entry k (\<lambda>e. e\<lparr>e_phase := ''dispatching'', e_dispatched := True\<rparr>) t"
      unfolding claim_dispatch_Inr by metis
    then have "total_reads u = total_reads t" by (simp add: total_reads_update)
    with oj.spend_fresh [OF c] oj.spend_spent [OF c] assms(2) ch show ?thesis
      by (auto simp: sound_def)
  next
    case False
    with assms(1) have "u = t" unfolding claim_dispatch_Inr by metis
    with assms(2) False show ?thesis by simp
  qed
qed


section \<open>Every session keeps the invariant\<close>

abbreviation safe :: "cstate \<Rightarrow> bool" where
  "safe s \<equiv> sound (view s)"

lemma silent_safe: "silent view m \<Longrightarrow> keeps safe m"
  by (rule keeps_silent)

lemma journal_safe:
  assumes "\<And>t x u z. f t = Inr (x, u) \<Longrightarrow> sound (t, z) \<Longrightarrow> sound (u, z)"
  shows "keeps safe (journal_call env c d f)"
  by (rule hoare_keeps, rule journal_hoare [where B = "\<lambda>_. True" and C = "\<lambda>_ _. True"]) (auto dest: assms)

lemma journal_safes:
  "keeps safe (journal_call env c d (latch i))"
  "keeps safe (journal_call env c d (advance p s r))"
  "keeps safe (journal_call env c d (get k))"
  "keeps safe (journal_call env c d (settle k ph))"
  "keeps safe (journal_call env c d (claim_reconcile k))"
  by (rule journal_safe, erule (1) latch_sound advance_sound get_sound settle_sound claim_reconcile_sound)+

text \<open>A granted read pays for the observation that follows it.\<close>

lemma read_hoare:
  "hoare safe (\<lambda>s. snd (snd (view s)) + 1 \<le> total_reads (fst (view s)))
     (emit (\<lambda>tr. n_read env tr sql d) (CRead sql d)) (\<lambda>_ _. True)"
  by (auto simp: hoare_def emit_def view_def Let_def sound_def)

lemma silent_at: "silent view m \<Longrightarrow> hoare safe (\<lambda>s. B (view s)) m (\<lambda>_ s. B (view s))"
  by (rule hoare_silent)

lemma observe_query_safe: "keeps safe (observe_query env c rec i files name)"
proof -
  let ?B = "\<lambda>v. snd (snd v) + 1 \<le> total_reads (fst v)"
  have grant: "hoare safe (\<lambda>_. True) (journal_call env c d (spend_read (key i))) (\<lambda>x s. x \<longrightarrow> ?B (view s))" for d
    by (rule journal_hoare [where B = "\<lambda>_. True" and C = "\<lambda>x v. x \<longrightarrow> ?B v", simplified]) (use spend_read_sound in fastforce)
  have chk: "hoare safe (\<lambda>s. ?B (view s)) (check env c rec i) (\<lambda>_ s. ?B (view s))"
    by (rule silent_at) simp
  have tail: "hoare safe (\<lambda>_. True) (then_act (check env c rec i) (return_act r)) (\<lambda>_ _. True)" for r
    by (intro keeps_hoare keeps_then keeps_pure silent_safe silent_check)
  have found: "hoare safe (\<lambda>s. ?B (view s)) (lift_res (source_text files name)) (\<lambda>_ s. ?B (view s))"
    by (rule silent_at) simp
  have after: "hoare safe (\<lambda>s. ?B (view s)) (bind_act (check env c rec i) (\<lambda>until.
     bind_act (lift_res (source_text files name)) (\<lambda>sql.
     bind_act (emit (\<lambda>tr. n_read env tr sql until) (CRead sql until)) (\<lambda>r.
     then_act (check env c rec i) (return_act r))))) (\<lambda>_ _. True)"
    by (intro hoare_bind [OF chk] hoare_bind [OF found] hoare_bind [OF read_hoare] tail)
  have granted: "hoare safe (\<lambda>s. x \<longrightarrow> ?B (view s)) (then_act (require_act x ''read_budget_exhausted'')
     (bind_act (check env c rec i) (\<lambda>until.
     bind_act (lift_res (source_text files name)) (\<lambda>sql.
     bind_act (emit (\<lambda>tr. n_read env tr sql until) (CRead sql until)) (\<lambda>r.
     then_act (check env c rec i) (return_act r)))))) (\<lambda>_ _. True)" for x
    by (rule hoare_then [OF hoare_require], rule hoare_pre [OF after]) auto
  have start: "hoare safe (\<lambda>_. True) (check env c rec i) (\<lambda>_ _. True)"
    by (rule keeps_hoare [OF silent_safe]) simp
  show ?thesis
    unfolding observe_query_def
    by (rule hoare_keeps [where Q = "\<lambda>_ _. True"], intro hoare_bind [OF start] hoare_bind [OF grant] granted)
qed

lemma observe_safe: "keeps safe (observe env c rec i)"
  unfolding observe_def
  by (intro keeps_bind keeps_then keeps_pure silent_safe silent_source_files observe_query_safe)

lemma settle_journal_safe: "keeps safe (settle_journal env c rec i phase)"
  unfolding settle_journal_def
  by (intro keeps_bind silent_safe silent_check journal_safes)

lemma flag_safe: "keeps safe (modify_act (\<lambda>s. s\<lparr>k_claimed := b\<rparr>))"
  by (rule silent_safe, rule silent_modify) (simp add: view_def)

text \<open>The only dispatch: after the journal granted the claim, and only for that intent.\<close>

lemma dispatch_hoare:
  "hoare safe (\<lambda>s. key i \<in> claimed (fst (view s)) \<and> key i \<notin> set (fst (snd (view s))))
     (emit (\<lambda>tr. n_dispatch env tr i sql d) (CDispatch i sql d)) (\<lambda>_ _. True)"
  by (auto simp: hoare_def emit_def view_def Let_def sound_def)

lemma dispatch_try_safe: "keeps safe (dispatch_try env c i)"
proof -
  let ?B = "\<lambda>v. key i \<in> claimed (fst v) \<and> key i \<notin> set (fst (snd v))"
  have grant: "hoare safe (\<lambda>_. True) (journal_call env c d (claim_dispatch (key i))) (\<lambda>x s. x \<longrightarrow> ?B (view s))" for d
    by (rule journal_hoare [where B = "\<lambda>_. True" and C = "\<lambda>x v. x \<longrightarrow> ?B v", simplified]) (use claim_dispatch_sound in fastforce)
  have at: "hoare safe (\<lambda>s. ?B (view s)) m (\<lambda>_ s. ?B (view s))" if "silent view m" for m :: "(cstate, 'b) act"
    by (rule silent_at [OF that])
  have tail: "keeps safe (then_act (check env c False i) (bind_act (lift_res (receipt_changes receipt)) (\<lambda>changes.
     if changes = 0 then then_act (settle_journal env c False i ''refused'') (then_act (check env c False i)
         (return_act (Result ''refused'' ''zero_affected_rows'')))
     else then_act (require_act (changes = 1) ''affected_rows_not_one'') (bind_act (observe env c False i) (\<lambda>observed.
       then_act (require_act (observed = (next_generation i, target i)) ''transition_readback_mismatch'')
      (then_act (settle_journal env c False i ''confirmed'') (then_act (check env c False i)
      (bind_act (gets_act k_last) (\<lambda>last. return_act \<lparr>status = ''confirmed'',
        reason = ''one_row_and_independent_readback'', observed_generation = Some (fst observed),
        observed_state = Some (snd observed), confirmed_at = Some (Tick last)\<rparr>)))))))))" for receipt
    by (intro keeps_then keeps_bind keeps_if keeps_pure silent_safe silent_check settle_journal_safe observe_safe)
  have send: "hoare safe (\<lambda>s. ?B (view s))
    (then_act (check env c False i) (bind_act (source_files env c) (\<lambda>files.
     bind_act (lift_res (source_text files (operation i @ ''.sql''))) (\<lambda>sql.
     bind_act (check env c False i) (\<lambda>until.
     bind_act (emit (\<lambda>tr. n_dispatch env tr i sql until) (CDispatch i sql until)) k))))) (\<lambda>_ _. True)"
    if "\<And>r. keeps safe (k r)" for k :: "pyval \<Rightarrow> (cstate, result) act"
    by (intro hoare_then [OF at] hoare_bind [OF at] hoare_bind [OF dispatch_hoare] keeps_hoare that
          silent_check silent_source_files silent_pure)
  have claimed: "hoare safe (\<lambda>s. x \<longrightarrow> ?B (view s)) (then_act (require_act x ''dispatch_claim_unconfirmed'') m) (\<lambda>_ _. True)"
    if "hoare safe (\<lambda>s. ?B (view s)) m (\<lambda>_ _. True)" for x and m :: "(cstate, result) act"
    by (rule hoare_then [OF hoare_require], rule hoare_pre [OF that]) auto
  have start: "hoare safe (\<lambda>_. True) m (\<lambda>_ _. True)" if "keeps safe m" for m :: "(cstate, 'b) act"
    by (rule keeps_hoare [OF that])
  show ?thesis
    unfolding dispatch_try_def
    by (rule hoare_keeps [where Q = "\<lambda>_ _. True"],
        intro hoare_bind [OF grant] claimed send tail hoare_then [OF start] hoare_bind [OF start]
          silent_safe silent_check observe_safe flag_safe keeps_pure)
qed

lemma dispatch_reserved_safe: "keeps safe (dispatch_reserved env c i)"
  unfolding dispatch_reserved_def dispatch_failed_def Let_def
  by (intro keeps_then keeps_catch flag_safe dispatch_try_safe keeps_bind keeps_pure settle_journal_safe)

lemma execute_safe: "keeps safe (execute env c i)"
  unfolding execute_def execute_reserve_def
  by (auto intro!: keeps_bind keeps_catch keeps_then silent_safe [OF silent_check] journal_safes dispatch_reserved_safe
      split: option.split)

lemma advance_safe: "keeps safe (control_advance env c p s ref)"
  unfolding control_advance_def advance_reserve_def
  by (auto intro!: keeps_bind keeps_catch keeps_then silent_safe [OF silent_check] silent_safe [OF silent_emit]
        journal_safes dispatch_reserved_safe split: option.split)

lemma reconcile_safe: "keeps safe (reconcile env c i)"
  unfolding reconcile_def reconcile_try_def
  by (auto intro!: keeps_bind keeps_catch keeps_then silent_safe [OF silent_check] journal_safes observe_safe)

lemma session_safe:
  assumes "sound (fst y, sent (snd y), reads (snd y))"
  shows "sound (fst (session x y), sent (snd (session x y)), reads (snd (session x y)))"
proof -
  obtain env c clock call where x: "x = (env, c, clock, call)" by (cases x) auto
  let ?s = "\<lparr>k_tables = fst y, k_trace = snd y, k_last = clock, k_claimed = False\<rparr>"
  have "keeps safe (perform env c call)"
    by (cases call) (simp_all add: perform_def execute_safe advance_safe reconcile_safe)
  moreover have "safe ?s" using assms by (simp add: view_def)
  ultimately have "safe (snd (perform env c call ?s))" by (simp add: keeps_def)
  then show ?thesis by (simp add: session_def x Let_def view_def)
qed

lemma sessions_safe:
  "sound (fst y, sent (snd y), reads (snd y)) \<Longrightarrow>
   sound (fst (sessions xs y), sent (snd (sessions xs y)), reads (snd (sessions xs y)))"
proof (induction xs arbitrary: y)
  case (Cons x xs)
  show ?case unfolding sessions.simps by (rule Cons.IH) (rule session_safe [OF Cons.prems])
qed simp

lemma sound_start: "sound (provisioned tid packet, [], 0)"
  by (simp add: sound_def chain_provisioned total_reads_def) (simp add: provisioned_def)


section \<open>What the root allows\<close>

text \<open>What the root intent of a journal allows.\<close>

definition transitions_allowed :: "tables \<Rightarrow> int" where
  "transitions_allowed t = (case entries t of [] \<Rightarrow> 0 | (_, e) # _ \<Rightarrow> transition_limit (e_intent e))"

definition reads_allowed :: "tables \<Rightarrow> int" where
  "reads_allowed t = (case entries t of [] \<Rightarrow> 0 | (_, e) # _ \<Rightarrow> read_limit (e_intent e))"

lemma chain_limits:
  assumes "chain t"
  shows "int (length (entries t)) \<le> transitions_allowed t \<and> transitions_allowed t \<le> 3 \<and>
    total_reads t \<le> reads_allowed t \<and> reads_allowed t \<le> 16"
proof (cases "entries t")
  case (Cons x xs)
  then have "root_ok (int (length (entries t))) x" "entry_ok t x" using assms by (auto simp: chain_def)
  then show ?thesis
    using Cons by (cases x)
      (auto simp: transitions_allowed_def reads_allowed_def total_reads_def root_ok_def entry_ok_def valid_intent_def
        bind_res_Inr read_limit_def)
qed (simp add: transitions_allowed_def reads_allowed_def total_reads_def)

lemma claimed_keys: "claimed t \<subseteq> set (map fst (entries t))"
  by (auto simp: claimed_def dest: map_of_SomeD intro: rev_image_eqI)

lemma sound_limits:
  assumes "sound (t, ks, n)"
  shows "distinct ks \<and> set ks \<subseteq> claimed t \<and> int (length ks) \<le> transitions_allowed t \<and> n \<le> reads_allowed t \<and>
    length ks \<le> 3 \<and> n \<le> 16"
proof -
  have "chain t" and d: "distinct ks" and s: "set ks \<subseteq> claimed t" and n: "n \<le> total_reads t"
    using assms by (simp_all add: sound_def)
  have "length ks = card (set ks)" using d by (simp add: distinct_card)
  also have "\<dots> \<le> card (set (map fst (entries t)))" by (rule card_mono) (use s claimed_keys in auto)
  also have "\<dots> \<le> length (entries t)" by (metis card_length length_map)
  finally show ?thesis using chain_limits [OF \<open>chain t\<close>] d s n by auto
qed

end
