(* ===== verification/Operator_Lease.thy ===== *)
theory Operator_Lease
  imports Operator_Invariants
begin

text \<open>
  The contract of the operator journal (protocol \<open>Journal\<close> of
  \<open>probes/pmb1-d1-adapter/adapter.py\<close>) as a small machine: one reservation, never released,
  with a current intent, the consumed intents before it and two shared counters. The tables
  of the SQLite journal implement it: on every chain an operation of the journal answers
  what the contract answers and leaves the tables of the contract's next state.
\<close>

section \<open>The contract\<close>

record slot =
  s_intent :: intent
  s_phase :: string
  s_dispatched :: bool

record lease =
  past :: "(slot \<times> string) list"
  current :: slot
  spent_reads :: int
  spent_reconciliations :: int

type_synonym 'a lop = "lease option \<Rightarrow> ('a \<times> lease option) res"

definition slot_key :: "slot \<Rightarrow> string" where
  "slot_key x = key (s_intent x)"

definition held :: "lease \<Rightarrow> string list" where
  "held l = map (\<lambda>x. slot_key (fst x)) (past l) @ [slot_key (current l)]"

text \<open>An operation on a key that was never reserved is refused.\<close>

definition with_lease :: "string \<Rightarrow> (lease \<Rightarrow> ('a \<times> lease) res) \<Rightarrow> 'a lop" where
  "with_lease k f l = (case l of
     None \<Rightarrow> Inl (Refused ''external_journal_unknown_key'')
   | Some x \<Rightarrow> if k \<in> set (held x) then bind_res (f x) (\<lambda>(a, y). Inr (a, Some y))
       else Inl (Refused ''external_journal_unknown_key''))"

definition lease_latch :: "intent \<Rightarrow> bool lop" where
  "lease_latch i l = (case l of
     Some x \<Rightarrow> Inr (False, Some x)
   | None \<Rightarrow> Inr (True, Some \<lparr>past = [], current = \<lparr>s_intent = i, s_phase = ''latched'', s_dispatched = False\<rparr>,
       spent_reads = 0, spent_reconciliations = 0\<rparr>))"

definition lease_spend_read :: "string \<Rightarrow> bool lop" where
  "lease_spend_read k = with_lease k (\<lambda>x.
     if spent_reads x < read_limit (s_intent (current x)) then Inr (True, x\<lparr>spent_reads := spent_reads x + 1\<rparr>)
     else Inr (False, x))"

definition lease_claim_dispatch :: "string \<Rightarrow> bool lop" where
  "lease_claim_dispatch k = with_lease k (\<lambda>x.
     if slot_key (current x) = k \<and> s_phase (current x) = ''latched'' \<and> \<not> s_dispatched (current x)
     then Inr (True, x\<lparr>current := (current x)\<lparr>s_phase := ''dispatching'', s_dispatched := True\<rparr>\<rparr>)
     else Inr (False, x))"

definition lease_claim_reconcile :: "string \<Rightarrow> bool lop" where
  "lease_claim_reconcile k = with_lease k (\<lambda>x.
     if (slot_key (current x) = k \<longrightarrow> s_dispatched (current x)) \<and> spent_reconciliations x < 2
     then Inr (True, x\<lparr>spent_reconciliations := spent_reconciliations x + 1\<rparr>)
     else Inr (False, x))"

definition lease_settle :: "string \<Rightarrow> string \<Rightarrow> unit lop" where
  "lease_settle k phase l =
     bind_res (require (phase \<in> {''refused'', ''unknown'', ''confirmed''}) ''external_journal_phase'') (\<lambda>_.
     with_lease k (\<lambda>x.
       bind_res (require (slot_key (current x) = k) ''external_journal_consumed'') (\<lambda>_.
       bind_res (require (phase = ''confirmed'' \<longrightarrow> s_dispatched (current x)) ''external_journal_unclaimed_confirmation'') (\<lambda>_.
       Inr ((), x\<lparr>current := (current x)\<lparr>s_phase := phase\<rparr>\<rparr>)))) l)"

text \<open>
  The compare-and-swap of the current reservation to one successor: the adjacent transition in
  the reverse direction, in the same scope, with an unused key and an unused receipt, while
  the campaign has a transition left.
\<close>

definition adjacent :: "intent \<Rightarrow> intent \<Rightarrow> bool" where
  "adjacent p s \<longleftrightarrow> candidate s = candidate p \<and> window s = window p \<and>
     transition_limit s = transition_limit p \<and> operation s \<noteq> operation p \<and> expected s = next_generation p"

definition lease_advance :: "intent \<Rightarrow> intent \<Rightarrow> confirmed_receipt \<Rightarrow> bool lop" where
  "lease_advance p s r = with_lease (key p) (\<lambda>x.
     if s_intent (current x) = p \<and> s_phase (current x) = ''confirmed'' \<and>
        int (length (past x)) + 1 < transition_limit p \<and> adjacent p s \<and> receipt_matches r p \<and>
        key s \<notin> set (held x) \<and> reference r \<notin> set (map snd (past x))
     then Inr (True, x\<lparr>past := past x @ [(current x, reference r)],
            current := \<lparr>s_intent = s, s_phase = ''latched'', s_dispatched = False\<rparr>\<rparr>)
     else Inr (False, x))"


section \<open>Abstraction\<close>

definition slot_of :: "entry \<Rightarrow> slot" where
  "slot_of e = \<lparr>s_intent = e_intent e, s_phase = e_phase e, s_dispatched = e_dispatched e\<rparr>"

definition past_of :: "(string \<times> entry) list \<Rightarrow> (slot \<times> string) list" where
  "past_of es = map (\<lambda>x. (slot_of (snd x), the (e_confirmation (snd x)))) (butlast es)"

definition lease_of :: "tables \<Rightarrow> lease option" where
  "lease_of t = (if entries t = [] then None else Some
     \<lparr>past = past_of (entries t), current = slot_of (snd (last (entries t))),
      spent_reads = e_reads (snd (hd (entries t))),
      spent_reconciliations = e_reconciliations (snd (hd (entries t)))\<rparr>)"

text \<open>What an operation of the journal answers, and the contract's state of the tables it leaves.\<close>

definition abstracted :: "('a \<times> tables) res \<Rightarrow> ('a \<times> lease option) res" where
  "abstracted r = bind_res r (\<lambda>(x, t). Inr (x, lease_of t))"

lemma slot_of_simps [simp]:
  "s_intent (slot_of e) = e_intent e" "s_phase (slot_of e) = e_phase e" "s_dispatched (slot_of e) = e_dispatched e"
  by (simp_all add: slot_of_def)

lemma chain_keys:
  assumes "chain t" and "x \<in> set (entries t)"
  shows "key (e_intent (snd x)) = fst x"
  using assms by (simp add: chain_def entry_ok_def)

lemma held_keys:
  assumes "chain t" and "lease_of t = Some l"
  shows "held l = map fst (entries t)"
proof -
  have ne: "entries t \<noteq> []" and l: "past l = past_of (entries t)" "current l = slot_of (snd (last (entries t)))"
    using assms(2) by (auto simp: lease_of_def split: if_splits)
  have "held l = map (\<lambda>x. key (e_intent (snd x))) (butlast (entries t) @ [last (entries t)])"
    by (simp add: held_def l past_of_def slot_key_def comp_def)
  also have "\<dots> = map (\<lambda>x. key (e_intent (snd x))) (entries t)" using ne by simp
  also have "\<dots> = map fst (entries t)" using chain_keys [OF assms(1)] by simp
  finally show ?thesis .
qed

text \<open>The shape of non-empty tables: the consumed entries and the tip.\<close>

lemma chain_split:
  assumes "chain t" and "entries t \<noteq> []"
  obtains pre k e where "entries t = pre @ [(k, e)]" and "k \<notin> fst ` set pre" and "key (e_intent e) = k"
    and "b_active t = Some k" and "e_successor e = None" and "e_confirmation e = None"
    and "\<And>x. x \<in> set pre \<Longrightarrow> e_successor (snd x) \<noteq> None \<and> e_dispatched (snd x) \<and> e_confirmation (snd x) \<noteq> None"
proof -
  obtain pre k e where t: "entries t = pre @ [(k, e)]"
    using assms(2) by (metis append_butlast_last_id prod.collapse)
  have d: "distinct (map fst (entries t))" and s: "successively follows (entries t)"
    and tip: "tip_ok t (k, e)" using assms by (simp_all add: chain_def t)
  have used: "e_successor (snd x) \<noteq> None \<and> e_dispatched (snd x) \<and> e_confirmation (snd x) \<noteq> None"
    if x: "x \<in> set pre" for x
  proof -
    obtain a b where "pre = a @ x # b" using x by (auto simp: in_set_conv_decomp)
    then have "entries t = a @ [x] @ (b @ [(k, e)])" by (simp add: t)
    then have "successively follows ([x] @ (b @ [(k, e)]))"
      using s by (simp only: successively_append_iff)
    then have "follows x (hd (b @ [(k, e)]))" by (cases b) auto
    then show ?thesis by (simp add: follows_def)
  qed
  show thesis
    by (rule that [OF t]) (use d tip t used chain_keys [OF assms(1), of "(k, e)"] in \<open>auto simp: tip_ok_def\<close>)
qed

section \<open>Refinement\<close>

lemma lease_of_Nil: "entries t = [] \<Longrightarrow> lease_of t = None"
  by (simp add: lease_of_def)

lemma find_lease:
  assumes "chain t" and "lease_of t = Some l"
  shows "find_entry k t = (if k \<in> set (held l) then Inr (the (map_of (entries t) k))
    else Inl (Refused ''external_journal_unknown_key''))"
  using held_keys [OF assms] map_of_eq_None_iff [of "entries t" k]
  by (auto simp: find_entry_def split: option.split)

text \<open>One argument serves every operation that looks its key up first.\<close>

lemma refines_lookup:
  assumes "chain t"
    and "\<And>l e. lease_of t = Some l \<Longrightarrow> map_of (entries t) k = Some e \<Longrightarrow>
      abstracted (f e) = bind_res (g l) (\<lambda>(a, y). Inr (a, Some y))"
  shows "abstracted (bind_res (find_entry k t) f) = with_lease k g (lease_of t)"
proof (cases "lease_of t")
  case None
  then have "entries t = []" by (simp add: lease_of_def split: if_splits)
  with None show ?thesis by (simp add: abstracted_def with_lease_def find_entry_def)
next
  case (Some l)
  show ?thesis
  proof (cases "k \<in> set (held l)")
    case True
    with held_keys [OF assms(1) Some] obtain e where "map_of (entries t) k = Some e"
      by (metis map_of_eq_None_iff not_None_eq list.set_map)
    with True Some assms(2) show ?thesis by (simp add: with_lease_def find_entry_def)
  next
    case False
    with Some find_lease [OF assms(1) Some, of k] show ?thesis by (simp add: with_lease_def abstracted_def)
  qed
qed

lemma abstracted_simps [simp]:
  "abstracted (Inr (x, t)) = Inr (x, lease_of t)" "abstracted (Inl e) = Inl e"
  "abstracted (bind_res (require b c) f) = bind_res (require b c) (\<lambda>u. abstracted (f u))"
  by (simp_all add: abstracted_def require_def)

text \<open>The state after an update of the tip, and of the counters of the root.\<close>

lemma lease_tip:
  assumes "chain t" and "lease_of t = Some l" and "slot_key (current l) = k"
    and "e_reads (f (snd (last (entries t)))) = e_reads (snd (last (entries t)))"
      "e_reconciliations (f (snd (last (entries t)))) = e_reconciliations (snd (last (entries t)))"
  shows "lease_of (update_entry k f t) = Some (l\<lparr>current := slot_of (f (snd (last (entries t))))\<rparr>)"
proof -
  have ne: "entries t \<noteq> []" and l: "l = \<lparr>past = past_of (entries t), current = slot_of (snd (last (entries t))),
      spent_reads = e_reads (snd (hd (entries t))), spent_reconciliations = e_reconciliations (snd (hd (entries t)))\<rparr>"
    using assms(2) by (auto simp: lease_of_def split: if_splits)
  obtain pre k' e where t: "entries t = pre @ [(k', e)]" and k': "key (e_intent e) = k'"
    using chain_split [OF assms(1) ne] by metis
  have "k' = k" using assms(3) l t k' by (simp add: slot_key_def)
  moreover have "distinct (map fst (entries t))" using assms(1) by (simp add: chain_def)
  ultimately have "entries (update_entry k f t) = pre @ [(k, f e)]" using update_last t by simp
  then show ?thesis
    using assms(4,5) by (cases pre) (auto simp: lease_of_def l t past_of_def)
qed

lemma lease_root:
  assumes "chain t" and "lease_of t = Some l"
    and f: "\<And>e. slot_of (f e) = slot_of e" "\<And>e. e_confirmation (f e) = e_confirmation e"
  shows "lease_of (update_entry (fst (hd (entries t))) f t) = Some (l\<lparr>spent_reads := e_reads (f (snd (hd (entries t)))),
      spent_reconciliations := e_reconciliations (f (snd (hd (entries t))))\<rparr>)"
proof -
  obtain r e es where t: "entries t = (r, e) # es" using assms(2)
    by (cases "entries t") (auto simp: lease_of_def)
  have "fst x \<noteq> r" if "x \<in> set es" for x
    using assms(1) that by (force simp: chain_def t)
  then have "map (\<lambda>(k', e). (k', if k' = r then f e else e)) es = es" by (intro map_idI) auto
  then have u: "entries (update_entry r f t) = (r, f e) # es"
    by (simp add: update_entry_def t)
  have l: "l = \<lparr>past = past_of (entries t), current = slot_of (snd (last (entries t))),
      spent_reads = e_reads e, spent_reconciliations = e_reconciliations e\<rparr>"
    using assms(2) by (simp add: lease_of_def t split: if_splits)
  show ?thesis by (cases es) (simp_all add: lease_of_def u l t past_of_def f)
qed

lemma tip_entry:
  assumes "chain t" and "lease_of t = Some l" and "map_of (entries t) k = Some e"
  shows "if slot_key (current l) = k then b_active t = Some k \<and> e = snd (last (entries t)) \<and> e_successor e = None
    else b_active t \<noteq> Some k \<and> e_successor e \<noteq> None \<and> e_dispatched e"
proof -
  have ne: "entries t \<noteq> []" using assms(3) by auto
  obtain pre k' e' where t: "entries t = pre @ [(k', e')]" "k' \<notin> fst ` set pre" "key (e_intent e') = k'"
    "b_active t = Some k'" "e_successor e' = None"
    and pre: "\<And>x. x \<in> set pre \<Longrightarrow> e_successor (snd x) \<noteq> None \<and> e_dispatched (snd x) \<and> e_confirmation (snd x) \<noteq> None"
    using chain_split [OF assms(1) ne] by metis
  have c: "current l = slot_of e'" using assms(2) by (auto simp: lease_of_def t(1) split: if_splits)
  show ?thesis
  proof (cases "k = k'")
    case True
    have "distinct (map fst (entries t))" using assms(1) by (simp add: chain_def)
    moreover have "(k', e') \<in> set (entries t)" by (simp add: t(1))
    ultimately have "map_of (entries t) k' = Some e'" by simp
    with assms(3) True have "e = e'" by simp
    with True t show ?thesis by (simp add: c slot_key_def)
  next
    case False
    with map_of_SomeD [OF assms(3)] t(1) have "(k, e) \<in> set pre" by auto
    with pre [of "(k, e)"] False t(3,4) show ?thesis by (simp add: c slot_key_def)
  qed
qed

text \<open>The operations, one by one.\<close>

lemma refines_latch:
  assumes "valid_intent t i = Inr ()" and "generation_number i + transition_limit i \<le> MAX_GENERATION"
  shows "abstracted (latch i t) = lease_latch i (lease_of t)"
  using assms
  by (auto simp: latch_def lease_latch_def lease_of_def insert_entry_def new_entry_def past_of_def slot_of_def require_def)

lemma refines_spend_read:
  assumes c: "chain t"
  shows "abstracted (spend_read k t) = lease_spend_read k (lease_of t)"
  unfolding spend_read_def lease_spend_read_def
proof (rule refines_lookup [OF c])
  fix l e assume l: "lease_of t = Some l" and e: "map_of (entries t) k = Some e"
  let ?h = "snd (hd (entries t))" and ?f = "\<lambda>e. e\<lparr>e_reads := e_reads e + 1\<rparr>"
  note root = chain_root_entry [OF c e]
  have "same_scope (e_intent (snd (last (entries t)))) (e_intent ?h)"
    using c root(1) chain_scope [of "entries t" "last (entries t)"] by (simp add: chain_def)
  then have lim: "read_limit (e_intent ?h) = read_limit (s_intent (current l))" and r: "spent_reads l = e_reads ?h"
    using l by (auto simp: lease_of_def read_limit_def same_scope_def split: if_splits)
  have "lease_of (update_entry (fst (hd (entries t))) ?f t) = Some (l\<lparr>spent_reads := spent_reads l + 1\<rparr>)"
    using lease_root [OF c l, of ?f] l by (auto simp: slot_of_def lease_of_def split: if_splits)
  with root lim r l show "abstracted (bind_res (find_entry (e_root e) t) (\<lambda>root.
      if e_reads root \<ge> read_limit (e_intent root) then Inr (False, t) else Inr (True, update_entry (e_root e) ?f t)))
    = bind_res (if spent_reads l < read_limit (s_intent (current l))
         then Inr (True, l\<lparr>spent_reads := spent_reads l + 1\<rparr>) else Inr (False, l)) (\<lambda>(a, y). Inr (a, Some y))"
    by (auto simp: find_entry_def)
qed

lemma refines_claim_reconcile:
  assumes c: "chain t"
  shows "abstracted (claim_reconcile k t) = lease_claim_reconcile k (lease_of t)"
  unfolding claim_reconcile_def lease_claim_reconcile_def
proof (rule refines_lookup [OF c])
  fix l e assume l: "lease_of t = Some l" and e: "map_of (entries t) k = Some e"
  let ?h = "snd (hd (entries t))" and ?f = "\<lambda>e. e\<lparr>e_reconciliations := e_reconciliations e + 1\<rparr>"
  note root = chain_root_entry [OF c e]
  have d: "e_dispatched e \<longleftrightarrow> (slot_key (current l) = k \<longrightarrow> s_dispatched (current l))"
    using tip_entry [OF c l e] l by (auto simp: lease_of_def split: if_splits)
  have r: "spent_reconciliations l = e_reconciliations ?h" using l by (auto simp: lease_of_def split: if_splits)
  have "lease_of (update_entry (fst (hd (entries t))) ?f t) = Some (l\<lparr>spent_reconciliations := spent_reconciliations l + 1\<rparr>)"
    using lease_root [OF c l, of ?f] l by (auto simp: slot_of_def lease_of_def split: if_splits)
  with root d r l show "abstracted (bind_res (find_entry (e_root e) t) (\<lambda>root.
      if \<not> e_dispatched e \<or> e_reconciliations root \<ge> 2 then Inr (False, t) else Inr (True, update_entry (e_root e) ?f t)))
    = bind_res (if (slot_key (current l) = k \<longrightarrow> s_dispatched (current l)) \<and> spent_reconciliations l < 2
         then Inr (True, l\<lparr>spent_reconciliations := spent_reconciliations l + 1\<rparr>) else Inr (False, l))
       (\<lambda>(a, y). Inr (a, Some y))"
    by (simp add: find_entry_def)
qed

lemma refines_claim_dispatch:
  assumes c: "chain t"
  shows "abstracted (claim_dispatch k t) = lease_claim_dispatch k (lease_of t)"
  unfolding claim_dispatch_def lease_claim_dispatch_def
proof (rule refines_lookup [OF c])
  fix l e assume l: "lease_of t = Some l" and e: "map_of (entries t) k = Some e"
  let ?f = "\<lambda>e. e\<lparr>e_phase := ''dispatching'', e_dispatched := True\<rparr>"
  have cur: "current l = slot_of (snd (last (entries t)))" using l by (auto simp: lease_of_def split: if_splits)
  have "slot_key (current l) = k \<Longrightarrow>
      lease_of (update_entry k ?f t) = Some (l\<lparr>current := (current l)\<lparr>s_phase := ''dispatching'', s_dispatched := True\<rparr>\<rparr>)"
    using lease_tip [OF c l, of k ?f] cur by (simp add: slot_of_def)
  with tip_entry [OF c l e] cur l show "abstracted (if e_phase e \<noteq> ''latched'' \<or> e_dispatched e \<or> b_active t \<noteq> Some k
      then Inr (False, t) else Inr (True, update_entry k ?f t))
    = bind_res (if slot_key (current l) = k \<and> s_phase (current l) = ''latched'' \<and> \<not> s_dispatched (current l)
         then Inr (True, l\<lparr>current := (current l)\<lparr>s_phase := ''dispatching'', s_dispatched := True\<rparr>\<rparr>)
         else Inr (False, l)) (\<lambda>(a, y). Inr (a, Some y))"
    by (auto split: if_splits)
qed

lemma refines_settle:
  assumes c: "chain t"
  shows "abstracted (settle k phase t) = lease_settle k phase (lease_of t)"
proof -
  let ?f = "\<lambda>e. e\<lparr>e_phase := phase\<rparr>"
  have "abstracted (bind_res (find_entry k t) (\<lambda>row.
     bind_res (require (e_successor row = None) ''external_journal_consumed'') (\<lambda>_.
     bind_res (require (phase = ''confirmed'' \<longrightarrow> e_dispatched row) ''external_journal_unclaimed_confirmation'') (\<lambda>_.
     Inr ((), update_entry k ?f t)))))
   = with_lease k (\<lambda>x.
       bind_res (require (slot_key (current x) = k) ''external_journal_consumed'') (\<lambda>_.
       bind_res (require (phase = ''confirmed'' \<longrightarrow> s_dispatched (current x)) ''external_journal_unclaimed_confirmation'') (\<lambda>_.
       Inr ((), x\<lparr>current := (current x)\<lparr>s_phase := phase\<rparr>\<rparr>)))) (lease_of t)"
  proof (rule refines_lookup [OF c])
    fix l e assume l: "lease_of t = Some l" and e: "map_of (entries t) k = Some e"
    have cur: "current l = slot_of (snd (last (entries t)))" using l by (auto simp: lease_of_def split: if_splits)
    have "slot_key (current l) = k \<Longrightarrow>
        lease_of (update_entry k ?f t) = Some (l\<lparr>current := (current l)\<lparr>s_phase := phase\<rparr>\<rparr>)"
      using lease_tip [OF c l, of k ?f] cur by (simp add: slot_of_def)
    with tip_entry [OF c l e] cur show "abstracted (
       bind_res (require (e_successor e = None) ''external_journal_consumed'') (\<lambda>_.
       bind_res (require (phase = ''confirmed'' \<longrightarrow> e_dispatched e) ''external_journal_unclaimed_confirmation'') (\<lambda>_.
       Inr ((), update_entry k ?f t))))
     = bind_res (bind_res (require (slot_key (current l) = k) ''external_journal_consumed'') (\<lambda>_.
       bind_res (require (phase = ''confirmed'' \<longrightarrow> s_dispatched (current l)) ''external_journal_unclaimed_confirmation'') (\<lambda>_.
       Inr ((), l\<lparr>current := (current l)\<lparr>s_phase := phase\<rparr>\<rparr>)))) (\<lambda>(a, y). Inr (a, Some y))"
      by (auto simp: require_def split: if_splits)
  qed
  then show ?thesis by (simp add: settle_def lease_settle_def)
qed

lemma advance_checks:
  assumes c: "chain t" and l: "lease_of t = Some l" and e: "map_of (entries t) (key p) = Some e"
    and cur: "s_intent (current l) = p" and adj: "adjacent p s" and vp: "valid_intent t p = Inr ()"
  shows "may_advance p s r e (e_intent (snd (hd (entries t)))) t \<longleftrightarrow>
    s_phase (current l) = ''confirmed'' \<and> int (length (past l)) + 1 < transition_limit p \<and>
    receipt_matches r p \<and> key s \<notin> set (held l) \<and> reference r \<notin> set (map snd (past l))"
proof -
  have ne: "entries t \<noteq> []" using e by auto
  obtain pre k' e' where t: "entries t = pre @ [(k', e')]" and k': "key (e_intent e') = k'"
    and tip: "b_active t = Some k'" "e_successor e' = None" "e_confirmation e' = None"
    and pre: "\<And>x. x \<in> set pre \<Longrightarrow> e_successor (snd x) \<noteq> None \<and> e_dispatched (snd x) \<and> e_confirmation (snd x) \<noteq> None"
    using chain_split [OF c ne] by metis
  have l': "current l = slot_of e'" "past l = past_of (entries t)"
    using l by (auto simp: lease_of_def t split: if_splits)
  have "slot_key (current l) = key p" using cur by (simp add: slot_key_def)
  with tip_entry [OF c l e] t have ee: "e = e'" by simp
  have p: "e_intent e = p" "k' = key p" using cur l' ee k' by simp_all
  let ?root = "e_intent (snd (hd (entries t)))"
  have succ: "successively follows (entries t)" and rk: "root_ok (int (length (entries t))) (hd (entries t))"
    using c ne by (simp_all add: chain_def)
  have last: "last (entries t) = (key p, e)" by (simp add: t p(2) ee)
  have scope: "same_scope p ?root"
    using chain_scope [OF succ, of "(key p, e)"] p by (simp add: t ee)
  have ord: "e_ordinal e = int (length (entries t))"
    using chain_ordinal [OF succ ne] rk last by (simp add: root_ok_def)
  have gen: "generation_number p = generation_number ?root + int (length (entries t)) - 1"
    using chain_generation [OF succ ne] last p by simp
  have canon: "expected p = py_str_int (generation_number p)"
    using generation_canonical [OF valid_intent_generation [OF vp]] by (simp add: generation_number_def)
  have gs: "generation_number s = generation_number p + 1"
    using adj next_generation_number [OF valid_intent_generation [OF vp]] by (simp add: adjacent_def generation_number_def)
  have head: "generation_number ?root + transition_limit ?root \<le> MAX_GENERATION" using rk by (simp add: root_ok_def)
  have len: "int (length (past l)) + 1 = int (length (entries t))" by (simp add: l' past_of_def t)
  have conf: "reference r \<in> set (map snd (past l)) \<longleftrightarrow> list_ex (\<lambda>(k, e). e_confirmation e = Some (reference r)) (entries t)"
    using pre tip(3) by (force simp: l' past_of_def t list_ex_iff)
  have keys: "key s \<in> set (held l) \<longleftrightarrow> list_ex (\<lambda>(k, e). k = key s) (entries t)"
    using held_keys [OF c l] by (force simp: list_ex_iff)
  have kp: "key s = key p \<Longrightarrow> key s \<in> set (held l)" using held_keys [OF c l] by (simp add: t p(2))
  have dis: "s_phase (current l) = ''confirmed'' \<Longrightarrow> e_dispatched e"
    using c ee l' by (simp add: chain_def entry_ok_def t)
  have ex: "list_ex (\<lambda>(k, e). k = key s \<or> e_confirmation e = Some (reference r)) (entries t) \<longleftrightarrow>
      key s \<in> set (held l) \<or> reference r \<in> set (map snd (past l))"
    unfolding conf keys by (auto simp: list_ex_iff)
  show ?thesis
    using scope ord gen gs head len tip adj kp dis canon
    unfolding may_advance_def ex same_scope_def adjacent_def
    by (auto simp: p ee l' t p(1) [unfolded ee])
qed

lemma refines_advance:
  assumes c: "chain t" and v: "valid_intent t p = Inr ()" "valid_intent t s = Inr ()"
  shows "abstracted (advance p s r t) = lease_advance p s r (lease_of t)"
proof -
  have "abstracted (bind_res (find_entry (key p) t) (\<lambda>row.
     bind_res (find_entry (e_root row) t) (\<lambda>root.
     bind_res (valid_intent t (e_intent root)) (\<lambda>_.
     if may_advance p s r row (e_intent root) t
     then Inr (True, insert_entry s (e_root row) (e_ordinal row + 1)
        (update_entry (key p) (\<lambda>e. e\<lparr>e_successor := Some (key s), e_confirmation := Some (reference r)\<rparr>) t))
     else Inr (False, t)))))
   = lease_advance p s r (lease_of t)"
    unfolding lease_advance_def
  proof (rule refines_lookup [OF c])
    fix l e assume l: "lease_of t = Some l" and e: "map_of (entries t) (key p) = Some e"
    let ?h = "snd (hd (entries t))"
    let ?u = "insert_entry s (e_root e) (e_ordinal e + 1)
        (update_entry (key p) (\<lambda>e. e\<lparr>e_successor := Some (key s), e_confirmation := Some (reference r)\<rparr>) t)"
    let ?y = "l\<lparr>past := past l @ [(current l, reference r)],
        current := \<lparr>s_intent = s, s_phase = ''latched'', s_dispatched = False\<rparr>\<rparr>"
    let ?c = "s_intent (current l) = p \<and> s_phase (current l) = ''confirmed'' \<and>
        int (length (past l)) + 1 < transition_limit p \<and> adjacent p s \<and> receipt_matches r p \<and>
        key s \<notin> set (held l) \<and> reference r \<notin> set (map snd (past l))"
    note root = chain_root_entry [OF c e]
    have vr: "valid_intent t (e_intent ?h) = Inr ()" using c root(1) by (simp add: chain_def entry_ok_def)
    have cond: "may_advance p s r e (e_intent ?h) t \<longleftrightarrow> ?c"
    proof (cases "s_intent (current l) = p \<and> adjacent p s")
      case True
      with advance_checks [OF c l e _ _ v(1)] show ?thesis by simp
    next
      case False
      have "\<not> may_advance p s r e (e_intent ?h) t"
      proof
        assume m: "may_advance p s r e (e_intent ?h) t"
        have "s_intent (current l) = p" using m tip_entry [OF c l e] l
          by (auto simp: may_advance_def lease_of_def split: if_splits)
        moreover have "adjacent p s" using m by (simp add: may_advance_def adjacent_def advance_tip(6))
            (use advance_tip(6) [OF c e root(3) m] in \<open>simp add: same_scope_def\<close>)
        ultimately show False using False by simp
      qed
      with False show ?thesis by blast
    qed
    have new: "lease_of ?u = Some ?y" if ?c
    proof -
      obtain pre k' e' where t: "entries t = pre @ [(k', e')]" and k': "key (e_intent e') = k'"
        using chain_split [OF c root(1)] by metis
      have l': "l = \<lparr>past = past_of (entries t), current = slot_of e', spent_reads = e_reads ?h,
          spent_reconciliations = e_reconciliations ?h\<rparr>"
        using l by (auto simp: lease_of_def t split: if_splits)
      have "k' = key p" using that l' k' by auto
      moreover have "distinct (map fst (entries t))" using c by (simp add: chain_def)
      ultimately have "entries ?u = (pre @ [(key p, e'\<lparr>e_successor := Some (key s), e_confirmation := Some (reference r)\<rparr>)])
          @ [(key s, new_entry s (e_root e) (e_ordinal e + 1))]"
        using update_last t by (simp add: insert_entry_def)
      then show ?thesis
        by (cases pre) (auto simp: lease_of_def l' t past_of_def new_entry_def slot_of_def butlast_append)
    qed
    show "abstracted (bind_res (find_entry (e_root e) t) (\<lambda>root. bind_res (valid_intent t (e_intent root)) (\<lambda>_.
       if may_advance p s r e (e_intent root) t then Inr (True, ?u) else Inr (False, t))))
     = bind_res (if ?c then Inr (True, ?y) else Inr (False, l)) (\<lambda>(a, y). Inr (a, Some y))"
      using root(3) vr cond new l by (simp add: find_entry_def)
  qed
  then show ?thesis by (simp add: advance_def v)
qed

end
