(* ===== verification/Operator_History.thy ===== *)
theory Operator_History
  imports Operator_Lease
begin

text \<open>
  Histories of the operator journal: any sequence of transactions on one journal file, by any
  adapters, with any clock answers and deadlines. What such a history keeps: the chain of
  transitions, the accounts of the requests, the budgets, and every row already consumed.
\<close>

section \<open>Histories\<close>

datatype jcall =
    JLatch intent
  | JGet string
  | JAdvance intent intent confirmed_receipt
  | JSpendRead string
  | JClaimDispatch string
  | JClaimReconcile string
  | JSettle string string
  | JReserve string int int int
  | JRemaining int
  | JReceived int int
  | JExact string int int int limits "intent option"

definition forget :: "'a jop \<Rightarrow> unit jop" where
  "forget f t = bind_res (f t) (\<lambda>(_, u). Inr ((), u))"

fun joperation :: "jcall \<Rightarrow> unit jop" where
  "joperation (JLatch i) = forget (latch i)"
| "joperation (JGet k) = forget (get k)"
| "joperation (JAdvance p s r) = forget (advance p s r)"
| "joperation (JSpendRead k) = forget (spend_read k)"
| "joperation (JClaimDispatch k) = forget (claim_dispatch k)"
| "joperation (JClaimReconcile k) = forget (claim_reconcile k)"
| "joperation (JSettle k ph) = forget (settle k ph)"
| "joperation (JReserve q a m n) = forget (reserve_request q a m n)"
| "joperation (JRemaining m) = forget (remaining m)"
| "joperation (JReceived n c) = forget (received n c)"
| "joperation (JExact d s a b l i) = forget (reserve_exact_request d s a b l i)"

text \<open>The target and packet of the adapter, the answers of its clock, its deadline, the call.\<close>

type_synonym jentry = "string \<times> string \<times> readings \<times> tick \<times> jcall"

definition jstep :: "jentry \<Rightarrow> tables \<Rightarrow> tables" where
  "jstep x t = (case x of (tid, packet, rd, d, c) \<Rightarrow> snd (transaction tid packet rd d (joperation c) t))"

definition jrun :: "jentry list \<Rightarrow> tables \<Rightarrow> tables" where
  "jrun = fold jstep"

lemma jrun_append: "jrun (xs @ ys) t = jrun ys (jrun xs t)"
  by (simp add: jrun_def)

lemma forget_Inr: "forget f t = Inr (x, u) \<longleftrightarrow> (\<exists>y. f t = Inr (y, u))"
  by (auto simp: forget_def bind_res_Inr)

text \<open>A relation between the tables before and after, checked operation by operation.\<close>

lemma jstep_cases:
  assumes "R t t" and "\<And>u. joperation c t = Inr ((), u) \<Longrightarrow> R t u"
  shows "R t (jstep (tid, packet, rd, d, c) t)"
proof -
  obtain r u where tx: "transaction tid packet rd d (joperation c) t = (r, u)" by force
  from transaction_keeps [OF tx, of "R t"] assms show ?thesis by (auto simp: jstep_def tx)
qed

lemma jrun_induct:
  assumes "I t" and "\<And>t c u. c \<in> calls \<Longrightarrow> I t \<Longrightarrow> joperation c t = Inr ((), u) \<Longrightarrow> I u"
    and "\<And>x. x \<in> set xs \<Longrightarrow> snd (snd (snd (snd x))) \<in> calls"
  shows "I (jrun xs t)"
  using assms(1,3)
proof (induction xs arbitrary: t)
  case (Cons x xs)
  obtain tid packet rd d c where x: "x = (tid, packet, rd, d, c)" by (cases x) auto
  have c: "c \<in> calls" using Cons.prems(2) [of x] by (simp add: x)
  have "I (jstep x t)"
    unfolding x by (rule jstep_cases) (fact Cons.prems(1), rule assms(2) [OF c Cons.prems(1)])
  with Cons show ?case by (simp add: jrun_def)
qed (simp add: jrun_def)


section \<open>Chain and accounts\<close>

lemma joperation_chain: "chain t \<Longrightarrow> joperation c t = Inr ((), u) \<Longrightarrow> chain u"
  by (cases c)
     (auto simp: forget_Inr remaining_def get_def bind_res_Inr
        intro: chain_latch chain_advance chain_spend_read chain_claim_dispatch chain_claim_reconcile chain_settle
          chain_requests)

lemma entry_updates_accounts:
  "b_ordinal (insert_entry i r n t) = b_ordinal t" "b_bytes (insert_entry i r n t) = b_bytes t"
  "requests (insert_entry i r n t) = requests t" "allocations (insert_entry i r n t) = allocations t"
  "batches (insert_entry i r n t) = batches t"
  by (simp_all add: insert_entry_def)

text \<open>The operations on entries leave the request tables alone.\<close>

definition request_tables :: "tables \<Rightarrow> int \<times> int \<times> (int \<times> request) list \<times> (int \<times> int \<times> int) list \<times> (string \<times> int) list" where
  "request_tables t = (b_ordinal t, b_bytes t, requests t, allocations t, batches t)"

lemma request_tables_same:
  "latch i t = Inr (x, u) \<Longrightarrow> request_tables u = request_tables t"
  "advance p s r t = Inr (x, u) \<Longrightarrow> request_tables u = request_tables t"
  "spend_read k t = Inr (x, u) \<Longrightarrow> request_tables u = request_tables t"
  "claim_dispatch k t = Inr (x, u) \<Longrightarrow> request_tables u = request_tables t"
  "claim_reconcile k t = Inr (x, u) \<Longrightarrow> request_tables u = request_tables t"
  "settle k ph t = Inr (y, u) \<Longrightarrow> request_tables u = request_tables t"
  by (auto simp: latch_def advance_def spend_read_def claim_dispatch_def claim_reconcile_def settle_def bind_res_Inr
      request_tables_def entry_updates_accounts split: if_splits)

lemma joperation_requests:
  assumes "joperation c t = Inr ((), u)"
  shows "request_tables u = request_tables t \<or> (\<exists>q a m n x. c = JReserve q a m n \<and> reserve_request q a m n t = Inr (x, u)) \<or>
    (\<exists>n k. c = JReceived n k \<and> received n k t = Inr ((), u)) \<or>
    (\<exists>d s a b l i x. c = JExact d s a b l i \<and> reserve_exact_request d s a b l i t = Inr (x, u))"
  using assms
  by (cases c) (auto simp: forget_Inr remaining_def get_def bind_res_Inr dest: request_tables_same)

lemma accounts_request_tables: "request_tables u = request_tables t \<Longrightarrow> accounts t \<Longrightarrow> accounts u"
  by (auto simp: request_tables_def accounts_def)

lemma spend_batch_same:
  "spend_batch s i t = Inr u \<Longrightarrow> b_ordinal u = b_ordinal t \<and> b_bytes u = b_bytes t \<and> requests u = requests t \<and>
     allocations u = allocations t \<and> entries u = entries t"
  by (auto simp: spend_batch_def bind_res_Inr split: if_splits option.splits)

lemma exact_Inr:
  assumes "reserve_exact_request d s a b l i t = Inr (x, u)"
  obtains v where "limits_shape s b a l" "length (requests t) = length (allocations t)"
    "b_ordinal t < l_requests l" "b_ordinal t + extra_statements t + s \<le> l_statements l"
    "request_bytes_used t + b \<le> l_request_bytes l" "b_bytes t + a \<le> l_response_bytes l"
    "spend_batch s i t = Inr v" "u = (charge_request d a v)\<lparr>allocations := allocations v @ [(b_ordinal v, s, b)]\<rparr>"
  using assms by (auto simp: reserve_exact_request_def bind_res_Inr split: if_splits)

lemma accounts_exact:
  assumes "accounts t" and "reserve_exact_request d s a b l i t = Inr (x, u)"
  shows "accounts u"
proof -
  obtain v where sh: "limits_shape s b a l" and v: "spend_batch s i t = Inr v"
    and u: "u = (charge_request d a v)\<lparr>allocations := allocations v @ [(b_ordinal v, s, b)]\<rparr>"
    using assms(2) by (rule exact_Inr)
  have "accounts v" using assms(1) spend_batch_same [OF v] by (simp add: accounts_def)
  then have "accounts (charge_request d a v)" using sh by (simp add: accounts_charge limits_shape_def)
  then show ?thesis by (simp add: u accounts_def)
qed

lemma joperation_accounts: "accounts t \<Longrightarrow> joperation c t = Inr ((), u) \<Longrightarrow> accounts u"
  by (drule joperation_requests)
     (auto intro: accounts_request_tables accounts_reserve accounts_exact dest: accounts_received)


section \<open>Budgets\<close>

text \<open>A call within given limits, and what the accounts keep of them.\<close>

fun within :: "limits \<Rightarrow> jcall \<Rightarrow> bool" where
  "within L (JReserve q a m n) \<longleftrightarrow> m \<le> l_response_bytes L \<and> n \<le> l_requests L"
| "within L (JExact d s a b l i) \<longleftrightarrow> l_requests l \<le> l_requests L \<and> l_statements l \<le> l_statements L \<and>
     l_request_bytes l \<le> l_request_bytes L \<and> l_response_bytes l \<le> l_response_bytes L"
| "within L _ \<longleftrightarrow> True"

definition statements_used :: "tables \<Rightarrow> int" where
  "statements_used t = sum_list (map (\<lambda>(_, s, _). s) (allocations t))"

definition budgets :: "limits \<Rightarrow> tables \<Rightarrow> bool" where
  "budgets L t \<longleftrightarrow> b_ordinal t \<le> l_requests L \<and> b_bytes t \<le> l_response_bytes L \<and>
     statements_used t \<le> l_statements L \<and> request_bytes_used t \<le> l_request_bytes L \<and>
     int (length (allocations t)) \<le> b_ordinal t"

lemma statements_extra: "statements_used t = extra_statements t + int (length (allocations t))"
proof -
  have "sum_list (map (\<lambda>(_, s, _). s) xs) = sum_list (map (\<lambda>(_, s, _). s - 1) xs) + int (length xs)"
    for xs :: "(int \<times> int \<times> int) list"
    by (induction xs) auto
  then show ?thesis by (simp add: statements_used_def extra_statements_def)
qed

lemma joperation_budgets:
  assumes "within L c" and "budgets L t" and acc: "accounts t" and op: "joperation c t = Inr ((), u)"
  shows "budgets L u"
proof -
  from joperation_requests [OF op] consider
      (same) "request_tables u = request_tables t"
    | (reserve) q a m n x where "c = JReserve q a m n" "reserve_request q a m n t = Inr (x, u)"
    | (receive) n k where "received n k t = Inr ((), u)"
    | (exact) d s a b l i x where "c = JExact d s a b l i" "reserve_exact_request d s a b l i t = Inr (x, u)"
    by blast
  then show ?thesis
  proof cases
    case same
    with assms(2) show ?thesis
      by (simp add: budgets_def request_tables_def statements_used_def request_bytes_used_def)
  next
    case reserve
    with assms(1,2) show ?thesis
      by (auto simp: budgets_def reserve_request_def bind_res_Inr charge_request_def statements_used_def
          request_bytes_used_def split: if_splits)
  next
    case receive
    from receive obtain rs bs where u: "u = t\<lparr>requests := rs, b_bytes := bs\<rparr>"
      by (auto simp: received_def bind_res_Inr split: option.splits)
    moreover have "b_bytes u \<le> b_bytes t" using accounts_received [OF acc receive] by simp
    ultimately show ?thesis
      using assms(2) by (simp add: budgets_def statements_used_def request_bytes_used_def)
  next
    case exact
    obtain v where len: "length (requests t) = length (allocations t)" and b: "b_ordinal t < l_requests l"
        "b_ordinal t + extra_statements t + s \<le> l_statements l" "request_bytes_used t + b \<le> l_request_bytes l"
        "b_bytes t + a \<le> l_response_bytes l" and v: "spend_batch s i t = Inr v"
      and u: "u = (charge_request d a v)\<lparr>allocations := allocations v @ [(b_ordinal v, s, b)]\<rparr>"
      using exact(2) by (rule exact_Inr)
    note same = spend_batch_same [OF v]
    have ord: "b_ordinal t = int (length (allocations t))" using acc len by (simp add: accounts_def)
    have "statements_used u = statements_used t + s"
      using same by (simp add: u statements_used_def charge_request_def)
    moreover have "request_bytes_used u = request_bytes_used t + b"
      using same by (simp add: u request_bytes_used_def charge_request_def)
    ultimately show ?thesis
      using b ord assms(1) exact(1) same statements_extra [of t]
      by (simp add: budgets_def) (simp add: u charge_request_def same)
  qed
qed


section \<open>Rows are never rewritten\<close>

text \<open>
  What later states keep of an entry: its intent and place in the chain, its dispatch marker,
  its counters up to increments, and everything once it is consumed.
\<close>

definition kept_entry :: "entry \<Rightarrow> entry \<Rightarrow> bool" where
  "kept_entry e f \<longleftrightarrow> e_intent f = e_intent e \<and> e_root f = e_root e \<and> e_ordinal f = e_ordinal e \<and>
     (e_dispatched e \<longrightarrow> e_dispatched f) \<and> e_reads e \<le> e_reads f \<and> e_reconciliations e \<le> e_reconciliations f \<and>
     (e_successor e \<noteq> None \<longrightarrow> e_successor f = e_successor e \<and> e_confirmation f = e_confirmation e \<and>
       e_phase f = e_phase e \<and> e_dispatched f = e_dispatched e)"

definition kept :: "tables \<Rightarrow> tables \<Rightarrow> bool" where
  "kept t u \<longleftrightarrow> (\<forall>k e. map_of (entries t) k = Some e \<longrightarrow> (\<exists>f. map_of (entries u) k = Some f \<and> kept_entry e f))"

lemma kept_entry_refl [simp]: "kept_entry e e"
  by (simp add: kept_entry_def)

lemma kept_entry_trans: "kept_entry e f \<Longrightarrow> kept_entry f g \<Longrightarrow> kept_entry e g"
  unfolding kept_entry_def by force

lemma kept_trans: "kept t u \<Longrightarrow> kept u v \<Longrightarrow> kept t v"
  unfolding kept_def by (meson kept_entry_trans)

lemma kept_same: "entries u = entries t \<Longrightarrow> kept t u"
  by (simp add: kept_def)

lemma kept_update:
  "(\<And>e. map_of (entries t) k = Some e \<Longrightarrow> kept_entry e (f e)) \<Longrightarrow> kept t (update_entry k f t)"
  by (auto simp: kept_def)

lemma kept_insert: "map_of (entries t) (key i) = None \<Longrightarrow> kept t (insert_entry i r n t)"
  by (auto simp: kept_def insert_entry_def map_add_def split: option.splits)

lemma kept_advance:
  assumes "advance p s r t = Inr (x, u)"
  shows "kept t u"
proof (cases x)
  case True
  with assms have "advance p s r t = Inr (True, u)" by simp
  then obtain row root where m: "map_of (entries t) (key p) = Some row"
    and "map_of (entries t) (e_root row) = Some root" "valid_intent t p = Inr ()" "valid_intent t s = Inr ()"
    and may: "may_advance p s r row (e_intent root) t"
    and u: "u = insert_entry s (e_root row) (e_ordinal row + 1)
      (update_entry (key p) (\<lambda>e. e\<lparr>e_successor := Some (key s), e_confirmation := Some (reference r)\<rparr>) t)"
    by (rule advance_Inr)
  let ?f = "\<lambda>e. e\<lparr>e_successor := Some (key s), e_confirmation := Some (reference r)\<rparr>"
  have "kept t (update_entry (key p) ?f t)"
    using m may by (intro kept_update) (simp add: kept_entry_def may_advance_def)
  moreover have "map_of (entries t) (key s) = None"
    using may by (auto simp: may_advance_def list_ex_iff map_of_eq_None_iff)
  then have "map_of (entries (update_entry (key p) ?f t)) (key s) = None"
    by (cases "key s = key p") auto
  ultimately show ?thesis unfolding u by (rule kept_trans [OF _ kept_insert])
next
  case False
  with assms have "u = t" by (auto dest: advance_False)
  then show ?thesis by (simp add: kept_same)
qed

lemma kept_operations:
  assumes "chain t"
  shows "latch i t = Inr (x, u) \<Longrightarrow> kept t u" "spend_read k t = Inr (x, u) \<Longrightarrow> kept t u"
    "claim_dispatch k t = Inr (x, u) \<Longrightarrow> kept t u" "claim_reconcile k t = Inr (x, u) \<Longrightarrow> kept t u"
    "settle k ph t = Inr (y, u) \<Longrightarrow> kept t u"
proof -
  show "kept t u" if "latch i t = Inr (x, u)"
    using that by (auto simp: latch_def bind_res_Inr intro: kept_same kept_insert split: if_splits)
  show "kept t u" if "spend_read k t = Inr (x, u)"
    using that by (auto simp: spend_read_def bind_res_Inr kept_entry_def intro!: kept_update intro: kept_same split: if_splits)
  show "kept t u" if "claim_reconcile k t = Inr (x, u)"
    using that by (auto simp: claim_reconcile_def bind_res_Inr kept_entry_def intro!: kept_update intro: kept_same split: if_splits)
  show "kept t u" if "settle k ph t = Inr (y, u)"
    using that by (auto simp: settle_def bind_res_Inr find_entry_Inr kept_entry_def intro!: kept_update)
  show "kept t u" if c: "claim_dispatch k t = Inr (x, u)"
  proof (cases x)
    case True
    with c obtain e where e: "map_of (entries t) k = Some e" "\<not> e_dispatched e"
      and u: "u = update_entry k (\<lambda>e. e\<lparr>e_phase := ''dispatching'', e_dispatched := True\<rparr>) t"
      unfolding claim_dispatch_Inr by auto
    have "entries t \<noteq> []" using e(1) by auto
    then obtain l where "lease_of t = Some l" by (simp add: lease_of_def)
    from tip_entry [OF assms this e(1)] e(2) have "e_successor e = None" by (auto split: if_splits)
    with e(1) show ?thesis unfolding u by (intro kept_update) (simp add: kept_entry_def)
  next
    case False
    with c have "u = t" unfolding claim_dispatch_Inr by auto
    then show ?thesis by (simp add: kept_same)
  qed
qed

lemma kept_requests:
  "reserve_request q a m n t = Inr (x, u) \<Longrightarrow> kept t u" "received k c t = Inr (y, u) \<Longrightarrow> kept t u"
  by (auto simp: reserve_request_def received_def charge_request_def bind_res_Inr intro: kept_same
      split: if_splits option.splits)

lemma kept_exact:
  assumes "reserve_exact_request d st a b l i t = Inr (x, u)"
  shows "kept t u"
proof -
  obtain v where "spend_batch st i t = Inr v"
    and "u = (charge_request d a v)\<lparr>allocations := allocations v @ [(b_ordinal v, st, b)]\<rparr>"
    using assms by (rule exact_Inr)
  then show ?thesis using spend_batch_same by (simp add: kept_same charge_request_def)
qed

lemma joperation_kept: "chain t \<Longrightarrow> joperation c t = Inr ((), u) \<Longrightarrow> kept t u"
  by (cases c)
     (auto simp: forget_Inr remaining_def get_def bind_res_Inr
        intro: kept_operations kept_advance kept_requests kept_exact kept_same)

lemma jrun_kept:
  assumes "chain t"
  shows "chain (jrun xs t) \<and> kept t (jrun xs t)"
  by (rule jrun_induct [where calls = UNIV and I = "\<lambda>u. chain u \<and> kept t u"])
     (use assms kept_same in \<open>auto intro: joperation_chain joperation_kept kept_trans\<close>)


section \<open>Batches\<close>

text \<open>
  A two-statement batch carries the intent of an open dispatch, and no intent has two. A
  request ordinal is fresh, so the keys of the tables are never violated.
\<close>

definition batched :: "tables \<Rightarrow> bool" where
  "batched t \<longleftrightarrow> distinct (map fst (batches t)) \<and> distinct (map snd (batches t)) \<and>
     (\<forall>x\<in>set (batches t). fst x \<in> claimed t \<and> snd x < b_ordinal t) \<and>
     (\<forall>x\<in>set (allocations t). fst x < b_ordinal t)"

lemma batched_mono:
  assumes "batched t" and "batches u = batches t" and "allocations u = allocations t"
    and "claimed t \<subseteq> claimed u" and "b_ordinal t \<le> b_ordinal u"
  shows "batched u"
  using assms by (force simp: batched_def)

lemma batched_batch:
  assumes "batched t" and "k \<in> claimed t" and "map_of (batches t) k = None"
  shows "batched (t\<lparr>batches := batches t @ [(k, b_ordinal t)], b_ordinal := b_ordinal t + 1\<rparr>)"
proof -
  have "b_ordinal t \<notin> snd ` set (batches t)" using assms(1) by (force simp: batched_def)
  moreover have "k \<notin> fst ` set (batches t)" using assms(3) by (simp add: map_of_eq_None_iff)
  moreover have "claimed (t\<lparr>batches := x, b_ordinal := n\<rparr>) = claimed t" for x n by (simp add: claimed_def)
  ultimately show ?thesis using assms(1,2) by (force simp: batched_def)
qed

lemma batched_allocation:
  assumes "batched t" and "n < b_ordinal t"
  shows "batched (t\<lparr>allocations := allocations t @ [(n, z)]\<rparr>)"
proof -
  have "claimed (t\<lparr>allocations := x\<rparr>) = claimed t" for x by (simp add: claimed_def)
  then show ?thesis using assms by (simp add: batched_def)
qed

lemma spend_batch_batches:
  assumes "spend_batch s i t = Inr v"
  shows "v = t \<or> (\<exists>k. v = t\<lparr>batches := batches t @ [(k, b_ordinal t)]\<rparr> \<and> k \<in> claimed t \<and> map_of (batches t) k = None)"
proof (cases "s = 2")
  case False
  with assms show ?thesis by (simp add: spend_batch_def)
next
  case True
  with assms obtain j e where "valid_intent t j = Inr ()" "find_entry (key j) t = Inr e"
    and e: "e_dispatched e" "map_of (batches t) (key j) = None" "v = t\<lparr>batches := batches t @ [(key j, b_ordinal t)]\<rparr>"
    by (auto simp: spend_batch_def bind_res_Inr split: option.splits if_splits)
  moreover have "key j \<in> claimed t" using calculation(2) e(1) by (simp add: claimed_def find_entry_Inr)
  ultimately show ?thesis by blast
qed

lemma kept_claimed: "kept t u \<Longrightarrow> claimed t \<subseteq> claimed u"
  unfolding kept_def kept_entry_def claimed_def by blast

lemma batched_exact:
  assumes "batched t" and "reserve_exact_request d s a b l i t = Inr (x, u)"
  shows "batched u"
proof -
  obtain v where v: "spend_batch s i t = Inr v"
    and u: "u = (charge_request d a v)\<lparr>allocations := allocations v @ [(b_ordinal v, s, b)]\<rparr>"
    using assms(2) by (rule exact_Inr)
  let ?w = "v\<lparr>b_ordinal := b_ordinal v + 1\<rparr>"
  have same: "claimed ?w = claimed v" by (simp add: claimed_def)
  from spend_batch_batches [OF v] have "batched ?w"
  proof (elim disjE exE conjE)
    assume "v = t"
    then show ?thesis using same by (intro batched_mono [OF assms(1)]) auto
  next
    fix k assume "v = t\<lparr>batches := batches t @ [(k, b_ordinal t)]\<rparr>" "k \<in> claimed t" "map_of (batches t) k = None"
    then show ?thesis using batched_batch [OF assms(1)] by simp
  qed
  then have "batched (?w\<lparr>allocations := allocations ?w @ [(b_ordinal v, s, b)]\<rparr>)"
    by (rule batched_allocation) simp
  then show ?thesis by (rule batched_mono) (auto simp: u charge_request_def claimed_def)
qed

lemma joperation_batched:
  assumes "chain t" and "batched t" and op: "joperation c t = Inr ((), u)"
  shows "batched u"
proof -
  have sub: "claimed t \<subseteq> claimed u" using kept_claimed [OF joperation_kept [OF assms(1) op]] .
  from joperation_requests [OF op] consider
      (same) "request_tables u = request_tables t"
    | (reserve) q a m n x where "reserve_request q a m n t = Inr (x, u)"
    | (receive) n k where "received n k t = Inr ((), u)"
    | (exact) d s a b l i x where "reserve_exact_request d s a b l i t = Inr (x, u)"
    by blast
  then show ?thesis
  proof cases
    case same
    then show ?thesis using assms(2) sub by (auto simp: request_tables_def intro: batched_mono)
  next
    case reserve
    with sub show ?thesis
      by (intro batched_mono [OF assms(2)])
         (auto simp: reserve_request_def bind_res_Inr charge_request_def split: if_splits)
  next
    case receive
    with sub show ?thesis
      by (intro batched_mono [OF assms(2)]) (auto simp: received_def bind_res_Inr split: option.splits)
  next
    case exact
    from batched_exact [OF assms(2) this] show ?thesis .
  qed
qed

end
