(* ===== verification/Operator_Evidence.thy ===== *)
theory Operator_Evidence
  imports Operator_Control
begin

text \<open>
  What stands behind a confirmed result: the writer's receipt for one changed row, an
  independent readback of the adjacent generation after it, and the journal's own record.
\<close>

section \<open>The trace only appends\<close>

definition appends :: "(cstate, 'a) act \<Rightarrow> bool" where
  "appends m \<longleftrightarrow> (\<forall>x. keeps (\<lambda>s. \<exists>y. k_trace s = x @ y) m)"

lemma appends_bind: "appends m \<Longrightarrow> (\<And>x. appends (f x)) \<Longrightarrow> appends (bind_act m f)"
  by (simp add: appends_def keeps_bind)

lemma appends_then: "appends m \<Longrightarrow> appends k \<Longrightarrow> appends (then_act m k)"
  by (simp add: appends_def keeps_then)

lemma appends_pure [simp]:
  "appends (return_act x)" "appends (raise_act e)" "appends (require_act b c)" "appends (lift_res r)" "appends (gets_act f)"
  by (simp_all add: appends_def)

lemma appends_modify: "(\<And>s. k_trace (f s) = k_trace s) \<Longrightarrow> appends (modify_act f)"
  by (simp add: appends_def keeps_modify)

lemma appends_emit [simp]: "appends (emit f ev)"
  by (auto simp: appends_def keeps_def emit_def Let_def)

lemma appends_journal [simp]: "appends (journal_call env c d f)"
  by (auto simp: appends_def keeps_def journal_call_def Let_def split: jfault.split prod.split)

lemma appends_source_files [simp]: "appends (source_files env c)"
  unfolding source_files_def
  by (auto intro!: appends_bind appends_then split: option.split)

lemma appends_check [simp]: "appends (check env c rec i)"
  unfolding check_def
  by (auto intro!: appends_bind appends_then appends_modify split: tick.split)

lemma appends_observe_query [simp]: "appends (observe_query env c rec i files name)"
  unfolding observe_query_def by (intro appends_bind appends_then) simp_all

text \<open>So a fact about what the trace contains, from some event on, is kept.\<close>

definition after :: "(cevent \<Rightarrow> bool) \<Rightarrow> (ctrace \<Rightarrow> bool) \<Rightarrow> ctrace \<Rightarrow> bool" where
  "after E L tr \<longleftrightarrow> (\<exists>a e b. tr = a @ e # b \<and> E e \<and> L b)"

definition monotone :: "(ctrace \<Rightarrow> bool) \<Rightarrow> bool" where
  "monotone L \<longleftrightarrow> (\<forall>x y. L x \<longrightarrow> L (x @ y))"

lemma after_append: "monotone L \<Longrightarrow> after E L tr \<Longrightarrow> after E L (tr @ xs)"
  unfolding after_def monotone_def by fastforce

lemma appends_after:
  assumes "monotone L" and "appends m"
  shows "keeps (\<lambda>s. after E L (k_trace s)) m"
  unfolding keeps_def
proof (intro allI impI)
  fix s :: cstate
  assume a: "after E L (k_trace s)"
  have "\<exists>y. k_trace (snd (m s)) = k_trace s @ y"
    using assms(2) by (simp add: appends_def keeps_def)
  with a after_append [OF assms(1)] show "after E L (k_trace (snd (m s)))" by auto
qed

lemma monotone_simps [simp]: "monotone (\<lambda>_. True)" "monotone (\<lambda>b. \<exists>e\<in>set b. F e)"
  by (auto simp: monotone_def)


section \<open>Evidence\<close>

text \<open>The writer's receipt, and a complete independent readback.\<close>

fun receipt_event :: "intent \<Rightarrow> pyval \<Rightarrow> cevent \<Rightarrow> bool" where
  "receipt_event i v (CDispatch j sql d r) \<longleftrightarrow> j = i \<and> r = Inr v"
| "receipt_event i v _ \<longleftrightarrow> False"

fun one_row :: "intent \<Rightarrow> cevent \<Rightarrow> bool" where
  "one_row i (CDispatch j sql d (Inr v)) \<longleftrightarrow> j = i \<and> receipt_changes v = Inr 1"
| "one_row i _ \<longleftrightarrow> False"

fun read_event :: "reply \<Rightarrow> cevent \<Rightarrow> bool" where
  "read_event x (CRead sql d r) \<longleftrightarrow> r = Inr x"
| "read_event x _ \<longleftrightarrow> False"

fun readback :: "string \<times> string \<Rightarrow> cevent \<Rightarrow> bool" where
  "readback g (CRead sql d (Inr x)) \<longleftrightarrow> validate_control x = Inr g"
| "readback g _ \<longleftrightarrow> False"

definition witnessed :: "(cevent \<Rightarrow> bool) \<Rightarrow> intent \<Rightarrow> ctrace \<Rightarrow> bool" where
  "witnessed E i tr \<longleftrightarrow> after E (\<lambda>b. \<exists>e\<in>set b. readback (next_generation i, target i) e) tr"

abbreviation evidence :: "intent \<Rightarrow> ctrace \<Rightarrow> bool" where
  "evidence i \<equiv> witnessed (one_row i) i"

definition journal_confirmed :: "intent \<Rightarrow> tables \<Rightarrow> bool" where
  "journal_confirmed i t \<longleftrightarrow> (\<exists>e. map_of (entries t) (key i) = Some e \<and> e_phase e = ''confirmed'' \<and> e_dispatched e)"

definition confirms :: "intent \<Rightarrow> result \<Rightarrow> cstate \<Rightarrow> bool" where
  "confirms i r s \<longleftrightarrow> evidence i (k_trace s) \<and> journal_confirmed i (k_tables s) \<and>
     observed_generation r = Some (next_generation i) \<and> observed_state r = Some (target i) \<and>
     (\<exists>n. confirmed_at r = Some (Tick n) \<and> in_window False i n)"

abbreviation always :: "cstate \<Rightarrow> bool" where
  "always \<equiv> \<lambda>_. True"

lemma keeps_at: "keeps P m \<Longrightarrow> hoare always P m (\<lambda>_ s. P s)"
  by (auto simp: hoare_def dest: keepsD)

lemma hoare_true: "hoare always P m (\<lambda>_ _. True)"
  by (auto simp: hoare_def)

lemma dispatch_event:
  "hoare always always (emit (\<lambda>tr. n_dispatch env tr i sql d) (CDispatch i sql d))
     (\<lambda>v s. after (receipt_event i v) (\<lambda>_. True) (k_trace s))"
  by (fastforce simp: hoare_def emit_def Let_def after_def)

lemma read_answer:
  "hoare always (\<lambda>s. after E (\<lambda>_. True) (k_trace s)) (emit (\<lambda>tr. n_read env tr sql d) (CRead sql d))
     (\<lambda>x s. after E (\<lambda>b. \<exists>e\<in>set b. read_event x e) (k_trace s))"
proof (rule hoareI)
  fix s r t assume a: "after E (\<lambda>_. True) (k_trace s)" and e: "emit (\<lambda>tr. n_read env tr sql d) (CRead sql d) s = (r, t)"
  have t: "k_trace t = k_trace s @ [CRead sql d r]" using e by (auto simp: emit_def Let_def)
  show "True \<and> (\<forall>x. r = Inr x \<longrightarrow> after E (\<lambda>b. \<exists>e\<in>set b. read_event x e) (k_trace t))"
    using a unfolding t after_def by fastforce
qed

lemma observe_query_answer:
  "hoare always (\<lambda>s. after E (\<lambda>_. True) (k_trace s)) (observe_query env c rec i files name)
     (\<lambda>x s. after E (\<lambda>b. \<exists>e\<in>set b. read_event x e) (k_trace s))"
proof -
  note at = keeps_at [OF appends_after [OF monotone_simps(1)], of _ E]
  note kept = keeps_at [OF appends_after [OF monotone_simps(2)]]
  have "hoare always (\<lambda>s. after E (\<lambda>b. \<exists>e\<in>set b. read_event x e) (k_trace s))
     (then_act (check env c rec i) (return_act x)) (\<lambda>x s. after E (\<lambda>b. \<exists>e\<in>set b. read_event x e) (k_trace s))" for x
    by (rule hoare_then [OF kept], simp) (auto simp: hoare_def act_simps)
  then show ?thesis
    unfolding observe_query_def
    by (intro hoare_bind [OF at] hoare_then [OF at] hoare_bind [OF read_answer]) simp_all
qed

lemma observe_answer:
  "hoare always (\<lambda>s. after E (\<lambda>_. True) (k_trace s)) (observe env c rec i)
     (\<lambda>g s. after E (\<lambda>b. \<exists>e\<in>set b. readback g e) (k_trace s))"
proof -
  note at = keeps_at [OF appends_after [OF monotone_simps(1)], of _ E]
  note kept = keeps_at [OF appends_after [OF monotone_simps(2)]]
  have r: "read_event x e \<Longrightarrow> validate_control x = Inr g \<Longrightarrow> readback g e" for x e g
    by (cases e) auto
  have "hoare always (\<lambda>s. after E (\<lambda>b. \<exists>e\<in>set b. read_event x e) (k_trace s)) (lift_res (validate_control x))
     (\<lambda>g s. after E (\<lambda>b. \<exists>e\<in>set b. readback g e) (k_trace s))" for x
    by (rule hoare_post [OF hoare_lift]) (use r in \<open>fastforce simp: after_def\<close>)
  then show ?thesis
    unfolding observe_def
    by (intro hoare_bind [OF at] hoare_bind [OF observe_query_answer] hoare_bind [OF kept] hoare_then [OF kept]) simp_all
qed


section \<open>Confirmed results\<close>

lemma silent_emit_last [simp]: "silent k_last (emit f ev)" "silent k_tables (emit f ev)"
  by (simp_all add: silent_def emit_def Let_def)

lemma silent_source_files_last [simp]: "silent k_last (source_files env c)" "silent k_tables (source_files env c)"
  unfolding source_files_def by (auto intro!: silent_bind silent_then split: option.split)

lemma silent_check_tables [simp]: "silent k_tables (check env c rec i)"
  unfolding check_def by (auto intro!: silent_bind silent_then silent_modify split: tick.split)

lemma check_in_window:
  assumes "check env c rec i s = (Inr d, t)"
  shows "in_window rec i (k_last t)"
proof -
  have src: "source_files env c u = (r, v) \<Longrightarrow> k_last v = k_last u" for u r v
    using silentD [OF silent_source_files_last(1)] by metis
  show ?thesis
    using assms unfolding check_def then_act_def
    by (auto simp: bind_act_Inr act_simps emit_def Let_def split: tick.splits sum.splits prod.splits if_splits)
qed

lemma settle_confirms:
  "hoare always always (journal_call env c d (settle (key i) ''confirmed'')) (\<lambda>_ s. journal_confirmed i (k_tables s))"
proof (rule hoareI)
  fix s r t assume e: "journal_call env c d (settle (key i) ''confirmed'') s = (r, t)"
  have "settle (key i) ''confirmed'' u = Inr ((), v) \<Longrightarrow> journal_confirmed i v" for u v
    by (auto simp: settle_def bind_res_Inr find_entry_Inr journal_confirmed_def)
  moreover have "settle (key i) ''confirmed'' (k_tables s) = Inr ((), k_tables t)" if "r = Inr ()"
    using that e
    by (auto simp: journal_call_def Let_def split: jfault.splits prod.splits dest!: transaction_Inr)
  ultimately show "True \<and> (\<forall>x. r = Inr x \<longrightarrow> journal_confirmed i (k_tables t))" by auto
qed

lemma appends_settle [simp]: "appends (settle_journal env c rec i ph)"
  unfolding settle_journal_def by (intro appends_bind) simp_all

lemma appends_evidence: "appends m \<Longrightarrow> keeps (\<lambda>s. witnessed E i (k_trace s)) m"
  unfolding witnessed_def by (rule appends_after) simp_all

lemma keeps_both: "keeps A m \<Longrightarrow> keeps B m \<Longrightarrow> keeps (\<lambda>s. A s \<and> B s) m"
  by (simp add: keeps_def)

lemma settle_evidence:
  "hoare always (\<lambda>s. witnessed E i (k_trace s)) (settle_journal env c False i ''confirmed'')
     (\<lambda>_ s. witnessed E i (k_trace s) \<and> journal_confirmed i (k_tables s))"
proof -
  have j: "hoare always (\<lambda>s. witnessed E i (k_trace s)) (journal_call env c d (settle (key i) ''confirmed''))
     (\<lambda>_ s. witnessed E i (k_trace s) \<and> journal_confirmed i (k_tables s))" for d
    using settle_confirms [of env c d i] keeps_at [OF appends_evidence [OF appends_journal], of E i env c d "settle (key i) ''confirmed''"]
    by (auto simp: hoare_def)
  show ?thesis
    unfolding settle_journal_def
    by (intro hoare_bind [OF keeps_at [OF appends_evidence]] j) simp
qed

lemma final_check:
  "hoare always (\<lambda>s. witnessed E i (k_trace s) \<and> journal_confirmed i (k_tables s)) (check env c False i)
     (\<lambda>_ s. witnessed E i (k_trace s) \<and> journal_confirmed i (k_tables s) \<and> in_window False i (k_last s))"
proof (rule hoareI)
  fix s r t assume a: "witnessed E i (k_trace s) \<and> journal_confirmed i (k_tables s)" and e: "check env c False i s = (r, t)"
  have "witnessed E i (k_trace t)"
    using keepsD [OF appends_evidence [OF appends_check] _ e] a by simp
  moreover have "k_tables t = k_tables s" by (rule silentD [OF silent_check_tables e])
  ultimately show "True \<and> (\<forall>x. r = Inr x \<longrightarrow> witnessed E i (k_trace t) \<and> journal_confirmed i (k_tables t) \<and> in_window False i (k_last t))"
    using a e check_in_window by auto
qed

definition outcome :: "intent \<Rightarrow> result \<Rightarrow> cstate \<Rightarrow> bool" where
  "outcome i r s \<longleftrightarrow> status r \<noteq> ''confirmed'' \<or> confirms i r s"

lemma dispatch_tail:
  "hoare always (\<lambda>s. evidence i (k_trace s))
     (then_act (settle_journal env c False i ''confirmed'') (then_act (check env c False i)
     (bind_act (gets_act k_last) (\<lambda>last. return_act \<lparr>status = ''confirmed'',
        reason = ''one_row_and_independent_readback'', observed_generation = Some (next_generation i),
        observed_state = Some (target i), confirmed_at = Some (Tick last)\<rparr>)))) (outcome i)"
  by (rule hoare_then [OF settle_evidence], rule hoare_then [OF final_check])
     (auto simp: hoare_def outcome_def confirms_def act_simps)

lemma outcome_other: "status r \<noteq> ''confirmed'' \<Longrightarrow> hoare always P (return_act r) (outcome i)"
  by (auto simp: hoare_def outcome_def act_simps)

lemma hoare_drop: "hoare always always m Q \<Longrightarrow> hoare always P m Q"
  by (auto simp: hoare_def)

lemma received_receipt:
  "hoare always (\<lambda>s. after (receipt_event i v) (\<lambda>_. True) (k_trace s))
    (bind_act (lift_res (receipt_changes v)) (\<lambda>changes.
     if changes = 0 then then_act (settle_journal env c False i ''refused'') (then_act (check env c False i)
         (return_act (Result ''refused'' ''zero_affected_rows'')))
     else then_act (require_act (changes = 1) ''affected_rows_not_one'') (bind_act (observe env c False i) (\<lambda>observed.
       then_act (require_act (observed = (next_generation i, target i)) ''transition_readback_mismatch'')
      (then_act (settle_journal env c False i ''confirmed'') (then_act (check env c False i)
      (bind_act (gets_act k_last) (\<lambda>last. return_act \<lparr>status = ''confirmed'',
        reason = ''one_row_and_independent_readback'', observed_generation = Some (fst observed),
        observed_state = Some (snd observed), confirmed_at = Some (Tick last)\<rparr>)))))))) (outcome i)"
proof (rule hoare_bind [OF hoare_lift])
  fix changes
  let ?P = "\<lambda>s. after (receipt_event i v) (\<lambda>_. True) (k_trace s) \<and> receipt_changes v = Inr changes"
  have one: "receipt_event i v e \<Longrightarrow> receipt_changes v = Inr 1 \<Longrightarrow> one_row i e" for e by (cases e) auto
  have seen: "hoare always (\<lambda>s. ?P s \<and> changes = 1) (observe env c False i)
     (\<lambda>g s. after (one_row i) (\<lambda>b. \<exists>e\<in>set b. readback g e) (k_trace s))"
    by (rule hoare_pre [OF observe_answer]) (use one in \<open>auto simp: after_def\<close>)
  have confirmed: "hoare always (\<lambda>s. after (one_row i) (\<lambda>b. \<exists>e\<in>set b. readback g e) (k_trace s))
      (then_act (require_act (g = (next_generation i, target i)) ''transition_readback_mismatch'')
      (then_act (settle_journal env c False i ''confirmed'') (then_act (check env c False i)
      (bind_act (gets_act k_last) (\<lambda>last. return_act \<lparr>status = ''confirmed'',
        reason = ''one_row_and_independent_readback'', observed_generation = Some (fst g),
        observed_state = Some (snd g), confirmed_at = Some (Tick last)\<rparr>))))) (outcome i)" for g
  proof (rule hoare_then [OF hoare_require], rule hoare_assume)
    assume "g = (next_generation i, target i)"
    with dispatch_tail [of i env c] show "hoare always (\<lambda>s. after (one_row i) (\<lambda>b. \<exists>e\<in>set b. readback g e) (k_trace s))
      (then_act (settle_journal env c False i ''confirmed'') (then_act (check env c False i)
      (bind_act (gets_act k_last) (\<lambda>last. return_act \<lparr>status = ''confirmed'',
        reason = ''one_row_and_independent_readback'', observed_generation = Some (fst g),
        observed_state = Some (snd g), confirmed_at = Some (Tick last)\<rparr>)))) (outcome i)"
      by (simp add: witnessed_def)
  qed
  have refused: "hoare always P (then_act (settle_journal env c False i ''refused'') (then_act (check env c False i)
         (return_act (Result ''refused'' ''zero_affected_rows'')))) (outcome i)" for P
    by (intro hoare_then [OF hoare_true] outcome_other) (simp add: Result_def)
  show "hoare always ?P (if changes = 0 then then_act (settle_journal env c False i ''refused'') (then_act (check env c False i)
         (return_act (Result ''refused'' ''zero_affected_rows'')))
     else then_act (require_act (changes = 1) ''affected_rows_not_one'') (bind_act (observe env c False i) (\<lambda>observed.
       then_act (require_act (observed = (next_generation i, target i)) ''transition_readback_mismatch'')
      (then_act (settle_journal env c False i ''confirmed'') (then_act (check env c False i)
      (bind_act (gets_act k_last) (\<lambda>last. return_act \<lparr>status = ''confirmed'',
        reason = ''one_row_and_independent_readback'', observed_generation = Some (fst observed),
        observed_state = Some (snd observed), confirmed_at = Some (Tick last)\<rparr>))))))) (outcome i)"
    by (intro hoare_if refused hoare_then [OF hoare_require] hoare_bind [OF seen] confirmed)
qed

lemma dispatch_try_outcome: "hoare always always (dispatch_try env c i) (outcome i)"
  unfolding dispatch_try_def
  by (intro hoare_then [OF hoare_true] hoare_bind [OF hoare_true] hoare_drop [OF hoare_bind [OF dispatch_event]]
        hoare_then [OF keeps_at [OF appends_after]] received_receipt) simp_all

lemma dispatch_reserved_outcome: "hoare always always (dispatch_reserved env c i) (outcome i)"
proof -
  have "hoare always always (dispatch_failed env c i) (outcome i)"
    unfolding dispatch_failed_def Let_def
    by (intro hoare_bind [OF hoare_true] hoare_then [OF hoare_true] outcome_other) (simp add: Result_def)
  then show ?thesis
    unfolding dispatch_reserved_def
    by (intro hoare_then [OF hoare_true] hoare_catch dispatch_try_outcome)
qed

text \<open>The result of a session: confirmed only by a dispatch of its own intent.\<close>

fun dispatched_intent :: "ccall \<Rightarrow> intent option" where
  "dispatched_intent (Execute i) = Some i"
| "dispatched_intent (Advance p s ref) = Some s"
| "dispatched_intent (Reconcile i) = None"

definition early_only :: "result option \<Rightarrow> bool" where
  "early_only x \<longleftrightarrow> (\<forall>r. x = Some r \<longrightarrow> status r \<noteq> ''confirmed'')"

lemma early_hoare: "early_only x \<Longrightarrow> hoare always P (return_act x) (\<lambda>x _. early_only x)"
  by (simp add: hoare_def act_simps)

lemma early_simps [simp]: "early_only None" "early_only (Some r) \<longleftrightarrow> status r \<noteq> ''confirmed''"
  by (simp_all add: early_only_def)

lemma execute_reserve_early: "hoare always always (execute_reserve env c i) (\<lambda>x _. early_only x)"
  unfolding execute_reserve_def
  by (intro hoare_bind [OF hoare_true] hoare_then [OF hoare_true] hoare_if early_hoare) (simp_all add: Result_def)

lemma advance_reserve_early: "hoare always always (advance_reserve env c p s ref) (\<lambda>x _. early_only x)"
  unfolding advance_reserve_def
  by (intro hoare_bind [OF hoare_true] hoare_then [OF hoare_true])
     (auto intro!: hoare_raise hoare_bind [OF hoare_true] hoare_then [OF hoare_true] early_hoare split: option.split)

lemma reserved_outcome:
  assumes "hoare always always m (\<lambda>x _. early_only x)" and "status r0 \<noteq> ''confirmed''"
  shows "hoare always always (bind_act (catch_act m (\<lambda>_. return_act (Some r0))) (\<lambda>early.
     case early of Some r \<Rightarrow> return_act r | None \<Rightarrow> dispatch_reserved env c i)) (outcome i)"
proof (rule hoare_bind [OF hoare_catch [OF assms(1)]])
  show "hoare always always (return_act (Some r0)) (\<lambda>x _. early_only x)" for e :: exc
    using assms(2) by (intro early_hoare) simp
  show "hoare always (\<lambda>_. early_only x) (case x of Some r \<Rightarrow> return_act r | None \<Rightarrow> dispatch_reserved env c i) (outcome i)" for x
    using hoare_drop [OF dispatch_reserved_outcome, of _ env c i]
    by (cases x) (auto simp: hoare_def outcome_def act_simps)
qed

lemma reconcile_unconfirmed: "hoare always always (reconcile env c i) (\<lambda>r _. status r \<noteq> ''confirmed'')"
proof -
  have fin: "hoare always P (return_act r) (\<lambda>r _. status r \<noteq> ''confirmed'')" if "status r \<noteq> ''confirmed''" for P r
    using that by (simp add: hoare_def act_simps)
  show ?thesis
    unfolding reconcile_def reconcile_try_def
    by (intro hoare_catch hoare_bind [OF hoare_true] hoare_then [OF hoare_true] fin) (simp_all add: Result_def)
qed

lemma perform_outcome:
  "hoare always always (perform env c x) (\<lambda>r s. status r \<noteq> ''confirmed'' \<or>
     (case dispatched_intent x of None \<Rightarrow> False | Some i \<Rightarrow> confirms i r s))"
proof (cases x)
  case (Execute i)
  have "hoare always always (execute env c i) (outcome i)"
    unfolding execute_def by (rule reserved_outcome [OF execute_reserve_early]) (simp add: Result_def)
  then show ?thesis by (auto simp: Execute perform_def outcome_def hoare_def)
next
  case (Advance p s ref)
  have "hoare always always (control_advance env c p s ref) (outcome s)"
    unfolding control_advance_def by (rule reserved_outcome [OF advance_reserve_early]) (simp add: Result_def)
  then show ?thesis by (auto simp: Advance perform_def outcome_def hoare_def)
next
  case (Reconcile i)
  then show ?thesis using reconcile_unconfirmed by (simp add: perform_def)
qed

end
