(* ===== verification/Operator_Progress.thy ===== *)
theory Operator_Progress
  imports Operator_Evidence
begin

text \<open>
  A root transition gets through: with ports that answer, a clock in the window, source files
  that match the pins and an unused journal, \<open>execute\<close> returns a confirmed result.
\<close>

fun is_dispatch :: "cevent \<Rightarrow> bool" where
  "is_dispatch (CDispatch i sql d r) \<longleftrightarrow> True"
| "is_dispatch _ \<longleftrightarrow> False"

text \<open>What the ports answer: the source files, the rows before and after the dispatch, the schema.\<close>

record service =
  v_sources :: sources
  v_before :: reply
  v_after :: reply
  v_schema :: reply
  v_now :: int

definition one_row_receipt :: pyval where
  "one_row_receipt = PDict [(''success'', PBool True), (''changes'', PInt 1)]"

definition on_time :: "int \<Rightarrow> readings" where
  "on_time n = \<lparr>at_start = Inr (Tick n), at_begin = Inr (Tick n), at_commit = Inr (Tick n), at_return = Inr (Tick n)\<rparr>"

definition serving :: "service \<Rightarrow> cenv" where
  "serving v = \<lparr>n_now = \<lambda>_. Inr (Tick (v_now v)), n_sources = \<lambda>_. Inr (v_sources v), n_recheck = \<lambda>_. Inr PNone,
     n_read = \<lambda>tr sql _. Inr (if map_of (so_files (v_sources v)) ''schema.sql'' = Some sql then v_schema v
        else if list_ex is_dispatch tr then v_after v else v_before v),
     n_dispatch = \<lambda>_ _ _ _. Inr one_row_receipt,
     n_confirm = \<lambda>_ _ _. Inr None,
     n_journal = \<lambda>_. Runs (on_time (v_now v))\<rparr>"

text \<open>The service fits the intent and the adapter.\<close>

definition fits :: "service \<Rightarrow> control \<Rightarrow> intent \<Rightarrow> bool" where
  "fits v c i \<longleftrightarrow> check_intent c i = Inr () \<and> c_descriptor c = None \<and> is_candidate (control_candidate c) \<and>
     generation_number i + transition_limit i \<le> MAX_GENERATION \<and>
     0 \<le> v_now v \<and> in_window False i (v_now v) \<and>
     verify_source (c_pins c) (v_sources v) = Inr () \<and>
     (\<exists>x. map_of (so_files (v_sources v)) (operation i @ ''.sql'') = Some x) \<and>
     (\<exists>x y. map_of (so_files (v_sources v)) ''readback.sql'' = Some x \<and>
        map_of (so_files (v_sources v)) ''schema.sql'' = Some y \<and> x \<noteq> y) \<and>
     validate_control (v_before v) = Inr (expected i, before_state i) \<and>
     validate_control (v_after v) = Inr (next_generation i, target i) \<and>
     validate_schema (v_schema v) (so_schema (v_sources v)) = Inr ()"

text \<open>The state between two calls: the journal, a clock that has not passed, and whether a dispatch was made.\<close>

definition at :: "service \<Rightarrow> tables \<Rightarrow> bool \<Rightarrow> cstate \<Rightarrow> bool" where
  "at v t b s \<longleftrightarrow> k_tables s = t \<and> k_last s \<le> v_now v \<and> list_ex is_dispatch (k_trace s) = b"

lemma total_emit:
  assumes "\<And>tr. f tr = Inr x" and "\<And>r. \<not> is_dispatch (ev r)"
  shows "total (at v t b) (emit f ev) (\<lambda>y s. at v t b s \<and> y = x)"
  using assms by (simp add: total_def emit_def at_def Let_def)

lemma total_source_files:
  assumes "fits v c i"
  shows "total (at v t b) (source_files (serving v) c) (\<lambda>x s. at v t b s \<and> x = v_sources v)"
  unfolding source_files_def
proof (rule total_bind [OF total_emit [where x = "v_sources v"]])
  fix x
  have "c_descriptor c = None" "verify_source (c_pins c) (v_sources v) = Inr ()"
    using assms by (simp_all add: fits_def)
  then show "total (\<lambda>s. at v t b s \<and> x = v_sources v)
     (then_act (lift_res (verify_source (c_pins c) x)) (case c_descriptor c of None \<Rightarrow> return_act x
        | Some (_, manifest, schema) \<Rightarrow> bind_act (emit (n_recheck (serving v)) CRecheck) (\<lambda>r.
            then_act (require_act (r = PNone) ''source_recheck_not_a_local_void_check'')
              (return_act (x\<lparr>so_files := (''manifest.json'', manifest) # so_files x, so_schema := schema\<rparr>)))))
     (\<lambda>x s. at v t b s \<and> x = v_sources v)"
    by (auto simp: total_def act_simps)
qed (simp_all add: serving_def)

lemma total_check:
  assumes "fits v c i"
  shows "total (at v t b) (check (serving v) c False i) (\<lambda>x s. at v t b s \<and> x = dispatch_until (window i))"
proof -
  note sf = total_source_files [OF assms, of t b]
  have w: "check_intent c i = Inr ()" "in_window False i (v_now v)" using assms by (simp_all add: fits_def)
  show ?thesis
  proof (rule totalI)
    fix s assume s: "at v t b s"
    let ?s = "s\<lparr>k_trace := k_trace s @ [CNow (Inr (Tick (v_now v)))], k_last := v_now v\<rparr>"
    have "at v t b ?s" using s by (simp add: at_def)
    then obtain u where u: "source_files (serving v) c ?s = (Inr (v_sources v), u)" "at v t b u"
      using totalD [OF sf] by blast
    have l: "k_last s \<le> v_now v" using s by (simp add: at_def)
    let ?t = "u\<lparr>k_trace := k_trace u @ [CNow (Inr (Tick (v_now v)))], k_last := v_now v\<rparr>"
    have n: "n_now (serving v) tr = Inr (Tick (v_now v))" for tr by (simp add: serving_def)
    have "check (serving v) c False i s = (Inr (dispatch_until (window i)), ?t)"
      using u(1) w l by (simp add: check_def act_simps emit_def n Let_def window_end_def)
    moreover have "at v t b ?t" using u(2) by (simp add: at_def)
    ultimately show "\<exists>x t'. check (serving v) c False i s = (Inr x, t') \<and> at v t b t' \<and> x = dispatch_until (window i)"
      by blast
  qed
qed

lemma total_journal:
  assumes "fits v c i" and "f t = Inr (x, u)" and "b_target t = c_target c" "b_packet t = c_packet c"
  shows "total (at v t b) (journal_call (serving v) c (dispatch_until (window i)) f) (\<lambda>y s. at v u b s \<and> y = x)"
proof -
  obtain d where d: "dispatch_until (window i) = Tick d" "0 \<le> v_now v" "v_now v < d"
    using assms(1) by (auto simp: fits_def in_window_def window_end_def split: tick.splits)
  have g: "guard (Inr (Tick (v_now v))) (Tick d) = Inr ()" using d by (simp add: guard_def require_def)
  have "transaction (c_target c) (c_packet c) (on_time (v_now v)) (Tick d) f t = (Inr x, u)"
    using assms(2-) by (simp add: transaction_def on_time_def g require_def)
  then show ?thesis
    by (auto simp: total_def journal_call_def serving_def at_def d Let_def)
qed


section \<open>The journal of one root transition\<close>

definition tab :: "tables \<Rightarrow> intent \<Rightarrow> int \<Rightarrow> string \<Rightarrow> bool \<Rightarrow> tables" where
  "tab t i n ph d = t\<lparr>entries := [(key i, (new_entry i (key i) 1)\<lparr>e_reads := n, e_phase := ph, e_dispatched := d\<rparr>)],
     b_active := Some (key i)\<rparr>"

lemma tab_binding [simp]: "b_target (tab t i n ph d) = b_target t" "b_packet (tab t i n ph d) = b_packet t"
  by (simp_all add: tab_def)

lemma tab_latch:
  assumes "entries t = []" and "fits v c i" and "b_target t = c_target c"
  shows "latch i t = Inr (True, tab t i 0 ''latched'' False)"
proof -
  have ci: "check_intent c i = Inr ()" "is_candidate (control_candidate c)"
    "generation_number i + transition_limit i \<le> MAX_GENERATION"
    using assms(2) by (simp_all add: fits_def)
  then have "valid_intent t i = Inr ()"
    using assms(3) by (auto simp: check_intent_def valid_intent_def bind_res_Inr)
  then show ?thesis
    using assms(1) ci(3) by (simp add: latch_def require_def tab_def insert_entry_def new_entry_def)
qed

lemma tab_read:
  "n < read_limit i \<Longrightarrow> spend_read (key i) (tab t i n ph d) = Inr (True, tab t i (n + 1) ph d)"
  by (simp add: spend_read_def find_entry_def tab_def update_entry_def new_entry_def)

lemma tab_claim: "claim_dispatch (key i) (tab t i n ''latched'' False) = Inr (True, tab t i n ''dispatching'' True)"
  by (simp add: claim_dispatch_def find_entry_def tab_def update_entry_def new_entry_def)

lemma tab_settle: "settle (key i) ''confirmed'' (tab t i n ph True) = Inr ((), tab t i n ''confirmed'' True)"
  by (simp add: settle_def find_entry_def tab_def update_entry_def new_entry_def require_def)

text \<open>The journal is the adapter's own and unused.\<close>

definition ready :: "service \<Rightarrow> control \<Rightarrow> intent \<Rightarrow> tables \<Rightarrow> bool" where
  "ready v c i t \<longleftrightarrow> fits v c i \<and> b_target t = c_target c \<and> b_packet t = c_packet c \<and> entries t = []"

lemma ready_fits: "ready v c i t \<Longrightarrow> fits v c i"
  by (simp add: ready_def)

lemma journal_ok:
  "ready v c i t0 \<Longrightarrow> f (tab t0 i n ph d) = Inr (x, tab t0 i n' ph' d') \<Longrightarrow>
   total (at v (tab t0 i n ph d) b) (journal_call (serving v) c (dispatch_until (window i)) f)
     (\<lambda>y s. at v (tab t0 i n' ph' d') b s \<and> y = x)"
  by (rule total_journal [OF ready_fits [of v c i t0]]) (simp_all add: ready_def)

text \<open>A step that returns a known value.\<close>

lemma step:
  assumes "total P m (\<lambda>x s. R s \<and> x = y)" and "total R (f y) Q"
  shows "total P (bind_act m f) Q"
  using assms(1)
proof (rule total_bind)
  show "total (\<lambda>s. R s \<and> x = y) (f x) Q" for x
    by (rule total_assume) (use assms(2) in simp)
qed

lemma step_then:
  assumes "total P m (\<lambda>x s. R s \<and> x = y)" and "total R k Q"
  shows "total P (then_act m k) Q"
  unfolding then_act_def by (rule step [OF assms])

lemma require_ok: "b \<Longrightarrow> total P (require_act b x) (\<lambda>y s. P s \<and> y = ())"
  by (simp add: total_def act_simps)

lemma lift_ok: "r = Inr y \<Longrightarrow> total P (lift_res r) (\<lambda>x s. P s \<and> x = y)"
  by (rule total_lift)

lemma return_ok: "total P (return_act y) (\<lambda>x s. P s \<and> x = y)"
  by (simp add: total_def act_simps)

lemma query_ok:
  assumes ready: "ready v c i t0" and "n < read_limit i" and "map_of (so_files (v_sources v)) name = Some sql"
    and "\<And>tr. list_ex is_dispatch tr = b \<Longrightarrow> n_read (serving v) tr sql (dispatch_until (window i)) = Inr r"
  shows "total (at v (tab t0 i n ph d) b) (observe_query (serving v) c False i (v_sources v) name)
    (\<lambda>x s. at v (tab t0 i (n + 1) ph d) b s \<and> x = r)"
proof -
  have read: "total (at v t b) (emit (\<lambda>tr. n_read (serving v) tr sql (dispatch_until (window i))) (CRead sql (dispatch_until (window i))))
     (\<lambda>x s. at v t b s \<and> x = r)" for t
    using assms(4) by (simp add: total_def emit_def at_def Let_def)
  note check_ok = total_check [OF ready_fits [OF ready]]
  show ?thesis
    unfolding observe_query_def
    by (rule step [OF check_ok], rule step [OF journal_ok [where f = "spend_read (key i)", OF ready tab_read [OF assms(2)]]],
        rule step_then [OF require_ok], simp, rule step [OF check_ok],
        rule step [OF lift_ok [where y = sql]], simp add: source_text_def assms(3),
        rule step [OF read], rule step_then [OF check_ok], rule return_ok)
qed

lemma observe_ok:
  assumes ready: "ready v c i t0" and "n + 2 \<le> read_limit i"
  shows "total (at v (tab t0 i n ph d) b) (observe (serving v) c False i)
    (\<lambda>x s. at v (tab t0 i (n + 2) ph d) b s \<and> x = (if b then (next_generation i, target i) else (expected i, before_state i)))"
proof -
  obtain x y where f: "map_of (so_files (v_sources v)) ''readback.sql'' = Some x"
      "map_of (so_files (v_sources v)) ''schema.sql'' = Some y" "x \<noteq> y"
    using ready_fits [OF ready] by (auto simp: fits_def)
  have ctl: "validate_control (if b then v_after v else v_before v) =
      Inr (if b then (next_generation i, target i) else (expected i, before_state i))"
    and sch: "validate_schema (v_schema v) (so_schema (v_sources v)) = Inr ()"
    using ready_fits [OF ready] by (simp_all add: fits_def)
  have q1: "total (at v (tab t0 i n ph d) b) (observe_query (serving v) c False i (v_sources v) ''readback.sql'')
      (\<lambda>x s. at v (tab t0 i (n + 1) ph d) b s \<and> x = (if b then v_after v else v_before v))"
    by (rule query_ok [OF ready _ f(1)]) (use assms f in \<open>auto simp: serving_def\<close>)
  have q2: "total (at v (tab t0 i (n + 1) ph d) b) (observe_query (serving v) c False i (v_sources v) ''schema.sql'')
      (\<lambda>x s. at v (tab t0 i (n + 1 + 1) ph d) b s \<and> x = v_schema v)"
    by (rule query_ok [OF ready _ f(2)]) (use assms f in \<open>auto simp: serving_def\<close>)
  have "total (at v (tab t0 i n ph d) b) (observe (serving v) c False i)
    (\<lambda>x s. at v (tab t0 i (n + 1 + 1) ph d) b s \<and> x = (if b then (next_generation i, target i) else (expected i, before_state i)))"
    unfolding observe_def
    by (rule step [OF total_source_files [OF ready_fits [OF ready]]], rule step [OF q1], rule step [OF q2],
        rule step_then [OF lift_ok [OF sch]], rule lift_ok [OF ctl])
  then show ?thesis by (simp add: add.assoc)
qed

lemma settle_ok:
  assumes ready: "ready v c i t0"
  shows "total (at v (tab t0 i n ph True) b) (settle_journal (serving v) c False i ''confirmed'')
    (\<lambda>x s. at v (tab t0 i n ''confirmed'' True) b s \<and> x = ())"
  unfolding settle_journal_def
  by (rule step [OF total_check [OF ready_fits [OF ready]]],
      rule journal_ok [where f = "settle (key i) ''confirmed''", OF ready tab_settle])

lemma dispatch_ok:
  assumes ready: "ready v c i t0"
  shows "total (\<lambda>s. at v (tab t0 i 0 ''latched'' False) False s) (dispatch_try (serving v) c i)
     (\<lambda>r s. at v (tab t0 i 4 ''confirmed'' True) True s \<and> status r = ''confirmed'')"
proof -
  obtain sql where sql: "map_of (so_files (v_sources v)) (operation i @ ''.sql'') = Some sql"
    using ready_fits [OF ready] by (auto simp: fits_def)
  have lim: "4 \<le> read_limit i" by (simp add: read_limit_def)
  have flag: "total (at v t b) (modify_act (\<lambda>s. s\<lparr>k_claimed := True\<rparr>)) (\<lambda>x s. at v t b s \<and> x = ())" for t b
    by (simp add: total_def act_simps at_def)
  have send: "total (at v t b) (emit (\<lambda>tr. n_dispatch (serving v) tr i sql u) (CDispatch i sql u))
     (\<lambda>x s. at v t True s \<and> x = one_row_receipt)" for t b u
    by (simp add: total_def emit_def at_def Let_def serving_def)
  have rc: "receipt_changes one_row_receipt = Inr 1"
    by (auto simp: receipt_changes_def one_row_receipt_def is_bool_def dict_get_def)
  have o: "total (at v (tab t0 i 0 ph d) b) (observe (serving v) c False i)
      (\<lambda>x s. at v (tab t0 i 2 ph d) b s \<and> x = (if b then (next_generation i, target i) else (expected i, before_state i)))"
    "total (at v (tab t0 i 2 ph d) b) (observe (serving v) c False i)
      (\<lambda>x s. at v (tab t0 i 4 ph d) b s \<and> x = (if b then (next_generation i, target i) else (expected i, before_state i)))"
    for ph d b
    using observe_ok [OF ready, of 0 ph d b] observe_ok [OF ready, of 2 ph d b] lim by simp_all
  note check_ok = total_check [OF ready_fits [OF ready]]
  note sources_ok = total_source_files [OF ready_fits [OF ready]]
  have fin: "total (at v (tab t0 i 4 ''confirmed'' True) True) (bind_act (gets_act k_last) (\<lambda>last.
         return_act \<lparr>status = ''confirmed'', reason = ''one_row_and_independent_readback'',
           observed_generation = Some (fst g), observed_state = Some (snd g),
           confirmed_at = Some (Tick last)\<rparr>))
       (\<lambda>r s. at v (tab t0 i 4 ''confirmed'' True) True s \<and> status r = ''confirmed'')" for g :: "string \<times> string"
    by (simp add: total_def act_simps)
  show ?thesis
    unfolding dispatch_try_def
    apply (rule step_then [OF check_ok])
    apply (rule step [OF o(1)])
    apply (rule step_then [OF require_ok], simp)
    apply (rule step [OF check_ok])
    apply (rule step_then [OF flag])
    apply (rule step [OF journal_ok [where f = "claim_dispatch (key i)", OF ready tab_claim]])
    apply (rule step_then [OF require_ok], simp)
    apply (rule step_then [OF check_ok])
    apply (rule step [OF sources_ok])
    apply (rule step [OF lift_ok [where y = sql]], simp add: source_text_def sql)
    apply (rule step [OF check_ok])
    apply (rule step [OF send])
    apply (rule step_then [OF check_ok])
    apply (rule step [OF lift_ok [OF rc]])
    apply simp
    apply (rule step_then [OF require_ok], simp)
    apply (rule step [OF o(2)])
    apply (rule step_then [OF require_ok], simp)
    apply (rule step_then [OF settle_ok [OF ready]])
    apply (rule step_then [OF check_ok])
    apply (rule fin)
    done
qed

text \<open>The reservation, and the whole call.\<close>

lemma reserve_ok:
  assumes ready: "ready v c i t"
  shows "total (at v t False) (execute_reserve (serving v) c i)
    (\<lambda>x s. at v (tab t i 0 ''latched'' False) False s \<and> x = None)"
proof -
  note check_ok = total_check [OF ready_fits [OF ready]]
  have f: "fits v c i" and t: "b_target t = c_target c" "b_packet t = c_packet c" "entries t = []"
    using ready by (simp_all add: ready_def)
  have head: "generation_number i + transition_limit i \<le> MAX_GENERATION" using f by (simp add: fits_def)
  show ?thesis
    unfolding execute_reserve_def
    by (rule step [OF check_ok], rule step_then [OF require_ok [OF head]],
        rule step [OF total_journal [where f = "latch i", OF f tab_latch [OF t(3) f t(1)] t(1,2)]],
        simp, rule step_then [OF check_ok], rule return_ok)
qed

lemma total_catch: "total P m Q \<Longrightarrow> total P (catch_act m h) Q"
  by (fastforce simp: total_def catch_act_def)

lemma execute_ok:
  assumes ready: "ready v c i t"
  shows "total (at v t False) (execute (serving v) c i)
    (\<lambda>r s. at v (tab t i 4 ''confirmed'' True) True s \<and> status r = ''confirmed'')"
proof -
  have flag: "total (at v u b) (modify_act (\<lambda>s. s\<lparr>k_claimed := False\<rparr>)) (\<lambda>x s. at v u b s \<and> x = ())" for u b
    by (simp add: total_def act_simps at_def)
  show ?thesis
    unfolding execute_def
    by (rule step [OF total_catch [OF reserve_ok [OF ready]]])
       (simp add: dispatch_reserved_def step_then [OF flag total_catch [OF dispatch_ok [OF ready]]])
qed

end
