(* ===== verification/Operator_Properties.thy ===== *)
theory Operator_Properties
  imports Operator_Safety Operator_History Operator_Progress
begin

text \<open>
  The properties of the D1 operator control protocol and of its durable journal, each a short
  consequence of the theories before it.
\<close>

section \<open>Example\<close>

text \<open>An adapter with pinned files, a close intent on generation 41, and ports that answer.\<close>

definition ex_files :: "(string \<times> string) list" where
  "ex_files = [(''close.sql'', ''UPDATE control''), (''readback.sql'', ''SELECT control''), (''schema.sql'', ''SELECT schema'')]"

definition ex_control :: control where
  "ex_control = \<lparr>c_pins = map (\<lambda>(n, b). (n, sha256_hex b)) ex_files, c_descriptor = None, c_target = ''d1-target'',
     c_packet = ''packet'', c_confirmations = True\<rparr>"

definition ex_window :: window where
  "ex_window = \<lparr>starts = Tick 100, dispatch_until = Tick 200, reconcile_until = Tick 300\<rparr>"

definition ex_intent :: intent where
  "ex_intent = \<lparr>key = ''k1'', operation = ''close'', expected = ''41'', window = ex_window, target_id = ''d1-target'',
     candidate = CANDIDATE, transition_limit = 2\<rparr>"

definition ex_row :: "string \<Rightarrow> string \<Rightarrow> reply" where
  "ex_row g s = CompleteRows [PDict (map (\<lambda>(k, v). (k, PStr v)) FIXED_CONTROL @
     [(''generation_text'', PStr g), (''state'', PStr s)])] (PBool True)"

definition ex_service :: service where
  "ex_service = \<lparr>v_sources = \<lparr>so_files = ex_files, so_schema = PList []\<rparr>, v_before = ex_row ''41'' ''open'',
     v_after = ex_row ''42'' ''closed'', v_schema = CompleteRows [] (PBool True), v_now = 150\<rparr>"

lemma ex_pins: "verify_source (c_pins ex_control) (v_sources ex_service) = Inr ()"
  by (simp add: verify_source_def ex_control_def ex_service_def ex_files_def require_def)

lemma ex_candidate: "is_candidate CANDIDATE"
  by code_simp

lemma ex_number: "generation_number ex_intent = 41" "py_str_int 42 = ''42''" "generation True (PStr ''41'') = Inr ''41''"
    "generation False (PStr ''41'') = Inr ''41''" "generation False (PStr ''42'') = Inr ''42''"
  by code_simp+

lemma ex_intent_ok: "check_intent ex_control ex_intent = Inr ()"
  using ex_number(3)
  by (simp add: check_intent_def ex_control_def ex_intent_def ex_window_def control_candidate_def require_def
      validate_window_def is_ascii_def)

lemma ex_row_ok: "generation False (PStr g) = Inr g \<Longrightarrow> s \<in> {''open'', ''closed''} \<Longrightarrow> validate_control (ex_row g s) = Inr (g, s)"
  by (auto simp: validate_control_def ex_row_def FIXED_CONTROL_def CONTROL_KEYS_def dict_get_def)

lemma ex_schema_ok: "validate_schema (CompleteRows [] (PBool True)) (PList []) = Inr ()"
  by (simp add: validate_schema_def require_def)

lemma ex_ready: "ready ex_service ex_control ex_intent (provisioned ''d1-target'' ''packet'')"
proof -
  have "in_window False ex_intent 150"
    by (simp add: in_window_def ex_intent_def ex_window_def window_end_def)
  moreover have "generation_number ex_intent + transition_limit ex_intent \<le> MAX_GENERATION"
    unfolding ex_number by (simp add: ex_intent_def MAX_GENERATION_def)
  moreover have "validate_control (v_before ex_service) = Inr (expected ex_intent, before_state ex_intent)"
      "validate_control (v_after ex_service) = Inr (next_generation ex_intent, target ex_intent)"
    using ex_number by (simp_all add: ex_service_def ex_row_ok next_generation_def before_state_def target_def)
       (simp_all add: ex_intent_def)
  ultimately show ?thesis
    using ex_pins ex_candidate ex_intent_ok ex_schema_ok
    by (auto simp: ready_def fits_def ex_service_def ex_files_def provisioned_def)
       (simp_all add: ex_control_def ex_intent_def control_candidate_def)
qed

definition ex_state :: cstate where
  "ex_state = \<lparr>k_tables = provisioned ''d1-target'' ''packet'', k_trace = [], k_last = -1, k_claimed = False\<rparr>"


section \<open>Properties\<close>

text \<open>C22: Over any history of execute, advance and reconcile calls on one provisioned journal, by any
  adapters in any environment, every dispatched intent is distinct and was claimed in the
  journal before, at most as many transitions are dispatched and rows read as the root
  intent allows, and never more than three and sixteen.\<close>

theorem control_sessions_safe:
  "case sessions xs (provisioned tid packet, []) of (t, tr) \<Rightarrow>
     distinct (sent tr) \<and> set (sent tr) \<subseteq> claimed t \<and> int (length (sent tr)) \<le> transitions_allowed t \<and>
     reads tr \<le> reads_allowed t \<and> length (sent tr) \<le> 3 \<and> reads tr \<le> 16"
proof -
  have "sound (fst (sessions xs (provisioned tid packet, [])), sent (snd (sessions xs (provisioned tid packet, []))),
      reads (snd (sessions xs (provisioned tid packet, []))))"
    using sessions_safe [of "(provisioned tid packet, [])" xs] sound_start by simp
  from sound_limits [OF this] show ?thesis by (simp add: split_def)
qed

text \<open>C23: A call reports a confirmed result only for the intent it dispatched itself, after the writer
  answered one changed row and a later independent readback showed the adjacent generation
  and state, with the journal entry confirmed and the clock in the dispatch window.\<close>

theorem control_confirmed_evidence:
  assumes "perform env c x \<lparr>k_tables = t, k_trace = [], k_last = clock, k_claimed = b\<rparr> = (Inr r, s)"
    and "status r = ''confirmed''"
  shows "\<exists>i. dispatched_intent x = Some i \<and> confirms i r s"
  using hoareD_value [OF perform_outcome _ _ assms(1)] assms(2) by (auto split: option.splits)

text \<open>C24: A root transition on an unused journal succeeds: with ports that answer, source files that match
  the pins and a clock in the window, execute returns a confirmed result and leaves one
  confirmed entry.\<close>

theorem control_execute_completes:
  assumes "ready v c i t" and "clock \<le> v_now v"
  shows "\<exists>r s. execute (serving v) c i \<lparr>k_tables = t, k_trace = [], k_last = clock, k_claimed = b\<rparr> = (Inr r, s) \<and>
    status r = ''confirmed'' \<and> k_tables s = tab t i 4 ''confirmed'' True"
  using totalD [OF execute_ok [OF assms(1)], of "\<lparr>k_tables = t, k_trace = [], k_last = clock, k_claimed = b\<rparr>"] assms(2)
  by (auto simp: at_def)

lemma control_execute_completes_witness:
  "\<exists>r s. execute (serving ex_service) ex_control ex_intent ex_state = (Inr r, s) \<and> status r = ''confirmed'' \<and>
     k_tables s = tab (provisioned ''d1-target'' ''packet'') ex_intent 4 ''confirmed'' True"
  unfolding ex_state_def by (rule control_execute_completes [OF ex_ready]) (simp add: ex_service_def)

lemma control_confirmed_evidence_witness:
  "\<exists>r s. execute (serving ex_service) ex_control ex_intent ex_state = (Inr r, s) \<and> confirms ex_intent r s"
proof -
  obtain r s where e: "execute (serving ex_service) ex_control ex_intent ex_state = (Inr r, s)" "status r = ''confirmed''"
    using totalD [OF execute_ok [OF ex_ready], of ex_state] by (auto simp: at_def ex_state_def ex_service_def)
  then have "perform (serving ex_service) ex_control (Execute ex_intent)
      \<lparr>k_tables = provisioned ''d1-target'' ''packet'', k_trace = [], k_last = -1, k_claimed = False\<rparr> = (Inr r, s)"
    by (simp add: perform_def ex_state_def)
  from control_confirmed_evidence [OF this e(2)] e(1) show ?thesis by auto
qed


section \<open>The journal\<close>

text \<open>C25: After any sequence of transactions on a provisioned journal, acknowledged or not, the entries
  form one chain of adjacent transitions within the root's limits, every reserved byte is
  accounted for, and no dispatch has two batches.\<close>

theorem journal_invariant:
  "chain (jrun xs (provisioned tid packet)) \<and> accounts (jrun xs (provisioned tid packet)) \<and>
   batched (jrun xs (provisioned tid packet))"
proof -
  have "batched (provisioned tid packet)" by (simp add: batched_def provisioned_def)
  then show ?thesis
    by (intro jrun_induct [where calls = UNIV and I = "\<lambda>t. chain t \<and> accounts t \<and> batched t"])
       (use chain_provisioned accounts_provisioned in
         \<open>auto intro: joperation_chain joperation_accounts joperation_batched\<close>)
qed

text \<open>C26: On every reachable journal each operation of the SQLite tables answers exactly what the contract
  machine answers on the abstracted reservation, and leaves tables of the contract's next
  state: the further comparisons of advance add nothing.\<close>

theorem journal_refines_contract:
  "let t = jrun xs (provisioned tid packet) in
     abstracted (latch i t) = bind_res (valid_intent t i) (\<lambda>_.
       bind_res (require (generation_number i + transition_limit i \<le> MAX_GENERATION) ''external_journal_root_headroom'')
         (\<lambda>_. lease_latch i (lease_of t))) \<and>
     abstracted (advance p s r t) = bind_res (valid_intent t p) (\<lambda>_. bind_res (valid_intent t s)
       (\<lambda>_. lease_advance p s r (lease_of t))) \<and>
     abstracted (spend_read k t) = lease_spend_read k (lease_of t) \<and>
     abstracted (claim_dispatch k t) = lease_claim_dispatch k (lease_of t) \<and>
     abstracted (claim_reconcile k t) = lease_claim_reconcile k (lease_of t) \<and>
     abstracted (settle k phase t) = lease_settle k phase (lease_of t)"
proof -
  define t where "t = jrun xs (provisioned tid packet)"
  have c: "chain t" using jrun_kept [OF chain_provisioned] by (simp add: t_def)
  have l: "abstracted (latch i t) = bind_res (valid_intent t i) (\<lambda>_.
       bind_res (require (generation_number i + transition_limit i \<le> MAX_GENERATION) ''external_journal_root_headroom'')
         (\<lambda>_. lease_latch i (lease_of t)))"
    using refines_latch [of t i] by (cases "valid_intent t i") (auto simp: latch_def require_def)
  have a: "abstracted (advance p s r t) = bind_res (valid_intent t p) (\<lambda>_. bind_res (valid_intent t s)
       (\<lambda>_. lease_advance p s r (lease_of t)))"
    using refines_advance [OF c, of p s r]
    by (cases "valid_intent t p"; cases "valid_intent t s") (auto simp: advance_def)
  show ?thesis
    unfolding t_def [symmetric] Let_def
    using l a refines_spend_read [OF c] refines_claim_dispatch [OF c] refines_claim_reconcile [OF c]
      refines_settle [OF c] by simp
qed

text \<open>No later transaction rewrites a row: intents, their places in the chain and dispatch markers stay,
  counters only grow, and a consumed entry keeps its phase, successor and confirmation.\<close>

theorem journal_rows_kept:
  "kept (jrun xs (provisioned tid packet)) (jrun (xs @ ys) (provisioned tid packet))"
  using jrun_kept [of "jrun xs (provisioned tid packet)" ys] jrun_kept [OF chain_provisioned]
  by (simp add: jrun_append)

text \<open>While every call stays within common limits, the totals of requests, statements, request bytes
  and response bytes stay within them, whatever was refused, rolled back or received.\<close>

theorem journal_within_budgets:
  assumes "\<forall>(tid', packet', rd, d, call)\<in>set xs. within L call"
    and "0 \<le> l_requests L" "0 \<le> l_statements L" "0 \<le> l_request_bytes L" "0 \<le> l_response_bytes L"
  shows "budgets L (jrun xs (provisioned tid packet))"
proof -
  have "budgets L (provisioned tid packet)"
    using assms(2-) by (simp add: budgets_def provisioned_def statements_used_def request_bytes_used_def)
  then have "budgets L (jrun xs (provisioned tid packet)) \<and> accounts (jrun xs (provisioned tid packet))"
    by (intro jrun_induct [where calls = "{c. within L c}" and I = "\<lambda>t. budgets L t \<and> accounts t"])
       (use assms(1) accounts_provisioned in \<open>auto intro: joperation_budgets joperation_accounts\<close>)
  then show ?thesis by simp
qed

definition ex_limits :: limits where
  "ex_limits = \<lparr>l_requests = 2, l_statements = 2, l_request_bytes = 100, l_response_bytes = 1000\<rparr>"

definition ex_requests :: "jentry list" where
  "ex_requests = [(''d1-target'', ''packet'', on_time 150, Tick 200, JExact ''read'' 1 600 40 ex_limits None),
     (''d1-target'', ''packet'', on_time 151, Tick 200, JReceived 0 200),
     (''d1-target'', ''packet'', on_time 152, Tick 200, JExact ''read'' 1 700 40 ex_limits None),
     (''d1-target'', ''packet'', on_time 153, Tick 200, JExact ''read'' 1 200 10 ex_limits None)]"

lemma ex_requests_run: "b_ordinal (jrun ex_requests (provisioned ''d1-target'' ''packet'')) = 2 \<and>
    b_bytes (jrun ex_requests (provisioned ''d1-target'' ''packet'')) = 900"
  by code_simp

lemma journal_within_budgets_witness:
  "budgets ex_limits (jrun ex_requests (provisioned ''d1-target'' ''packet'')) \<and>
   b_bytes (jrun ex_requests (provisioned ''d1-target'' ''packet'')) = 900"
proof -
  have "budgets ex_limits (jrun ex_requests (provisioned ''d1-target'' ''packet''))"
    by (rule journal_within_budgets) (simp_all add: ex_requests_def ex_limits_def)
  then show ?thesis using ex_requests_run by simp
qed


section \<open>Generations\<close>

text \<open>The accepted generations are exactly the decimal texts of the numbers from 1 to the bound, each
  returned as it is, and reading a text back gives its number.\<close>

theorem generation_roundtrip:
  "generation b v = Inr s \<longleftrightarrow>
     (\<exists>n. v = PStr s \<and> s = py_str_int n \<and> decimal_value s = n \<and> 1 \<le> n \<and> n \<le> MAX_GENERATION - of_bool b)"
proof
  assume "generation b v = Inr s"
  then have v: "v = PStr s" and g: "generation_ok b s" by (simp_all add: generation_Inr)
  have "1 \<le> decimal_value s"
    using canonical_digits [of s] g by (cases s) (simp_all add: generation_ok_def)
  with g v show "\<exists>n. v = PStr s \<and> s = py_str_int n \<and> decimal_value s = n \<and> 1 \<le> n \<and> n \<le> MAX_GENERATION - of_bool b"
    using generation_canonical [OF g] by (auto simp: generation_ok_def)
next
  assume "\<exists>n. v = PStr s \<and> s = py_str_int n \<and> decimal_value s = n \<and> 1 \<le> n \<and> n \<le> MAX_GENERATION - of_bool b"
  then obtain n where "v = PStr s" and s: "s = py_str_int n" and n: "1 \<le> n" "n \<le> MAX_GENERATION - of_bool b" by blast
  with generation_ok_number [OF n] show "generation b v = Inr s" by (simp add: generation_Inr)
qed

end
