(* ===== verification/Native_Lease.thy ===== *)
theory Native_Lease
  imports Runner_Packet
begin

text \<open>
  The lease of the native leaf broker (\<open>probes/pmb1-finite-runner/native_journal.py\<close>): the
  intents of a finite tree of leaf effects, the validation of a lease before admission, the
  canonical encoding and digest, and the bytes each leaf must reserve for its own durable
  row. Fields have their declared types, so checks that only reject a value of another type
  are vacuous; an undeclared cost is \<open>None\<close>.
\<close>

section \<open>Data\<close>

record leaf_intent =
  lf_ordinal :: int
  lf_identity :: string
  lf_source_path :: string
  lf_source_pin :: string
  lf_method :: string
  lf_resource :: string
  lf_request_digest :: string
  lf_cost :: "cost option"

record native_lease =
  nl_key :: string
  nl_context_digest :: string
  nl_source_pin :: string
  nl_profile :: string
  nl_object_profile :: string
  nl_leaves :: "leaf_intent list"

record leaf_receipt =
  rc_ordinal :: int
  rc_identity :: string
  rc_request_digest :: string
  rc_actual :: cost
  rc_evidence :: string


section \<open>Texts and costs\<close>

definition printable :: "char \<Rightarrow> bool" where
  "printable c \<longleftrightarrow> code_in 32 126 c"

text \<open>\<open>_text(value, maximum)\<close>\<close>

definition plain_text :: "nat \<Rightarrow> string \<Rightarrow> bool" where
  "plain_text n s \<longleftrightarrow> 0 < length s \<and> length s \<le> n \<and> s = strip s \<and> list_all printable s"

definition leaf_cost :: "cost option \<Rightarrow> cost res" where
  "leaf_cost x = (case x of
     None \<Rightarrow> Inl (Refused ''native_unknown_or_invalid_cost'')
   | Some c \<Rightarrow>
       bind_res (validate_cost c) (\<lambda>_.
       bind_res (within c RUN_LIMIT) (\<lambda>fits.
       bind_res (require (fits \<and> requests c \<le> 1 \<and> sql_statements c \<le> 8 \<and> outbound_bytes c \<le> 65536 \<and>
          inbound_bytes c \<le> 262144 \<and> captures c \<le> 1 \<and> categories c = requests c \<and>
          (reader_queries c = 0 \<or> outbound_bytes c \<le> 32768)) ''native_leaf_budget'') (\<lambda>_.
       Inr c))))"

text \<open>\<open>PurePosixPath(p).as_posix()\<close> of a relative path.\<close>

definition pure_posix :: "string \<Rightarrow> string" where
  "pure_posix p = (let parts = filter (\<lambda>x. x \<noteq> [] \<and> x \<noteq> ''.'') (split_on (CHR ''/'') p) in
     if parts = [] then ''.'' else join ''/'' parts)"

definition source_path_ok :: "string \<Rightarrow> bool" where
  "source_path_ok p \<longleftrightarrow> plain_text 1024 p \<and> CHR 0x5C \<notin> set p \<and> (p = [] \<or> hd p \<noteq> CHR ''/'') \<and>
     CHR '':'' \<notin> set p \<and> list_all (\<lambda>x. x \<notin> {[], ''.'', ''..''}) (split_on (CHR ''/'') p) \<and> pure_posix p = p"


section \<open>Encoding\<close>

definition leaf_json :: "leaf_intent \<Rightarrow> json" where
  "leaf_json l = JObj
     [(''ordinal'', JInt (lf_ordinal l)), (''identity'', JStr (lf_identity l)),
      (''source_path'', JStr (lf_source_path l)), (''source_pin'', JStr (lf_source_pin l)),
      (''method'', JStr (lf_method l)), (''resource'', JStr (lf_resource l)),
      (''request_digest'', JStr (lf_request_digest l)),
      (''cost'', case lf_cost l of None \<Rightarrow> JNull | Some c \<Rightarrow> cost_json c)]"

definition lease_json :: "native_lease \<Rightarrow> json" where
  "lease_json x = JObj
     [(''key'', JStr (nl_key x)), (''context_digest'', JStr (nl_context_digest x)),
      (''source_pin'', JStr (nl_source_pin x)), (''profile'', JStr (nl_profile x)),
      (''object_profile'', JStr (nl_object_profile x)), (''leaves'', JArr (map leaf_json (nl_leaves x)))]"

definition leaf_text :: "leaf_intent \<Rightarrow> string" where
  "leaf_text l = dumps (leaf_json l)"


section \<open>Validation\<close>

definition leaf_binding :: "int \<Rightarrow> string list \<Rightarrow> leaf_intent \<Rightarrow> bool" where
  "leaf_binding n seen l \<longleftrightarrow> lf_ordinal l = n \<and> plain_text 512 (lf_identity l) \<and> lf_identity l \<notin> set seen \<and>
     source_path_ok (lf_source_path l) \<and> hex64 (lf_source_pin l) \<and> plain_text 512 (lf_method l) \<and>
     plain_text 2048 (lf_resource l) \<and> hex64 (lf_request_digest l)"

text \<open>The loop over the two resource actions of a leaf.\<close>

definition latch_actions :: "string \<Rightarrow> cost \<Rightarrow> (string \<times> string) list \<Rightarrow> (string \<times> string) list res" where
  "latch_actions r c seen =
     bind_res (if creates c = 0 then Inr seen
       else bind_res (require ((r, ''create'') \<notin> set seen) ''native_resource_latch'') (\<lambda>_. Inr ((r, ''create'') # seen)))
     (\<lambda>seen. if deletes c = 0 then Inr seen
       else bind_res (require ((r, ''delete'') \<notin> set seen) ''native_resource_latch'') (\<lambda>_. Inr ((r, ''delete'') # seen)))"

text \<open>
  The loop over the leaves: the identities and resource actions seen so far, and the total.
  Without admission only the binding of a leaf and the shape of its cost are checked.
\<close>

fun scan_leaves ::
    "bool \<Rightarrow> int \<Rightarrow> string list \<Rightarrow> (string \<times> string) list \<Rightarrow> cost \<Rightarrow> leaf_intent list \<Rightarrow> cost res" where
  "scan_leaves admission n ids acts tree [] = Inr tree"
| "scan_leaves admission n ids acts tree (l # ls) =
     bind_res (require (leaf_binding n ids l) ''native_leaf_binding'') (\<lambda>_.
     if \<not> admission then
       bind_res (case lf_cost l of None \<Rightarrow> Inr () | Some c \<Rightarrow> validate_cost c) (\<lambda>_.
         scan_leaves admission (n + 1) (lf_identity l # ids) acts tree ls)
     else
       bind_res (leaf_cost (lf_cost l)) (\<lambda>c.
       bind_res (latch_actions (lf_resource l) c acts) (\<lambda>acts.
         scan_leaves admission (n + 1) (lf_identity l # ids) acts (plus_cost tree c) ls)))"

definition lease_shape :: "native_lease \<Rightarrow> bool" where
  "lease_shape x \<longleftrightarrow> plain_text 128 (nl_key x) \<and> hex64 (nl_context_digest x) \<and> hex64 (nl_source_pin x) \<and>
     nl_profile x = PROFILE \<and> nl_object_profile x = OBJECT_PROFILE \<and>
     1 \<le> length (nl_leaves x) \<and> length (nl_leaves x) \<le> 2048"

definition scan_lease :: "bool \<Rightarrow> native_lease \<Rightarrow> cost res" where
  "scan_lease admission x =
     bind_res (require (lease_shape x) ''native_lease_binding'') (\<lambda>_.
     bind_res (scan_leaves admission 0 [] [] Cost (nl_leaves x)) (\<lambda>tree.
     bind_res (within tree RUN_LIMIT) (\<lambda>fits.
     bind_res (require fits ''native_tree_budget'') (\<lambda>_. Inr tree))))"

text \<open>\<open>lease_digest\<close> validates without admission, which never looks at retained bytes.\<close>

definition lease_digest :: "native_lease \<Rightarrow> string res" where
  "lease_digest x = bind_res (scan_lease False x) (\<lambda>_. Inr (sha256_hex (dumps (lease_json x))))"


section \<open>Retained bytes\<close>

definition leaf_row_json :: "int \<Rightarrow> leaf_intent \<Rightarrow> cost \<Rightarrow> json" where
  "leaf_row_json n l actual = JObj
     [(''ordinal'', JInt n), (''identity'', JStr (lf_identity l)), (''intent'', JStr (leaf_text l)),
      (''status'', JStr ''dispatching''), (''actual'', JStr (dumps (cost_json actual))),
      (''evidence_digest'', JStr (replicate 64 (CHR ''f''))),
      (''evidence'', JObj [(''maximum_byte_length'', JInt (artifact_bytes RUN_LIMIT))])]"

definition attempt_row_json :: "native_lease \<Rightarrow> string \<Rightarrow> cost \<Rightarrow> json" where
  "attempt_row_json x digest tree = JObj
     [(''singleton'', JInt 1), (''lease_digest'', JStr digest), (''lease'', JStr (dumps (lease_json x))),
      (''reserved'', JStr (dumps (cost_json tree))), (''status'', JStr ''subtree_dispatching''),
      (''next_ordinal'', JInt (int (length (nl_leaves x)))), (''reason'', JStr (replicate 128 (CHR 0x5C)))]"

text \<open>The encodings are ASCII, so their length is the number of their bytes.\<close>

definition retained :: "native_lease \<Rightarrow> int \<Rightarrow> cost \<Rightarrow> cost \<Rightarrow> int \<Rightarrow> int res" where
  "retained x n actual tree evidence =
     bind_res (require (0 \<le> n \<and> n < int (length (nl_leaves x)) \<and> 0 \<le> evidence \<and> evidence \<le> artifact_bytes RUN_LIMIT)
       ''native_retained_envelope_binding'') (\<lambda>_.
     let row = int (length (dumps (leaf_row_json n (nl_leaves x ! nat n) actual))) + evidence in
     if n = 0 then bind_res (lease_digest x) (\<lambda>digest.
       Inr (row + int (length (dumps (attempt_row_json x digest tree)))))
     else Inr row)"

fun check_envelopes :: "native_lease \<Rightarrow> cost \<Rightarrow> leaf_intent list \<Rightarrow> unit res" where
  "check_envelopes x tree [] = Inr ()"
| "check_envelopes x tree (l # ls) =
     bind_res (leaf_cost (lf_cost l)) (\<lambda>declared.
     bind_res (retained x (lf_ordinal l) declared tree 0) (\<lambda>bytes.
     bind_res (require (bytes \<le> artifact_bytes declared) ''native_unreserved_artifact_envelope'') (\<lambda>_.
     check_envelopes x tree ls)))"

text \<open>\<open>_validate(lease)\<close> for admission.\<close>

definition validate_lease :: "native_lease \<Rightarrow> cost res" where
  "validate_lease x =
     bind_res (scan_lease True x) (\<lambda>tree.
     bind_res (check_envelopes x tree (nl_leaves x)) (\<lambda>_. Inr tree))"

end
