(* ===== verification/Native_Broker.thy ===== *)
theory Native_Broker
  imports Native_Lease
begin

text \<open>
  The native leaf broker (class \<open>SQLiteNativeBroker\<close> of
  \<open>probes/pmb1-finite-runner/native_journal.py\<close>): its two tables, the instance that owns a
  reservation in memory, and every operation. A transaction commits, fails, loses its
  acknowledgement or dies with the process; the column \<open>intent\<close> holds the canonical text of a
  leaf, and the columns that are only decoded again hold the decoded cost.
\<close>

section \<open>Tables\<close>

record attempt =
  at_digest :: string
  at_lease :: string
  at_reserved :: cost
  at_status :: string
  at_next :: int
  at_reason :: string

record leaf_row =
  lr_ordinal :: int
  lr_identity :: string
  lr_intent :: string
  lr_status :: string
  lr_actual :: "cost option"
  lr_digest :: "string option"
  lr_evidence :: "string option"

record store =
  st_attempt :: "attempt option"
  st_leaves :: "leaf_row list"

definition new_store :: store where
  "new_store = \<lparr>st_attempt = None, st_leaves = []\<rparr>"

record broker =
  br_store :: store
  br_owner :: "string option"

text \<open>
  Opening a journal: the table names and the version of an existing file. A new file gets the
  schema; a damaged one is refused and never repaired.
\<close>

definition open_schema :: "bool \<Rightarrow> string list \<Rightarrow> int \<Rightarrow> bool res" where
  "open_schema existing names version =
     (if names = [] then bind_res (require (\<not> existing) ''native_journal_schema_no_repair'') (\<lambda>_. Inr True)
      else bind_res (require (sort names = [''native_attempt'', ''native_leaves'']) ''native_journal_schema'') (\<lambda>_.
           bind_res (require (version = 1) ''native_journal_schema'') (\<lambda>_. Inr False)))"

definition open_broker :: "bool \<Rightarrow> string list \<Rightarrow> int \<Rightarrow> store \<Rightarrow> broker res" where
  "open_broker existing names version t = bind_res (open_schema existing names version) (\<lambda>created.
     Inr \<lparr>br_store = (if created then new_store else t), br_owner = None\<rparr>)"


section \<open>Transactions\<close>

datatype bfault = Commits | Fails | LosesAck | DiesFirst | DiesLast

definition broker_tx :: "bfault \<Rightarrow> (store \<Rightarrow> ('a \<times> store) res) \<Rightarrow> (broker, 'a) act" where
  "broker_tx fault f b =
     (if fault = Fails then (Inl (Refused ''native_journal_unavailable_or_unknown''), b\<lparr>br_owner := None\<rparr>)
      else if fault = DiesFirst then (Inl Killed, b\<lparr>br_owner := None\<rparr>)
      else case f (br_store b) of
        Inl e \<Rightarrow> (Inl e, b\<lparr>br_owner := None\<rparr>)
      | Inr (x, t) \<Rightarrow>
          if fault = Commits then (Inr x, b\<lparr>br_store := t\<rparr>)
          else if fault = LosesAck then
            (Inl (Refused ''native_journal_unavailable_or_unknown''), \<lparr>br_store = t, br_owner = None\<rparr>)
          else (Inl Killed, \<lparr>br_store = t, br_owner = None\<rparr>))"

definition attempt_state :: "string \<Rightarrow> store \<Rightarrow> (string \<times> int) option" where
  "attempt_state digest t = (case st_attempt t of None \<Rightarrow> None
     | Some a \<Rightarrow> if at_digest a = digest then Some (at_status a, at_next a) else None)"

definition set_attempt :: "(attempt \<Rightarrow> attempt) \<Rightarrow> store \<Rightarrow> store" where
  "set_attempt f t = t\<lparr>st_attempt := map_option f (st_attempt t)\<rparr>"

text \<open>\<open>_spend\<close>, with one of its constant reasons.\<close>

definition spend_attempt :: "string \<Rightarrow> string \<Rightarrow> store \<Rightarrow> store" where
  "spend_attempt digest why = set_attempt (\<lambda>a. if at_digest a = digest
     then a\<lparr>at_status := ''unknown'', at_reason := why\<rparr> else a)"

text \<open>An \<open>UPDATE\<close> of the leaves: the number of rows it changes, and the new table.\<close>

definition update_rows :: "(leaf_row \<Rightarrow> bool) \<Rightarrow> (leaf_row \<Rightarrow> leaf_row) \<Rightarrow> store \<Rightarrow> int \<times> store" where
  "update_rows P f t = (int (length (filter P (st_leaves t))),
     t\<lparr>st_leaves := map (\<lambda>r. if P r then f r else r) (st_leaves t)\<rparr>)"

definition owned :: "native_lease \<Rightarrow> (broker, string) act" where
  "owned x =
     bind_act (lift_res (lease_digest x)) (\<lambda>digest.
     bind_act (gets_act br_owner) (\<lambda>owner.
     then_act (require_act (owner = Some digest) ''native_attempt_not_owned_no_replay'') (return_act digest)))"

definition matches :: "native_lease \<Rightarrow> int \<Rightarrow> string \<Rightarrow> string \<Rightarrow> bool" where
  "matches x n identity request \<longleftrightarrow> 0 \<le> n \<and> n < int (length (nl_leaves x)) \<and>
     lf_identity (nl_leaves x ! nat n) = identity \<and> lf_request_digest (nl_leaves x ! nat n) = request"


section \<open>Reservation\<close>

definition new_row :: "leaf_intent \<Rightarrow> leaf_row" where
  "new_row l = \<lparr>lr_ordinal = lf_ordinal l, lr_identity = lf_identity l, lr_intent = leaf_text l,
     lr_status = ''reserved'', lr_actual = None, lr_digest = None, lr_evidence = None\<rparr>"

text \<open>Rows that are left over in the leaves would violate the keys of the new ones.\<close>

definition insert_tree :: "native_lease \<Rightarrow> string \<Rightarrow> cost \<Rightarrow> store \<Rightarrow> (unit \<times> store) res" where
  "insert_tree x digest tree t =
     bind_res (require (st_attempt t = None) ''native_attempt_spent_no_replay'') (\<lambda>_.
     bind_res (require (list_all (\<lambda>l. list_all (\<lambda>r. lr_ordinal r \<noteq> lf_ordinal l \<and> lr_identity r \<noteq> lf_identity l)
        (st_leaves t)) (nl_leaves x)) ''native_journal_unavailable_or_unknown'') (\<lambda>_.
     Inr ((), \<lparr>st_attempt = Some \<lparr>at_digest = digest, at_lease = dumps (lease_json x), at_reserved = tree,
         at_status = ''reserved'', at_next = 0, at_reason = []\<rparr>,
       st_leaves = st_leaves t @ map new_row (nl_leaves x)\<rparr>)))"

definition reserve_tree :: "bfault \<Rightarrow> native_lease \<Rightarrow> (broker, unit) act" where
  "reserve_tree fault x =
     bind_act (lift_res (validate_lease x)) (\<lambda>tree.
     bind_act (lift_res (lease_digest x)) (\<lambda>digest.
     then_act (broker_tx fault (insert_tree x digest tree))
       (modify_act (\<lambda>b. b\<lparr>br_owner := Some digest\<rparr>))))"


section \<open>Single leaves\<close>

text \<open>Each step answers whether the call is refused, after spending the attempt.\<close>

definition begin_leaf :: "native_lease \<Rightarrow> string \<Rightarrow> int \<Rightarrow> string \<Rightarrow> string \<Rightarrow> store \<Rightarrow> bool \<times> store" where
  "begin_leaf x digest n identity request t =
     (if attempt_state digest t \<noteq> Some (''reserved'', n) \<or> \<not> matches x n identity request
      then (True, spend_attempt digest ''leaf_order_or_binding'' t)
      else case update_rows (\<lambda>r. lr_ordinal r = n \<and> lr_identity r = identity \<and> lr_status r = ''reserved'')
             (\<lambda>r. r\<lparr>lr_status := ''dispatching''\<rparr>) t of
        (changed, t) \<Rightarrow>
          if changed \<noteq> 1 then (True, spend_attempt digest ''leaf_dispatch_not_exact'' t)
          else (False, set_attempt (\<lambda>a. a\<lparr>at_status := ''dispatching''\<rparr>) t))"

definition broker_step :: "bfault \<Rightarrow> native_lease \<Rightarrow> (string \<Rightarrow> store \<Rightarrow> bool \<times> store) \<Rightarrow> string \<Rightarrow> (broker, unit) act" where
  "broker_step fault x f code =
     bind_act (owned x) (\<lambda>digest.
     bind_act (broker_tx fault (\<lambda>t. Inr (f digest t))) (\<lambda>refused.
     require_act (\<not> refused) code))"

definition begin_act :: "bfault \<Rightarrow> native_lease \<Rightarrow> int \<Rightarrow> string \<Rightarrow> string \<Rightarrow> (broker, unit) act" where
  "begin_act fault x n identity request =
     broker_step fault x (\<lambda>digest. begin_leaf x digest n identity request) ''native_leaf_order_or_binding''"

text \<open>The checks of a receipt; any refusal among them makes it invalid.\<close>

definition receipt_fits :: "native_lease \<Rightarrow> int \<Rightarrow> cost \<Rightarrow> string \<Rightarrow> bool res" where
  "receipt_fits x n actual evidence =
     bind_res (leaf_cost (lf_cost (nl_leaves x ! nat n))) (\<lambda>declared.
     bind_res (within actual declared) (\<lambda>fits.
     if \<not> fits then Inr False else
       bind_res (validate_lease x) (\<lambda>tree.
       bind_res (retained x n actual tree (int (length evidence))) (\<lambda>bytes.
       Inr (bytes \<le> artifact_bytes actual)))))"

definition receipt_valid :: "native_lease \<Rightarrow> int \<Rightarrow> string \<Rightarrow> string \<Rightarrow> cost \<Rightarrow> string \<Rightarrow> bool" where
  "receipt_valid x n identity request actual evidence \<longleftrightarrow>
     leaf_cost (Some actual) = Inr actual \<and> matches x n identity request \<and>
     receipt_fits x n actual evidence = Inr True"

definition settle_row :: "cost \<Rightarrow> string \<Rightarrow> leaf_row \<Rightarrow> leaf_row" where
  "settle_row actual evidence r = r\<lparr>lr_status := ''known'', lr_actual := Some actual,
     lr_digest := Some (sha256_hex evidence), lr_evidence := Some evidence\<rparr>"

definition settle_leaf :: "int \<Rightarrow> string \<Rightarrow> cost \<Rightarrow> string \<Rightarrow> store \<Rightarrow> int \<times> store" where
  "settle_leaf n identity actual evidence =
     update_rows (\<lambda>r. lr_ordinal r = n \<and> lr_identity r = identity \<and> lr_status r = ''dispatching'')
       (settle_row actual evidence)"

definition after_leaf :: "native_lease \<Rightarrow> int \<Rightarrow> store \<Rightarrow> store" where
  "after_leaf x n = set_attempt (\<lambda>a. a\<lparr>at_status := if n + 1 = int (length (nl_leaves x)) then ''complete'' else ''reserved'',
     at_next := n + 1\<rparr>)"

definition finish_leaf ::
    "native_lease \<Rightarrow> string \<Rightarrow> int \<Rightarrow> string \<Rightarrow> string \<Rightarrow> cost \<Rightarrow> string \<Rightarrow> store \<Rightarrow> bool \<times> store" where
  "finish_leaf x digest n identity request actual evidence t =
     (if attempt_state digest t \<noteq> Some (''dispatching'', n) \<or> \<not> receipt_valid x n identity request actual evidence
      then (True, spend_attempt digest ''receipt_unknown_or_overrun'' t)
      else case settle_leaf n identity actual evidence t of
        (changed, t) \<Rightarrow>
          if changed \<noteq> 1 then (True, spend_attempt digest ''receipt_not_exact'' t)
          else (False, after_leaf x n t))"

definition finish_act ::
    "bfault \<Rightarrow> native_lease \<Rightarrow> int \<Rightarrow> string \<Rightarrow> string \<Rightarrow> cost \<Rightarrow> string \<Rightarrow> (broker, unit) act" where
  "finish_act fault x n identity request actual evidence =
     broker_step fault x (\<lambda>digest. finish_leaf x digest n identity request actual evidence)
       ''native_receipt_unknown_or_overrun''"


section \<open>Subtrees\<close>

definition interval :: "native_lease \<Rightarrow> int \<Rightarrow> int \<Rightarrow> bool" where
  "interval x first through \<longleftrightarrow> 0 \<le> first \<and> first \<le> through \<and> through < int (length (nl_leaves x))"

definition tree_state :: "native_lease \<Rightarrow> int \<Rightarrow> int \<Rightarrow> string \<Rightarrow> store \<Rightarrow> bool" where
  "tree_state x first through active t \<longleftrightarrow>
     map (\<lambda>r. (lr_ordinal r, lr_identity r, lr_intent r, lr_status r)) (sort_key lr_ordinal (st_leaves t)) =
     map (\<lambda>l. (lf_ordinal l, lf_identity l, leaf_text l,
       if lf_ordinal l < first then ''known'' else if lf_ordinal l \<le> through then active else ''reserved'')) (nl_leaves x)"

definition begin_tree :: "native_lease \<Rightarrow> string \<Rightarrow> int \<Rightarrow> int \<Rightarrow> string \<Rightarrow> string \<Rightarrow> store \<Rightarrow> bool \<times> store" where
  "begin_tree x digest first through identity request t =
     (if \<not> (interval x first through \<and> matches x first identity request \<and>
          attempt_state digest t = Some (''reserved'', first) \<and> tree_state x first through ''reserved'' t)
      then (True, spend_attempt digest ''subtree_order_or_binding'' t)
      else case update_rows (\<lambda>r. first \<le> lr_ordinal r \<and> lr_ordinal r \<le> through \<and> lr_status r = ''reserved'')
             (\<lambda>r. r\<lparr>lr_status := ''dispatching''\<rparr>) t of
        (changed, t) \<Rightarrow>
          if changed \<noteq> through - first + 1 then (True, spend_attempt digest ''subtree_dispatch_not_exact'' t)
          else (False, set_attempt (\<lambda>a. a\<lparr>at_status := ''subtree_dispatching''\<rparr>) t))"

definition begin_subtree :: "bfault \<Rightarrow> native_lease \<Rightarrow> int \<Rightarrow> int \<Rightarrow> string \<Rightarrow> string \<Rightarrow> (broker, unit) act" where
  "begin_subtree fault x first through identity request =
     broker_step fault x (\<lambda>digest. begin_tree x digest first through identity request) ''native_subtree_order_or_binding''"

fun receipts_valid :: "native_lease \<Rightarrow> int \<Rightarrow> leaf_receipt list \<Rightarrow> bool" where
  "receipts_valid x n [] = True"
| "receipts_valid x n (r # rs) = (rc_ordinal r = n \<and>
     receipt_valid x n (rc_identity r) (rc_request_digest r) (rc_actual r) (rc_evidence r) \<and>
     receipts_valid x (n + 1) rs)"

text \<open>The updates inside the savepoint; \<open>None\<close> when one of them does not hit exactly one row.\<close>

fun settle_all :: "leaf_receipt list \<Rightarrow> store \<Rightarrow> store option" where
  "settle_all [] t = Some t"
| "settle_all (r # rs) t =
     (case settle_leaf (rc_ordinal r) (rc_identity r) (rc_actual r) (rc_evidence r) t of
        (changed, t') \<Rightarrow> if changed \<noteq> 1 then None else settle_all rs t')"

definition finish_tree :: "native_lease \<Rightarrow> string \<Rightarrow> int \<Rightarrow> int \<Rightarrow> leaf_receipt list \<Rightarrow> store \<Rightarrow> bool \<times> store" where
  "finish_tree x digest first through rs t =
     (if \<not> (interval x first through \<and> int (length rs) = through - first + 1 \<and> receipts_valid x first rs \<and>
          attempt_state digest t = Some (''subtree_dispatching'', first) \<and> tree_state x first through ''dispatching'' t)
      then (True, spend_attempt digest ''subtree_receipt_unknown_or_overrun'' t)
      else case settle_all rs t of
        None \<Rightarrow> (True, spend_attempt digest ''subtree_receipt_not_exact'' t)
      | Some t' \<Rightarrow> (False, after_leaf x through t'))"

definition finish_subtree :: "bfault \<Rightarrow> native_lease \<Rightarrow> int \<Rightarrow> int \<Rightarrow> leaf_receipt list \<Rightarrow> (broker, unit) act" where
  "finish_subtree fault x first through rs =
     broker_step fault x (\<lambda>digest. finish_tree x digest first through rs) ''native_subtree_receipt_unknown_or_overrun''"


section \<open>Unknown, observation, release\<close>

definition mark_unknown :: "bfault \<Rightarrow> native_lease \<Rightarrow> string \<Rightarrow> (broker, unit) act" where
  "mark_unknown fault x why =
     then_act (require_act (plain_text 128 why) ''native_unknown_reason'')
    (bind_act (owned x) (\<lambda>digest.
     broker_tx fault (\<lambda>t. Inr ((), spend_attempt digest ''caller_reported_unknown'' t))))"

record observation =
  ob_status :: string
  ob_next :: int
  ob_reserved :: "cost option"
  ob_leaves :: "(int \<times> string \<times> string \<times> cost option \<times> string option) list"

definition observe_store :: "store \<Rightarrow> observation" where
  "observe_store t = \<lparr>
     ob_status = (case st_attempt t of None \<Rightarrow> ''unreserved'' | Some a \<Rightarrow> at_status a),
     ob_next = (case st_attempt t of None \<Rightarrow> 0 | Some a \<Rightarrow> at_next a),
     ob_reserved = map_option at_reserved (st_attempt t),
     ob_leaves = map (\<lambda>r. (lr_ordinal r, lr_identity r, lr_status r, lr_actual r, lr_digest r))
       (sort_key lr_ordinal (st_leaves t))\<rparr>"

definition close_broker :: "broker \<Rightarrow> broker" where
  "close_broker b = b\<lparr>br_owner := None\<rparr>"

end
