(* ===== verification/Native_Broker_Safety.thy ===== *)
theory Native_Broker_Safety
  imports Native_Broker
begin

text \<open>
  What the native broker keeps: the leaves of the reserved tree are marked in order, a prefix
  of them known, then the ones that may be running, then the ones still reserved; and over any
  history of any instances the granted dispatches are consecutive intervals from the first
  leaf, each marked durably before.
\<close>

section \<open>The layout of the leaves\<close>

definition mark :: "nat \<Rightarrow> nat \<Rightarrow> nat \<Rightarrow> string" where
  "mark k m j = (if j < k then ''known'' else if j < m then ''dispatching'' else ''reserved'')"

definition layout :: "store \<Rightarrow> nat \<Rightarrow> nat \<Rightarrow> bool" where
  "layout t k m \<longleftrightarrow> k \<le> m \<and> m \<le> length (st_leaves t) \<and>
     map (\<lambda>r. (lr_ordinal r, lr_status r)) (st_leaves t) = map (\<lambda>j. (int j, mark k m j)) [0..<length (st_leaves t)]"

definition stage_ok :: "string \<Rightarrow> nat \<Rightarrow> nat \<Rightarrow> bool" where
  "stage_ok s k m \<longleftrightarrow> s = ''unknown'' \<or> s = ''reserved'' \<and> m = k \<or> s = ''complete'' \<and> m = k \<or>
     s = ''dispatching'' \<and> m = Suc k \<or> s = ''subtree_dispatching'' \<and> k < m"

definition staged :: "store \<Rightarrow> nat \<Rightarrow> nat \<Rightarrow> bool" where
  "staged t k m \<longleftrightarrow> layout t k m \<and> (case st_attempt t of None \<Rightarrow> st_leaves t = []
     | Some a \<Rightarrow> at_next a = int k \<and> stage_ok (at_status a) k m)"

lemma layout_nth:
  assumes "layout t k m" and "j < length (st_leaves t)"
  shows "lr_ordinal (st_leaves t ! j) = int j" and "lr_status (st_leaves t ! j) = mark k m j"
proof -
  have "map (\<lambda>r. (lr_ordinal r, lr_status r)) (st_leaves t) ! j = map (\<lambda>j. (int j, mark k m j)) [0..<length (st_leaves t)] ! j"
    using assms(1) by (simp add: layout_def)
  with assms(2) show "lr_ordinal (st_leaves t ! j) = int j" "lr_status (st_leaves t ! j) = mark k m j" by simp_all
qed

lemma layoutI:
  assumes "k \<le> m" "m \<le> length (st_leaves t)"
    and "\<And>j. j < length (st_leaves t) \<Longrightarrow> lr_ordinal (st_leaves t ! j) = int j \<and> lr_status (st_leaves t ! j) = mark k m j"
  shows "layout t k m"
  using assms by (auto simp: layout_def intro!: nth_equalityI)

lemma layout_attempt [simp]: "layout (t\<lparr>st_attempt := x\<rparr>) k m = layout t k m"
  by (simp add: layout_def)

text \<open>Which rows are marked: how many leaves may have run.\<close>

definition marked :: "store \<Rightarrow> nat" where
  "marked t = length (filter (\<lambda>r. lr_status r \<noteq> ''reserved'') (st_leaves t))"

lemma marked_layout:
  assumes "layout t k m"
  shows "marked t = m"
proof -
  have m: "k \<le> m" "m \<le> length (st_leaves t)" using assms by (simp_all add: layout_def)
  have "{j. j < length (st_leaves t) \<and> lr_status (st_leaves t ! j) \<noteq> ''reserved''} = {j. j < m}"
    using layout_nth(2) [OF assms] m by (auto simp: mark_def split: if_splits)
  then show ?thesis by (simp add: marked_def length_filter_conv_card)
qed

text \<open>An update that hits as many rows as its interval is long hits exactly the interval.\<close>

lemma hits_interval:
  assumes "layout t k m" and "\<And>r. P r \<Longrightarrow> int a \<le> lr_ordinal r \<and> lr_ordinal r \<le> int b"
    and "int (length (filter P (st_leaves t))) = int b - int a + 1" and "a \<le> b"
  shows "b < length (st_leaves t) \<and> (\<forall>j < length (st_leaves t). P (st_leaves t ! j) \<longleftrightarrow> a \<le> j \<and> j \<le> b)"
proof -
  let ?H = "{j. j < length (st_leaves t) \<and> P (st_leaves t ! j)}"
  have sub: "?H \<subseteq> {a..b}"
  proof
    fix j assume j: "j \<in> ?H"
    then have "int a \<le> lr_ordinal (st_leaves t ! j) \<and> lr_ordinal (st_leaves t ! j) \<le> int b" using assms(2) by blast
    with j layout_nth(1) [OF assms(1)] show "j \<in> {a..b}" by auto
  qed
  have "card ?H = length (filter P (st_leaves t))" by (simp add: length_filter_conv_card)
  then have "card ?H = card {a..b}" using assms(3,4) by simp
  with sub have "?H = {a..b}" by (intro card_subset_eq) auto
  then have eq: "j < length (st_leaves t) \<and> P (st_leaves t ! j) \<longleftrightarrow> a \<le> j \<and> j \<le> b" for j
    by (simp add: set_eq_iff)
  have "b < length (st_leaves t)" using eq [of b] assms(4) by simp
  with eq show ?thesis by blast
qed

text \<open>An update of an interval to one status.\<close>

lemma update_layout:
  assumes lay: "layout t k m" and u: "update_rows P f t = (int b - int a + 1, u)" and "a \<le> b"
    and P: "\<And>r. P r \<Longrightarrow> int a \<le> lr_ordinal r \<and> lr_ordinal r \<le> int b"
    and f: "\<And>r. lr_ordinal (f r) = lr_ordinal r" "\<And>r. lr_status (f r) = s"
    and new: "k' \<le> m'" "m' \<le> length (st_leaves t)"
      "\<And>j. j < length (st_leaves t) \<Longrightarrow> mark k' m' j = (if a \<le> j \<and> j \<le> b then s else mark k m j)"
  shows "layout u k' m'"
proof -
  have u': "u = t\<lparr>st_leaves := map (\<lambda>r. if P r then f r else r) (st_leaves t)\<rparr>"
    and c: "int (length (filter P (st_leaves t))) = int b - int a + 1"
    using u by (simp_all add: update_rows_def)
  note h = hits_interval [OF lay P c \<open>a \<le> b\<close>]
  show ?thesis
    by (rule layoutI) (use new h layout_nth [OF lay] in \<open>auto simp: u' f\<close>)
qed

text \<open>An update of one ordinal that hits no row changes nothing.\<close>

lemma update_none:
  assumes "layout t k m" and "\<And>r. P r \<Longrightarrow> lr_ordinal r = n"
    and "update_rows P f t = (c, u)" and "c \<noteq> 1"
  shows "u = t"
proof -
  let ?H = "{j. j < length (st_leaves t) \<and> P (st_leaves t ! j)}"
  have "?H \<subseteq> {nat n}"
    using assms(2) layout_nth(1) [OF assms(1)] by force
  then have "card ?H \<le> 1" by (metis card_mono finite.emptyI finite.insertI card.empty card_insert_disjoint empty_iff One_nat_def)
  moreover have "card ?H = length (filter P (st_leaves t))" by (simp add: length_filter_conv_card)
  ultimately have "filter P (st_leaves t) = []" using assms(3,4) by (cases "filter P (st_leaves t)") (auto simp: update_rows_def)
  then have "map (\<lambda>r. if P r then f r else r) (st_leaves t) = st_leaves t"
    by (intro map_idI) (simp add: filter_empty_conv)
  with assms(3) show ?thesis by (simp add: update_rows_def)
qed


section \<open>The steps\<close>

lemma staged_spend: "staged t k m \<Longrightarrow> staged (spend_attempt d why t) k m"
  by (auto simp: staged_def spend_attempt_def set_attempt_def stage_ok_def split: option.splits)

lemma spend_leaves [simp]: "st_leaves (spend_attempt d why t) = st_leaves t" "st_leaves (set_attempt f t) = st_leaves t"
  by (simp_all add: spend_attempt_def set_attempt_def)

lemma update_attempt: "update_rows P f t = (c, u) \<Longrightarrow> st_attempt u = st_attempt t \<and> length (st_leaves u) = length (st_leaves t)"
  by (auto simp: update_rows_def)

lemma attempt_state_Some:
  "attempt_state d t = Some (s, n) \<longleftrightarrow> (\<exists>a. st_attempt t = Some a \<and> at_digest a = d \<and> at_status a = s \<and> at_next a = n)"
  by (auto simp: attempt_state_def split: option.splits)

text \<open>What a step does to the stage: nothing when refused, apart from spending the attempt.\<close>

definition same_stage :: "store \<Rightarrow> store \<Rightarrow> bool" where
  "same_stage t u \<longleftrightarrow> st_leaves u = st_leaves t \<and> map_option at_digest (st_attempt u) = map_option at_digest (st_attempt t) \<and>
     (\<forall>k m. staged t k m \<longrightarrow> staged u k m)"

lemma same_stage_spend: "same_stage t (spend_attempt d why t)"
proof -
  have "map_option at_digest (st_attempt (spend_attempt d why t)) = map_option at_digest (st_attempt t)"
    by (cases "st_attempt t") (simp_all add: spend_attempt_def set_attempt_def)
  then show ?thesis by (simp add: same_stage_def staged_spend)
qed

lemma begin_leaf_stage:
  assumes st: "staged t k m" and b: "begin_leaf x d n identity request t = (refused, u)"
  shows "if refused then same_stage t u
    else n = int m \<and> staged u k (Suc m) \<and> (\<exists>a. st_attempt t = Some a \<and> at_digest a = d) \<and>
      map_option at_digest (st_attempt u) = map_option at_digest (st_attempt t)"
proof (cases "attempt_state d t = Some (''reserved'', n) \<and> matches x n identity request")
  case False
  with b show ?thesis using same_stage_spend by (auto simp: begin_leaf_def split: if_splits)
next
  case True
  then obtain a where a: "st_attempt t = Some a" "at_digest a = d" "at_status a = ''reserved''" "at_next a = n"
    by (auto simp: attempt_state_Some)
  have lay: "layout t k m" and km: "n = int k" "m = k" using st a by (auto simp: staged_def stage_ok_def)
  let ?P = "\<lambda>r. lr_ordinal r = n \<and> lr_identity r = identity \<and> lr_status r = ''reserved''"
  let ?f = "\<lambda>r. r\<lparr>lr_status := ''dispatching''\<rparr>"
  obtain c v where c: "update_rows ?P ?f t = (c, v)" by force
  show ?thesis
  proof (cases "c = 1")
    case False
    have "v = t" using update_none [OF lay _ c False] by blast
    with b True c False show ?thesis using same_stage_spend by (auto simp: begin_leaf_def)
  next
    case one: True
    have u: "\<not> refused" "u = set_attempt (\<lambda>a. a\<lparr>at_status := ''dispatching''\<rparr>) v"
      using b True c one by (auto simp: begin_leaf_def)
    have c': "update_rows ?P ?f t = (int k - int k + 1, v)" using c one by simp
    have len: "k < length (st_leaves t)"
      using hits_interval [OF lay, of ?P k k] c' km by (auto simp: update_rows_def)
    have "layout v k (Suc m)"
      by (rule update_layout [OF lay c', where s = "''dispatching''"]) (use km len in \<open>auto simp: mark_def\<close>)
    moreover have "st_attempt v = Some a" using update_attempt [OF c] a by simp
    ultimately show ?thesis
      using a km u by (auto simp: staged_def stage_ok_def set_attempt_def)
  qed
qed

lemma settle_leaf_stage:
  assumes lay: "layout t k m" and "n = int k" and s: "settle_leaf n identity actual evidence t = (1, u)" and "k < m"
  shows "layout u (Suc k) m" and "st_attempt u = st_attempt t"
proof -
  show "layout u (Suc k) m"
    by (rule update_layout [OF lay, where s = "''known''" and a = k and b = k and
          P = "\<lambda>r. lr_ordinal r = n \<and> lr_identity r = identity \<and> lr_status r = ''dispatching''" and f = "settle_row actual evidence"])
       (use assms lay in \<open>auto simp: settle_leaf_def settle_row_def mark_def layout_def\<close>)
  show "st_attempt u = st_attempt t"
    using update_attempt s unfolding settle_leaf_def by blast
qed

lemma after_leaf_stage:
  assumes "layout t (Suc k) (Suc k)" and "n = int k" and "st_attempt t = Some a"
  shows "staged (after_leaf x n t) (Suc k) (Suc k)"
  using assms by (auto simp: staged_def after_leaf_def set_attempt_def stage_ok_def)

lemma finish_leaf_stage:
  assumes st: "staged t k m" and b: "finish_leaf x d n identity request actual evidence t = (refused, u)"
  shows "if refused then same_stage t u
    else m = Suc k \<and> n = int k \<and> staged u m m \<and> map_option at_digest (st_attempt u) = map_option at_digest (st_attempt t)"
proof (cases "attempt_state d t = Some (''dispatching'', n) \<and> receipt_valid x n identity request actual evidence")
  case False
  with b show ?thesis using same_stage_spend by (auto simp: finish_leaf_def split: if_splits)
next
  case True
  then obtain a where a: "st_attempt t = Some a" "at_digest a = d" "at_status a = ''dispatching''" "at_next a = n"
    by (auto simp: attempt_state_Some)
  have lay: "layout t k m" and km: "n = int k" "m = Suc k" using st a by (auto simp: staged_def stage_ok_def)
  obtain c v where c: "settle_leaf n identity actual evidence t = (c, v)" by force
  show ?thesis
  proof (cases "c = 1")
    case False
    have "v = t" by (rule update_none [OF lay _ c [unfolded settle_leaf_def] False]) simp
    with b True c False show ?thesis using same_stage_spend by (auto simp: finish_leaf_def)
  next
    case one: True
    have u: "\<not> refused" "u = after_leaf x n v" using b True c one by (auto simp: finish_leaf_def)
    note v = settle_leaf_stage [OF lay km(1) c [unfolded one]]
    show ?thesis
      using after_leaf_stage [of v k n a x] v km a u
      by (auto simp: after_leaf_def set_attempt_def option.map_comp comp_def cong: option.map_cong)
  qed
qed


section \<open>Subtrees\<close>

lemma layout_sorted: "layout t k m \<Longrightarrow> sort_key lr_ordinal (st_leaves t) = st_leaves t"
proof -
  assume "layout t k m"
  then have "map fst (map (\<lambda>r. (lr_ordinal r, lr_status r)) (st_leaves t)) = map int [0..<length (st_leaves t)]"
    by (simp add: layout_def comp_def)
  then have "map lr_ordinal (st_leaves t) = map int [0..<length (st_leaves t)]" by (simp add: comp_def)
  moreover have "sorted (map int [0..<n])" for n by (induction n) (auto simp: sorted_append)
  ultimately show ?thesis by (intro sort_key_id_if_sorted) simp
qed

lemma tree_state_layout:
  assumes lay: "layout t k m" and ts: "tree_state x first through active t"
  shows "length (nl_leaves x) = length (st_leaves t)"
    and "j < length (st_leaves t) \<Longrightarrow>
      mark k m j = (if int j < first then ''known'' else if int j \<le> through then active else ''reserved'')"
proof -
  let ?row = "\<lambda>r. (lr_ordinal r, lr_identity r, lr_intent r, lr_status r)"
  let ?leaf = "\<lambda>l. (lf_ordinal l, lf_identity l, leaf_text l,
       if lf_ordinal l < first then ''known'' else if lf_ordinal l \<le> through then active else ''reserved'')"
  have eq: "map ?row (st_leaves t) = map ?leaf (nl_leaves x)"
    using ts layout_sorted [OF lay] by (simp add: tree_state_def)
  show len: "length (nl_leaves x) = length (st_leaves t)" using arg_cong [OF eq, of length] by simp
  assume j: "j < length (st_leaves t)"
  have "?row (st_leaves t ! j) = ?leaf (nl_leaves x ! j)" using arg_cong [OF eq, of "\<lambda>xs. xs ! j"] j len by simp
  with layout_nth [OF lay j]
  show "mark k m j = (if int j < first then ''known'' else if int j \<le> through then active else ''reserved'')" by auto
qed

lemma begin_tree_stage:
  assumes st: "staged t k m" and b: "begin_tree x d first through identity request t = (refused, u)"
  shows "if refused then same_stage t u
    else first = int m \<and> first \<le> through \<and> staged u k (Suc (nat through)) \<and>
      (\<exists>a. st_attempt t = Some a \<and> at_digest a = d) \<and>
      map_option at_digest (st_attempt u) = map_option at_digest (st_attempt t)"
proof (cases "interval x first through \<and> matches x first identity request \<and>
          attempt_state d t = Some (''reserved'', first) \<and> tree_state x first through ''reserved'' t")
  case False
  then have "refused" "u = spend_attempt d ''subtree_order_or_binding'' t" using b by (auto simp: begin_tree_def)
  then show ?thesis using same_stage_spend by simp
next
  case True
  then obtain a where a: "st_attempt t = Some a" "at_digest a = d" "at_status a = ''reserved''" "at_next a = first"
    and iv: "0 \<le> first" "first \<le> through" "through < int (length (nl_leaves x))" and ts: "tree_state x first through ''reserved'' t"
    by (auto simp: attempt_state_Some interval_def)
  have lay: "layout t k m" and km: "first = int k" "m = k" using st a by (auto simp: staged_def stage_ok_def)
  have "0 \<le> through" using iv by simp
  then obtain b where thr: "through = int b" using nonneg_int_cases by blast
  have kb: "k \<le> b" "b < length (st_leaves t)" using iv tree_state_layout(1) [OF lay ts] km thr by simp_all
  let ?P = "\<lambda>r. first \<le> lr_ordinal r \<and> lr_ordinal r \<le> through \<and> lr_status r = ''reserved''"
  let ?f = "\<lambda>r. r\<lparr>lr_status := ''dispatching''\<rparr>"
  obtain c v where c: "update_rows ?P ?f t = (c, v)" by force
  have "{j. j < length (st_leaves t) \<and> ?P (st_leaves t ! j)} = {k..b}"
    using layout_nth [OF lay] kb km thr by (auto simp: mark_def)
  then have "length (filter ?P (st_leaves t)) = card {k..b}" by (simp add: length_filter_conv_card)
  then have cb: "c = int b - int k + 1" using c kb(1) by (simp add: update_rows_def)
  have u: "\<not> refused" "u = set_attempt (\<lambda>a. a\<lparr>at_status := ''subtree_dispatching''\<rparr>) v"
    using \<open>begin_tree x d first through identity request t = (refused, u)\<close> True c cb km thr by (auto simp: begin_tree_def)
  have "layout v k (Suc b)"
    by (rule update_layout [OF lay c [unfolded cb] kb(1), where s = "''dispatching''"])
       (use km kb thr in \<open>auto simp: mark_def\<close>)
  moreover have "st_attempt v = Some a" using update_attempt [OF c] a by simp
  ultimately show ?thesis
    using a km kb u thr iv by (simp add: staged_def stage_ok_def set_attempt_def)
qed

lemma settle_all_stage:
  assumes "layout t k m" and "k + length rs \<le> m" and "map rc_ordinal rs = map int [k..<k + length rs]"
    and "settle_all rs t = Some u"
  shows "layout u (k + length rs) m \<and> st_attempt u = st_attempt t"
  using assms
proof (induction rs arbitrary: k t)
  case (Cons r rs)
  obtain v where v: "settle_leaf (rc_ordinal r) (rc_identity r) (rc_actual r) (rc_evidence r) t = (1, v)"
    and rest: "settle_all rs v = Some u"
    using Cons.prems(4) by (auto split: prod.splits if_splits)
  have ord: "rc_ordinal r = int k" "map rc_ordinal rs = map int [Suc k..<Suc k + length rs]"
    using Cons.prems(3) upt_conv_Cons [of k "k + length (r # rs)"] by (simp_all del: upt_Suc)
  note l = settle_leaf_stage [OF Cons.prems(1) ord(1) v]
  have "layout u (Suc k + length rs) m \<and> st_attempt u = st_attempt v"
    by (rule Cons.IH [OF l(1) _ ord(2) rest]) (use Cons.prems(2) in auto)
  with l(2) Cons.prems(2) show ?case by simp
qed simp

lemma receipts_ordinals: "receipts_valid x n rs \<Longrightarrow> map rc_ordinal rs = map (\<lambda>j. n + int j) [0..<length rs]"
proof (induction rs arbitrary: n)
  case (Cons r rs)
  then have "map rc_ordinal rs = map (\<lambda>j. n + 1 + int j) [0..<length rs]" by simp
  moreover have "map (\<lambda>j. n + int j) [0..<Suc (length rs)] = n # map (\<lambda>j. n + 1 + int j) [0..<length rs]"
    by (simp add: upt_rec [of 0] map_Suc_upt [symmetric] comp_def del: upt_Suc)
  ultimately show ?case using Cons.prems by simp
qed simp

lemma finish_tree_stage:
  assumes st: "staged t k m" and b: "finish_tree x d first through rs t = (refused, u)"
  shows "if refused then same_stage t u
    else staged u m m \<and> first = int k \<and> through + 1 = int m \<and> map_option at_digest (st_attempt u) = map_option at_digest (st_attempt t)"
proof (cases "interval x first through \<and> int (length rs) = through - first + 1 \<and> receipts_valid x first rs \<and>
          attempt_state d t = Some (''subtree_dispatching'', first) \<and> tree_state x first through ''dispatching'' t")
  case False
  then have "refused" "u = spend_attempt d ''subtree_receipt_unknown_or_overrun'' t" using b by (auto simp: finish_tree_def)
  then show ?thesis using same_stage_spend by simp
next
  case True
  then obtain a where a: "st_attempt t = Some a" "at_digest a = d" "at_status a = ''subtree_dispatching''" "at_next a = first"
    and iv: "0 \<le> first" "first \<le> through" "through < int (length (nl_leaves x))"
    and ts: "tree_state x first through ''dispatching'' t" and rs: "int (length rs) = through - first + 1" "receipts_valid x first rs"
    by (auto simp: attempt_state_Some interval_def)
  have lay: "layout t k m" and km: "first = int k" "k < m" using st a by (auto simp: staged_def stage_ok_def)
  have len: "length (nl_leaves x) = length (st_leaves t)" by (rule tree_state_layout(1) [OF lay ts])
  have m: "m = k + length rs"
  proof -
    have thr: "through = int (k + length rs) - 1" using rs km by simp
    have ml: "m \<le> length (st_leaves t)" using lay by (simp add: layout_def)
    have low: "\<not> m < k + length rs"
    proof
      assume lt: "m < k + length rs"
      have "m < length (st_leaves t)" using lt thr iv len by simp
      from tree_state_layout(2) [OF lay ts this] lt km thr show False by (simp add: mark_def)
    qed
    have "\<not> k + length rs < m"
    proof
      assume gt: "k + length rs < m"
      then have "k + length rs < length (st_leaves t)" using ml by simp
      from tree_state_layout(2) [OF lay ts this] gt km thr show False by (simp add: mark_def)
    qed
    with low show ?thesis by simp
  qed
  show ?thesis
  proof (cases "settle_all rs t")
    case None
    then have "refused" "u = spend_attempt d ''subtree_receipt_not_exact'' t" using b True by (auto simp: finish_tree_def)
    then show ?thesis using same_stage_spend by simp
  next
    case (Some v)
    have u: "\<not> refused" "u = after_leaf x through v" using b True Some by (auto simp: finish_tree_def)
    have "map rc_ordinal rs = map int [k..<k + length rs]"
      using receipts_ordinals [OF rs(2)] km by (intro nth_equalityI) auto
    then have v: "layout v m m" "st_attempt v = st_attempt t"
      using settle_all_stage [OF lay _ _ Some] m by auto
    obtain j where mj: "m = Suc j" using km by (cases m) auto
    have "int m = int k + int (length rs)" using m by simp
    then have j: "m = Suc j" "through = int j" using rs(1) km(1) mj by simp_all
    show ?thesis
      using after_leaf_stage [of v j through a x] v j a u km
      by (auto simp: after_leaf_def set_attempt_def option.map_comp comp_def cong: option.map_cong)
  qed
qed

end
