(* ===== verification/Native_History.thy ===== *)
theory Native_History
  imports Native_Broker_Safety
begin

text \<open>
  Histories of the native broker: any calls by any number of instances on one journal file,
  each instance with its own ownership in memory, with any transaction outcomes.
\<close>

section \<open>Histories\<close>

datatype bcall =
    Reserve native_lease
  | Begin native_lease int string string
  | Finish native_lease int string string cost string
  | BeginSubtree native_lease int int string string
  | FinishSubtree native_lease int int "leaf_receipt list"
  | MarkUnknown native_lease string
  | Release

definition bcall_act :: "bfault \<Rightarrow> bcall \<Rightarrow> (broker, unit) act" where
  "bcall_act fault c = (case c of
     Reserve x \<Rightarrow> reserve_tree fault x
   | Begin x n i q \<Rightarrow> begin_act fault x n i q
   | Finish x n i q a e \<Rightarrow> finish_act fault x n i q a e
   | BeginSubtree x f th i q \<Rightarrow> begin_subtree fault x f th i q
   | FinishSubtree x f th rs \<Rightarrow> finish_subtree fault x f th rs
   | MarkUnknown x why \<Rightarrow> mark_unknown fault x why
   | Release \<Rightarrow> modify_act close_broker)"

text \<open>The leaves a call that returns lets its caller run.\<close>

fun granted :: "bcall \<Rightarrow> int list" where
  "granted (Begin x n i q) = [n]"
| "granted (BeginSubtree x f th i q) = [f..th]"
| "granted _ = []"

type_synonym world = "store \<times> (nat \<Rightarrow> string option) \<times> int list"

definition world_step :: "nat \<times> bfault \<times> bcall \<Rightarrow> world \<Rightarrow> world" where
  "world_step x w = (case x of (i, fault, c) \<Rightarrow> case w of (t, owners, gs) \<Rightarrow>
     case bcall_act fault c \<lparr>br_store = t, br_owner = owners i\<rparr> of
       (r, b) \<Rightarrow> (br_store b, owners(i := br_owner b), case r of Inr _ \<Rightarrow> gs @ granted c | Inl _ \<Rightarrow> gs))"

definition world_run :: "(nat \<times> bfault \<times> bcall) list \<Rightarrow> world" where
  "world_run xs = fold world_step xs (new_store, \<lambda>_. None, [])"


section \<open>The invariant\<close>

text \<open>
  The store is staged; an owner owns the reserved attempt, and there is at most one; the
  grants are the first leaves in order, all of them marked, and exactly the marked ones while
  somebody owns the attempt.
\<close>

definition first_leaves :: "nat \<Rightarrow> int list" where
  "first_leaves n = map int [0..<n]"

definition owner_of :: "store \<Rightarrow> string option \<Rightarrow> bool" where
  "owner_of t o' \<longleftrightarrow> o' = None \<or> map_option at_digest (st_attempt t) = o'"

definition world_ok :: "world \<Rightarrow> bool" where
  "world_ok w \<longleftrightarrow> (case w of (t, owners, gs) \<Rightarrow> \<exists>k m g.
     staged t k m \<and> (\<forall>i. owner_of t (owners i)) \<and> (\<forall>i j. owners i \<noteq> None \<longrightarrow> owners j \<noteq> None \<longrightarrow> i = j) \<and>
     gs = first_leaves g \<and> g \<le> m \<and> ((\<exists>i. owners i \<noteq> None) \<longrightarrow> g = m))"

lemma world_ok_start: "world_ok (new_store, \<lambda>_. None, [])"
  by (auto simp: world_ok_def staged_def new_store_def layout_def owner_of_def first_leaves_def)

text \<open>The effect of one call of an instance, on the store, its ownership and the grants.\<close>

definition moves :: "store \<Rightarrow> string option \<Rightarrow> exc + unit \<Rightarrow> int list \<Rightarrow> store \<Rightarrow> string option \<Rightarrow> bool" where
  "moves t o1 r gr u o2 \<longleftrightarrow> (\<forall>k m. staged t k m \<longrightarrow> owner_of t o1 \<longrightarrow>
     (\<exists>k' m'. staged u k' m' \<and> m \<le> m' \<and>
       (o2 = o1 \<and> map_option at_digest (st_attempt u) = map_option at_digest (st_attempt t) \<and>
          (r = Inr () \<longrightarrow> map int [m..<m'] = gr) \<and> (r \<noteq> Inr () \<longrightarrow> m' = m) \<and> (o1 = None \<longrightarrow> m' = m) \<or>
        o2 = None \<and> (o1 = None \<longrightarrow> m' = m) \<and> (r = Inr () \<longrightarrow> gr = [] \<and> m' = m) \<and>
          (map_option at_digest (st_attempt u) = map_option at_digest (st_attempt t) \<or> st_attempt t = None) \<or>
        st_attempt t = None \<and> r = Inr () \<and> gr = [] \<and> m = 0 \<and> m' = 0 \<and> o2 = map_option at_digest (st_attempt u))))"

lemma first_leaves_append: "first_leaves m @ map int [m..<m'] = first_leaves m'" if "m \<le> m'" for m m'
  using that by (metis first_leaves_def le0 map_append upt_add_eq_append le_add_diff_inverse)

lemma world_okI:
  assumes "staged t k m" "\<And>i. owner_of t (owners i)" "\<And>i j. owners i \<noteq> None \<Longrightarrow> owners j \<noteq> None \<Longrightarrow> i = j"
    "gs = first_leaves g" "g \<le> m" "\<And>i. owners i \<noteq> None \<Longrightarrow> g = m"
  shows "world_ok (t, owners, gs)"
proof -
  have "(\<forall>i. owner_of t (owners i))" "(\<forall>i j. owners i \<noteq> None \<longrightarrow> owners j \<noteq> None \<longrightarrow> i = j)"
    "((\<exists>i. owners i \<noteq> None) \<longrightarrow> g = m)"
    using assms(2,3,6) by blast+
  with assms(1,4,5) show ?thesis unfolding world_ok_def prod.case by (intro exI conjI)
qed

lemma world_ok_step:
  assumes ok: "world_ok (t, owners, gs)" and mv: "moves t (owners i) r gr u o2"
    and none: "st_attempt t = None \<Longrightarrow> r \<noteq> Inr () \<or> gr = []"
  shows "world_ok (u, owners(i := o2), case r of Inr _ \<Rightarrow> gs @ gr | Inl _ \<Rightarrow> gs)"
proof -
  obtain k m g where st: "staged t k m" and own: "\<And>i. owner_of t (owners i)"
    and one: "\<And>i j. owners i \<noteq> None \<Longrightarrow> owners j \<noteq> None \<Longrightarrow> i = j"
    and g: "gs = first_leaves g" "g \<le> m" "(\<exists>i. owners i \<noteq> None) \<Longrightarrow> g = m"
    using ok by (auto simp: world_ok_def)
  have no: "st_attempt t = None \<Longrightarrow> owners j = None" for j
    using own [of j] by (auto simp: owner_of_def)
  obtain k' m' where u: "staged u k' m'" "m \<le> m'" and cases:
      "o2 = owners i \<and> map_option at_digest (st_attempt u) = map_option at_digest (st_attempt t) \<and>
          (r = Inr () \<longrightarrow> map int [m..<m'] = gr) \<and> (r \<noteq> Inr () \<longrightarrow> m' = m) \<and> (owners i = None \<longrightarrow> m' = m) \<or>
        o2 = None \<and> (owners i = None \<longrightarrow> m' = m) \<and> (r = Inr () \<longrightarrow> gr = [] \<and> m' = m) \<and>
          (map_option at_digest (st_attempt u) = map_option at_digest (st_attempt t) \<or> st_attempt t = None) \<or>
        st_attempt t = None \<and> r = Inr () \<and> gr = [] \<and> m = 0 \<and> m' = 0 \<and> o2 = map_option at_digest (st_attempt u)"
    using mv st own [of i] unfolding moves_def by blast
  have rr: "r = Inr () \<or> (\<exists>e. r = Inl e)" by (cases r) auto
  from cases show ?thesis
  proof (elim disjE)
    assume c: "o2 = owners i \<and> map_option at_digest (st_attempt u) = map_option at_digest (st_attempt t) \<and>
          (r = Inr () \<longrightarrow> map int [m..<m'] = gr) \<and> (r \<noteq> Inr () \<longrightarrow> m' = m) \<and> (owners i = None \<longrightarrow> m' = m)"
    then have o: "owners(i := o2) = owners" "\<And>j. owner_of u (owners j)" using own by (auto simp: owner_of_def)
    show ?thesis
    proof (cases "r = Inr ()")
      case True
      show ?thesis
      proof (cases "owners i = None")
        case True
        with c \<open>r = Inr ()\<close> have "m' = m" "gr = []" by auto
        show ?thesis
          by (rule world_okI [OF u(1), of _ _ g]) (use \<open>m' = m\<close> \<open>gr = []\<close> \<open>r = Inr ()\<close> g one o in auto)
      next
        case False
        then have "g = m" using g(3) by blast
        have "gr = map int [m..<m']" using c \<open>r = Inr ()\<close> by simp
        then have "gs @ gr = first_leaves m'" using \<open>g = m\<close> g(1) first_leaves_append [OF u(2)] by simp
        then show ?thesis
          by (intro world_okI [OF u(1), of _ _ m']) (use \<open>r = Inr ()\<close> one o in auto)
      qed
    next
      case False
      with c have "m' = m" by simp
      show ?thesis
        by (rule world_okI [OF u(1), of _ _ g]) (use \<open>m' = m\<close> False rr g one o in auto)
    qed
  next
    assume c: "o2 = None \<and> (owners i = None \<longrightarrow> m' = m) \<and> (r = Inr () \<longrightarrow> gr = [] \<and> m' = m) \<and>
          (map_option at_digest (st_attempt u) = map_option at_digest (st_attempt t) \<or> st_attempt t = None)"
    have o: "owner_of u ((owners(i := o2)) j)" for j
      using c own [of j] no [of j] by (auto simp: owner_of_def)
    have eq: "g = m'" if "(owners(i := o2)) j \<noteq> None" for j
    proof -
      have j: "j \<noteq> i" "owners j \<noteq> None" using that c by (auto split: if_splits)
      then have "owners i = None" using one by blast
      with c j(2) g(3) show ?thesis by auto
    qed
    have gs: "(case r of Inr _ \<Rightarrow> gs @ gr | Inl _ \<Rightarrow> gs) = gs" using c rr by auto
    show ?thesis
      unfolding gs by (rule world_okI [OF u(1) o _ g(1) _ eq]) (use c one u(2) g(2) in \<open>auto split: if_splits\<close>)
  next
    assume c: "st_attempt t = None \<and> r = Inr () \<and> gr = [] \<and> m = 0 \<and> m' = 0 \<and> o2 = map_option at_digest (st_attempt u)"
    then have "owners j = None" for j using no by simp
    then show ?thesis
      using c u g by (auto simp: world_ok_def owner_of_def first_leaves_def)
  qed
qed


section \<open>Every call moves the world\<close>

lemma moves_stay:
  "r \<noteq> Inr () \<Longrightarrow> moves t o1 r gr t o1" "r \<noteq> Inr () \<Longrightarrow> moves t o1 r gr t None"
  unfolding moves_def by blast+

lemma owner_digest: "owner_of t (Some d) \<longleftrightarrow> map_option at_digest (st_attempt t) = Some d"
  by (simp add: owner_of_def)

lemma broker_step_cases:
  assumes "broker_step fault x f code b = (r, b')"
  shows "b' = b \<and> r \<noteq> Inr () \<or> (\<exists>d refused v. lease_digest x = Inr d \<and> br_owner b = Some d \<and> f d (br_store b) = (refused, v) \<and>
    (br_store b' = br_store b \<and> br_owner b' = None \<and> r \<noteq> Inr () \<or>
     br_store b' = v \<and> br_owner b' = br_owner b \<and> (r = Inr () \<longleftrightarrow> \<not> refused) \<or>
     br_store b' = v \<and> br_owner b' = None \<and> r \<noteq> Inr ()))"
proof (cases "\<exists>d. lease_digest x = Inr d \<and> br_owner b = Some d")
  case False
  with assms have "b' = b \<and> r \<noteq> Inr ()"
    by (cases "lease_digest x") (auto simp: broker_step_def owned_def act_simps split: if_splits)
  then show ?thesis by blast
next
  case True
  then obtain d where d: "lease_digest x = Inr d" "br_owner b = Some d" by blast
  obtain refused v where f: "f d (br_store b) = (refused, v)" by force
  have o: "owned x b = (Inr d, b)" using d by (simp add: owned_def act_simps)
  have "br_store b' = br_store b \<and> br_owner b' = None \<and> r \<noteq> Inr () \<or>
     br_store b' = v \<and> br_owner b' = br_owner b \<and> (r = Inr () \<longleftrightarrow> \<not> refused) \<or>
     br_store b' = v \<and> br_owner b' = None \<and> r \<noteq> Inr ()"
    using assms o f by (cases fault; cases refused) (auto simp: broker_step_def act_simps broker_tx_def)
  with d f show ?thesis by blast
qed

text \<open>A step that is refused leaves the stage; one that is not marks exactly what it grants.\<close>

definition good_step :: "(string \<Rightarrow> store \<Rightarrow> bool \<times> store) \<Rightarrow> int list \<Rightarrow> bool" where
  "good_step f gr \<longleftrightarrow> (\<forall>d t refused v k m. f d t = (refused, v) \<longrightarrow> staged t k m \<longrightarrow>
     (if refused then same_stage t v else \<exists>k' m'. staged v k' m' \<and> m \<le> m' \<and> map int [m..<m'] = gr \<and>
        map_option at_digest (st_attempt v) = map_option at_digest (st_attempt t)))"

lemma broker_step_moves:
  assumes g: "good_step f gr" and b: "broker_step fault x f code \<lparr>br_store = t, br_owner = o1\<rparr> = (r, b')"
  shows "moves t o1 r gr (br_store b') (br_owner b')"
  unfolding moves_def
proof (intro allI impI)
  fix k m assume st: "staged t k m" and own: "owner_of t o1"
  from broker_step_cases [OF b] consider
      (stay) "b' = \<lparr>br_store = t, br_owner = o1\<rparr>" "r \<noteq> Inr ()"
    | (fails) "br_store b' = t" "br_owner b' = None" "r \<noteq> Inr ()" "o1 \<noteq> None"
    | (ack) d refused v where "f d t = (refused, v)" "br_store b' = v" "br_owner b' = o1" "r = Inr () \<longleftrightarrow> \<not> refused" "o1 \<noteq> None"
    | (lost) d refused v where "f d t = (refused, v)" "br_store b' = v" "br_owner b' = None" "r \<noteq> Inr ()" "o1 \<noteq> None"
    by fastforce
  then show "\<exists>k' m'. staged (br_store b') k' m' \<and> m \<le> m' \<and>
       (br_owner b' = o1 \<and> map_option at_digest (st_attempt (br_store b')) = map_option at_digest (st_attempt t) \<and>
          (r = Inr () \<longrightarrow> map int [m..<m'] = gr) \<and> (r \<noteq> Inr () \<longrightarrow> m' = m) \<and> (o1 = None \<longrightarrow> m' = m) \<or>
        br_owner b' = None \<and> (o1 = None \<longrightarrow> m' = m) \<and> (r = Inr () \<longrightarrow> gr = [] \<and> m' = m) \<and>
          (map_option at_digest (st_attempt (br_store b')) = map_option at_digest (st_attempt t) \<or> st_attempt t = None) \<or>
        st_attempt t = None \<and> r = Inr () \<and> gr = [] \<and> m = 0 \<and> m' = 0 \<and>
          br_owner b' = map_option at_digest (st_attempt (br_store b')))"
  proof cases
    case stay
    with st show ?thesis by auto
  next
    case fails
    with st show ?thesis by auto
  next
    case (ack d refused v)
    show ?thesis
    proof (cases refused)
      case True
      with g ack(1) st have "same_stage t v" unfolding good_step_def by (metis (full_types))
      with ack True st show ?thesis by (auto simp: same_stage_def)
    next
      case False
      with g ack(1) st obtain k' m' where v: "staged v k' m'" "m \<le> m'" "map int [m..<m'] = gr"
        "map_option at_digest (st_attempt v) = map_option at_digest (st_attempt t)"
        unfolding good_step_def by (metis (full_types))
      with ack False show ?thesis by (intro exI [of _ k'] exI [of _ m']) auto
    qed
  next
    case (lost d refused v)
    have "\<exists>k' m'. staged v k' m' \<and> m \<le> m' \<and> map_option at_digest (st_attempt v) = map_option at_digest (st_attempt t)"
    proof (cases refused)
      case True
      with g lost(1) st have "same_stage t v" unfolding good_step_def by (metis (full_types))
      with st show ?thesis by (auto simp: same_stage_def)
    next
      case False
      with g lost(1) st show ?thesis unfolding good_step_def by (metis (full_types))
    qed
    with lost show ?thesis by auto
  qed
qed

lemma good_stepI:
  assumes "\<And>d t v k m. f d t = (True, v) \<Longrightarrow> staged t k m \<Longrightarrow> same_stage t v"
    and "\<And>d t v k m. f d t = (False, v) \<Longrightarrow> staged t k m \<Longrightarrow> \<exists>k' m'. staged v k' m' \<and> m \<le> m' \<and>
      map int [m..<m'] = gr \<and> map_option at_digest (st_attempt v) = map_option at_digest (st_attempt t)"
  shows "good_step f gr"
  unfolding good_step_def using assms by (metis (full_types))

lemma good_begin_leaf: "good_step (\<lambda>d. begin_leaf x d n i q) [n]"
proof (rule good_stepI)
  fix d t v k m assume st: "staged t k m"
  show "same_stage t v" if "begin_leaf x d n i q t = (True, v)"
    using begin_leaf_stage [OF st that] by simp
  show "\<exists>k' m'. staged v k' m' \<and> m \<le> m' \<and> map int [m..<m'] = [n] \<and>
      map_option at_digest (st_attempt v) = map_option at_digest (st_attempt t)"
    if "begin_leaf x d n i q t = (False, v)"
    by (rule exI [of _ k], rule exI [of _ "Suc m"]) (use begin_leaf_stage [OF st that] in auto)
qed

lemma good_finish_leaf: "good_step (\<lambda>d. finish_leaf x d n i q a e) []"
proof (rule good_stepI)
  fix d t v k m assume st: "staged t k m"
  show "same_stage t v" if "finish_leaf x d n i q a e t = (True, v)"
    using finish_leaf_stage [OF st that] by simp
  show "\<exists>k' m'. staged v k' m' \<and> m \<le> m' \<and> map int [m..<m'] = [] \<and>
      map_option at_digest (st_attempt v) = map_option at_digest (st_attempt t)"
    if "finish_leaf x d n i q a e t = (False, v)"
    by (rule exI [of _ m], rule exI [of _ m]) (use finish_leaf_stage [OF st that] in auto)
qed

lemma upt_upto: "map int [a..<Suc b] = [int a..int b]"
  by (rule nth_equalityI) (simp_all add: nth_upto del: upt_Suc)

lemma good_begin_tree: "good_step (\<lambda>d. begin_tree x d f th i q) [f..th]"
proof (rule good_stepI)
  fix d t v k m assume st: "staged t k m"
  show "same_stage t v" if "begin_tree x d f th i q t = (True, v)"
    using begin_tree_stage [OF st that] by simp
  show "\<exists>k' m'. staged v k' m' \<and> m \<le> m' \<and> map int [m..<m'] = [f..th] \<and>
      map_option at_digest (st_attempt v) = map_option at_digest (st_attempt t)"
    if "begin_tree x d f th i q t = (False, v)"
  proof (rule exI [of _ k], rule exI [of _ "Suc (nat th)"])
    have b: "f = int m" "f \<le> th" "staged v k (Suc (nat th))"
      "map_option at_digest (st_attempt v) = map_option at_digest (st_attempt t)"
      using begin_tree_stage [OF st that] by simp_all
    then have "int (nat th) = th" "m \<le> Suc (nat th)" by simp_all
    with b upt_upto [of m "nat th"] show "staged v k (Suc (nat th)) \<and> m \<le> Suc (nat th) \<and>
      map int [m..<Suc (nat th)] = [f..th] \<and> map_option at_digest (st_attempt v) = map_option at_digest (st_attempt t)"
      by (simp del: upt_Suc)
  qed
qed

lemma good_finish_tree: "good_step (\<lambda>d. finish_tree x d f th rs) []"
proof (rule good_stepI)
  fix d t v k m assume st: "staged t k m"
  show "same_stage t v" if "finish_tree x d f th rs t = (True, v)"
    using finish_tree_stage [OF st that] by simp
  show "\<exists>k' m'. staged v k' m' \<and> m \<le> m' \<and> map int [m..<m'] = [] \<and>
      map_option at_digest (st_attempt v) = map_option at_digest (st_attempt t)"
    if "finish_tree x d f th rs t = (False, v)"
    by (rule exI [of _ m], rule exI [of _ m]) (use finish_tree_stage [OF st that] in auto)
qed

lemma mark_unknown_moves:
  assumes "mark_unknown fault x why \<lparr>br_store = t, br_owner = o1\<rparr> = (r, b')"
  shows "moves t o1 r [] (br_store b') (br_owner b')"
proof -
  let ?f = "\<lambda>d t. (False, spend_attempt d ''caller_reported_unknown'' t)"
  have good: "good_step ?f []"
  proof (rule good_stepI)
    fix d t v k m assume st: "staged t k m" and "?f d t = (False, v)"
    then have "same_stage t v" using same_stage_spend by auto
    with st show "\<exists>k' m'. staged v k' m' \<and> m \<le> m' \<and> map int [m..<m'] = [] \<and>
      map_option at_digest (st_attempt v) = map_option at_digest (st_attempt t)"
      by (auto simp: same_stage_def)
  qed simp
  show ?thesis
  proof (cases "plain_text 128 why")
    case True
    then have "broker_step fault x ?f [] \<lparr>br_store = t, br_owner = o1\<rparr> = (r, b')"
      using assms by (cases fault) (auto simp: mark_unknown_def broker_step_def act_simps broker_tx_def require_def
          split: sum.splits prod.splits if_splits)
    then show ?thesis by (rule broker_step_moves [OF good])
  next
    case False
    with assms have "b' = \<lparr>br_store = t, br_owner = o1\<rparr>" "r \<noteq> Inr ()"
      by (auto simp: mark_unknown_def act_simps require_def)
    then show ?thesis using moves_stay(1) by simp
  qed
qed

text \<open>The leaves of a valid lease are numbered from zero.\<close>

lemma scan_leaves_ordinals:
  "scan_leaves adm n ids acts tree ls = Inr c \<Longrightarrow> map lf_ordinal ls = map (\<lambda>j. n + int j) [0..<length ls]"
proof (induction ls arbitrary: n ids acts tree)
  case (Cons l ls)
  then have l: "lf_ordinal l = n" by (auto simp: leaf_binding_def)
  obtain ids' acts' tree' where "scan_leaves adm (n + 1) ids' acts' tree' ls = Inr c"
    using Cons.prems by (auto simp: bind_res_Inr split: if_splits)
  then have "map lf_ordinal ls = map (\<lambda>j. n + 1 + int j) [0..<length ls]" by (rule Cons.IH)
  moreover have "map (\<lambda>j. n + int j) [0..<Suc (length ls)] = n # map (\<lambda>j. n + 1 + int j) [0..<length ls]"
    by (simp add: upt_rec [of 0] map_Suc_upt [symmetric] comp_def del: upt_Suc)
  ultimately show ?case using l by simp
qed simp

lemma scan_lease_ordinals: "scan_lease adm x = Inr c \<Longrightarrow> map lf_ordinal (nl_leaves x) = map int [0..<length (nl_leaves x)]"
  by (auto simp: scan_lease_def bind_res_Inr dest: scan_leaves_ordinals)

lemma insert_tree_staged:
  assumes "scan_lease adm x = Inr c" and "st_leaves t = []" and "insert_tree x d tree t = Inr (y, u)"
  shows "staged u 0 0" and "map_option at_digest (st_attempt u) = Some d" and "st_attempt t = None"
proof -
  have u: "u = \<lparr>st_attempt = Some \<lparr>at_digest = d, at_lease = dumps (lease_json x), at_reserved = tree,
         at_status = ''reserved'', at_next = 0, at_reason = []\<rparr>, st_leaves = map new_row (nl_leaves x)\<rparr>"
    and n: "st_attempt t = None"
    using assms(2,3) by (auto simp: insert_tree_def bind_res_Inr)
  have "lr_ordinal (map new_row (nl_leaves x) ! j) = int j" if "j < length (nl_leaves x)" for j
    using arg_cong [OF scan_lease_ordinals [OF assms(1)], of "\<lambda>xs. xs ! j"] that by (simp add: new_row_def)
  then have "layout u 0 0"
    by (intro layoutI) (auto simp: u mark_def new_row_def)
  then show "staged u 0 0" by (simp add: staged_def stage_ok_def u)
  show "map_option at_digest (st_attempt u) = Some d" "st_attempt t = None" using n by (simp_all add: u)
qed

lemma reserve_moves:
  assumes "reserve_tree fault x \<lparr>br_store = t, br_owner = o1\<rparr> = (r, b')"
  shows "moves t o1 r [] (br_store b') (br_owner b')"
proof (cases "\<exists>c d. validate_lease x = Inr c \<and> lease_digest x = Inr d")
  case False
  then have "r \<noteq> Inr () \<and> b' = \<lparr>br_store = t, br_owner = o1\<rparr>"
    using assms by (cases "validate_lease x"; cases "lease_digest x") (auto simp: reserve_tree_def act_simps)
  then show ?thesis using moves_stay(1) by auto
next
  case True
  then obtain c d where v: "validate_lease x = Inr c" and d: "lease_digest x = Inr d" by blast
  then have scan: "\<exists>c. scan_lease True x = Inr c" by (auto simp: validate_lease_def bind_res_Inr)
  show ?thesis
    unfolding moves_def
  proof (intro allI impI)
    fix k m assume st: "staged t k m" and own: "owner_of t o1"
    show "\<exists>k' m'. staged (br_store b') k' m' \<and> m \<le> m' \<and>
       (br_owner b' = o1 \<and> map_option at_digest (st_attempt (br_store b')) = map_option at_digest (st_attempt t) \<and>
          (r = Inr () \<longrightarrow> map int [m..<m'] = []) \<and> (r \<noteq> Inr () \<longrightarrow> m' = m) \<and> (o1 = None \<longrightarrow> m' = m) \<or>
        br_owner b' = None \<and> (o1 = None \<longrightarrow> m' = m) \<and> (r = Inr () \<longrightarrow> [] = [] \<and> m' = m) \<and>
          (map_option at_digest (st_attempt (br_store b')) = map_option at_digest (st_attempt t) \<or> st_attempt t = None) \<or>
        st_attempt t = None \<and> r = Inr () \<and> [] = [] \<and> m = 0 \<and> m' = 0 \<and>
          br_owner b' = map_option at_digest (st_attempt (br_store b')))"
    proof (cases "insert_tree x d c t")
      case (Inl e)
      then have "r \<noteq> Inr () \<and> br_store b' = t \<and> br_owner b' = None"
        using assms v d by (cases fault) (auto simp: reserve_tree_def act_simps broker_tx_def)
      with st show ?thesis by auto
    next
      case (Inr yu)
      then obtain u where u: "insert_tree x d c t = Inr ((), u)" by (cases yu) auto
      have none: "st_attempt t = None" using u by (auto simp: insert_tree_def)
      then have leaves: "st_leaves t = []" using st by (simp add: staged_def)
      then have m: "m = 0" "k = 0" using st by (simp_all add: staged_def layout_def)
      obtain c' where "scan_lease True x = Inr c'" using scan by blast
      note ins = insert_tree_staged [OF this leaves u]
      have "br_store b' = t \<and> br_owner b' = None \<and> r \<noteq> Inr () \<or> br_store b' = u \<and> br_owner b' = None \<and> r \<noteq> Inr () \<or>
          br_store b' = u \<and> br_owner b' = Some d \<and> r = Inr ()"
        using assms v d u by (cases fault) (auto simp: reserve_tree_def act_simps broker_tx_def)
      with ins m st none show ?thesis by (auto intro!: exI [of _ 0])
    qed
  qed
qed

lemma release_moves: "moves t o1 (Inr ()) [] t None"
  unfolding moves_def by fastforce

lemma reserve_grants: "granted (Reserve x) = []"
  by simp

text \<open>A call other than a reservation is refused while nothing is reserved.\<close>

lemma call_moves:
  assumes "bcall_act fault c \<lparr>br_store = t, br_owner = o1\<rparr> = (r, b')"
  shows "moves t o1 r (granted c) (br_store b') (br_owner b')"
proof (cases c)
  case (Reserve x)
  with assms reserve_moves show ?thesis by (simp add: bcall_act_def)
next
  case (Begin x n i q)
  with assms broker_step_moves [OF good_begin_leaf] show ?thesis by (simp add: bcall_act_def begin_act_def)
next
  case (Finish x n i q a e)
  with assms broker_step_moves [OF good_finish_leaf] show ?thesis by (simp add: bcall_act_def finish_act_def)
next
  case (BeginSubtree x f th i q)
  with assms broker_step_moves [OF good_begin_tree] show ?thesis by (simp add: bcall_act_def begin_subtree_def)
next
  case (FinishSubtree x f th rs)
  with assms broker_step_moves [OF good_finish_tree] show ?thesis by (simp add: bcall_act_def finish_subtree_def)
next
  case (MarkUnknown x why)
  with assms mark_unknown_moves show ?thesis by (simp add: bcall_act_def)
next
  case Release
  with assms have "r = Inr ()" "br_store b' = t" "br_owner b' = None"
    by (auto simp: bcall_act_def act_simps close_broker_def)
  with Release release_moves show ?thesis by simp
qed

lemma unowned_refused:
  assumes "bcall_act fault c \<lparr>br_store = t, br_owner = None\<rparr> = (r, b')"
  shows "r \<noteq> Inr () \<or> granted c = []"
proof (cases c)
  case (Begin x n i q)
  then have "r \<noteq> Inr ()"
    using assms broker_step_cases [of fault x _ _ _ r b'] by (fastforce simp: bcall_act_def begin_act_def)
  then show ?thesis ..
next
  case (BeginSubtree x f th i q)
  then have "r \<noteq> Inr ()"
    using assms broker_step_cases [of fault x _ _ _ r b'] by (fastforce simp: bcall_act_def begin_subtree_def)
  then show ?thesis ..
qed simp_all

lemma world_step_ok:
  assumes "world_ok w"
  shows "world_ok (world_step x w)"
proof -
  obtain i fault c where x: "x = (i, fault, c)" by (cases x) auto
  obtain t owners gs where w: "w = (t, owners, gs)" by (cases w) auto
  obtain r b where call: "bcall_act fault c \<lparr>br_store = t, br_owner = owners i\<rparr> = (r, b)" by force
  have "st_attempt t = None \<Longrightarrow> owners i = None"
    using assms by (auto simp: w world_ok_def owner_of_def)
  then have "st_attempt t = None \<Longrightarrow> r \<noteq> Inr () \<or> granted c = []"
    using unowned_refused call by simp
  from world_ok_step [OF assms [unfolded w] call_moves [OF call] this]
  show ?thesis by (simp add: x w world_step_def call)
qed

lemma world_run_ok: "world_ok (world_run xs)"
proof -
  have "world_ok w \<Longrightarrow> world_ok (fold world_step xs w)" for w
    by (induction xs arbitrary: w) (simp_all add: world_step_ok)
  then show ?thesis using world_ok_start by (simp add: world_run_def)
qed

end
