(* ===== verification/Native_Accounts.thy ===== *)
theory Native_Accounts
  imports Native_History
begin

text \<open>
  The accounts of a native broker that serves one lease: every known leaf retains a receipt
  within its declared cost that pays for its own durable row, and together the receipts stay
  within the reserved tree and the run limit. And the fence: once the attempt is unknown or
  its owner is gone, nothing is granted any more.
\<close>

section \<open>Calls for one lease\<close>

fun lease_of_call :: "bcall \<Rightarrow> native_lease option" where
  "lease_of_call (Reserve x) = Some x"
| "lease_of_call (Begin x n i q) = Some x"
| "lease_of_call (Finish x n i q a e) = Some x"
| "lease_of_call (BeginSubtree x f th i q) = Some x"
| "lease_of_call (FinishSubtree x f th rs) = Some x"
| "lease_of_call (MarkUnknown x why) = Some x"
| "lease_of_call Release = None"

definition only_lease :: "native_lease \<Rightarrow> bcall \<Rightarrow> bool" where
  "only_lease x c \<longleftrightarrow> lease_of_call c \<in> {None, Some x}"

definition row_ok :: "native_lease \<Rightarrow> leaf_row \<Rightarrow> bool" where
  "row_ok x r \<longleftrightarrow> (case (lr_actual r, lr_evidence r) of
     (None, None) \<Rightarrow> lr_digest r = None \<and> lr_status r \<noteq> ''known''
   | (Some c, Some e) \<Rightarrow> lr_status r = ''known'' \<and> lr_digest r = Some (sha256_hex e) \<and> leaf_cost (Some c) = Inr c \<and>
       receipt_fits x (lr_ordinal r) c e = Inr True
   | _ \<Rightarrow> False)"

definition row_intent :: "leaf_row \<Rightarrow> int \<times> string \<times> string" where
  "row_intent r = (lr_ordinal r, lr_identity r, lr_intent r)"

definition books :: "native_lease \<Rightarrow> store \<Rightarrow> bool" where
  "books x t \<longleftrightarrow> (case st_attempt t of
     None \<Rightarrow> st_leaves t = []
   | Some a \<Rightarrow> validate_lease x = Inr (at_reserved a) \<and>
       map row_intent (st_leaves t) = map (\<lambda>l. row_intent (new_row l)) (nl_leaves x) \<and>
       (\<forall>r\<in>set (st_leaves t). row_ok x r))"

lemma books_attempt: "(\<And>a. at_reserved (f a) = at_reserved a) \<Longrightarrow> books x (set_attempt f t) = books x t"
  by (simp add: books_def set_attempt_def split: option.split)

lemma books_spend [simp]: "books x (spend_attempt d why t) = books x t"
  unfolding spend_attempt_def by (rule books_attempt) simp

lemma books_update:
  assumes "books x t" and "update_rows P f t = (c, u)"
    and f: "\<And>r. row_intent (f r) = row_intent r" "\<And>r. row_ok x r \<Longrightarrow> P r \<Longrightarrow> row_ok x (f r)"
  shows "books x u"
proof (cases "st_attempt t")
  case None
  with assms(1,2) show ?thesis by (auto simp: books_def update_rows_def)
next
  case (Some a)
  have u: "st_attempt u = Some a" "st_leaves u = map (\<lambda>r. if P r then f r else r) (st_leaves t)"
    using assms(2) Some by (auto simp: update_rows_def)
  have "map row_intent (st_leaves u) = map row_intent (st_leaves t)" by (simp add: u f(1))
  moreover have "\<forall>r\<in>set (st_leaves u). row_ok x r" using assms(1) Some f(2) by (auto simp: u books_def)
  ultimately show ?thesis using assms(1) Some by (simp add: books_def u(1))
qed

lemma dispatching_row: "row_ok x r \<Longrightarrow> lr_status r = ''reserved'' \<Longrightarrow> row_ok x (r\<lparr>lr_status := ''dispatching''\<rparr>)"
  by (auto simp: row_ok_def receipt_fits_def split: option.splits)

lemma settled_row:
  assumes "receipt_valid x n i q a e" and "lr_ordinal r = n"
  shows "row_ok x (settle_row a e r)"
  using assms by (simp add: row_ok_def settle_row_def receipt_valid_def)

lemma books_begin_leaf: "books x t \<Longrightarrow> begin_leaf x d n i q t = (refused, u) \<Longrightarrow> books x u"
proof -
  assume t: "books x t" and b: "begin_leaf x d n i q t = (refused, u)"
  obtain c v where c: "update_rows (\<lambda>r. lr_ordinal r = n \<and> lr_identity r = i \<and> lr_status r = ''reserved'')
      (\<lambda>r. r\<lparr>lr_status := ''dispatching''\<rparr>) t = (c, v)" by force
  have "books x v" by (rule books_update [OF t c]) (auto simp: row_intent_def intro: dispatching_row)
  with t b c show ?thesis by (auto simp: begin_leaf_def books_attempt split: if_splits)
qed

lemma books_settle:
  assumes "books x t" and "receipt_valid x n i q a e" and "settle_leaf n i a e t = (c, u)"
  shows "books x u"
  by (rule books_update [OF assms(1) assms(3) [unfolded settle_leaf_def]])
     (use settled_row [OF assms(2)] in \<open>auto simp: row_intent_def settle_row_def\<close>)

lemma books_after [simp]: "books x (after_leaf y n t) = books x t"
  unfolding after_leaf_def by (rule books_attempt) simp

lemma books_finish_leaf: "books x t \<Longrightarrow> finish_leaf x d n i q a e t = (refused, u) \<Longrightarrow> books x u"
  using books_settle by (fastforce simp: finish_leaf_def split: if_splits prod.splits)

lemma books_begin_tree: "books x t \<Longrightarrow> begin_tree x d f th i q t = (refused, u) \<Longrightarrow> books x u"
proof -
  assume t: "books x t" and b: "begin_tree x d f th i q t = (refused, u)"
  obtain c v where c: "update_rows (\<lambda>r. f \<le> lr_ordinal r \<and> lr_ordinal r \<le> th \<and> lr_status r = ''reserved'')
      (\<lambda>r. r\<lparr>lr_status := ''dispatching''\<rparr>) t = (c, v)" by force
  have "books x v" by (rule books_update [OF t c]) (auto simp: row_intent_def intro: dispatching_row)
  with t b c show ?thesis by (auto simp: begin_tree_def books_attempt split: if_splits)
qed

lemma books_settle_all:
  "books x t \<Longrightarrow> receipts_valid x n rs \<Longrightarrow> settle_all rs t = Some u \<Longrightarrow> books x u"
proof (induction rs arbitrary: n t)
  case (Cons r rs)
  obtain v where v: "settle_leaf (rc_ordinal r) (rc_identity r) (rc_actual r) (rc_evidence r) t = (1, v)"
    and rest: "settle_all rs v = Some u"
    using Cons.prems(3) by (auto split: prod.splits if_splits)
  have "books x v" using books_settle [OF Cons.prems(1) _ v] Cons.prems(2) by auto
  then show ?case using Cons.IH [OF _ _ rest] Cons.prems(2) by auto
qed simp

lemma books_finish_tree: "books x t \<Longrightarrow> finish_tree x d f th rs t = (refused, u) \<Longrightarrow> books x u"
  using books_settle_all by (fastforce simp: finish_tree_def split: if_splits option.splits)

lemma books_step:
  assumes "books x t" and b: "broker_step fault y f code \<lparr>br_store = t, br_owner = o1\<rparr> = (r, b')"
    and f: "\<And>d refused v. f d t = (refused, v) \<Longrightarrow> books x v"
  shows "books x (br_store b')"
  using broker_step_cases [OF b] assms(1) f by auto

lemma row_ok_new: "row_ok x (new_row l)"
  by (simp add: row_ok_def new_row_def)

lemma books_reserve:
  assumes "books x t" and "reserve_tree fault x \<lparr>br_store = t, br_owner = o1\<rparr> = (r, b')"
  shows "books x (br_store b')"
proof (cases "\<exists>c d u. validate_lease x = Inr c \<and> lease_digest x = Inr d \<and> insert_tree x d c t = Inr ((), u)")
  case True
  then obtain c d u where v: "validate_lease x = Inr c" "lease_digest x = Inr d" and u: "insert_tree x d c t = Inr ((), u)"
    by blast
  have "st_leaves t = []" using u assms(1) by (auto simp: insert_tree_def books_def)
  then have "books x u"
    using u v row_ok_new by (auto simp: insert_tree_def books_def comp_def)
  then show ?thesis
    using assms v u by (cases fault) (auto simp: reserve_tree_def act_simps broker_tx_def)
next
  case False
  then have "br_store b' = t"
    using assms(2) by (cases fault) (auto simp: reserve_tree_def act_simps broker_tx_def split: sum.splits prod.splits)
  with assms(1) show ?thesis by simp
qed

lemma books_call:
  assumes "books x t" and "only_lease x c" and "bcall_act fault c \<lparr>br_store = t, br_owner = o1\<rparr> = (r, b')"
  shows "books x (br_store b')"
proof (cases c)
  case (MarkUnknown y why)
  then have "br_store b' = t \<or> (\<exists>d. br_store b' = spend_attempt d ''caller_reported_unknown'' t)"
    using assms(3) by (cases fault) (auto simp: bcall_act_def mark_unknown_def owned_def act_simps broker_tx_def
        split: sum.splits if_splits)
  with assms(1) show ?thesis by auto
next
  case Release
  with assms show ?thesis by (auto simp: bcall_act_def act_simps close_broker_def)
qed (use assms in \<open>auto simp: bcall_act_def only_lease_def begin_act_def finish_act_def begin_subtree_def finish_subtree_def
      intro: books_reserve books_step books_begin_leaf books_finish_leaf books_begin_tree books_finish_tree\<close>)


section \<open>The sum of the receipts\<close>

definition row_cost :: "leaf_row \<Rightarrow> cost" where
  "row_cost r = (case lr_actual r of None \<Rightarrow> Cost | Some c \<Rightarrow> c)"

definition known_cost :: "store \<Rightarrow> cost" where
  "known_cost t = foldl plus_cost Cost (map row_cost (st_leaves t))"

definition declared_cost :: "leaf_intent \<Rightarrow> cost" where
  "declared_cost l = (case lf_cost l of None \<Rightarrow> Cost | Some c \<Rightarrow> c)"

lemma cost_le_refl [simp]: "cost_le c c"
  by (simp add: cost_le_def list_all2_refl)

lemma cost_le_plus_mono: "cost_le a b \<Longrightarrow> cost_le c d \<Longrightarrow> cost_le (plus_cost a c) (plus_cost b d)"
  by (simp add: cost_le_def cost_fields_def plus_cost_def)

lemma cost_le_foldl:
  "list_all2 cost_le xs ys \<Longrightarrow> cost_le a b \<Longrightarrow> cost_le (foldl plus_cost a xs) (foldl plus_cost b ys)"
  by (induction arbitrary: a b rule: list_all2_induct) (simp_all add: cost_le_plus_mono)

lemma leaf_cost_Inr: "leaf_cost y = Inr c \<Longrightarrow> y = Some c \<and> nonneg c \<and> cost_le c RUN_LIMIT"
  by (auto simp: leaf_cost_def bind_res_Inr within_Inr validate_cost_def nonneg_def split: option.splits)

lemma scan_leaves_cost:
  "scan_leaves True n ids acts tree ls = Inr c \<Longrightarrow>
     c = foldl plus_cost tree (map declared_cost ls) \<and> (\<forall>l\<in>set ls. leaf_cost (lf_cost l) = Inr (declared_cost l))"
proof (induction ls arbitrary: n ids acts tree)
  case (Cons l ls)
  then obtain cl acts' where l: "leaf_cost (lf_cost l) = Inr cl"
    and rest: "scan_leaves True (n + 1) (lf_identity l # ids) acts' (plus_cost tree cl) ls = Inr c"
    by (auto simp: bind_res_Inr split: if_splits)
  have "declared_cost l = cl" using leaf_cost_Inr [OF l] by (simp add: declared_cost_def)
  with Cons.IH [OF rest] l show ?case by simp
qed simp

lemma validate_lease_cost:
  assumes "validate_lease x = Inr c"
  shows "c = foldl plus_cost Cost (map declared_cost (nl_leaves x))" and "cost_le c RUN_LIMIT"
    and "\<And>l. l \<in> set (nl_leaves x) \<Longrightarrow> leaf_cost (lf_cost l) = Inr (declared_cost l)"
proof -
  from assms have s: "scan_leaves True 0 [] [] Cost (nl_leaves x) = Inr c" and w: "cost_le c RUN_LIMIT"
    by (auto simp: validate_lease_def scan_lease_def bind_res_Inr within_Inr)
  from scan_leaves_cost [OF s] show "c = foldl plus_cost Cost (map declared_cost (nl_leaves x))"
    "\<And>l. l \<in> set (nl_leaves x) \<Longrightarrow> leaf_cost (lf_cost l) = Inr (declared_cost l)" by blast+
  from w show "cost_le c RUN_LIMIT" .
qed

lemma row_within_declared:
  assumes v: "validate_lease x = Inr c" and r: "row_ok x r" "lr_ordinal r = int j" and j: "j < length (nl_leaves x)"
  shows "cost_le (row_cost r) (declared_cost (nl_leaves x ! j))"
proof -
  have l: "leaf_cost (lf_cost (nl_leaves x ! j)) = Inr (declared_cost (nl_leaves x ! j))"
    using validate_lease_cost(3) [OF v] j by simp
  show ?thesis
  proof (cases "lr_actual r")
    case None
    have "nonneg (declared_cost (nl_leaves x ! j))" using leaf_cost_Inr [OF l] by simp
    then have "cost_le Cost (plus_cost Cost (declared_cost (nl_leaves x ! j)))" by (rule cost_le_plus)
    with None show ?thesis by (simp add: row_cost_def)
  next
    case (Some a)
    with r l show ?thesis
      by (auto simp: row_ok_def row_cost_def receipt_fits_def bind_res_Inr within_Inr split: option.splits if_splits)
  qed
qed

lemma books_cost:
  assumes b: "books x t" and a: "st_attempt t = Some a"
  shows "cost_le (known_cost t) (at_reserved a)" and "cost_le (at_reserved a) RUN_LIMIT"
proof -
  have v: "validate_lease x = Inr (at_reserved a)"
    and eq: "map row_intent (st_leaves t) = map (\<lambda>l. row_intent (new_row l)) (nl_leaves x)"
    and ok: "\<forall>r\<in>set (st_leaves t). row_ok x r"
    using b a by (simp_all add: books_def)
  have len: "length (st_leaves t) = length (nl_leaves x)" using arg_cong [OF eq, of length] by simp
  obtain c where "scan_lease True x = Inr c" using v by (auto simp: validate_lease_def bind_res_Inr)
  note ords = scan_lease_ordinals [OF this]
  have ord: "lr_ordinal (st_leaves t ! j) = int j" if "j < length (nl_leaves x)" for j
  proof -
    have "row_intent (st_leaves t ! j) = row_intent (new_row (nl_leaves x ! j))"
      using arg_cong [OF eq, of "\<lambda>xs. xs ! j"] that len by simp
    moreover have "lf_ordinal (nl_leaves x ! j) = int j"
      using arg_cong [OF ords, of "\<lambda>xs. xs ! j"] that by simp
    ultimately show ?thesis by (simp add: row_intent_def new_row_def)
  qed
  have "list_all2 cost_le (map row_cost (st_leaves t)) (map declared_cost (nl_leaves x))"
    using ok len ord row_within_declared [OF v] by (auto simp: list_all2_conv_all_nth)
  then show "cost_le (known_cost t) (at_reserved a)"
    using cost_le_foldl [of _ _ Cost Cost] validate_lease_cost(1) [OF v] by (simp add: known_cost_def)
  show "cost_le (at_reserved a) RUN_LIMIT" by (rule validate_lease_cost(2) [OF v])
qed

lemma books_run:
  assumes "list_all (\<lambda>(i, fault, c). only_lease x c) xs"
  shows "books x (fst (world_run xs))"
proof -
  have step: "books x (fst (world_step (i, fault, c) w))" if "books x (fst w)" "only_lease x c" for i fault c w
  proof -
    obtain t owners gs where w: "w = (t, owners, gs)" by (cases w) auto
    obtain r b where call: "bcall_act fault c \<lparr>br_store = t, br_owner = owners i\<rparr> = (r, b)" by force
    from books_call [OF _ that(2) call] that(1) show ?thesis by (simp add: w world_step_def call)
  qed
  have "books x (fst w) \<Longrightarrow> list_all (\<lambda>(i, fault, c). only_lease x c) xs \<Longrightarrow> books x (fst (fold world_step xs w))" for w
  proof (induction xs arbitrary: w)
    case (Cons y xs)
    obtain i fault c where y: "y = (i, fault, c)" by (cases y) auto
    have "books x (fst (world_step y w))" unfolding y by (rule step) (use Cons.prems y in auto)
    from Cons.IH [OF this] Cons.prems(2) show ?case by simp
  qed simp
  moreover have "books x new_store" by (simp add: books_def new_store_def)
  ultimately show ?thesis using assms by (simp add: world_run_def)
qed


section \<open>The fence\<close>

text \<open>Nobody owns the attempt any more, or it is unknown.\<close>

definition fenced :: "world \<Rightarrow> bool" where
  "fenced w \<longleftrightarrow> (case w of (t, owners, gs) \<Rightarrow> (case st_attempt t of None \<Rightarrow> False
     | Some a \<Rightarrow> at_status a = ''unknown'' \<or> (\<forall>i. owners i = None)))"

definition unknown :: "store \<Rightarrow> bool" where
  "unknown t \<longleftrightarrow> map_option at_status (st_attempt t) = Some ''unknown''"

lemma unknown_spend [simp]: "unknown t \<Longrightarrow> unknown (spend_attempt d why t)"
  by (cases "st_attempt t") (simp_all add: unknown_def spend_attempt_def set_attempt_def)

lemma unknown_steps:
  assumes "unknown t"
  shows "begin_leaf x d n i q t = (refused, u) \<Longrightarrow> refused \<and> unknown u"
    "finish_leaf x d n i q a e t = (refused, u) \<Longrightarrow> refused \<and> unknown u"
    "begin_tree x d f th i q t = (refused, u) \<Longrightarrow> refused \<and> unknown u"
    "finish_tree x d f th rs t = (refused, u) \<Longrightarrow> refused \<and> unknown u"
proof -
  have "attempt_state d t \<noteq> Some (s, n)" if "s \<noteq> ''unknown''" for s n
    using assms that by (auto simp: attempt_state_Some unknown_def)
  with assms show "begin_leaf x d n i q t = (refused, u) \<Longrightarrow> refused \<and> unknown u"
    "finish_leaf x d n i q a e t = (refused, u) \<Longrightarrow> refused \<and> unknown u"
    "begin_tree x d f th i q t = (refused, u) \<Longrightarrow> refused \<and> unknown u"
    "finish_tree x d f th rs t = (refused, u) \<Longrightarrow> refused \<and> unknown u"
    by (auto simp: begin_leaf_def finish_leaf_def begin_tree_def finish_tree_def)
qed

lemma unknown_broker_step:
  assumes "unknown t" and "broker_step fault x f code \<lparr>br_store = t, br_owner = o1\<rparr> = (r, b')"
    and "\<And>d refused v. f d t = (refused, v) \<Longrightarrow> refused \<and> unknown v"
  shows "r \<noteq> Inr () \<and> unknown (br_store b')"
  using broker_step_cases [OF assms(2)] assms(1,3) by auto

lemma unknown_call:
  assumes u: "unknown t" and "bcall_act fault c \<lparr>br_store = t, br_owner = o1\<rparr> = (r, b')"
  shows "(r = Inr () \<longrightarrow> granted c = []) \<and> unknown (br_store b')"
proof (cases c)
  case (Reserve x)
  have "st_attempt t \<noteq> None" using u by (auto simp: unknown_def)
  then have "insert_tree x d tree t = Inl (Refused ''native_attempt_spent_no_replay'')" for d tree
    by (simp add: insert_tree_def require_def)
  then have "br_store b' = t"
    using assms(2) Reserve by (cases fault) (auto simp: bcall_act_def reserve_tree_def act_simps broker_tx_def
        split: sum.splits)
  with Reserve u show ?thesis by simp
next
  case (MarkUnknown x why)
  then have "br_store b' = t \<or> (\<exists>d. br_store b' = spend_attempt d ''caller_reported_unknown'' t)"
    using assms(2) by (cases fault) (auto simp: bcall_act_def mark_unknown_def owned_def act_simps broker_tx_def
        split: sum.splits if_splits)
  with MarkUnknown u show ?thesis by auto
next
  case Release
  with assms show ?thesis by (auto simp: bcall_act_def act_simps close_broker_def)
next
  case (Begin x n i q)
  have "r \<noteq> Inr () \<and> unknown (br_store b')"
    by (rule unknown_broker_step [OF u, where f = "\<lambda>d. begin_leaf x d n i q"])
       (use assms(2) Begin in \<open>simp add: bcall_act_def begin_act_def\<close>, erule unknown_steps(1) [OF u])
  then show ?thesis by simp
next
  case (Finish x n i q a e)
  have "r \<noteq> Inr () \<and> unknown (br_store b')"
    by (rule unknown_broker_step [OF u, where f = "\<lambda>d. finish_leaf x d n i q a e"])
       (use assms(2) Finish in \<open>simp add: bcall_act_def finish_act_def\<close>, erule unknown_steps(2) [OF u])
  then show ?thesis by simp
next
  case (BeginSubtree x f th i q)
  have "r \<noteq> Inr () \<and> unknown (br_store b')"
    by (rule unknown_broker_step [OF u, where f = "\<lambda>d. begin_tree x d f th i q"])
       (use assms(2) BeginSubtree in \<open>simp add: bcall_act_def begin_subtree_def\<close>, erule unknown_steps(3) [OF u])
  then show ?thesis by simp
next
  case (FinishSubtree x f th rs)
  have "r \<noteq> Inr () \<and> unknown (br_store b')"
    by (rule unknown_broker_step [OF u, where f = "\<lambda>d. finish_tree x d f th rs"])
       (use assms(2) FinishSubtree in \<open>simp add: bcall_act_def finish_subtree_def\<close>, erule unknown_steps(4) [OF u])
  then show ?thesis by simp
qed

text \<open>Without an owner nothing but a fresh reservation moves the store.\<close>

lemma unowned_call:
  assumes a: "st_attempt t \<noteq> None" and "bcall_act fault c \<lparr>br_store = t, br_owner = None\<rparr> = (r, b')"
  shows "(r = Inr () \<longrightarrow> granted c = []) \<and> br_store b' = t \<and> br_owner b' = None"
proof (cases c)
  case (Reserve x)
  have "insert_tree x d tree t = Inl (Refused ''native_attempt_spent_no_replay'')" for d tree
    using a by (simp add: insert_tree_def require_def)
  then have "br_store b' = t \<and> br_owner b' = None"
    using assms(2) Reserve by (cases fault) (auto simp: bcall_act_def reserve_tree_def act_simps broker_tx_def
        split: sum.splits)
  with Reserve show ?thesis by simp
next
  case (MarkUnknown x why)
  with assms(2) show ?thesis
    by (auto simp: bcall_act_def mark_unknown_def owned_def act_simps split: sum.splits if_splits)
next
  case Release
  with assms show ?thesis by (auto simp: bcall_act_def act_simps close_broker_def)
qed (use assms(2) broker_step_cases in \<open>fastforce simp: bcall_act_def begin_act_def finish_act_def begin_subtree_def
      finish_subtree_def\<close>)+

lemma fenced_step:
  assumes "fenced w"
  shows "fenced (world_step x w) \<and> snd (snd (world_step x w)) = snd (snd w)"
proof -
  obtain i fault c where x: "x = (i, fault, c)" by (cases x) auto
  obtain t owners gs where w: "w = (t, owners, gs)" by (cases w) auto
  obtain r b where call: "bcall_act fault c \<lparr>br_store = t, br_owner = owners i\<rparr> = (r, b)" by force
  have step: "world_step x w = (br_store b, owners(i := br_owner b), case r of Inr _ \<Rightarrow> gs @ granted c | Inl _ \<Rightarrow> gs)"
    by (simp add: x w world_step_def call)
  obtain a where a: "st_attempt t = Some a" "at_status a = ''unknown'' \<or> (\<forall>i. owners i = None)"
    using assms by (auto simp: fenced_def w split: option.splits)
  show ?thesis
  proof (cases "at_status a = ''unknown''")
    case True
    then have "unknown t" by (simp add: unknown_def a)
    from unknown_call [OF this call] show ?thesis
      unfolding step unfolding w by (auto simp: fenced_def unknown_def split: sum.splits)
  next
    case False
    then have o: "\<forall>i. owners i = None" using a(2) by blast
    have "bcall_act fault c \<lparr>br_store = t, br_owner = None\<rparr> = (r, b)" using call o by simp
    from unowned_call [OF _ this] a(1) o show ?thesis
      unfolding step unfolding w by (auto simp: fenced_def split: sum.splits)
  qed
qed

lemma fenced_run: "fenced w \<Longrightarrow> snd (snd (fold world_step xs w)) = snd (snd w)"
  by (induction xs arbitrary: w) (simp_all add: fenced_step)

end
