(* ===== verification/Native_Progress.thy ===== *)
theory Native_Progress
  imports Native_Accounts
begin

text \<open>
  A valid lease can be run to its end: one instance that reserves the tree and answers every
  leaf with a receipt of its declared cost reaches the complete attempt.
\<close>

section \<open>The digest of a valid lease\<close>

lemma scan_leaves_shape:
  "scan_leaves True n ids acts tree ls = Inr c \<Longrightarrow> scan_leaves False n ids acts' tree' ls = Inr tree'"
proof (induction ls arbitrary: n ids acts tree acts')
  case (Cons l ls)
  then obtain cl acts2 where b: "leaf_binding n ids l" and l: "leaf_cost (lf_cost l) = Inr cl"
    and rest: "scan_leaves True (n + 1) (lf_identity l # ids) acts2 (plus_cost tree cl) ls = Inr c"
    by (auto simp: bind_res_Inr split: if_splits)
  have "lf_cost l = Some cl" "validate_cost cl = Inr ()"
    using leaf_cost_Inr [OF l] by (simp_all add: validate_cost_def nonneg_def require_def)
  with Cons.IH [OF rest] b show ?case by (simp add: require_def)
qed simp

lemma nonneg_RUN_LIMIT: "nonneg RUN_LIMIT"
  by (simp add: nonneg_def cost_fields_def RUN_LIMIT_def)

lemma lease_digest_total:
  assumes "validate_lease x = Inr c"
  shows "lease_digest x = Inr (sha256_hex (dumps (lease_json x)))"
proof -
  have sh: "lease_shape x" and s: "scan_leaves True 0 [] [] Cost (nl_leaves x) = Inr c"
    using assms by (auto simp: validate_lease_def scan_lease_def bind_res_Inr)
  have "cost_le Cost RUN_LIMIT" by (simp add: cost_le_def cost_fields_def Cost_def RUN_LIMIT_def)
  then have "within Cost RUN_LIMIT = Inr True" using nonneg_RUN_LIMIT by (simp add: within_Inr)
  with sh scan_leaves_shape [OF s] show ?thesis
    by (simp add: lease_digest_def scan_lease_def require_def)
qed


section \<open>Receipts of the declared cost\<close>

lemma check_envelopes_leaf:
  assumes "check_envelopes x tree ls = Inr u" and "l \<in> set ls" and "leaf_cost (lf_cost l) = Inr c"
  shows "\<exists>b. retained x (lf_ordinal l) c tree 0 = Inr b \<and> b \<le> artifact_bytes c"
  using assms by (induction ls) (auto simp: bind_res_Inr)

lemma declared_receipt:
  assumes v: "validate_lease x = Inr c" and j: "j < length (nl_leaves x)"
  defines "l \<equiv> nl_leaves x ! j"
  shows "receipt_valid x (int j) (lf_identity l) (lf_request_digest l) (declared_cost l) []"
proof -
  have mem: "l \<in> set (nl_leaves x)" using j by (simp add: l_def)
  have lc: "leaf_cost (lf_cost l) = Inr (declared_cost l)" using validate_lease_cost(3) [OF v mem] .
  then have some: "leaf_cost (Some (declared_cost l)) = Inr (declared_cost l)" using leaf_cost_Inr by metis
  have nn: "nonneg (declared_cost l)" using leaf_cost_Inr [OF lc] by simp
  have ord: "lf_ordinal l = int j"
    using v j arg_cong [OF scan_lease_ordinals, of True x _ "\<lambda>xs. xs ! j"]
    by (auto simp: validate_lease_def bind_res_Inr l_def)
  have "check_envelopes x c (nl_leaves x) = Inr ()" using v by (auto simp: validate_lease_def bind_res_Inr)
  from check_envelopes_leaf [OF this mem lc] ord
  obtain b where "retained x (int j) (declared_cost l) c 0 = Inr b" "b \<le> artifact_bytes (declared_cost l)" by auto
  moreover have "within (declared_cost l) (declared_cost l) = Inr True" using nn by (simp add: within_Inr)
  ultimately show ?thesis
    using lc some v j by (simp add: receipt_valid_def receipt_fits_def matches_def l_def [symmetric])
qed


section \<open>Driving the tree\<close>

definition drive :: "native_lease \<Rightarrow> leaf_intent list \<Rightarrow> bcall list" where
  "drive x ls = concat (map (\<lambda>l. [Begin x (lf_ordinal l) (lf_identity l) (lf_request_digest l),
     Finish x (lf_ordinal l) (lf_identity l) (lf_request_digest l) (declared_cost l) []]) ls)"

definition done_row :: "native_lease \<Rightarrow> nat \<Rightarrow> leaf_row" where
  "done_row x i = settle_row (declared_cost (nl_leaves x ! i)) [] (new_row (nl_leaves x ! i))"

definition halfway :: "native_lease \<Rightarrow> cost \<Rightarrow> string \<Rightarrow> nat \<Rightarrow> string \<Rightarrow> (nat \<Rightarrow> leaf_row) \<Rightarrow> store" where
  "halfway x c d j s g = \<lparr>st_attempt = Some \<lparr>at_digest = d, at_lease = dumps (lease_json x), at_reserved = c, at_status = s,
     at_next = int j, at_reason = []\<rparr>, st_leaves = map g [0..<length (nl_leaves x)]\<rparr>"

definition rows :: "native_lease \<Rightarrow> nat \<Rightarrow> nat \<Rightarrow> leaf_row" where
  "rows x j i = (if i < j then done_row x i else new_row (nl_leaves x ! i))"

definition resting :: "native_lease \<Rightarrow> nat \<Rightarrow> string" where
  "resting x j = (if j = length (nl_leaves x) then ''complete'' else ''reserved'')"

text \<open>Instance 0 is the only owner.\<close>

definition sole :: "string \<Rightarrow> nat \<Rightarrow> string option" where
  "sole d = (\<lambda>_. None)(0 := Some d)"

lemma sole_simps [simp]: "sole d 0 = Some d" "(sole d)(0 := Some d) = sole d" "(\<lambda>_. None)(0 := Some d) = sole d"
  by (simp_all add: sole_def)

lemma update_pointwise:
  assumes "st_leaves t = map g [0..<n]" and "j < n" and "\<And>i. i < n \<Longrightarrow> P (g i) \<longleftrightarrow> i = j"
  shows "update_rows P f t = (1, t\<lparr>st_leaves := map (\<lambda>i. if i = j then f (g i) else g i) [0..<n]\<rparr>)"
proof -
  have "{i. i < n \<and> P (map g [0..<n] ! i)} = {j}" using assms(2,3) by auto
  then have "length (filter P (st_leaves t)) = 1" using assms(1) by (simp add: length_filter_conv_card)
  moreover have "map (\<lambda>r. if P r then f r else r) (st_leaves t) = map (\<lambda>i. if i = j then f (g i) else g i) [0..<n]"
    using assms by simp
  ultimately show ?thesis by (simp add: update_rows_def)
qed

lemma row_ordinal:
  assumes "validate_lease x = Inr c" and "i < length (nl_leaves x)"
  shows "lf_ordinal (nl_leaves x ! i) = int i" and "lr_ordinal (rows x j i) = int i"
proof -
  show o: "lf_ordinal (nl_leaves x ! i) = int i"
    using assms arg_cong [OF scan_lease_ordinals, of True x _ "\<lambda>xs. xs ! i"]
    by (auto simp: validate_lease_def bind_res_Inr)
  show "lr_ordinal (rows x j i) = int i" by (simp add: rows_def done_row_def settle_row_def new_row_def o)
qed

lemma drive_leaf:
  assumes v: "validate_lease x = Inr c" and d: "lease_digest x = Inr d" and j: "j < length (nl_leaves x)"
  shows "fold world_step (map (\<lambda>b. (0, Commits, b)) (drive x [nl_leaves x ! j]))
      (halfway x c d j ''reserved'' (rows x j), sole d, first_leaves j) =
    (halfway x c d (Suc j) (resting x (Suc j)) (rows x (Suc j)), sole d, first_leaves (Suc j))"
proof -
  let ?l = "nl_leaves x ! j" and ?n = "length (nl_leaves x)"
  let ?i = "lf_identity ?l" and ?q = "lf_request_digest ?l"
  let ?h = "\<lambda>i. if i = j then (rows x j i)\<lparr>lr_status := ''dispatching''\<rparr> else rows x j i"
  note ord = row_ordinal [OF v]
  have m: "matches x (int j) ?i ?q" using j by (simp add: matches_def)
  have st: "attempt_state d (halfway x c d j s g) = Some (s, int j)" for s g
    by (simp add: attempt_state_def halfway_def)
  have u1: "update_rows (\<lambda>r. lr_ordinal r = int j \<and> lr_identity r = ?i \<and> lr_status r = ''reserved'')
      (\<lambda>r. r\<lparr>lr_status := ''dispatching''\<rparr>) (halfway x c d j ''reserved'' (rows x j)) = (1, halfway x c d j ''reserved'' ?h)"
    by (subst update_pointwise [where g = "rows x j" and n = ?n and j = j])
       (use j ord in \<open>auto simp: halfway_def rows_def new_row_def\<close>)
  have b1: "begin_leaf x d (int j) ?i ?q (halfway x c d j ''reserved'' (rows x j)) = (False, halfway x c d j ''dispatching'' ?h)"
    using m u1 by (simp add: begin_leaf_def st) (simp add: set_attempt_def halfway_def)
  have u2: "settle_leaf (int j) ?i (declared_cost ?l) [] (halfway x c d j ''dispatching'' ?h) =
      (1, halfway x c d j ''dispatching'' (rows x (Suc j)))"
    unfolding settle_leaf_def
    by (subst update_pointwise [where g = ?h and n = ?n and j = j])
       (use j ord in \<open>auto simp: halfway_def rows_def new_row_def done_row_def settle_row_def\<close>)
  have b2: "finish_leaf x d (int j) ?i ?q (declared_cost ?l) [] (halfway x c d j ''dispatching'' ?h) =
      (False, halfway x c d (Suc j) (resting x (Suc j)) (rows x (Suc j)))"
    using declared_receipt [OF v j] u2
    by (simp add: finish_leaf_def st) (auto simp: after_leaf_def set_attempt_def halfway_def resting_def)
  have own: "owned x \<lparr>br_store = t, br_owner = Some d\<rparr> = (Inr d, \<lparr>br_store = t, br_owner = Some d\<rparr>)" for t
    using d by (simp add: owned_def act_simps)
  have c1: "bcall_act Commits (Begin x (int j) ?i ?q) \<lparr>br_store = halfway x c d j ''reserved'' (rows x j), br_owner = Some d\<rparr> =
      (Inr (), \<lparr>br_store = halfway x c d j ''dispatching'' ?h, br_owner = Some d\<rparr>)"
    using b1 by (simp add: bcall_act_def begin_act_def broker_step_def bind_act_def own broker_tx_def require_act_def
        lift_res_def require_def return_act_def)
  have c2: "bcall_act Commits (Finish x (int j) ?i ?q (declared_cost ?l) [])
        \<lparr>br_store = halfway x c d j ''dispatching'' ?h, br_owner = Some d\<rparr> =
      (Inr (), \<lparr>br_store = halfway x c d (Suc j) (resting x (Suc j)) (rows x (Suc j)), br_owner = Some d\<rparr>)"
    using b2 by (simp add: bcall_act_def finish_act_def broker_step_def bind_act_def own broker_tx_def require_act_def
        lift_res_def require_def return_act_def)
  show ?thesis
    using c1 c2 ord(1) [OF j] by (simp add: drive_def world_step_def first_leaves_def)
qed

lemma drive_run:
  assumes v: "validate_lease x = Inr c" and d: "lease_digest x = Inr d" and "j \<le> length (nl_leaves x)"
  shows "fold world_step (map (\<lambda>b. (0, Commits, b)) (drive x (take j (nl_leaves x))))
      (halfway x c d 0 ''reserved'' (rows x 0), sole d, first_leaves 0) =
    (halfway x c d j (if j = 0 then ''reserved'' else resting x j) (rows x j), sole d, first_leaves j)"
  using assms(3)
proof (induction j)
  case 0
  show ?case by (simp add: drive_def)
next
  case (Suc j)
  have t: "take (Suc j) (nl_leaves x) = take j (nl_leaves x) @ [nl_leaves x ! j]"
    using Suc.prems by (simp add: take_Suc_conv_app_nth)
  have r: "(if j = 0 then ''reserved'' else resting x j) = ''reserved''" using Suc.prems by (simp add: resting_def)
  have "drive x (take (Suc j) (nl_leaves x)) = drive x (take j (nl_leaves x)) @ drive x [nl_leaves x ! j]"
    by (simp add: t drive_def)
  with Suc drive_leaf [OF v d, of j] r show ?case by simp
qed

lemma reserve_commits:
  assumes v: "validate_lease x = Inr c" and d: "lease_digest x = Inr d"
  shows "world_step (0, Commits, Reserve x) (new_store, \<lambda>_. None, []) =
    (halfway x c d 0 ''reserved'' (rows x 0), sole d, first_leaves 0)"
proof -
  have "map new_row (nl_leaves x) = map (rows x 0) [0..<length (nl_leaves x)]"
    by (rule nth_equalityI) (simp_all add: rows_def)
  then have "insert_tree x d c new_store = Inr ((), halfway x c d 0 ''reserved'' (rows x 0))"
    by (simp add: insert_tree_def new_store_def require_def halfway_def list_all_iff)
  then show ?thesis
    by (simp add: world_step_def bcall_act_def reserve_tree_def act_simps v d broker_tx_def first_leaves_def)
qed

lemma drive_complete:
  assumes v: "validate_lease x = Inr c" and d: "lease_digest x = Inr d"
  shows "world_run (map (\<lambda>b. (0, Commits, b)) (Reserve x # drive x (nl_leaves x))) =
    (halfway x c d (length (nl_leaves x)) ''complete'' (rows x (length (nl_leaves x))), sole d,
     first_leaves (length (nl_leaves x)))"
proof -
  have "nl_leaves x \<noteq> []"
    using v by (auto simp: validate_lease_def scan_lease_def bind_res_Inr lease_shape_def)
  then show ?thesis
    using reserve_commits [OF v d] drive_run [OF v d, of "length (nl_leaves x)"]
    by (simp add: world_run_def resting_def)
qed

end
