(* ===== verification/Native_Properties.thy ===== *)
theory Native_Properties
  imports Native_Progress Encoding_Sizes
begin

text \<open>
  The properties of the native leaf broker.
\<close>

section \<open>Example\<close>

definition ex_cost :: "int \<Rightarrow> cost" where
  "ex_cost bytes = Cost\<lparr>requests := 1, mutations := 1, effects := 1, outbound_bytes := 512, inbound_bytes := 512,
     artifact_bytes := bytes\<rparr>"

definition ex_leaf :: "int \<Rightarrow> string \<Rightarrow> int \<Rightarrow> leaf_intent" where
  "ex_leaf n i bytes = \<lparr>lf_ordinal = n, lf_identity = i, lf_source_path = ''probes/leaf.py'',
     lf_source_pin = replicate 64 (CHR ''a''), lf_method = ''PUT'', lf_resource = ''kv'',
     lf_request_digest = replicate 64 (CHR ''b''), lf_cost = Some (ex_cost bytes)\<rparr>"

definition ex_lease :: native_lease where
  "ex_lease = \<lparr>nl_key = ''k'', nl_context_digest = replicate 64 (CHR ''c''), nl_source_pin = replicate 64 (CHR ''d''),
     nl_profile = PROFILE, nl_object_profile = OBJECT_PROFILE,
     nl_leaves = [ex_leaf 0 ''put'' 80000, ex_leaf 1 ''check'' 19000]\<rparr>"

lemma ex_hex: "hex64 (replicate 64 (CHR ''a''))" "hex64 (replicate 64 (CHR ''b''))" "hex64 (replicate 64 (CHR ''c''))"
    "hex64 (replicate 64 (CHR ''d''))"
  by (simp_all add: hex64_def list_all_iff is_hex_def code_in_def)

lemma ex_texts: "plain_text 512 ''put''" "plain_text 512 ''check''" "plain_text 512 ''PUT''" "plain_text 2048 ''kv''" "plain_text 128 ''k''"
    "source_path_ok ''probes/leaf.py''"
  by code_simp+

lemma ex_leaf_cost: "0 \<le> n \<Longrightarrow> n \<le> 99999 \<Longrightarrow> leaf_cost (Some (ex_cost n)) = Inr (ex_cost n)"
  by (simp add: leaf_cost_def ex_cost_def Cost_def validate_cost_def within_def require_def cost_fields_def cost_le_def
      RUN_LIMIT_def categories_def)

lemma ex_scan: "scan_lease True ex_lease = Inr (plus_cost (ex_cost 80000) (ex_cost 19000))"
proof -
  have "lease_shape ex_lease" using ex_hex ex_texts by (simp add: lease_shape_def ex_lease_def)
  moreover have "scan_leaves True 0 [] [] Cost (nl_leaves ex_lease) = Inr (plus_cost (ex_cost 80000) (ex_cost 19000))"
    using ex_hex ex_texts ex_leaf_cost
    by (simp add: ex_lease_def leaf_binding_def ex_leaf_def require_def latch_actions_def)
       (simp add: ex_cost_def Cost_def)
  moreover have "within (plus_cost (ex_cost 80000) (ex_cost 19000)) RUN_LIMIT = Inr True"
    by (simp add: within_def validate_cost_def require_def cost_fields_def cost_le_def RUN_LIMIT_def ex_cost_def Cost_def
        plus_cost_def)
  ultimately show ?thesis by (simp add: scan_lease_def require_def)
qed

lemma ex_leaf_length:
  assumes "n \<in> {0, 1}" "i \<in> {''put'', ''check''}" "b \<in> {80000, 19000}"
  shows "length (leaf_text (ex_leaf n i b)) \<le> 2100"
proof -
  have pin: "length (dumps_string (replicate 64 c)) \<le> 386" for c using dumps_string_length [of "replicate 64 c"] by simp
  have cost: "length (dumps (cost_json (ex_cost b))) \<le> 360"
    by (rule cost_json_length) (use assms(3) in \<open>auto simp: cost_fields_def ex_cost_def Cost_def\<close>)
  have num: "length (py_str_int n) \<le> 5" using py_str_int_length assms(1) by auto
  have strs: "length (dumps_string i) \<le> 32" "length (dumps_string ''probes/leaf.py'') \<le> 86" "length (dumps_string ''PUT'') \<le> 20"
    "length (dumps_string ''kv'') \<le> 14"
    using dumps_string_length [of i] dumps_string_length [of "''probes/leaf.py''"] dumps_string_length [of "''PUT''"]
      dumps_string_length [of "''kv''"] assms(2) by auto
  have keys: "length (dumps_string k) \<le> 98" if "length k \<le> 16" for k using dumps_string_length [of k] that by simp
  have "length (leaf_text (ex_leaf n i b)) \<le> 2 + (8 * 100 + length (py_str_int n) + length (dumps_string i) +
     length (dumps_string ''probes/leaf.py'') + length (dumps_string (replicate 64 (CHR ''a''))) + length (dumps_string ''PUT'') +
     length (dumps_string ''kv'') + length (dumps_string (replicate 64 (CHR ''b''))) + length (dumps (cost_json (ex_cost b))))"
    unfolding leaf_text_def leaf_json_def
    by (rule order_trans [OF dumps_object_length])
       (use keys [of "''ordinal''"] keys [of "''identity''"] keys [of "''source_path''"] keys [of "''source_pin''"]
          keys [of "''method''"] keys [of "''resource''"] keys [of "''request_digest''"] keys [of "''cost''"]
        in \<open>simp add: ex_leaf_def\<close>)
  with pin [of "CHR ''a''"] pin [of "CHR ''b''"] cost num strs show ?thesis by linarith
qed

lemma number_length: "0 \<le> n \<Longrightarrow> n < 10 ^ 9 \<Longrightarrow> length (py_str_int n) \<le> 9"
  using nat_digits_length [of "nat n" 9] by (simp add: py_str_int_def)

lemma key_length: "length k \<le> 20 \<Longrightarrow> length (dumps_string k) \<le> 122"
  using dumps_string_length [of k] by simp

lemma ex_row_length:
  assumes "n \<in> {0, 1}" "i \<in> {''put'', ''check''}" "b \<in> {80000, 19000}"
  shows "length (dumps (leaf_row_json n (ex_leaf n i b) (ex_cost b))) \<le> 19000"
proof -
  have intent: "length (dumps_string (leaf_text (ex_leaf n i b))) \<le> 12602"
    using dumps_string_length [of "leaf_text (ex_leaf n i b)"] ex_leaf_length [OF assms] by simp
  have cost: "length (dumps (cost_json (ex_cost b))) \<le> 360"
    by (rule cost_json_length) (use assms(3) in \<open>auto simp: cost_fields_def ex_cost_def Cost_def\<close>)
  have actual: "length (dumps_string (dumps (cost_json (ex_cost b)))) \<le> 2162"
    using dumps_string_length [of "dumps (cost_json (ex_cost b))"] cost by simp
  have pin: "length (dumps_string (replicate 64 (CHR ''f''))) \<le> 386" using dumps_string_length [of "replicate 64 (CHR ''f'')"] by simp
  have num: "length (py_str_int n) \<le> 5" using py_str_int_length assms(1) by auto
  have strs: "length (dumps_string i) \<le> 122" "length (dumps_string ''dispatching'') \<le> 122"
    by (rule key_length, use assms(2) in auto)+
  have "length (dumps (JObj [(''maximum_byte_length'', JInt (artifact_bytes RUN_LIMIT))])) \<le> 2 + (122 + 9 + 2)"
    by (rule order_trans [OF dumps_object_length])
       (use key_length [of "''maximum_byte_length''"] number_length [of "artifact_bytes RUN_LIMIT"] in \<open>simp add: RUN_LIMIT_def\<close>)
  moreover have "length (dumps (leaf_row_json n (ex_leaf n i b) (ex_cost b))) \<le> 2 + (7 * 124 + length (py_str_int n) +
     length (dumps_string i) + length (dumps_string (leaf_text (ex_leaf n i b))) + length (dumps_string ''dispatching'') +
     length (dumps_string (dumps (cost_json (ex_cost b)))) + length (dumps_string (replicate 64 (CHR ''f''))) +
     length (dumps (JObj [(''maximum_byte_length'', JInt (artifact_bytes RUN_LIMIT))])))"
    unfolding leaf_row_json_def
    by (rule order_trans [OF dumps_object_length])
       (use key_length [of "''ordinal''"] key_length [of "''identity''"] key_length [of "''intent''"] key_length [of "''status''"]
          key_length [of "''actual''"] key_length [of "''evidence_digest''"] key_length [of "''evidence''"]
        in \<open>simp add: ex_leaf_def\<close>)
  ultimately show ?thesis using intent actual pin num strs by linarith
qed
lemma ex_lease_length: "length (dumps (lease_json ex_lease)) \<le> 6400"
proof -
  have pin: "length (dumps_string (replicate 64 c)) \<le> 386" for c using dumps_string_length [of "replicate 64 c"] by simp
  have strs: "length (dumps_string ''k'') \<le> 122" "length (dumps_string PROFILE) \<le> 242" "length (dumps_string OBJECT_PROFILE) \<le> 242"
    using dumps_string_length [of "''k''"] dumps_string_length [of PROFILE] dumps_string_length [of OBJECT_PROFILE]
    by (simp_all add: PROFILE_def OBJECT_PROFILE_def)
  have leaf: "length (dumps (leaf_json (ex_leaf 0 ''put'' 80000))) \<le> 2100" "length (dumps (leaf_json (ex_leaf 1 ''check'' 19000))) \<le> 2100"
    using ex_leaf_length [of 0 "''put''" 80000] ex_leaf_length [of 1 "''check''" 19000] by (simp_all add: leaf_text_def)
  have "length (dumps (JArr (map leaf_json (nl_leaves ex_lease)))) \<le> (2100 + 1) * length (map leaf_json (nl_leaves ex_lease)) + 2"
    by (rule dumps_array_length) (use leaf in \<open>auto simp: ex_lease_def simp del: dumps.simps\<close>)
  then have leaves: "length (dumps (JArr (map leaf_json (nl_leaves ex_lease)))) \<le> 4204" by (simp add: ex_lease_def del: dumps.simps)
  have "length (dumps (lease_json ex_lease)) \<le> 2 + (6 * 124 + length (dumps_string ''k'') +
     length (dumps_string (replicate 64 (CHR ''c''))) + length (dumps_string (replicate 64 (CHR ''d''))) +
     length (dumps_string PROFILE) + length (dumps_string OBJECT_PROFILE) + length (dumps (JArr (map leaf_json (nl_leaves ex_lease)))))"
    unfolding lease_json_def
    by (rule order_trans [OF dumps_object_length])
       (use key_length [of "''key''"] key_length [of "''context_digest''"] key_length [of "''source_pin''"]
          key_length [of "''profile''"] key_length [of "''object_profile''"] key_length [of "''leaves''"]
        in \<open>simp add: ex_lease_def del: dumps.simps(5)\<close>)
  with pin [of "CHR ''c''"] pin [of "CHR ''d''"] strs leaves show ?thesis by linarith
qed

definition ex_tree :: cost where
  "ex_tree = plus_cost (ex_cost 80000) (ex_cost 19000)"

lemma ex_attempt_length:
  assumes "length d = 64"
  shows "length (dumps (attempt_row_json ex_lease d ex_tree)) \<le> 43000"
proof -
  have lease: "length (dumps_string (dumps (lease_json ex_lease))) \<le> 38402"
    using dumps_string_length [of "dumps (lease_json ex_lease)"] ex_lease_length by linarith
  have "length (dumps (cost_json ex_tree)) \<le> 360"
    by (rule cost_json_length) (simp add: ex_tree_def plus_cost_def cost_fields_def ex_cost_def Cost_def)
  then have tree: "length (dumps_string (dumps (cost_json ex_tree))) \<le> 2162"
    using dumps_string_length [of "dumps (cost_json ex_tree)"] by linarith
  have digest: "length (dumps_string d) \<le> 386" using dumps_string_length [of d] assms by simp
  have status: "length (dumps_string ''subtree_dispatching'') \<le> 122" by (rule key_length) simp
  have reason: "length (dumps_string (replicate 128 (CHR 0x5C))) \<le> 770"
    using dumps_string_length [of "replicate 128 (CHR 0x5C)"] by simp
  have nums: "length (py_str_int 1) \<le> 9" "length (py_str_int (int (length (nl_leaves ex_lease)))) \<le> 9"
    by (rule number_length, simp_all add: ex_lease_def)+
  have "length (dumps (attempt_row_json ex_lease d ex_tree)) \<le> 2 + (7 * 124 + length (py_str_int 1) + length (dumps_string d) +
     length (dumps_string (dumps (lease_json ex_lease))) + length (dumps_string (dumps (cost_json ex_tree))) +
     length (dumps_string ''subtree_dispatching'') + length (py_str_int (int (length (nl_leaves ex_lease)))) +
     length (dumps_string (replicate 128 (CHR 0x5C))))"
    unfolding attempt_row_json_def
    by (rule order_trans [OF dumps_object_length])
       (use key_length [of "''singleton''"] key_length [of "''lease_digest''"] key_length [of "''lease''"] key_length [of "''reserved''"]
          key_length [of "''status''"] key_length [of "''next_ordinal''"] key_length [of "''reason''"] in simp)
  with lease tree digest status reason nums show ?thesis by linarith
qed

lemma ex_lease_digest: "lease_digest ex_lease = Inr (sha256_hex (dumps (lease_json ex_lease)))"
proof -
  have "scan_leaves True 0 [] [] Cost (nl_leaves ex_lease) = Inr ex_tree" and sh: "lease_shape ex_lease"
    using ex_scan by (auto simp: scan_lease_def ex_tree_def bind_res_Inr)
  from scan_leaves_shape [OF this(1)] have s: "scan_leaves False 0 [] [] Cost (nl_leaves ex_lease) = Inr Cost" .
  have "within Cost RUN_LIMIT = Inr True"
    by (simp add: within_def validate_cost_def require_def cost_fields_def cost_le_def RUN_LIMIT_def Cost_def)
  with s sh show ?thesis by (simp add: lease_digest_def scan_lease_def require_def)
qed

lemma ex_envelopes:
  "retained ex_lease 0 (ex_cost 80000) ex_tree 0 = Inr b \<Longrightarrow> b \<le> 80000"
  "retained ex_lease 1 (ex_cost 19000) ex_tree 0 = Inr b' \<Longrightarrow> b' \<le> 19000"
  "\<exists>b. retained ex_lease 0 (ex_cost 80000) ex_tree 0 = Inr b" "\<exists>b. retained ex_lease 1 (ex_cost 19000) ex_tree 0 = Inr b"
proof -
  let ?d = "sha256_hex (dumps (lease_json ex_lease))"
  have "length ?d = 64" using hex64_sha256 [of "dumps (lease_json ex_lease)"] by (simp add: hex64_def)
  note a = ex_attempt_length [OF this]
  have r0: "length (dumps (leaf_row_json 0 (ex_leaf 0 ''put'' 80000) (ex_cost 80000))) \<le> 19000"
    by (rule ex_row_length) simp_all
  have r1: "length (dumps (leaf_row_json 1 (ex_leaf 1 ''check'' 19000) (ex_cost 19000))) \<le> 19000"
    by (rule ex_row_length) simp_all
  have e0: "retained ex_lease 0 (ex_cost 80000) ex_tree 0 =
      Inr (int (length (dumps (leaf_row_json 0 (ex_leaf 0 ''put'' 80000) (ex_cost 80000)))) +
        int (length (dumps (attempt_row_json ex_lease ?d ex_tree))))"
    using ex_lease_digest by (simp add: retained_def require_def RUN_LIMIT_def ex_lease_def)
  have e1: "retained ex_lease 1 (ex_cost 19000) ex_tree 0 =
      Inr (int (length (dumps (leaf_row_json 1 (ex_leaf 1 ''check'' 19000) (ex_cost 19000)))))"
    by (simp add: retained_def require_def RUN_LIMIT_def ex_lease_def)
  from e0 a r0 show "retained ex_lease 0 (ex_cost 80000) ex_tree 0 = Inr b \<Longrightarrow> b \<le> 80000" by simp
  from e1 r1 show "retained ex_lease 1 (ex_cost 19000) ex_tree 0 = Inr b' \<Longrightarrow> b' \<le> 19000" by simp
  from e0 e1 show "\<exists>b. retained ex_lease 0 (ex_cost 80000) ex_tree 0 = Inr b" "\<exists>b. retained ex_lease 1 (ex_cost 19000) ex_tree 0 = Inr b"
    by blast+
qed

lemma ex_valid: "validate_lease ex_lease = Inr ex_tree"
proof -
  obtain b0 b1 where r: "retained ex_lease 0 (ex_cost 80000) ex_tree 0 = Inr b0" "retained ex_lease 1 (ex_cost 19000) ex_tree 0 = Inr b1"
    using ex_envelopes(3,4) by blast
  with ex_envelopes(1,2) have le: "b0 \<le> 80000" "b1 \<le> 19000" by blast+
  have leaves: "nl_leaves ex_lease = [ex_leaf 0 ''put'' 80000, ex_leaf 1 ''check'' 19000]" by (simp add: ex_lease_def)
  have at: "artifact_bytes (ex_cost n) = n" for n by (simp add: ex_cost_def Cost_def)
  have lf: "lf_ordinal (ex_leaf n i m) = n" "lf_cost (ex_leaf n i m) = Some (ex_cost m)" for n i m by (simp_all add: ex_leaf_def)
  have "check_envelopes ex_lease ex_tree (nl_leaves ex_lease) = Inr ()"
    unfolding leaves using r le ex_leaf_cost by (simp add: lf at require_def)
  then show ?thesis using ex_scan by (simp add: validate_lease_def ex_tree_def)
qed
lemma ex_reserved:
  "world_run [(0, Commits, Reserve ex_lease)] =
     (halfway ex_lease ex_tree (sha256_hex (dumps (lease_json ex_lease))) 0 ''reserved'' (rows ex_lease 0),
      sole (sha256_hex (dumps (lease_json ex_lease))), first_leaves 0)"
  using reserve_commits [OF ex_valid lease_digest_total [OF ex_valid]] by (simp add: world_run_def)

lemma ex_only: "list_all (\<lambda>(i, fault, c). only_lease ex_lease c) [(0, Commits, Reserve ex_lease)]"
  by (simp add: only_lease_def)


section \<open>Counting the known leaves\<close>

definition known_leaves :: "store \<Rightarrow> nat" where
  "known_leaves t = length (filter (\<lambda>r. lr_status r = ''known'') (st_leaves t))"

lemma known_layout:
  assumes "layout t k m"
  shows "known_leaves t = k"
proof -
  have m: "k \<le> m" "m \<le> length (st_leaves t)" using assms by (simp_all add: layout_def)
  have "{j. j < length (st_leaves t) \<and> lr_status (st_leaves t ! j) = ''known''} = {j. j < k}"
    using layout_nth(2) [OF assms] m by (auto simp: mark_def split: if_splits)
  then show ?thesis by (simp add: known_leaves_def length_filter_conv_card)
qed

lemma run_staged:
  obtains t owners gs where "world_run xs = (t, owners, gs)" "staged t (known_leaves t) (marked t)"
    "gs = first_leaves (length gs)" "length gs \<le> marked t" "\<And>i. owners i \<noteq> None \<Longrightarrow> length gs = marked t"
    "\<And>i j. owners i \<noteq> None \<Longrightarrow> owners j \<noteq> None \<Longrightarrow> i = j"
proof -
  obtain t owners gs where w: "world_run xs = (t, owners, gs)" by (cases "world_run xs") auto
  from world_run_ok [of xs] obtain k m g where st: "staged t k m"
    and one: "\<And>i j. owners i \<noteq> None \<Longrightarrow> owners j \<noteq> None \<Longrightarrow> i = j"
    and g: "gs = first_leaves g" "g \<le> m" "(\<exists>i. owners i \<noteq> None) \<longrightarrow> g = m"
    unfolding w world_ok_def by auto
  have l: "layout t k m" using st by (simp add: staged_def)
  have len: "length gs = g" using g(1) by (simp add: first_leaves_def)
  show ?thesis
    by (rule that [OF w]) (use st marked_layout [OF l] known_layout [OF l] g one len in auto)
qed


section \<open>Leases\<close>

lemma scan_leaves_facts:
  "scan_leaves True n ids acts tree ls = Inr c \<Longrightarrow>
     map lf_ordinal ls = map (\<lambda>i. n + int i) [0..<length ls] \<and> distinct (map lf_identity ls) \<and>
     set (map lf_identity ls) \<inter> set ids = {} \<and>
     distinct (map lf_resource (filter (\<lambda>l. creates (declared_cost l) \<noteq> 0) ls)) \<and>
     (\<forall>l\<in>set ls. creates (declared_cost l) \<noteq> 0 \<longrightarrow> (lf_resource l, ''create'') \<notin> set acts) \<and>
     distinct (map lf_resource (filter (\<lambda>l. deletes (declared_cost l) \<noteq> 0) ls)) \<and>
     (\<forall>l\<in>set ls. deletes (declared_cost l) \<noteq> 0 \<longrightarrow> (lf_resource l, ''delete'') \<notin> set acts)"
proof (induction ls arbitrary: n ids acts tree)
  case (Cons l ls)
  then obtain cl acts' where b: "leaf_binding n ids l" and l: "leaf_cost (lf_cost l) = Inr cl"
    and a: "latch_actions (lf_resource l) cl acts = Inr acts'"
    and rest: "scan_leaves True (n + 1) (lf_identity l # ids) acts' (plus_cost tree cl) ls = Inr c"
    by (auto simp: bind_res_Inr split: if_splits)
  have cl: "declared_cost l = cl" using leaf_cost_Inr [OF l] by (simp add: declared_cost_def)
  have acts': "set acts \<subseteq> set acts'"
    "creates cl \<noteq> 0 \<Longrightarrow> (lf_resource l, ''create'') \<notin> set acts \<and> (lf_resource l, ''create'') \<in> set acts'"
    "deletes cl \<noteq> 0 \<Longrightarrow> (lf_resource l, ''delete'') \<notin> set acts \<and> (lf_resource l, ''delete'') \<in> set acts'"
    using a by (auto simp: latch_actions_def bind_res_Inr require_def split: if_splits)
  have ord: "map lf_ordinal (l # ls) = map (\<lambda>i. n + int i) [0..<length (l # ls)]"
    using Cons.IH [OF rest] b
    by (simp add: leaf_binding_def upt_conv_Cons map_Suc_upt [symmetric] comp_def add.assoc del: upt_Suc map_Suc_upt)
  from Cons.IH [OF rest] b cl acts' ord show ?case by (auto simp: leaf_binding_def)
qed simp

lemma validate_lease_facts:
  assumes "validate_lease x = Inr c"
  shows "map lf_ordinal (nl_leaves x) = map int [0..<length (nl_leaves x)]" "distinct (map lf_identity (nl_leaves x))"
    "distinct (map lf_resource (filter (\<lambda>l. creates (declared_cost l) \<noteq> 0) (nl_leaves x)))"
    "distinct (map lf_resource (filter (\<lambda>l. deletes (declared_cost l) \<noteq> 0) (nl_leaves x)))"
    "nl_leaves x \<noteq> []" "length (nl_leaves x) \<le> 2048"
proof -
  from assms have "scan_leaves True 0 [] [] Cost (nl_leaves x) = Inr c" and "lease_shape x"
    by (auto simp: validate_lease_def scan_lease_def bind_res_Inr)
  from scan_leaves_facts [OF this(1)] this(2)
  show "map lf_ordinal (nl_leaves x) = map int [0..<length (nl_leaves x)]" "distinct (map lf_identity (nl_leaves x))"
    "distinct (map lf_resource (filter (\<lambda>l. creates (declared_cost l) \<noteq> 0) (nl_leaves x)))"
    "distinct (map lf_resource (filter (\<lambda>l. deletes (declared_cost l) \<noteq> 0) (nl_leaves x)))"
    "nl_leaves x \<noteq> []" "length (nl_leaves x) \<le> 2048"
    by (auto simp: lease_shape_def)
qed


section \<open>The properties\<close>

text \<open>C27: Over any history of any instances on one native journal, the leaves that calls
  let their callers run are the first leaves of the tree, each granted once and in order, all of them
  durably marked before; at most one instance owns the attempt, and while it does the marked
  leaves are exactly the granted ones.\<close>

theorem broker_grants_in_order:
  "case world_run xs of (t, owners, gs) \<Rightarrow> gs = first_leaves (length gs) \<and> length gs \<le> marked t \<and>
     (\<exists>j d. owners = (\<lambda>_. None)(j := d)) \<and> (owners = (\<lambda>_. None) \<or> length gs = marked t)"
proof (rule run_staged [of xs])
  fix t owners gs
  assume w: "world_run xs = (t, owners, gs)" and g: "gs = first_leaves (length gs)" "length gs \<le> marked t"
    "\<And>i. owners i \<noteq> None \<Longrightarrow> length gs = marked t" and one: "\<And>i j. owners i \<noteq> None \<Longrightarrow> owners j \<noteq> None \<Longrightarrow> i = j"
  have "(\<exists>j d. owners = (\<lambda>_. None)(j := d)) \<and> (owners = (\<lambda>_. None) \<or> length gs = marked t)"
  proof (cases "\<exists>j. owners j \<noteq> None")
    case True
    then obtain j where j: "owners j \<noteq> None" by blast
    have "owners i = ((\<lambda>_. None)(j := owners j)) i" for i using one [of i j] j by (cases "owners i") auto
    then have "owners = (\<lambda>_. None)(j := owners j)" by blast
    with j g(3) show ?thesis by blast
  next
    case False
    then have "owners = (\<lambda>_. None)" "owners = (\<lambda>_. None)(0 := None)" by auto
    then show ?thesis by blast
  qed
  with w g show ?thesis by simp
qed

text \<open>In every journal any history leaves, the leaves are numbered from zero, the known
  ones come first, then the marked ones, then the reserved ones; the attempt records how many
  are known, and its status says how many more are marked.\<close>

theorem broker_leaves_staged:
  "let t = fst (world_run xs) in staged t (known_leaves t) (marked t)"
  by (rule run_staged [of xs]) (simp add: Let_def)
text \<open>While a journal serves one lease, its known leaves cost together no more than the
  reserved tree, which costs no more than one run, over any history of any instances.\<close>

theorem broker_within_budget:
  assumes "list_all (\<lambda>(i, fault, c). only_lease x c) xs"
    and "st_attempt (fst (world_run xs)) = Some a"
  shows "validate_lease x = Inr (at_reserved a) \<and> cost_le (known_cost (fst (world_run xs))) (at_reserved a) \<and>
    cost_le (at_reserved a) RUN_LIMIT \<and> list_all (row_ok x) (st_leaves (fst (world_run xs)))"
proof -
  have b: "books x (fst (world_run xs))" using books_run [OF assms(1)] .
  with books_cost [OF b assms(2)] assms(2) show ?thesis by (simp add: books_def list_all_iff)
qed

theorem broker_within_budget_witness:
  "cost_le (known_cost (fst (world_run [(0, Commits, Reserve ex_lease)]))) ex_tree"
proof -
  have a: "st_attempt (fst (world_run [(0, Commits, Reserve ex_lease)])) =
      Some \<lparr>at_digest = sha256_hex (dumps (lease_json ex_lease)), at_lease = dumps (lease_json ex_lease),
        at_reserved = ex_tree, at_status = ''reserved'', at_next = 0, at_reason = []\<rparr>"
    unfolding ex_reserved by (simp add: halfway_def)
  from broker_within_budget [OF ex_only a] show ?thesis unfolding attempt.select_convs by (elim conjE)
qed

text \<open>C28: Once an attempt is unknown, or no instance owns it, no later call of any
  instance lets a leaf run.\<close>

theorem broker_fence:
  assumes "fenced (world_run xs)"
  shows "snd (snd (world_run (xs @ ys))) = snd (snd (world_run xs))"
  using fenced_run [OF assms, of ys] by (simp add: world_run_def)

theorem broker_fence_witness:
  "snd (snd (world_run ([(0, Commits, Reserve ex_lease), (0, Commits, Release)] @
     [(0, Commits, Begin ex_lease 0 ''put'' (replicate 64 (CHR ''b'')))]))) = []"
proof -
  have run: "world_run [(0, Commits, Reserve ex_lease), (0, Commits, Release)] =
      world_step (0, Commits, Release) (world_run [(0, Commits, Reserve ex_lease)])"
    by (simp add: world_run_def)
  have "fenced (world_run [(0, Commits, Reserve ex_lease), (0, Commits, Release)])"
    unfolding run ex_reserved
    by (simp add: world_step_def bcall_act_def act_simps close_broker_def fenced_def halfway_def sole_def del: sole_simps)
  moreover have "snd (snd (world_run [(0, Commits, Reserve ex_lease), (0, Commits, Release)])) = []"
    unfolding run ex_reserved
    by (simp add: world_step_def bcall_act_def act_simps close_broker_def halfway_def first_leaves_def)
  ultimately show ?thesis using broker_fence by metis
qed

text \<open>C29: An accepted lease can be carried out: reserving it and then beginning and finishing
  every leaf in order with a receipt of the declared cost answers every call, grants every leaf and
  leaves the attempt complete with every leaf known.\<close>

theorem broker_completes:
  assumes "validate_lease x = Inr c"
  shows "case world_run (map (\<lambda>b. (0, Commits, b)) (Reserve x # drive x (nl_leaves x))) of
    (t, owners, gs) \<Rightarrow> gs = first_leaves (length (nl_leaves x)) \<and>
      map_option at_status (st_attempt t) = Some ''complete'' \<and>
      map lr_identity (st_leaves t) = map lf_identity (nl_leaves x) \<and>
      map lr_actual (st_leaves t) = map lf_cost (nl_leaves x) \<and>
      list_all (\<lambda>r. lr_status r = ''known'') (st_leaves t)"
proof -
  have cost: "lf_cost (nl_leaves x ! i) = Some (declared_cost (nl_leaves x ! i))" if "i < length (nl_leaves x)" for i
    using leaf_cost_Inr [OF validate_lease_cost(3) [OF assms]] that by simp
  show ?thesis
    unfolding drive_complete [OF assms lease_digest_total [OF assms]]
    by (auto simp: halfway_def rows_def done_row_def settle_row_def new_row_def cost list_all_iff intro!: nth_equalityI)
qed

theorem broker_completes_witness:
  "snd (snd (world_run (map (\<lambda>b. (0, Commits, b)) (Reserve ex_lease # drive ex_lease (nl_leaves ex_lease))))) = [0, 1]"
proof -
  have "first_leaves (length (nl_leaves ex_lease)) = [0, 1]" by (simp add: first_leaves_def ex_lease_def upt_rec)
  with broker_completes [OF ex_valid] show ?thesis by (auto split: prod.splits)
qed

text \<open>An accepted lease names its leaves in order with distinct identities, creates and
  deletes each resource at most once, declares for every leaf one request at most and an artifact
  allowance that pays for its own durable row, and its total is within one run.\<close>

theorem validate_lease_bounds:
  assumes "validate_lease x = Inr c"
  shows "1 \<le> length (nl_leaves x) \<and> length (nl_leaves x) \<le> 2048 \<and>
    map lf_ordinal (nl_leaves x) = map int [0..<length (nl_leaves x)] \<and> distinct (map lf_identity (nl_leaves x)) \<and>
    distinct (map lf_resource (filter (\<lambda>l. creates (declared_cost l) \<noteq> 0) (nl_leaves x))) \<and>
    distinct (map lf_resource (filter (\<lambda>l. deletes (declared_cost l) \<noteq> 0) (nl_leaves x))) \<and>
    list_all (\<lambda>l. lf_cost l = Some (declared_cost l) \<and> requests (declared_cost l) \<le> 1 \<and>
      (\<exists>b\<le>artifact_bytes (declared_cost l). retained x (lf_ordinal l) (declared_cost l) c 0 = Inr b)) (nl_leaves x) \<and>
    c = foldl plus_cost Cost (map declared_cost (nl_leaves x)) \<and> cost_le c RUN_LIMIT"
proof -
  have e: "check_envelopes x c (nl_leaves x) = Inr ()"
    using assms by (auto simp: validate_lease_def bind_res_Inr)
  have "lf_cost l = Some (declared_cost l) \<and> requests (declared_cost l) \<le> 1 \<and>
      (\<exists>b\<le>artifact_bytes (declared_cost l). retained x (lf_ordinal l) (declared_cost l) c 0 = Inr b)"
    if l: "l \<in> set (nl_leaves x)" for l
  proof -
    note lc = validate_lease_cost(3) [OF assms l]
    have "requests (declared_cost l) \<le> 1"
      using lc by (auto simp: leaf_cost_def bind_res_Inr split: option.splits)
    with leaf_cost_Inr [OF lc] check_envelopes_leaf [OF e l lc] show ?thesis by blast
  qed
  moreover have "1 \<le> length (nl_leaves x)" using validate_lease_facts(5) [OF assms] by (cases "nl_leaves x") auto
  ultimately show ?thesis
    using validate_lease_facts [OF assms] validate_lease_cost(1,2) [OF assms] by (simp add: list_all_iff)
qed
section \<open>A leaf as a subtree\<close>

text \<open>Rows that hold the leaves of a lease in order, whatever their status.\<close>

definition holds :: "native_lease \<Rightarrow> store \<Rightarrow> (nat \<Rightarrow> leaf_row) \<Rightarrow> bool" where
  "holds x t g \<longleftrightarrow> st_leaves t = map g [0..<length (nl_leaves x)] \<and>
     (\<forall>j<length (nl_leaves x). row_intent (g j) = (int j, lf_identity (nl_leaves x ! j), leaf_text (nl_leaves x ! j)) \<and>
        lf_ordinal (nl_leaves x ! j) = int j)"

lemma holds_tree_state:
  assumes h: "holds x t g"
    and s: "\<And>j. j < length (nl_leaves x) \<Longrightarrow>
      lr_status (g j) = (if int j < n then ''known'' else if int j \<le> th then active else ''reserved'')"
  shows "tree_state x n th active t"
proof -
  have "map lr_ordinal (st_leaves t) = map int [0..<length (nl_leaves x)]"
    using h by (auto simp: holds_def row_intent_def)
  then have "sorted (map lr_ordinal (st_leaves t))" by (simp add: sorted_map sorted_wrt_upt sorted_wrt_iff_nth_less)
  then have "sort_key lr_ordinal (st_leaves t) = st_leaves t" by (rule sort_key_id_if_sorted)
  then show ?thesis
    using h s by (auto simp: tree_state_def holds_def row_intent_def intro!: nth_equalityI)
qed

lemma holds_update:
  assumes "holds x t g" and "\<And>j. row_intent (f (g j)) = row_intent (g j)" and "st_leaves u = map (\<lambda>j. if j = k then f (g j) else g j) [0..<length (nl_leaves x)]"
  shows "holds x u (\<lambda>j. if j = k then f (g j) else g j)"
  using assms by (auto simp: holds_def)

lemma run_holds:
  assumes only: "list_all (\<lambda>(i, fault, c). only_lease x c) xs" and t: "t = fst (world_run xs)"
    and s: "attempt_state d t = Some (''reserved'', int k)"
  shows "holds x t (\<lambda>j. st_leaves t ! j)"
    and "j < length (nl_leaves x) \<Longrightarrow> lr_status (st_leaves t ! j) = (if j < k then ''known'' else ''reserved'')"
proof -
  from s obtain at where at: "st_attempt t = Some at" "at_digest at = d" "at_status at = ''reserved''" "at_next at = int k"
    by (auto simp: attempt_state_Some)
  have st: "staged t (known_leaves t) (marked t)" by (rule run_staged [of xs]) (simp add: t)
  then have "known_leaves t = k" "marked t = k" using at by (auto simp: staged_def stage_ok_def)
  with st have lay: "layout t k k" by (simp add: staged_def)
  have b: "map row_intent (st_leaves t) = map (\<lambda>l. row_intent (new_row l)) (nl_leaves x)" and v: "validate_lease x = Inr (at_reserved at)"
    using books_run [OF only] at by (auto simp: books_def t)
  have len: "length (st_leaves t) = length (nl_leaves x)" using map_eq_imp_length_eq [OF b] .
  have "row_intent (st_leaves t ! j) = row_intent (new_row (nl_leaves x ! j))" if "j < length (nl_leaves x)" for j
    using arg_cong [OF b, of "\<lambda>l. l ! j"] that len by simp
  then show "holds x t (\<lambda>j. st_leaves t ! j)"
    using map_nth [of "st_leaves t"] row_ordinal(1) [OF v] unfolding len by (simp add: holds_def row_intent_def new_row_def)
  show "j < length (nl_leaves x) \<Longrightarrow> lr_status (st_leaves t ! j) = (if j < k then ''known'' else ''reserved'')"
    using layout_nth(2) [OF lay, of j] len by (simp add: mark_def)
qed

lemma begin_one_leaf:
  assumes h: "holds x t g" and k: "k < length (nl_leaves x)" and m: "matches x (int k) i q"
    and st: "\<And>j. j < length (nl_leaves x) \<Longrightarrow> lr_status (g j) = (if j < k then ''known'' else ''reserved'')"
    and s: "attempt_state d t = Some (''reserved'', int k)"
  defines "ls1 \<equiv> map (\<lambda>j. if j = k then (g j)\<lparr>lr_status := ''dispatching''\<rparr> else g j) [0..<length (nl_leaves x)]"
  shows "begin_leaf x d (int k) i q t = (False, set_attempt (\<lambda>a. a\<lparr>at_status := ''dispatching''\<rparr>) (t\<lparr>st_leaves := ls1\<rparr>))"
    and "begin_tree x d (int k) (int k) i q t = (False, set_attempt (\<lambda>a. a\<lparr>at_status := ''subtree_dispatching''\<rparr>) (t\<lparr>st_leaves := ls1\<rparr>))"
proof -
  have leaves: "st_leaves t = map g [0..<length (nl_leaves x)]" and row: "\<And>j. j < length (nl_leaves x) \<Longrightarrow>
      lr_ordinal (g j) = int j \<and> lr_identity (g j) = lf_identity (nl_leaves x ! j)"
    using h by (auto simp: holds_def row_intent_def)
  have i: "lf_identity (nl_leaves x ! k) = i" using m by (simp add: matches_def)
  have "update_rows (\<lambda>r. lr_ordinal r = int k \<and> lr_identity r = i \<and> lr_status r = ''reserved'')
      (\<lambda>r. r\<lparr>lr_status := ''dispatching''\<rparr>) t = (1, t\<lparr>st_leaves := ls1\<rparr>)"
    unfolding ls1_def by (rule update_pointwise [OF leaves k]) (use row st k i in auto)
  with m s show "begin_leaf x d (int k) i q t = (False, set_attempt (\<lambda>a. a\<lparr>at_status := ''dispatching''\<rparr>) (t\<lparr>st_leaves := ls1\<rparr>))"
    by (simp add: begin_leaf_def)
  have "update_rows (\<lambda>r. int k \<le> lr_ordinal r \<and> lr_ordinal r \<le> int k \<and> lr_status r = ''reserved'')
      (\<lambda>r. r\<lparr>lr_status := ''dispatching''\<rparr>) t = (1, t\<lparr>st_leaves := ls1\<rparr>)"
    unfolding ls1_def by (rule update_pointwise [OF leaves k]) (use row st k in auto)
  moreover have "tree_state x (int k) (int k) ''reserved'' t" by (rule holds_tree_state [OF h]) (use st in auto)
  ultimately show "begin_tree x d (int k) (int k) i q t = (False, set_attempt (\<lambda>a. a\<lparr>at_status := ''subtree_dispatching''\<rparr>) (t\<lparr>st_leaves := ls1\<rparr>))"
    using m s k by (simp add: begin_tree_def interval_def)
qed

text \<open>The settled row of a leaf whose row is dispatching.\<close>

lemma finish_one_leaf:
  assumes h: "holds x t g" and k: "k < length (nl_leaves x)" and r: "receipt_valid x (int k) i q a e"
    and st: "\<And>j. j < length (nl_leaves x) \<Longrightarrow> lr_status (g j) = (if j < k then ''known'' else if j = k then ''dispatching'' else ''reserved'')"
  defines "ls1 \<equiv> map (\<lambda>j. if j = k then settle_row a e (g j) else g j) [0..<length (nl_leaves x)]"
  shows "attempt_state d t = Some (''dispatching'', int k) \<Longrightarrow>
      finish_leaf x d (int k) i q a e t = (False, after_leaf x (int k) (t\<lparr>st_leaves := ls1\<rparr>))"
    and "attempt_state d t = Some (''subtree_dispatching'', int k) \<Longrightarrow>
      finish_tree x d (int k) (int k) [\<lparr>rc_ordinal = int k, rc_identity = i, rc_request_digest = q, rc_actual = a, rc_evidence = e\<rparr>] t =
        (False, after_leaf x (int k) (t\<lparr>st_leaves := ls1\<rparr>))"
proof -
  have leaves: "st_leaves t = map g [0..<length (nl_leaves x)]" and row: "\<And>j. j < length (nl_leaves x) \<Longrightarrow>
      lr_ordinal (g j) = int j \<and> lr_identity (g j) = lf_identity (nl_leaves x ! j)"
    using h by (auto simp: holds_def row_intent_def)
  have i: "lf_identity (nl_leaves x ! k) = i" using r by (simp add: receipt_valid_def matches_def)
  have settle: "settle_leaf (int k) i a e t = (1, t\<lparr>st_leaves := ls1\<rparr>)"
    unfolding ls1_def settle_leaf_def by (rule update_pointwise [OF leaves k]) (use row st k i in auto)
  with r show "attempt_state d t = Some (''dispatching'', int k) \<Longrightarrow>
      finish_leaf x d (int k) i q a e t = (False, after_leaf x (int k) (t\<lparr>st_leaves := ls1\<rparr>))"
    by (simp add: finish_leaf_def)
  have "tree_state x (int k) (int k) ''dispatching'' t" by (rule holds_tree_state [OF h]) (use st in auto)
  with r k settle show "attempt_state d t = Some (''subtree_dispatching'', int k) \<Longrightarrow>
      finish_tree x d (int k) (int k) [\<lparr>rc_ordinal = int k, rc_identity = i, rc_request_digest = q, rc_actual = a, rc_evidence = e\<rparr>] t =
        (False, after_leaf x (int k) (t\<lparr>st_leaves := ls1\<rparr>))"
    by (simp add: finish_tree_def interval_def)
qed

theorem validate_lease_bounds_witness:
  "validate_lease ex_lease = Inr ex_tree \<and> cost_le ex_tree RUN_LIMIT"
  using validate_lease_bounds [OF ex_valid] ex_valid by simp

text \<open>Settling a leaf as a subtree of one leaf is the same as settling it alone: on
  every journal that serves one lease and rests before this leaf, both ways accept a valid
  receipt and leave the same journal.\<close>

theorem subtree_of_one_leaf:
  assumes "list_all (\<lambda>(i, fault, c). only_lease x c) xs" and t: "t = fst (world_run xs)"
    and "attempt_state d t = Some (''reserved'', n)" and "receipt_valid x n i q a e"
  shows "\<exists>u v z. begin_leaf x d n i q t = (False, u) \<and> finish_leaf x d n i q a e u = (False, z) \<and>
    begin_tree x d n n i q t = (False, v) \<and>
    finish_tree x d n n [\<lparr>rc_ordinal = n, rc_identity = i, rc_request_digest = q, rc_actual = a, rc_evidence = e\<rparr>] v = (False, z)"
proof -
  have m: "matches x n i q" using assms(4) by (simp add: receipt_valid_def)
  then obtain k where n: "n = int k" and k: "k < length (nl_leaves x)"
    by (auto simp: matches_def intro: that [of "nat n"])
  note s = assms(3) [unfolded n] and r = assms(4) [unfolded n]
  let ?g = "\<lambda>j. st_leaves t ! j"
  let ?h = "\<lambda>j. if j = k then (?g j)\<lparr>lr_status := ''dispatching''\<rparr> else ?g j"
  let ?t = "t\<lparr>st_leaves := map ?h [0..<length (nl_leaves x)]\<rparr>"
  note h = run_holds(1) [OF assms(1) t s] and st = run_holds(2) [OF assms(1) t s]
  have hold: "holds x (set_attempt f ?t) ?h" for f
    by (rule holds_update [OF h, where f = "\<lambda>r. r\<lparr>lr_status := ''dispatching''\<rparr>"]) (simp_all add: row_intent_def)
  have states: "attempt_state d (set_attempt (\<lambda>a. a\<lparr>at_status := w\<rparr>) ?t) = Some (w, int k)" for w
    using s by (auto simp: attempt_state_Some set_attempt_def)
  have status: "lr_status (?h j) = (if j < k then ''known'' else if j = k then ''dispatching'' else ''reserved'')"
    if "j < length (nl_leaves x)" for j using st that by simp
  have same: "after_leaf x (int k) ((set_attempt (\<lambda>a. a\<lparr>at_status := w\<rparr>) ?t)\<lparr>st_leaves := ls\<rparr>) =
      after_leaf x (int k) (t\<lparr>st_leaves := ls\<rparr>)" for w ls
    by (cases "st_attempt t") (simp_all add: after_leaf_def set_attempt_def)
  have f1: "finish_leaf x d (int k) i q a e (set_attempt (\<lambda>a. a\<lparr>at_status := ''dispatching''\<rparr>) ?t) =
      (False, after_leaf x (int k) (t\<lparr>st_leaves := map (\<lambda>j. if j = k then settle_row a e (?h j) else ?h j) [0..<length (nl_leaves x)]\<rparr>))"
    by (subst finish_one_leaf(1) [OF hold k r]) (use status states same in auto)
  have f2: "finish_tree x d (int k) (int k) [\<lparr>rc_ordinal = int k, rc_identity = i, rc_request_digest = q, rc_actual = a, rc_evidence = e\<rparr>]
        (set_attempt (\<lambda>a. a\<lparr>at_status := ''subtree_dispatching''\<rparr>) ?t) =
      (False, after_leaf x (int k) (t\<lparr>st_leaves := map (\<lambda>j. if j = k then settle_row a e (?h j) else ?h j) [0..<length (nl_leaves x)]\<rparr>))"
    by (subst finish_one_leaf(2) [OF hold k r]) (use status states same in auto)
  have "begin_leaf x d (int k) i q t = (False, set_attempt (\<lambda>a. a\<lparr>at_status := ''dispatching''\<rparr>) ?t)"
    "begin_tree x d (int k) (int k) i q t = (False, set_attempt (\<lambda>a. a\<lparr>at_status := ''subtree_dispatching''\<rparr>) ?t)"
    by (rule begin_one_leaf [OF h k m [unfolded n]], use st s in auto)+
  with f1 f2 show ?thesis unfolding n by blast
qed

theorem subtree_of_one_leaf_witness:
  "\<exists>u. begin_tree ex_lease (sha256_hex (dumps (lease_json ex_lease))) 0 0 ''put'' (replicate 64 (CHR ''b''))
     (fst (world_run [(0, Commits, Reserve ex_lease)])) = (False, u)"
proof -
  have l: "nl_leaves ex_lease ! 0 = ex_leaf 0 ''put'' 80000" "0 < length (nl_leaves ex_lease)" by (simp_all add: ex_lease_def)
  have r: "receipt_valid ex_lease 0 ''put'' (replicate 64 (CHR ''b'')) (ex_cost 80000) []"
    using declared_receipt [OF ex_valid l(2)] unfolding l by (simp add: ex_leaf_def declared_cost_def)
  have s: "attempt_state (sha256_hex (dumps (lease_json ex_lease))) (fst (world_run [(0, Commits, Reserve ex_lease)])) =
      Some (''reserved'', 0)"
    unfolding ex_reserved by (simp add: attempt_state_def halfway_def)
  show ?thesis using subtree_of_one_leaf [OF ex_only refl s r] by blast
qed

end
