(* ===== verification/Secret_Lifecycle.thy ===== *)
theory Secret_Lifecycle
  imports Prelude
begin

text \<open>
  The model of credential activation (\<open>scripts/secret_lifecycle_model.py\<close>): the grants of a
  credential and the link to the active one, in one SQLite file. Every operation is one
  transaction, which commits, fails, or commits without its caller learning it. Histories are
  any operations of any number of callers.
\<close>

section \<open>Tables\<close>

record credential =
  cr_name :: string
  cr_version :: string
  cr_arn :: "string option"
  cr_status :: string

record vault =
  vt_grants :: "credential list"
  vt_revision :: int
  vt_active :: "string option"

text \<open>Opening a file creates what is missing and keeps what is there.\<close>

definition vault_open :: "vault option \<Rightarrow> vault" where
  "vault_open file = (case file of None \<Rightarrow> \<lparr>vt_grants = [], vt_revision = 0, vt_active = None\<rparr> | Some v \<Rightarrow> v)"


section \<open>Transactions\<close>

datatype vfault = VCommits | VFails | VLosesAck

definition vault_tx :: "vfault \<Rightarrow> (vault \<Rightarrow> ('a \<times> vault) res) \<Rightarrow> (vault, 'a) act" where
  "vault_tx fault f v =
     (if fault = VFails then (Inl Crash, v)
      else case f v of
        Inl e \<Rightarrow> (Inl e, v)
      | Inr (x, w) \<Rightarrow> (if fault = VLosesAck then Inl Crash else Inr x, w))"

text \<open>An \<open>UPDATE\<close> of the grants: how many rows it changes, and the new table.\<close>

definition update_grants :: "(credential \<Rightarrow> bool) \<Rightarrow> (credential \<Rightarrow> credential) \<Rightarrow> vault \<Rightarrow> nat \<times> vault" where
  "update_grants P f v = (length (filter P (vt_grants v)),
     v\<lparr>vt_grants := map (\<lambda>g. if P g then f g else g) (vt_grants v)\<rparr>)"

definition find_grant :: "string \<Rightarrow> vault \<Rightarrow> credential option" where
  "find_grant n v = find (\<lambda>g. cr_name g = n) (vt_grants v)"


section \<open>Operations\<close>

text \<open>A name that is taken violates the primary key.\<close>

definition plan :: "string \<Rightarrow> string \<Rightarrow> vault \<Rightarrow> (unit \<times> vault) res" where
  "plan name version v =
     (if find_grant name v \<noteq> None then Inl Crash
      else Inr ((), v\<lparr>vt_grants := vt_grants v @
        [\<lparr>cr_name = name, cr_version = version, cr_arn = None, cr_status = ''planned''\<rparr>]\<rparr>))"

definition stage :: "string \<Rightarrow> string \<Rightarrow> string \<Rightarrow> vault \<Rightarrow> (unit \<times> vault) res" where
  "stage name version arn v =
     (case update_grants (\<lambda>g. cr_name g = name \<and> cr_version g = version \<and> cr_status g = ''planned'')
        (\<lambda>g. g\<lparr>cr_arn := Some arn, cr_status := ''staged''\<rparr>) v of
      (changed, w) \<Rightarrow> bind_res (require (changed = 1) ''Candidate is not planned.'') (\<lambda>_. Inr ((), w)))"

definition current :: "vault \<Rightarrow> (int \<times> string option) \<times> vault" where
  "current v = ((vt_revision v, vt_active v), v)"

definition set_status :: "string \<Rightarrow> string option \<Rightarrow> vault \<Rightarrow> vault" where
  "set_status s name v = snd (update_grants (\<lambda>g. Some (cr_name g) = name) (\<lambda>g. g\<lparr>cr_status := s\<rparr>) v)"

definition activate :: "string \<Rightarrow> int \<Rightarrow> vault \<Rightarrow> (int \<times> vault) res" where
  "activate name expected v =
     (case current v of
      ((revision, active), _) \<Rightarrow>
        bind_res (require (revision = expected \<and> map_option cr_status (find_grant name v) = Some ''staged'')
          ''Activation revision or candidate changed.'') (\<lambda>_.
        let w = set_status ''active'' (Some name) (set_status ''inactive'' active v) in
        Inr (revision + 1, w\<lparr>vt_revision := vt_revision w + 1, vt_active := Some name\<rparr>)))"

definition disconnect :: "int \<Rightarrow> vault \<Rightarrow> (unit \<times> vault) res" where
  "disconnect expected v =
     bind_res (require (vt_revision v = expected) ''Disconnect revision changed.'') (\<lambda>_.
     Inr ((), snd (update_grants (\<lambda>_. True) (\<lambda>g. g\<lparr>cr_status := ''inactive''\<rparr>)
       (v\<lparr>vt_revision := vt_revision v + 1, vt_active := None\<rparr>))))"

definition cleanup_allowed :: "string \<Rightarrow> vault \<Rightarrow> bool" where
  "cleanup_allowed name v \<longleftrightarrow>
     map_option cr_status (find (\<lambda>g. cr_name g = name \<and> Some (cr_name g) \<noteq> vt_active v) (vt_grants v)) = Some ''inactive''"


section \<open>Histories\<close>

datatype vcall = Plan string string | Stage string string string | Activate string int | Disconnect int

definition vcall_act :: "vfault \<Rightarrow> vcall \<Rightarrow> (vault, unit) act" where
  "vcall_act fault c = (case c of
     Plan n ver \<Rightarrow> vault_tx fault (plan n ver)
   | Stage n ver arn \<Rightarrow> vault_tx fault (stage n ver arn)
   | Activate n e \<Rightarrow> then_act (vault_tx fault (activate n e)) (return_act ())
   | Disconnect e \<Rightarrow> vault_tx fault (disconnect e))"

text \<open>The revisions that answered transitions had expected.\<close>

fun expects :: "vcall \<Rightarrow> int list" where
  "expects (Activate n e) = [e]"
| "expects (Disconnect e) = [e]"
| "expects _ = []"

definition vault_step :: "vfault \<times> vcall \<Rightarrow> vault \<times> int list \<Rightarrow> vault \<times> int list" where
  "vault_step x y = (case x of (fault, c) \<Rightarrow> case y of (v, won) \<Rightarrow>
     case vcall_act fault c v of (r, w) \<Rightarrow> (w, case r of Inr _ \<Rightarrow> won @ expects c | Inl _ \<Rightarrow> won))"

definition vault_run :: "(vfault \<times> vcall) list \<Rightarrow> vault \<times> int list" where
  "vault_run xs = fold vault_step xs (vault_open None, [])"


section \<open>What one operation does to a grant\<close>

text \<open>A grant only moves forward, and only \<open>stage\<close> gives it an identity.\<close>

inductive advances :: "credential \<Rightarrow> credential \<Rightarrow> bool" where
  same: "advances g g"
| staged: "cr_status g = ''planned'' \<Longrightarrow> advances g (g\<lparr>cr_arn := Some arn, cr_status := ''staged''\<rparr>)"
| active: "cr_status g = ''staged'' \<Longrightarrow> advances g (g\<lparr>cr_status := ''active''\<rparr>)"
| retired: "advances g (g\<lparr>cr_status := ''inactive''\<rparr>)"

inductive_cases advances_cases: "advances g h"

lemma advances_inactive: "advances g h \<Longrightarrow> cr_status g = ''inactive'' \<Longrightarrow> h = g"
  by (cases rule: advances.cases) auto

lemma advances_name: "advances g h \<Longrightarrow> cr_name h = cr_name g \<and> cr_version h = cr_version g"
  by (cases rule: advances.cases) auto

text \<open>
  The invariant: names are unique, the active link and the active status agree, and every
  grant that is staged or active has an identity.
\<close>

definition vault_ok :: "vault \<Rightarrow> bool" where
  "vault_ok v \<longleftrightarrow> distinct (map cr_name (vt_grants v)) \<and>
     (\<forall>g\<in>set (vt_grants v). cr_status g = ''active'' \<longleftrightarrow> vt_active v = Some (cr_name g)) \<and>
     (\<forall>n. vt_active v = Some n \<longrightarrow> n \<in> cr_name ` set (vt_grants v)) \<and>
     (\<forall>g\<in>set (vt_grants v). cr_status g \<in> {''planned'', ''inactive''} \<or>
        cr_status g \<in> {''staged'', ''active''} \<and> cr_arn g \<noteq> None)"

definition forward :: "vault \<Rightarrow> vault \<Rightarrow> bool" where
  "forward v w \<longleftrightarrow> (\<forall>g\<in>set (vt_grants v). \<exists>h\<in>set (vt_grants w). advances\<^sup>*\<^sup>* g h)"

lemma forward_refl [simp]: "forward v v"
  by (auto simp: forward_def)

lemma forward_trans: "forward u v \<Longrightarrow> forward v w \<Longrightarrow> forward u w"
  unfolding forward_def by (meson rtranclp_trans)

lemma forward_map:
  assumes "vt_grants w = map f (vt_grants v)" and "\<And>g. g \<in> set (vt_grants v) \<Longrightarrow> advances g (f g)"
  shows "forward v w"
  using assms by (auto simp: forward_def)

lemma find_grant_Some:
  assumes "vault_ok v"
  shows "find_grant n v = Some g \<longleftrightarrow> g \<in> set (vt_grants v) \<and> cr_name g = n"
proof
  assume "find_grant n v = Some g"
  then show "g \<in> set (vt_grants v) \<and> cr_name g = n"
    unfolding find_grant_def find_Some_iff by auto
next
  assume g: "g \<in> set (vt_grants v) \<and> cr_name g = n"
  then obtain h where h: "find_grant n v = Some h"
    unfolding find_grant_def by (cases "find (\<lambda>g. cr_name g = n) (vt_grants v)") (auto simp: find_None_iff)
  then have "h \<in> set (vt_grants v) \<and> cr_name h = n" unfolding find_grant_def find_Some_iff by auto
  with g assms have "h = g" unfolding vault_ok_def distinct_map inj_on_def by auto
  with h show "find_grant n v = Some g" by simp
qed

lemma find_grant_None: "find_grant n v = None \<longleftrightarrow> n \<notin> cr_name ` set (vt_grants v)"
  by (auto simp: find_grant_def find_None_iff)

lemma vault_ok_map:
  assumes v: "vault_ok v" and w: "vt_grants w = map f (vt_grants v)" and names: "\<And>g. cr_name (f g) = cr_name g"
    and g: "\<And>g. g \<in> set (vt_grants v) \<Longrightarrow> (cr_status (f g) = ''active'' \<longleftrightarrow> vt_active w = Some (cr_name g)) \<and>
      (cr_status (f g) \<in> {''planned'', ''inactive''} \<or> cr_status (f g) \<in> {''staged'', ''active''} \<and> cr_arn (f g) \<noteq> None)"
    and a: "\<And>n. vt_active w = Some n \<Longrightarrow> n \<in> cr_name ` set (vt_grants v)"
  shows "vault_ok w"
proof -
  have eq: "map cr_name (vt_grants w) = map cr_name (vt_grants v)" by (simp add: w names)
  then have img: "cr_name ` set (vt_grants w) = cr_name ` set (vt_grants v)" by (simp only: set_map [symmetric] eq)
  have "distinct (map cr_name (vt_grants w))" unfolding eq using v by (simp add: vault_ok_def)
  then show ?thesis unfolding vault_ok_def img using a g by (auto simp: w names)
qed

lemma plan_ok:
  assumes v: "vault_ok v" and p: "plan n ver v = Inr (x, w)"
  shows "vault_ok w \<and> forward v w \<and> vt_revision w = vt_revision v"
proof -
  have n: "n \<notin> cr_name ` set (vt_grants v)"
    and w: "w = v\<lparr>vt_grants := vt_grants v @ [\<lparr>cr_name = n, cr_version = ver, cr_arn = None, cr_status = ''planned''\<rparr>]\<rparr>"
    using p by (auto simp: plan_def find_grant_None split: if_splits)
  have "vault_ok w" using v n by (auto simp: vault_ok_def w)
  moreover have "forward v w" by (auto simp: forward_def w)
  ultimately show ?thesis by (simp add: w)
qed

lemma stage_ok:
  assumes v: "vault_ok v" and p: "stage n ver arn v = Inr (x, w)"
  shows "vault_ok w \<and> forward v w \<and> vt_revision w = vt_revision v"
proof -
  let ?f = "\<lambda>g. if cr_name g = n \<and> cr_version g = ver \<and> cr_status g = ''planned''
    then g\<lparr>cr_arn := Some arn, cr_status := ''staged''\<rparr> else g"
  have w: "w = v\<lparr>vt_grants := map ?f (vt_grants v)\<rparr>"
    using p by (auto simp: stage_def update_grants_def)
  have "vault_ok w" by (rule vault_ok_map [OF v, of _ ?f]) (use v in \<open>auto simp: vault_ok_def w\<close>)
  moreover have "forward v w" by (rule forward_map [of _ ?f]) (auto simp: w intro: advances.intros)
  ultimately show ?thesis by (simp add: w)
qed

lemma activate_ok:
  assumes v: "vault_ok v" and p: "activate n e v = Inr (x, w)"
  shows "vault_ok w \<and> forward v w \<and> vt_revision v = e \<and> vt_revision w = vt_revision v + 1"
proof -
  let ?f = "\<lambda>g. if cr_name g = n then g\<lparr>cr_status := ''active''\<rparr>
    else if Some (cr_name g) = vt_active v then g\<lparr>cr_status := ''inactive''\<rparr> else g"
  from p obtain g where g: "g \<in> set (vt_grants v)" "cr_name g = n" "cr_status g = ''staged''" and e: "vt_revision v = e"
    by (auto simp: activate_def current_def find_grant_Some [OF v] require_def split: if_splits)
  have na: "vt_active v \<noteq> Some n" using v g by (auto simp: vault_ok_def)
  have "vt_grants w = map ((\<lambda>g. if Some (cr_name g) = Some n then g\<lparr>cr_status := ''active''\<rparr> else g) \<circ>
      (\<lambda>g. if Some (cr_name g) = vt_active v then g\<lparr>cr_status := ''inactive''\<rparr> else g)) (vt_grants v)"
    and rest: "vt_revision w = vt_revision v + 1" "vt_active w = Some n"
    using p by (auto simp: activate_def current_def set_status_def update_grants_def Let_def require_def split: if_splits)
  then have w: "vt_grants w = map ?f (vt_grants v)" using na by (auto simp: comp_def)
  have only: "h = g" if "h \<in> set (vt_grants v)" "cr_name h = n" for h
    using v that g unfolding vault_ok_def distinct_map inj_on_def by auto
  have arn: "cr_arn g \<noteq> None" using v g by (auto simp: vault_ok_def)
  have "vault_ok w"
  proof (rule vault_ok_map [OF v w])
    fix h assume h: "h \<in> set (vt_grants v)"
    show "(cr_status (?f h) = ''active'' \<longleftrightarrow> vt_active w = Some (cr_name h)) \<and>
      (cr_status (?f h) \<in> {''planned'', ''inactive''} \<or> cr_status (?f h) \<in> {''staged'', ''active''} \<and> cr_arn (?f h) \<noteq> None)"
    proof (cases "cr_name h = n")
      case True
      with only [OF h] arn rest show ?thesis by simp
    next
      case False
      with v h rest show ?thesis by (auto simp: vault_ok_def)
    qed
  qed (use g rest in auto)
  moreover have "forward v w"
  proof (rule forward_map [OF w])
    fix h assume h: "h \<in> set (vt_grants v)"
    show "advances h (?f h)"
    proof (cases "cr_name h = n")
      case True
      with only [OF h] g(3) show ?thesis by (simp add: advances.active)
    next
      case False
      then show ?thesis by (simp add: advances.same advances.retired)
    qed
  qed
  ultimately show ?thesis using e rest by simp
qed

lemma disconnect_ok:
  assumes v: "vault_ok v" and p: "disconnect e v = Inr (x, w)"
  shows "vault_ok w \<and> forward v w \<and> vt_revision v = e \<and> vt_revision w = vt_revision v + 1"
proof -
  have e: "vt_revision v = e"
    and w: "w = v\<lparr>vt_revision := vt_revision v + 1, vt_active := None,
      vt_grants := map (\<lambda>g. g\<lparr>cr_status := ''inactive''\<rparr>) (vt_grants v)\<rparr>"
    using p by (auto simp: disconnect_def update_grants_def)
  have "vault_ok w" using v by (auto simp: vault_ok_def w comp_def)
  moreover have "forward v w"
    by (rule forward_map [of _ "\<lambda>g. g\<lparr>cr_status := ''inactive''\<rparr>"]) (auto simp: w intro: advances.intros)
  ultimately show ?thesis using e by (simp add: w)
qed

text \<open>The revisions of answered transitions are below the current one and increasing.\<close>

definition won_ok :: "vault \<times> int list \<Rightarrow> bool" where
  "won_ok y \<longleftrightarrow> sorted_wrt (<) (snd y) \<and> list_all (\<lambda>e. 0 \<le> e \<and> e < vt_revision (fst y)) (snd y) \<and> 0 \<le> vt_revision (fst y)"

lemma vault_tx_cases:
  assumes "vault_tx fault f v = (r, w)"
  shows "w = v \<and> (\<forall>x. r \<noteq> Inr x) \<or> (\<exists>x. f v = Inr (x, w) \<and> (r = Inr x \<or> r = Inl Crash))"
  using assms by (auto simp: vault_tx_def split: if_splits sum.splits)

lemma vcall_ok:
  assumes v: "vault_ok v" and c: "vcall_act fault c v = (r, w)"
  shows "vault_ok w \<and> forward v w \<and>
    (w = v \<and> (\<forall>x. r \<noteq> Inr x) \<or> vt_revision w = vt_revision v + int (length (expects c)) \<and> list_all (\<lambda>e. e = vt_revision v) (expects c))"
proof (cases c)
  case (Plan n ver)
  then have "vault_tx fault (plan n ver) v = (r, w)" using c by (simp add: vcall_act_def)
  from vault_tx_cases [OF this] plan_ok [OF v] v Plan show ?thesis by fastforce
next
  case (Stage n ver arn)
  then have "vault_tx fault (stage n ver arn) v = (r, w)" using c by (simp add: vcall_act_def)
  from vault_tx_cases [OF this] stage_ok [OF v] v Stage show ?thesis by fastforce
next
  case (Activate n e)
  then obtain q where q: "vault_tx fault (activate n e) v = (q, w)" "(\<forall>x. q \<noteq> Inr x) \<Longrightarrow> (\<forall>x. r \<noteq> Inr x)"
    using c by (cases "vault_tx fault (activate n e) v") (auto simp: vcall_act_def act_simps split: sum.splits)
  from vault_tx_cases [OF q(1)] activate_ok [OF v] q(2) v Activate show ?thesis by fastforce
next
  case (Disconnect e)
  then have "vault_tx fault (disconnect e) v = (r, w)" using c by (simp add: vcall_act_def)
  from vault_tx_cases [OF this] disconnect_ok [OF v] v Disconnect show ?thesis by fastforce
qed

lemma vault_step_ok:
  assumes v: "vault_ok (fst y)" and won: "won_ok y"
  shows "vault_ok (fst (vault_step x y))" "forward (fst y) (fst (vault_step x y))" "won_ok (vault_step x y)"
proof -
  obtain fault c where x: "x = (fault, c)" by (cases x) auto
  obtain v l where y: "y = (v, l)" by (cases y) auto
  obtain r w where c: "vcall_act fault c v = (r, w)" by force
  note ok = vcall_ok [OF v [unfolded y fst_conv] c]
  have step: "vault_step x y = (w, case r of Inr _ \<Rightarrow> l @ expects c | Inl _ \<Rightarrow> l)"
    by (simp add: vault_step_def x y c)
  show "vault_ok (fst (vault_step x y))" "forward (fst y) (fst (vault_step x y))"
    using ok unfolding step unfolding y by simp_all
  have e: "expects c = [] \<or> (\<exists>e. expects c = [e])" by (cases c) simp_all
  from ok show "won_ok (vault_step x y)"
  proof (elim conjE disjE)
    assume "w = v" "\<forall>x. r \<noteq> Inr x"
    then show ?thesis using won unfolding step unfolding y by (cases r) (auto simp: won_ok_def)
  next
    assume "vt_revision w = vt_revision v + int (length (expects c))" "list_all (\<lambda>e. e = vt_revision v) (expects c)"
    then show ?thesis
      using won e unfolding step unfolding y
      by (cases r) (fastforce simp: won_ok_def sorted_wrt_append list_all_iff)+
  qed
qed

lemma vault_fold_ok:
  "vault_ok (fst y) \<Longrightarrow> won_ok y \<Longrightarrow>
     vault_ok (fst (fold vault_step xs y)) \<and> forward (fst y) (fst (fold vault_step xs y)) \<and> won_ok (fold vault_step xs y)"
proof (induction xs arbitrary: y)
  case (Cons x xs)
  from Cons.IH [OF vault_step_ok(1) [OF Cons.prems] vault_step_ok(3) [OF Cons.prems], of x]
    vault_step_ok(2) [OF Cons.prems, of x] show ?case by (auto intro: forward_trans)
qed simp

lemma vault_run_ok: "vault_ok (fst (vault_run xs))" "won_ok (vault_run xs)"
proof -
  have "vault_ok (fst (vault_open None, []))" "won_ok (vault_open None, [])"
    by (simp_all add: vault_open_def vault_ok_def won_ok_def)
  from vault_fold_ok [OF this] show "vault_ok (fst (vault_run xs))" "won_ok (vault_run xs)"
    by (simp_all add: vault_run_def)
qed

lemma vault_run_forward: "forward (fst (vault_run xs)) (fst (vault_run (xs @ ys)))"
  using vault_fold_ok [OF vault_run_ok, of ys xs] by (simp add: vault_run_def)

lemma advances_star_inactive: "advances\<^sup>*\<^sup>* g h \<Longrightarrow> cr_status g = ''inactive'' \<Longrightarrow> h = g"
  by (induction rule: rtranclp_induct) (auto dest: advances_inactive)

lemma cleanup_allowed_iff:
  assumes "vault_ok v"
  shows "cleanup_allowed n v \<longleftrightarrow> (\<exists>g\<in>set (vt_grants v). cr_name g = n \<and> cr_status g = ''inactive'')"
proof
  assume "cleanup_allowed n v"
  then show "\<exists>g\<in>set (vt_grants v). cr_name g = n \<and> cr_status g = ''inactive''"
    unfolding cleanup_allowed_def by (auto simp: find_Some_iff)
next
  assume "\<exists>g\<in>set (vt_grants v). cr_name g = n \<and> cr_status g = ''inactive''"
  then obtain g where g: "g \<in> set (vt_grants v)" "cr_name g = n" "cr_status g = ''inactive''" by blast
  let ?P = "\<lambda>g. cr_name g = n \<and> Some (cr_name g) \<noteq> vt_active v"
  have "vt_active v \<noteq> Some (cr_name g)" using assms g(1,3) unfolding vault_ok_def by fastforce
  then have P: "?P g" using g(2) by auto
  then obtain h where h: "find ?P (vt_grants v) = Some h"
    using g(1) find_None_iff [of ?P "vt_grants v"] by (cases "find ?P (vt_grants v)") blast+
  from find_Some_iff [THEN iffD1, OF this] have "h \<in> set (vt_grants v) \<and> cr_name h = n" by fastforce
  then have "h = g" using g assms unfolding vault_ok_def distinct_map inj_on_def by auto
  with h g(3) show "cleanup_allowed n v" by (simp add: cleanup_allowed_def)
qed


section \<open>The properties\<close>

text \<open>C30: After any operations of any callers, with any lost acknowledgements, names are
  unique, exactly the grant of the link is active, and every grant that is staged or active has an
  identity.\<close>

theorem vault_invariant: "vault_ok (fst (vault_run xs))"
  by (rule vault_run_ok)

text \<open>C31: No two transitions that are answered had expected the same revision: the revisions
  that answered activations and disconnections expected increase and stay below the current one.\<close>

theorem vault_transitions_ordered:
  "sorted_wrt (<) (snd (vault_run xs)) \<and> list_all (\<lambda>e. 0 \<le> e \<and> e < vt_revision (fst (vault_run xs))) (snd (vault_run xs))"
  using vault_run_ok(2) [of xs] by (simp add: won_ok_def)

text \<open>A grant whose cleanup is once allowed is inactive, keeps its name, version and
  identity, and is never staged or activated again, whatever is done later.\<close>

theorem vault_cleanup_is_final:
  assumes "cleanup_allowed n (fst (vault_run xs))"
  shows "cleanup_allowed n (fst (vault_run (xs @ ys))) \<and>
    find_grant n (fst (vault_run (xs @ ys))) = find_grant n (fst (vault_run xs))"
proof -
  obtain g where g: "g \<in> set (vt_grants (fst (vault_run xs)))" "cr_name g = n" "cr_status g = ''inactive''"
    using assms cleanup_allowed_iff [OF vault_run_ok(1)] by blast
  then have h: "g \<in> set (vt_grants (fst (vault_run (xs @ ys))))"
    using vault_run_forward [of xs ys] unfolding forward_def by (metis advances_star_inactive)
  have "find_grant n (fst (vault_run xs)) = Some g" "find_grant n (fst (vault_run (xs @ ys))) = Some g"
    using g h find_grant_Some [OF vault_run_ok(1)] by blast+
  with g h show ?thesis unfolding cleanup_allowed_iff [OF vault_run_ok(1)] by auto
qed

theorem vault_cleanup_is_final_witness:
  "cleanup_allowed ''a'' (fst (vault_run (map (Pair VCommits)
     [Plan ''a'' ''v'', Stage ''a'' ''v'' ''arn'', Activate ''a'' 0, Disconnect 1] @ [(VCommits, Activate ''a'' 2)])))"
proof -
  have "cleanup_allowed ''a'' (fst (vault_run (map (Pair VCommits)
     [Plan ''a'' ''v'', Stage ''a'' ''v'' ''arn'', Activate ''a'' 0, Disconnect 1])))"
    by (simp add: vault_run_def vault_step_def vcall_act_def vault_tx_def act_simps plan_def stage_def activate_def current_def
        set_status_def disconnect_def update_grants_def find_grant_def require_def vault_open_def cleanup_allowed_def)
  from vault_cleanup_is_final [OF this] show ?thesis by (rule conjunct1)
qed

end
