(* ===== verification/Secret_Ownership.thy ===== *)
theory Secret_Ownership
  imports Prelude
begin

text \<open>
  The counterexample model of fixed-name secret ownership
  (\<open>scripts/secret_ownership_model.py\<close>): a store that knows one secret by its name only, a
  local attempt that observes it through its metadata, and the interleavings of the local
  steps with independent writers. The lineage is the oracle of the model, no local step
  reads it.
\<close>

section \<open>The store\<close>

record event =
  ev_operation :: string
  ev_actor :: string
  ev_previous :: "string option"

record name_store =
  ns_name :: string
  ns_lineage :: "string option"
  ns_events :: "event list"

definition new_store_named :: "string \<Rightarrow> string option \<Rightarrow> name_store" where
  "new_store_named name lineage = \<lparr>ns_name = name, ns_lineage = lineage, ns_events = []\<rparr>"

definition metadata :: "name_store \<Rightarrow> string option" where
  "metadata s = (if ns_lineage s \<noteq> None then Some (ns_name s) else None)"

definition put_secret :: "string \<Rightarrow> name_store \<Rightarrow> name_store" where
  "put_secret actor s = s\<lparr>ns_events := ns_events s @ [\<lparr>ev_operation = ''put'', ev_actor = actor, ev_previous = ns_lineage s\<rparr>],
     ns_lineage := Some actor\<rparr>"

definition delete_secret :: "string \<Rightarrow> name_store \<Rightarrow> name_store" where
  "delete_secret actor s = s\<lparr>ns_events := ns_events s @ [\<lparr>ev_operation = ''delete'', ev_actor = actor, ev_previous = ns_lineage s\<rparr>],
     ns_lineage := None\<rparr>"


section \<open>The local attempt\<close>

record local_attempt =
  la_store :: name_store
  la_locked :: bool
  la_absent :: bool
  la_acknowledged :: "string option"
  la_cleanup :: bool
  la_refused :: bool

definition new_attempt :: "name_store \<Rightarrow> local_attempt" where
  "new_attempt s = \<lparr>la_store = s, la_locked = False, la_absent = False, la_acknowledged = None, la_cleanup = False,
     la_refused = False\<rparr>"

definition acquire :: "local_attempt \<Rightarrow> bool \<times> local_attempt" where
  "acquire a = (if la_locked a then (False, a) else (True, a\<lparr>la_locked := True\<rparr>))"

definition LOCAL_STEPS :: "string list" where
  "LOCAL_STEPS = [''absence'', ''put'', ''metadata_recheck'', ''delete'']"

definition local_step :: "string \<Rightarrow> (local_attempt, unit) act" where
  "local_step operation a =
     (if \<not> la_locked a then (Inl (Refused ''local_lock_required''), a)
      else if operation \<notin> set LOCAL_STEPS then (Inl (Refused ''unknown_model_step''), a)
      else if la_refused a then (Inr (), a)
      else if operation = ''absence'' then
        (let absent = (metadata (la_store a) = None) in (Inr (), a\<lparr>la_absent := absent, la_refused := \<not> absent\<rparr>))
      else if operation = ''put'' then
        (if \<not> la_absent a then (Inl (Refused ''absence_required''), a)
         else (Inr (), a\<lparr>la_store := put_secret ''local'' (la_store a), la_acknowledged := Some (ns_name (la_store a))\<rparr>))
      else if operation = ''metadata_recheck'' then
        (Inr (), a\<lparr>la_cleanup := (metadata (la_store a) = la_acknowledged a)\<rparr>)
      else if la_acknowledged a = None \<or> \<not> la_cleanup a then (Inr (), a\<lparr>la_refused := True\<rparr>)
      else (Inr (), a\<lparr>la_store := delete_secret ''local'' (la_store a)\<rparr>))"

definition foreign_put :: "string \<Rightarrow> local_attempt \<Rightarrow> local_attempt" where
  "foreign_put actor a = a\<lparr>la_store := put_secret actor (la_store a)\<rparr>"


section \<open>Interleavings\<close>

text \<open>The loop over the local steps, with the foreign writer in its gap.\<close>

fun interleave :: "int \<Rightarrow> int \<Rightarrow> string list \<Rightarrow> (local_attempt, unit) act" where
  "interleave gap index [] = return_act ()"
| "interleave gap index (operation # ops) =
     then_act (modify_act (\<lambda>a. if gap = index then foreign_put ''foreign'' a else a))
    (then_act (local_step operation)
       (interleave gap (index + 1) ops))"

definition valid_gap :: "int \<Rightarrow> bool" where
  "valid_gap gap \<longleftrightarrow> 0 \<le> gap \<and> gap \<le> int (length LOCAL_STEPS)"

definition interleaving :: "int \<Rightarrow> string \<Rightarrow> name_store res" where
  "interleaving gap name =
     (if \<not> valid_gap gap then Inl (Refused ''invalid_model_gap'')
      else case acquire (new_attempt (new_store_named name None)) of
        (won, a) \<Rightarrow> if \<not> won then Inl Crash
          else case interleave gap 0 LOCAL_STEPS a of
            (Inl e, _) \<Rightarrow> Inl e
          | (Inr _, b) \<Rightarrow> Inr (la_store (if gap = int (length LOCAL_STEPS) then foreign_put ''foreign'' b else b)))"

definition violation :: "event \<Rightarrow> bool" where
  "violation e \<longleftrightarrow> ev_actor e = ''local'' \<and> ev_previous e = Some ''foreign''"

definition violations :: "name_store \<Rightarrow> string list" where
  "violations s = map (\<lambda>e. if ev_operation e = ''put'' then ''foreign_overwritten'' else ''foreign_deleted'')
     (filter violation (ns_events s))"

text \<open>The checkpoints of the boundary without local writes.\<close>

definition mutation_free_boundary :: "int \<Rightarrow> bool \<Rightarrow> name_store res" where
  "mutation_free_boundary gap present =
     (if \<not> valid_gap gap then Inl (Refused ''invalid_model_gap'')
      else Inr (foldl (\<lambda>s index. if gap = int index then put_secret ''foreign'' s else s)
        (new_store_named ''FGA_FIXED_ORIGIN_CAPABILITY'' (if present then Some ''foreign-initial'' else None))
        [0..<length LOCAL_STEPS + 1]))"


section \<open>Metadata is blind to the lineage\<close>

text \<open>Two attempts that differ in nothing but the lineages.\<close>

definition alike :: "local_attempt \<Rightarrow> local_attempt \<Rightarrow> bool" where
  "alike a b \<longleftrightarrow> ns_name (la_store a) = ns_name (la_store b) \<and> metadata (la_store a) = metadata (la_store b) \<and>
     map (\<lambda>e. (ev_operation e, ev_previous e = None)) (ns_events (la_store a)) =
       map (\<lambda>e. (ev_operation e, ev_previous e = None)) (ns_events (la_store b)) \<and>
     la_locked a = la_locked b \<and> la_absent a = la_absent b \<and> la_acknowledged a = la_acknowledged b \<and>
     la_cleanup a = la_cleanup b \<and> la_refused a = la_refused b"

lemma alike_iff:
  "alike \<lparr>la_store = \<lparr>ns_name = n, ns_lineage = l, ns_events = es\<rparr>, la_locked = k, la_absent = ab, la_acknowledged = ack,
       la_cleanup = c, la_refused = r\<rparr> b \<longleftrightarrow>
     (\<exists>l' es'. b = \<lparr>la_store = \<lparr>ns_name = n, ns_lineage = l', ns_events = es'\<rparr>, la_locked = k, la_absent = ab,
       la_acknowledged = ack, la_cleanup = c, la_refused = r\<rparr> \<and> (l' = None \<longleftrightarrow> l = None) \<and>
       map (\<lambda>e. (ev_operation e, ev_previous e = None)) es = map (\<lambda>e. (ev_operation e, ev_previous e = None)) es')"
  by (cases b; cases "la_store b") (auto simp: alike_def metadata_def)

lemma alike_cases:
  assumes "alike a b"
  obtains n l l' es es' k ab ack c r where
    "a = \<lparr>la_store = \<lparr>ns_name = n, ns_lineage = l, ns_events = es\<rparr>, la_locked = k, la_absent = ab, la_acknowledged = ack,
       la_cleanup = c, la_refused = r\<rparr>"
    "b = \<lparr>la_store = \<lparr>ns_name = n, ns_lineage = l', ns_events = es'\<rparr>, la_locked = k, la_absent = ab, la_acknowledged = ack,
       la_cleanup = c, la_refused = r\<rparr>" "(l' = None) = (l = None)"
    "map (\<lambda>e. (ev_operation e, ev_previous e = None)) es = map (\<lambda>e. (ev_operation e, ev_previous e = None)) es'"
proof -
  obtain st k ab ack c r where a: "a = \<lparr>la_store = st, la_locked = k, la_absent = ab, la_acknowledged = ack, la_cleanup = c, la_refused = r\<rparr>"
    by (cases a) auto
  obtain n l es where st: "st = \<lparr>ns_name = n, ns_lineage = l, ns_events = es\<rparr>" by (cases st) auto
  from assms that show ?thesis unfolding a st alike_iff by blast
qed

lemma alike_step:
  assumes "alike a b"
  shows "fst (local_step op a) = fst (local_step op b) \<and> alike (snd (local_step op a)) (snd (local_step op b))"
  using assms
  by (rule alike_cases)
     (simp add: local_step_def Let_def put_secret_def delete_secret_def metadata_def alike_iff split: if_splits)

lemma alike_foreign: "alike a b \<Longrightarrow> alike (foreign_put x a) (foreign_put y b)"
  by (erule alike_cases) (simp add: foreign_put_def put_secret_def alike_iff)

text \<open>Any order of local steps and foreign writers, with the answers of the local steps.\<close>

datatype move = Local string | Foreign string

definition move_step :: "move \<Rightarrow> local_attempt \<times> unit res list \<Rightarrow> local_attempt \<times> unit res list" where
  "move_step m y = (case y of (a, rs) \<Rightarrow> case m of
     Local op \<Rightarrow> (case local_step op a of (r, b) \<Rightarrow> (b, rs @ [r]))
   | Foreign actor \<Rightarrow> (foreign_put actor a, rs))"

definition moves_from :: "local_attempt \<Rightarrow> move list \<Rightarrow> local_attempt \<times> unit res list" where
  "moves_from a ms = fold move_step ms (a, [])"

lemma alike_moves:
  "alike a b \<Longrightarrow> map (\<lambda>m. case m of Local op \<Rightarrow> Some op | Foreign _ \<Rightarrow> None) ms =
       map (\<lambda>m. case m of Local op \<Rightarrow> Some op | Foreign _ \<Rightarrow> None) ns \<Longrightarrow>
     snd (fold move_step ms (a, rs)) = snd (fold move_step ns (b, rs)) \<and>
     alike (fst (fold move_step ms (a, rs))) (fst (fold move_step ns (b, rs)))"
proof (induction ms arbitrary: ns a b rs)
  case (Cons m ms)
  then obtain n ns' where ns: "ns = n # ns'" by (cases ns) auto
  show ?case
  proof (cases m)
    case (Local op)
    with Cons.prems(2) have n: "n = Local op" by (auto simp: ns split: move.splits)
    obtain r a' where a: "local_step op a = (r, a')" by force
    obtain r' b' where b: "local_step op b = (r', b')" by force
    have "r' = r" "alike a' b'" using alike_step [OF Cons.prems(1), of op] by (simp_all add: a b)
    with Cons.IH [OF this(2), of ns' "rs @ [r]"] Cons.prems(2) show ?thesis
      by (simp add: ns n Local move_step_def a b)
  next
    case (Foreign x)
    with Cons.prems(2) obtain y where n: "n = Foreign y" by (auto simp: ns split: move.splits)
    from Cons.IH [OF alike_foreign [OF Cons.prems(1), of x y], of ns' rs] Cons.prems(2) show ?thesis
      by (simp add: ns n Foreign move_step_def)
  qed
qed simp


section \<open>The properties\<close>

text \<open>A foreign writer between the absence check and the local put is overwritten, one
  between the put and the delete is deleted in spite of the metadata recheck, and one before or after
  is not touched; any other gap is refused.\<close>

theorem interleaving_violations:
  "(case interleaving gap name of Inl e \<Rightarrow> Inl e | Inr s \<Rightarrow> Inr (violations s)) =
     (if gap < 0 \<or> 4 < gap then Inl (Refused ''invalid_model_gap'')
      else Inr (if gap = 1 then [''foreign_overwritten''] else if gap = 2 \<or> gap = 3 then [''foreign_deleted''] else []))"
proof (cases "gap < 0 \<or> 4 < gap")
  case True
  then show ?thesis by (auto simp: interleaving_def valid_gap_def LOCAL_STEPS_def)
next
  case False
  then have "gap = 0 \<or> gap = 1 \<or> gap = 2 \<or> gap = 3 \<or> gap = 4" by arith
  then show ?thesis
    by (elim disjE)
       (simp_all add: interleaving_def valid_gap_def LOCAL_STEPS_def acquire_def new_attempt_def new_store_named_def
          local_step_def metadata_def put_secret_def delete_secret_def foreign_put_def violations_def violation_def act_simps)
qed

text \<open>No local rule can tell whose secret it deletes: two runs of any local steps and
  foreign writers that differ only in who the foreign writers are, and in who wrote what was there
  before, answer every local step alike and perform the same local writes.\<close>

theorem metadata_is_blind:
  assumes "alike a b"
    and "map (\<lambda>m. case m of Local op \<Rightarrow> Some op | Foreign _ \<Rightarrow> None) ms =
      map (\<lambda>m. case m of Local op \<Rightarrow> Some op | Foreign _ \<Rightarrow> None) ns"
  shows "snd (moves_from a ms) = snd (moves_from b ns) \<and> alike (fst (moves_from a ms)) (fst (moves_from b ns))"
  using alike_moves [OF assms, of "[]"] by (simp add: moves_from_def)

theorem metadata_is_blind_witness:
  "snd (moves_from (snd (acquire (new_attempt (new_store_named ''n'' None)))) [Local ''absence'', Local ''put'', Foreign ''foreign'', Local ''delete'']) =
   snd (moves_from (snd (acquire (new_attempt (new_store_named ''n'' None)))) [Local ''absence'', Local ''put'', Foreign ''local'', Local ''delete''])"
  by (rule conjunct1 [OF metadata_is_blind]) (simp_all add: alike_def)

text \<open>A boundary without local writes never harms a foreign secret, at any gap.\<close>

theorem mutation_free_is_harmless:
  "(case mutation_free_boundary gap present of Inl e \<Rightarrow> Inl e | Inr s \<Rightarrow> Inr (violations s, metadata s)) =
     (if gap < 0 \<or> 4 < gap then Inl (Refused ''invalid_model_gap'') else Inr ([], Some ''FGA_FIXED_ORIGIN_CAPABILITY''))"
proof (cases "gap < 0 \<or> 4 < gap")
  case True
  then show ?thesis by (auto simp: mutation_free_boundary_def valid_gap_def LOCAL_STEPS_def)
next
  case False
  then have "gap = 0 \<or> gap = 1 \<or> gap = 2 \<or> gap = 3 \<or> gap = 4" by arith
  then show ?thesis
    by (elim disjE)
       (simp_all add: mutation_free_boundary_def valid_gap_def LOCAL_STEPS_def upt_rec put_secret_def new_store_named_def
          violations_def violation_def metadata_def)
qed

end
