(* ===== verification/Budget_Schedule.thy ===== *)
theory Budget_Schedule
  imports Encoding "HOL-Library.Multiset"
begin

text \<open>
  The fixed-origin budget witness (\<open>scripts/fixed_origin_schedule.py\<close>): the finite accounting
  plan of each profile, the closed comparison with it, and the validator that exposes the
  known minima. Plans are JSON values; a Python dict is the list of its items in order.
\<close>

section \<open>Observations\<close>

definition HANDLER_CASES :: "string list" where
  "HANDLER_CASES = [''png'', ''jpeg'', ''exact-limit'', ''declared-excess'', ''undeclared-excess'', ''upstream-error'',
     ''truncation'', ''wrong-media'', ''wrong-signature'', ''redirect'', ''stall'', ''missing-auth'', ''bad-auth'',
     ''bad-query'', ''final-installation'', ''final-link'', ''final-grant'', ''foreign-identity'', ''private-photo'',
     ''foreign-destination'']"

definition EDGE_CASES :: "string list" where
  "EDGE_CASES = [''edge-redirect-301'', ''edge-redirect-302'', ''edge-redirect-303'', ''edge-redirect-307'',
     ''edge-redirect-308'', ''edge-wrong-media'', ''edge-malformed-png'', ''edge-truncated-png'',
     ''edge-declared-excess'', ''edge-undeclared-excess'']"

definition LIMITS :: "(string \<times> json) list" where
  "LIMITS = [(''fga'', JInt 96), (''receiver'', JInt 16), (''inner_ms'', JInt 600000), (''outer_ms'', JInt 1200000)]"

definition UNBUDGETED_LIVE :: "string list" where
  "UNBUDGETED_LIVE = [''native-decoder-png-jpeg-boundary'', ''backend-abort-disconnect'',
     ''temporary-exact-public-https-conformance'', ''rollback-exact-public-https-conformance'',
     ''current-provider-capture-and-edge-readback'', ''provider-secret-restoration-cases-a-b'',
     ''ordinary-authenticated-safe-reads'', ''production-state-and-paused-gates'',
     ''disable-restore-delete-independent-readbacks'']"

definition OFFLINE_ONLY :: "string list" where
  "OFFLINE_ONLY = [''source-matrix-unit-tests'', ''synthetic-lua-transport-tests'', ''compiled-route-inventory'',
     ''exact-configuration-projection'', ''development-http-conformance'', ''artifact-digest-binding'']"

definition REQUIRED_OBSERVATIONS :: "string list" where
  "REQUIRED_OBSERVATIONS = map ((@) ''fault:'') (HANDLER_CASES @ EDGE_CASES) @
     [''browser-navigation'', ''cancel-during-get'', ''stale-result'', ''redirect-arrivals'', ''receiver-report''] @
     UNBUDGETED_LIVE @ OFFLINE_ONLY"


section \<open>Building a plan\<close>

definition observation_row :: "string \<Rightarrow> string \<Rightarrow> json \<Rightarrow> json \<Rightarrow> json \<Rightarrow> (string \<times> json) list" where
  "observation_row i kind fga receiver native = [(''id'', JStr i), (''kind'', JStr kind), (''fga'', fga),
     (''receiver'', receiver), (''native_invocations'', native)]"

text \<open>\<open>row[k] = v\<close>: an existing key keeps its place.\<close>

fun set_key :: "string \<Rightarrow> json \<Rightarrow> (string \<times> json) list \<Rightarrow> (string \<times> json) list" where
  "set_key k v [] = [(k, v)]"
| "set_key k v ((a, b) # xs) = (if a = k then (a, v) # xs else (a, b) # set_key k v xs)"

definition fault_rows :: "bool \<Rightarrow> (string \<times> json) list list" where
  "fault_rows proposed = map (\<lambda>c. observation_row (''fault:'' @ c) ''live'' (JInt (if proposed then 2 else 4)) (JInt 0)
     (JInt (if proposed then 0 else 1))) (HANDLER_CASES @ EDGE_CASES)"

definition program_rows :: "bool \<Rightarrow> (string \<times> json) list list" where
  "program_rows proposed = (let native = JInt (if proposed then 0 else 1) in
     [observation_row ''browser-navigation'' ''live'' (JInt 16) (JInt 0) native,
      observation_row ''cancel-during-get'' ''live'' (JInt 4) (JInt 0) native,
      observation_row ''stale-result'' ''live'' (JInt 4) (JInt 0) native,
      observation_row ''redirect-arrivals'' ''live'' (JInt 5) (JInt 5) (JInt 0),
      observation_row ''receiver-report'' ''live'' (JInt 1) (JInt 1) (JInt 0)])"

definition proposed_live :: "bool \<Rightarrow> string \<Rightarrow> bool" where
  "proposed_live proposed k \<longleftrightarrow> proposed \<and> k \<in> {''native-decoder-png-jpeg-boundary'', ''backend-abort-disconnect''}"

definition live_rows :: "bool \<Rightarrow> (string \<times> json) list list" where
  "live_rows proposed = map (\<lambda>k. observation_row k
     (if proposed_live proposed k then ''live'' else ''live-unbudgeted'')
     (if proposed_live proposed k then JInt (if k = ''backend-abort-disconnect'' then 4 else 0) else JNull)
     (if proposed_live proposed k then JInt 0 else JNull) JNull) UNBUDGETED_LIVE"

text \<open>The first row with an identity, changed.\<close>

fun update_row :: "string \<Rightarrow> ((string \<times> json) list \<Rightarrow> (string \<times> json) list) \<Rightarrow> (string \<times> json) list list \<Rightarrow> (string \<times> json) list list" where
  "update_row i f [] = []"
| "update_row i f (r # rs) = (if map_of r ''id'' = Some (JStr i) then f r # rs else r # update_row i f rs)"

definition drivers :: "(string \<times> json) list list \<Rightarrow> (string \<times> json) list list" where
  "drivers rows =
     update_row ''backend-abort-disconnect''
       (\<lambda>r. set_key ''native_invocations'' (JInt 0) (set_key ''driver'' (JStr ''proposed-independent-fixed-path-disconnect'') r))
     (update_row ''native-decoder-png-jpeg-boundary''
       (\<lambda>r. set_key ''native_invocations'' (JInt 0)
          (set_key ''coverage'' (JArr [JStr ''fault:png'', JStr ''fault:jpeg'', JStr ''fault:exact-limit'']) r)) rows)"

definition offline_rows :: "(string \<times> json) list list" where
  "offline_rows = map (\<lambda>k. observation_row k ''offline-only'' (JInt 0) (JInt 0) (JInt 0)) OFFLINE_ONLY"

definition observations :: "bool \<Rightarrow> (string \<times> json) list list" where
  "observations proposed =
     (let rows = fault_rows proposed @ program_rows proposed @ live_rows proposed in
      (if proposed then drivers rows else rows) @ offline_rows)"

definition PROFILES :: "string list" where
  "PROFILES = [''current'', ''proposed-shared-discovery'']"

definition build_schedule :: "string \<Rightarrow> (string \<times> json) list res" where
  "build_schedule profile =
     bind_res (require (profile \<in> set PROFILES) ''unknown_profile'') (\<lambda>_.
     let proposed = profile \<noteq> ''current'' in
     Inr [(''schema_version'', JInt 1), (''profile'', JStr profile), (''limits'', JObj LIMITS), (''attempts'', JInt 1),
       (''consumed_targets'', JInt 1), (''retries'', JInt 0), (''namespace_resets'', JInt 0),
       (''shared_discovery_fga'', JInt (if proposed then 2 else 0)),
       (''program_native_invocations'', JInt (if proposed then 1 else 0)), (''report_reserved_fga'', JInt 1),
       (''report_reserved_receiver'', JInt 1), (''stop_before_ms'', JInt 600000), (''cleanup_reserve_ms'', JInt 600000),
       (''hard_native_total_deadline_proven'', JBool False), (''source_supports_program'', JBool False),
       (''execution_authorized'', JBool False), (''observations'', JArr (map JObj (observations proposed)))])"


section \<open>The closed comparison\<close>

text \<open>\<open>_same_closed_value\<close>: same types throughout, the keys of a dict in any order.\<close>

function same_closed :: "json \<Rightarrow> json \<Rightarrow> bool" where
  "same_closed a (JObj es) = (case a of
     JObj as \<Rightarrow> set (map fst as) = set (map fst es) \<and>
       list_all (\<lambda>(k, v). case map_of as k of None \<Rightarrow> False | Some w \<Rightarrow> same_closed w v) es
   | _ \<Rightarrow> False)"
| "same_closed a (JArr es) = (case a of
     JArr as \<Rightarrow> length as = length es \<and> list_all (\<lambda>(x, e). same_closed x e) (zip as es) | _ \<Rightarrow> False)"
| "same_closed a JNull = (a = JNull)"
| "same_closed a (JBool b) = (a = JBool b)"
| "same_closed a (JInt n) = (a = JInt n)"
| "same_closed a (JStr s) = (a = JStr s)"
  by pat_completeness auto
termination
proof (relation "measure (\<lambda>(a, e). size e)")
  fix es :: "(string \<times> json) list" and p k v
  assume "p \<in> set es" "(k, v) = p"
  then show "\<And>a as w. ((w, v), a, JObj es) \<in> measure (\<lambda>(a, e). size e)"
    by (induction es) (auto simp: size_prod_def)
next
  fix as es :: "json list" and p x e
  assume "p \<in> set (zip as es)" "(x, e) = p"
  then have "e \<in> set es" by (auto dest: set_zip_rightD)
  then show "\<And>a. ((x, e), a, JArr es) \<in> measure (\<lambda>(a, e). size e)" by (induction es) auto
qed simp


section \<open>Validation\<close>

text \<open>\<open>row[k] or 0\<close>\<close>

definition int_or_zero :: "(string \<times> json) list \<Rightarrow> string \<Rightarrow> int" where
  "int_or_zero r k = (case map_of r k of Some (JInt n) \<Rightarrow> n | _ \<Rightarrow> 0)"

definition row_id :: "(string \<times> json) list \<Rightarrow> string" where
  "row_id r = (case map_of r ''id'' of Some (JStr s) \<Rightarrow> s | _ \<Rightarrow> [])"

definition total_of :: "string \<Rightarrow> (string \<times> json) list list \<Rightarrow> int" where
  "total_of k rows = sum_list (map (\<lambda>r. int_or_zero r k) rows)"

record accounting =
  ac_fga :: int
  ac_receiver :: int
  ac_native :: int
  ac_fault_fga :: int
  ac_unbudgeted :: "string list"

definition account :: "(string \<times> json) list \<Rightarrow> (string \<times> json) list list \<Rightarrow> accounting" where
  "account expected rows = \<lparr>
     ac_fga = total_of ''fga'' rows + int_or_zero expected ''shared_discovery_fga'',
     ac_receiver = total_of ''receiver'' rows,
     ac_native = total_of ''native_invocations'' rows + int_or_zero expected ''program_native_invocations'',
     ac_fault_fga = total_of ''fga'' (filter (\<lambda>r. take 6 (row_id r) = ''fault:'') rows),
     ac_unbudgeted = map row_id (filter (\<lambda>r. map_of r ''kind'' = Some (JStr ''live-unbudgeted'')) rows)\<rparr>"

definition accounting_json :: "accounting \<Rightarrow> json" where
  "accounting_json a = JObj [(''known_fga'', JInt (ac_fga a)), (''known_receiver'', JInt (ac_receiver a)),
     (''known_native_invocations'', JInt (ac_native a)), (''fault_fga'', JInt (ac_fault_fga a)),
     (''unbudgeted_live'', JArr (map JStr (ac_unbudgeted a))), (''complete_accounting'', JBool False)]"

definition plan_profile :: "json \<Rightarrow> string option" where
  "plan_profile plan = (case plan of
     JObj kvs \<Rightarrow> (case map_of kvs ''profile'' of Some (JStr p) \<Rightarrow> if p \<in> set PROFILES then Some p else None | _ \<Rightarrow> None)
   | _ \<Rightarrow> None)"

definition schedule_errors :: "json \<Rightarrow> string \<Rightarrow> (string \<times> json) list \<Rightarrow> accounting \<Rightarrow> string list" where
  "schedule_errors plan profile expected a =
     (if same_closed plan (JObj expected) then [] else [''closed_plan_mismatch'']) @
     (if ac_fga a > int_or_zero LIMITS ''fga'' then [''fga_budget_exceeded''] else []) @
     (if ac_native a > int_or_zero expected ''consumed_targets''
      then [''consumed_target_cannot_cover_invocations''] else []) @
     (if profile \<noteq> ''current'' then [''proposed_program_source_unimplemented''] else []) @
     [''required_live_observations_unbudgeted'', ''native_total_deadline_unproven'', ''execution_authorization_absent'']"

definition expected_rows :: "(string \<times> json) list \<Rightarrow> (string \<times> json) list list" where
  "expected_rows expected = (case map_of expected ''observations'' of
     Some (JArr rows) \<Rightarrow> map (\<lambda>r. case r of JObj kvs \<Rightarrow> kvs | _ \<Rightarrow> []) rows | _ \<Rightarrow> [])"

definition verdict :: "string list \<Rightarrow> json \<Rightarrow> json" where
  "verdict errors a = JObj [(''decision'', JStr ''no-go''), (''errors'', JArr (map JStr errors)), (''accounting'', a),
     (''deployment_allowed'', JBool False), (''hosted_qualified'', JBool False), (''native_qualified'', JBool False)]"

definition validate_schedule :: "json \<Rightarrow> json res" where
  "validate_schedule plan = (case plan_profile plan of
     None \<Rightarrow> Inr (JObj [(''decision'', JStr ''no-go''), (''errors'', JArr [JStr ''invalid_plan'']), (''accounting'', JObj [])])
   | Some p \<Rightarrow> bind_res (build_schedule p) (\<lambda>expected.
       let a = account expected (expected_rows expected) in
       Inr (verdict (schedule_errors plan p expected a) (accounting_json a))))"

text \<open>The command: the value it prints, and its exit code.\<close>

definition schedule_main :: "string \<Rightarrow> (json \<times> int) res" where
  "schedule_main profile =
     bind_res (build_schedule profile) (\<lambda>plan.
     bind_res (validate_schedule (JObj plan)) (\<lambda>v. Inr (v, 2)))"


section \<open>The comparison is equality up to the order of keys\<close>

text \<open>Values whose dicts have distinct keys, and their form with sorted keys.\<close>

fun unique_keys :: "json \<Rightarrow> bool" where
  "unique_keys (JObj es) \<longleftrightarrow> distinct (map fst es) \<and> list_all (\<lambda>(k, v). unique_keys v) es"
| "unique_keys (JArr es) \<longleftrightarrow> list_all unique_keys es"
| "unique_keys _ \<longleftrightarrow> True"

fun canon :: "json \<Rightarrow> json" where
  "canon (JObj es) = JObj (sort_key fst (map (\<lambda>(k, v). (k, canon v)) es))"
| "canon (JArr es) = JArr (map canon es)"
| "canon x = x"

lemma sort_key_alist:
  assumes "distinct (map fst xs)" and "distinct (map fst ys)"
  shows "sort_key fst xs = sort_key fst ys \<longleftrightarrow> map_of xs = map_of ys"
proof
  assume "sort_key fst xs = sort_key fst ys"
  then have "set xs = set ys" by (metis set_sort)
  then show "map_of xs = map_of ys" using map_of_inject_set [OF assms] by simp
next
  assume "map_of xs = map_of ys"
  then have "set xs = set ys" using map_of_inject_set [OF assms] by simp
  moreover have "distinct xs" "distinct ys" using assms by (simp_all add: distinct_map)
  ultimately have "mset xs = mset ys" by (simp add: set_eq_iff_mset_eq_distinct)
  then show "sort_key fst xs = sort_key fst ys"
    using assms(1) by (intro sort_key_inj_key_eq) (simp_all add: distinct_map)
qed

lemma map_of_canon: "map_of (map (\<lambda>(k, v). (k, f v)) xs) k = map_option f (map_of xs k)"
  by (induction xs) auto

lemma canon_obj:
  assumes "distinct (map fst as)" and "distinct (map fst es)"
  shows "canon (JObj as) = canon (JObj es) \<longleftrightarrow> (\<forall>k. map_option canon (map_of as k) = map_option canon (map_of es k))"
proof -
  have keys: "map fst (map (\<lambda>(k, v). (k, canon v)) xs) = map fst xs" for xs by (induction xs) auto
  have "canon (JObj as) = canon (JObj es) \<longleftrightarrow>
      map_of (map (\<lambda>(k, v). (k, canon v)) as) = map_of (map (\<lambda>(k, v). (k, canon v)) es)"
    using sort_key_alist [of "map (\<lambda>(k, v). (k, canon v)) as" "map (\<lambda>(k, v). (k, canon v)) es"] assms
    by (simp only: canon.simps json.inject keys)
  then show ?thesis by (simp only: fun_eq_iff map_of_canon)
qed

lemma same_closed_canon:
  "unique_keys a \<Longrightarrow> unique_keys e \<Longrightarrow> same_closed a e \<longleftrightarrow> canon a = canon e"
proof (induction a e rule: same_closed.induct)
  case (1 a es)
  show ?case
  proof (cases a)
    case (JObj as)
    have d: "distinct (map fst as)" "distinct (map fst es)" using 1(2,3) by (simp_all add: JObj)
    have v: "same_closed w v \<longleftrightarrow> canon w = canon v" if "(k, v) \<in> set es" "map_of as k = Some w" for k v w
    proof -
      have "unique_keys w" using 1(2) that(2) by (auto simp: JObj list_all_iff dest!: map_of_SomeD)
      moreover have "unique_keys v" using 1(3) that(1) by (auto simp: list_all_iff)
      ultimately show ?thesis using 1(1) [OF JObj that(1) refl that(2)] by simp
    qed
    have "same_closed a (JObj es) \<longleftrightarrow> dom (map_of as) = dom (map_of es) \<and>
        (\<forall>(k, v)\<in>set es. \<exists>w. map_of as k = Some w \<and> canon w = canon v)"
    proof -
      have "(case p of (k, x) \<Rightarrow> case map_of as k of None \<Rightarrow> False | Some w \<Rightarrow> same_closed w x) \<longleftrightarrow>
          (case p of (k, x) \<Rightarrow> \<exists>w. map_of as k = Some w \<and> canon w = canon x)" if "p \<in> set es" for p
        using v that by (cases p; cases "map_of as (fst p)") auto
      then show ?thesis by (simp add: JObj list_all_iff dom_map_of_conv_image_fst cong: ball_cong)
    qed
    also have "\<dots> \<longleftrightarrow> (\<forall>k. map_option canon (map_of as k) = map_option canon (map_of es k))"
    proof (intro iffI conjI allI ballI)
      fix k
      assume *: "dom (map_of as) = dom (map_of es) \<and> (\<forall>(k, v)\<in>set es. \<exists>w. map_of as k = Some w \<and> canon w = canon v)"
      show "map_option canon (map_of as k) = map_option canon (map_of es k)"
      proof (cases "map_of es k")
        case None
        then have "map_of as k = None" using * by (metis domIff)
        with None show ?thesis by simp
      next
        case (Some v)
        with * show ?thesis by (auto dest!: map_of_SomeD)
      qed
    next
      assume *: "\<forall>k. map_option canon (map_of as k) = map_option canon (map_of es k)"
      then have "map_of as k = None \<longleftrightarrow> map_of es k = None" for k by (metis option.map_disc_iff)
      then show "dom (map_of as) = dom (map_of es)" by (auto simp: dom_def)
      fix p assume "p \<in> set es"
      then have "map_of es (fst p) = Some (snd p)" using map_of_is_SomeI [OF d(2), of "fst p" "snd p"] by simp
      with spec [OF *, of "fst p"] have "map_option canon (map_of as (fst p)) = Some (canon (snd p))" by simp
      then obtain w where "map_of as (fst p) = Some w" "canon w = canon (snd p)" by auto
      then show "case p of (k, v) \<Rightarrow> \<exists>w. map_of as k = Some w \<and> canon w = canon v" by (cases p) simp
    qed
    finally show ?thesis using canon_obj [OF d] by (simp only: JObj)
  qed auto
next
  case (2 a es)
  show ?case
  proof (cases a)
    case (JArr as)
    have "same_closed x e \<longleftrightarrow> canon x = canon e" if "(x, e) \<in> set (zip as es)" for x e
      using 2(1) [OF JArr that refl] 2(2,3) that by (auto simp: JArr list_all_iff dest: set_zip_leftD set_zip_rightD)
    then have "same_closed a (JArr es) \<longleftrightarrow> length as = length es \<and> (\<forall>(x, e)\<in>set (zip as es). canon x = canon e)"
      by (auto simp: JArr list_all_iff)
    also have "\<dots> \<longleftrightarrow> list_all2 (\<lambda>x e. canon x = canon e) as es" by (simp add: list_all2_iff)
    also have "\<dots> \<longleftrightarrow> map canon as = map canon es" by (simp add: list_all2_map1 list_all2_map2 list.rel_eq [symmetric])
    finally show ?thesis by (simp add: JArr)
  qed auto
next
  case (3 a) then show ?case by (cases a) auto
next
  case (4 a b) then show ?case by (cases a) auto
next
  case (5 a n) then show ?case by (cases a) auto
next
  case (6 a s) then show ?case by (cases a) auto
qed


section \<open>The built plans\<close>

declare same_closed.simps [simp del]

definition schedule_of :: "string \<Rightarrow> (string \<times> json) list" where
  "schedule_of p = (case build_schedule p of Inr e \<Rightarrow> e | Inl _ \<Rightarrow> [])"

lemma build_profiles: "p \<in> set PROFILES \<Longrightarrow> build_schedule p = Inr (schedule_of p)"
  by (auto simp: schedule_of_def build_schedule_def require_def Let_def)

lemmas schedule_defs = schedule_of_def build_schedule_def require_def Let_def PROFILES_def

lemma expected_rows_schedule: "p \<in> set PROFILES \<Longrightarrow> expected_rows (schedule_of p) = observations (p \<noteq> ''current'')"
  by (auto simp: expected_rows_def schedule_defs comp_def)

lemma unique_schedule:
  assumes "p \<in> set PROFILES"
  shows "unique_keys (JObj (schedule_of p))"
proof -
  have "list_all (\<lambda>r. unique_keys (JObj r)) (observations True)" by code_simp
  moreover have "list_all (\<lambda>r. unique_keys (JObj r)) (observations False)" by code_simp
  ultimately have "list_all (\<lambda>r. unique_keys (JObj r)) (observations b)" for b by (cases b) simp_all
  then have "list_all unique_keys (map JObj (observations b))" for b by (simp add: list_all_iff)
  with assms show ?thesis by (auto simp: schedule_defs LIMITS_def)
qed

lemma accounts:
  "account (schedule_of ''current'') (observations False) =
     \<lparr>ac_fga = 150, ac_receiver = 6, ac_native = 33, ac_fault_fga = 120, ac_unbudgeted = UNBUDGETED_LIVE\<rparr>"
  "account (schedule_of ''proposed-shared-discovery'') (observations True) =
     \<lparr>ac_fga = 96, ac_receiver = 6, ac_native = 1, ac_fault_fga = 60, ac_unbudgeted = drop 2 UNBUDGETED_LIVE\<rparr>"
  by code_simp+

lemma schedule_closed: "p \<in> set PROFILES \<Longrightarrow> same_closed (JObj (schedule_of p)) (JObj (schedule_of p))"
  using same_closed_canon [OF unique_schedule unique_schedule] by simp

lemma schedule_command:
  assumes "p \<in> set PROFILES"
  shows "schedule_main p = Inr (verdict (schedule_errors (JObj (schedule_of p)) p (schedule_of p)
      (account (schedule_of p) (observations (p \<noteq> ''current''))))
     (accounting_json (account (schedule_of p) (observations (p \<noteq> ''current'')))), 2)"
proof -
  have "plan_profile (JObj (schedule_of p)) = Some p" using assms by (auto simp: plan_profile_def schedule_defs)
  then show ?thesis
    using assms by (simp add: schedule_main_def build_profiles validate_schedule_def expected_rows_schedule Let_def)
qed


section \<open>The properties\<close>

text \<open>The closed comparison accepts exactly the built plan up to the order of keys: on
  JSON values whose dicts have distinct keys it is equality of the values with sorted keys.\<close>

theorem closed_comparison_is_equality:
  assumes "unique_keys a" and "unique_keys e"
  shows "same_closed a e \<longleftrightarrow> canon a = canon e"
  by (rule same_closed_canon [OF assms])

theorem closed_comparison_is_equality_witness:
  "same_closed (JObj [(''b'', JInt 1), (''a'', JBool True)]) (JObj [(''a'', JBool True), (''b'', JInt 1)]) \<and>
   \<not> same_closed (JObj [(''a'', JInt 1)]) (JObj [(''a'', JBool True)])"
  using closed_comparison_is_equality [of "JObj [(''b'', JInt 1), (''a'', JBool True)]" "JObj [(''a'', JBool True), (''b'', JInt 1)]"]
    closed_comparison_is_equality [of "JObj [(''a'', JInt 1)]" "JObj [(''a'', JBool True)]"]
  by (simp add: insort_key_def)

text \<open>No plan is ever allowed: every plan is answered no-go; one of a known profile with the
  accounting of that profile, the drift of the plan reported exactly when it differs from the built one, the
  budget of 96 exceeded by the current profile (150) and met by the proposed one, and the three standing
  obstacles always reported.\<close>

theorem schedule_verdict:
  "validate_schedule plan = Inr (case plan_profile plan of
     None \<Rightarrow> JObj [(''decision'', JStr ''no-go''), (''errors'', JArr [JStr ''invalid_plan'']), (''accounting'', JObj [])]
   | Some p \<Rightarrow> verdict ((if same_closed plan (JObj (schedule_of p)) then [] else [''closed_plan_mismatch'']) @
       (if p = ''current'' then [''fga_budget_exceeded'', ''consumed_target_cannot_cover_invocations'']
        else [''proposed_program_source_unimplemented'']) @
       [''required_live_observations_unbudgeted'', ''native_total_deadline_unproven'', ''execution_authorization_absent''])
       (accounting_json (if p = ''current''
         then \<lparr>ac_fga = 150, ac_receiver = 6, ac_native = 33, ac_fault_fga = 120, ac_unbudgeted = UNBUDGETED_LIVE\<rparr>
         else \<lparr>ac_fga = 96, ac_receiver = 6, ac_native = 1, ac_fault_fga = 60, ac_unbudgeted = drop 2 UNBUDGETED_LIVE\<rparr>)))"
proof (cases "plan_profile plan")
  case None
  then show ?thesis by (simp add: validate_schedule_def)
next
  case (Some p)
  then have p: "p \<in> set PROFILES" by (auto simp: plan_profile_def split: json.splits option.splits if_splits)
  have targets: "int_or_zero (schedule_of p) ''consumed_targets'' = 1" "int_or_zero LIMITS ''fga'' = 96"
    using p by (auto simp: schedule_defs int_or_zero_def LIMITS_def)
  consider "p = ''current''" | "p = ''proposed-shared-discovery''" using p by (auto simp: PROFILES_def)
  then show ?thesis
  proof cases
    case 1
    then show ?thesis
      using Some targets accounts(1) expected_rows_schedule [OF p] build_profiles [OF p]
      by (simp add: validate_schedule_def schedule_errors_def Let_def)
  next
    case 2
    then show ?thesis
      using Some targets accounts(2) expected_rows_schedule [OF p] build_profiles [OF p]
      by (simp add: validate_schedule_def schedule_errors_def Let_def)
  qed
qed

end
