(* ===== verification/Successor_Control.thy ===== *)
theory Successor_Control
  imports Operator_Control
begin

text \<open>
  The successor model (\<open>probes/pmb1-native-d1-binding/successor_control.py\<close>): the control
  protocol whose writer takes one exact two-statement batch, its qualification on a binding,
  and the append-only custodian that may retain what an invocation returned. The binding's
  ports, its local builder and the requests it recorded are the environment.
\<close>

section \<open>Environment\<close>

text \<open>
  The ports of the base protocol, the batch builder, the decoded evidence of the receipt of the
  last dispatch (\<open>None\<close> when it is not JSON), the requests recorded so far, and the binding's own
  guard. The observer wraps the rows it is given as complete.
\<close>

record menv =
  m_base :: cenv
  m_query :: "ctrace \<Rightarrow> string \<Rightarrow> tick \<Rightarrow> pyval list res"
  m_build :: "ctrace \<Rightarrow> intent \<Rightarrow> string res"
  m_decoded :: "ctrace \<Rightarrow> json option"
  m_requests :: "ctrace \<Rightarrow> json list"
  m_guard :: "ctrace \<Rightarrow> unit res"

definition observer_read :: "menv \<Rightarrow> ctrace \<Rightarrow> string \<Rightarrow> tick \<Rightarrow> reply res" where
  "observer_read env tr sql until = bind_res (m_query env tr sql until) (\<lambda>rows. Inr (CompleteRows rows (PBool True)))"

definition ports :: "menv \<Rightarrow> cenv" where
  "ports env = (m_base env)\<lparr>n_read := observer_read env\<rparr>"


section \<open>Dispatch of a batch\<close>

text \<open>
  A \<open>SyntheticBatchReceipt\<close> is the object with exactly a batch and a count; it must name the
  batch that was built, and count no row or one.
\<close>

definition batch_receipt :: "pyval \<Rightarrow> (pyval \<times> pyval) option" where
  "batch_receipt v = (case v of
     PDict [(a, x), (b, y)] \<Rightarrow> if a = ''batch'' \<and> b = ''count'' then Some (x, y) else None
   | _ \<Rightarrow> None)"

definition batch_count :: "string \<Rightarrow> pyval \<Rightarrow> int res" where
  "batch_count batch v = (case batch_receipt v of
     None \<Rightarrow> Inl (Refused ''distinct_exact_batch_receipt_required'')
   | Some (b, n) \<Rightarrow>
       if b \<noteq> PStr batch then Inl (Refused ''distinct_exact_batch_receipt_required'')
       else (case n of PInt k \<Rightarrow> if k \<in> {0, 1} then Inr k else Inl (Refused ''exact_batch_count'')
         | _ \<Rightarrow> Inl (Refused ''exact_batch_count'')))"

definition build_batch :: "menv \<Rightarrow> intent \<Rightarrow> (cstate, string) act" where
  "build_batch env i s = (m_build env (k_trace s) i, s)"

text \<open>The evidence of a confirmed result; \<open>start\<close> is how many requests were recorded before.\<close>

definition model_evidence :: "menv \<Rightarrow> ctrace \<Rightarrow> nat \<Rightarrow> (cstate, json) act" where
  "model_evidence env sent_at start s = (case m_decoded env sent_at of
     None \<Rightarrow> (Inl Crash, s)
   | Some v \<Rightarrow> (Inr (JObj [(''batch'', v),
       (''independentPrimaryRequests'', JArr (drop start (m_requests env (k_trace s)))),
       (''finalJournalAcknowledged'', JBool True), (''returnedAt'', JInt (k_last s))]), s))"

definition batch_dispatch :: "menv \<Rightarrow> control \<Rightarrow> intent \<Rightarrow> string \<Rightarrow> (cstate, pyval) act" where
  "batch_dispatch env c i batch =
     bind_act (check (ports env) c False i) (\<lambda>until.
     emit (\<lambda>tr. n_dispatch (ports env) tr i batch until) (CDispatch i batch until))"

definition model_settled :: "menv \<Rightarrow> control \<Rightarrow> intent \<Rightarrow> nat \<Rightarrow> ctrace \<Rightarrow> int \<Rightarrow> (cstate, result \<times> json option) act" where
  "model_settled env c i start sent_at count =
     (if count = 0 then
        then_act (settle_journal (ports env) c False i ''refused'')
       (then_act (check (ports env) c False i)
          (return_act (Result ''refused'' ''zero_affected_rows'', None)))
      else
        bind_act (observe (ports env) c False i) (\<lambda>observed.
        then_act (require_act (observed = (next_generation i, target i)) ''transition_readback_mismatch'')
       (then_act (settle_journal (ports env) c False i ''confirmed'')
       (then_act (check (ports env) c False i)
       (bind_act (model_evidence env sent_at start) (\<lambda>evidence.
        bind_act (gets_act k_last) (\<lambda>last.
          return_act (\<lparr>status = ''confirmed'', reason = ''one_row_and_independent_readback'',
            observed_generation = Some (fst observed), observed_state = Some (snd observed),
            confirmed_at = Some (Tick last)\<rparr>, Some evidence))))))))"

definition model_try :: "menv \<Rightarrow> control \<Rightarrow> intent \<Rightarrow> nat \<Rightarrow> (cstate, result \<times> json option) act" where
  "model_try env c i start =
     then_act (check (ports env) c False i)
    (bind_act (observe (ports env) c False i) (\<lambda>before.
     then_act (require_act (before = (expected i, before_state i)) ''stale_or_wrong_state'')
    (then_act (modify_act (\<lambda>s. s\<lparr>k_claimed := True\<rparr>))
    (bind_act (check (ports env) c False i) (\<lambda>until.
     bind_act (journal_call (ports env) c until (claim_dispatch (key i))) (\<lambda>won.
     then_act (require_act won ''dispatch_claim_unconfirmed'')
    (bind_act (build_batch env i) (\<lambda>batch.
     bind_act (batch_dispatch env c i batch) (\<lambda>receipt.
     bind_act (gets_act k_trace) (\<lambda>sent_at.
     then_act (check (ports env) c False i)
    (bind_act (lift_res (batch_count batch receipt)) (\<lambda>count.
     model_settled env c i start sent_at count))))))))))))"

definition model_failed :: "menv \<Rightarrow> control \<Rightarrow> intent \<Rightarrow> (cstate, result \<times> json option) act" where
  "model_failed env c i =
     bind_act (gets_act k_claimed) (\<lambda>claimed.
     let outcome = (if claimed then ''unknown'' else ''refused'') in
     then_act (catch_act (settle_journal (ports env) c True i outcome) (\<lambda>_. return_act ()))
       (return_act (Result outcome ''operation_unconfirmed'', None)))"

definition model_dispatch :: "menv \<Rightarrow> control \<Rightarrow> intent \<Rightarrow> (cstate, result \<times> json option) act" where
  "model_dispatch env c i =
     then_act (modify_act (\<lambda>s. s\<lparr>k_claimed := False\<rparr>))
    (bind_act (gets_act (\<lambda>s. length (m_requests env (k_trace s)))) (\<lambda>start.
     catch_act (model_try env c i start) (\<lambda>_. model_failed env c i)))"

text \<open>\<open>Adapter.execute\<close> with the overridden dispatch.\<close>

definition early :: "(cstate, result option) act \<Rightarrow> string \<Rightarrow> (cstate, result \<times> json option) act \<Rightarrow> (cstate, result \<times> json option) act" where
  "early reserve why dispatch =
     bind_act (catch_act reserve (\<lambda>_. return_act (Some (Result ''refused'' why)))) (\<lambda>r.
     case r of Some x \<Rightarrow> return_act (x, None) | None \<Rightarrow> dispatch)"

definition model_execute :: "menv \<Rightarrow> control \<Rightarrow> intent \<Rightarrow> (cstate, result \<times> json option) act" where
  "model_execute env c i = early (execute_reserve (ports env) c i) ''reservation_unconfirmed'' (model_dispatch env c i)"


section \<open>The custodian\<close>

record retained_row =
  rt_reference :: string
  rt_intent :: intent
  rt_result :: result
  rt_evidence :: json

record custody_file =
  cf_binding :: "(string \<times> string \<times> string) list"
  cf_receipts :: "retained_row list"

record custody =
  cy_packet :: string
  cy_target :: string
  cy_candidate :: string

text \<open>
  The file of the custodian (\<open>None\<close> when there is none), the clock of this instance and how many
  boundary calls it made, which is what its environment answers by: the clock, and what happens
  to an open or a commit.
\<close>

record custodian =
  cu_file :: "custody_file option"
  cu_last :: int
  cu_calls :: nat

datatype wfault = WCommits | WFails | WLosesAck | WDiesFirst | WDiesLast

record venv =
  v_clock :: "nat \<Rightarrow> tick res"
  v_open :: "nat \<Rightarrow> bool"
  v_write :: "nat \<Rightarrow> wfault"

definition tock :: "(nat \<Rightarrow> 'a) \<Rightarrow> (custodian, 'a) act" where
  "tock f u = (Inr (f (cu_calls u)), u\<lparr>cu_calls := Suc (cu_calls u)\<rparr>)"

definition custody_guard :: "venv \<Rightarrow> tick \<Rightarrow> (custodian, unit) act" where
  "custody_guard v deadline =
     bind_act (tock (v_clock v)) (\<lambda>reading.
     bind_act (lift_res reading) (\<lambda>now.
     bind_act (gets_act cu_last) (\<lambda>last.
     case (now, deadline) of
       (Tick n, Tick d) \<Rightarrow>
         then_act (require_act (0 \<le> n \<and> n < d \<and> last \<le> n) ''synthetic_custodian_deadline'')
           (modify_act (\<lambda>u. u\<lparr>cu_last := n\<rparr>))
     | _ \<Rightarrow> raise_act (Refused ''synthetic_custodian_deadline''))))"

text \<open>Exclusive creation: an existing file is never replaced.\<close>

definition custody_provision :: "venv \<Rightarrow> custody \<Rightarrow> tick \<Rightarrow> (custodian, unit) act" where
  "custody_provision v y deadline =
     then_act (custody_guard v deadline)
    (bind_act (gets_act cu_file) (\<lambda>file.
     if file \<noteq> None then raise_act Crash
     else then_act (modify_act (\<lambda>u. u\<lparr>cu_file := Some \<lparr>cf_binding = [(cy_packet y, cy_target y, cy_candidate y)],
         cf_receipts = []\<rparr>\<rparr>))
       (custody_guard v deadline)))"

definition custody_open :: "venv \<Rightarrow> custody \<Rightarrow> tick \<Rightarrow> (custodian, custody_file) act" where
  "custody_open v y deadline =
     then_act (custody_guard v deadline)
    (bind_act (gets_act cu_file) (\<lambda>file.
     case file of
       None \<Rightarrow> raise_act (Refused ''synthetic_custodian_missing'')
     | Some f \<Rightarrow>
         bind_act (tock (v_open v)) (\<lambda>usable.
         if \<not> usable then raise_act Crash
         else then_act (require_act (cf_binding f = [(cy_packet y, cy_target y, cy_candidate y)]) ''synthetic_custodian_binding'')
           (return_act f))))"

definition custody_read :: "venv \<Rightarrow> custody \<Rightarrow> string \<Rightarrow> tick \<Rightarrow> (custodian, confirmed_receipt) act" where
  "custody_read v y ref deadline =
     bind_act (custody_open v y deadline) (\<lambda>f.
     then_act (custody_guard v deadline)
       (case find (\<lambda>r. rt_reference r = ref) (cf_receipts f) of
          None \<Rightarrow> raise_act (Refused ''synthetic_returned_receipt_missing'')
        | Some r \<Rightarrow> return_act \<lparr>reference = ref, predecessor = rt_intent r, receipt_result = rt_result r,
            receipt_status = ''CONFIRMED''\<rparr>))"

definition add_receipt :: "retained_row \<Rightarrow> custodian \<Rightarrow> custodian" where
  "add_receipt r u = u\<lparr>cu_file := map_option (\<lambda>f. f\<lparr>cf_receipts := cf_receipts f @ [r]\<rparr>) (cu_file u)\<rparr>"

text \<open>
  The insertion of a receipt: a reference that is taken violates the primary key; the guard
  before the commit rolls back when it refuses, the one after it does not.
\<close>

definition custody_insert :: "venv \<Rightarrow> custody \<Rightarrow> retained_row \<Rightarrow> tick \<Rightarrow> (custodian, unit) act" where
  "custody_insert v y r deadline =
     bind_act (custody_open v y deadline) (\<lambda>f.
     if rt_reference r \<in> rt_reference ` set (cf_receipts f) then raise_act Crash
     else then_act (custody_guard v deadline)
      (bind_act (tock (v_write v)) (\<lambda>fault.
       if fault = WFails then raise_act Crash
       else if fault = WDiesFirst then raise_act Killed
       else then_act (modify_act (add_receipt r))
         (if fault = WLosesAck then raise_act Crash
          else if fault = WDiesLast then raise_act Killed
          else custody_guard v deadline))))"


section \<open>The qualification and its invocations\<close>

text \<open>A qualification on a binding: its control, its retained intents and its packet.\<close>

record qualification =
  ql_control :: control
  ql_intents :: "intent list"
  ql_packet :: string

record qstate =
  q_control :: cstate
  q_custody :: custodian

definition on_control :: "(cstate, 'a) act \<Rightarrow> (qstate, 'a) act" where
  "on_control m q = (case m (q_control q) of (r, s) \<Rightarrow> (r, q\<lparr>q_control := s\<rparr>))"

definition on_custody :: "(custodian, 'a) act \<Rightarrow> (qstate, 'a) act" where
  "on_custody m q = (case m (q_custody q) of (r, u) \<Rightarrow> (r, q\<lparr>q_custody := u\<rparr>))"

definition qualified_execute :: "menv \<Rightarrow> qualification \<Rightarrow> intent \<Rightarrow> (qstate, result \<times> json option) act" where
  "qualified_execute env l i = (case ql_intents l of
     [] \<Rightarrow> raise_act Crash
   | root # _ \<Rightarrow>
       if i \<noteq> root then return_act (Result ''refused'' ''synthetic_unretained_root_intent'', None)
       else on_control (model_execute env (ql_control l) i))"

definition qualified_reconcile :: "menv \<Rightarrow> qualification \<Rightarrow> intent \<Rightarrow> (qstate, result) act" where
  "qualified_reconcile env l i = on_control (reconcile (ports env) (ql_control l) i)"

text \<open>\<open>Adapter.advance\<close> with the custodian as the confirmation port.\<close>

definition model_advance_reserve ::
    "menv \<Rightarrow> venv \<Rightarrow> custody \<Rightarrow> control \<Rightarrow> intent \<Rightarrow> intent \<Rightarrow> string \<Rightarrow> (qstate, result option) act" where
  "model_advance_reserve env v y c p s ref =
     bind_act (on_control (check (ports env) c False s)) (\<lambda>until.
     then_act (on_control (check (ports env) c False p))
    (then_act (require_act (1 \<le> length ref \<and> length ref \<le> 128 \<and> is_ascii ref \<and>
        key s \<noteq> key p \<and> expected s = next_generation p \<and> operation s \<noteq> operation p \<and>
        window s = window p \<and> transition_limit s = transition_limit p) ''invalid_successor'')
    (bind_act (on_custody (custody_read v y ref until)) (\<lambda>r.
     then_act (on_control (check (ports env) c False s))
    (bind_act (gets_act (\<lambda>q. k_last (q_control q))) (\<lambda>last.
     then_act (require_act (reference r = ref \<and> receipt_matches r p \<and>
       confirmed_in_time p (confirmed_at (receipt_result r)) last) ''invalid_retained_confirmation'')
    (bind_act (on_control (journal_call (ports env) c until (advance p s r))) (\<lambda>won.
     then_act (require_act won ''successor_reservation_refused'')
    (then_act (on_control (check (ports env) c False s)) (return_act None))))))))))"

definition model_advance ::
    "menv \<Rightarrow> venv \<Rightarrow> custody \<Rightarrow> control \<Rightarrow> intent \<Rightarrow> intent \<Rightarrow> string \<Rightarrow> (qstate, result \<times> json option) act" where
  "model_advance env v y c p s ref =
     bind_act (catch_act (model_advance_reserve env v y c p s ref)
        (\<lambda>_. return_act (Some (Result ''refused'' ''successor_reservation_unconfirmed'')))) (\<lambda>r.
     case r of Some x \<Rightarrow> return_act (x, None) | None \<Rightarrow> on_control (model_dispatch env c s))"

definition qualified_advance ::
    "menv \<Rightarrow> venv \<Rightarrow> custody \<Rightarrow> qualification \<Rightarrow> intent \<Rightarrow> intent \<Rightarrow> string \<Rightarrow> (qstate, result \<times> json option) act" where
  "qualified_advance env v y l p s ref =
     (if s \<notin> set (ql_intents l) then return_act (Result ''refused'' ''synthetic_unretained_successor'', None)
      else model_advance env v y (ql_control l) p s ref)"

definition binding_guard :: "menv \<Rightarrow> (qstate, unit) act" where
  "binding_guard env q = (m_guard env (k_trace (q_control q)), q)"

definition invocation_binding :: "custody \<Rightarrow> qualification \<Rightarrow> intent \<Rightarrow> string \<Rightarrow> bool" where
  "invocation_binding y l i ref \<longleftrightarrow> target_id i = cy_target y \<and> candidate i = cy_candidate y \<and>
     ql_packet l = cy_packet y \<and> take 10 ref = ''synthetic:'' \<and> 11 \<le> length ref \<and> length ref \<le> 128"

definition retain :: "menv \<Rightarrow> venv \<Rightarrow> custody \<Rightarrow> intent \<Rightarrow> string \<Rightarrow> result \<times> json option \<Rightarrow> (qstate, unit) act" where
  "retain env v y i ref answer =
     (if status (fst answer) \<noteq> ''confirmed'' then return_act ()
      else case snd answer of
        None \<Rightarrow> raise_act (Refused ''synthetic_invocation_evidence_missing'')
      | Some evidence \<Rightarrow>
          then_act (on_custody (custody_insert v y \<lparr>rt_reference = ref, rt_intent = i, rt_result = fst answer,
            rt_evidence = evidence\<rparr> (dispatch_until (window i))))
            (binding_guard env))"

definition invoke ::
    "menv \<Rightarrow> venv \<Rightarrow> custody \<Rightarrow> qualification \<Rightarrow> intent \<Rightarrow> string \<Rightarrow> (intent \<times> string) option \<Rightarrow> (qstate, result) act" where
  "invoke env v y l i ref previous =
     (let until = dispatch_until (window i) in
      then_act (on_custody (custody_guard v until))
     (then_act (require_act (invocation_binding y l i ref) ''synthetic_invocation_binding'')
     (bind_act (on_custody (custody_open v y until)) (\<lambda>f.
      then_act (require_act (ref \<notin> rt_reference ` set (cf_receipts f)) ''synthetic_reference_spent'')
     (bind_act (case previous of
          None \<Rightarrow> qualified_execute env l i
        | Some (p, pref) \<Rightarrow> qualified_advance env v y l p i pref) (\<lambda>outcome.
      then_act (on_custody (custody_guard v until))
     (then_act (binding_guard env)
     (then_act (retain env v y i ref outcome)
        (return_act (fst outcome))))))))))"

end
