(* ===== verification/Successor_Safety.thy ===== *)
theory Successor_Safety
  imports Successor_Control Operator_Evidence Operator_Safety
begin

text \<open>
  What a dispatch of a batch keeps and what stands behind its confirmed result: the laws of the
  base protocol carry over, because only the writer's message and its receipt differ.
\<close>

section \<open>The dispatch keeps the journal's promises\<close>

lemma batch_dispatch_safe:
  "hoare safe (\<lambda>s. key i \<in> claimed (fst (view s)) \<and> key i \<notin> set (fst (snd (view s)))) (batch_dispatch env c i batch) (\<lambda>_ _. True)"
  unfolding batch_dispatch_def
  by (intro hoare_bind [OF silent_at] dispatch_hoare) simp

lemma silent_builds [simp]: "silent v (build_batch env i)" "silent v (model_evidence env tr n)"
  by (auto simp: silent_def build_batch_def model_evidence_def split: option.split)

lemma model_settled_safe: "keeps safe (model_settled env c i start tr count)"
  unfolding model_settled_def
  by (intro keeps_then keeps_bind keeps_if keeps_pure silent_safe silent_check silent_builds settle_journal_safe observe_safe)

lemma model_try_safe: "keeps safe (model_try env c i start)"
proof -
  let ?B = "\<lambda>v. key i \<in> claimed (fst v) \<and> key i \<notin> set (fst (snd v))"
  have grant: "hoare safe (\<lambda>_. True) (journal_call (ports env) c d (claim_dispatch (key i))) (\<lambda>x s. x \<longrightarrow> ?B (view s))" for d
    by (rule journal_hoare [where B = "\<lambda>_. True" and C = "\<lambda>x v. x \<longrightarrow> ?B v", simplified]) (use claim_dispatch_sound in fastforce)
  have send: "hoare safe (\<lambda>s. ?B (view s)) (bind_act (build_batch env i) (\<lambda>batch. bind_act (batch_dispatch env c i batch) (k batch)))
      (\<lambda>_ _. True)" if "\<And>b r. keeps safe (k b r)" for k :: "string \<Rightarrow> pyval \<Rightarrow> (cstate, result \<times> json option) act"
    by (intro hoare_bind [OF silent_at] hoare_bind [OF batch_dispatch_safe] keeps_hoare that) simp
  have claimed: "hoare safe (\<lambda>s. x \<longrightarrow> ?B (view s)) (then_act (require_act x ''dispatch_claim_unconfirmed'') m) (\<lambda>_ _. True)"
    if "hoare safe (\<lambda>s. ?B (view s)) m (\<lambda>_ _. True)" for x and m :: "(cstate, result \<times> json option) act"
    by (rule hoare_then [OF hoare_require], rule hoare_pre [OF that]) auto
  have start: "hoare safe (\<lambda>_. True) m (\<lambda>_ _. True)" if "keeps safe m" for m :: "(cstate, 'b) act"
    by (rule keeps_hoare [OF that])
  show ?thesis
    unfolding model_try_def
    by (rule hoare_keeps [where Q = "\<lambda>_ _. True"],
        intro hoare_bind [OF grant] claimed send hoare_then [OF start] hoare_bind [OF start] keeps_bind keeps_then
          silent_safe silent_check observe_safe flag_safe keeps_pure model_settled_safe)
qed

lemma model_dispatch_safe: "keeps safe (model_dispatch env c i)"
  unfolding model_dispatch_def model_failed_def Let_def
  by (intro keeps_then keeps_catch flag_safe model_try_safe keeps_bind keeps_pure settle_journal_safe)

lemma execute_reserve_safe: "keeps safe (execute_reserve env c i)"
  unfolding execute_reserve_def
  by (intro keeps_bind keeps_then keeps_if keeps_pure silent_safe [OF silent_check] journal_safes)

lemma model_execute_safe: "keeps safe (model_execute env c i)"
  unfolding model_execute_def early_def
  by (auto intro!: keeps_bind keeps_catch execute_reserve_safe model_dispatch_safe split: option.split)


section \<open>What stands behind a confirmed batch\<close>

fun batch_event :: "intent \<Rightarrow> string \<Rightarrow> pyval \<Rightarrow> cevent \<Rightarrow> bool" where
  "batch_event i b v (CDispatch j sql d r) \<longleftrightarrow> j = i \<and> sql = b \<and> r = Inr v"
| "batch_event i b v _ \<longleftrightarrow> False"

text \<open>The receipt of the exact batch for one row.\<close>

fun one_batch :: "intent \<Rightarrow> cevent \<Rightarrow> bool" where
  "one_batch i (CDispatch j batch d (Inr v)) \<longleftrightarrow> j = i \<and> batch_count batch v = Inr 1"
| "one_batch i _ \<longleftrightarrow> False"

definition backed :: "intent \<Rightarrow> result \<Rightarrow> cstate \<Rightarrow> bool" where
  "backed i r s \<longleftrightarrow> witnessed (one_batch i) i (k_trace s) \<and> journal_confirmed i (k_tables s) \<and>
     observed_generation r = Some (next_generation i) \<and> observed_state r = Some (target i) \<and>
     (\<exists>n. confirmed_at r = Some (Tick n) \<and> in_window False i n)"

definition delivers :: "intent \<Rightarrow> result \<times> json option \<Rightarrow> cstate \<Rightarrow> bool" where
  "delivers i x s \<longleftrightarrow> status (fst x) \<noteq> ''confirmed'' \<or> backed i (fst x) s"

lemma batch_count_range:
  assumes "batch_count b v = Inr n"
  shows "n = 0 \<or> n = 1"
proof (cases "batch_receipt v")
  case (Some p)
  then obtain x y where "batch_receipt v = Some (x, y)" by (cases p) auto
  with assms show ?thesis by (cases y) (auto simp: batch_count_def split: if_splits)
qed (use assms in \<open>simp add: batch_count_def\<close>)

lemma delivers_other: "status (fst x) \<noteq> ''confirmed'' \<Longrightarrow> hoare always P (return_act x) (delivers i)"
  by (auto simp: hoare_def delivers_def act_simps)

lemma batch_dispatch_event:
  "hoare always always (batch_dispatch env c i b) (\<lambda>v s. after (batch_event i b v) (\<lambda>_. True) (k_trace s))"
proof -
  have "hoare always always (emit f (CDispatch i b d)) (\<lambda>v s. after (batch_event i b v) (\<lambda>_. True) (k_trace s))" for f d
  proof (rule hoareI)
    fix s r t assume e: "emit f (CDispatch i b d) s = (r, t)"
    then have t: "k_trace t = k_trace s @ [CDispatch i b d r]" by (auto simp: emit_def Let_def)
    show "True \<and> (\<forall>v. r = Inr v \<longrightarrow> after (batch_event i b v) (\<lambda>_. True) (k_trace t))"
      unfolding t after_def by (intro conjI allI impI TrueI exI [of _ "k_trace s"] exI [of _ "CDispatch i b d r"] exI [of _ "[]"]) simp_all
  qed
  then show ?thesis unfolding batch_dispatch_def by (rule hoare_bind [OF hoare_true hoare_drop])
qed

lemma appends_builds [simp]: "appends (build_batch env i)" "appends (model_evidence env tr n)"
  by (auto simp: appends_def keeps_def build_batch_def model_evidence_def split: option.split)

text \<open>The end of a confirmed dispatch: the final check, then the evidence is put together.\<close>

lemma model_tail:
  "hoare always (\<lambda>s. witnessed (one_batch i) i (k_trace s))
     (then_act (settle_journal (ports env) c False i ''confirmed'')
     (then_act (check (ports env) c False i)
     (bind_act (model_evidence env tr start) (\<lambda>evidence.
      bind_act (gets_act k_last) (\<lambda>last.
        return_act (\<lparr>status = ''confirmed'', reason = ''one_row_and_independent_readback'',
          observed_generation = Some (next_generation i), observed_state = Some (target i),
          confirmed_at = Some (Tick last)\<rparr>, Some evidence)))))) (delivers i)"
  by (rule hoare_then [OF settle_evidence], rule hoare_then [OF final_check])
     (auto simp: hoare_def delivers_def backed_def act_simps model_evidence_def split: option.splits)

lemma model_settled_delivers:
  "hoare always (\<lambda>s. after (batch_event i b v) (\<lambda>_. True) (k_trace s) \<and> batch_count b v = Inr count)
     (model_settled env c i start tr count) (delivers i)"
proof (cases "count = 0")
  case True
  have "hoare always always (model_settled env c i start tr count) (delivers i)"
    unfolding model_settled_def using True
    by simp (intro hoare_then [OF hoare_true] delivers_other, simp add: Result_def)
  then show ?thesis by (rule hoare_drop)
next
  case False
  let ?P = "\<lambda>s. after (batch_event i b v) (\<lambda>_. True) (k_trace s) \<and> batch_count b v = Inr count"
  have one: "batch_event i b v e \<Longrightarrow> batch_count b v = Inr count \<Longrightarrow> one_batch i e" for e
    using batch_count_range [of b v count] False by (cases e) auto
  have seen: "hoare always ?P (observe (ports env) c False i) (\<lambda>g s. after (one_batch i) (\<lambda>b. \<exists>e\<in>set b. readback g e) (k_trace s))"
    by (rule hoare_pre [OF observe_answer]) (use one in \<open>auto simp: after_def\<close>)
  have confirmed: "hoare always (\<lambda>s. after (one_batch i) (\<lambda>b. \<exists>e\<in>set b. readback g e) (k_trace s))
      (then_act (require_act (g = (next_generation i, target i)) ''transition_readback_mismatch'')
      (then_act (settle_journal (ports env) c False i ''confirmed'')
      (then_act (check (ports env) c False i)
      (bind_act (model_evidence env tr start) (\<lambda>evidence. bind_act (gets_act k_last) (\<lambda>last.
        return_act (\<lparr>status = ''confirmed'', reason = ''one_row_and_independent_readback'',
          observed_generation = Some (fst g), observed_state = Some (snd g), confirmed_at = Some (Tick last)\<rparr>, Some evidence))))))) (delivers i)" for g
  proof (rule hoare_then [OF hoare_require], rule hoare_assume)
    assume "g = (next_generation i, target i)"
    with model_tail [of i env c tr start] show "hoare always (\<lambda>s. after (one_batch i) (\<lambda>b. \<exists>e\<in>set b. readback g e) (k_trace s))
      (then_act (settle_journal (ports env) c False i ''confirmed'')
      (then_act (check (ports env) c False i)
      (bind_act (model_evidence env tr start) (\<lambda>evidence. bind_act (gets_act k_last) (\<lambda>last.
        return_act (\<lparr>status = ''confirmed'', reason = ''one_row_and_independent_readback'',
          observed_generation = Some (fst g), observed_state = Some (snd g), confirmed_at = Some (Tick last)\<rparr>, Some evidence)))))) (delivers i)"
      by (simp add: witnessed_def)
  qed
  from False show ?thesis
    unfolding model_settled_def by simp (rule hoare_bind [OF seen confirmed])
qed

lemma model_try_delivers: "hoare always always (model_try env c i start) (delivers i)"
  unfolding model_try_def
  by (intro hoare_then [OF hoare_true] hoare_bind [OF hoare_true] hoare_drop [OF hoare_bind [OF batch_dispatch_event]]
        hoare_bind [OF keeps_at [OF appends_after]] hoare_then [OF keeps_at [OF appends_after]]
        hoare_bind [OF hoare_lift] model_settled_delivers) simp_all

lemma model_dispatch_delivers: "hoare always always (model_dispatch env c i) (delivers i)"
proof -
  have "hoare always always (model_failed env c i) (delivers i)"
    unfolding model_failed_def Let_def
    by (intro hoare_bind [OF hoare_true] hoare_then [OF hoare_true] delivers_other) (simp add: Result_def)
  then show ?thesis
    unfolding model_dispatch_def
    by (intro hoare_then [OF hoare_true] hoare_bind [OF hoare_true] hoare_catch hoare_drop [OF model_try_delivers])
qed

lemma model_execute_delivers: "hoare always always (model_execute env c i) (delivers i)"
  unfolding model_execute_def early_def
proof (rule hoare_bind [OF hoare_catch [OF execute_reserve_early]])
  show "hoare always always (return_act (Some (Result ''refused'' ''reservation_unconfirmed''))) (\<lambda>x _. early_only x)" for e :: exc
    by (intro early_hoare) (simp add: Result_def)
  show "hoare always (\<lambda>_. early_only r) (case r of Some x \<Rightarrow> return_act (x, None) | None \<Rightarrow> model_dispatch env c i) (delivers i)" for r
    using hoare_drop [OF model_dispatch_delivers, of _ env c i]
    by (cases r) (auto simp: hoare_def delivers_def act_simps)
qed

end
