(* ===== verification/Successor_Custody.thy ===== *)
theory Successor_Custody
  imports Successor_Safety
begin

text \<open>
  The custodian of returned invocations: a receipt is only retained by the invocation that
  returned it, is backed by the exact batch receipt and a later readback, and is never changed.
\<close>

section \<open>What the custodian's operations change\<close>

definition receipts_of :: "custody_file option \<Rightarrow> retained_row list" where
  "receipts_of file = (case file of None \<Rightarrow> [] | Some f \<Rightarrow> cf_receipts f)"

lemma silent_tock [simp]: "silent cu_file (tock f)"
  by (simp add: silent_def tock_def)

lemma silent_guard [simp]: "silent cu_file (custody_guard v d)"
  unfolding custody_guard_def by (auto intro!: silent_bind silent_then silent_modify split: tick.split)

lemma silent_open [simp]: "silent cu_file (custody_open v y d)"
  unfolding custody_open_def by (auto intro!: silent_bind silent_then split: option.split)

lemma silent_read [simp]: "silent cu_file (custody_read v y ref d)"
  unfolding custody_read_def by (auto intro!: silent_bind silent_then split: option.split)

lemma custody_open_hoare:
  "hoare I (\<lambda>t. cu_file t = F) (custody_open v y d) (\<lambda>f t. cu_file t = F \<and> F = Some f)" if I: "\<And>t. cu_file t = F \<Longrightarrow> I t"
proof -
  have quiet: "hoare I (\<lambda>t. cu_file t = F \<and> A) m (\<lambda>_ t. cu_file t = F \<and> A)" if "silent cu_file m" for m :: "(custodian, 'b) act" and A
    using silentD [OF that] I by (auto simp: hoare_def)
  have guard: "hoare I (\<lambda>t. cu_file t = F) (custody_guard v d) (\<lambda>_ t. cu_file t = F)"
    using quiet [of "custody_guard v d" True] by simp
  have rest: "hoare I (\<lambda>t. cu_file t = F \<and> F = Some f)
     (bind_act (tock (v_open v)) (\<lambda>usable. if \<not> usable then raise_act Crash
         else then_act (require_act (cf_binding f = [(cy_packet y, cy_target y, cy_candidate y)]) ''synthetic_custodian_binding'')
           (return_act f))) (\<lambda>f t. cu_file t = F \<and> F = Some f)" for f
    by (intro hoare_bind [OF quiet] hoare_if hoare_raise hoare_then [OF hoare_require] hoare_return) auto
  have "hoare I (\<lambda>t. cu_file t = F \<and> fl = cu_file t) (case fl of
       None \<Rightarrow> raise_act (Refused ''synthetic_custodian_missing'')
     | Some f \<Rightarrow> bind_act (tock (v_open v)) (\<lambda>usable. if \<not> usable then raise_act Crash
         else then_act (require_act (cf_binding f = [(cy_packet y, cy_target y, cy_candidate y)]) ''synthetic_custodian_binding'')
           (return_act f))) (\<lambda>f t. cu_file t = F \<and> F = Some f)" for fl
    by (cases fl) (auto intro: hoare_raise hoare_pre [OF rest])
  then show ?thesis
    unfolding custody_open_def by (intro hoare_then [OF guard] hoare_bind [OF hoare_gets])
qed

text \<open>An insertion appends one row with a fresh reference, or changes nothing.\<close>

definition appended :: "retained_row list \<Rightarrow> retained_row \<Rightarrow> retained_row list \<Rightarrow> bool" where
  "appended R r R' \<longleftrightarrow> R' = R \<or> R' = R @ [r] \<and> rt_reference r \<notin> rt_reference ` set R"

lemma custody_insert_appends:
  assumes "custody_insert v y r d u = (q, t)"
  shows "appended (receipts_of (cu_file u)) r (receipts_of (cu_file t))"
proof -
  let ?R = "receipts_of (cu_file u)"
  let ?I = "\<lambda>t. appended ?R r (receipts_of (cu_file t))"
  let ?P = "\<lambda>t. cu_file t = cu_file u"
  have quiet: "hoare ?I ?P m (\<lambda>_. ?P)" if "silent cu_file m" for m :: "(custodian, 'a) act"
    using silentD [OF that] by (auto simp: hoare_def)
  have guard_I: "hoare ?I P (custody_guard v d) (\<lambda>_ _. True)" for P
    using silentD [OF silent_guard] by (auto simp: hoare_def)
  have opened: "hoare ?I ?P (custody_open v y d) (\<lambda>f t. ?P t \<and> cu_file u = Some f)"
    by (rule custody_open_hoare) (simp add: appended_def)
  have add: "hoare ?I (\<lambda>t. (?P t \<and> cu_file u = Some f) \<and> rt_reference r \<notin> rt_reference ` set (cf_receipts f))
      (modify_act (add_receipt r)) (\<lambda>_ _. True)" for f
    by (auto simp: hoare_def act_simps add_receipt_def appended_def receipts_of_def)
  have insertion: "hoare ?I (\<lambda>t. (?P t \<and> cu_file u = Some f) \<and> rt_reference r \<notin> rt_reference ` set (cf_receipts f))
      (then_act (custody_guard v d) (bind_act (tock (v_write v)) (\<lambda>fault.
       if fault = WFails then raise_act Crash
       else if fault = WDiesFirst then raise_act Killed
       else then_act (modify_act (add_receipt r))
         (if fault = WLosesAck then raise_act Crash
          else if fault = WDiesLast then raise_act Killed
          else custody_guard v d)))) (\<lambda>_ _. True)" for f
  proof -
    have keep: "hoare ?I (\<lambda>t. (?P t \<and> cu_file u = Some f) \<and> rt_reference r \<notin> rt_reference ` set (cf_receipts f)) m
       (\<lambda>_ t. (?P t \<and> cu_file u = Some f) \<and> rt_reference r \<notin> rt_reference ` set (cf_receipts f))" if "silent cu_file m"
       for m :: "(custodian, 'a) act"
      using silentD [OF that] by (auto simp: hoare_def)
    show ?thesis
      by (intro hoare_then [OF keep] hoare_bind [OF keep] hoare_if hoare_raise hoare_then [OF add] guard_I) simp_all
  qed
  have "hoare ?I ?P (custody_insert v y r d) (\<lambda>_ _. True)"
    unfolding custody_insert_def
  proof (rule hoare_bind [OF opened], rule hoare_if)
    fix f
    show "hoare ?I (\<lambda>t. ?P t \<and> cu_file u = Some f) (raise_act Crash) (\<lambda>_ _. True)" by (rule hoare_raise)
    assume "rt_reference r \<notin> rt_reference ` set (cf_receipts f)"
    then show "hoare ?I (\<lambda>t. ?P t \<and> cu_file u = Some f) (then_act (custody_guard v d) (bind_act (tock (v_write v)) (\<lambda>fault.
       if fault = WFails then raise_act Crash
       else if fault = WDiesFirst then raise_act Killed
       else then_act (modify_act (add_receipt r))
         (if fault = WLosesAck then raise_act Crash
          else if fault = WDiesLast then raise_act Killed
          else custody_guard v d)))) (\<lambda>_ _. True)"
      by (intro hoare_pre [OF insertion]) simp
  qed
  from hoareD [OF this _ _ assms] show ?thesis by (simp add: appended_def)
qed


section \<open>Lifting to an invocation\<close>

abbreviation kept_rows :: "qstate \<Rightarrow> retained_row list" where
  "kept_rows q \<equiv> receipts_of (cu_file (q_custody q))"

lemma silent_on_control: "silent (\<lambda>q. q_custody q) (on_control m)"
  by (auto simp: silent_def on_control_def split: prod.split)

lemma silent_on_control_rows [simp]: "silent kept_rows (on_control m)"
  using silent_on_control [of m] by (simp add: silent_def)

lemma silent_on_custody_control [simp]: "silent q_control (on_custody m)"
  by (auto simp: silent_def on_custody_def split: prod.split)

lemma silent_on_custody [simp]:
  assumes "silent cu_file m"
  shows "silent (\<lambda>q. (q_control q, kept_rows q)) (on_custody m)"
  using silentD [OF assms] by (auto simp: silent_def on_custody_def split: prod.split)

lemma silent_pair: "silent (\<lambda>q. (q_control q, kept_rows q)) m \<Longrightarrow> silent kept_rows m"
  by (simp add: silent_def)

lemma silent_binding_guard [simp]: "silent v (binding_guard env)"
  by (simp add: silent_def binding_guard_def)

lemma on_control_hoare:
  "hoare (\<lambda>_. True) (\<lambda>_. True) m Q \<Longrightarrow> hoare (\<lambda>q. A (kept_rows q)) (\<lambda>q. B (kept_rows q)) (on_control m)
     (\<lambda>x q. B (kept_rows q) \<and> Q x (q_control q))"
  by (auto simp: hoare_def on_control_def split: prod.splits)

lemma model_advance_reserve_rows [simp]: "silent kept_rows (model_advance_reserve env v y c p s ref)"
  unfolding model_advance_reserve_def
  by (intro silent_bind silent_then silent_on_control_rows silent_pair [OF silent_on_custody] silent_pure silent_read)

text \<open>The answer of an execution or an advance, with the rows as they were.\<close>

definition answers :: "intent \<Rightarrow> retained_row list \<Rightarrow> (qstate, result \<times> json option) act \<Rightarrow> bool" where
  "answers i R m \<longleftrightarrow> hoare (\<lambda>q. kept_rows q = R) (\<lambda>_. True) m (\<lambda>x q. delivers i x (q_control q))"

lemma answers_other: "status (fst x) \<noteq> ''confirmed'' \<Longrightarrow> answers i R (return_act x)"
  by (cases x) (simp add: answers_def hoare_def act_simps delivers_def)

lemma answers_control: "hoare always always m (delivers i) \<Longrightarrow> answers i R (on_control m)"
  unfolding answers_def
  using on_control_hoare [of m "delivers i" "\<lambda>r. r = R" "\<lambda>_. True"] by (auto simp: hoare_def)

lemma answers_execute: "answers i R (qualified_execute env l i)"
  unfolding qualified_execute_def
  using answers_control [OF model_execute_delivers] answers_other [of "(Result ''refused'' ''synthetic_unretained_root_intent'', None)"]
  by (auto simp: answers_def hoare_raise Result_def split: list.split)

lemma answers_advance: "answers i R (qualified_advance env v y l p i pref)"
proof -
  have reserve: "hoare (\<lambda>q. kept_rows q = R) (\<lambda>_. True) (model_advance_reserve env v y c p i ref) (\<lambda>x _. early_only x)" for c ref
  proof -
    have "hoare (\<lambda>_. True) P (model_advance_reserve env v y c p i ref) (\<lambda>x _. x = None)" for P
      unfolding model_advance_reserve_def
      by (intro hoare_bind [where R = "\<lambda>_ _. True"] hoare_then [where R = "\<lambda>_ _. True"]) (auto simp: hoare_def act_simps)
    then show ?thesis
      using silentD [OF model_advance_reserve_rows] by (fastforce simp: hoare_def)
  qed
  have "hoare (\<lambda>q. kept_rows q = R) (\<lambda>_. True) (model_advance env v y c p i ref) (\<lambda>x q. delivers i x (q_control q))" for c ref
    unfolding model_advance_def
  proof (rule hoare_bind [OF hoare_catch [OF reserve]])
    show "hoare (\<lambda>q. kept_rows q = R) (\<lambda>_. True) (return_act (Some (Result ''refused'' ''successor_reservation_unconfirmed'')))
      (\<lambda>x _. early_only x)" for e :: exc
      by (simp add: hoare_def act_simps Result_def)
    show "hoare (\<lambda>q. kept_rows q = R) (\<lambda>_. early_only r)
      (case r of Some x \<Rightarrow> return_act (x, None) | None \<Rightarrow> on_control (model_dispatch env c i)) (\<lambda>x q. delivers i x (q_control q))" for r
      using answers_control [OF model_dispatch_delivers, of i R env c]
      by (cases r) (auto simp: hoare_def delivers_def act_simps answers_def)
  qed
  then show ?thesis
    unfolding qualified_advance_def
    using answers_other [of "(Result ''refused'' ''synthetic_unretained_successor'', None)"]
    by (auto simp: answers_def Result_def)
qed

end
