(* ===== verification/Successor_Properties.thy ===== *)
theory Successor_Properties
  imports Successor_Custody
begin

text \<open>
  The properties of the successor model: what an invocation may retain, and what any history of
  invocations on one journal and one custodian file keeps.
\<close>

section \<open>One invocation\<close>

definition retains :: "intent \<Rightarrow> string \<Rightarrow> retained_row list \<Rightarrow> qstate \<Rightarrow> bool" where
  "retains i ref R q \<longleftrightarrow> (\<exists>rows. kept_rows q = R @ rows \<and> length rows \<le> 1 \<and>
     list_all (\<lambda>r. rt_reference r = ref \<and> rt_intent r = i \<and> ref \<notin> rt_reference ` set R \<and>
       status (rt_result r) = ''confirmed'' \<and> backed i (rt_result r) (q_control q)) rows)"

lemma retains_start: "kept_rows q = R \<Longrightarrow> retains i ref R q"
  by (simp add: retains_def)

lemma retains_view: "retains i ref R = (\<lambda>q. (\<lambda>(c, rs). \<exists>rows. rs = R @ rows \<and> length rows \<le> 1 \<and>
     list_all (\<lambda>r. rt_reference r = ref \<and> rt_intent r = i \<and> ref \<notin> rt_reference ` set R \<and>
       status (rt_result r) = ''confirmed'' \<and> backed i (rt_result r) c) rows) (q_control q, kept_rows q))"
  by (simp add: retains_def fun_eq_iff)

lemma retains_silent:
  assumes "silent (\<lambda>q. (q_control q, kept_rows q)) m"
  shows "keeps (retains i ref R) m"
  unfolding retains_view by (rule keeps_silent [OF assms])

lemma retains_quiet:
  assumes "silent kept_rows m"
  shows "hoare (retains i ref R) (\<lambda>q. kept_rows q = R) m (\<lambda>_ q. kept_rows q = R)"
  using silentD [OF assms] retains_start by (auto simp: hoare_def)

lemma retains_still:
  assumes "silent (\<lambda>q. (q_control q, kept_rows q)) m"
  shows "hoare (retains i ref R) (\<lambda>q. kept_rows q = R \<and> delivers i x (q_control q)) m
    (\<lambda>_ q. kept_rows q = R \<and> delivers i x (q_control q))"
  using silentD [OF assms] retains_start by (auto simp: hoare_def)

lemma retains_answer:
  assumes "answers i R m"
  shows "hoare (retains i ref R) (\<lambda>q. kept_rows q = R) m (\<lambda>x q. kept_rows q = R \<and> delivers i x (q_control q))"
proof (rule hoareI)
  fix q r q' assume q: "kept_rows q = R" and m: "m q = (r, q')"
  from assms have h: "hoare (\<lambda>q. kept_rows q = R) (\<lambda>_. True) m (\<lambda>x q. delivers i x (q_control q))" by (simp add: answers_def)
  from hoareD [OF h q TrueI m] hoareD_value [OF h q TrueI, of _ q'] m
  show "retains i ref R q' \<and> (\<forall>x. r = Inr x \<longrightarrow> kept_rows q' = R \<and> delivers i x (q_control q'))"
    using retains_start by auto
qed

lemma retain_retains:
  "hoare (retains i ref R) (\<lambda>q. kept_rows q = R \<and> delivers i x (q_control q)) (retain env v y i ref x) (\<lambda>_ _. True)"
proof (cases "status (fst x) = ''confirmed''")
  case False
  then show ?thesis by (auto simp: retain_def hoare_def act_simps)
next
  case confirmed: True
  show ?thesis
  proof (cases "snd x")
    case None
    with confirmed show ?thesis by (simp add: retain_def hoare_raise)
  next
    case (Some e)
    let ?r = "\<lparr>rt_reference = ref, rt_intent = i, rt_result = fst x, rt_evidence = e\<rparr>"
    have "hoare (retains i ref R) (\<lambda>q. kept_rows q = R \<and> delivers i x (q_control q))
        (on_custody (custody_insert v y ?r (dispatch_until (window i)))) (\<lambda>_ _. True)"
    proof (rule hoareI)
      fix q q' and r :: "unit res" assume q: "kept_rows q = R \<and> delivers i x (q_control q)"
        and o: "on_custody (custody_insert v y ?r (dispatch_until (window i))) q = (r, q')"
      obtain u where u: "custody_insert v y ?r (dispatch_until (window i)) (q_custody q) = (r, u)" "q' = q\<lparr>q_custody := u\<rparr>"
        using o by (auto simp: on_custody_def split: prod.splits)
      from custody_insert_appends [OF u(1)] q confirmed have "retains i ref R q'"
        unfolding u(2) appended_def retains_def delivers_def by auto
      then show "retains i ref R q' \<and> (\<forall>a. r = Inr a \<longrightarrow> True)" by simp
    qed
    moreover have "hoare (retains i ref R) (\<lambda>_. True) (binding_guard env) (\<lambda>_ _. True)"
      by (rule keeps_hoare [OF retains_silent]) simp
    ultimately show ?thesis using confirmed Some by (auto simp: retain_def intro: hoare_then)
  qed
qed

lemma invoke_retains: "hoare (retains i ref R) (\<lambda>q. kept_rows q = R) (invoke env v y l i ref previous) (\<lambda>_ _. True)"
proof -
  note quiet = retains_quiet [OF silent_pair [OF silent_on_custody]]
  note still = retains_still [OF silent_on_custody] and guard = retains_still [OF silent_binding_guard]
  have answer: "answers i R (case previous of None \<Rightarrow> qualified_execute env l i
        | Some (p, pref) \<Rightarrow> qualified_advance env v y l p i pref)"
    using answers_execute answers_advance by (auto split: option.split)
  show ?thesis
    unfolding invoke_def Let_def
    by (rule hoare_then [OF quiet], simp, rule hoare_then [OF hoare_require],
        rule hoare_bind [OF hoare_pre [OF quiet]], simp, simp, rule hoare_then [OF hoare_require],
        rule hoare_bind [OF hoare_pre [OF retains_answer [OF answer]]], simp,
        rule hoare_then [OF still], simp, rule hoare_then [OF guard], rule hoare_then [OF retain_retains], rule keeps_hoare, simp)
qed

lemma invoke_retained: "retains i ref (kept_rows q) (snd (invoke env v y l i ref previous q))"
proof -
  obtain r q' where o: "invoke env v y l i ref previous q = (r, q')" by force
  from hoareD [OF invoke_retains retains_start [OF refl] refl o] show ?thesis by (simp add: o)
qed

text \<open>C32: An invocation retains at most one receipt, only of its own intent under its own
  unused reference, and only for a confirmed result: the writer then answered exactly the batch that was
  built with one changed row, an independent readback of the adjacent generation came after it, the
  journal has the intent confirmed, and the result is inside its window.\<close>

theorem custody_receipts_backed:
  "\<exists>rows. kept_rows (snd (invoke env v y l i ref previous q)) = kept_rows q @ rows \<and> length rows \<le> 1 \<and>
     list_all (\<lambda>r. rt_reference r = ref \<and> rt_intent r = i \<and> ref \<notin> rt_reference ` set (kept_rows q) \<and>
       status (rt_result r) = ''confirmed'' \<and>
       backed i (rt_result r) (q_control (snd (invoke env v y l i ref previous q)))) rows"
  using invoke_retained [of i ref q env v y l previous] by (simp add: retains_def)


section \<open>Histories\<close>

datatype qcall = Invoke intent string "(intent \<times> string) option" | Provision tick | Reconsider intent

type_synonym qworld = "tables \<times> ctrace \<times> custody_file option"

text \<open>A call by some qualification and custodian instance whose clocks stood at some time.\<close>

definition qcall_act :: "menv \<Rightarrow> venv \<Rightarrow> custody \<Rightarrow> qualification \<Rightarrow> qcall \<Rightarrow> qstate \<Rightarrow> qstate" where
  "qcall_act env v y l call q = (case call of
     Invoke i ref previous \<Rightarrow> snd (invoke env v y l i ref previous q)
   | Provision d \<Rightarrow> snd (on_custody (custody_provision v y d) q)
   | Reconsider i \<Rightarrow> snd (qualified_reconcile env l i q))"

definition qsession :: "menv \<times> venv \<times> custody \<times> qualification \<times> int \<times> int \<times> qcall \<Rightarrow> qworld \<Rightarrow> qworld" where
  "qsession x w = (case x of (env, v, y, l, clock, stamp, call) \<Rightarrow> case w of (t, tr, file) \<Rightarrow>
     let q = qcall_act env v y l call
       \<lparr>q_control = \<lparr>k_tables = t, k_trace = tr, k_last = clock, k_claimed = False\<rparr>,
        q_custody = \<lparr>cu_file = file, cu_last = stamp, cu_calls = 0\<rparr>\<rparr>
     in (k_tables (q_control q), k_trace (q_control q), cu_file (q_custody q)))"

definition qsessions :: "(menv \<times> venv \<times> custody \<times> qualification \<times> int \<times> int \<times> qcall) list \<Rightarrow> qworld \<Rightarrow> qworld" where
  "qsessions xs w = fold qsession xs w"

abbreviation qsafe :: "qstate \<Rightarrow> bool" where
  "qsafe q \<equiv> safe (q_control q)"

lemma qsafe_control: "keeps safe m \<Longrightarrow> keeps qsafe (on_control m)"
  by (auto simp: keeps_def on_control_def split: prod.splits)

lemma qsafe_custody: "keeps qsafe (on_custody m)"
  by (rule keeps_silent) simp

lemma qsafe_binding: "keeps qsafe (binding_guard env)"
  by (rule keeps_silent) simp

lemma model_advance_safe: "keeps qsafe (model_advance env v y c p s ref)"
  unfolding model_advance_def model_advance_reserve_def
  by (auto intro!: keeps_bind keeps_then keeps_catch qsafe_custody qsafe_control silent_safe journal_safes
      model_dispatch_safe split: option.split)

lemma invoke_safe: "keeps qsafe (invoke env v y l i ref previous)"
  unfolding invoke_def Let_def retain_def qualified_execute_def qualified_advance_def
  by (auto intro!: keeps_bind keeps_then keeps_if qsafe_custody qsafe_binding qsafe_control model_execute_safe
      model_advance_safe split: option.split list.split)

lemma qcall_safe: "qsafe q \<Longrightarrow> qsafe (qcall_act env v y l call q)"
proof (cases call)
  case (Invoke i ref previous)
  then show "qsafe q \<Longrightarrow> ?thesis" using invoke_safe by (auto simp: qcall_act_def keeps_def)
next
  case (Provision d)
  then show "qsafe q \<Longrightarrow> ?thesis"
    using qsafe_custody [of "custody_provision v y d"] by (auto simp: qcall_act_def keeps_def)
next
  case (Reconsider i)
  then show "qsafe q \<Longrightarrow> ?thesis"
    using qsafe_control [OF reconcile_safe [of "ports env" "ql_control l" i]]
    by (auto simp: qcall_act_def keeps_def qualified_reconcile_def)
qed

lemma provision_rows: "receipts_of (cu_file (snd (custody_provision v y d u))) = receipts_of (cu_file u)"
proof -
  have "keeps (\<lambda>t. receipts_of (cu_file t) = R) (custody_guard v d)" for R
    by (rule keeps_silent [where v = cu_file]) simp
  then have g: "receipts_of (cu_file (snd (custody_guard v d t))) = receipts_of (cu_file t)" for t
    by (auto simp: keeps_def)
  obtain r t where t: "custody_guard v d u = (r, t)" by force
  with g [of u] have "receipts_of (cu_file t) = receipts_of (cu_file u)" by simp
  then show ?thesis
    using g by (cases r; cases "cu_file t") (auto simp: custody_provision_def act_simps t receipts_of_def)
qed

lemma qcall_rows:
  "\<exists>rows. kept_rows (qcall_act env v y l call q) = kept_rows q @ rows \<and> length rows \<le> 1 \<and>
     list_all (\<lambda>r. rt_reference r \<notin> rt_reference ` set (kept_rows q) \<and> status (rt_result r) = ''confirmed'') rows"
proof (cases call)
  case (Invoke i ref previous)
  from invoke_retained [of i ref q env v y l previous]
  show ?thesis by (auto simp: Invoke qcall_act_def retains_def list_all_iff)
next
  case (Provision d)
  then show ?thesis
    using provision_rows [of v y d "q_custody q"] by (auto simp: qcall_act_def on_custody_def split: prod.splits)
next
  case (Reconsider i)
  have "kept_rows (snd (on_control (reconcile (ports env) (ql_control l) i) q)) = kept_rows q"
    using silent_on_control_rows [of "reconcile (ports env) (ql_control l) i"] by (auto simp: silent_def)
  then show ?thesis by (simp add: Reconsider qcall_act_def qualified_reconcile_def)
qed

definition qworld_ok :: "qworld \<Rightarrow> bool" where
  "qworld_ok w \<longleftrightarrow> (case w of (t, tr, file) \<Rightarrow> sound (t, sent tr, reads tr) \<and>
     distinct (map rt_reference (receipts_of file)) \<and>
     list_all (\<lambda>r. status (rt_result r) = ''confirmed'') (receipts_of file))"

lemma qsession_ok:
  assumes "qworld_ok w"
  shows "qworld_ok (qsession x w) \<and> (\<exists>rows. receipts_of (snd (snd (qsession x w))) = receipts_of (snd (snd w)) @ rows)"
proof -
  obtain env v y l clock ls call where x: "x = (env, v, y, l, clock, ls, call)" by (cases x) auto
  obtain t tr fl where w: "w = (t, tr, fl)" by (cases w) auto
  let ?q = "\<lparr>q_control = \<lparr>k_tables = t, k_trace = tr, k_last = clock, k_claimed = False\<rparr>,
        q_custody = \<lparr>cu_file = fl, cu_last = ls, cu_calls = 0\<rparr>\<rparr>"
  have "qsafe ?q" using assms by (simp add: w qworld_ok_def view_def)
  from qcall_safe [OF this, of env v y l call]
  have s: "sound (view (q_control (qcall_act env v y l call ?q)))" .
  obtain rows where rows: "kept_rows (qcall_act env v y l call ?q) = kept_rows ?q @ rows" "length rows \<le> 1"
      "list_all (\<lambda>r. rt_reference r \<notin> rt_reference ` set (kept_rows ?q) \<and> status (rt_result r) = ''confirmed'') rows"
    using qcall_rows by blast
  let ?R = "receipts_of fl"
  have "rows = [] \<or> (\<exists>r. rows = [r])" using rows(2) by (cases rows) auto
  then have "distinct (map rt_reference (?R @ rows)) \<and> list_all (\<lambda>r. status (rt_result r) = ''confirmed'') (?R @ rows)"
  proof
    assume "\<exists>r. rows = [r]"
    then obtain r where "rows = [r]" by blast
    with rows(3) assms show ?thesis by (simp add: w qworld_ok_def)
  qed (use assms in \<open>simp add: w qworld_ok_def\<close>)
  with rows(1) s show ?thesis
    by (simp add: x w qsession_def Let_def qworld_ok_def view_def)
qed

lemma qsessions_ok:
  "qworld_ok w \<Longrightarrow> qworld_ok (qsessions xs w) \<and> (\<exists>rows. receipts_of (snd (snd (qsessions xs w))) = receipts_of (snd (snd w)) @ rows)"
proof (induction xs arbitrary: w)
  case (Cons x xs)
  note head = qsession_ok [OF Cons.prems, of x]
  have "qworld_ok (qsession x w)" using head by (rule conjunct1)
  from Cons.IH [OF this] head show ?case by (auto simp: qsessions_def)
qed (simp add: qsessions_def)

lemma qworld_start: "qworld_ok (provisioned tid packet, [], None)"
  using sound_start [of tid packet] by (simp add: qworld_ok_def receipts_of_def)

text \<open>C33: Over any history of invocations, reconciliations and provisionings by any instances on
  one journal and one custodian file, in any environment, the dispatched batches are of distinct intents
  that were claimed before, at most as many batches are dispatched and rows read as the root intent
  allows, and never more than three and sixteen, and the retained references are distinct and all
  confirmed.\<close>

theorem qualification_history_safe:
  "case qsessions xs (provisioned tid packet, [], None) of (t, tr, file) \<Rightarrow>
     distinct (sent tr) \<and> set (sent tr) \<subseteq> claimed t \<and> int (length (sent tr)) \<le> transitions_allowed t \<and>
     reads tr \<le> total_reads t \<and> reads tr \<le> reads_allowed t \<and> length (sent tr) \<le> 3 \<and> reads tr \<le> 16 \<and>
     distinct (map rt_reference (receipts_of file)) \<and>
     list_all (\<lambda>r. status (rt_result r) = ''confirmed'') (receipts_of file)"
proof -
  obtain t tr c where w: "qsessions xs (provisioned tid packet, [], None) = (t, tr, c)" by (rule prod_cases3)
  with qsessions_ok [OF qworld_start, of xs tid packet] have "sound (t, sent tr, reads tr)"
    and "distinct (map rt_reference (receipts_of c)) \<and> list_all (\<lambda>r. status (rt_result r) = ''confirmed'') (receipts_of c)"
    by (auto simp: qworld_ok_def)
  moreover from this(1) have "reads tr \<le> total_reads t" by (simp add: sound_def)
  ultimately show ?thesis using sound_limits by (simp add: w)
qed

text \<open>The custodian is append-only: whatever happens later, every retained receipt stays as
  and where it is, so its reference still finds it.\<close>

theorem custody_append_only:
  "\<exists>rows. receipts_of (snd (snd (qsessions (xs @ ys) (provisioned tid packet, [], None)))) =
       receipts_of (snd (snd (qsessions xs (provisioned tid packet, [], None)))) @ rows \<and>
     list_all (\<lambda>r. find (\<lambda>s. rt_reference s = rt_reference r)
         (receipts_of (snd (snd (qsessions (xs @ ys) (provisioned tid packet, [], None))))) = Some r)
       (receipts_of (snd (snd (qsessions xs (provisioned tid packet, [], None)))))"
proof -
  let ?w = "(provisioned tid packet, [], None)"
  have app: "qsessions (xs @ ys) ?w = qsessions ys (qsessions xs ?w)" by (simp add: qsessions_def)
  note ok = qsessions_ok [OF qworld_start, of xs tid packet]
  obtain rows where rows: "receipts_of (snd (snd (qsessions (xs @ ys) ?w))) = receipts_of (snd (snd (qsessions xs ?w))) @ rows"
    using qsessions_ok [of "qsessions xs ?w" ys] ok unfolding app by blast
  have d: "distinct (map rt_reference (receipts_of (snd (snd (qsessions (xs @ ys) ?w)))))"
    using qsessions_ok [OF qworld_start, of "xs @ ys" tid packet] by (auto simp: qworld_ok_def split: prod.splits)
  have find: "find (\<lambda>s. rt_reference s = rt_reference r) L = Some r" if "r \<in> set L" "distinct (map rt_reference L)" for r L
    using that by (induction L) auto
  have "find (\<lambda>s. rt_reference s = rt_reference r) (receipts_of (snd (snd (qsessions (xs @ ys) ?w)))) = Some r"
    if "r \<in> set (receipts_of (snd (snd (qsessions xs ?w))))" for r
    by (rule find [OF _ d]) (use that in \<open>simp add: rows\<close>)
  with rows show ?thesis by (simp add: list_all_iff)
qed

end
