(* ===== verification/Snapshot_Text.thy ===== *)
theory Snapshot_Text
  imports Prelude "HOL-Library.List_Lexorder"
begin

text \<open>
  Text as the snapshot codec sees it: a Python \<open>str\<close> is the list of its code points (lone
  surrogates included, as JSON can deliver them), \<open>bytes\<close> the list of its octets. The theory
  holds strict UTF-8, the upper and lower case hex forms, the dynamic values a query answers
  with, and \<open>json.dumps(value, sort_keys=True, separators=(",", ":"), allow_nan=False)\<close> over
  them, as \<open>fixed_origin_preservation._json\<close> uses it. Floats do not occur among the values.
\<close>

type_synonym ustr = "nat list"
type_synonym octets = "nat list"

named_theorems text_simps \<open>decoders undoing encoders\<close>

definition lit :: "string \<Rightarrow> ustr" where
  "lit = map of_char"


section \<open>Loops that may refuse\<close>

fun map_res :: "('a \<Rightarrow> 'b res) \<Rightarrow> 'a list \<Rightarrow> 'b list res" where
  "map_res f [] = Inr []"
| "map_res f (x # xs) = bind_res (f x) (\<lambda>y. bind_res (map_res f xs) (\<lambda>ys. Inr (y # ys)))"

fun fold_res :: "('a \<Rightarrow> 's \<Rightarrow> 's res) \<Rightarrow> 'a list \<Rightarrow> 's \<Rightarrow> 's res" where
  "fold_res f [] s = Inr s"
| "fold_res f (x # xs) s = bind_res (f x s) (fold_res f xs)"

lemma map_res_Inr: "map_res f xs = Inr ys \<longleftrightarrow> list_all2 (\<lambda>x y. f x = Inr y) xs ys"
proof (induction xs arbitrary: ys)
  case (Cons x xs)
  then show ?case by (cases ys) (auto simp: bind_res_Inr)
qed auto

lemma map_res_map: "(\<And>x. x \<in> set xs \<Longrightarrow> f x = Inr (g x)) \<Longrightarrow> map_res f xs = Inr (map g xs)"
  by (induction xs) auto

lemma fold_res_invariant:
  assumes "fold_res f xs s = Inr t" and "P s"
    and "\<And>x s t. x \<in> set xs \<Longrightarrow> P s \<Longrightarrow> f x s = Inr t \<Longrightarrow> P t"
  shows "P t"
  using assms by (induction xs arbitrary: s) (auto simp: bind_res_Inr)


section \<open>UTF-8\<close>

definition is_surrogate :: "nat \<Rightarrow> bool" where
  "is_surrogate n \<longleftrightarrow> 0xD800 \<le> n \<and> n \<le> 0xDFFF"

definition is_scalar :: "nat \<Rightarrow> bool" where
  "is_scalar n \<longleftrightarrow> n \<le> 0x10FFFF \<and> \<not> is_surrogate n"

definition utf8_char :: "nat \<Rightarrow> octets" where
  "utf8_char n =
     (if n < 0x80 then [n]
      else if n < 0x800 then [0xC0 + n div 64, 0x80 + n mod 64]
      else if n < 0x10000 then [0xE0 + n div 4096, 0x80 + n div 64 mod 64, 0x80 + n mod 64]
      else [0xF0 + n div 262144, 0x80 + n div 4096 mod 64, 0x80 + n div 64 mod 64, 0x80 + n mod 64])"

definition utf8_encode :: "ustr \<Rightarrow> octets" where
  "utf8_encode s = concat (map utf8_char s)"

definition is_tail :: "octets \<Rightarrow> bool" where
  "is_tail bs \<longleftrightarrow> list_all (\<lambda>b. 0x80 \<le> b \<and> b < 0xC0) bs"

text \<open>The code point a first octet starts, with the number of octets that follow it.\<close>

definition utf8_head :: "nat \<Rightarrow> octets \<Rightarrow> (nat \<times> nat) option" where
  "utf8_head a r =
     (if a < 0x80 then Some (a, 0)
      else if a < 0xC2 then None
      else if a < 0xE0 then
        (if 1 \<le> length r \<and> is_tail (take 1 r) then Some ((a - 0xC0) * 64 + (r ! 0 - 0x80), 1) else None)
      else if a < 0xF0 then
        (if 2 \<le> length r \<and> is_tail (take 2 r)
         then let n = (a - 0xE0) * 4096 + (r ! 0 - 0x80) * 64 + (r ! 1 - 0x80) in
           if 0x800 \<le> n \<and> \<not> is_surrogate n then Some (n, 2) else None
         else None)
      else if a < 0xF5 then
        (if 3 \<le> length r \<and> is_tail (take 3 r)
         then let n = (a - 0xF0) * 262144 + (r ! 0 - 0x80) * 4096 + (r ! 1 - 0x80) * 64 + (r ! 2 - 0x80) in
           if 0x10000 \<le> n \<and> n \<le> 0x10FFFF then Some (n, 3) else None
         else None)
      else None)"

text \<open>\<open>raw.decode("utf-8", errors="strict")\<close>; \<open>None\<close> is \<open>UnicodeError\<close>.\<close>

fun utf8_decode :: "octets \<Rightarrow> ustr option" where
  "utf8_decode [] = Some []"
| "utf8_decode (a # r) = (case utf8_head a r of
      None \<Rightarrow> None
    | Some (n, w) \<Rightarrow> map_option (Cons n) (utf8_decode (drop w r)))"

lemma base_64:
  fixes n :: nat
  shows "n div 4096 * 4096 + n div 64 mod 64 * 64 + n mod 64 = n"
    and "n div 262144 * 262144 + n div 4096 mod 64 * 4096 + n div 64 mod 64 * 64 + n mod 64 = n"
proof -
  have d: "n div 4096 = n div 64 div 64" "n div 262144 = n div 4096 div 64"
    using div_mult2_eq [of n 64 64] div_mult2_eq [of n 4096 64] by simp_all
  have "n div 64 * 64 + n mod 64 = n" "n div 64 div 64 * 64 + n div 64 mod 64 = n div 64"
    "n div 4096 div 64 * 64 + n div 4096 mod 64 = n div 4096" by simp_all
  with d show "n div 4096 * 4096 + n div 64 mod 64 * 64 + n mod 64 = n"
    and "n div 262144 * 262144 + n div 4096 mod 64 * 4096 + n div 64 mod 64 * 64 + n mod 64 = n"
    by linarith+
qed

lemma utf8_head_char:
  assumes "is_scalar n"
  shows "\<exists>a w. utf8_char n = a # w \<and> utf8_head a (w @ r) = Some (n, length w)"
proof -
  consider "n < 0x80" | "0x80 \<le> n" "n < 0x800" | "0x800 \<le> n" "n < 0x10000" | "0x10000 \<le> n" by linarith
  then show ?thesis
  proof cases
    case 2
    then have "n div 64 < 32" "2 \<le> n div 64" by linarith+
    with 2 show ?thesis by (simp add: utf8_char_def utf8_head_def is_tail_def)
  next
    case 3
    then have "n div 4096 < 16" by linarith
    with base_64(1) [of n] show ?thesis using 3 assms
      by (simp add: utf8_char_def utf8_head_def is_tail_def is_scalar_def Let_def)
  next
    case 4
    then have "n div 262144 < 5" using assms unfolding is_scalar_def by linarith
    with base_64(2) [of n] show ?thesis using 4 assms
      by (simp add: utf8_char_def utf8_head_def is_tail_def is_scalar_def Let_def)
  qed (simp add: utf8_char_def utf8_head_def)
qed

lemma utf8_decode_char: "is_scalar n \<Longrightarrow> utf8_decode (utf8_char n @ r) = map_option (Cons n) (utf8_decode r)"
  using utf8_head_char [of n r] by auto

lemma utf8_decode_encode [text_simps]: "list_all is_scalar s \<Longrightarrow> utf8_decode (utf8_encode s) = Some s"
  by (induction s) (simp_all add: utf8_encode_def utf8_decode_char)

lemma tail_octet:
  fixes n :: nat
  assumes "n = x * 64 + (b - 0x80)" and "0x80 \<le> b" and "b < 0xC0"
  shows "n div 64 = x" and "n mod 64 = b - 0x80"
proof -
  have "b - 0x80 < 64" using assms by linarith
  then show "n div 64 = x" "n mod 64 = b - 0x80" unfolding assms(1) by (simp_all del: diff_is_0_eq Nat.add_diff_assoc)
qed

lemma utf8_head_Some:
  assumes "utf8_head a r = Some (n, w)"
  shows "is_scalar n \<and> w \<le> length r \<and> utf8_char n = a # take w r"
proof -
  consider "a < 0x80" | "0xC2 \<le> a" "a < 0xE0" | "0xE0 \<le> a" "a < 0xF0" | "0xF0 \<le> a" "a < 0xF5"
    using assms by (auto simp: utf8_head_def split: if_splits)
  then show ?thesis
  proof cases
    case 1
    with assms show ?thesis by (auto simp: utf8_head_def utf8_char_def is_scalar_def is_surrogate_def)
  next
    case 2
    with assms obtain b q where r: "r = b # q" by (cases r) (auto simp: utf8_head_def)
    with 2 assms have b: "0x80 \<le> b" "b < 0xC0" and n: "n = (a - 0xC0) * 64 + (b - 0x80)" "w = 1"
      by (auto simp: utf8_head_def is_tail_def split: if_splits)
    moreover from 2 b n have "0x80 \<le> n" "n < 0x800" by linarith+
    ultimately show ?thesis using 2 r tail_octet [OF n(1) b]
      by (simp add: utf8_char_def is_scalar_def is_surrogate_def)
  next
    case 3
    with assms obtain b c q where r: "r = b # c # q"
      by (auto simp: utf8_head_def Let_def numeral_2_eq_2 Suc_le_length_iff split: if_splits)
    with 3 assms have b: "0x80 \<le> b" "b < 0xC0" "0x80 \<le> c" "c < 0xC0"
      and n: "n = ((a - 0xE0) * 64 + (b - 0x80)) * 64 + (c - 0x80)" "w = 2" "0x800 \<le> n" "\<not> is_surrogate n"
      by (auto simp: utf8_head_def is_tail_def Let_def algebra_simps split: if_splits)
    note c = tail_octet [OF n(1) b(3,4)]
    note d = tail_octet [OF c(1) b(1,2)]
    have e: "n div 64 div 64 = n div 4096" using div_mult2_eq [of n 64 64] by simp
    with d(1) 3 have "n < 0x10000" by linarith
    with e show ?thesis using 3 b r n(2-4) c d by (simp add: utf8_char_def is_scalar_def)
  next
    case 4
    with assms obtain b c d q where r: "r = b # c # d # q"
      by (auto simp: utf8_head_def Let_def numeral_3_eq_3 Suc_le_length_iff split: if_splits)
    with 4 assms have b: "0x80 \<le> b" "b < 0xC0" "0x80 \<le> c" "c < 0xC0" "0x80 \<le> d" "d < 0xC0"
      and n: "n = (((a - 0xF0) * 64 + (b - 0x80)) * 64 + (c - 0x80)) * 64 + (d - 0x80)" "w = 3"
        "0x10000 \<le> n" "n \<le> 0x10FFFF"
      by (auto simp: utf8_head_def is_tail_def Let_def algebra_simps split: if_splits)
    note d = tail_octet [OF n(1) b(5,6)]
    note c = tail_octet [OF d(1) b(3,4)]
    note e = tail_octet [OF c(1) b(1,2)]
    have f: "n div 64 div 64 = n div 4096" "n div 64 div 64 div 64 = n div 262144"
      using div_mult2_eq [of n 64 64] div_mult2_eq [of n 4096 64] by simp_all
    from f e(1) 4 have "0xF0 + n div 262144 = a" by linarith
    from f e(1) 4 have "0xF0 + n div 262144 = a" by linarith
    with f show ?thesis using 4 b r n(2-4) c d e by (simp add: utf8_char_def is_scalar_def is_surrogate_def)
  qed
qed

text \<open>Strict decoding is canonical: what it accepts is the encoding of what it returns.\<close>

lemma utf8_decode_Some: "utf8_decode bs = Some s \<Longrightarrow> list_all is_scalar s \<and> utf8_encode s = bs"
proof (induction bs arbitrary: s rule: utf8_decode.induct)
  case (2 a r)
  then obtain n w t where h: "utf8_head a r = Some (n, w)" and t: "utf8_decode (drop w r) = Some t" "s = n # t"
    by (auto split: option.splits)
  from utf8_head_Some [OF h] 2(1) [OF h refl t(1)] t(2) show ?case by (simp add: utf8_encode_def)
qed (simp add: utf8_encode_def)


section \<open>Hexadecimal\<close>

definition hex_upper :: "nat \<Rightarrow> nat" where
  "hex_upper d = (if d < 10 then 48 + d else 55 + d)"

definition hex_lower :: "nat \<Rightarrow> nat" where
  "hex_lower d = (if d < 10 then 48 + d else 87 + d)"

text \<open>\<open>raw.hex()\<close>, and SQLite's \<open>hex\<close>.\<close>

definition to_hex :: "octets \<Rightarrow> ustr" where
  "to_hex bs = concat (map (\<lambda>b. [hex_lower (b div 16), hex_lower (b mod 16)]) bs)"

definition sql_hex :: "octets \<Rightarrow> ustr" where
  "sql_hex bs = concat (map (\<lambda>b. [hex_upper (b div 16), hex_upper (b mod 16)]) bs)"

definition is_hex_upper :: "nat \<Rightarrow> bool" where
  "is_hex_upper c \<longleftrightarrow> 48 \<le> c \<and> c \<le> 57 \<or> 65 \<le> c \<and> c \<le> 70"

text \<open>\<open>re.fullmatch(r"(?:[0-9A-F]{2})*", value)\<close>\<close>

definition fullmatch_hex_pairs :: "ustr \<Rightarrow> bool" where
  "fullmatch_hex_pairs s \<longleftrightarrow> even (length s) \<and> list_all is_hex_upper s"

definition hex_digit_value :: "nat \<Rightarrow> nat" where
  "hex_digit_value c = (if c \<le> 57 then c - 48 else c - 55)"

text \<open>\<open>bytes.fromhex(value)\<close> on a matched string.\<close>

fun from_hex :: "ustr \<Rightarrow> octets" where
  "from_hex (a # b # r) = (hex_digit_value a * 16 + hex_digit_value b) # from_hex r"
| "from_hex _ = []"

lemma hex_upper_digit: "d < 16 \<Longrightarrow> is_hex_upper (hex_upper d) \<and> hex_digit_value (hex_upper d) = d"
  by (simp add: hex_upper_def is_hex_upper_def hex_digit_value_def)

lemma fullmatch_sql_hex [text_simps]: "list_all (\<lambda>b. b < 256) bs \<Longrightarrow> fullmatch_hex_pairs (sql_hex bs)"
  by (induction bs) (auto simp: fullmatch_hex_pairs_def sql_hex_def hex_upper_digit)

lemma from_hex_sql_hex [text_simps]: "list_all (\<lambda>b. b < 256) bs \<Longrightarrow> from_hex (sql_hex bs) = bs"
  by (induction bs) (auto simp: sql_hex_def hex_upper_digit)

lemma sql_hex_from_hex: "fullmatch_hex_pairs s \<Longrightarrow> sql_hex (from_hex s) = s"
proof (induction s rule: from_hex.induct)
  case (1 a b r)
  have d: "hex_digit_value c < 16 \<and> hex_upper (hex_digit_value c) = c" if "is_hex_upper c" for c
    using that by (auto simp: is_hex_upper_def hex_upper_def hex_digit_value_def)
  from 1 show ?case by (auto simp: fullmatch_hex_pairs_def sql_hex_def d)
qed (auto simp: fullmatch_hex_pairs_def sql_hex_def)

lemma length_sql_hex: "length (sql_hex bs) = 2 * length bs"
  by (induction bs) (simp_all add: sql_hex_def)

lemma utf8_octets: "list_all is_scalar s \<Longrightarrow> list_all (\<lambda>b. b < 256) (utf8_encode s)"
proof (induction s)
  case (Cons n s)
  then have "n \<le> 0x10FFFF" unfolding is_scalar_def by simp
  then have "n div 262144 < 5" by linarith
  moreover have "n mod 64 < 64" "n div 64 mod 64 < 64" "n div 4096 mod 64 < 64" by simp_all
  moreover have "n div 64 < 32" if "n < 0x800" using that by linarith
  moreover have "n div 4096 < 16" if "n < 0x10000" using that by linarith
  ultimately have "list_all (\<lambda>b. b < 256) (utf8_char n)"
    by (auto simp: utf8_char_def)
  with Cons show ?case by (simp add: utf8_encode_def)
qed (simp add: utf8_encode_def)


section \<open>Dynamic values and their JSON text\<close>

text \<open>What a query may answer. A dictionary is the list of its items, with distinct keys.\<close>

datatype uval =
    UNone
  | UBool bool
  | UInt int
  | UStr ustr
  | UList "uval list"
  | UDict "(ustr \<times> uval) list"

fun list_of :: "uval \<Rightarrow> uval list" where
  "list_of (UList xs) = xs"
| "list_of _ = []"

fun str_of :: "uval \<Rightarrow> ustr" where
  "str_of (UStr s) = s"
| "str_of _ = []"

fun int_of :: "uval \<Rightarrow> int" where
  "int_of (UInt n) = n"
| "int_of _ = 0"

fun items_of :: "uval \<Rightarrow> (ustr \<times> uval) list" where
  "items_of (UDict d) = d"
| "items_of _ = []"

fun is_list :: "uval \<Rightarrow> bool" where
  "is_list (UList _) = True"
| "is_list _ = False"

fun is_dict :: "uval \<Rightarrow> bool" where
  "is_dict (UDict _) = True"
| "is_dict _ = False"

fun is_str :: "uval \<Rightarrow> bool" where
  "is_str (UStr _) = True"
| "is_str _ = False"

fun is_int :: "uval \<Rightarrow> bool" where
  "is_int (UInt _) = True"
| "is_int _ = False"

text \<open>\<open>row[key]\<close> where the keys have been checked.\<close>

definition at :: "uval \<Rightarrow> ustr \<Rightarrow> uval" where
  "at row key = (case map_of (items_of row) key of None \<Rightarrow> UNone | Some v \<Rightarrow> v)"

lemma is_list_iff: "is_list v \<longleftrightarrow> v = UList (list_of v)"
  by (cases v) simp_all

lemma is_dict_iff: "is_dict v \<longleftrightarrow> v = UDict (items_of v)"
  by (cases v) simp_all

lemma is_str_iff: "is_str v \<longleftrightarrow> v = UStr (str_of v)"
  by (cases v) simp_all

lemma is_int_iff: "is_int v \<longleftrightarrow> v = UInt (int_of v)"
  by (cases v) simp_all

definition unit_escape :: "nat \<Rightarrow> octets" where
  "unit_escape n = [92, 117, hex_lower (n div 4096), hex_lower (n div 256 mod 16), hex_lower (n div 16 mod 16),
     hex_lower (n mod 16)]"

definition json_escape :: "nat \<Rightarrow> octets" where
  "json_escape n =
     (if n = 34 then [92, 34] else if n = 92 then [92, 92]
      else if n = 8 then lit [CHR 0x5C, CHR ''b''] else if n = 9 then lit [CHR 0x5C, CHR ''t'']
      else if n = 10 then lit [CHR 0x5C, CHR ''n''] else if n = 12 then lit [CHR 0x5C, CHR ''f'']
      else if n = 13 then lit [CHR 0x5C, CHR ''r'']
      else if 32 \<le> n \<and> n \<le> 126 then [n]
      else if n < 0x10000 then unit_escape n
      else unit_escape (0xD800 + (n - 0x10000) div 1024) @ unit_escape (0xDC00 + (n - 0x10000) mod 1024))"

definition json_string :: "ustr \<Rightarrow> octets" where
  "json_string s = 34 # concat (map json_escape s) @ [34]"

definition json_int :: "int \<Rightarrow> octets" where
  "json_int n = lit (py_str_int n)"

fun comma_join :: "octets list \<Rightarrow> octets" where
  "comma_join [] = []"
| "comma_join [x] = x"
| "comma_join (x # xs) = x @ 44 # comma_join xs"

fun json_text :: "uval \<Rightarrow> octets" where
  "json_text UNone = lit ''null''"
| "json_text (UBool b) = lit (if b then ''true'' else ''false'')"
| "json_text (UInt n) = json_int n"
| "json_text (UStr s) = json_string s"
| "json_text (UList xs) = 91 # comma_join (map json_text xs) @ [93]"
| "json_text (UDict d) = 123 # comma_join (map (\<lambda>(k, t). json_string k @ 58 # t)
      (sort_key fst (map (\<lambda>(k, v). (k, json_text v)) d))) @ [125]"

end
