(* ===== verification/Snapshot_Plan.thy ===== *)
theory Snapshot_Plan
  imports Snapshot_Text
begin

text \<open>
  The planner of \<open>scripts/private_d1_snapshot_codec.py\<close>: its bounds, its quoting, and
  \<open>build_plan\<close>, which turns the complete census of a database (its schema rows, its table
  list, the columns of each table) into the plan every table is read by. The profile is the
  default one, without a reviewed manifest: nothing is excluded.
\<close>

section \<open>Bounds and checks\<close>

definition MAX_TABLES :: int where
  "MAX_TABLES = 128"

definition MAX_ROWS :: int where
  "MAX_ROWS = 10000"

definition MAX_BYTES :: int where
  "MAX_BYTES = 4 * 1024 * 1024"

definition MAX_SCHEMA :: int where
  "MAX_SCHEMA = 2048"

definition MAX_COLUMNS :: int where
  "MAX_COLUMNS = 256"

definition MAX_PAGE_ROWS :: int where
  "MAX_PAGE_ROWS = 256"

definition MAX_QUERIES :: int where
  "MAX_QUERIES = MAX_ROWS + 3 * MAX_TABLES + 3"

definition number :: "int \<Rightarrow> ustr" where
  "number n = lit (py_str_int n)"

text \<open>\<open>_json\<close>; the values of the model always have a JSON text.\<close>

definition py_json :: "uval \<Rightarrow> octets res" where
  "py_json v = (let raw = json_text v in
     bind_res (require (int (length raw) \<le> MAX_BYTES) ''evidence_bound_exceeded'') (\<lambda>_. Inr raw))"

definition require_keys :: "uval \<Rightarrow> ustr list \<Rightarrow> string \<Rightarrow> unit res" where
  "require_keys v expected category = require (is_dict v \<and> set (map fst (items_of v)) = set expected) category"

definition name_ok :: "ustr \<Rightarrow> bool" where
  "name_ok s \<longleftrightarrow> 0 < length s \<and> length s \<le> 4096 \<and> 0 \<notin> set s \<and> \<not> list_ex is_surrogate s"

definition is_name :: "uval \<Rightarrow> bool" where
  "is_name v \<longleftrightarrow> is_str v \<and> name_ok (str_of v)"

definition is_text :: "uval \<Rightarrow> bool" where
  "is_text v \<longleftrightarrow> is_str v \<and> \<not> list_ex is_surrogate (str_of v)"


section \<open>Quoting\<close>

text \<open>\<open>value.replace(q, q + q)\<close>\<close>

definition doubled :: "nat \<Rightarrow> ustr \<Rightarrow> ustr" where
  "doubled q s = concat (map (\<lambda>c. if c = q then [q, q] else [c]) s)"

definition sql_identifier :: "ustr \<Rightarrow> ustr res" where
  "sql_identifier s = bind_res (require (name_ok s) ''unsupported_identifier'') (\<lambda>_. Inr ([34] @ doubled 34 s @ [34]))"

definition SCHEMA_SQL :: ustr where
  "SCHEMA_SQL = lit ''SELECT type,name,tbl_name,sql FROM main.sqlite_schema ORDER BY type,name,tbl_name LIMIT '' @
     number (MAX_SCHEMA + 1)"

definition TABLE_LIST_SQL :: ustr where
  "TABLE_LIST_SQL = lit ''SELECT schema,name,type,ncol,wr,\"strict\" FROM pragma_table_list WHERE schema='main' ORDER BY name LIMIT '' @
     number (MAX_SCHEMA + 1)"

definition ENCODING_SQL :: ustr where
  "ENCODING_SQL = lit ''SELECT hex(CAST('A' AS BLOB)) AS encoding_probe''"

definition columns_sql :: "ustr \<Rightarrow> ustr res" where
  "columns_sql s = bind_res (require (name_ok s) ''unsupported_identifier'') (\<lambda>_.
     Inr (lit ''SELECT cid,name,type,\"notnull\",dflt_value,pk,hidden FROM pragma_table_xinfo('' @
       ([39] @ doubled 39 s @ [39]) @ lit '') ORDER BY cid LIMIT '' @ number (MAX_COLUMNS + 1)))"


section \<open>Plans\<close>

record table_plan =
  tp_name :: ustr
  tp_columns :: "ustr list"
  tp_rowid_alias :: "ustr option"
  tp_key_columns :: "nat list"

type_synonym schema_object = "ustr \<times> ustr \<times> ustr \<times> ustr option"

record snapshot_plan =
  sp_schema :: "schema_object list"
  sp_tables :: "table_plan list"
  sp_page_size :: int
  sp_table_list :: uval

record census =
  cs_objects :: "(ustr \<times> ustr) list"
  cs_schema :: "schema_object list"
  cs_tables :: "ustr list"
  cs_views :: "ustr list"

definition SCHEMA_KEYS :: "ustr list" where
  "SCHEMA_KEYS = map lit [''type'', ''name'', ''tbl_name'', ''sql'']"

definition schema_step :: "uval \<Rightarrow> census \<Rightarrow> census res" where
  "schema_step row s =
     bind_res (require_keys row SCHEMA_KEYS ''invalid_schema'') (\<lambda>_.
     let kind = at row (lit ''type''); nm = at row (lit ''name''); owner = at row (lit ''tbl_name'');
         sql = at row (lit ''sql'') in
     bind_res (require (kind \<in> set (map (UStr \<circ> lit) [''table'', ''index'', ''view'', ''trigger'']) \<and> is_name nm \<and>
       is_name owner \<and> (sql = UNone \<or> is_text sql)) ''invalid_schema'') (\<lambda>_.
     bind_res (require ((str_of kind, str_of nm) \<notin> set (cs_objects s)) ''duplicate_schema_object'') (\<lambda>_.
     let t = s\<lparr>cs_objects := (str_of kind, str_of nm) # cs_objects s,
               cs_schema := cs_schema s @
                 [(str_of kind, str_of nm, str_of owner, if sql = UNone then None else Some (str_of sql))]\<rparr> in
     if kind = UStr (lit ''table'')
     then bind_res (require (nm = owner) ''invalid_table_identity'') (\<lambda>_.
       Inr (t\<lparr>cs_tables := cs_tables t @ [str_of nm]\<rparr>))
     else if kind = UStr (lit ''view'') then Inr (t\<lparr>cs_views := cs_views t @ [str_of nm]\<rparr>)
     else Inr t)))"

definition schema_key :: "schema_object \<Rightarrow> ustr list" where
  "schema_key row = (case row of (kind, nm, owner, _) \<Rightarrow> [kind, nm, owner])"

definition STORAGE_KEYS :: "ustr list" where
  "STORAGE_KEYS = map lit [''schema'', ''name'', ''type'', ''ncol'', ''wr'', ''strict'']"

definition int_in :: "int set \<Rightarrow> uval \<Rightarrow> bool" where
  "int_in A v \<longleftrightarrow> is_int v \<and> int_of v \<in> A"

definition storage_step :: "uval \<Rightarrow> (ustr \<times> uval) list \<Rightarrow> (ustr \<times> uval) list res" where
  "storage_step row storage =
     bind_res (require_keys row STORAGE_KEYS ''invalid_storage_census'') (\<lambda>_.
     let nm = at row (lit ''name''); kind = at row (lit ''type'') in
     bind_res (require (at row (lit ''schema'') = UStr (lit ''main'') \<and> is_name nm \<and>
       kind \<in> set (map (UStr \<circ> lit) [''table'', ''view'', ''virtual'', ''shadow'']) \<and>
       int_in {1..MAX_COLUMNS} (at row (lit ''ncol'')) \<and> int_in {0, 1} (at row (lit ''wr'')) \<and>
       int_in {0, 1} (at row (lit ''strict''))) ''invalid_storage_census'') (\<lambda>_.
     bind_res (require (kind \<notin> set (map (UStr \<circ> lit) [''virtual'', ''shadow''])) ''virtual_table_not_supported'') (\<lambda>_.
     bind_res (require (str_of nm \<notin> set (map fst storage)) ''duplicate_storage_object'') (\<lambda>_.
     Inr (storage @ [(str_of nm, row)])))))"

definition stored :: "(ustr \<times> uval) list \<Rightarrow> ustr \<Rightarrow> uval" where
  "stored storage nm = at (UDict storage) nm"

definition COLUMN_KEYS :: "ustr list" where
  "COLUMN_KEYS = map lit [''cid'', ''name'', ''type'', ''notnull'', ''dflt_value'', ''pk'', ''hidden'']"

text \<open>One column: its name is collected, and its place in the primary key when it has one.\<close>

definition column_step ::
    "int \<Rightarrow> nat \<times> uval \<Rightarrow> ustr list \<times> (int \<times> nat) list \<Rightarrow> (ustr list \<times> (int \<times> nat) list) res" where
  "column_step width indexed s = (case indexed of (index, column) \<Rightarrow> case s of (names, primary) \<Rightarrow>
     bind_res (require_keys column COLUMN_KEYS ''invalid_column_metadata'') (\<lambda>_.
     let pk = at column (lit ''pk''); dflt = at column (lit ''dflt_value''); nm = str_of (at column (lit ''name'')) in
     bind_res (require (int_in {int index} (at column (lit ''cid'')) \<and> is_name (at column (lit ''name'')) \<and>
       is_text (at column (lit ''type'')) \<and> int_in {0, 1} (at column (lit ''notnull'')) \<and>
       (dflt = UNone \<or> is_text dflt) \<and> int_in {0..width} pk \<and>
       int_in {0, 2, 3} (at column (lit ''hidden''))) ''unsupported_column_metadata'') (\<lambda>_.
     if int_of pk = 0 then Inr (names @ [nm], primary)
     else bind_res (require (int_of pk \<notin> set (map fst primary)) ''invalid_primary_key'') (\<lambda>_.
       Inr (names @ [nm], primary @ [(int_of pk, index)])))))"

text \<open>\<open>lower()\<close>, compared with ASCII names without a \<open>k\<close>: only ASCII letters matter.\<close>

definition lower_char :: "nat \<Rightarrow> nat" where
  "lower_char c = (if 65 \<le> c \<and> c \<le> 90 then c + 32 else c)"

definition aliases :: "ustr list \<Rightarrow> ustr list" where
  "aliases names = filter (\<lambda>alias. alias \<notin> set (map (map lower_char) names)) (map lit [''rowid'', ''_rowid_'', ''oid''])"

definition plan_table :: "(ustr \<times> uval) list \<Rightarrow> uval \<Rightarrow> ustr \<Rightarrow> table_plan res" where
  "plan_table storage columns_by_table nm =
     (let info = stored storage nm; columns = at columns_by_table nm; width = int (length (list_of columns)) in
     bind_res (require (at info (lit ''type'') = UStr (lit ''table'')) ''unsupported_table_storage'') (\<lambda>_.
     bind_res (require (is_list columns \<and> 0 < width \<and> width \<le> MAX_COLUMNS) ''column_bound_exceeded'') (\<lambda>_.
     bind_res (require (at info (lit ''ncol'') = UInt width) ''column_census_mismatch'') (\<lambda>_.
     bind_res (fold_res (column_step width) (enumerate 0 (list_of columns)) ([], [])) (\<lambda>(names, primary).
     bind_res (require (distinct names) ''duplicate_column'') (\<lambda>_.
     if at info (lit ''wr'') = UInt 0
     then bind_res (require (aliases names \<noteq> []) ''hidden_rowid_inaccessible'') (\<lambda>_.
       Inr \<lparr>tp_name = nm, tp_columns = names, tp_rowid_alias = Some (hd (aliases names)), tp_key_columns = []\<rparr>)
     else bind_res (require (primary \<noteq> [] \<and> set (map fst primary) = set [1..int (length primary)])
         ''without_rowid_key_unknown'') (\<lambda>_.
       Inr \<lparr>tp_name = nm, tp_columns = names, tp_rowid_alias = None,
         tp_key_columns = map snd (sort_key fst primary)\<rparr>)))))))"

definition build_plan :: "uval \<Rightarrow> uval \<Rightarrow> uval \<Rightarrow> uval \<Rightarrow> snapshot_plan res" where
  "build_plan schema_rows storage_rows columns_by_table page_size =
     bind_res (require (int_in {1..MAX_PAGE_ROWS} page_size) ''invalid_page_size'') (\<lambda>_.
     bind_res (require (is_list schema_rows \<and> int (length (list_of schema_rows)) \<le> MAX_SCHEMA) ''schema_bound_exceeded'') (\<lambda>_.
     bind_res (require (is_list storage_rows \<and> int (length (list_of storage_rows)) \<le> MAX_SCHEMA) ''invalid_storage_census'') (\<lambda>_.
     bind_res (require (is_dict columns_by_table) ''invalid_column_census'') (\<lambda>_.
     bind_res (py_json (UList [schema_rows, storage_rows, columns_by_table])) (\<lambda>_.
     bind_res (fold_res schema_step (list_of schema_rows)
       \<lparr>cs_objects = [], cs_schema = [], cs_tables = [], cs_views = []\<rparr>) (\<lambda>census.
     bind_res (require (cs_schema census = sort_key schema_key (cs_schema census)) ''noncanonical_schema_census'') (\<lambda>_.
     let table_names = sort (cs_tables census) in
     bind_res (require (int (length table_names) \<le> MAX_TABLES) ''table_bound_exceeded'') (\<lambda>_.
     bind_res (require (set (map fst (items_of columns_by_table)) = set table_names) ''column_census_mismatch'') (\<lambda>_.
     bind_res (fold_res storage_step (list_of storage_rows) []) (\<lambda>storage.
     bind_res (require (set (map fst storage) = set table_names \<union> set (cs_views census) \<union> {lit ''sqlite_schema''})
       ''schema_storage_census_mismatch'') (\<lambda>_.
     bind_res (require (at (stored storage (lit ''sqlite_schema'')) (lit ''type'') = UStr (lit ''table''))
       ''invalid_schema_storage'') (\<lambda>_.
     bind_res (require (list_all (\<lambda>nm. at (stored storage nm) (lit ''type'') = UStr (lit ''view'')) (cs_views census))
       ''invalid_view_storage'') (\<lambda>_.
     bind_res (map_res (plan_table storage columns_by_table) table_names) (\<lambda>tables.
     Inr \<lparr>sp_schema = cs_schema census, sp_tables = tables, sp_page_size = int_of page_size,
       sp_table_list = storage_rows\<rparr>))))))))))))))"

end
