(* ===== verification/Snapshot_Codec.thy ===== *)
theory Snapshot_Codec
  imports Snapshot_Plan
begin

text \<open>
  The decoder of \<open>scripts/private_d1_snapshot_codec.py\<close>: the statements that count and page a
  planned table, the decoding of counts, cells and pages, and \<open>assemble_snapshot\<close>, which
  accepts exactly the pages that cover every table.
\<close>

section \<open>Counting\<close>

definition count_sql :: "table_plan \<Rightarrow> ustr res" where
  "count_sql table = bind_res (sql_identifier (tp_name table)) (\<lambda>q.
     Inr (lit ''SELECT CAST(count(*) AS TEXT) AS row_count FROM main.'' @ q))"

definition nonzero_decimal :: "ustr \<Rightarrow> bool" where
  "nonzero_decimal s \<longleftrightarrow> (case s of [] \<Rightarrow> False
     | d # ds \<Rightarrow> 49 \<le> d \<and> d \<le> 57 \<and> list_all (\<lambda>c. 48 \<le> c \<and> c \<le> 57) ds)"

text \<open>\<open>re.fullmatch(r"(?:0|-[1-9][0-9]*|[1-9][0-9]*)", value)\<close>\<close>

definition fullmatch_integer :: "ustr \<Rightarrow> bool" where
  "fullmatch_integer s \<longleftrightarrow> s = [48] \<or> (take 1 s = [45] \<and> nonzero_decimal (drop 1 s)) \<or> nonzero_decimal s"

definition digits_value :: "ustr \<Rightarrow> int" where
  "digits_value s = fold (\<lambda>c n. n * 10 + (int c - 48)) s 0"

text \<open>\<open>int(value)\<close> on a matched string.\<close>

definition int_value :: "ustr \<Rightarrow> int" where
  "int_value s = (if take 1 s = [45] then - digits_value (drop 1 s) else digits_value s)"

definition decimal :: "uval \<Rightarrow> int res" where
  "decimal v =
     bind_res (require (is_str v \<and> fullmatch_integer (str_of v)) ''invalid_integer_wire_value'') (\<lambda>_.
     bind_res (require (length (str_of v) \<le> 20) ''invalid_integer_wire_value'') (\<lambda>_.
     let number = int_value (str_of v) in
     bind_res (require (- (2 ^ 63) \<le> number \<and> number < 2 ^ 63) ''integer_range_exceeded'') (\<lambda>_. Inr number)))"

definition decode_count :: "uval \<Rightarrow> int res" where
  "decode_count rows =
     bind_res (require (is_list rows \<and> length (list_of rows) = 1) ''invalid_row_count'') (\<lambda>_.
     let row = list_of rows ! 0 in
     bind_res (require_keys row [lit ''row_count''] ''invalid_row_count'') (\<lambda>_.
     bind_res (decimal (at row (lit ''row_count''))) (\<lambda>count.
     bind_res (require (0 \<le> count \<and> count \<le> MAX_ROWS) ''row_bound_exceeded'') (\<lambda>_. Inr count))))"


section \<open>Paging\<close>

definition type_key :: "nat \<Rightarrow> ustr" where
  "type_key index = lit ''c'' @ number (int index) @ lit ''_type''"

definition value_key :: "nat \<Rightarrow> ustr" where
  "value_key index = lit ''c'' @ number (int index) @ lit ''_value''"

fun sql_join :: "ustr \<Rightarrow> ustr list \<Rightarrow> ustr" where
  "sql_join sep [] = []"
| "sql_join sep [x] = x"
| "sql_join sep (x # xs) = x @ sep @ sql_join sep xs"

definition column_expressions :: "nat \<times> ustr \<Rightarrow> ustr list res" where
  "column_expressions indexed = (case indexed of (index, nm) \<Rightarrow>
     bind_res (sql_identifier nm) (\<lambda>column. Inr
       [lit ''typeof('' @ column @ lit '') AS '' @ type_key index,
        lit ''CASE typeof('' @ column @ lit '') WHEN 'integer' THEN CAST('' @ column @ lit '' AS TEXT) '' @
        lit ''WHEN 'text' THEN hex(CAST('' @ column @ lit '' AS BLOB)) '' @
        lit ''WHEN 'blob' THEN hex('' @ column @ lit '') ELSE NULL END AS '' @ value_key index]))"

definition order_sql :: "table_plan \<Rightarrow> ustr res" where
  "order_sql table = (case tp_rowid_alias table of
      Some alias \<Rightarrow> sql_identifier alias
    | None \<Rightarrow> bind_res (map_res (\<lambda>key. bind_res (sql_identifier (tp_columns table ! key)) (\<lambda>q.
        Inr (q @ lit '' COLLATE BINARY''))) (tp_key_columns table)) (\<lambda>keys. Inr (sql_join (lit '','') keys)))"

definition identity_expressions :: "table_plan \<Rightarrow> ustr list res" where
  "identity_expressions table = (case tp_rowid_alias table of
      Some alias \<Rightarrow> bind_res (sql_identifier alias) (\<lambda>q. Inr [lit ''CAST('' @ q @ lit '' AS TEXT) AS row_identity''])
    | None \<Rightarrow> Inr [])"

definition table_page_sql :: "table_plan \<Rightarrow> int \<Rightarrow> int \<Rightarrow> ustr res" where
  "table_page_sql table offset limit =
     bind_res (require (0 \<le> offset \<and> offset \<le> MAX_ROWS) ''invalid_page_offset'') (\<lambda>_.
     bind_res (require (1 \<le> limit \<and> limit \<le> MAX_PAGE_ROWS) ''invalid_page_limit'') (\<lambda>_.
     bind_res (identity_expressions table) (\<lambda>identity.
     bind_res (map_res column_expressions (enumerate 0 (tp_columns table))) (\<lambda>expressions.
     bind_res (order_sql table) (\<lambda>order.
     bind_res (sql_identifier (tp_name table)) (\<lambda>nm.
     Inr (lit ''SELECT '' @ sql_join (lit '','') (identity @ concat expressions) @ lit '' FROM main.'' @ nm @
       lit '' ORDER BY '' @ order @ lit '' LIMIT '' @ number limit @ lit '' OFFSET '' @ number offset)))))))"


section \<open>Cells and pages\<close>

text \<open>A decoded cell, the pair of its tag and its value; a blob keeps its lower case hex.\<close>

datatype cell =
    CNull
  | CInteger int
  | CText ustr
  | CBlob ustr

fun cell_value :: "cell \<Rightarrow> uval" where
  "cell_value CNull = UList [UStr (lit ''null''), UNone]"
| "cell_value (CInteger n) = UList [UStr (lit ''integer''), UInt n]"
| "cell_value (CText s) = UList [UStr (lit ''text''), UStr s]"
| "cell_value (CBlob h) = UList [UStr (lit ''blob''), UStr h]"

definition decode_cell :: "uval \<Rightarrow> uval \<Rightarrow> cell res" where
  "decode_cell tag v =
     (if tag = UStr (lit ''null'')
      then bind_res (require (v = UNone) ''invalid_null_wire_value'') (\<lambda>_. Inr CNull)
      else if tag = UStr (lit ''integer'') then bind_res (decimal v) (\<lambda>n. Inr (CInteger n))
      else if tag = UStr (lit ''real'') then Inl (Refused ''lossless_real_transport_unqualified'')
      else bind_res (require (tag \<in> set (map (UStr \<circ> lit) [''text'', ''blob''])) ''unsupported_sqlite_value'') (\<lambda>_.
        bind_res (require (is_str v \<and> int (length (str_of v)) \<le> MAX_BYTES * 2 \<and> fullmatch_hex_pairs (str_of v))
          ''invalid_hex_wire_value'') (\<lambda>_.
        let raw = from_hex (str_of v) in
        if tag = UStr (lit ''blob'') then Inr (CBlob (to_hex raw))
        else (case utf8_decode raw of
            None \<Rightarrow> Inl (Refused ''unsupported_text_encoding'')
          | Some s \<Rightarrow> Inr (CText s)))))"

definition row_keys :: "table_plan \<Rightarrow> ustr list" where
  "row_keys table = concat (map (\<lambda>index. [type_key index, value_key index]) [0..<length (tp_columns table)]) @
     (if tp_rowid_alias table \<noteq> None then [lit ''row_identity''] else [])"

definition decode_row :: "table_plan \<Rightarrow> uval \<Rightarrow> (cell list \<times> int option) res" where
  "decode_row table row =
     bind_res (require_keys row (row_keys table) ''invalid_wire_row'') (\<lambda>_.
     bind_res (if tp_rowid_alias table \<noteq> None
       then bind_res (decimal (at row (lit ''row_identity''))) (\<lambda>n. Inr (Some n)) else Inr None) (\<lambda>identity.
     bind_res (map_res (\<lambda>index. decode_cell (at row (type_key index)) (at row (value_key index)))
       [0..<length (tp_columns table)]) (\<lambda>cells. Inr (cells, identity))))"

definition decode_table_page :: "table_plan \<Rightarrow> uval \<Rightarrow> (cell list \<times> int option) list res" where
  "decode_table_page table rows =
     bind_res (require (is_list rows \<and> int (length (list_of rows)) \<le> MAX_PAGE_ROWS) ''page_bound_exceeded'') (\<lambda>_.
     bind_res (py_json rows) (\<lambda>_. map_res (decode_row table) (list_of rows)))"


section \<open>Assembling\<close>

record table_data =
  td_columns :: "ustr list"
  td_rows :: "cell list list"
  td_rowids :: "int list option"

record snapshot =
  sn_schema :: "schema_object list"
  sn_tables :: "(ustr \<times> table_data) list"

definition row_value :: "cell list \<Rightarrow> uval" where
  "row_value row = UList (map cell_value row)"

definition identity_value :: "int option \<Rightarrow> uval" where
  "identity_value i = (case i of None \<Rightarrow> UNone | Some n \<Rightarrow> UInt n)"

definition pair_value :: "cell list \<times> int option \<Rightarrow> uval" where
  "pair_value p = UList [row_value (fst p), identity_value (snd p)]"

definition data_value :: "table_data \<Rightarrow> uval" where
  "data_value d = UDict [(lit ''columns'', UList (map UStr (td_columns d))), (lit ''rows'', UList (map row_value (td_rows d))),
     (lit ''rowids'', case td_rowids d of None \<Rightarrow> UNone | Some ids \<Rightarrow> UList (map UInt ids))]"

definition tables_value :: "(ustr \<times> table_data) list \<Rightarrow> uval" where
  "tables_value tables = UDict (map (\<lambda>(nm, d). (nm, data_value d)) tables)"

definition object_value :: "schema_object \<Rightarrow> uval" where
  "object_value row = (case row of (kind, nm, owner, sql) \<Rightarrow>
     UList [UStr kind, UStr nm, UStr owner, case sql of None \<Rightarrow> UNone | Some s \<Rightarrow> UStr s])"

definition snapshot_value :: "snapshot \<Rightarrow> uval" where
  "snapshot_value s = UDict [(lit ''schema'', UList (map object_value (sn_schema s))),
     (lit ''tables'', tables_value (sn_tables s))]"

text \<open>\<open>sorted(values, key=_json)\<close>\<close>

definition sorted_json :: "('a \<Rightarrow> uval) \<Rightarrow> 'a list \<Rightarrow> 'a list res" where
  "sorted_json f xs = bind_res (map_res (\<lambda>x. py_json (f x)) xs) (\<lambda>_. Inr (sort_key (\<lambda>x. json_text (f x)) xs))"

definition page_rows :: "int \<Rightarrow> int \<Rightarrow> int \<Rightarrow> nat \<Rightarrow> int" where
  "page_rows width count expected_pages index =
     (if int index < expected_pages then min width (count - int index * width) else 0)"

definition page_step :: "table_plan \<Rightarrow> int \<Rightarrow> int \<Rightarrow> int \<Rightarrow> nat \<times> uval \<Rightarrow>
    (cell list \<times> int option) list \<Rightarrow> (cell list \<times> int option) list res" where
  "page_step table width count expected_pages indexed decoded = (case indexed of (index, page) \<Rightarrow>
     bind_res (require (is_list page \<and> int (length (list_of page)) = page_rows width count expected_pages index)
       ''incomplete_table_page'') (\<lambda>_.
     bind_res (decode_table_page table page) (\<lambda>rows. Inr (decoded @ rows))))"

text \<open>\<open>d[k] = v\<close>: an existing key keeps its place.\<close>

fun put_item :: "ustr \<Rightarrow> 'a \<Rightarrow> (ustr \<times> 'a) list \<Rightarrow> (ustr \<times> 'a) list" where
  "put_item k v [] = [(k, v)]"
| "put_item k v ((a, b) # d) = (if a = k then (a, v) # d else (a, b) # put_item k v d)"

lemma put_item_fresh: "k \<notin> set (map fst d) \<Longrightarrow> put_item k v d = d @ [(k, v)]"
  by (induction d) auto

definition rowid_data :: "table_plan \<Rightarrow> (cell list \<times> int option) list \<Rightarrow> table_data res" where
  "rowid_data table decoded =
     (let identities = map (\<lambda>p. snd p) decoded in
     bind_res (require (list_all (\<lambda>i. i \<noteq> None) identities \<and> sorted (map the identities) \<and> distinct identities)
       ''invalid_hidden_rowids'') (\<lambda>_.
     bind_res (sorted_json pair_value decoded) (\<lambda>canonical.
     Inr \<lparr>td_columns = tp_columns table, td_rows = map fst canonical, td_rowids = Some (map (the \<circ> snd) canonical)\<rparr>)))"

definition keyed_data :: "table_plan \<Rightarrow> (cell list \<times> int option) list \<Rightarrow> table_data res" where
  "keyed_data table decoded =
     bind_res (map_res (\<lambda>p. py_json (row_value (map (\<lambda>key. fst p ! key) (tp_key_columns table)))) decoded) (\<lambda>keys.
     bind_res (require (distinct keys) ''duplicate_without_rowid_key'') (\<lambda>_.
     bind_res (require (list_all (\<lambda>p. list_all (\<lambda>key. fst p ! key \<noteq> CNull) (tp_key_columns table)) decoded)
       ''invalid_without_rowid_key'') (\<lambda>_.
     bind_res (sorted_json row_value (map fst decoded)) (\<lambda>rows.
     Inr \<lparr>td_columns = tp_columns table, td_rows = rows, td_rowids = None\<rparr>))))"

definition assemble_table :: "snapshot_plan \<Rightarrow> uval \<Rightarrow> uval \<Rightarrow> table_plan \<Rightarrow>
    int \<times> (ustr \<times> table_data) list \<Rightarrow> (int \<times> (ustr \<times> table_data) list) res" where
  "assemble_table plan pages counts table s = (case s of (running, tables) \<Rightarrow>
     let count = at counts (tp_name table); table_pages = at pages (tp_name table); width = sp_page_size plan in
     bind_res (require (int_in {0..MAX_ROWS} count) ''invalid_row_count'') (\<lambda>_.
     bind_res (require (running + int_of count \<le> MAX_ROWS) ''row_bound_exceeded'') (\<lambda>_.
     let expected_pages = (int_of count + width - 1) div width in
     bind_res (require (is_list table_pages \<and> int (length (list_of table_pages)) = expected_pages + 1)
       ''incomplete_table_pages'') (\<lambda>_.
     bind_res (fold_res (page_step table width (int_of count) expected_pages) (enumerate 0 (list_of table_pages)) [])
       (\<lambda>decoded.
     bind_res (if tp_rowid_alias table \<noteq> None then rowid_data table decoded else keyed_data table decoded) (\<lambda>data.
     let result = put_item (tp_name table) data tables in
     bind_res (py_json (tables_value result)) (\<lambda>_. Inr (running + int_of count, result))))))))"

definition assemble_snapshot :: "snapshot_plan \<Rightarrow> uval \<Rightarrow> uval \<Rightarrow> snapshot res" where
  "assemble_snapshot plan pages counts =
     (let names = set (map tp_name (sp_tables plan)) in
     bind_res (require (is_dict pages \<and> set (map fst (items_of pages)) = names) ''incomplete_table_pages'') (\<lambda>_.
     bind_res (require (is_dict counts \<and> set (map fst (items_of counts)) = names) ''incomplete_table_counts'') (\<lambda>_.
     bind_res (fold_res (assemble_table plan pages counts) (sp_tables plan) (0, [])) (\<lambda>(_, tables).
     let result = \<lparr>sn_schema = sp_schema plan, sn_tables = tables\<rparr> in
     bind_res (py_json (snapshot_value result)) (\<lambda>_. Inr result)))))"

end
