(* ===== verification/Snapshot_Collect.thy ===== *)
theory Snapshot_Collect
  imports Snapshot_Codec
begin

text \<open>
  \<open>collect_snapshot\<close> of \<open>scripts/private_d1_snapshot_codec.py\<close>: the capture of a whole
  database through an injected query. The query is an arbitrary strategy that sees the
  statements issued before and answers with a value or raises (\<open>None\<close>).
\<close>

type_synonym query = "ustr list \<Rightarrow> ustr \<Rightarrow> uval option"

record reader =
  wire_bytes :: int
  query_count :: int
  queries :: "ustr list"

type_synonym 'a read_act = "(reader, 'a) act"

definition fresh_reader :: reader where
  "fresh_reader = \<lparr>wire_bytes = 0, query_count = 0, queries = []\<rparr>"

fun map_act :: "('a \<Rightarrow> ('s, 'b) act) \<Rightarrow> 'a list \<Rightarrow> ('s, 'b list) act" where
  "map_act f [] = return_act []"
| "map_act f (x # xs) = bind_act (f x) (\<lambda>y. bind_act (map_act f xs) (\<lambda>ys. return_act (y # ys)))"

definition read_sql :: "query \<Rightarrow> ustr \<Rightarrow> uval read_act" where
  "read_sql query sql =
     bind_act (gets_act queries) (\<lambda>earlier.
     then_act (modify_act (\<lambda>s. s\<lparr>query_count := query_count s + 1, queries := queries s @ [sql]\<rparr>))
     (bind_act (gets_act query_count) (\<lambda>n.
     then_act (require_act (n \<le> MAX_QUERIES) ''query_bound_exceeded'')
     (bind_act (case query earlier sql of
         None \<Rightarrow> raise_act (Refused ''snapshot_query_failed'')
       | Some rows \<Rightarrow> return_act rows) (\<lambda>rows.
     then_act (require_act (is_list rows) ''invalid_query_response'')
     (bind_act (lift_res (py_json rows)) (\<lambda>raw.
     then_act (modify_act (\<lambda>s. s\<lparr>wire_bytes := wire_bytes s + int (length raw)\<rparr>))
     (bind_act (gets_act wire_bytes) (\<lambda>bytes.
     then_act (require_act (bytes \<le> MAX_BYTES) ''evidence_bound_exceeded'') (return_act rows))))))))))"

text \<open>A statement the codec generates, and its answer.\<close>

definition read_generated :: "query \<Rightarrow> ustr res \<Rightarrow> uval read_act" where
  "read_generated query sql = bind_act (lift_res sql) (read_sql query)"

definition table_name_step :: "uval \<Rightarrow> ustr list \<Rightarrow> ustr list res" where
  "table_name_step row names =
     bind_res (require_keys row SCHEMA_KEYS ''invalid_schema'') (\<lambda>_.
     if at row (lit ''type'') = UStr (lit ''table'')
     then bind_res (require (is_name (at row (lit ''name''))) ''unsupported_identifier'') (\<lambda>_.
       Inr (names @ [str_of (at row (lit ''name''))]))
     else Inr names)"

definition collect_names :: "uval \<Rightarrow> uval \<Rightarrow> ustr list res" where
  "collect_names schema encoding =
     bind_res (require (encoding = UList [UDict [(lit ''encoding_probe'', UStr (lit ''41''))]])
       ''unsupported_database_text_encoding'') (\<lambda>_.
     bind_res (require (is_list schema \<and> int (length (list_of schema)) \<le> MAX_SCHEMA) ''schema_bound_exceeded'') (\<lambda>_.
     bind_res (fold_res table_name_step (list_of schema) []) (\<lambda>names.
     bind_res (require (int (length names) \<le> MAX_TABLES \<and> distinct names) ''invalid_table_census'') (\<lambda>_.
     Inr names))))"

text \<open>\<open>range(0, count, page_size)\<close>\<close>

definition page_offsets :: "int \<Rightarrow> int \<Rightarrow> int list" where
  "page_offsets count width = map (\<lambda>i. int i * width) [0..<nat ((count + width - 1) div width)]"

definition collect_table :: "query \<Rightarrow> snapshot_plan \<Rightarrow> table_plan \<Rightarrow> int \<Rightarrow> (int \<times> uval) read_act" where
  "collect_table query plan table running =
     bind_act (read_generated query (count_sql table)) (\<lambda>rows.
     bind_act (lift_res (decode_count rows)) (\<lambda>count.
     then_act (require_act (running + count \<le> MAX_ROWS) ''row_bound_exceeded'')
     (bind_act (map_act (\<lambda>offset. read_generated query (table_page_sql table offset (sp_page_size plan)))
         (page_offsets count (sp_page_size plan))) (\<lambda>pages.
     bind_act (read_generated query (table_page_sql table count 1)) (\<lambda>sentinel.
     return_act (count, UList (pages @ [sentinel])))))))"

fun collect_tables :: "query \<Rightarrow> snapshot_plan \<Rightarrow> table_plan list \<Rightarrow> int \<Rightarrow> (ustr \<times> int \<times> uval) list read_act" where
  "collect_tables query plan [] running = return_act []"
| "collect_tables query plan (table # tables) running =
     bind_act (collect_table query plan table running) (\<lambda>(count, pages).
     bind_act (collect_tables query plan tables (running + count)) (\<lambda>rest.
     return_act ((tp_name table, count, pages) # rest)))"

definition collect_snapshot :: "query \<Rightarrow> uval \<Rightarrow> snapshot read_act" where
  "collect_snapshot query page_size =
     bind_act (read_sql query SCHEMA_SQL) (\<lambda>schema.
     bind_act (read_sql query TABLE_LIST_SQL) (\<lambda>storage.
     bind_act (read_sql query ENCODING_SQL) (\<lambda>encoding.
     bind_act (lift_res (collect_names schema encoding)) (\<lambda>names.
     bind_act (map_act (\<lambda>nm. bind_act (read_generated query (columns_sql nm)) (\<lambda>rows. return_act (nm, rows))) (sort names))
       (\<lambda>columns.
     bind_act (lift_res (build_plan schema storage (UDict columns) page_size)) (\<lambda>plan.
     bind_act (collect_tables query plan (sp_tables plan) 0) (\<lambda>collected.
     bind_act (lift_res (assemble_snapshot plan (UDict (map (\<lambda>(nm, _, pages). (nm, pages)) collected))
       (UDict (map (\<lambda>(nm, count, _). (nm, UInt count)) collected)))) (\<lambda>result.
     then_act (bind_act (lift_res (py_json (snapshot_value result))) (\<lambda>_. return_act ())) (return_act result)))))))))"

end
