(* ===== verification/Snapshot_Wellformed.thy ===== *)
theory Snapshot_Wellformed
  imports Snapshot_Codec
begin

text \<open>
  What a plan of the snapshot codec promises: every table the schema names, in order, each
  with sane columns and an order its pages can be read in.
\<close>

section \<open>Well-formed plans\<close>

text \<open>
  SQLite compares names without regard to the case of ASCII letters; a rowid is accessible by
  one of its three names when no column has that name.
\<close>

definition same_char :: "nat \<Rightarrow> nat \<Rightarrow> bool" where
  "same_char x y \<longleftrightarrow> x = y \<or> x \<in> {65..90} \<and> y = x + 32 \<or> y \<in> {65..90} \<and> x = y + 32"

definition same_name :: "ustr \<Rightarrow> ustr \<Rightarrow> bool" where
  "same_name s t \<longleftrightarrow> list_all2 same_char s t"

definition rowid_accessible :: "ustr \<Rightarrow> ustr list \<Rightarrow> bool" where
  "rowid_accessible a columns \<longleftrightarrow> a \<in> {lit ''rowid'', lit ''_rowid_'', lit ''oid''} \<and> list_all (\<lambda>c. \<not> same_name c a) columns"

text \<open>The place of a column in the primary key, from 1; 0 when it is not part of it.\<close>

definition key_place :: "uval list \<Rightarrow> nat \<Rightarrow> int" where
  "key_place columns k = int_of (at (columns ! k) (lit ''pk''))"

text \<open>The columns of the primary key, each once, in the order of their places.\<close>

definition key_order :: "uval list \<Rightarrow> nat list \<Rightarrow> bool" where
  "key_order columns ks \<longleftrightarrow> set ks = {k. k < length columns \<and> key_place columns k \<noteq> 0} \<and>
     map (key_place columns) ks = [1..int (length ks)]"

definition table_plan_ok :: "table_plan \<Rightarrow> bool" where
  "table_plan_ok t \<longleftrightarrow> name_ok (tp_name t) \<and> tp_columns t \<noteq> [] \<and> int (length (tp_columns t)) \<le> MAX_COLUMNS \<and>
     list_all name_ok (tp_columns t) \<and> distinct (tp_columns t) \<and>
     (case tp_rowid_alias t of
        Some a \<Rightarrow> rowid_accessible a (tp_columns t) \<and> tp_key_columns t = []
      | None \<Rightarrow> tp_key_columns t \<noteq> [] \<and> distinct (tp_key_columns t) \<and>
          list_all (\<lambda>k. k < length (tp_columns t)) (tp_key_columns t))"

definition plan_ok :: "snapshot_plan \<Rightarrow> bool" where
  "plan_ok p \<longleftrightarrow> 1 \<le> sp_page_size p \<and> sp_page_size p \<le> MAX_PAGE_ROWS \<and> int (length (sp_tables p)) \<le> MAX_TABLES \<and>
     sorted (map tp_name (sp_tables p)) \<and> distinct (map tp_name (sp_tables p)) \<and> list_all table_plan_ok (sp_tables p)"

text \<open>The tables a schema names.\<close>

definition schema_tables :: "uval list \<Rightarrow> ustr list" where
  "schema_tables rows = map (\<lambda>r. str_of (at r (lit ''name''))) (filter (\<lambda>r. at r (lit ''type'') = UStr (lit ''table'')) rows)"

lemma schema_tables_Cons: "schema_tables (r # rows) =
    (if at r (lit ''type'') = UStr (lit ''table'') then [str_of (at r (lit ''name''))] else []) @ schema_tables rows"
  by (simp add: schema_tables_def)

text \<open>The object a row of \<open>sqlite_schema\<close> stands for, read off its four columns.\<close>

definition schema_object_of :: "uval \<Rightarrow> schema_object" where
  "schema_object_of r = (str_of (at r (lit ''type'')), str_of (at r (lit ''name'')), str_of (at r (lit ''tbl_name'')),
     case at r (lit ''sql'') of UStr text \<Rightarrow> Some text | _ \<Rightarrow> None)"


section \<open>The schema\<close>

definition census_ok :: "census \<Rightarrow> bool" where
  "census_ok s \<longleftrightarrow> distinct (cs_tables s) \<and> list_all name_ok (cs_tables s) \<and>
     (\<forall>n\<in>set (cs_tables s). (lit ''table'', n) \<in> set (cs_objects s))"

lemma schema_step_census:
  assumes "schema_step row s = Inr t" and "census_ok s"
  shows "census_ok t \<and> cs_tables t = cs_tables s @ schema_tables [row]"
  using assms
  by (auto simp: schema_step_def Let_def bind_res_Inr census_ok_def schema_tables_def is_name_def split: if_splits)

lemma schema_fold_census:
  assumes "fold_res schema_step rows s = Inr t" and "census_ok s"
  shows "census_ok t \<and> cs_tables t = cs_tables s @ schema_tables rows"
  using assms
proof (induction rows arbitrary: s)
  case Nil
  then show ?case by (simp add: schema_tables_def)
next
  case (Cons row rows)
  then obtain u where u: "schema_step row s = Inr u" and t: "fold_res schema_step rows u = Inr t"
    by (auto simp: bind_res_Inr)
  from schema_step_census [OF u Cons.prems(2)] Cons.IH [OF t] show ?case
    by (simp add: schema_tables_def)
qed

lemma schema_step_object:
  "schema_step row s = Inr t \<Longrightarrow> cs_schema t = cs_schema s @ [schema_object_of row]"
  by (auto simp: schema_step_def Let_def bind_res_Inr schema_object_of_def is_text_def
      split: if_splits uval.splits)

lemma schema_fold_objects:
  "fold_res schema_step rows s = Inr t \<Longrightarrow> cs_schema t = cs_schema s @ map schema_object_of rows"
  by (induction rows arbitrary: s) (auto simp: bind_res_Inr dest: schema_step_object)


section \<open>The columns of a table\<close>

lemma same_name_lower: "list_all (\<lambda>x. x \<notin> {65..90}) a \<Longrightarrow> same_name c a \<Longrightarrow> map lower_char c = a"
  unfolding same_name_def
proof (induction c arbitrary: a)
  case (Cons x c)
  then show ?case by (auto simp: list_all2_Cons1 same_char_def lower_char_def)
qed simp

lemma alias_names: "list_all (list_all (\<lambda>x. x \<notin> {65..90})) (map lit [''rowid'', ''_rowid_'', ''oid''])"
  by code_simp

lemma aliases_accessible:
  assumes "a \<in> set (aliases columns)"
  shows "rowid_accessible a columns"
proof -
  from assms have a: "a \<in> set (map lit [''rowid'', ''_rowid_'', ''oid''])" "a \<notin> set (map (map lower_char) columns)"
    unfolding aliases_def set_filter by blast+
  with alias_names have lower: "list_all (\<lambda>x. x \<notin> {65..90}) a" unfolding list_all_iff by blast
  have "\<not> same_name c a" if "c \<in> set columns" for c
    using same_name_lower [OF lower, of c] a(2) that by force
  with a(1) show ?thesis by (simp add: rowid_accessible_def list_all_iff)
qed

definition columns_ok :: "nat \<Rightarrow> ustr list \<times> (int \<times> nat) list \<Rightarrow> bool" where
  "columns_ok n s \<longleftrightarrow> length (fst s) = n \<and> list_all name_ok (fst s) \<and> distinct (map fst (snd s)) \<and>
     distinct (map snd (snd s)) \<and> set (map snd (snd s)) \<subseteq> {..<n}"

lemma column_step_ok:
  assumes "column_step width (n, column) s = Inr t" and "columns_ok n s"
  shows "columns_ok (Suc n) t \<and> fst t = fst s @ [str_of (at column (lit ''name''))]"
proof -
  obtain names primary where s: "s = (names, primary)" by force
  let ?nm = "str_of (at column (lit ''name''))"
  from assms(1) s consider "name_ok ?nm" "t = (names @ [?nm], primary)"
    | "name_ok ?nm" "int_of (at column (lit ''pk'')) \<notin> set (map fst primary)"
      "t = (names @ [?nm], primary @ [(int_of (at column (lit ''pk'')), n)])"
    by (auto simp: column_step_def Let_def bind_res_Inr is_name_def split: if_splits)
  then show ?thesis using assms(2) s by cases (auto simp: columns_ok_def)
qed

lemma column_fold_ok:
  assumes "fold_res (column_step width) (enumerate n columns) s = Inr t" and "columns_ok n s"
  shows "columns_ok (n + length columns) t \<and> fst t = fst s @ map (\<lambda>c. str_of (at c (lit ''name''))) columns"
  using assms
proof (induction columns arbitrary: n s)
  case (Cons c columns)
  then obtain u where u: "column_step width (n, c) s = Inr u"
    and t: "fold_res (column_step width) (enumerate (Suc n) columns) u = Inr t"
    by (auto simp: bind_res_Inr)
  from column_step_ok [OF u Cons.prems(2)] Cons.IH [OF t] show ?case by simp
qed simp

lemma column_fold_keys:
  "fold_res (column_step width) (enumerate n columns) s = Inr t \<Longrightarrow>
    snd t = snd s @ map (\<lambda>(i, c). (int_of (at c (lit ''pk'')), i))
      (filter (\<lambda>(i, c). int_of (at c (lit ''pk'')) \<noteq> 0) (enumerate n columns))"
proof (induction columns arbitrary: n s)
  case (Cons c columns)
  then obtain u where u: "column_step width (n, c) s = Inr u"
    and t: "fold_res (column_step width) (enumerate (Suc n) columns) u = Inr t"
    by (auto simp: bind_res_Inr)
  obtain names primary where s: "s = (names, primary)" by force
  have "snd u = snd s @ (if int_of (at c (lit ''pk'')) = 0 then [] else [(int_of (at c (lit ''pk'')), n)])"
    using u s by (auto simp: column_step_def Let_def bind_res_Inr split: if_splits)
  with Cons.IH [OF t] show ?case by simp
qed simp

lemma key_order_sorted:
  assumes p: "primary = map (\<lambda>(i, c). (int_of (at c (lit ''pk'')), i))
      (filter (\<lambda>(i, c). int_of (at c (lit ''pk'')) \<noteq> 0) (enumerate 0 columns))"
    and d: "distinct (map fst primary)" and s: "set (map fst primary) = set [1..int (length primary)]"
  shows "key_order columns (map snd (sort_key fst primary))"
proof -
  let ?P = "sort_key fst primary"
  have each: "fst x = key_place columns (snd x)" if "x \<in> set primary" for x
    using that by (auto simp: p key_place_def in_set_enumerate_eq)
  have "map fst ?P = [1..int (length primary)]"
  proof (rule sorted_distinct_set_unique)
    show "distinct (map fst ?P)" using d by (simp add: distinct_map)
    show "set (map fst ?P) = set [1..int (length primary)]" using s by simp
  qed simp_all
  moreover have "map (key_place columns) (map snd ?P) = map fst ?P" using each by simp
  moreover have "snd ` set primary = {k. k < length columns \<and> key_place columns k \<noteq> 0}"
  proof (rule set_eqI)
    fix k
    have "k \<in> snd ` set primary \<longleftrightarrow> (\<exists>c. (k, c) \<in> set (enumerate 0 columns) \<and> int_of (at c (lit ''pk'')) \<noteq> 0)"
      by (force simp: p)
    then show "k \<in> snd ` set primary \<longleftrightarrow> k \<in> {k. k < length columns \<and> key_place columns k \<noteq> 0}"
      by (auto simp: in_set_enumerate_eq key_place_def)
  qed
  ultimately show ?thesis by (simp add: key_order_def)
qed

lemma plan_table_ok:
  assumes "plan_table storage columns_by_table nm = Inr t" and "name_ok nm"
  shows "table_plan_ok t \<and> tp_name t = nm \<and>
    tp_columns t = map (\<lambda>c. str_of (at c (lit ''name''))) (list_of (at columns_by_table nm)) \<and>
    (tp_rowid_alias t = None \<longrightarrow> key_order (list_of (at columns_by_table nm)) (tp_key_columns t))"
proof -
  let ?cs = "list_of (at columns_by_table nm)"
  have start: "columns_ok 0 ([], [])" by (simp add: columns_ok_def)
  from assms(1) obtain names primary where
    w: "0 < length ?cs" "int (length ?cs) \<le> MAX_COLUMNS"
    and f: "fold_res (column_step (int (length ?cs))) (enumerate 0 ?cs) ([], []) = Inr (names, primary)"
    and d: "distinct names"
    and t: "if at (stored storage nm) (lit ''wr'') = UInt 0
      then aliases names \<noteq> [] \<and> t = \<lparr>tp_name = nm, tp_columns = names, tp_rowid_alias = Some (hd (aliases names)), tp_key_columns = []\<rparr>
      else primary \<noteq> [] \<and> set (map fst primary) = set [1..int (length primary)] \<and> t = \<lparr>tp_name = nm, tp_columns = names, tp_rowid_alias = None, tp_key_columns = map snd (sort_key fst primary)\<rparr>"
    by (auto simp: plan_table_def Let_def bind_res_Inr split: if_splits)
  from column_fold_ok [OF f start]
  have c: "columns_ok (length ?cs) (names, primary)" "names = map (\<lambda>c. str_of (at c (lit ''name''))) ?cs"
    unfolding fst_conv snd_conv append_Nil add_0 by blast+
  have "distinct (map snd (sort_key fst primary))"
    using c(1) by (simp add: columns_ok_def distinct_map)
  moreover have "list_all (\<lambda>k. k < length names) (map snd (sort_key fst primary))"
    using c by (auto simp: columns_ok_def list_all_iff)
  moreover have "map snd (sort_key fst primary) \<noteq> []" if "primary \<noteq> []"
    using that by (simp flip: length_greater_0_conv)
  moreover have "key_order ?cs (map snd (sort_key fst primary))" if "set (map fst primary) = set [1..int (length primary)]"
    using column_fold_keys [OF f] c(1) that by (intro key_order_sorted) (simp_all add: columns_ok_def)
  ultimately show ?thesis
    using t w c d assms(2) aliases_accessible [OF hd_in_set, of names]
    by (auto simp: table_plan_ok_def columns_ok_def split: if_splits)
qed


section \<open>The whole plan\<close>

lemma build_plan_parts:
  assumes "build_plan schema_rows storage_rows columns_by_table page_size = Inr p"
  obtains census storage where
    "fold_res schema_step (list_of schema_rows) \<lparr>cs_objects = [], cs_schema = [], cs_tables = [], cs_views = []\<rparr> = Inr census"
    and "int_in {1..MAX_PAGE_ROWS} page_size" and "sp_page_size p = int_of page_size"
    and "int (length (cs_tables census)) \<le> MAX_TABLES" and "sp_schema p = cs_schema census"
    and "map_res (plan_table storage columns_by_table) (sort (cs_tables census)) = Inr (sp_tables p)"
  using assms by (auto simp: build_plan_def Let_def bind_res_Inr)

lemma build_plan_ok:
  assumes "build_plan schema_rows storage_rows columns_by_table page_size = Inr p"
  shows "plan_ok p \<and> sp_schema p = map schema_object_of (list_of schema_rows) \<and>
    map tp_name (sp_tables p) = sort (schema_tables (list_of schema_rows)) \<and>
    (\<forall>t\<in>set (sp_tables p). tp_columns t =
       map (\<lambda>c. str_of (at c (lit ''name''))) (list_of (at columns_by_table (tp_name t))) \<and>
       (tp_rowid_alias t = None \<longrightarrow> key_order (list_of (at columns_by_table (tp_name t))) (tp_key_columns t)))"
proof -
  from build_plan_parts [OF assms] obtain census storage where
    f: "fold_res schema_step (list_of schema_rows) \<lparr>cs_objects = [], cs_schema = [], cs_tables = [], cs_views = []\<rparr> = Inr census"
    and size: "int_in {1..MAX_PAGE_ROWS} page_size" "sp_page_size p = int_of page_size"
    and n: "int (length (cs_tables census)) \<le> MAX_TABLES" and o: "sp_schema p = cs_schema census"
    and m: "map_res (plan_table storage columns_by_table) (sort (cs_tables census)) = Inr (sp_tables p)"
    by blast
  have "census_ok \<lparr>cs_objects = [], cs_schema = [], cs_tables = [], cs_views = []\<rparr>" by (simp add: census_ok_def)
  from schema_fold_census [OF f this] have c: "census_ok census" "cs_tables census = schema_tables (list_of schema_rows)"
    by simp_all
  from m have all: "list_all2 (\<lambda>nm t. plan_table storage columns_by_table nm = Inr t) (sort (cs_tables census)) (sp_tables p)"
    by (simp add: map_res_Inr)
  have each: "list_all2 (\<lambda>nm t. table_plan_ok t \<and> tp_name t = nm \<and> tp_columns t =
      map (\<lambda>c. str_of (at c (lit ''name''))) (list_of (at columns_by_table nm)) \<and>
      (tp_rowid_alias t = None \<longrightarrow> key_order (list_of (at columns_by_table nm)) (tp_key_columns t)))
    (sort (cs_tables census)) (sp_tables p)"
    using plan_table_ok c(1)
    by (intro list.rel_mono_strong [OF all]) (auto simp: census_ok_def list_all_iff)
  then have names: "map tp_name (sp_tables p) = sort (cs_tables census)"
    by (induction rule: list_all2_induct) simp_all
  have "list_all table_plan_ok (sp_tables p)" and "\<forall>t\<in>set (sp_tables p). tp_columns t =
       map (\<lambda>c. str_of (at c (lit ''name''))) (list_of (at columns_by_table (tp_name t))) \<and>
       (tp_rowid_alias t = None \<longrightarrow> key_order (list_of (at columns_by_table (tp_name t))) (tp_key_columns t))"
    using each by (induction rule: list_all2_induct) simp_all
  moreover have "length (sp_tables p) = length (cs_tables census)"
    using names by (metis length_map length_sort)
  ultimately show ?thesis
    using names c n size schema_fold_objects [OF f] o by (simp add: plan_ok_def census_ok_def int_in_def)
qed

end
