(* ===== verification/Snapshot_Queries.thy ===== *)
theory Snapshot_Queries
  imports Snapshot_Collect Snapshot_Wellformed
begin

text \<open>
  What a capture may ask: statements that only select, at most \<open>MAX_QUERIES\<close> of them on every
  outcome, and answers of at most \<open>MAX_BYTES\<close> in all when it returns. The bound on the
  statements is exact arithmetic: three for the census, one per table for its columns, two
  per table and one per row in the worst paging.
\<close>

definition is_select :: "ustr \<Rightarrow> bool" where
  "is_select sql \<longleftrightarrow> take 7 sql = lit ''SELECT ''"

definition selects :: "ustr res \<Rightarrow> bool" where
  "selects r \<longleftrightarrow> (\<forall>sql. r = Inr sql \<longrightarrow> is_select sql)"

lemma is_select_lit: "is_select (lit ''SELECT '' @ s)"
  by (simp add: is_select_def lit_def)

lemma fixed_selects: "is_select SCHEMA_SQL" "is_select TABLE_LIST_SQL" "is_select ENCODING_SQL"
  by (simp_all add: is_select_def SCHEMA_SQL_def TABLE_LIST_SQL_def ENCODING_SQL_def lit_def)

lemma generated_selects: "selects (columns_sql s)" "selects (count_sql t)" "selects (table_page_sql t offset limit)"
  by (auto simp: selects_def columns_sql_def count_sql_def table_page_sql_def bind_res_Inr is_select_def lit_def)


section \<open>The ledger of a reader\<close>

definition reader_ok :: "reader \<Rightarrow> bool" where
  "reader_ok s \<longleftrightarrow> query_count s \<le> MAX_QUERIES \<and> query_count s = int (length (queries s)) \<and> list_all is_select (queries s)"

definition asked :: "int \<Rightarrow> reader \<Rightarrow> bool" where
  "asked k s \<longleftrightarrow> query_count s \<le> k \<and> wire_bytes s \<le> MAX_BYTES"

text \<open>An action that asks at most once.\<close>

definition one_query :: "'a read_act \<Rightarrow> bool" where
  "one_query m \<longleftrightarrow> (\<forall>k. k + 1 \<le> MAX_QUERIES \<longrightarrow> hoare reader_ok (asked k) m (\<lambda>_. asked (k + 1)))"

lemma read_sql_one:
  assumes "is_select sql"
  shows "one_query (read_sql query sql)"
proof -
  have "reader_ok t \<and> (\<forall>x. r = Inr x \<longrightarrow> asked (k + 1) t)"
    if "k + 1 \<le> MAX_QUERIES" "reader_ok s" "asked k s" "read_sql query sql s = (r, t)" for k s r t
    using that assms
    by (auto simp: read_sql_def act_simps reader_ok_def asked_def split: option.splits if_splits sum.splits)
  then show ?thesis by (auto simp: one_query_def intro: hoareI)
qed

lemma read_generated_one: "selects sql \<Longrightarrow> one_query (read_generated query sql)"
  unfolding read_generated_def one_query_def
  using read_sql_one unfolding one_query_def selects_def
  by (cases sql) (auto simp: hoare_def act_simps)

lemma one_query_bind_return:
  "one_query m \<Longrightarrow> one_query (bind_act m (\<lambda>x. return_act (f x)))"
  unfolding one_query_def by (intro allI impI hoare_bind) (auto intro: hoare_return)

lemma hoare_one: "one_query m \<Longrightarrow> k + 1 \<le> MAX_QUERIES \<Longrightarrow> hoare reader_ok (asked k) m (\<lambda>_. asked (k + 1))"
  by (simp add: one_query_def)

lemma hoare_map_act:
  assumes "\<And>x. x \<in> set xs \<Longrightarrow> one_query (f x)" and "k + int (length xs) \<le> MAX_QUERIES"
  shows "hoare reader_ok (asked k) (map_act f xs) (\<lambda>_. asked (k + int (length xs)))"
  using assms
proof (induction xs arbitrary: k)
  case Nil
  show ?case by (auto intro: hoare_return)
next
  case (Cons x xs)
  have a: "hoare reader_ok (asked k) (f x) (\<lambda>_. asked (k + 1))"
    by (rule hoare_one) (use Cons.prems in auto)
  have "hoare reader_ok (asked (k + 1)) (map_act f xs) (\<lambda>_. asked (k + 1 + int (length xs)))"
    by (rule Cons.IH) (use Cons.prems in auto)
  then show ?case
    unfolding map_act.simps by (intro hoare_bind [OF a] hoare_bind hoare_return) (simp_all add: algebra_simps)
qed


section \<open>Tables\<close>

lemma page_count:
  assumes "0 \<le> count" and "1 \<le> width"
  shows "int (length (page_offsets count width)) \<le> count"
proof -
  have "count + width - 1 \<le> count * width + (width - 1)"
    using mult_left_mono [OF assms(2,1)] by simp
  then have "(count + width - 1) div width \<le> (count * width + (width - 1)) div width"
    using assms(2) by (intro zdiv_mono1) auto
  also have "\<dots> = count" using assms(2) by (simp add: div_pos_pos_trivial)
  finally show ?thesis using assms by (simp add: page_offsets_def)
qed

lemma decode_count_bounds: "decode_count rows = Inr n \<Longrightarrow> 0 \<le> n \<and> n \<le> MAX_ROWS"
  by (auto simp: decode_count_def Let_def bind_res_Inr)

lemma hoare_collect_table:
  assumes "k + 2 + (MAX_ROWS - running) \<le> MAX_QUERIES" and "running \<le> MAX_ROWS" and "1 \<le> sp_page_size plan"
  shows "hoare reader_ok (asked k) (collect_table query plan table running)
    (\<lambda>r s. asked (k + 2 + fst r) s \<and> 0 \<le> fst r \<and> running + fst r \<le> MAX_ROWS)"
proof -
  have count: "hoare reader_ok (asked k) (read_generated query (count_sql table)) (\<lambda>_. asked (k + 1))"
    by (rule hoare_one [OF read_generated_one]) (use assms in \<open>simp_all add: generated_selects\<close>)
  have pages: "hoare reader_ok (asked (k + 1))
      (map_act (\<lambda>offset. read_generated query (table_page_sql table offset (sp_page_size plan))) (page_offsets n (sp_page_size plan)))
      (\<lambda>_. asked (k + 1 + n))" if "0 \<le> n" "running + n \<le> MAX_ROWS" for n
    by (rule hoare_post [OF hoare_map_act])
       (use that assms page_count [OF that(1) assms(3)] in \<open>auto simp: generated_selects asked_def intro!: read_generated_one\<close>)
  have sentinel: "hoare reader_ok (asked (k + 1 + n)) (read_generated query (table_page_sql table n 1)) (\<lambda>_. asked (k + 1 + n + 1))"
    if "running + n \<le> MAX_ROWS" for n
    by (rule hoare_one [OF read_generated_one]) (use that assms in \<open>simp_all add: generated_selects\<close>)
  show ?thesis
    unfolding collect_table_def
  proof (rule hoare_bind [OF count], rule hoare_bind [OF hoare_lift])
    fix rows n
    show "hoare reader_ok (\<lambda>s. asked (k + 1) s \<and> decode_count rows = Inr n)
      (then_act (require_act (running + n \<le> MAX_ROWS) ''row_bound_exceeded'')
        (bind_act (map_act (\<lambda>offset. read_generated query (table_page_sql table offset (sp_page_size plan)))
            (page_offsets n (sp_page_size plan)))
          (\<lambda>pages. bind_act (read_generated query (table_page_sql table n 1))
            (\<lambda>sentinel. return_act (n, UList (pages @ [sentinel]))))))
      (\<lambda>r s. asked (k + 2 + fst r) s \<and> 0 \<le> fst r \<and> running + fst r \<le> MAX_ROWS)"
    proof (rule hoare_assume, rule hoare_then [OF hoare_require], rule hoare_assume)
      assume "decode_count rows = Inr n" and r: "running + n \<le> MAX_ROWS"
      then have n: "0 \<le> n" by (simp add: decode_count_bounds)
      show "hoare reader_ok (asked (k + 1))
        (bind_act (map_act (\<lambda>offset. read_generated query (table_page_sql table offset (sp_page_size plan)))
            (page_offsets n (sp_page_size plan)))
          (\<lambda>pages. bind_act (read_generated query (table_page_sql table n 1))
            (\<lambda>sentinel. return_act (n, UList (pages @ [sentinel])))))
        (\<lambda>r s. asked (k + 2 + fst r) s \<and> 0 \<le> fst r \<and> running + fst r \<le> MAX_ROWS)"
        by (rule hoare_bind [OF pages [OF n r]], rule hoare_bind [OF sentinel [OF r]], rule hoare_return)
           (use n r in \<open>simp add: asked_def\<close>)
    qed
  qed
qed

lemma hoare_collect_tables:
  assumes "k + 2 * int (length tables) + (MAX_ROWS - running) \<le> MAX_QUERIES" and "running \<le> MAX_ROWS"
    and "1 \<le> sp_page_size plan"
  shows "hoare reader_ok (asked k) (collect_tables query plan tables running) (\<lambda>_. asked MAX_QUERIES)"
  using assms
proof (induction tables arbitrary: k running)
  case Nil
  then show ?case by (auto intro!: hoare_return simp: asked_def)
next
  case (Cons t ts)
  have one: "hoare reader_ok (asked k) (collect_table query plan t running)
      (\<lambda>r s. asked (k + 2 + fst r) s \<and> 0 \<le> fst r \<and> running + fst r \<le> MAX_ROWS)"
    by (rule hoare_collect_table) (use Cons.prems in auto)
  have rest: "hoare reader_ok (asked (k + 2 + n)) (collect_tables query plan ts (running + n)) (\<lambda>_. asked MAX_QUERIES)"
    if "0 \<le> n" "running + n \<le> MAX_ROWS" for n
    by (rule Cons.IH) (use Cons.prems that in auto)
  show ?case
    unfolding collect_tables.simps
  proof (rule hoare_bind [OF one])
    fix r :: "int \<times> uval"
    show "hoare reader_ok (\<lambda>s. asked (k + 2 + fst r) s \<and> 0 \<le> fst r \<and> running + fst r \<le> MAX_ROWS)
      (case r of (count, pages) \<Rightarrow> bind_act (collect_tables query plan ts (running + count))
         (\<lambda>rest. return_act ((tp_name t, count, pages) # rest)))
      (\<lambda>_. asked MAX_QUERIES)"
      by (cases r) (auto intro!: hoare_assume hoare_bind [OF rest] hoare_return)
  qed
qed


section \<open>The capture\<close>

lemma collect_names_bound: "collect_names schema encoding = Inr names \<Longrightarrow> int (length names) \<le> MAX_TABLES"
  by (auto simp: collect_names_def bind_res_Inr)

lemma hoare_collect_snapshot:
  "hoare reader_ok (asked 0) (collect_snapshot query page_size) (\<lambda>_. asked MAX_QUERIES)"
proof -
  note bounds = MAX_QUERIES_def MAX_ROWS_def MAX_TABLES_def
  have fixed: "hoare reader_ok (asked k) (read_sql query sql) (\<lambda>_. asked (k + 1))"
    if "is_select sql" "k \<le> 2" for sql k
    by (rule hoare_one [OF read_sql_one]) (use that in \<open>simp_all add: bounds\<close>)
  have columns: "hoare reader_ok (asked 3)
      (map_act (\<lambda>nm. bind_act (read_generated query (columns_sql nm)) (\<lambda>rows. return_act (nm, rows))) (sort names))
      (\<lambda>_. asked (3 + MAX_TABLES))" if "int (length names) \<le> MAX_TABLES" for names
    by (rule hoare_post [OF hoare_map_act])
       (use that in \<open>auto simp: generated_selects asked_def bounds intro!: one_query_bind_return read_generated_one\<close>)
  have tables: "hoare reader_ok (asked (3 + MAX_TABLES)) (collect_tables query plan (sp_tables plan) 0) (\<lambda>_. asked MAX_QUERIES)"
    if "plan_ok plan" for plan
    by (rule hoare_collect_tables) (use that in \<open>auto simp: plan_ok_def bounds\<close>)
  have plans: "hoare reader_ok P (lift_res (build_plan schema storage columns page_size)) (\<lambda>plan s. P s \<and> plan_ok plan)"
    for schema storage columns P
    using build_plan_ok by (auto simp: hoare_def act_simps)
  have names: "hoare reader_ok P (lift_res (collect_names schema encoding)) (\<lambda>names s. P s \<and> int (length names) \<le> MAX_TABLES)"
    for schema encoding P
    using collect_names_bound by (auto simp: hoare_def act_simps)
  have finish: "hoare reader_ok P (then_act (bind_act (lift_res r) (\<lambda>_. return_act ())) (return_act x)) (\<lambda>_. P)"
    for P :: "reader \<Rightarrow> bool" and r :: "octets res" and x :: snapshot
    by (auto simp: hoare_def act_simps split: sum.splits)
  show ?thesis
    unfolding collect_snapshot_def
    apply (rule hoare_bind, rule fixed, rule fixed_selects, simp)
    apply (rule hoare_bind, rule fixed, rule fixed_selects, simp)
    apply (rule hoare_bind, rule fixed, rule fixed_selects, simp)
    apply (rule hoare_bind, rule names, rule hoare_assume, simp)
    apply (rule hoare_bind, erule columns)
    apply (rule hoare_bind, rule plans, rule hoare_assume)
    apply (rule hoare_bind, erule tables)
    apply (rule hoare_bind, rule hoare_lift)
    apply (rule hoare_post, rule finish, simp)
    done
qed

end
