(* ===== verification/Snapshot_Wire.thy ===== *)
theory Snapshot_Wire
  imports Snapshot_Codec "HOL-Library.Multiset"
begin

text \<open>
  The wire form of stored rows, as the generated statements ask SQLite to render them, and
  its inverse: whatever the codec decodes from the rendering of a stored cell is that cell,
  and two discovered names never run into the SQL around them.
\<close>

section \<open>Integers\<close>

lemma digits_value_lit: "digits_value (lit s) = decimal_value s"
proof -
  have "fold (\<lambda>c n. n * 10 + (int c - 48)) (map of_char s) a = fold (\<lambda>c n. n * 10 + digit_value c) s a" for a
    by (induction s arbitrary: a) (simp_all add: digit_value_def)
  then show ?thesis by (simp add: digits_value_def decimal_value_def lit_def)
qed

lemma nat_digits_nonzero: "0 < n \<Longrightarrow> nonzero_decimal (lit (nat_digits n))"
proof (induction n rule: nat_digits.induct)
  case (1 n)
  show ?case
  proof (cases "n < 10")
    case True
    with 1 show ?thesis by (subst nat_digits.simps) (simp add: lit_def nonzero_decimal_def)
  next
    case False
    then have "nonzero_decimal (lit (nat_digits (n div 10)))" using 1 by simp
    moreover have "48 \<le> (48 + n mod 10)" "48 + n mod 10 \<le> 57" by simp_all
    ultimately show ?thesis using False
      by (subst nat_digits.simps) (auto simp: lit_def nonzero_decimal_def split: list.splits)
  qed
qed

lemma nat_digits_short: "n < 10 ^ Suc k \<Longrightarrow> length (nat_digits n) \<le> Suc k"
proof (induction k arbitrary: n)
  case 0
  then show ?case by (simp add: nat_digits.simps)
next
  case (Suc k)
  then have "n div 10 < 10 ^ Suc k" by (simp add: less_mult_imp_div_less mult.commute)
  with Suc.IH show ?case by (subst nat_digits.simps) auto
qed

lemma int_value_number:
  assumes "0 < n"
  shows "int_value (number n) = n"
proof -
  have "nonzero_decimal (number n)"
    using nat_digits_nonzero [of "nat n"] assms by (simp add: number_def py_str_int_def)
  then have "take 1 (number n) \<noteq> [45]" by (auto simp: nonzero_decimal_def split: list.splits)
  with assms show ?thesis
    by (simp add: int_value_def number_def py_str_int_def digits_value_lit decimal_value_nat_digits)
qed

lemma decimal_number:
  assumes "- (2 ^ 63) \<le> n" and "n < 2 ^ 63"
  shows "decimal (UStr (number n)) = Inr n"
proof -
  have short: "length (nat_digits m) \<le> 19" if "m \<le> 2 ^ 63" for m
    by (rule nat_digits_short [of _ 18, simplified]) (use that in auto)
  have neg: "digits_value (lit (nat_digits (nat (- n)))) = - n" if "n < 0"
    using that by (simp add: digits_value_lit decimal_value_nat_digits)
  have pos: "digits_value (lit (nat_digits (nat n))) = n" if "0 \<le> n"
    using that by (simp add: digits_value_lit decimal_value_nat_digits)
  show ?thesis
  proof (cases "n < 0")
    case True
    then have "number n = 45 # lit (nat_digits (nat (- n)))" by (simp add: number_def py_str_int_def lit_def)
    moreover have "length (nat_digits (nat (- n))) \<le> 19" by (rule short) (use assms in auto)
    ultimately show ?thesis
      using True neg nat_digits_nonzero [of "nat (- n)"] assms
      by (simp add: decimal_def fullmatch_integer_def int_value_def lit_def require_def)
  next
    case False
    then have d: "number n = lit (nat_digits (nat n))" by (simp add: number_def py_str_int_def)
    have l: "length (nat_digits (nat n)) \<le> 19" by (rule short) (use assms False in auto)
    have m: "fullmatch_integer (number n) \<and> take 1 (number n) \<noteq> [45]"
    proof (cases "n = 0")
      case True
      then show ?thesis unfolding d by (simp add: nat_digits.simps lit_def fullmatch_integer_def)
    next
      case nz: False
      with False nat_digits_nonzero [of "nat n"] show ?thesis
        unfolding d by (auto simp: fullmatch_integer_def nonzero_decimal_def split: list.splits)
    qed
    then show ?thesis using d l pos False assms
      by (simp add: decimal_def int_value_def lit_def require_def)
  qed
qed

lemma decimal_sound: "decimal v = Inr n \<Longrightarrow> - (2 ^ 63) \<le> n \<and> n < 2 ^ 63"
  by (auto simp: decimal_def Let_def bind_res_Inr)

lemma number_inj: "0 \<le> m \<Longrightarrow> 0 \<le> n \<Longrightarrow> number m = number n \<Longrightarrow> m = n"
  unfolding number_def lit_def py_str_int_def
  by (auto dest: map_injective [of of_char] simp: inj_def dest!: nat_digits_inj)


section \<open>Cells\<close>

text \<open>What SQLite stores in a cell.\<close>

datatype stored =
    SNull
  | SInteger int
  | SReal
  | SText ustr
  | SBlob octets

fun stored_ok :: "stored \<Rightarrow> bool" where
  "stored_ok (SInteger n) \<longleftrightarrow> - (2 ^ 63) \<le> n \<and> n < 2 ^ 63"
| "stored_ok (SText s) \<longleftrightarrow> list_all is_scalar s"
| "stored_ok (SBlob bs) \<longleftrightarrow> list_all (\<lambda>b. b < 256) bs"
| "stored_ok _ \<longleftrightarrow> True"

fun wire_tag :: "stored \<Rightarrow> uval" where
  "wire_tag SNull = UStr (lit ''null'')"
| "wire_tag (SInteger _) = UStr (lit ''integer'')"
| "wire_tag SReal = UStr (lit ''real'')"
| "wire_tag (SText _) = UStr (lit ''text'')"
| "wire_tag (SBlob _) = UStr (lit ''blob'')"

fun wire_value :: "stored \<Rightarrow> uval" where
  "wire_value SNull = UNone"
| "wire_value (SInteger n) = UStr (number n)"
| "wire_value SReal = UNone"
| "wire_value (SText s) = UStr (sql_hex (utf8_encode s))"
| "wire_value (SBlob bs) = UStr (sql_hex bs)"

fun cell_of :: "stored \<Rightarrow> cell" where
  "cell_of SNull = CNull"
| "cell_of (SInteger n) = CInteger n"
| "cell_of SReal = CNull"
| "cell_of (SText s) = CText s"
| "cell_of (SBlob bs) = CBlob (to_hex bs)"

fun fits :: "stored \<Rightarrow> bool" where
  "fits SReal \<longleftrightarrow> False"
| "fits (SText s) \<longleftrightarrow> int (length (utf8_encode s)) \<le> MAX_BYTES"
| "fits (SBlob bs) \<longleftrightarrow> int (length bs) \<le> MAX_BYTES"
| "fits _ \<longleftrightarrow> True"

lemma decode_cell_wire:
  assumes "stored_ok c"
  shows "decode_cell (wire_tag c) (wire_value c) = Inr x \<longleftrightarrow> fits c \<and> x = cell_of c"
proof -
  have tags: "lit ''integer'' \<noteq> lit ''null''" "lit ''real'' \<noteq> lit ''null''" "lit ''real'' \<noteq> lit ''integer''"
    "lit ''text'' \<noteq> lit ''null''" "lit ''text'' \<noteq> lit ''integer''" "lit ''text'' \<noteq> lit ''real''"
    "lit ''blob'' \<noteq> lit ''null''" "lit ''blob'' \<noteq> lit ''integer''" "lit ''blob'' \<noteq> lit ''real''"
    "lit ''text'' \<noteq> lit ''blob''"
    by (simp_all add: lit_def)
  show ?thesis
  proof (cases c)
    case (SInteger n)
    with assms show ?thesis by (auto simp: decode_cell_def tags decimal_number)
  next
    case (SText s)
    with assms show ?thesis
      using tags utf8_octets [of s]
      by (auto simp: decode_cell_def length_sql_hex text_simps Let_def require_def)
  next
    case (SBlob bs)
    with assms show ?thesis
      using tags
      by (auto simp: decode_cell_def length_sql_hex text_simps Let_def require_def)
  qed (auto simp: decode_cell_def tags require_def)
qed


section \<open>Rows\<close>

type_synonym stored_row = "stored list \<times> int"

definition row_stored_ok :: "table_plan \<Rightarrow> stored_row \<Rightarrow> bool" where
  "row_stored_ok t r \<longleftrightarrow> length (fst r) = length (tp_columns t) \<and> list_all stored_ok (fst r) \<and>
     - (2 ^ 63) \<le> snd r \<and> snd r < 2 ^ 63"

definition wire_items :: "table_plan \<Rightarrow> stored_row \<Rightarrow> (ustr \<times> uval) list" where
  "wire_items t r = concat (map (\<lambda>i. [(type_key i, wire_tag (fst r ! i)), (value_key i, wire_value (fst r ! i))])
       [0..<length (tp_columns t)]) @
     (if tp_rowid_alias t \<noteq> None then [(lit ''row_identity'', UStr (number (snd r)))] else [])"

definition wire_row :: "table_plan \<Rightarrow> stored_row \<Rightarrow> uval" where
  "wire_row t r = UDict (wire_items t r)"

definition decoded_row :: "table_plan \<Rightarrow> stored_row \<Rightarrow> cell list \<times> int option" where
  "decoded_row t r = (map cell_of (fst r), if tp_rowid_alias t \<noteq> None then Some (snd r) else None)"

lemma type_key_inj: "type_key i = type_key j \<longleftrightarrow> i = j"
  using number_inj [of "int i" "int j"] by (auto simp: type_key_def)

lemma value_key_inj: "value_key i = value_key j \<longleftrightarrow> i = j"
  using number_inj [of "int i" "int j"] by (auto simp: value_key_def)

lemma type_not_value: "type_key i \<noteq> value_key j"
proof
  assume "type_key i = value_key j"
  then have "rev (type_key i) ! 1 = rev (value_key j) ! 1" by simp
  then show False by (simp add: type_key_def value_key_def lit_def)
qed

lemma identity_not_key: "lit ''row_identity'' \<noteq> type_key i" "lit ''row_identity'' \<noteq> value_key i"
  by (simp_all add: type_key_def value_key_def lit_def)

lemma wire_keys: "map fst (wire_items t r) = row_keys t"
  by (simp add: wire_items_def row_keys_def map_concat comp_def)

lemma distinct_row_keys: "distinct (row_keys t)"
proof -
  have "distinct (concat (map (\<lambda>i. [type_key i, value_key i]) [0..<n]))" for n
    by (induction n) (auto simp: type_key_inj value_key_inj type_not_value type_not_value [symmetric])
  then show ?thesis
    using identity_not_key by (auto simp: row_keys_def)
qed

lemma wire_at:
  assumes "i < length (tp_columns t)"
  shows "at (wire_row t r) (type_key i) = wire_tag (fst r ! i)"
    and "at (wire_row t r) (value_key i) = wire_value (fst r ! i)"
proof -
  have d: "distinct (map fst (wire_items t r))" by (simp add: wire_keys distinct_row_keys)
  have "(type_key i, wire_tag (fst r ! i)) \<in> set (wire_items t r)"
    "(value_key i, wire_value (fst r ! i)) \<in> set (wire_items t r)"
    using assms by (force simp: wire_items_def)+
  with d show "at (wire_row t r) (type_key i) = wire_tag (fst r ! i)"
    "at (wire_row t r) (value_key i) = wire_value (fst r ! i)"
    by (simp_all add: at_def wire_row_def)
qed

lemma wire_identity:
  assumes "tp_rowid_alias t \<noteq> None"
  shows "at (wire_row t r) (lit ''row_identity'') = UStr (number (snd r))"
proof -
  have d: "distinct (map fst (wire_items t r))" by (simp add: wire_keys distinct_row_keys)
  have "(lit ''row_identity'', UStr (number (snd r))) \<in> set (wire_items t r)"
    using assms by (simp add: wire_items_def)
  with d show ?thesis by (simp add: at_def wire_row_def)
qed

lemma decode_row_wire:
  assumes "row_stored_ok t r"
  shows "decode_row t (wire_row t r) = Inr x \<longleftrightarrow> list_all fits (fst r) \<and> x = decoded_row t r"
proof -
  let ?n = "length (tp_columns t)"
  have n: "length (fst r) = ?n" and ok: "\<And>i. i < ?n \<Longrightarrow> stored_ok (fst r ! i)"
    using assms by (auto simp: row_stored_ok_def list_all_length)
  have "require_keys (wire_row t r) (row_keys t) ''invalid_wire_row'' = Inr ()"
    by (simp add: require_keys_def wire_row_def require_def flip: wire_keys [of t r])
  moreover have "(if tp_rowid_alias t \<noteq> None
      then bind_res (decimal (at (wire_row t r) (lit ''row_identity''))) (\<lambda>n. Inr (Some n)) else Inr None) =
      Inr (snd (decoded_row t r))"
    using assms by (simp add: wire_identity decoded_row_def row_stored_ok_def decimal_number)
  moreover have "map_res (\<lambda>i. decode_cell (at (wire_row t r) (type_key i)) (at (wire_row t r) (value_key i))) [0..<?n] = Inr cells
      \<longleftrightarrow> list_all fits (fst r) \<and> cells = map cell_of (fst r)" for cells
  proof -
    have "list_all2 (\<lambda>i x. decode_cell (at (wire_row t r) (type_key i)) (at (wire_row t r) (value_key i)) = Inr x) [0..<?n] cells
      \<longleftrightarrow> length cells = ?n \<and> (\<forall>i<?n. fits (fst r ! i) \<and> cells ! i = cell_of (fst r ! i))"
      by (auto simp: list_all2_conv_all_nth wire_at decode_cell_wire ok)
    also have "\<dots> \<longleftrightarrow> list_all fits (fst r) \<and> cells = map cell_of (fst r)"
      using n by (auto simp: list_all_length list_eq_iff_nth_eq)
    finally show ?thesis by (simp add: map_res_Inr)
  qed
  ultimately show ?thesis
    by (auto simp: decode_row_def bind_res_Inr decoded_row_def)
qed


section \<open>Pages\<close>

lemma map_res_iff:
  assumes "\<And>x y. x \<in> set xs \<Longrightarrow> f x = Inr y \<longleftrightarrow> P x \<and> y = g x"
  shows "map_res f xs = Inr ys \<longleftrightarrow> list_all P xs \<and> ys = map g xs"
  using assms
proof (induction xs arbitrary: ys)
  case (Cons x xs)
  then show ?case by (auto simp: bind_res_Inr)
qed auto

definition wire_page :: "table_plan \<Rightarrow> stored_row list \<Rightarrow> uval" where
  "wire_page t rows = UList (map (wire_row t) rows)"

lemma decode_wire_rows:
  assumes "list_all (row_stored_ok t) rows"
  shows "map_res (decode_row t) (map (wire_row t) rows) = Inr decoded \<longleftrightarrow>
    list_all (\<lambda>r. list_all fits (fst r)) rows \<and> decoded = map (decoded_row t) rows"
proof -
  have "map_res (decode_row t) (map (wire_row t) xs) = map_res (\<lambda>r. decode_row t (wire_row t r)) xs" for xs
    by (induction xs) simp_all
  moreover have "map_res (\<lambda>r. decode_row t (wire_row t r)) rows = Inr decoded \<longleftrightarrow>
      list_all (\<lambda>r. list_all fits (fst r)) rows \<and> decoded = map (decoded_row t) rows"
    by (rule map_res_iff, rule decode_row_wire) (use assms in \<open>simp add: list_all_iff\<close>)
  ultimately show ?thesis by simp
qed

lemma decode_page_wire:
  assumes "list_all (row_stored_ok t) rows"
  shows "decode_table_page t (wire_page t rows) = Inr decoded \<longleftrightarrow>
    int (length rows) \<le> MAX_PAGE_ROWS \<and> int (length (json_text (wire_page t rows))) \<le> MAX_BYTES \<and>
    list_all (\<lambda>r. list_all fits (fst r)) rows \<and> decoded = map (decoded_row t) rows"
proof -
  note decode_wire_rows [OF assms, of decoded]
  then show ?thesis
    by (auto simp: decode_table_page_def wire_page_def bind_res_Inr py_json_def Let_def require_def)
qed

end
