(* ===== verification/Snapshot_Exact.thy ===== *)
theory Snapshot_Exact
  imports Snapshot_Wire Snapshot_Wellformed
begin

text \<open>
  What \<open>assemble_snapshot\<close> accepts: for every planned table exactly the counted rows, each
  decoded once and none twice, in the canonical order.
\<close>

section \<open>The rows of the pages\<close>

lemma page_offset_below:
  fixes c w :: int
  assumes "1 \<le> w" and "int k < (c + w - 1) div w"
  shows "int k * w < c"
proof -
  have "int k * w + w \<le> (c + w - 1) div w * w"
    using mult_right_mono [of "int k + 1" "(c + w - 1) div w" w] assms by (simp add: distrib_right)
  also have "\<dots> \<le> c + w - 1"
    using div_mult_mod_eq [of "c + w - 1" w] pos_mod_sign [of w "c + w - 1"] assms(1) by linarith
  finally show ?thesis by simp
qed

lemma page_ceiling:
  fixes c w :: int
  assumes "1 \<le> w" and "0 \<le> c"
  shows "c \<le> (c + w - 1) div w * w" and "0 \<le> (c + w - 1) div w"
proof -
  have "(c + w - 1) mod w < w" using assms by simp
  then show "c \<le> (c + w - 1) div w * w"
    using div_mult_mod_eq [of "c + w - 1" w] by linarith
  show "0 \<le> (c + w - 1) div w" using assms by (simp add: pos_imp_zdiv_nonneg_iff)
qed

lemma sum_page_rows:
  assumes "1 \<le> w" and "0 \<le> c" and "int k \<le> (c + w - 1) div w"
  shows "(\<Sum>j<k. page_rows w c ((c + w - 1) div w) j) = min (int k * w) c"
  using assms(3)
proof (induction k)
  case 0
  with assms show ?case by simp
next
  case (Suc k)
  then have "int k * w < c" using page_offset_below [OF assms(1), of k c] by simp
  with Suc assms(1) show ?case by (auto simp: page_rows_def distrib_right min_def)
qed

definition page_decodes :: "table_plan \<Rightarrow> uval \<Rightarrow> (cell list \<times> int option) list \<Rightarrow> bool" where
  "page_decodes t page d \<longleftrightarrow> is_list page \<and> map_res (decode_row t) (list_of page) = Inr d"

lemma page_decodes_length: "page_decodes t page d \<Longrightarrow> length d = length (list_of page)"
  by (auto simp: page_decodes_def map_res_Inr dest: list_all2_lengthD)

lemma page_step_decodes:
  "page_step t w c e (i, p) acc = Inr u \<Longrightarrow>
     \<exists>rows. u = acc @ rows \<and> int (length (list_of p)) = page_rows w c e i \<and> page_decodes t p rows"
  by (auto simp: bind_res_Inr page_step_def decode_table_page_def page_decodes_def)

lemma page_fold:
  assumes "fold_res (page_step t w c e) (enumerate i pages) acc = Inr d"
  shows "\<exists>ds. list_all2 (page_decodes t) pages ds \<and> d = acc @ concat ds \<and>
    (\<forall>j<length pages. int (length (list_of (pages ! j))) = page_rows w c e (i + j))"
  using assms
proof (induction pages arbitrary: i acc)
  case (Cons p pages)
  then obtain rows where p: "int (length (list_of p)) = page_rows w c e i" "page_decodes t p rows"
    and f: "fold_res (page_step t w c e) (enumerate (Suc i) pages) (acc @ rows) = Inr d"
    by (auto simp: bind_res_Inr dest!: page_step_decodes)
  from Cons.IH [OF f] obtain ds where ds: "list_all2 (page_decodes t) pages ds" "d = acc @ rows @ concat ds"
    "\<forall>j<length pages. int (length (list_of (pages ! j))) = page_rows w c e (Suc i + j)" by auto
  have "\<forall>j<length (p # pages). int (length (list_of ((p # pages) ! j))) = page_rows w c e (i + j)"
  proof (intro allI impI)
    fix j assume "j < length (p # pages)"
    then show "int (length (list_of ((p # pages) ! j))) = page_rows w c e (i + j)"
      using p(1) ds(3) by (cases j) auto
  qed
  with p(2) ds(1,2) show ?case by (intro exI [of _ "rows # ds"]) simp
qed simp

text \<open>The rows of all the pages of a table.\<close>

definition wire_rows :: "uval \<Rightarrow> uval list" where
  "wire_rows pages = concat (map list_of (list_of pages))"

lemma page_fold_rows:
  assumes "fold_res (page_step t w c ((c + w - 1) div w)) (enumerate 0 (list_of pages)) [] = Inr d"
    and "int (length (list_of pages)) = (c + w - 1) div w + 1" and "1 \<le> w" and "0 \<le> c"
  shows "map_res (decode_row t) (wire_rows pages) = Inr d \<and> int (length d) = c"
proof -
  let ?e = "(c + w - 1) div w" and ?ps = "list_of pages"
  from page_fold [OF assms(1)] obtain ds where ds: "list_all2 (page_decodes t) ?ps ds" "d = concat ds"
    "\<forall>j<length ?ps. int (length (list_of (?ps ! j))) = page_rows w c ?e j" by auto
  have "map_res (decode_row t) (concat (map list_of ps)) = Inr (concat ds)"
    if "list_all2 (page_decodes t) ps ds" for ps ds
    using that by (induction rule: list_all2_induct)
      (auto simp: page_decodes_def map_res_Inr list_all2_appendI)
  note each = this
  have rows: "int (length (concat (map list_of ps))) = (\<Sum>p\<leftarrow>ps. int (length (list_of p)))" for ps
    by (induction ps) simp_all
  from each ds(1,2) have m: "map_res (decode_row t) (wire_rows pages) = Inr d" by (simp add: wire_rows_def)
  then have "int (length d) = int (length (wire_rows pages))"
    by (auto simp: map_res_Inr dest: list_all2_lengthD)
  also have "\<dots> = (\<Sum>p\<leftarrow>?ps. int (length (list_of p)))"
    using rows [of ?ps] by (simp add: wire_rows_def)
  also have "\<dots> = (\<Sum>j<length ?ps. page_rows w c ?e j)"
    using ds(3) by (simp add: sum_list_sum_nth atLeast0LessThan)
  also have "length ?ps = Suc (nat ?e)" using assms(2) page_ceiling(2) [OF assms(3,4)] by linarith
  also have "(\<Sum>j<Suc (nat ?e). page_rows w c ?e j) = min (?e * w) c + page_rows w c ?e (nat ?e)"
    using sum_page_rows [OF assms(3,4), of "nat ?e"] page_ceiling(2) [OF assms(3,4)] by simp
  also have "\<dots> = c" using page_ceiling [OF assms(3,4)] by (simp add: page_rows_def)
  finally show ?thesis using m by simp
qed


section \<open>The canonical table\<close>

definition canonical :: "table_plan \<Rightarrow> (cell list \<times> int option) list \<Rightarrow> table_data" where
  "canonical t decoded =
     (if tp_rowid_alias t \<noteq> None
      then let c = sort_key (\<lambda>p. json_text (pair_value p)) decoded in
        \<lparr>td_columns = tp_columns t, td_rows = map fst c, td_rowids = Some (map (the \<circ> snd) c)\<rparr>
      else \<lparr>td_columns = tp_columns t, td_rows = sort_key (\<lambda>r. json_text (row_value r)) (map fst decoded),
        td_rowids = None\<rparr>)"

text \<open>A table read by its hidden rowid has every rowid once, in order of reading.\<close>

definition identities_ok :: "table_plan \<Rightarrow> (cell list \<times> int option) list \<Rightarrow> bool" where
  "identities_ok t decoded \<longleftrightarrow> tp_rowid_alias t \<noteq> None \<longrightarrow>
     list_all (\<lambda>p. snd p \<noteq> None) decoded \<and> sorted_wrt (<) (map (the \<circ> snd) decoded)"

lemma table_data_canonical:
  assumes "(if tp_rowid_alias t \<noteq> None then rowid_data t decoded else keyed_data t decoded) = Inr data"
  shows "data = canonical t decoded \<and> identities_ok t decoded"
proof (cases "tp_rowid_alias t = None")
  case True
  with assms show ?thesis
    by (auto simp: keyed_data_def sorted_json_def bind_res_Inr canonical_def identities_ok_def)
next
  case False
  with assms have all: "list_all (\<lambda>p. snd p \<noteq> None) decoded" and s: "sorted (map (the \<circ> snd) decoded)"
    and d: "distinct (map snd decoded)" and c: "data = canonical t decoded"
    by (auto simp: rowid_data_def sorted_json_def Let_def bind_res_Inr canonical_def list_all_iff comp_def)
  have "inj_on the (snd ` set decoded)"
    using all by (intro inj_onI option.expand) (force simp: list_all_iff)+
  with d have "distinct (map the (map snd decoded))" by (subst distinct_map) simp
  with s have "sorted_wrt (<) (map (the \<circ> snd) decoded)" by (simp add: strict_sorted_iff)
  with all c show ?thesis by (simp add: identities_ok_def)
qed

definition table_exact :: "uval \<Rightarrow> uval \<Rightarrow> table_plan \<Rightarrow> ustr \<times> table_data \<Rightarrow> bool" where
  "table_exact pages counts t entry \<longleftrightarrow> fst entry = tp_name t \<and>
     (\<exists>decoded. map_res (decode_row t) (wire_rows (at pages (tp_name t))) = Inr decoded \<and>
        at counts (tp_name t) = UInt (int (length decoded)) \<and>
        snd entry = canonical t decoded \<and> identities_ok t decoded)"

lemma assemble_table_exact:
  assumes "assemble_table plan pages counts t (running, tables) = Inr s" and "1 \<le> sp_page_size plan"
    and "tp_name t \<notin> set (map fst tables)"
  shows "\<exists>entry. s = (running + int_of (at counts (tp_name t)), tables @ [entry]) \<and> table_exact pages counts t entry \<and>
    0 \<le> int_of (at counts (tp_name t)) \<and> running + int_of (at counts (tp_name t)) \<le> MAX_ROWS"
proof -
  let ?n = "int_of (at counts (tp_name t))" and ?w = "sp_page_size plan" and ?ps = "at pages (tp_name t)"
  from assms(1) obtain decoded data where
    n: "is_int (at counts (tp_name t))" "0 \<le> ?n" "running + ?n \<le> MAX_ROWS"
    and l: "int (length (list_of ?ps)) = (?n + ?w - 1) div ?w + 1"
    and f: "fold_res (page_step t ?w ?n ((?n + ?w - 1) div ?w)) (enumerate 0 (list_of ?ps)) [] = Inr decoded"
    and d: "(if tp_rowid_alias t \<noteq> None then rowid_data t decoded else keyed_data t decoded) = Inr data"
    and s: "s = (running + ?n, put_item (tp_name t) data tables)"
    by (auto simp: assemble_table_def Let_def bind_res_Inr int_in_def)
  from page_fold_rows [OF f l assms(2) n(2)] table_data_canonical [OF d] n(1)
  have "table_exact pages counts t (tp_name t, data)"
    by (auto simp: table_exact_def is_int_iff)
  with s n assms(3) show ?thesis by (simp add: put_item_fresh)
qed

lemma assemble_fold_exact:
  assumes "fold_res (assemble_table plan pages counts) ts (running, tables) = Inr (final, result)"
    and "1 \<le> sp_page_size plan" and "distinct (map fst tables @ map tp_name ts)" and "running \<le> MAX_ROWS"
  shows "\<exists>entries. result = tables @ entries \<and> list_all2 (table_exact pages counts) ts entries \<and>
    final = running + (\<Sum>t\<leftarrow>ts. int_of (at counts (tp_name t))) \<and> final \<le> MAX_ROWS"
  using assms
proof (induction ts arbitrary: running tables)
  case (Cons t ts)
  then obtain s where s: "assemble_table plan pages counts t (running, tables) = Inr s"
    and f: "fold_res (assemble_table plan pages counts) ts s = Inr (final, result)"
    by (auto simp: bind_res_Inr)
  from assemble_table_exact [OF s Cons.prems(2)] Cons.prems(3) obtain entry where
    e: "s = (running + int_of (at counts (tp_name t)), tables @ [entry])" "table_exact pages counts t entry"
    "running + int_of (at counts (tp_name t)) \<le> MAX_ROWS" by auto
  then have "fst entry = tp_name t" by (simp add: table_exact_def)
  with Cons.prems(3) have "distinct (map fst (tables @ [entry]) @ map tp_name ts)" by auto
  from Cons.IH [OF f [unfolded e(1)] Cons.prems(2) this e(3)] e(2) show ?case by force
qed simp

lemma assemble_exact:
  assumes "assemble_snapshot plan pages counts = Inr snap" and "plan_ok plan"
  shows "sn_schema snap = sp_schema plan \<and> list_all2 (table_exact pages counts) (sp_tables plan) (sn_tables snap) \<and>
    (\<Sum>t\<leftarrow>sp_tables plan. int_of (at counts (tp_name t))) \<le> MAX_ROWS"
proof -
  from assms(1) obtain final tables where
    f: "fold_res (assemble_table plan pages counts) (sp_tables plan) (0, []) = Inr (final, tables)"
    and s: "snap = \<lparr>sn_schema = sp_schema plan, sn_tables = tables\<rparr>"
    by (auto simp: assemble_snapshot_def Let_def bind_res_Inr)
  from assemble_fold_exact [OF f] assms(2) s show ?thesis
    by (auto simp: plan_ok_def MAX_ROWS_def)
qed

text \<open>The canonical table holds the decoded rows, each as often as it was read.\<close>

lemma canonical_rows:
  "mset (td_rows (canonical t decoded)) = mset (map fst decoded)"
  "tp_rowid_alias t \<noteq> None \<Longrightarrow> identities_ok t decoded \<Longrightarrow>
     mset (zip (td_rows (canonical t decoded)) (map Some (the (td_rowids (canonical t decoded))))) = mset decoded"
proof -
  show "mset (td_rows (canonical t decoded)) = mset (map fst decoded)"
    by (simp add: canonical_def Let_def)
  assume a: "tp_rowid_alias t \<noteq> None" and i: "identities_ok t decoded"
  let ?c = "sort_key (\<lambda>p. json_text (pair_value p)) decoded"
  have "\<forall>p\<in>set ?c. snd p \<noteq> None" using a i by (simp add: identities_ok_def list_all_iff)
  then have "map (\<lambda>p. Some (the (snd p))) ?c = map snd ?c" by (intro map_cong) auto
  then have "zip (map fst ?c) (map Some (map (the \<circ> snd) ?c)) = zip (map fst ?c) (map snd ?c)"
    by (simp only: map_map comp_def)
  also have "\<dots> = ?c" by (rule zip_map_fst_snd)
  finally have "zip (map fst ?c) (map Some (map (the \<circ> snd) ?c)) = ?c" .
  with a show "mset (zip (td_rows (canonical t decoded)) (map Some (the (td_rowids (canonical t decoded))))) = mset decoded"
    by (simp add: canonical_def Let_def)
qed

end
