(* ===== verification/Snapshot_Faithful.thy ===== *)
theory Snapshot_Faithful
  imports Snapshot_Queries Snapshot_Exact
begin

text \<open>
  A capture of a quiescent database. \<open>serves\<close> is what the codec relies on of the provider: the
  count of a table, its pages in one order, an empty page at its end. Whatever the codec
  returns from such a provider is the canonical form of the stored rows.
\<close>

definition answer :: "(ustr \<Rightarrow> uval option) \<Rightarrow> ustr res \<Rightarrow> uval option" where
  "answer ask sql = (case sql of Inl _ \<Rightarrow> None | Inr s \<Rightarrow> ask s)"

definition stored_page :: "table_plan \<Rightarrow> stored_row list \<Rightarrow> int \<Rightarrow> int \<Rightarrow> uval" where
  "stored_page t rows offset limit = wire_page t (take (nat limit) (drop (nat offset) rows))"

definition serves :: "(ustr \<Rightarrow> uval option) \<Rightarrow> int \<Rightarrow> stored_row list \<Rightarrow> table_plan \<Rightarrow> bool" where
  "serves ask width rows t \<longleftrightarrow>
     answer ask (count_sql t) = Some (UList [UDict [(lit ''row_count'', UStr (number (int (length rows))))]]) \<and>
     list_all (\<lambda>offset. answer ask (table_page_sql t offset width) = Some (stored_page t rows offset width))
       (page_offsets (int (length rows)) width) \<and>
     answer ask (table_page_sql t (int (length rows)) 1) = Some (stored_page t rows (int (length rows)) 1)"


section \<open>What a returning capture has read\<close>

lemma read_sql_answer: "read_sql (\<lambda>_. ask) sql s = (Inr rows, u) \<Longrightarrow> ask sql = Some rows"
  by (auto simp: read_sql_def act_simps split: option.splits if_splits sum.splits)

lemma read_generated_answer: "read_generated (\<lambda>_. ask) sql s = (Inr rows, u) \<Longrightarrow> answer ask sql = Some rows"
  by (cases sql) (auto simp: read_generated_def act_simps answer_def dest: read_sql_answer)

lemma map_act_answers:
  assumes "map_act f xs s = (Inr ys, u)" and "\<And>x s y u. x \<in> set xs \<Longrightarrow> f x s = (Inr y, u) \<Longrightarrow> P x y"
  shows "list_all2 P xs ys"
  using assms
proof (induction xs arbitrary: s ys u)
  case (Cons x xs)
  then obtain y v zs w where y: "f x s = (Inr y, v)" and zs: "map_act f xs v = (Inr zs, w)" "ys = y # zs"
    by (auto simp: bind_act_Inr return_act_def)
  from Cons.prems(2) [OF _ y] Cons.IH [OF zs(1)] Cons.prems(2) zs(2) show ?case by simp
qed (simp add: return_act_def)

lemma collect_table_answers:
  assumes "collect_table (\<lambda>_. ask) plan t running s = (Inr (cnt, pages), u)"
  obtains rows ps sentinel where "answer ask (count_sql t) = Some rows" and "decode_count rows = Inr cnt"
    and "pages = UList (ps @ [sentinel])"
    and "list_all2 (\<lambda>offset p. answer ask (table_page_sql t offset (sp_page_size plan)) = Some p)
      (page_offsets cnt (sp_page_size plan)) ps"
    and "answer ask (table_page_sql t cnt 1) = Some sentinel"
proof -
  from assms obtain rows ps sentinel v w x y where r: "read_generated (\<lambda>_. ask) (count_sql t) s = (Inr rows, v)"
    and c: "decode_count rows = Inr cnt" and p: "pages = UList (ps @ [sentinel])"
    and m: "map_act (\<lambda>offset. read_generated (\<lambda>_. ask) (table_page_sql t offset (sp_page_size plan)))
      (page_offsets cnt (sp_page_size plan)) w = (Inr ps, x)"
    and e: "read_generated (\<lambda>_. ask) (table_page_sql t cnt 1) x = (Inr sentinel, y)"
    by (auto simp: collect_table_def then_act_def bind_act_Inr lift_res_def return_act_def)
  show thesis
    by (rule that [OF read_generated_answer [OF r] c p map_act_answers [OF m] read_generated_answer [OF e]])
       (rule read_generated_answer)
qed

lemma concat_pages:
  "concat (map (\<lambda>i. take w (drop (i * w) xs)) [0..<k]) = take (k * w) xs"
  by (induction k) (simp_all add: add.commute flip: take_add)

lemma serves_pages:
  assumes "serves ask w rows t" and "1 \<le> w" and "sp_page_size plan = w" and "int (length rows) < 2 ^ 63"
    and "collect_table (\<lambda>_. ask) plan t running s = (Inr (cnt, pages), u)"
  shows "cnt = int (length rows) \<and> wire_rows pages = map (wire_row t) rows"
proof -
  let ?n = "int (length rows)"
  from collect_table_answers [OF assms(5)] obtain answered ps sentinel where
    a: "answer ask (count_sql t) = Some answered" "decode_count answered = Inr cnt"
    and p: "pages = UList (ps @ [sentinel])"
    and l: "list_all2 (\<lambda>offset p. answer ask (table_page_sql t offset w) = Some p) (page_offsets cnt w) ps"
    and e: "answer ask (table_page_sql t cnt 1) = Some sentinel"
    unfolding assms(3) by blast
  have "decimal (UStr (number ?n)) = Inr ?n" by (rule decimal_number) (use assms(4) in auto)
  with a assms(1) have c: "cnt = ?n"
    by (auto simp: serves_def decode_count_def bind_res_Inr at_def Let_def)
  have "list_all2 (\<lambda>offset p. p = stored_page t rows offset w) (page_offsets ?n w) ps"
    using l assms(1) unfolding c serves_def
    by (auto simp: list_all2_conv_all_nth list_all_length)
  then have ps: "ps = map (\<lambda>offset. stored_page t rows offset w) (page_offsets ?n w)"
    by (induction rule: list_all2_induct) simp_all
  have sentinel: "sentinel = stored_page t rows ?n 1"
    using e assms(1) unfolding c serves_def by simp
  define k where "k = nat ((?n + w - 1) div w)"
  have "int k * w \<ge> ?n" using page_ceiling [OF assms(2), of ?n] by (simp add: k_def)
  with assms(2) have "int (k * nat w) \<ge> ?n" by simp
  then have whole: "take (k * nat w) rows = rows" by (simp del: of_nat_mult)
  have off: "nat (int i * w) = i * nat w" for i using assms(2) by (simp add: nat_mult_distrib)
  have "wire_rows pages = concat (map (\<lambda>i. map (wire_row t) (take (nat w) (drop (i * nat w) rows))) [0..<k])"
    unfolding wire_rows_def p ps sentinel
    by (simp add: stored_page_def wire_page_def page_offsets_def comp_def off k_def [symmetric])
  also have "\<dots> = map (wire_row t) (concat (map (\<lambda>i. take (nat w) (drop (i * nat w) rows)) [0..<k]))"
    by (simp add: map_concat comp_def)
  also have "\<dots> = map (wire_row t) rows" by (simp add: concat_pages whole)
  finally show ?thesis using c by simp
qed

lemma collect_tables_answers:
  assumes "collect_tables (\<lambda>_. ask) plan tables running s = (Inr collected, u)"
  shows "list_all2 (\<lambda>t (nm, cnt, pages). nm = tp_name t \<and>
    (\<exists>running s u. collect_table (\<lambda>_. ask) plan t running s = (Inr (cnt, pages), u))) tables collected"
  using assms
proof (induction tables arbitrary: running s collected u)
  case (Cons t ts)
  then obtain cnt pages v rest w where one: "collect_table (\<lambda>_. ask) plan t running s = (Inr (cnt, pages), v)"
    and more: "collect_tables (\<lambda>_. ask) plan ts (running + cnt) v = (Inr rest, w)"
    and c: "collected = (tp_name t, cnt, pages) # rest"
    by (auto simp: bind_act_Inr return_act_def)
  from Cons.IH [OF more] one c show ?case by auto
qed (simp add: return_act_def)


section \<open>A quiescent database\<close>

text \<open>Decoding what was read gives the stored rows back, and none of them holds a REAL.\<close>

lemma decoded_rows:
  assumes served: "serves ask (sp_page_size plan) rows t" and typed: "list_all (row_stored_ok t) rows"
    and w: "1 \<le> sp_page_size plan"
    and c: "collect_table (\<lambda>_. ask) plan t running s = (Inr (cnt, pages), u)"
    and d: "map_res (decode_row t) (wire_rows pages) = Inr decoded"
  shows "decoded = map (decoded_row t) rows \<and> (\<forall>r\<in>set rows. SReal \<notin> set (fst r))"
proof -
  have "int (length rows) < 2 ^ 63 \<or> 2 ^ 63 \<le> int (length rows)" by linarith
  moreover have False if big: "2 ^ 63 \<le> int (length rows)"
  proof -
    obtain answered where "answer ask (count_sql t) = Some answered" "decode_count answered = Inr cnt"
      using c by (rule collect_table_answers)
    with served have "decode_count (UList [UDict [(lit ''row_count'', UStr (number (int (length rows))))]]) = Inr cnt"
      by (simp add: serves_def)
    then have "decimal (UStr (number (int (length rows)))) = Inr cnt"
      by (auto simp: decode_count_def bind_res_Inr at_def Let_def)
    then have "int_value (number (int (length rows))) < 2 ^ 63"
      by (auto simp: decimal_def Let_def bind_res_Inr)
    moreover have "int_value (number (int (length rows))) = int (length rows)"
      by (rule int_value_number, rule less_le_trans [OF _ big]) simp
    ultimately show False using big by linarith
  qed
  ultimately have "wire_rows pages = map (wire_row t) rows"
    using serves_pages [OF served w refl _ c] by (elim disjE) blast+
  with d have "map_res (decode_row t) (map (wire_row t) rows) = Inr decoded" by simp
  then have "list_all (\<lambda>r. list_all fits (fst r)) rows \<and> decoded = map (decoded_row t) rows"
    by (simp only: decode_wire_rows [OF typed])
  then have f: "\<forall>r\<in>set rows. \<forall>x\<in>set (fst r). fits x" and d: "decoded = map (decoded_row t) rows"
    by (simp_all add: list_all_iff)
  have "\<not> fits SReal" by simp
  with f have "\<forall>r\<in>set rows. SReal \<notin> set (fst r)" by blast
  with d show ?thesis by blast
qed


text \<open>The plan a capture makes of the answers it reads.\<close>

definition capture_columns :: "(ustr \<Rightarrow> uval option) \<Rightarrow> uval \<Rightarrow> uval" where
  "capture_columns ask schema = UDict (map (\<lambda>nm. (nm, case answer ask (columns_sql nm) of None \<Rightarrow> UNone | Some c \<Rightarrow> c))
     (sort (schema_tables (list_of schema))))"

definition capture_plan :: "(ustr \<Rightarrow> uval option) \<Rightarrow> uval \<Rightarrow> snapshot_plan res" where
  "capture_plan ask page_size = (case (ask SCHEMA_SQL, ask TABLE_LIST_SQL) of
      (Some schema, Some storage) \<Rightarrow> build_plan schema storage (capture_columns ask schema) page_size
    | _ \<Rightarrow> Inl Crash)"

lemma table_name_fold:
  "fold_res table_name_step rows names = Inr result \<Longrightarrow> result = names @ schema_tables rows"
  by (induction rows arbitrary: names)
     (fastforce simp: table_name_step_def schema_tables_def bind_res_Inr split: if_splits)+

lemma collect_names_schema:
  "collect_names schema encoding = Inr names \<Longrightarrow> names = schema_tables (list_of schema)"
  by (auto simp: collect_names_def bind_res_Inr dest: table_name_fold)

lemma collect_snapshot_parts:
  assumes "collect_snapshot (\<lambda>_. ask) page_size s = (Inr snap, u)"
  obtains plan collected v w where "capture_plan ask page_size = Inr plan"
    and "collect_tables (\<lambda>_. ask) plan (sp_tables plan) 0 v = (Inr collected, w)"
    and "assemble_snapshot plan (UDict (map (\<lambda>(nm, _, pages). (nm, pages)) collected))
       (UDict (map (\<lambda>(nm, cnt, _). (nm, UInt cnt)) collected)) = Inr snap"
proof -
  from assms obtain schema storage encoding names columns plan collected s1 s2 s3 s4 s5 s6 s7 where
    r: "read_sql (\<lambda>_. ask) SCHEMA_SQL s = (Inr schema, s1)"
      "read_sql (\<lambda>_. ask) TABLE_LIST_SQL s1 = (Inr storage, s2)"
    and n: "collect_names schema encoding = Inr names"
    and m: "map_act (\<lambda>nm. bind_act (read_generated (\<lambda>_. ask) (columns_sql nm)) (\<lambda>rows. return_act (nm, rows))) (sort names) s4 = (Inr columns, s5)"
    and b: "build_plan schema storage (UDict columns) page_size = Inr plan"
    and c: "collect_tables (\<lambda>_. ask) plan (sp_tables plan) 0 s6 = (Inr collected, s7)"
    and a: "assemble_snapshot plan (UDict (map (\<lambda>(nm, _, pages). (nm, pages)) collected))
       (UDict (map (\<lambda>(nm, cnt, _). (nm, UInt cnt)) collected)) = Inr snap"
    by (auto simp: collect_snapshot_def then_act_def bind_act_Inr lift_res_def return_act_def)
  have "list_all2 (\<lambda>nm column. column = (nm, case answer ask (columns_sql nm) of None \<Rightarrow> UNone | Some c \<Rightarrow> c)) (sort names) columns"
    by (rule map_act_answers [OF m]) (auto simp: bind_act_Inr return_act_def dest!: read_generated_answer)
  then have "columns = map (\<lambda>nm. (nm, case answer ask (columns_sql nm) of None \<Rightarrow> UNone | Some c \<Rightarrow> c)) (sort names)"
    by (induction rule: list_all2_induct) simp_all
  then have "UDict columns = capture_columns ask schema"
    by (simp add: capture_columns_def collect_names_schema [OF n])
  with b have "capture_plan ask page_size = Inr plan"
    by (simp add: capture_plan_def read_sql_answer [OF r(1)] read_sql_answer [OF r(2)])
  from that [OF this c a] show thesis .
qed

lemma collected_items:
  assumes "list_all2 (\<lambda>t (nm, cnt, pages). nm = tp_name t \<and> P t cnt pages) tables collected"
    and "distinct (map tp_name tables)" and "t \<in> set tables"
  shows "\<exists>cnt pages. at (UDict (map (\<lambda>(nm, _, pages). (nm, pages)) collected)) (tp_name t) = pages \<and>
    at (UDict (map (\<lambda>(nm, cnt, _). (nm, UInt cnt)) collected)) (tp_name t) = UInt cnt \<and> P t cnt pages"
  using assms
proof (induction rule: list_all2_induct)
  case (Cons x xs y ys)
  obtain nm cnt pages where y: "y = (nm, cnt, pages)" by (cases y)
  show ?case
  proof (cases "t = x")
    case True
    with Cons.hyps(1) y show ?thesis by (simp add: at_def)
  next
    case False
    with Cons.prems have t: "t \<in> set xs" "tp_name x \<noteq> tp_name t" by auto
    with Cons.hyps(1) Cons.IH Cons.prems(1) y show ?thesis by (simp add: at_def)
  qed
qed simp

lemma capture_canonical:
  assumes "collect_snapshot (\<lambda>_. ask) page_size s = (Inr snap, u)" and "capture_plan ask page_size = Inr plan"
    and served: "\<And>t. t \<in> set (sp_tables plan) \<Longrightarrow> serves ask (sp_page_size plan) (rows (tp_name t)) t"
    and typed: "\<And>t. t \<in> set (sp_tables plan) \<Longrightarrow> list_all (row_stored_ok t) (rows (tp_name t))"
  shows "sn_schema snap = sp_schema plan \<and>
    sn_tables snap = map (\<lambda>t. (tp_name t, canonical t (map (decoded_row t) (rows (tp_name t))))) (sp_tables plan) \<and>
    (\<forall>t\<in>set (sp_tables plan). \<forall>r\<in>set (rows (tp_name t)). SReal \<notin> set (fst r))"
proof -
  obtain p collected v w where p: "capture_plan ask page_size = Inr p"
    and c: "collect_tables (\<lambda>_. ask) p (sp_tables p) 0 v = (Inr collected, w)"
    and a: "assemble_snapshot p (UDict (map (\<lambda>(nm, _, pages). (nm, pages)) collected))
       (UDict (map (\<lambda>(nm, cnt, _). (nm, UInt cnt)) collected)) = Inr snap"
    by (rule collect_snapshot_parts [OF assms(1)])
  from p assms(2) have p: "p = plan" by simp
  note c = c [unfolded p] and a = a [unfolded p]
  let ?pages = "UDict (map (\<lambda>(nm, _, pages). (nm, pages)) collected)"
    and ?counts = "UDict (map (\<lambda>(nm, cnt, _). (nm, UInt cnt)) collected)"
  have ok: "plan_ok plan"
    using assms(2) build_plan_ok by (fastforce simp: capture_plan_def split: option.splits)
  from assemble_exact [OF a ok] have e: "sn_schema snap = sp_schema plan"
    "list_all2 (table_exact ?pages ?counts) (sp_tables plan) (sn_tables snap)"
    and total: "(\<Sum>t\<leftarrow>sp_tables plan. int_of (at ?counts (tp_name t))) \<le> MAX_ROWS" by simp_all
  have each: "decoded = map (decoded_row t) (rows (tp_name t)) \<and> (\<forall>r\<in>set (rows (tp_name t)). SReal \<notin> set (fst r))"
    if t: "t \<in> set (sp_tables plan)" and d: "map_res (decode_row t) (wire_rows (at ?pages (tp_name t))) = Inr decoded"
      and n: "at ?counts (tp_name t) = UInt (int (length decoded))" for t decoded
  proof -
    from collected_items [OF collect_tables_answers [OF c] _ t] ok obtain cnt pages running s u where
      "at ?pages (tp_name t) = pages" "at ?counts (tp_name t) = UInt cnt"
      "collect_table (\<lambda>_. ask) plan t running s = (Inr (cnt, pages), u)"
      by (auto simp: plan_ok_def)
    with decoded_rows [OF served [OF t] typed [OF t]] d n ok show ?thesis by (simp add: plan_ok_def)
  qed
  have "list_all2 (\<lambda>t entry. entry = (tp_name t, canonical t (map (decoded_row t) (rows (tp_name t)))) \<and>
      (\<forall>r\<in>set (rows (tp_name t)). SReal \<notin> set (fst r))) (sp_tables plan) (sn_tables snap)"
    using each by (intro list.rel_mono_strong [OF e(2)]) (auto simp: table_exact_def prod_eq_iff)
  then have "sn_tables snap = map (\<lambda>t. (tp_name t, canonical t (map (decoded_row t) (rows (tp_name t))))) (sp_tables plan)"
    "\<forall>t\<in>set (sp_tables plan). \<forall>r\<in>set (rows (tp_name t)). SReal \<notin> set (fst r)"
    by (induction rule: list_all2_induct) simp_all
  with e(1) show ?thesis by simp
qed

end
