(* ===== verification/Snapshot_Quoting.thy ===== *)
theory Snapshot_Quoting
  imports Snapshot_Codec
begin

text \<open>
  How SQL reads a quoted token: a doubled quote stands for one, a single quote ends it. Names
  the codec puts into its statements are read back whole, whatever characters they hold.
\<close>

fun scan_quoted :: "nat \<Rightarrow> ustr \<Rightarrow> (ustr \<times> ustr) option" where
  "scan_quoted q [] = None"
| "scan_quoted q [c] = (if c = q then Some ([], []) else None)"
| "scan_quoted q (c # d # s) =
     (if c \<noteq> q then map_option (apfst (Cons c)) (scan_quoted q (d # s))
      else if d = q then map_option (apfst (Cons q)) (scan_quoted q s)
      else Some ([], d # s))"

lemma scan_end: "rest = [] \<or> hd rest \<noteq> q \<Longrightarrow> scan_quoted q (q # rest) = Some ([], rest)"
  by (cases rest) auto

lemma scan_other: "c \<noteq> q \<Longrightarrow> s \<noteq> [] \<Longrightarrow> scan_quoted q (c # s) = map_option (apfst (Cons c)) (scan_quoted q s)"
  by (cases s) auto

lemma scan_doubled:
  assumes "rest = [] \<or> hd rest \<noteq> q"
  shows "scan_quoted q (doubled q s @ q # rest) = Some (s, rest)"
proof (induction s)
  case Nil
  show ?case using scan_end [OF assms] by (simp add: doubled_def)
next
  case (Cons c s)
  then show ?case
    by (cases "c = q") (simp_all add: doubled_def scan_other)
qed

text \<open>
  A statement holds the token of a name when it has a quote from which SQL reads exactly that
  name and then goes on with the given text.
\<close>

definition holds_name :: "nat \<Rightarrow> string \<Rightarrow> ustr \<Rightarrow> string \<Rightarrow> ustr \<Rightarrow> bool" where
  "holds_name q before nm after sql \<longleftrightarrow>
     (\<exists>pre body rest. sql = pre @ lit before @ q # body \<and> scan_quoted q body = Some (nm, lit after @ rest))"

lemma holds_nameI:
  assumes "sql = pre @ lit before @ q # doubled q nm @ q # lit after @ rest"
    and "lit after @ rest = [] \<or> hd (lit after @ rest) \<noteq> q"
  shows "holds_name q before nm after sql"
  unfolding holds_name_def using assms(1) scan_doubled [OF assms(2), of nm] by blast

lemma identifier_token: "sql_identifier nm = Inr s \<Longrightarrow> s = 34 # doubled 34 nm @ [34]"
  by (auto simp: sql_identifier_def bind_res_Inr)

lemma columns_sql_holds: "columns_sql nm = Inr sql \<Longrightarrow> holds_name 39 ''pragma_table_xinfo('' nm '') ORDER BY cid LIMIT '' sql"
  by (rule holds_nameI [where pre = "lit ''SELECT cid,name,type,\"notnull\",dflt_value,pk,hidden FROM ''"
        and rest = "number (MAX_COLUMNS + 1)"])
     (auto simp: columns_sql_def bind_res_Inr lit_def)

lemma count_sql_holds: "count_sql t = Inr sql \<Longrightarrow> holds_name 34 '' FROM main.'' (tp_name t) '''' sql"
  by (rule holds_nameI [where pre = "lit ''SELECT CAST(count(*) AS TEXT) AS row_count''" and rest = "[]"])
     (auto simp: count_sql_def bind_res_Inr lit_def dest!: identifier_token)

lemma table_page_sql_holds:
  assumes "table_page_sql t offset limit = Inr sql"
  shows "holds_name 34 '' FROM main.'' (tp_name t) '' ORDER BY '' sql"
proof -
  from assms obtain pre q rest where "sql_identifier (tp_name t) = Inr q"
    "sql = lit ''SELECT '' @ pre @ lit '' FROM main.'' @ q @ lit '' ORDER BY '' @ rest"
    by (auto simp: table_page_sql_def bind_res_Inr)
  then show ?thesis
    by (intro holds_nameI [where pre = "lit ''SELECT '' @ pre" and rest = rest])
       (auto simp: lit_def dest!: identifier_token)
qed

end
