(* ===== verification/Snapshot_Properties.thy ===== *)
theory Snapshot_Properties
  imports Snapshot_Faithful Snapshot_Quoting "HOL-Library.Code_Target_Nat"
begin

text \<open>
  The properties of the private snapshot codec, and the capture of a small database on which
  they are exercised.
\<close>

section \<open>A small database\<close>

definition sample_table :: table_plan where
  "sample_table = \<lparr>tp_name = lit ''t'', tp_columns = [lit ''a''], tp_rowid_alias = Some (lit ''rowid''), tp_key_columns = []\<rparr>"

definition sample_rows :: "stored_row list" where
  "sample_rows = [([SText [0xE9]], 1), ([SNull], 2)]"

definition sample_schema :: uval where
  "sample_schema = UList [UDict [(lit ''type'', UStr (lit ''table'')), (lit ''name'', UStr (lit ''t'')),
     (lit ''tbl_name'', UStr (lit ''t'')), (lit ''sql'', UStr (lit ''CREATE TABLE t(a)''))]]"

definition sample_storage :: uval where
  "sample_storage = UList (map (\<lambda>(nm, n). UDict [(lit ''schema'', UStr (lit ''main'')), (lit ''name'', UStr (lit nm)),
     (lit ''type'', UStr (lit ''table'')), (lit ''ncol'', UInt n), (lit ''wr'', UInt 0), (lit ''strict'', UInt 0)])
     [(''sqlite_schema'', 5), (''t'', 1)])"

definition sample_columns :: uval where
  "sample_columns = UList [UDict [(lit ''cid'', UInt 0), (lit ''name'', UStr (lit ''a'')), (lit ''type'', UStr []),
     (lit ''notnull'', UInt 0), (lit ''dflt_value'', UNone), (lit ''pk'', UInt 0), (lit ''hidden'', UInt 0)]]"

definition sample_ask :: "ustr \<Rightarrow> uval option" where
  "sample_ask sql =
     (if sql = SCHEMA_SQL then Some sample_schema
      else if sql = TABLE_LIST_SQL then Some sample_storage
      else if sql = ENCODING_SQL then Some (UList [UDict [(lit ''encoding_probe'', UStr (lit ''41''))]])
      else if Inr sql = columns_sql (lit ''t'') then Some sample_columns
      else if Inr sql = count_sql sample_table then Some (UList [UDict [(lit ''row_count'', UStr (number 2))]])
      else if Inr sql = table_page_sql sample_table 0 1 then Some (stored_page sample_table sample_rows 0 1)
      else if Inr sql = table_page_sql sample_table 1 1 then Some (stored_page sample_table sample_rows 1 1)
      else if Inr sql = table_page_sql sample_table 2 1 then Some (stored_page sample_table sample_rows 2 1)
      else None)"

definition sample_plan :: snapshot_plan where
  "sample_plan = \<lparr>sp_schema = [(lit ''table'', lit ''t'', lit ''t'', Some (lit ''CREATE TABLE t(a)''))],
     sp_tables = [sample_table], sp_page_size = 1, sp_table_list = sample_storage\<rparr>"

definition sample_pages :: uval where
  "sample_pages = UDict [(lit ''t'', UList (map (\<lambda>offset. stored_page sample_table sample_rows offset 1) [0, 1, 2]))]"

definition sample_snapshot :: snapshot where
  "sample_snapshot = \<lparr>sn_schema = sp_schema sample_plan,
     sn_tables = [(lit ''t'', \<lparr>td_columns = [lit ''a''], td_rows = [[CNull], [CText [0xE9]]], td_rowids = Some [2, 1]\<rparr>)]\<rparr>"

lemma sample_plans:
  "build_plan sample_schema sample_storage (UDict [(lit ''t'', sample_columns)]) (UInt 1) = Inr sample_plan"
  by code_simp

lemma sample_decodes:
  "fold_res (page_step sample_table 1 2 2) (enumerate 0 (map (\<lambda>offset. stored_page sample_table sample_rows offset 1) [0, 1, 2])) [] =
     Inr [([CText [0xE9]], Some 1), ([CNull], Some 2)]"
  by code_simp

lemma sample_orders:
  "rowid_data sample_table [([CText [0xE9]], Some 1), ([CNull], Some 2)] =
     Inr \<lparr>td_columns = [lit ''a''], td_rows = [[CNull], [CText [0xE9]]], td_rowids = Some [2, 1]\<rparr>"
  by code_simp

lemma sample_tables_fit:
  "py_json (tables_value (sn_tables sample_snapshot)) = Inr (json_text (tables_value (sn_tables sample_snapshot)))"
  by code_simp

lemma sample_value_fits: "py_json (snapshot_value sample_snapshot) = Inr (json_text (snapshot_value sample_snapshot))"
  by code_simp

lemma sample_assembles:
  "assemble_snapshot sample_plan sample_pages (UDict [(lit ''t'', UInt 2)]) = Inr sample_snapshot"
proof -
  have at: "at (UDict [(lit ''t'', v)]) (lit ''t'') = v" for v by (simp add: at_def)
  have t: "tp_name sample_table = lit ''t''" "sp_page_size sample_plan = 1" "sp_tables sample_plan = [sample_table]"
    "tp_rowid_alias sample_table \<noteq> None"
    by (simp_all add: sample_table_def sample_plan_def)
  have tables: "sn_tables sample_snapshot =
      [(lit ''t'', \<lparr>td_columns = [lit ''a''], td_rows = [[CNull], [CText [0xE9]]], td_rowids = Some [2, 1]\<rparr>)]"
    by (simp add: sample_snapshot_def)
  have table: "assemble_table sample_plan sample_pages (UDict [(lit ''t'', UInt 2)]) sample_table (0, []) =
      Inr (2, sn_tables sample_snapshot)"
    using sample_decodes sample_orders sample_tables_fit t
    by (simp add: assemble_table_def sample_pages_def at int_in_def MAX_ROWS_def require_def tables)
  show ?thesis
    using sample_value_fits
    by (simp add: assemble_snapshot_def t table sample_pages_def [symmetric] require_def)
       (simp add: sample_snapshot_def sample_pages_def)
qed

lemma sample_serves: "serves sample_ask 1 sample_rows sample_table"
  by code_simp

lemma sample_capture_plan: "capture_plan sample_ask (UInt 1) = Inr sample_plan"
  by code_simp

text \<open>The run of the capture, action by action.\<close>

definition sample_reader_1 :: reader where
  "sample_reader_1 = \<lparr>wire_bytes = 70, query_count = 1, queries = [SCHEMA_SQL]\<rparr>"

definition sample_reader_2 :: reader where
  "sample_reader_2 = \<lparr>wire_bytes = 225, query_count = 2, queries = [SCHEMA_SQL, TABLE_LIST_SQL]\<rparr>"

definition sample_reader_3 :: reader where
  "sample_reader_3 = \<lparr>wire_bytes = 250, query_count = 3, queries = [SCHEMA_SQL, TABLE_LIST_SQL, ENCODING_SQL]\<rparr>"

definition sample_reader_4 :: reader where
  "sample_reader_4 = \<lparr>wire_bytes = 330, query_count = 4, queries = [SCHEMA_SQL, TABLE_LIST_SQL, ENCODING_SQL, projr (columns_sql (lit ''t''))]\<rparr>"

definition sample_reader_5 :: reader where
  "sample_reader_5 = \<lparr>wire_bytes = 463, query_count = 8, queries = queries sample_reader_4 @
     map projr [count_sql sample_table, table_page_sql sample_table 0 1, table_page_sql sample_table 1 1, table_page_sql sample_table 2 1]\<rparr>"

lemma sample_read_1: "read_sql (\<lambda>_. sample_ask) SCHEMA_SQL fresh_reader = (Inr sample_schema, sample_reader_1)"
  by code_simp

lemma sample_read_2: "read_sql (\<lambda>_. sample_ask) TABLE_LIST_SQL sample_reader_1 = (Inr sample_storage, sample_reader_2)"
  by code_simp

lemma sample_read_3: "read_sql (\<lambda>_. sample_ask) ENCODING_SQL sample_reader_2 =
     (Inr (UList [UDict [(lit ''encoding_probe'', UStr (lit ''41''))]]), sample_reader_3)"
  by code_simp

lemma sample_read_4: "read_generated (\<lambda>_. sample_ask) (columns_sql (lit ''t'')) sample_reader_3 = (Inr sample_columns, sample_reader_4)"
  by code_simp

lemma sample_read_5: "collect_tables (\<lambda>_. sample_ask) sample_plan [sample_table] 0 sample_reader_4 =
     (Inr [(lit ''t'', 2, UList (map (\<lambda>offset. stored_page sample_table sample_rows offset 1) [0, 1, 2]))], sample_reader_5)"
  by code_simp

lemmas sample_runs = sample_read_1 sample_read_2 sample_read_3 sample_read_4 sample_read_5

lemma sample_names: "collect_names sample_schema (UList [UDict [(lit ''encoding_probe'', UStr (lit ''41''))]]) = Inr [lit ''t'']"
  by code_simp

lemma sample_captures: "collect_snapshot (\<lambda>_. sample_ask) (UInt 1) fresh_reader = (Inr sample_snapshot, sample_reader_5)"
proof -
  have t: "sp_tables sample_plan = [sample_table]" by (simp add: sample_plan_def)
  note assembled = sample_assembles [unfolded sample_pages_def list.map]
  show ?thesis
    unfolding collect_snapshot_def bind_act_def then_act_def lift_res_def return_act_def
    by (simp only: sample_runs sample_names sample_plans assembled sample_value_fits t prod.case sum.case
        sort_key_simps insort_key.simps map_act.simps bind_act_def return_act_def list.map)
qed


section \<open>The properties\<close>

text \<open>C34: A capture of a database that answers every generated statement from one fixed content
  returns, whenever it returns, exactly the objects of its \<open>sqlite_schema\<close> rows, each with its
  type, name, owner and SQL text; the tables these rows name, in order; and for every one of
  them exactly the stored rows in canonical form, and no stored cell was a REAL.\<close>

theorem capture_is_the_database:
  assumes "collect_snapshot (\<lambda>_. ask) page_size fresh_reader = (Inr snap, u)"
    and "capture_plan ask page_size = Inr plan"
    and "\<forall>t\<in>set (sp_tables plan). serves ask (sp_page_size plan) (rows (tp_name t)) t \<and>
      list_all (row_stored_ok t) (rows (tp_name t))"
  shows "(\<exists>schema. ask SCHEMA_SQL = Some schema \<and> sn_schema snap = map schema_object_of (list_of schema) \<and>
      map fst (sn_tables snap) = sort (schema_tables (list_of schema))) \<and>
    sn_schema snap = sp_schema plan \<and>
    sn_tables snap = map (\<lambda>t. (tp_name t, canonical t (map (decoded_row t) (rows (tp_name t))))) (sp_tables plan) \<and>
    list_all (\<lambda>t. list_all (\<lambda>r. SReal \<notin> set (fst r)) (rows (tp_name t))) (sp_tables plan)"
proof -
  from assms(2) obtain schema storage where ask: "ask SCHEMA_SQL = Some schema"
    and plan: "build_plan schema storage (capture_columns ask schema) page_size = Inr plan"
    by (auto simp: capture_plan_def split: option.splits)
  from capture_canonical [OF assms(1,2), of rows] assms(3) have c: "sn_schema snap = sp_schema plan"
    "sn_tables snap = map (\<lambda>t. (tp_name t, canonical t (map (decoded_row t) (rows (tp_name t))))) (sp_tables plan)"
    "list_all (\<lambda>t. list_all (\<lambda>r. SReal \<notin> set (fst r)) (rows (tp_name t))) (sp_tables plan)"
    by (simp_all add: list_all_iff)
  then have "map fst (sn_tables snap) = map tp_name (sp_tables plan)" by simp
  with ask c build_plan_ok [OF plan] show ?thesis by simp
qed

theorem capture_is_the_database_witness:
  "sn_schema sample_snapshot = [(lit ''table'', lit ''t'', lit ''t'', Some (lit ''CREATE TABLE t(a)''))] \<and>
   sn_tables sample_snapshot = [(lit ''t'', canonical sample_table (map (decoded_row sample_table) sample_rows))]"
proof -
  have "\<forall>t\<in>set (sp_tables sample_plan). serves sample_ask (sp_page_size sample_plan) sample_rows t \<and>
      list_all (row_stored_ok t) sample_rows"
    using sample_serves
    by (simp add: sample_plan_def row_stored_ok_def sample_rows_def sample_table_def is_scalar_def is_surrogate_def)
  then have "sn_schema sample_snapshot = sp_schema sample_plan \<and> sn_tables sample_snapshot =
      map (\<lambda>t. (tp_name t, canonical t (map (decoded_row t) sample_rows))) (sp_tables sample_plan)"
    using capture_is_the_database [OF sample_captures sample_capture_plan, of "\<lambda>_. sample_rows"] by blast
  then show ?thesis by (simp add: sample_plan_def sample_table_def)
qed

text \<open>C35: Whatever the provider answers, a capture asks at most 10387 statements, all of them
  SELECTs, on every outcome; when it returns, the answers it read fit in \<open>MAX_BYTES\<close>.\<close>

theorem capture_asks_within_bounds:
  "case collect_snapshot query page_size fresh_reader of (r, s) \<Rightarrow>
     length (queries s) \<le> 10387 \<and> list_all is_select (queries s) \<and>
     (case r of Inl _ \<Rightarrow> True | Inr _ \<Rightarrow> wire_bytes s \<le> MAX_BYTES)"
proof -
  obtain r s where c: "collect_snapshot query page_size fresh_reader = (r, s)" by force
  have f: "reader_ok fresh_reader" "asked 0 fresh_reader"
    by (simp_all add: reader_ok_def asked_def fresh_reader_def MAX_QUERIES_def MAX_ROWS_def MAX_TABLES_def MAX_BYTES_def)
  have "reader_ok s" by (rule hoareD [OF hoare_collect_snapshot f c])
  moreover have "wire_bytes s \<le> MAX_BYTES" if "r = Inr x" for x
    using hoareD_value [OF hoare_collect_snapshot f c [unfolded that]] by (simp add: asked_def)
  ultimately show ?thesis
    using c by (auto simp: reader_ok_def MAX_QUERIES_def MAX_ROWS_def MAX_TABLES_def split: sum.split)
qed

text \<open>C36: An accepted plan is well formed: between 1 and 256 rows a page, at most 128 tables,
  which are all the tables the schema names, in order, each with its own columns, all distinct,
  and an order to read it in: a name of the rowid that no column has, in whatever case of
  letters, or exactly the columns of the primary key in the order of their places in it.\<close>

theorem build_plan_well_formed:
  assumes "build_plan schema_rows storage_rows columns_by_table page_size = Inr plan"
  shows "plan_ok plan \<and> map tp_name (sp_tables plan) = sort (schema_tables (list_of schema_rows)) \<and>
    list_all (\<lambda>t. tp_columns t = map (\<lambda>c. str_of (at c (lit ''name''))) (list_of (at columns_by_table (tp_name t))) \<and>
      (case tp_rowid_alias t of
         Some a \<Rightarrow> rowid_accessible a (tp_columns t)
       | None \<Rightarrow> key_order (list_of (at columns_by_table (tp_name t))) (tp_key_columns t))) (sp_tables plan)"
  using build_plan_ok [OF assms]
  by (auto simp: list_all_iff plan_ok_def table_plan_ok_def split: option.split)

theorem build_plan_well_formed_witness:
  "plan_ok sample_plan \<and> map tp_name (sp_tables sample_plan) = [lit ''t'']"
proof -
  have "plan_ok sample_plan" using build_plan_well_formed [OF sample_plans] by blast
  then show ?thesis by (simp add: sample_plan_def sample_table_def)
qed

text \<open>C37: Assembled pages are exact: for every table the rows of all its pages, each decoded
  once, are as many as its count and are, with their rowids, the rows of the result; rowids
  strictly increase in the order of reading.\<close>

theorem assembled_pages_are_exact:
  assumes "assemble_snapshot plan pages counts = Inr snap" and "plan_ok plan"
  shows "list_all2 (\<lambda>t (nm, data). nm = tp_name t \<and>
      (case map_res (decode_row t) (concat (map list_of (list_of (at pages (tp_name t))))) of
         Inl _ \<Rightarrow> False
       | Inr decoded \<Rightarrow> at counts (tp_name t) = UInt (int (length decoded)) \<and> td_columns data = tp_columns t \<and>
           mset (td_rows data) = mset (map fst decoded) \<and>
           (case td_rowids data of
              None \<Rightarrow> tp_rowid_alias t = None
            | Some ids \<Rightarrow> mset (zip (td_rows data) (map Some ids)) = mset decoded \<and>
                sorted_wrt (<) (map (the \<circ> snd) decoded))))
    (sp_tables plan) (sn_tables snap)"
proof -
  have "list_all2 (table_exact pages counts) (sp_tables plan) (sn_tables snap)"
    using assemble_exact [OF assms] by blast
  then show ?thesis
  proof (rule list.rel_mono_strong)
    fix t entry assume "table_exact pages counts t entry"
    then obtain decoded where d: "map_res (decode_row t) (wire_rows (at pages (tp_name t))) = Inr decoded"
      and n: "fst entry = tp_name t" "at counts (tp_name t) = UInt (int (length decoded))"
      and e: "snd entry = canonical t decoded" "identities_ok t decoded"
      by (auto simp: table_exact_def)
    have c: "td_columns (canonical t decoded) = tp_columns t"
      "td_rowids (canonical t decoded) = None \<longleftrightarrow> tp_rowid_alias t = None"
      by (simp_all add: canonical_def Let_def)
    show "case entry of (nm, data) \<Rightarrow> nm = tp_name t \<and>
      (case map_res (decode_row t) (concat (map list_of (list_of (at pages (tp_name t))))) of
         Inl _ \<Rightarrow> False
       | Inr decoded \<Rightarrow> at counts (tp_name t) = UInt (int (length decoded)) \<and> td_columns data = tp_columns t \<and>
           mset (td_rows data) = mset (map fst decoded) \<and>
           (case td_rowids data of
              None \<Rightarrow> tp_rowid_alias t = None
            | Some ids \<Rightarrow> mset (zip (td_rows data) (map Some ids)) = mset decoded \<and>
                sorted_wrt (<) (map (the \<circ> snd) decoded)))"
      using n e c canonical_rows [of t decoded]
      by (auto simp: d [unfolded wire_rows_def] case_prod_beta identities_ok_def split: option.split)
  qed
qed

theorem assembled_pages_are_exact_witness:
  "map fst (sn_tables sample_snapshot) = map tp_name (sp_tables sample_plan)"
proof -
  have "plan_ok sample_plan" using build_plan_ok [OF sample_plans] by blast
  from assembled_pages_are_exact [OF sample_assembles this] show ?thesis
    by (simp add: sample_snapshot_def sample_plan_def)
qed

text \<open>C38: A page of well-typed stored rows, as the generated statement asks for it, decodes to
  exactly these rows when no cell is a REAL and the page keeps the bounds, and refuses
  otherwise.\<close>

theorem page_roundtrip:
  assumes "list_all (row_stored_ok t) rows"
  shows "decode_table_page t (wire_page t rows) = Inr decoded \<longleftrightarrow>
    int (length rows) \<le> MAX_PAGE_ROWS \<and> int (length (json_text (wire_page t rows))) \<le> MAX_BYTES \<and>
    list_all (\<lambda>r. list_all fits (fst r)) rows \<and> decoded = map (decoded_row t) rows"
  using assms by (rule decode_page_wire)

theorem page_roundtrip_witness:
  "decode_table_page sample_table (wire_page sample_table sample_rows) =
     Inr [([CText [0xE9]], Some 1), ([CNull], Some 2)]"
proof -
  have "list_all (row_stored_ok sample_table) sample_rows"
    by (simp add: row_stored_ok_def sample_rows_def sample_table_def is_scalar_def is_surrogate_def)
  from page_roundtrip [OF this] show ?thesis by code_simp
qed

text \<open>The names in the generated statements are read back by SQL's quoting rule as exactly
  the names of the plan, whatever characters they hold; the statement goes on unchanged.\<close>

theorem names_read_back_whole:
  "(case columns_sql nm of Inl _ \<Rightarrow> True | Inr sql \<Rightarrow> holds_name 39 ''pragma_table_xinfo('' nm '') ORDER BY cid LIMIT '' sql) \<and>
   (case count_sql t of Inl _ \<Rightarrow> True | Inr sql \<Rightarrow> holds_name 34 '' FROM main.'' (tp_name t) '''' sql) \<and>
   (case table_page_sql t offset limit of Inl _ \<Rightarrow> True | Inr sql \<Rightarrow> holds_name 34 '' FROM main.'' (tp_name t) '' ORDER BY '' sql)"
  by (auto split: sum.split simp: columns_sql_holds count_sql_holds table_page_sql_holds)

end
