(* ===== verification/Statement_Control.thy ===== *)
theory Statement_Control
  imports Control_Types
begin

text \<open>
  The statement and receipt shapes of \<open>probes/pmb1-d1/control.py\<close>: generations bound as text,
  the close and reopen transitions with the statements they name, and the readback that must
  follow. The statements \<open>close.sql\<close> and \<open>reopen.sql\<close> and the row \<open>readback.sql\<close> selects are
  modelled on the table of \<open>bootstrap.sql\<close>, which holds at most one row; \<open>manifest.json\<close> is a
  parameter.
\<close>

section \<open>The shapes\<close>

record transition =
  tr_operation :: string
  tr_expected :: string
  tr_next :: string
  tr_state :: string
  tr_sql :: string

record control_readback =
  rb_generation :: string
  rb_state :: string

definition generation_text :: "bool \<Rightarrow> pyval \<Rightarrow> string res" where
  "generation_text reserve_increment v = (case v of
     PStr s \<Rightarrow>
       if \<not> (1 \<le> length s \<and> length s \<le> 19) \<or> \<not> is_ascii s \<or> \<not> list_all is_digit s \<or> hd s = CHR ''0''
       then Inl (Refused ''invalid_generation_text'')
       else if decimal_value s > MAX_GENERATION - of_bool reserve_increment
       then Inl (Refused ''generation_exhausted'') else Inr s
   | _ \<Rightarrow> Inl (Refused ''invalid_generation_text''))"

text \<open>The files \<open>close.sql\<close> and \<open>reopen.sql\<close>, which differ in two words.\<close>

definition update_sql :: "string \<Rightarrow> string \<Rightarrow> string" where
  "update_sql before after = concat (map (\<lambda>line. line @ [CHR 0x0A])
     [''UPDATE maintenance_control SET generation = generation + 1, state = '' @ [CHR 0x27] @ after @ [CHR 0x27],
      ''WHERE (SELECT COUNT(*) FROM maintenance_control) = 1'',
      ''  AND typeof(singleton_id) = 'integer' AND singleton_id = 1'',
      ''  AND typeof(generation) = 'integer'' @ [CHR 0x27],
      ''  AND generation BETWEEN 1 AND 9223372036854775806'',
      ''  AND typeof(state) = 'text' AND state = '' @ [CHR 0x27] @ before @ [CHR 0x27],
      ''  AND typeof(:expected_generation) = 'text'' @ [CHR 0x27],
      ''  AND CAST(generation AS TEXT) = :expected_generation;''])"

definition close :: "pyval \<Rightarrow> transition res" where
  "close v = bind_res (generation_text True v) (\<lambda>expected. Inr
     \<lparr>tr_operation = ''close'', tr_expected = expected, tr_next = py_str_int (decimal_value expected + 1),
      tr_state = ''closed'', tr_sql = update_sql ''open'' ''closed''\<rparr>)"

definition reopen :: "pyval \<Rightarrow> transition res" where
  "reopen v = bind_res (generation_text True v) (\<lambda>expected. Inr
     \<lparr>tr_operation = ''reopen'', tr_expected = expected, tr_next = py_str_int (decimal_value expected + 1),
      tr_state = ''open'', tr_sql = update_sql ''closed'' ''open''\<rparr>)"

definition require_one_change :: "pyval \<Rightarrow> unit res" where
  "require_one_change changes = require (changes = PInt 1) ''affected_rows_not_one''"

definition READBACK_KEYS :: "string list" where
  "READBACK_KEYS = [''singleton_type'', ''singleton_text'', ''rowid_type'', ''rowid_text'', ''generation_type'',
     ''generation_text'', ''state_type'', ''state'']"

definition parse_readback :: "(string \<times> pyval) list list \<Rightarrow> control_readback res" where
  "parse_readback rows = (case rows of
     [row] \<Rightarrow>
       if set (map fst row) \<noteq> set READBACK_KEYS then Inl (Refused ''invalid_control_readback'')
       else if dict_get row ''singleton_type'' \<noteq> PStr ''integer'' \<or> dict_get row ''singleton_text'' \<noteq> PStr ''1'' \<or>
         dict_get row ''rowid_type'' \<noteq> PStr ''integer'' \<or> dict_get row ''rowid_text'' \<noteq> PStr ''1'' \<or>
         dict_get row ''generation_type'' \<noteq> PStr ''integer'' \<or> dict_get row ''state_type'' \<noteq> PStr ''text'' \<or>
         dict_get row ''state'' \<notin> {PStr ''open'', PStr ''closed''}
       then Inl (Refused ''invalid_control_readback'')
       else bind_res (generation_text False (dict_get row ''generation_text'')) (\<lambda>g.
         Inr (if dict_get row ''state'' = PStr ''open'' then \<lparr>rb_generation = g, rb_state = ''open''\<rparr>
              else \<lparr>rb_generation = g, rb_state = ''closed''\<rparr>))
   | _ \<Rightarrow> Inl (Refused ''invalid_control_readback''))"

definition is_pstr :: "pyval \<Rightarrow> bool" where
  "is_pstr v \<longleftrightarrow> (case v of PStr _ \<Rightarrow> True | _ \<Rightarrow> False)"

definition schema_pin :: "(string \<times> pyval) list \<Rightarrow> pyval res" where
  "schema_pin row =
     bind_res (require (set (map fst row) = {''type'', ''name'', ''tbl_name'', ''sql''}) ''invalid_schema_readback'') (\<lambda>_.
     let sql = dict_get row ''sql'' in
     bind_res (require (sql = PNone \<or> is_pstr sql) ''invalid_schema_readback'') (\<lambda>_.
     bind_res (require (list_all (\<lambda>k. is_pstr (dict_get row k)) [''type'', ''name'', ''tbl_name'']) ''invalid_schema_readback'') (\<lambda>_.
     Inr (PDict [(''type'', dict_get row ''type''), (''name'', dict_get row ''name''), (''table'', dict_get row ''tbl_name''),
       (''sql_sha2_256'', case sql of PStr s \<Rightarrow> PStr (sha256_hex s) | _ \<Rightarrow> PNone)]))))"

fun schema_pins :: "(string \<times> pyval) list list \<Rightarrow> pyval list res" where
  "schema_pins [] = Inr []"
| "schema_pins (row # rows) = bind_res (schema_pin row) (\<lambda>pin. bind_res (schema_pins rows) (\<lambda>pins. Inr (pin # pins)))"

text \<open>The last argument is the decoded \<open>candidate_schema\<close> of the manifest.\<close>

definition confirm_readback ::
    "transition \<Rightarrow> (string \<times> pyval) list list \<Rightarrow> (string \<times> pyval) list list \<Rightarrow> pyval \<Rightarrow> control_readback res" where
  "confirm_readback tr rows schema pinned =
     bind_res (schema_pins schema) (\<lambda>pins.
     bind_res (require (py_eq (PList pins) pinned) ''schema_readback_mismatch'') (\<lambda>_.
     bind_res (parse_readback rows) (\<lambda>observed.
     bind_res (require (observed = \<lparr>rb_generation = tr_next tr, rb_state = tr_state tr\<rparr>) ''transition_readback_mismatch'') (\<lambda>_.
     Inr observed))))"


section \<open>The table and the statements\<close>

text \<open>
  The row of \<open>maintenance_control\<close>, if the table is not empty: its key is 1 and its generation
  and state satisfy the checks of \<open>bootstrap.sql\<close>.
\<close>

type_synonym maintenance = "(int \<times> string) option"

definition maintenance_ok :: "maintenance \<Rightarrow> bool" where
  "maintenance_ok m \<longleftrightarrow> (case m of None \<Rightarrow> True
     | Some (g, state) \<Rightarrow> 1 \<le> g \<and> g \<le> MAX_GENERATION \<and> state \<in> {''open'', ''closed''})"

text \<open>The states a statement leads from and to, read off its text; other texts do not occur.\<close>

definition statement_states :: "string \<Rightarrow> (string \<times> string) option" where
  "statement_states sql =
     (if sql = update_sql ''open'' ''closed'' then Some (''open'', ''closed'')
      else if sql = update_sql ''closed'' ''open'' then Some (''closed'', ''open'')
      else None)"

text \<open>The statement a transition carries, with its expected generation bound as text: the table
  after it, and the number of changed rows.\<close>

definition run_update :: "transition \<Rightarrow> maintenance \<Rightarrow> maintenance \<times> int" where
  "run_update tr m = (case (m, statement_states (tr_sql tr)) of
     (Some (g, state), Some (before, after)) \<Rightarrow>
       if 1 \<le> g \<and> g \<le> MAX_GENERATION - 1 \<and> state = before \<and> py_str_int g = tr_expected tr
       then (Some (g + 1, after), 1)
       else (m, 0)
   | _ \<Rightarrow> (m, 0))"

definition readback :: "maintenance \<Rightarrow> (string \<times> pyval) list list" where
  "readback m = (case m of None \<Rightarrow> []
     | Some (g, state) \<Rightarrow> [[(''singleton_type'', PStr ''integer''), (''singleton_text'', PStr ''1''),
         (''rowid_type'', PStr ''integer''), (''rowid_text'', PStr ''1''), (''generation_type'', PStr ''integer''),
         (''generation_text'', PStr (py_str_int g)), (''state_type'', PStr ''text''), (''state'', PStr state)]])"


section \<open>Generations\<close>

lemma generation_text_Inr: "generation_text b v = Inr s \<longleftrightarrow> generation b v = Inr s"
  by (auto simp: generation_text_def generation_def generation_ok_def split: pyval.splits)

lemma generation_text_number:
  "1 \<le> n \<Longrightarrow> n \<le> MAX_GENERATION - of_bool b \<Longrightarrow> generation_text b (PStr (py_str_int n)) = Inr (py_str_int n)"
  by (simp add: generation_text_Inr generation_Inr generation_ok_number)


section \<open>One transition\<close>

text \<open>A transition that \<open>close\<close> or \<open>reopen\<close> builds.\<close>

definition built :: "transition \<Rightarrow> bool" where
  "built tr \<longleftrightarrow> (\<exists>v. close v = Inr tr \<or> reopen v = Inr tr)"

definition source_state :: "transition \<Rightarrow> string" where
  "source_state tr = (if tr_operation tr = ''close'' then ''open'' else ''closed'')"

lemma update_sql_distinct: "update_sql ''open'' ''closed'' \<noteq> update_sql ''closed'' ''open''"
  by (simp add: update_sql_def)

lemma built_parts:
  assumes "built tr"
  shows "generation_ok True (tr_expected tr) \<and> tr_next tr = py_str_int (decimal_value (tr_expected tr) + 1) \<and>
    tr_state tr = (if tr_operation tr = ''close'' then ''closed'' else ''open'') \<and> tr_operation tr \<in> {''close'', ''reopen''} \<and>
    statement_states (tr_sql tr) = Some (source_state tr, tr_state tr)"
  using assms
  by (auto simp: built_def close_def reopen_def bind_res_Inr generation_text_Inr generation_Inr source_state_def
      statement_states_def update_sql_distinct update_sql_distinct [symmetric])

text \<open>The statement changes the row exactly when it is the one the transition expects.\<close>

lemma run_update_changes:
  assumes "built tr" and "maintenance_ok m"
  shows "run_update tr m = (if m = Some (decimal_value (tr_expected tr), source_state tr)
    then (Some (decimal_value (tr_expected tr) + 1, tr_state tr), 1) else (m, 0))"
proof -
  note b = built_parts [OF assms(1)]
  have e: "py_str_int (decimal_value (tr_expected tr)) = tr_expected tr"
    using b generation_canonical by blast
  have range: "1 \<le> decimal_value (tr_expected tr)" "decimal_value (tr_expected tr) \<le> MAX_GENERATION - 1"
    using b generation_ok_pos [of True "tr_expected tr"] by (auto simp: generation_ok_def)
  have g: "py_str_int g = tr_expected tr \<longleftrightarrow> g = decimal_value (tr_expected tr)" if "1 \<le> g" for g
    using that e decimal_py_str_int [of g] by auto
  show ?thesis
    using b range g e assms(2)
    by (auto simp: run_update_def source_state_def maintenance_ok_def split: option.splits)
qed

lemma run_update_ok:
  assumes "built tr" and "maintenance_ok m"
  shows "maintenance_ok (fst (run_update tr m))"
  using assms built_parts [OF assms(1)] run_update_changes [OF assms] generation_ok_pos [of True "tr_expected tr"]
  by (auto simp: maintenance_ok_def generation_ok_def split: if_splits)

lemma parse_readback_row:
  assumes "maintenance_ok (Some (g, state))"
  shows "parse_readback (readback (Some (g, state))) = Inr \<lparr>rb_generation = py_str_int g, rb_state = state\<rparr>"
proof -
  have "state = ''open'' \<or> state = ''closed''" "generation_text False (PStr (py_str_int g)) = Inr (py_str_int g)"
    using assms generation_text_number [of g False] by (auto simp: maintenance_ok_def)
  then show ?thesis
    by (auto simp: parse_readback_def readback_def dict_get_def READBACK_KEYS_def)
qed


section \<open>Histories\<close>

text \<open>Operators that dispatch transitions one after the other: the expected generations of the
  transitions that changed the row.\<close>

fun applied :: "transition list \<Rightarrow> maintenance \<Rightarrow> int list" where
  "applied [] m = []"
| "applied (tr # trs) m = (case run_update tr m of (m', n) \<Rightarrow>
     (if n = 1 then [decimal_value (tr_expected tr)] else []) @ applied trs m')"

lemma applied_consecutive:
  assumes "list_all built trs" and "maintenance_ok (Some (g, state))"
  shows "applied trs (Some (g, state)) = map (\<lambda>i. g + int i) [0..<length (applied trs (Some (g, state)))]"
  using assms
proof (induction trs arbitrary: g state)
  case (Cons tr trs)
  let ?e = "decimal_value (tr_expected tr)"
  have u: "run_update tr (Some (g, state)) = (if Some (g, state) = Some (?e, source_state tr)
      then (Some (?e + 1, tr_state tr), 1) else (Some (g, state), 0))"
    by (rule run_update_changes) (use Cons.prems in auto)
  show ?case
  proof (cases "Some (g, state) = Some (?e, source_state tr)")
    case True
    have ok: "maintenance_ok (Some (g + 1, tr_state tr))"
      using run_update_ok [of tr "Some (g, state)"] Cons.prems True u by simp
    have "applied trs (Some (g + 1, tr_state tr)) =
        map (\<lambda>i. g + 1 + int i) [0..<length (applied trs (Some (g + 1, tr_state tr)))]"
      using Cons.IH [OF _ ok] Cons.prems(1) by simp
    with True u show ?thesis
      by (simp add: upt_conv_Cons map_Suc_upt [symmetric] comp_def add.assoc del: upt_Suc)
  next
    case False
    then have "run_update tr (Some (g, state)) = (Some (g, state), 0)" unfolding u by (simp only: if_False)
    with Cons show ?thesis by simp
  qed
qed simp

lemma final_generation:
  assumes "list_all built trs" and "maintenance_ok (Some (g, state))"
  shows "\<exists>state'. fold (\<lambda>tr m. fst (run_update tr m)) trs (Some (g, state)) =
    Some (g + int (length (applied trs (Some (g, state)))), state')"
  using assms
proof (induction trs arbitrary: g state)
  case (Cons tr trs)
  let ?m = "fst (run_update tr (Some (g, state)))"
  have ok: "maintenance_ok ?m" by (rule run_update_ok) (use Cons.prems in auto)
  have u: "run_update tr (Some (g, state)) = (Some (g, state), 0) \<or>
      (\<exists>s. run_update tr (Some (g, state)) = (Some (g + 1, s), 1))"
    using run_update_changes [of tr "Some (g, state)"] Cons.prems by (auto split: if_splits)
  then show ?case
  proof
    assume "run_update tr (Some (g, state)) = (Some (g, state), 0)"
    with Cons show ?thesis by simp
  next
    assume "\<exists>s. run_update tr (Some (g, state)) = (Some (g + 1, s), 1)"
    then obtain s where s: "run_update tr (Some (g, state)) = (Some (g + 1, s), 1)" ..
    with ok Cons.IH [of "g + 1" s] Cons.prems(1) show ?thesis by (simp add: algebra_simps)
  qed
qed simp


section \<open>The properties\<close>

text \<open>C39: A built transition changes one row exactly when the table holds its expected generation
  in its source state; then the independent readback confirms the next generation in the
  target state, and the same transition never changes a row again. Otherwise the table stays
  as it is and the count is refused.\<close>

theorem transition_confirmed:
  assumes "close v = Inr tr \<or> reopen v = Inr tr" and "maintenance_ok m"
    and "schema_pins schema = Inr pins" and "py_eq (PList pins) pinned"
  shows "case run_update tr m of (m', n) \<Rightarrow>
    if m = Some (decimal_value (tr_expected tr), source_state tr)
    then require_one_change (PInt n) = Inr () \<and>
      confirm_readback tr (readback m') schema pinned = Inr \<lparr>rb_generation = tr_next tr, rb_state = tr_state tr\<rparr> \<and>
      run_update tr m' = (m', 0)
    else require_one_change (PInt n) = Inl (Refused ''affected_rows_not_one'') \<and> m' = m"
proof -
  have b: "built tr" using assms(1) by (auto simp: built_def)
  note p = built_parts [OF b]
  note u = run_update_changes [OF b assms(2)]
  let ?e = "decimal_value (tr_expected tr)"
  show ?thesis
  proof (cases "m = Some (?e, source_state tr)")
    case True
    then have m: "run_update tr m = (Some (?e + 1, tr_state tr), 1)" unfolding u by (simp only: if_True simp_thms)
    with run_update_ok [OF b assms(2)] have ok: "maintenance_ok (Some (?e + 1, tr_state tr))" by simp
    have "confirm_readback tr (readback (Some (?e + 1, tr_state tr))) schema pinned =
        Inr \<lparr>rb_generation = tr_next tr, rb_state = tr_state tr\<rparr>"
      using p assms(3,4) parse_readback_row [OF ok] by (simp add: confirm_readback_def require_def)
    with m True run_update_changes [OF b ok] show ?thesis by (simp add: require_one_change_def require_def)
  next
    case False
    with u show ?thesis by (simp add: require_one_change_def require_def)
  qed
qed

definition sample_close :: transition where
  "sample_close = \<lparr>tr_operation = ''close'', tr_expected = ''41'', tr_next = ''42'', tr_state = ''closed'',
     tr_sql = update_sql ''open'' ''closed''\<rparr>"

lemma sample_close_built: "close (PStr ''41'') = Inr sample_close"
  by code_simp

theorem transition_confirmed_witness:
  "confirm_readback sample_close (readback (fst (run_update sample_close (Some (41, ''open''))))) [] (PList []) =
     Inr \<lparr>rb_generation = ''42'', rb_state = ''closed''\<rparr>"
proof -
  have ok: "maintenance_ok (Some (41, ''open''))" by (simp add: maintenance_ok_def MAX_GENERATION_def)
  have e: "decimal_value (tr_expected sample_close) = 41" "source_state sample_close = ''open''"
    by (simp_all add: sample_close_def source_state_def decimal_value_def digit_value_def)
  show ?thesis
    using transition_confirmed [OF _ ok, of "PStr ''41''" sample_close "[]" "[]" "PList []"] sample_close_built e
    by (simp add: case_prod_beta) (simp add: sample_close_def)
qed

text \<open>Whatever transitions are dispatched one after the other, by however many operators, the
  ones that change the row expected consecutive generations from the first one on, and the
  generation has advanced by exactly their number.\<close>

theorem transitions_serialize:
  assumes "list_all (\<lambda>tr. \<exists>v. close v = Inr tr \<or> reopen v = Inr tr) trs" and "maintenance_ok (Some (g, state))"
  shows "applied trs (Some (g, state)) = map (\<lambda>i. g + int i) [0..<length (applied trs (Some (g, state)))] \<and>
    map_option fst (fold (\<lambda>tr m. fst (run_update tr m)) trs (Some (g, state))) =
      Some (g + int (length (applied trs (Some (g, state)))))"
proof -
  have "list_all built trs" using assms(1) by (simp add: built_def [abs_def])
  from applied_consecutive [OF this assms(2)] final_generation [OF this assms(2)] show ?thesis by auto
qed

theorem transitions_serialize_witness:
  "applied [sample_close, sample_close] (Some (41, ''open'')) = [41]"
proof -
  let ?a = "applied [sample_close, sample_close] (Some (41, ''open''))"
  have "list_all (\<lambda>tr. \<exists>v. close v = Inr tr \<or> reopen v = Inr tr) [sample_close, sample_close]"
    using sample_close_built by auto
  moreover have "maintenance_ok (Some (41, ''open''))" by (simp add: maintenance_ok_def MAX_GENERATION_def)
  ultimately have "?a = map (\<lambda>i. 41 + int i) [0..<length ?a]"
    using transitions_serialize by blast
  moreover have "length ?a = 1"
    by code_simp
  ultimately show ?thesis by simp
qed

end
