(* ===== verification/Binary64_Oracle.thy ===== *)
theory Binary64_Oracle
  imports Complex_Main Prelude "HOL-Library.Word"
begin

text \<open>
  The exact rounding oracle of \<open>probes/typed-real-encoding/typed_real.py\<close>: a positive binary64
  value as a fraction, from the fields of its bits, and the test that a decimal fraction rounds
  to given bits, by exact midpoints and without floating point. The oracle decides one function:
  every decimal in range rounds to some bits, and to no two. The decoder of the wire cell around
  it (JSON, the regular expression, Python's own \<open>float\<close>) is not modelled.
\<close>

unbundle bit_operations_syntax

definition MAX_FINITE :: int where
  "MAX_FINITE = 0x7FEFFFFFFFFFFFFF"

definition SIGN :: int where
  "SIGN = push_bit 63 1"

definition positive_rational :: "int \<Rightarrow> rat res" where
  "positive_rational bits = bind_res (require (0 \<le> bits \<and> bits \<le> MAX_FINITE) ''invalid_oracle_bits'') (\<lambda>_.
     let exponent = drop_bit 52 bits; fraction = bits AND (push_bit 52 1 - 1);
         significand = if exponent = 0 then fraction else push_bit 52 1 + fraction;
         power = if exponent = 0 then - 1074 else exponent - 1075 in
     if 0 \<le> power then Inr (of_int (push_bit (nat power) significand))
     else Inr (Fract significand (push_bit (nat (- power)) 1)))"

definition rounds_to :: "rat \<Rightarrow> int \<Rightarrow> bool res" where
  "rounds_to decimal bits = bind_res (require (0 \<le> bits \<and> bits < push_bit 64 1) ''invalid_oracle_bits'') (\<lambda>_.
     let magnitude = bits AND (SIGN - 1) in
     if \<not> (0 < magnitude \<and> magnitude \<le> MAX_FINITE) \<or> decimal = 0 then Inr False
     else if (decimal < 0) \<noteq> (bits AND SIGN \<noteq> 0) then Inr False
     else bind_res (positive_rational magnitude) (\<lambda>val.
       bind_res (positive_rational (magnitude - 1)) (\<lambda>previous.
       bind_res (if magnitude = MAX_FINITE then Inr (of_int (push_bit 1024 1)) else positive_rational (magnitude + 1)) (\<lambda>following.
       let lower = (previous + val) / 2; upper = (val + following) / 2; exact = \<bar>decimal\<bar> in
       if magnitude AND 1 \<noteq> 0 then Inr (lower < exact \<and> exact < upper)
       else Inr (lower \<le> exact \<and> exact \<le> upper)))))"


section \<open>The values in steps of the smallest\<close>

text \<open>Every value is a multiple of \<open>2\<close> to the power \<open>-1074\<close>; these are the multiples.\<close>

definition step_exponent :: "int \<Rightarrow> nat" where
  "step_exponent m = nat (m div 2 ^ 52) - 1"

definition steps :: "int \<Rightarrow> int" where
  "steps m = (if m div 2 ^ 52 = 0 then m mod 2 ^ 52 else 2 ^ 52 + m mod 2 ^ 52) * 2 ^ step_exponent m"

definition magnitude_value :: "int \<Rightarrow> rat" where
  "magnitude_value m = of_int (steps m) / 2 ^ 1074"

lemma steps_Suc:
  assumes "0 \<le> m"
  shows "steps (m + 1) = steps m + 2 ^ step_exponent m"
proof -
  define e f where "e = m div 2 ^ 52" and "f = m mod 2 ^ 52"
  have f: "0 \<le> f" "f < 2 ^ 52" by (simp_all add: f_def)
  have e: "0 \<le> e" using assms by (simp add: e_def pos_imp_zdiv_nonneg_iff)
  have m: "m = e * 2 ^ 52 + f" by (simp add: e_def f_def)
  have fields: "m div 4503599627370496 = e" "m mod 4503599627370496 = f" by (simp_all add: e_def f_def)
  show ?thesis
  proof (cases "f + 1 < 2 ^ 52")
    case True
    then have "(m + 1) div 2 ^ 52 = e" "(m + 1) mod 2 ^ 52 = f + 1"
      using f unfolding m add.assoc by simp_all
    then show ?thesis
      by (simp add: steps_def step_exponent_def fields distrib_right)
  next
    case False
    with f have f: "f = 2 ^ 52 - 1" by simp
    then have "m + 1 = (e + 1) * 2 ^ 52" by (simp add: m distrib_right)
    then have next_: "(m + 1) div 4503599627370496 = e + 1" "(m + 1) mod 4503599627370496 = 0" by simp_all
    have "nat (e + 1) - 1 = nat e" using e by simp
    then have s: "steps (m + 1) = 2 ^ 52 * 2 ^ nat e" using e by (simp add: steps_def step_exponent_def next_)
    show ?thesis
    proof (cases "e = 0")
      case True
      then show ?thesis unfolding s by (simp add: steps_def step_exponent_def fields f)
    next
      case e1: False
      then obtain k where k: "nat e = Suc k" using e by (cases "nat e") auto
      with e1 show ?thesis unfolding s
        by (simp add: steps_def step_exponent_def fields f k)
    qed
  qed
qed

lemma magnitude_value_Suc: "0 \<le> m \<Longrightarrow> magnitude_value m < magnitude_value (m + 1)"
  by (simp add: magnitude_value_def steps_Suc divide_strict_right_mono)

lemma magnitude_value_strict:
  assumes "0 \<le> m" and "m < n"
  shows "magnitude_value m < magnitude_value n"
proof -
  have "magnitude_value m < magnitude_value (m + 1 + int k)" for k
    using assms(1) magnitude_value_Suc [of m] magnitude_value_Suc [of "m + 1 + int i" for i]
    by (induction k) (auto simp: algebra_simps intro: order.strict_trans)
  from this [of "nat (n - m - 1)"] assms show ?thesis by simp
qed

lemma magnitude_value_0: "magnitude_value 0 = 0"
  by (simp add: magnitude_value_def steps_def)

lemma magnitude_value_pos: "0 < m \<Longrightarrow> 0 < magnitude_value m"
  using magnitude_value_strict [of 0 m] by (simp add: magnitude_value_0)

lemma magnitude_value_overflow: "magnitude_value (MAX_FINITE + 1) = 2 ^ 1024"
  by (simp add: magnitude_value_def steps_def step_exponent_def MAX_FINITE_def)

lemma low_bits: "m AND (push_bit n 1 - 1) = m mod 2 ^ n" for m :: int
  by (simp add: push_bit_eq_mult flip: mask_eq_exp_minus_1 take_bit_eq_mask take_bit_eq_mod)

lemma positive_rational_value:
  assumes "0 \<le> m" and "m \<le> MAX_FINITE"
  shows "positive_rational m = Inr (magnitude_value m)"
proof -
  define e f where "e = m div 2 ^ 52" and "f = m mod 2 ^ 52"
  have e: "0 \<le> e" using assms by (simp add: e_def pos_imp_zdiv_nonneg_iff)
  have scale: "of_int s / 2 ^ k = of_int (s * 2 ^ j) / (2 ^ n :: rat)" if "j + k = n" for s :: int and j k n :: nat
    unfolding that [symmetric] power_add by simp
  have scale_up: "of_int (s * 2 ^ j) / (2 ^ n :: rat) = of_int (s * 2 ^ i)" if "j = i + n" for s :: int and i j n :: nat
    unfolding that power_add by simp
  define s where "s = (if e = 0 then f else 2 ^ 52 + f)"
  have v: "magnitude_value m = of_int (s * 2 ^ (nat e - 1)) / 2 ^ 1074"
    by (simp add: magnitude_value_def steps_def step_exponent_def s_def e_def f_def)
  have "(let power = if e = 0 then - 1074 else e - 1075 in
     if 0 \<le> power then Inr (of_int (push_bit (nat power) s)) else Inr (Fract s (push_bit (nat (- power)) 1))) =
     (Inr (magnitude_value m) :: rat res)"
  proof (cases "1075 \<le> e")
    case True
    then have "nat e - 1 = nat (e - 1075) + 1074" by simp
    then have up: "of_int (s * 2 ^ (nat e - 1)) / (2 ^ 1074 :: rat) = of_int (s * 2 ^ nat (e - 1075))"
      by (rule scale_up)
    from True show ?thesis unfolding v up by (simp add: push_bit_eq_mult)
  next
    case False
    define k where "k = (if e = 0 then 1074 else nat (1075 - e))"
    have "nat e - 1 + k = 1074"
    proof (cases "e = 0")
      case pos: False
      then have "int (nat e) = e" "int k = 1075 - e" "1 \<le> nat e" using False e by (simp_all add: k_def)
      then show ?thesis by linarith
    qed (simp add: k_def)
    from scale [OF this, of s] have "Fract s (2 ^ k) = magnitude_value m"
      unfolding v by (simp add: Fract_of_int_quotient)
    with False e show ?thesis by (auto simp: k_def push_bit_eq_mult)
  qed
  moreover have "m AND (push_bit 52 1 - 1) = f" unfolding f_def by (rule low_bits)
  moreover have "drop_bit 52 m = e" "push_bit 52 1 = (2 ^ 52 :: int)"
    by (simp_all only: e_def drop_bit_eq_div push_bit_eq_mult mult_1)
  ultimately show ?thesis
    using assms unfolding positive_rational_def s_def by (simp only: require_def Let_def if_True simp_thms bind_res.simps)
qed


section \<open>One rounding\<close>

text \<open>The fractions that round to a magnitude; a midpoint belongs to the even neighbour.\<close>

definition rounding_interval :: "int \<Rightarrow> rat \<Rightarrow> bool" where
  "rounding_interval m x \<longleftrightarrow>
     (let lower = (magnitude_value (m - 1) + magnitude_value m) / 2;
          upper = (magnitude_value m + magnitude_value (m + 1)) / 2 in
      if odd m then lower < x \<and> x < upper else lower \<le> x \<and> x \<le> upper)"

lemma rounds_to_iff:
  "rounds_to d b = Inr True \<longleftrightarrow> 0 \<le> b \<and> b < 2 ^ 64 \<and> d \<noteq> 0 \<and> 0 < b mod 2 ^ 63 \<and> b mod 2 ^ 63 \<le> MAX_FINITE \<and>
     (d < 0 \<longleftrightarrow> 2 ^ 63 \<le> b) \<and> rounding_interval (b mod 2 ^ 63) \<bar>d\<bar>"
proof (cases "0 \<le> b \<and> b < 2 ^ 64 \<and> d \<noteq> 0 \<and> 0 < b mod 2 ^ 63 \<and> b mod 2 ^ 63 \<le> MAX_FINITE")
  case True
  let ?m = "b mod 2 ^ 63"
  have high: "odd (b div 2 ^ 63) \<longleftrightarrow> 2 ^ 63 \<le> b"
  proof (cases "b < 2 ^ 63")
    case low: True
    with True have "b div 2 ^ 63 = 0" by (intro div_pos_pos_trivial) auto
    with low show ?thesis by simp
  next
    case high: False
    with True have "b div 2 ^ 63 = 1" by (intro int_div_pos_eq [where r = "b - 2 ^ 63"]) auto
    with high show ?thesis by simp
  qed
  have sign: "b AND SIGN \<noteq> 0 \<longleftrightarrow> 2 ^ 63 \<le> b"
    unfolding SIGN_def push_bit_eq_mult mult_1 high [symmetric] bit_iff_odd [symmetric]
    using and_exp_eq_0_iff_not_bit [of b 63] by blast
  have around: "positive_rational ?m = Inr (magnitude_value ?m)" "positive_rational (?m - 1) = Inr (magnitude_value (?m - 1))"
    using True by (simp_all add: positive_rational_value)
  have following: "(if ?m = MAX_FINITE then Inr (of_int (push_bit 1024 1)) else positive_rational (?m + 1)) =
      (Inr (magnitude_value (?m + 1)) :: rat res)"
    using True magnitude_value_overflow by (auto simp: positive_rational_value push_bit_eq_mult)
  have low: "b AND (SIGN - 1) = ?m" unfolding SIGN_def by (rule low_bits)
  have req: "require (0 \<le> b \<and> b < push_bit 64 1) ''invalid_oracle_bits'' = Inr ()"
    using True by (simp add: require_def push_bit_eq_mult)
  have odd: "?m AND 1 \<noteq> 0 \<longleftrightarrow> odd ?m" by (simp only: and_one_eq odd_iff_mod_2_eq_one not_mod_2_eq_0_eq_1)
  have "rounds_to d b = (if (d < 0) \<noteq> (2 ^ 63 \<le> b) then Inr False else Inr (rounding_interval ?m \<bar>d\<bar>))"
    using True unfolding rounds_to_def low req
    by (simp only: bind_res.simps Let_def sign around following odd rounding_interval_def if_distrib [of Inr, symmetric]
        simp_thms if_False)
  with True show ?thesis by (simp only: sum.inject simp_thms split: if_split) blast
next
  case False
  have low: "b AND (SIGN - 1) = b mod 2 ^ 63" unfolding SIGN_def by (rule low_bits)
  from False show ?thesis
    unfolding rounds_to_def low Let_def by (auto simp: require_def push_bit_eq_mult)
qed

lemma rounding_interval_unique:
  assumes "rounding_interval m x" and "rounding_interval n x" and "0 < m" and "0 < n"
  shows "m = n"
proof -
  have "False" if "rounding_interval m x" "rounding_interval n x" "0 < m" "m < n" for m n
  proof -
    have le: "magnitude_value m \<le> magnitude_value (n - 1)" "magnitude_value (m + 1) \<le> magnitude_value n"
      using that magnitude_value_strict [of m "n - 1"] magnitude_value_strict [of "m + 1" n]
      by (cases "m + 1 = n"; force)+
    have x: "x \<le> (magnitude_value m + magnitude_value (m + 1)) / 2" "(magnitude_value (n - 1) + magnitude_value n) / 2 \<le> x"
      using that(1,2) by (auto simp: rounding_interval_def Let_def split: if_splits)
    with le have eq: "magnitude_value m = magnitude_value (n - 1)" by (simp add: field_simps)
    have "m = n - 1" using that(3,4) eq magnitude_value_strict [of m "n - 1"] by linarith
    with that(1,2) show False
      by (auto simp: rounding_interval_def Let_def split: if_splits)
  qed
  with assms show ?thesis by (metis linorder_neqE_linordered_idom)
qed

lemma rounding_interval_exists:
  assumes "magnitude_value 1 / 2 < x" and "x < (magnitude_value MAX_FINITE + 2 ^ 1024) / 2"
  shows "\<exists>m. 0 < m \<and> m \<le> MAX_FINITE \<and> rounding_interval m x"
proof -
  let ?upper = "\<lambda>m. (magnitude_value m + magnitude_value (m + 1)) / 2"
  have n: "int (nat MAX_FINITE) = MAX_FINITE" by (simp add: MAX_FINITE_def)
  have top: "x < ?upper (int (nat MAX_FINITE))"
    unfolding n magnitude_value_overflow by (rule assms(2))
  define k where "k = (LEAST k. x \<le> ?upper (int k))"
  have k: "x \<le> ?upper (int k)" unfolding k_def by (rule LeastI, rule less_imp_le, rule top)
  have least: "k \<le> nat MAX_FINITE" unfolding k_def by (rule Least_le, rule less_imp_le, rule top)
  have below: "?upper (int k - 1) < x" if "0 < k"
  proof -
    have "\<not> x \<le> ?upper (int (k - 1))" unfolding k_def by (rule not_less_Least) (use that k_def in simp)
    with that show ?thesis by (simp add: of_nat_diff)
  qed
  have "k \<noteq> 0"
  proof
    assume "k = 0"
    with k assms(1) show False by (simp add: magnitude_value_0)
  qed
  with below have lower: "?upper (int k - 1) < x" and pos: "0 < int k" by simp_all
  show ?thesis
  proof (cases "odd k \<and> x = ?upper (int k)")
    case True
    with top have "k \<noteq> nat MAX_FINITE" by auto
    with least n have "int k + 1 \<le> MAX_FINITE" by linarith
    moreover have "rounding_interval (int k + 1) x"
      using True magnitude_value_strict [of "int k" "int k + 2"]
      by (simp add: rounding_interval_def Let_def add.assoc)
    ultimately show ?thesis by (intro exI [of _ "int k + 1"]) simp
  next
    case False
    with lower k have "rounding_interval (int k) x"
      by (auto simp: rounding_interval_def Let_def)
    moreover have "int k \<le> MAX_FINITE" using least n by linarith
    ultimately show ?thesis using pos by blast
  qed
qed


section \<open>The oracle\<close>

text \<open>The oracle is a function of the decimal: no decimal rounds to two bit patterns.\<close>

lemma rounds_to_unique:
  assumes "rounds_to d b = Inr True" and "rounds_to d c = Inr True"
  shows "b = c"
proof -
  have same: "b mod 2 ^ 63 = c mod 2 ^ 63"
    using assms by (auto simp: rounds_to_iff intro: rounding_interval_unique)
  have sign: "2 ^ 63 \<le> b \<longleftrightarrow> 2 ^ 63 \<le> c" using assms by (simp add: rounds_to_iff)
  have fields: "x = x mod 2 ^ 63 + (if 2 ^ 63 \<le> x then 2 ^ 63 else 0)" if "0 \<le> x" "x < 2 ^ 64" for x :: int
  proof (cases "2 ^ 63 \<le> x")
    case True
    then have "x mod 2 ^ 63 = x - 2 ^ 63" using that by (intro int_mod_pos_eq [where q = 1]) auto
    with True show ?thesis by simp
  qed (use that in simp)
  have "b = b mod 2 ^ 63 + (if 2 ^ 63 \<le> b then 2 ^ 63 else 0)"
    by (rule fields) (use assms(1) in \<open>simp_all add: rounds_to_iff\<close>)
  also have "\<dots> = c mod 2 ^ 63 + (if 2 ^ 63 \<le> c then 2 ^ 63 else 0)" by (simp only: same sign)
  also have "\<dots> = c"
    by (rule fields [symmetric]) (use assms(2) in \<open>simp_all add: rounds_to_iff\<close>)
  finally show ?thesis .
qed

text \<open>Every decimal between half the least value and the overflow midpoint rounds to some bits.\<close>

lemma rounds_to_total:
  assumes "1 / 2 ^ 1075 < \<bar>d\<bar>" and "\<bar>d\<bar> < (magnitude_value MAX_FINITE + 2 ^ 1024) / 2"
  shows "\<exists>b. rounds_to d b = Inr True"
proof -
  have "magnitude_value 1 / 2 = 1 / 2 ^ 1075"
    by (simp add: magnitude_value_def steps_def step_exponent_def)
  with assms obtain m where m: "0 < m" "m \<le> MAX_FINITE" "rounding_interval m \<bar>d\<bar>"
    using rounding_interval_exists [of "\<bar>d\<bar>"] by auto
  have bound: "m < 2 ^ 63" using m(2) by (simp add: MAX_FINITE_def)
  have d: "d \<noteq> 0" using assms(1) by auto
  define b where "b = (if d < 0 then m + 2 ^ 63 else m)"
  have "b mod 2 ^ 63 = m" using m(1) bound by (auto simp: b_def)
  moreover have "0 \<le> b" "b < 2 ^ 64" "d < 0 \<longleftrightarrow> 2 ^ 63 \<le> b" using m(1) bound by (auto simp: b_def)
  ultimately have "rounds_to d b = Inr True" using m d by (simp add: rounds_to_iff)
  then show ?thesis ..
qed

text \<open>C40: Every decimal above half the least positive value and below the overflow midpoint, of
  either sign, rounds to exactly one bit pattern.\<close>

theorem oracle_rounds_to_one:
  assumes "1 / 2 ^ 1075 < \<bar>d\<bar>" and "\<bar>d\<bar> < (magnitude_value MAX_FINITE + 2 ^ 1024) / 2"
  shows "\<exists>!b. rounds_to d b = Inr True"
  using rounds_to_total [OF assms] rounds_to_unique by blast

theorem oracle_rounds_to_one_witness: "\<exists>!b. rounds_to (- (1 / 10)) b = Inr True"
proof (rule oracle_rounds_to_one)
  have "0 < magnitude_value MAX_FINITE" by (rule magnitude_value_pos) (simp add: MAX_FINITE_def)
  then have "1 < (magnitude_value MAX_FINITE + 2 ^ 1024) / 2" by simp
  then show "\<bar>- (1 / 10)\<bar> < (magnitude_value MAX_FINITE + 2 ^ 1024) / 2" by simp
qed simp

end
