(* ===== verification/Held_Path.thy ===== *)
theory Held_Path
  imports Prelude "HOL-Library.Word"
begin

text \<open>
  The held-handle custody model (\<open>probes/local-delivery-path-proof/bounded_local_delivery_path_proof.py\<close>):
  the accepted path spellings, the security and metadata rules of one opened object, the
  qualification of a chain of held directories, of a source file and of a new file, and the
  dispatch window. The observations are dynamic values, so that every form check of the
  code is a branch of the model; numbers of the window are the clock readings of the prelude.
\<close>

unbundle bit_operations_syntax

section \<open>Constants\<close>

definition FILE_LIST_DIRECTORY :: int where "FILE_LIST_DIRECTORY = 0x0001"
definition FILE_WRITE_EA :: int where "FILE_WRITE_EA = 0x0010"
definition FILE_DELETE_CHILD :: int where "FILE_DELETE_CHILD = 0x0040"
definition FILE_READ_ATTRIBUTES :: int where "FILE_READ_ATTRIBUTES = 0x0080"
definition FILE_WRITE_ATTRIBUTES :: int where "FILE_WRITE_ATTRIBUTES = 0x0100"
definition DELETE :: int where "DELETE = 0x00010000"
definition READ_CONTROL :: int where "READ_CONTROL = 0x00020000"
definition WRITE_DAC :: int where "WRITE_DAC = 0x00040000"
definition WRITE_OWNER :: int where "WRITE_OWNER = 0x00080000"
definition GENERIC_READ :: int where "GENERIC_READ = 0x80000000"
definition GENERIC_WRITE :: int where "GENERIC_WRITE = 0x40000000"
definition GENERIC_ALL :: int where "GENERIC_ALL = 0x10000000"
definition FILE_SHARE_READ :: int where "FILE_SHARE_READ = 1"
definition CREATE_NEW :: int where "CREATE_NEW = 1"
definition OPEN_EXISTING :: int where "OPEN_EXISTING = 3"
definition FILE_FLAG_OPEN_REPARSE_POINT :: int where "FILE_FLAG_OPEN_REPARSE_POINT = 0x00200000"
definition FILE_FLAG_BACKUP_SEMANTICS :: int where "FILE_FLAG_BACKUP_SEMANTICS = 0x02000000"

definition DIRECTORY_ACCESS :: int where
  "DIRECTORY_ACCESS = READ_CONTROL OR FILE_READ_ATTRIBUTES OR FILE_LIST_DIRECTORY"

definition DIRECTORY_FLAGS :: int where
  "DIRECTORY_FLAGS = FILE_FLAG_OPEN_REPARSE_POINT OR FILE_FLAG_BACKUP_SEMANTICS"

definition ANCESTOR_MUTATION :: int where
  "ANCESTOR_MUTATION = FILE_WRITE_EA OR FILE_DELETE_CHILD OR FILE_WRITE_ATTRIBUTES OR DELETE OR
     WRITE_DAC OR WRITE_OWNER OR GENERIC_WRITE OR GENERIC_ALL"

definition SYSTEM :: string where "SYSTEM = ''S-1-5-18''"
definition ADMINISTRATORS :: string where "ADMINISTRATORS = ''S-1-5-32-544''"
definition TRUSTEDINSTALLER :: string where
  "TRUSTEDINSTALLER = ''S-1-5-80-956008885-3418522649-1831038044-1853292631-2271478464''"

definition RESERVED :: "string list" where
  "RESERVED = [''CON'', ''PRN'', ''AUX'', ''NUL''] @
     map (\<lambda>i. ''COM'' @ nat_digits i) [1..<10] @ map (\<lambda>i. ''LPT'' @ nat_digits i) [1..<10]"


section \<open>Spellings\<close>

definition starts_with :: "string \<Rightarrow> string \<Rightarrow> bool" where
  "starts_with p s \<longleftrightarrow> take (length p) s = p"

text \<open>\<open>_SID.fullmatch\<close>: \<open>S-1-\<close> and at least two groups of digits.\<close>

definition sid_match :: "string \<Rightarrow> bool" where
  "sid_match s \<longleftrightarrow> starts_with ''S-1-'' s \<and>
     (let groups = split_on (CHR ''-'') (drop 4 s) in
      2 \<le> length groups \<and> list_all (\<lambda>g. g \<noteq> [] \<and> list_all is_digit g) groups)"

text \<open>\<open>_COMPONENT.fullmatch\<close>: dotted words.\<close>

definition is_word :: "char \<Rightarrow> bool" where
  "is_word c \<longleftrightarrow> is_lower c \<or> is_upper c \<or> is_digit c \<or> c \<in> {CHR ''_'', CHR ''-''}"

definition component_match :: "string \<Rightarrow> bool" where
  "component_match s \<longleftrightarrow> list_all (\<lambda>w. w \<noteq> [] \<and> list_all is_word w) (split_on (CHR ''.'') s)"

definition upper :: "string \<Rightarrow> string" where
  "upper = map (\<lambda>c. if is_lower c then char_of (of_char c - 32 :: nat) else c)"

definition lower :: "string \<Rightarrow> string" where
  "lower = map (\<lambda>c. if is_upper c then char_of (of_char c + 32 :: nat) else c)"

definition conventional :: "string \<Rightarrow> bool" where
  "conventional part \<longleftrightarrow> component_match part \<and>
     upper (hd (split_on (CHR ''.'') part)) \<notin> set RESERVED"

text \<open>The drive root, and a \<open>PureWindowsPath\<close> below it: the list of its components.\<close>

definition DRIVE :: string where "DRIVE = [CHR ''C'', CHR '':'', CHR 0x5C]"

type_synonym win_path = "string list"

definition win_parent :: "win_path \<Rightarrow> win_path" where "win_parent p = butlast p"

text \<open>\<open>==\<close> of \<open>PureWindowsPath\<close> ignores the case.\<close>

definition win_eq :: "win_path \<Rightarrow> win_path \<Rightarrow> bool" where
  "win_eq p q \<longleftrightarrow> map lower p = map lower q"

definition fixed_path :: "pyval \<Rightarrow> win_path res" where
  "fixed_path value = (case value of
     PStr s \<Rightarrow>
       if \<not> starts_with DRIVE s \<or> CHR ''/'' \<in> set s then Inl (Refused ''fixed_path_refused'')
       else if s = DRIVE then Inr []
       else let parts = split_on (CHR 0x5C) (drop 3 s) in
         if list_ex (\<lambda>part. \<not> conventional part) parts then Inl (Refused ''fixed_path_refused'')
         else Inr parts
   | _ \<Rightarrow> Inl (Refused ''fixed_path_refused''))"


section \<open>Observations\<close>

record ace =
  a_kind :: pyval
  a_sid :: pyval
  a_mask :: pyval
  a_inherit_only :: pyval

text \<open>An element of \<open>aces\<close>: an \<open>Ace\<close>, or something else.\<close>

datatype ace_item = AceItem ace | OtherItem

text \<open>
  \<open>n_aces\<close> is \<open>None\<close> where the observation holds no tuple (a NULL DACL included), and
  \<open>n_handle_id\<close> is \<open>None\<close> where it is no tuple.
\<close>

record node =
  n_path :: pyval
  n_owner :: pyval
  n_aces :: "ace_item list option"
  n_directory :: pyval
  n_reparse :: pyval
  n_disk :: pyval
  n_links :: pyval
  n_desired_access :: pyval
  n_share_mode :: pyval
  n_protected_dacl :: pyval
  n_handle_id :: "pyval list option"
  n_held :: pyval
  n_metadata_by_handle :: pyval
  n_security_by_handle :: pyval
  n_flags :: pyval
  n_disposition :: pyval
  n_creation_security_at_open :: pyval

record model_premises =
  no_untrusted_prior_attribute_or_security_handles :: pyval
  trusted_current_user_and_privileged_os :: pyval
  ordinary_local_ntfs :: pyval
  stable_dos_device_mapping :: pyval

definition bool_form :: "pyval \<Rightarrow> bool" where
  "bool_form v \<longleftrightarrow> (case v of PBool _ \<Rightarrow> True | _ \<Rightarrow> False)"

definition int_form :: "pyval \<Rightarrow> bool" where
  "int_form v \<longleftrightarrow> (case v of PInt _ \<Rightarrow> True | _ \<Rightarrow> False)"

definition int_of :: "pyval \<Rightarrow> int" where
  "int_of v = (case v of PInt n \<Rightarrow> n | _ \<Rightarrow> 0)"

definition member_of :: "pyval \<Rightarrow> string list \<Rightarrow> bool res" where
  "member_of v xs = (if hashable v then Inr (v \<in> PStr ` set xs) else Inl Crash)"


section \<open>The policy\<close>

record policy =
  current_user_sid :: string
  trustedinstaller_sid :: string

definition sid_form :: "pyval \<Rightarrow> bool" where
  "sid_form v \<longleftrightarrow> (case v of PStr s \<Rightarrow> sid_match s | _ \<Rightarrow> False)"

definition make_policy :: "pyval \<Rightarrow> pyval \<Rightarrow> policy res" where
  "make_policy user installer = (case user of
     PStr s \<Rightarrow> if \<not> sid_match s \<or> installer \<noteq> PStr TRUSTEDINSTALLER
       then Inl (Refused ''identity_binding_refused'')
       else Inr \<lparr>current_user_sid = s, trustedinstaller_sid = TRUSTEDINSTALLER\<rparr>
   | _ \<Rightarrow> Inl (Refused ''identity_binding_refused''))"

definition trusted :: "policy \<Rightarrow> string list res" where
  "trusted p = (if \<not> starts_with ''S-1-5-21-'' (current_user_sid p) then Inl (Refused ''identity_binding_refused'')
     else Inr [current_user_sid p, SYSTEM, ADMINISTRATORS])"

definition at_root :: "node \<Rightarrow> bool" where
  "at_root n \<longleftrightarrow> n_path n = PStr DRIVE"

text \<open>One access control entry of \<open>_security\<close>; \<open>NOT 0xF01F01FF\<close> is Python's \<open>~0xF01F01FF\<close>.\<close>

definition ace_rule :: "bool \<Rightarrow> string list \<Rightarrow> ace_item \<Rightarrow> unit res" where
  "ace_rule private principals item = (case item of
     OtherItem \<Rightarrow> Inl (Refused ''acl_form_refused'')
   | AceItem a \<Rightarrow>
       bind_res (member_of (a_kind a) [''allow'', ''deny'']) (\<lambda>known.
       bind_res (require (known \<and> sid_form (a_sid a) \<and> int_form (a_mask a) \<and>
           0 \<le> int_of (a_mask a) \<and> int_of (a_mask a) \<le> 0xFFFFFFFF \<and>
           int_of (a_mask a) AND NOT 0xF01F01FF = 0 \<and> bool_form (a_inherit_only a)) ''acl_form_refused'') (\<lambda>_.
       if a_inherit_only a = PBool True \<or> a_kind a = PStr ''deny'' \<or> a_sid a \<in> PStr ` set principals then Inr ()
       else require (int_of (a_mask a) AND (if private then 0xFFFFFFFF else ANCESTOR_MUTATION) = 0)
         (if private then ''private_access_refused'' else ''ancestor_mutation_refused''))))"

definition security :: "policy \<Rightarrow> node \<Rightarrow> bool \<Rightarrow> unit res" where
  "security p n private =
     bind_res (trusted p) (\<lambda>users.
     bind_res (member_of (n_owner n) users) (\<lambda>owned.
     let principals = (if at_root n \<and> \<not> private then TRUSTEDINSTALLER # users else users);
         owner_ok = (owned \<or> \<not> private \<and> at_root n \<and> n_owner n = PStr TRUSTEDINSTALLER)
     in case n_aces n of
       None \<Rightarrow> Inl (Refused ''owner_or_dacl_refused'')
     | Some aces \<Rightarrow>
         bind_res (require owner_ok ''owner_or_dacl_refused'') (\<lambda>_.
         bind_res (require (\<not> (private \<and> n_protected_dacl n \<noteq> PBool True)) ''private_dacl_unprotected'') (\<lambda>_.
         each_res (ace_rule private principals) aces))))"


section \<open>Qualification\<close>

definition metadata_form :: "node \<Rightarrow> bool" where
  "metadata_form n \<longleftrightarrow>
     list_all bool_form [n_held n, n_metadata_by_handle n, n_security_by_handle n, n_disk n, n_reparse n,
       n_directory n, n_protected_dacl n, n_creation_security_at_open n] \<and>
     list_all int_form [n_links n, n_desired_access n, n_share_mode n, n_flags n, n_disposition n]"

definition identity_form :: "node \<Rightarrow> bool" where
  "identity_form n \<longleftrightarrow> (case n_handle_id n of
     None \<Rightarrow> False
   | Some xs \<Rightarrow> length xs = 2 \<and> list_all (\<lambda>x. int_form x \<and> 0 < int_of x) xs)"

text \<open>The rules behind the path in \<open>_metadata\<close>, and \<open>_metadata\<close> itself.\<close>

definition metadata_rules :: "node \<Rightarrow> unit res" where
  "metadata_rules n =
     bind_res (require (metadata_form n) ''metadata_form_refused'') (\<lambda>_.
     bind_res (require (n_held n = PBool True \<and> n_metadata_by_handle n = PBool True \<and>
       n_security_by_handle n = PBool True) ''held_handle_evidence_required'') (\<lambda>_.
     bind_res (require (n_disk n = PBool True \<and> n_reparse n \<noteq> PBool True) ''ordinary_disk_object_required'') (\<lambda>_.
     require (identity_form n) ''object_identity_required'')))"

definition metadata :: "node \<Rightarrow> unit res" where
  "metadata n = bind_res (fixed_path (n_path n)) (\<lambda>_. metadata_rules n)"

text \<open>The volume and the object of a handle; read after \<open>_metadata\<close> only.\<close>

definition handle :: "node \<Rightarrow> int \<times> int" where
  "handle n = (case n_handle_id n of Some [a, b] \<Rightarrow> (int_of a, int_of b) | _ \<Rightarrow> (0, 0))"

definition premises_form :: "model_premises \<Rightarrow> bool" where
  "premises_form m \<longleftrightarrow> list_all bool_form [no_untrusted_prior_attribute_or_security_handles m,
     trusted_current_user_and_privileged_os m, ordinary_local_ntfs m, stable_dos_device_mapping m]"

definition directory_guard :: "node \<Rightarrow> bool" where
  "directory_guard n \<longleftrightarrow> n_directory n = PBool True \<and> n_disposition n = PInt OPEN_EXISTING \<and>
     n_desired_access n = PInt DIRECTORY_ACCESS \<and> n_share_mode n = PInt FILE_SHARE_READ \<and>
     n_flags n = PInt DIRECTORY_FLAGS"

definition is_private :: "pyval \<Rightarrow> nat \<Rightarrow> bool" where
  "is_private private_from index \<longleftrightarrow> (case private_from of PInt k \<Rightarrow> k \<le> int index | _ \<Rightarrow> False)"

text \<open>\<open>previous\<close> is the path before this one, \<open>None\<close> for the first node.\<close>

definition follows :: "win_path option \<Rightarrow> node \<Rightarrow> win_path \<Rightarrow> bool" where
  "follows previous n path \<longleftrightarrow> (case previous of
     None \<Rightarrow> at_root n
   | Some q \<Rightarrow> \<not> win_eq path q \<and> win_eq (win_parent path) q)"

fun chain_loop ::
    "policy \<Rightarrow> pyval \<Rightarrow> int \<Rightarrow> nat \<Rightarrow> (int \<times> int) list \<Rightarrow> win_path option \<Rightarrow> node list \<Rightarrow> unit res" where
  "chain_loop p private_from volume index seen previous [] = Inr ()"
| "chain_loop p private_from volume index seen previous (n # ns) =
     bind_res (metadata n) (\<lambda>_.
     bind_res (fixed_path (n_path n)) (\<lambda>path.
     bind_res (require (follows previous n path) ''complete_chain_required'') (\<lambda>_.
     bind_res (require (directory_guard n) ''participating_directory_guard_required'') (\<lambda>_.
     bind_res (require (\<not> (handle n \<in> set seen \<or> seen \<noteq> [] \<and> fst (handle n) \<noteq> volume))
       ''local_distinct_directory_identity_required'') (\<lambda>_.
     bind_res (security p n (is_private private_from index)) (\<lambda>_.
     chain_loop p private_from volume (Suc index) (handle n # seen) (Some path) ns))))))"

text \<open>
  The checks in front of the loop: \<open>nodes\<close> is \<open>None\<close> where the argument is no tuple of
  nodes, \<open>premises\<close> where it is no \<open>ModelPremises\<close>.
\<close>

definition chain_arguments :: "node list option \<Rightarrow> pyval \<Rightarrow> model_premises option \<Rightarrow> unit res" where
  "chain_arguments nodes private_from prem =
     bind_res (require (nodes \<noteq> None \<and> nodes \<noteq> Some []) ''complete_chain_required'') (\<lambda>_.
     bind_res (require (case prem of None \<Rightarrow> False | Some m \<Rightarrow> premises_form m) ''premise_form_refused'') (\<lambda>_.
     require (private_from = PNone \<or> int_form private_from \<and> 0 \<le> int_of private_from \<and>
       int_of private_from < int (length (the nodes))) ''private_boundary_refused''))"

definition premise_rules :: "model_premises \<Rightarrow> unit res" where
  "premise_rules m =
     bind_res (require (no_untrusted_prior_attribute_or_security_handles m = PBool True) ''prior_handle_history_unproved'') (\<lambda>_.
     bind_res (require (trusted_current_user_and_privileged_os m = PBool True) ''principal_trust_unestablished'') (\<lambda>_.
     require (ordinary_local_ntfs m = PBool True \<and> stable_dos_device_mapping m = PBool True)
       ''local_namespace_premise_unestablished''))"

definition qualify_chain ::
    "policy \<Rightarrow> node list option \<Rightarrow> pyval \<Rightarrow> model_premises option \<Rightarrow> (int \<times> int) list res" where
  "qualify_chain p nodes private_from prem =
     bind_res (chain_arguments nodes private_from prem) (\<lambda>_.
     let ns = the nodes in
     bind_res (chain_loop p private_from (fst (handle (hd ns))) 0 [] None ns) (\<lambda>_.
     bind_res (premise_rules (the prem)) (\<lambda>_. Inr (map handle ns))))"

definition private_parent :: "policy \<Rightarrow> node \<Rightarrow> node list \<Rightarrow> model_premises option \<Rightarrow> unit res" where
  "private_parent p n parents prem =
     bind_res (qualify_chain p (Some parents) (PInt (int (length parents) - 1)) prem) (\<lambda>_.
     let parent = last parents in
     bind_res (fixed_path (n_path n)) (\<lambda>path.
     bind_res (fixed_path (n_path parent)) (\<lambda>above.
     require (win_eq (win_parent path) above \<and> fst (handle n) = fst (handle parent) \<and>
       handle n \<notin> handle ` set parents) ''held_parent_required'')))"

text \<open>
  The methods a subclass overrides; \<open>qualify_source\<close> and \<open>qualify_new_file\<close> call them on
  \<open>self\<close>.
\<close>

record methods =
  m_metadata :: "node \<Rightarrow> unit res"
  m_private_parent :: "node \<Rightarrow> node list \<Rightarrow> model_premises option \<Rightarrow> unit res"

definition base_methods :: "policy \<Rightarrow> methods" where
  "base_methods p = \<lparr>m_metadata = metadata, m_private_parent = private_parent p\<rparr>"

definition source_guard :: "node \<Rightarrow> bool" where
  "source_guard n \<longleftrightarrow> n_directory n \<noteq> PBool True \<and> n_links n = PInt 1 \<and> n_share_mode n = PInt 0 \<and>
     n_desired_access n = PInt GENERIC_READ \<and> n_disposition n = PInt OPEN_EXISTING \<and>
     n_flags n = PInt FILE_FLAG_OPEN_REPARSE_POINT"

definition new_file_guard :: "node \<Rightarrow> bool" where
  "new_file_guard n \<longleftrightarrow> n_directory n \<noteq> PBool True \<and> n_links n = PInt 1 \<and> n_share_mode n = PInt 0 \<and>
     n_desired_access n = PInt (GENERIC_WRITE OR READ_CONTROL OR FILE_READ_ATTRIBUTES) \<and>
     n_disposition n = PInt CREATE_NEW \<and> n_flags n = PInt FILE_FLAG_OPEN_REPARSE_POINT \<and>
     n_creation_security_at_open n = PBool True"

definition qualify_source :: "methods \<Rightarrow> policy \<Rightarrow> node \<Rightarrow> node list \<Rightarrow> model_premises option \<Rightarrow> unit res" where
  "qualify_source self p n parents prem =
     bind_res (m_metadata self n) (\<lambda>_.
     bind_res (require (source_guard n) ''exclusive_single_link_source_required'') (\<lambda>_.
     bind_res (m_private_parent self n parents prem) (\<lambda>_.
     security p n True)))"

definition qualify_new_file :: "methods \<Rightarrow> policy \<Rightarrow> node \<Rightarrow> node list \<Rightarrow> model_premises option \<Rightarrow> unit res" where
  "qualify_new_file self p n parents prem =
     bind_res (m_metadata self n) (\<lambda>_.
     bind_res (require (new_file_guard n) ''exclusive_new_file_required'') (\<lambda>_.
     bind_res (m_private_parent self n parents prem) (\<lambda>_.
     security p n True)))"


section \<open>The dispatch window\<close>

record window =
  start_utc :: tick
  end_utc :: tick
  started_monotonic :: tick
  previous_utc :: tick
  previous_monotonic :: tick

definition finite_tick :: "tick \<Rightarrow> bool" where
  "finite_tick t \<longleftrightarrow> (case t of Tick _ \<Rightarrow> True | _ \<Rightarrow> False)"

definition tick_of :: "tick \<Rightarrow> int" where
  "tick_of t = (case t of Tick n \<Rightarrow> n | _ \<Rightarrow> 0)"

definition before_dispatch :: "window \<Rightarrow> tick \<Rightarrow> tick \<Rightarrow> window res" where
  "before_dispatch w utc monotonic =
     (let s = tick_of (start_utc w); e = tick_of (end_utc w); m = tick_of (started_monotonic w) in
      bind_res (require (list_all finite_tick [start_utc w, end_utc w, started_monotonic w, previous_utc w,
          previous_monotonic w, utc, monotonic] \<and>
        (0 < e - s \<and> e - s \<le> 900) \<and>
        (s \<le> tick_of (previous_utc w) \<and> tick_of (previous_utc w) \<le> tick_of utc \<and> tick_of utc < e) \<and>
        (m \<le> tick_of (previous_monotonic w) \<and> tick_of (previous_monotonic w) \<le> tick_of monotonic) \<and>
        \<not> e - s \<le> tick_of monotonic - m) ''window_closed'') (\<lambda>_.
      Inr (w\<lparr>previous_utc := utc, previous_monotonic := monotonic\<rparr>)))"

end
