(* ===== verification/Role_Path.thy ===== *)
theory Role_Path
  imports Held_Path
begin

text \<open>
  The path-policy extension (\<open>probes/post-local-preparation/role_policy.py\<close>): one more
  component is admitted, and the methods that spell a path are overridden with it. The
  inherited methods run with the overriding ones on \<open>self\<close>.
\<close>

definition EXTRA :: string where "EXTRA = ''.coordination-runs''"

fun role_components :: "string list \<Rightarrow> unit res" where
  "role_components [] = Inr ()"
| "role_components (c # cs) =
     bind_res (require (c \<noteq> []) ''fixed_path_refused'') (\<lambda>_.
     bind_res (if c \<noteq> EXTRA then fixed_path (PStr (DRIVE @ c)) else Inr []) (\<lambda>_.
     role_components cs))"

definition role_path :: "pyval \<Rightarrow> win_path res" where
  "role_path value = (case value of
     PStr s \<Rightarrow>
       if s = DRIVE then fixed_path value
       else if \<not> starts_with DRIVE s then Inl (Refused ''fixed_path_refused'')
       else let parts = split_on (CHR 0x5C) (drop 3 s) in
         bind_res (role_components parts) (\<lambda>_. Inr parts)
   | _ \<Rightarrow> Inl (Refused ''fixed_path_refused''))"

definition role_metadata :: "node \<Rightarrow> unit res" where
  "role_metadata n = bind_res (role_path (n_path n)) (\<lambda>_. metadata_rules n)"

fun role_chain_loop ::
    "policy \<Rightarrow> pyval \<Rightarrow> int \<Rightarrow> nat \<Rightarrow> (int \<times> int) list \<Rightarrow> win_path option \<Rightarrow> node list \<Rightarrow> unit res" where
  "role_chain_loop p private_from volume index seen previous [] = Inr ()"
| "role_chain_loop p private_from volume index seen previous (n # ns) =
     bind_res (role_metadata n) (\<lambda>_.
     bind_res (role_path (n_path n)) (\<lambda>path.
     bind_res (require (follows previous n path) ''complete_chain_required'') (\<lambda>_.
     bind_res (require (directory_guard n) ''participating_directory_guard_required'') (\<lambda>_.
     bind_res (require (\<not> (handle n \<in> set seen \<or> seen \<noteq> [] \<and> fst (handle n) \<noteq> volume))
       ''local_distinct_directory_identity_required'') (\<lambda>_.
     bind_res (security p n (is_private private_from index)) (\<lambda>_.
     role_chain_loop p private_from volume (Suc index) (handle n # seen) (Some path) ns))))))"

definition role_qualify_chain ::
    "policy \<Rightarrow> node list option \<Rightarrow> pyval \<Rightarrow> model_premises option \<Rightarrow> (int \<times> int) list res" where
  "role_qualify_chain p nodes private_from prem =
     bind_res (chain_arguments nodes private_from prem) (\<lambda>_.
     let ns = the nodes in
     bind_res (role_chain_loop p private_from (fst (handle (hd ns))) 0 [] None ns) (\<lambda>_.
     bind_res (premise_rules (the prem)) (\<lambda>_. Inr (map handle ns))))"

definition role_private_parent :: "policy \<Rightarrow> node \<Rightarrow> node list \<Rightarrow> model_premises option \<Rightarrow> unit res" where
  "role_private_parent p n parents prem =
     bind_res (role_qualify_chain p (Some parents) (PInt (int (length parents) - 1)) prem) (\<lambda>_.
     let parent = last parents in
     bind_res (role_path (n_path n)) (\<lambda>path.
     bind_res (role_path (n_path parent)) (\<lambda>above.
     require (win_eq (win_parent path) above \<and> fst (handle n) = fst (handle parent) \<and>
       handle n \<notin> handle ` set parents) ''held_parent_required'')))"

definition role_methods :: "policy \<Rightarrow> methods" where
  "role_methods p = \<lparr>m_metadata = role_metadata, m_private_parent = role_private_parent p\<rparr>"

end
