(* ===== verification/Held_Custody.thy ===== *)
theory Held_Custody
  imports Role_Path
begin

text \<open>
  What a qualified chain, source or new file guarantees, for both path policies: the rules
  of the code are first collapsed to one predicate over the accepted nodes, then compared
  with the access check Windows performs on a discretionary access control list.
\<close>

section \<open>Spellings\<close>

lemma split_on_free: "c \<notin> set s \<Longrightarrow> split_on c s = [s]"
  by (induction s) auto

lemma split_on_parts: "w \<in> set (split_on c s) \<Longrightarrow> c \<notin> set w \<and> set w \<subseteq> set s"
  by (induction s arbitrary: w) (fastforce split: if_splits list.splits)+

lemma split_on_chars: "x \<in> set s \<Longrightarrow> x \<noteq> c \<Longrightarrow> \<exists>w\<in>set (split_on c s). x \<in> set w"
  by (induction s) (force split: if_splits list.splits)+

lemma component_chars:
  assumes "component_match s" and "x \<in> set s"
  shows "is_word x \<or> x = CHR ''.''"
proof (rule ccontr)
  assume "\<not> ?thesis"
  with split_on_chars [OF assms(2), of "CHR ''.''"] obtain w
    where "w \<in> set (split_on (CHR ''.'') s)" "x \<in> set w" "\<not> is_word x" by blast
  with assms(1) show False by (auto simp: component_match_def list_all_iff)
qed

lemma slash_not_word: "\<not> is_word (CHR ''/'')" "\<not> is_word (CHR 0x5C)"
  by (simp_all add: is_word_def is_lower_def is_upper_def is_digit_def code_in_def)

lemma component_no_slash: "component_match s \<Longrightarrow> CHR ''/'' \<notin> set s \<and> CHR 0x5C \<notin> set s"
  using component_chars [of s "CHR ''/''"] component_chars [of s "CHR 0x5C"] slash_not_word by auto

lemma component_nonempty: "component_match s \<Longrightarrow> s \<noteq> []"
  by (auto simp: component_match_def)

lemma drive_cases: "starts_with DRIVE s \<longleftrightarrow> (\<exists>r. s = DRIVE @ r)"
  unfolding starts_with_def by (metis append_eq_conv_conj append_take_drop_id)

lemma drive_simps [simp]:
  "length DRIVE = 3" "drop 3 DRIVE = []"
  "starts_with DRIVE (DRIVE @ r)" "DRIVE @ r = DRIVE \<longleftrightarrow> r = []" 
  "CHR ''/'' \<in> set (DRIVE @ r) \<longleftrightarrow> CHR ''/'' \<in> set r"
  by (simp_all add: starts_with_def DRIVE_def)

lemma fixed_path_below:
  "fixed_path (PStr (DRIVE @ r)) =
     (if r = [] then Inr []
      else if list_all conventional (split_on (CHR 0x5C) r) then Inr (split_on (CHR 0x5C) r)
      else Inl (Refused ''fixed_path_refused''))"
proof -
  have "CHR ''/'' \<notin> set r" if "list_all conventional (split_on (CHR 0x5C) r)"
  proof
    assume "CHR ''/'' \<in> set r"
    from split_on_chars [OF this, of "CHR 0x5C"] obtain w
      where "w \<in> set (split_on (CHR 0x5C) r)" "CHR ''/'' \<in> set w" by auto
    with that show False by (auto simp: list_all_iff conventional_def dest: component_no_slash)
  qed
  then show ?thesis
    by (auto simp: fixed_path_def Let_def list_ex_iff list_all_iff simp del: set_append)
qed

lemma fixed_path_drive [simp]: "fixed_path (PStr DRIVE) = Inr []"
  using fixed_path_below [of "[]"] by simp

lemma fixed_component:
  "c \<noteq> [] \<Longrightarrow> CHR 0x5C \<notin> set c \<Longrightarrow> fixed_path (PStr (DRIVE @ c)) = Inr w \<longleftrightarrow> conventional c \<and> w = [c]"
  by (auto simp: fixed_path_below split_on_free)

lemma role_components_ok:
  "list_all (\<lambda>c. CHR 0x5C \<notin> set c) cs \<Longrightarrow>
     role_components cs = Inr u \<longleftrightarrow> list_all (\<lambda>c. c = EXTRA \<or> conventional c) cs"
proof (induction cs)
  case (Cons c cs)
  have "c = EXTRA \<Longrightarrow> c \<noteq> []" by (simp add: EXTRA_def)
  moreover have "conventional c \<Longrightarrow> c \<noteq> []" by (simp add: conventional_def component_nonempty)
  ultimately show ?case
    using Cons by (auto simp: bind_res_Inr fixed_component)
qed simp

text \<open>The paths each policy accepts.\<close>

lemma fixed_path_iff:
  "fixed_path v = Inr parts \<longleftrightarrow> (\<exists>r. v = PStr (DRIVE @ r) \<and>
     (if r = [] then parts = []
      else parts = split_on (CHR 0x5C) r \<and> list_all conventional parts))" (is "_ = ?R")
proof
  assume f: "fixed_path v = Inr parts"
  then obtain s where "v = PStr s" "starts_with DRIVE s"
    by (auto simp: fixed_path_def split: pyval.splits if_splits)
  then obtain r where v: "v = PStr (DRIVE @ r)" by (auto simp: drive_cases)
  with f show ?R by (auto simp: fixed_path_below split: if_splits)
next
  assume ?R
  then show "fixed_path v = Inr parts" by (auto simp: fixed_path_below split: if_splits)
qed

lemma role_path_below:
  "role_path (PStr (DRIVE @ r)) = Inr parts \<longleftrightarrow>
     (if r = [] then parts = []
      else parts = split_on (CHR 0x5C) r \<and> list_all (\<lambda>c. c = EXTRA \<or> conventional c) parts)"
proof -
  have "list_all (\<lambda>c. CHR 0x5C \<notin> set c) (split_on (CHR 0x5C) r)"
    by (auto simp: list_all_iff dest: split_on_parts)
  note role_components_ok [OF this]
  then show ?thesis by (auto simp: role_path_def Let_def bind_res_Inr)
qed

lemma role_path_iff:
  "role_path v = Inr parts \<longleftrightarrow> (\<exists>r. v = PStr (DRIVE @ r) \<and>
     (if r = [] then parts = []
      else parts = split_on (CHR 0x5C) r \<and> list_all (\<lambda>c. c = EXTRA \<or> conventional c) parts))" (is "_ = ?R")
proof
  assume f: "role_path v = Inr parts"
  then obtain s where "v = PStr s" "starts_with DRIVE s"
    by (cases v) (auto simp: role_path_def starts_with_def split: if_splits)
  then obtain r where v: "v = PStr (DRIVE @ r)" by (auto simp: drive_cases)
  with f show ?R by (auto simp: role_path_below split: if_splits)
next
  assume ?R
  then show "role_path v = Inr parts" by (auto simp: role_path_below)
qed

lemma extra_not_conventional: "\<not> conventional EXTRA"
  by (simp add: conventional_def component_match_def EXTRA_def)

lemma fixed_role: "fixed_path v = Inr parts \<longleftrightarrow> role_path v = Inr parts \<and> EXTRA \<notin> set parts"
proof -
  have "list_all conventional parts \<longleftrightarrow>
      list_all (\<lambda>c. c = EXTRA \<or> conventional c) parts \<and> EXTRA \<notin> set parts"
    using extra_not_conventional by (induction parts) auto
  then have "(if r = [] then parts = [] else parts = split_on (CHR 0x5C) r \<and> list_all conventional parts) \<longleftrightarrow>
      (if r = [] then parts = []
       else parts = split_on (CHR 0x5C) r \<and> list_all (\<lambda>c. c = EXTRA \<or> conventional c) parts) \<and>
      EXTRA \<notin> set parts" for r
    by auto
  then show ?thesis unfolding fixed_path_iff role_path_iff by blast
qed


section \<open>The rules as one predicate\<close>

fun chain_good :: "(pyval \<Rightarrow> win_path res) \<Rightarrow> policy \<Rightarrow> pyval \<Rightarrow> nat \<Rightarrow> win_path option \<Rightarrow> node list \<Rightarrow> bool" where
  "chain_good parse p private_from index previous [] = True"
| "chain_good parse p private_from index previous (n # ns) = (\<exists>path. parse (n_path n) = Inr path \<and>
     metadata_rules n = Inr () \<and> follows previous n path \<and> directory_guard n \<and>
     security p n (is_private private_from index) = Inr () \<and>
     chain_good parse p private_from (Suc index) (Some path) ns)"

definition identities_good :: "int \<Rightarrow> (int \<times> int) list \<Rightarrow> node list \<Rightarrow> bool" where
  "identities_good volume seen ns \<longleftrightarrow> distinct (map handle ns) \<and> handle ` set ns \<inter> set seen = {} \<and>
     (\<forall>n\<in>set ns. fst (handle n) = volume)"

lemma identities_step:
  "seen \<noteq> [] \<Longrightarrow> identities_good volume seen (n # ns) \<longleftrightarrow>
     \<not> (handle n \<in> set seen \<or> seen \<noteq> [] \<and> fst (handle n) \<noteq> volume) \<and>
     identities_good volume (handle n # seen) ns"
  by (auto simp: identities_good_def)

lemma chain_loop_later:
  "seen \<noteq> [] \<Longrightarrow> chain_loop p private_from volume index seen previous ns = Inr () \<longleftrightarrow>
     chain_good fixed_path p private_from index previous ns \<and> identities_good volume seen ns"
proof (induction p private_from volume index seen previous ns rule: chain_loop.induct)
  case (1 p private_from volume index seen previous)
  then show ?case by (simp add: identities_good_def)
next
  case (2 p private_from volume index seen previous n ns)
  then show ?case
    by (auto simp: bind_res_Inr metadata_def identities_step)
qed

lemma role_chain_loop_later:
  "seen \<noteq> [] \<Longrightarrow> role_chain_loop p private_from volume index seen previous ns = Inr () \<longleftrightarrow>
     chain_good role_path p private_from index previous ns \<and> identities_good volume seen ns"
proof (induction p private_from volume index seen previous ns rule: role_chain_loop.induct)
  case (1 p private_from volume index seen previous)
  then show ?case by (simp add: identities_good_def)
next
  case (2 p private_from volume index seen previous n ns)
  then show ?case
    by (auto simp: bind_res_Inr role_metadata_def identities_step)
qed

lemma identities_start:
  "identities_good (fst (handle n)) [] (n # ns) \<longleftrightarrow> identities_good (fst (handle n)) [handle n] ns"
  by (auto simp: identities_good_def)

lemma chain_loop_start:
  "ns \<noteq> [] \<Longrightarrow> chain_loop p private_from (fst (handle (hd ns))) index [] previous ns = Inr () \<longleftrightarrow>
     chain_good fixed_path p private_from index previous ns \<and> identities_good (fst (handle (hd ns))) [] ns"
  by (cases ns) (auto simp: bind_res_Inr metadata_def chain_loop_later identities_start)

lemma role_chain_loop_start:
  "ns \<noteq> [] \<Longrightarrow> role_chain_loop p private_from (fst (handle (hd ns))) index [] previous ns = Inr () \<longleftrightarrow>
     chain_good role_path p private_from index previous ns \<and> identities_good (fst (handle (hd ns))) [] ns"
  by (cases ns) (auto simp: bind_res_Inr role_metadata_def role_chain_loop_later identities_start)

text \<open>What a qualified chain satisfies, for a path parser.\<close>

definition chain_rules ::
    "(pyval \<Rightarrow> win_path res) \<Rightarrow> policy \<Rightarrow> node list option \<Rightarrow> pyval \<Rightarrow> model_premises option \<Rightarrow> (int \<times> int) list \<Rightarrow> bool" where
  "chain_rules parse p nodes private_from prem ids \<longleftrightarrow> chain_arguments nodes private_from prem = Inr () \<and>
     chain_good parse p private_from 0 None (the nodes) \<and>
     identities_good (fst (handle (hd (the nodes)))) [] (the nodes) \<and>
     premise_rules (the prem) = Inr () \<and> ids = map handle (the nodes)"

lemma arguments_nodes: "chain_arguments nodes private_from prem = Inr () \<Longrightarrow> nodes = Some (the nodes) \<and> the nodes \<noteq> []"
  by (cases nodes) (auto simp: chain_arguments_def)

lemma qualify_chain_iff:
  "qualify_chain p nodes private_from prem = Inr ids \<longleftrightarrow> chain_rules fixed_path p nodes private_from prem ids"
  unfolding qualify_chain_def chain_rules_def bind_res_Inr Let_def
  by (auto simp: chain_loop_start dest: arguments_nodes)

lemma role_qualify_chain_iff:
  "role_qualify_chain p nodes private_from prem = Inr ids \<longleftrightarrow> chain_rules role_path p nodes private_from prem ids"
  unfolding role_qualify_chain_def chain_rules_def bind_res_Inr Let_def
  by (auto simp: role_chain_loop_start dest: arguments_nodes)


section \<open>Ancestry\<close>

lemma chain_good_nth:
  "chain_good parse p private_from index previous ns \<Longrightarrow> i < length ns \<Longrightarrow>
     \<exists>path. parse (n_path (ns ! i)) = Inr path \<and> metadata_rules (ns ! i) = Inr () \<and> directory_guard (ns ! i) \<and>
       security p (ns ! i) (is_private private_from (index + i)) = Inr ()"
proof (induction ns arbitrary: index previous i)
  case (Cons n ns)
  show ?case
  proof (cases i)
    case 0
    with Cons.prems show ?thesis by auto
  next
    case (Suc j)
    with Cons.prems Cons.IH [of "Suc index" _ j] show ?thesis by auto
  qed
qed simp

text \<open>The paths of a chain, relative to the path before it.\<close>

definition path_at :: "(pyval \<Rightarrow> win_path res) \<Rightarrow> node \<Rightarrow> win_path" where
  "path_at parse n = (case parse (n_path n) of Inr path \<Rightarrow> path | Inl _ \<Rightarrow> [])"

lemma win_eq_length: "win_eq p q \<Longrightarrow> length p = length q"
  unfolding win_eq_def by (metis length_map)

lemma win_child:
  assumes "win_eq (win_parent path) q" and "\<not> win_eq path q"
  shows "length path = Suc (length q) \<and> map lower (take (length q) path) = map lower q"
proof -
  from assms have "path \<noteq> []" by (auto simp: win_parent_def)
  then have "length path = Suc (length (butlast path))" by simp
  moreover from assms(1) have "length (butlast path) = length q"
    by (auto simp: win_parent_def dest: win_eq_length)
  ultimately show ?thesis
    using assms(1) by (metis butlast_conv_take diff_Suc_1 win_eq_def win_parent_def)
qed

text \<open>\<open>below q paths\<close>: each path extends the one before it by one component.\<close>

fun below :: "win_path \<Rightarrow> win_path list \<Rightarrow> bool" where
  "below q [] = True"
| "below q (p # ps) \<longleftrightarrow> length p = Suc (length q) \<and> map lower (take (length q) p) = map lower q \<and> below p ps"

lemma chain_good_below:
  "chain_good parse p private_from index (Some q) ns \<Longrightarrow> below q (map (path_at parse) ns)"
  by (induction ns arbitrary: index q) (auto simp: follows_def path_at_def dest: win_child)

lemma below_nth:
  "below q ps \<Longrightarrow> i < length ps \<Longrightarrow> length (ps ! i) = length q + Suc i \<and>
     (\<forall>j. i \<le> j \<longrightarrow> j < length ps \<longrightarrow> map lower (take (length (ps ! i)) (ps ! j)) = map lower (ps ! i))"
proof (induction ps arbitrary: q i)
  case (Cons p ps)
  have front: "map lower (take (length p) (ps ! j)) = map lower p" if "j < length ps" for j
    using that Cons.prems(1)
  proof (induction j)
    case 0
    then show ?case by (cases ps) auto
  next
    case (Suc j)
    from Suc.prems(2) have b: "below p ps" by simp
    have step: "map lower (take (length (ps ! j)) (ps ! Suc j)) = map lower (ps ! j)"
      using Cons.IH [OF b, of j] Suc.prems(1) by auto
    have "length p \<le> length (ps ! j)" using Cons.IH [OF b, of j] Suc.prems(1) by auto
    then have "map lower (take (length p) (ps ! Suc j)) = take (length p) (map lower (take (length (ps ! j)) (ps ! Suc j)))"
      by (simp add: take_map min_def)
    also have "\<dots> = map lower (take (length p) (ps ! j))" by (simp add: step take_map)
    also have "\<dots> = map lower p" using Suc by simp
    finally show ?case .
  qed
  show ?case
  proof (cases i)
    case 0
    have "map lower (take (length p) ((p # ps) ! j)) = map lower p" if "j < length (p # ps)" for j
      using that front by (cases j) auto
    with 0 Cons.prems show ?thesis by auto
  next
    case (Suc k)
    with Cons.prems Cons.IH [of p k] have len: "length (ps ! k) = length p + Suc k" and
      up: "\<And>j. k \<le> j \<Longrightarrow> j < length ps \<Longrightarrow> map lower (take (length (ps ! k)) (ps ! j)) = map lower (ps ! k)" by auto
    have "map lower (take (length (ps ! k)) ((p # ps) ! j)) = map lower (ps ! k)"
      if "Suc k \<le> j" "j < length (p # ps)" for j
      using that up [of "j - 1"] by (cases j) auto
    with Suc Cons.prems len show ?thesis by simp
  qed
qed simp

lemma chain_good_ancestry:
  assumes "chain_good parse p private_from index None ns" and "i \<le> j" and "j < length ns"
    and "\<And>path. parse (PStr DRIVE) = Inr path \<Longrightarrow> path = []"
  shows "length (path_at parse (ns ! i)) = i \<and>
    win_eq (take i (path_at parse (ns ! j))) (path_at parse (ns ! i))"
proof -
  from assms(3) obtain n ms where ns: "ns = n # ms" by (cases ns) auto
  from assms(1) have root: "path_at parse n = []"
    by (auto simp: ns follows_def at_root_def path_at_def assms(4))
  from assms(1) obtain path where "parse (PStr DRIVE) = Inr path"
    and "chain_good parse p private_from (Suc index) (Some path) ms"
    by (auto simp: ns follows_def at_root_def)
  with assms(4) have "below [] (map (path_at parse) ms)" by (metis chain_good_below)
  note b = below_nth [OF this]
  show ?thesis
  proof (cases i)
    case 0
    then show ?thesis by (simp add: ns root win_eq_def)
  next
    case (Suc k)
    with b [of k] assms(2,3) show ?thesis
      by (cases j) (auto simp: ns win_eq_def)
  qed
qed


section \<open>The access check\<close>

text \<open>
  The check Windows performs for a token that asks for the rights in \<open>wanted\<close>: the entries
  in order; a deny of a right still wanted ends it, an allow settles its rights, and the
  owner holds \<open>READ_CONTROL\<close> and \<open>WRITE_DAC\<close>. An entry of unknown form grants everything,
  and so does an object without a list.
\<close>

definition carries :: "string list \<Rightarrow> pyval \<Rightarrow> bool" where
  "carries token sid \<longleftrightarrow> sid \<in> PStr ` set token"

fun access_walk :: "string list \<Rightarrow> int \<Rightarrow> ace_item list \<Rightarrow> bool" where
  "access_walk token wanted [] \<longleftrightarrow> wanted = 0"
| "access_walk token wanted (OtherItem # items) \<longleftrightarrow> True"
| "access_walk token wanted (AceItem a # items) \<longleftrightarrow>
     (if wanted = 0 then True
      else if a_inherit_only a = PBool True \<or> \<not> carries token (a_sid a) then access_walk token wanted items
      else if a_kind a = PStr ''deny'' then wanted AND int_of (a_mask a) = 0 \<and> access_walk token wanted items
      else access_walk token (wanted AND NOT (int_of (a_mask a))) items)"

definition access_granted :: "string list \<Rightarrow> int \<Rightarrow> node \<Rightarrow> bool" where
  "access_granted token wanted n \<longleftrightarrow> (case n_aces n of
     None \<Rightarrow> True
   | Some items \<Rightarrow> access_walk token
       (if carries token (n_owner n) then wanted AND NOT (READ_CONTROL OR WRITE_DAC) else wanted) items)"

definition forbidden :: "bool \<Rightarrow> int" where
  "forbidden private = (if private then 0xFFFFFFFF else ANCESTOR_MUTATION)"

lemma and_not_disjoint:
  fixes d m f :: int
  assumes "d AND NOT f = 0" and "m AND f = 0"
  shows "d AND NOT m = d"
proof (rule bit_eqI)
  fix k
  from assms(1) have "\<not> bit (d AND NOT f) k" by simp
  moreover from assms(2) have "\<not> bit (m AND f) k" by simp
  ultimately show "bit (d AND NOT m) k = bit d k" by (auto simp: bit_simps)
qed

lemma walk_denied:
  assumes "list_all (\<lambda>item. ace_rule private principals item = Inr ()) items"
    and "set token \<inter> set principals = {}" and "wanted \<noteq> 0" and "wanted AND NOT (forbidden private) = 0"
  shows "\<not> access_walk token wanted items"
  using assms(1,3,4)
proof (induction items)
  case (Cons item items)
  from Cons.prems(1) obtain a where item: "item = AceItem a" by (cases item) (auto simp: ace_rule_def)
  have rule: "a_inherit_only a = PBool True \<or> a_kind a = PStr ''deny'' \<or> a_sid a \<in> PStr ` set principals \<or>
      int_of (a_mask a) AND forbidden private = 0"
    using Cons.prems(1) by (auto simp: item ace_rule_def bind_res_Inr forbidden_def split: if_splits)
  have "\<not> access_walk token wanted items" using Cons by simp
  moreover have "a_sid a \<notin> PStr ` set principals" if "carries token (a_sid a)"
    using that assms(2) by (auto simp: carries_def)
  ultimately show ?case
    using Cons.prems(2) rule and_not_disjoint [OF Cons.prems(3), of "int_of (a_mask a)"] by (auto simp: item)
qed simp

text \<open>The principals the code trusts on a node.\<close>

definition principals :: "policy \<Rightarrow> node \<Rightarrow> bool \<Rightarrow> string list" where
  "principals p n private = (if at_root n \<and> \<not> private then [TRUSTEDINSTALLER] else []) @
     [current_user_sid p, SYSTEM, ADMINISTRATORS]"

lemma security_denies:
  assumes "security p n private = Inr ()" and "set token \<inter> set (principals p n private) = {}"
    and "wanted \<noteq> 0" and "wanted AND NOT (forbidden private) = 0"
  shows "\<not> access_granted token wanted n"
proof -
  from assms(1) obtain items where items: "n_aces n = Some items"
    and rules: "list_all (\<lambda>item. ace_rule private (principals p n private) item = Inr ()) items"
    and owner: "n_owner n \<in> PStr ` set (principals p n private)"
    by (cases "at_root n \<and> \<not> private")
      (auto simp: security_def trusted_def member_of_def principals_def bind_res_Inr each_res_Inr list_all_iff Let_def
        split: option.splits if_splits)
  have "\<not> carries token (n_owner n)" using owner assms(2) by (auto simp: carries_def)
  with walk_denied [OF rules assms(2-4)] show ?thesis by (simp add: access_granted_def items)
qed


section \<open>The contract of a policy\<close>

text \<open>
  What the qualification of files relies on, whatever the path parser: the chain enforces
  the rules, and a private parent is the end of a chain qualified with it as the boundary.
\<close>

locale held_policy =
  fixes p :: policy
    and parse :: "pyval \<Rightarrow> win_path res"
    and chain :: "node list option \<Rightarrow> pyval \<Rightarrow> model_premises option \<Rightarrow> (int \<times> int) list res"
    and self :: methods
  assumes parse_drive: "parse (PStr DRIVE) = Inr path \<Longrightarrow> path = []"
    and chain_sound: "chain nodes private_from prem = Inr ids \<Longrightarrow> chain_rules parse p nodes private_from prem ids"
    and parent_chain: "m_private_parent self n parents prem = Inr () \<Longrightarrow>
      \<exists>ids. chain (Some parents) (PInt (int (length parents) - 1)) prem = Inr ids"
    and parent_path: "m_private_parent self n parents prem = Inr () \<Longrightarrow>
      win_eq (win_parent (path_at parse n)) (path_at parse (last parents)) \<and> fst (handle n) = fst (handle (last parents)) \<and>
        handle n \<notin> handle ` set parents"
begin

lemma chain_node:
  assumes "chain (Some ns) private_from prem = Inr ids" and "i < length ns"
  shows "security p (ns ! i) (is_private private_from i) = Inr () \<and> (at_root (ns ! i) \<longrightarrow> i = 0)"
proof -
  from chain_sound [OF assms(1)] have good: "chain_good parse p private_from 0 None ns"
    by (simp add: chain_rules_def)
  from chain_good_nth [OF good assms(2)] obtain path where path: "parse (n_path (ns ! i)) = Inr path"
    and sec: "security p (ns ! i) (is_private private_from i) = Inr ()" by auto
  from chain_good_ancestry [OF good _ assms(2) parse_drive, of i] have "length (path_at parse (ns ! i)) = i" by simp
  then have "i = 0" if "at_root (ns ! i)"
    using that path by (auto simp: at_root_def path_at_def dest: parse_drive)
  with sec show ?thesis by simp
qed

lemma chain_denies:
  assumes chain: "chain (Some ns) private_from prem = Inr ids" and i: "i < length ns"
    and users: "set token \<inter> {current_user_sid p, SYSTEM, ADMINISTRATORS} = {}"
    and installer: "TRUSTEDINSTALLER \<in> set token \<Longrightarrow> i = 0 \<longrightarrow> is_private private_from 0"
    and wanted: "wanted \<noteq> 0" "wanted AND NOT (forbidden (is_private private_from i)) = 0"
  shows "\<not> access_granted token wanted (ns ! i)"
proof (rule security_denies [OF _ _ wanted])
  note node = chain_node [OF chain i]
  from node show "security p (ns ! i) (is_private private_from i) = Inr ()" by simp
  from node users installer show "set token \<inter> set (principals p (ns ! i) (is_private private_from i)) = {}"
    by (auto simp: principals_def)
qed

lemma chain_ancestry:
  assumes "chain (Some ns) private_from prem = Inr ids" and "i \<le> j" and "j < length ns"
  shows "length (path_at parse (ns ! i)) = i" and "win_eq (take i (path_at parse (ns ! j))) (path_at parse (ns ! i))"
    and "i \<noteq> j \<Longrightarrow> handle (ns ! i) \<noteq> handle (ns ! j)" and "fst (handle (ns ! i)) = fst (handle (ns ! j))"
proof -
  from chain_sound [OF assms(1)] have good: "chain_good parse p private_from 0 None ns"
    and ids: "identities_good (fst (handle (hd ns))) [] ns" by (simp_all add: chain_rules_def)
  from chain_good_ancestry [OF good assms(2,3) parse_drive]
  show "length (path_at parse (ns ! i)) = i" and "win_eq (take i (path_at parse (ns ! j))) (path_at parse (ns ! i))" by simp_all
  from ids assms(2,3) show "i \<noteq> j \<Longrightarrow> handle (ns ! i) \<noteq> handle (ns ! j)"
    by (auto simp: identities_good_def distinct_conv_nth)
  from ids assms(2,3) show "fst (handle (ns ! i)) = fst (handle (ns ! j))"
    by (auto simp: identities_good_def)
qed

lemma file_qualified:
  assumes "qualify_source self p n parents prem = Inr () \<or> qualify_new_file self p n parents prem = Inr ()"
  shows "m_private_parent self n parents prem = Inr ()" and "security p n True = Inr ()"
  using assms by (auto simp: qualify_source_def qualify_new_file_def bind_res_Inr)

lemma file_denies:
  assumes q: "qualify_source self p n parents prem = Inr () \<or> qualify_new_file self p n parents prem = Inr ()"
    and users: "set token \<inter> {current_user_sid p, SYSTEM, ADMINISTRATORS} = {}"
    and wanted: "wanted \<noteq> 0" "wanted AND NOT (forbidden True) = 0"
  shows "\<not> access_granted token wanted n" and "\<not> access_granted token wanted (last parents)"
proof -
  note fq = file_qualified [OF q]
  from users show "\<not> access_granted token wanted n"
    by (intro security_denies [OF fq(2) _ wanted(1)]) (simp_all add: wanted(2) principals_def)
  from parent_chain [OF fq(1)] obtain ids
    where chain: "chain (Some parents) (PInt (int (length parents) - 1)) prem = Inr ids" by blast
  from chain_sound [OF this] have "chain_arguments (Some parents) (PInt (int (length parents) - 1)) prem = Inr ()"
    by (simp add: chain_rules_def)
  from arguments_nodes [OF this] have "parents \<noteq> []" by simp
  then have last: "last parents = parents ! (length parents - 1)" and len: "length parents - 1 < length parents"
    and pv: "is_private (PInt (int (length parents) - 1)) (length parents - 1)"
    by (simp_all add: last_conv_nth is_private_def)
  show "\<not> access_granted token wanted (last parents)"
    unfolding last using pv users wanted
    by (intro chain_denies [OF chain len]) auto
qed

lemma file_parent:
  assumes "qualify_source self p n parents prem = Inr () \<or> qualify_new_file self p n parents prem = Inr ()"
  shows "win_eq (win_parent (path_at parse n)) (path_at parse (last parents))"
    and "fst (handle n) = fst (handle (last parents))" and "handle n \<notin> handle ` set parents"
  using parent_path [OF file_qualified(1) [OF assms]] by simp_all

end

interpretation base: held_policy p fixed_path "qualify_chain p" "base_methods p" for p
  by unfold_locales
    (auto simp: qualify_chain_iff base_methods_def private_parent_def bind_res_Inr path_at_def Let_def)

lemma role_path_drive [simp]: "role_path (PStr DRIVE) = Inr path \<longleftrightarrow> path = []"
  using role_path_below [of "[]"] by simp

interpretation role: held_policy p role_path "role_qualify_chain p" "role_methods p" for p
  by unfold_locales
    (auto simp: role_qualify_chain_iff role_methods_def role_private_parent_def bind_res_Inr path_at_def Let_def)


section \<open>Extension\<close>

text \<open>A node spelled without the extra component.\<close>

definition ordinary :: "node \<Rightarrow> bool" where
  "ordinary n \<longleftrightarrow> EXTRA \<notin> set (path_at role_path n)"

lemma fixed_ordinary:
  "fixed_path (n_path n) = Inr path \<longleftrightarrow> role_path (n_path n) = Inr path \<and> ordinary n"
  by (auto simp: fixed_role ordinary_def path_at_def)

lemma chain_good_ordinary:
  "chain_good fixed_path p private_from index previous ns \<longleftrightarrow>
     chain_good role_path p private_from index previous ns \<and> list_all ordinary ns"
  by (induction ns arbitrary: index previous) (auto simp: fixed_ordinary)

lemma qualify_chain_ordinary:
  "qualify_chain p nodes private_from prem = Inr ids \<longleftrightarrow>
     role_qualify_chain p nodes private_from prem = Inr ids \<and> list_all ordinary (the nodes)"
  by (auto simp: qualify_chain_iff role_qualify_chain_iff chain_rules_def chain_good_ordinary)

lemma metadata_ordinary: "metadata n = Inr () \<longleftrightarrow> role_metadata n = Inr () \<and> ordinary n"
  by (auto simp: metadata_def role_metadata_def bind_res_Inr fixed_ordinary)

lemma private_parent_ordinary:
  assumes "ordinary n"
  shows "private_parent p n parents prem = Inr () \<longleftrightarrow>
     role_private_parent p n parents prem = Inr () \<and> list_all ordinary parents"
proof -
  have "ordinary (last parents)"
    if "qualify_chain p (Some parents) private_from prem = Inr ids" "list_all ordinary parents" for private_from ids
    using that arguments_nodes [of "Some parents" private_from prem]
    by (auto simp: qualify_chain_iff chain_rules_def list_all_iff)
  with assms show ?thesis
    by (auto simp: private_parent_def role_private_parent_def bind_res_Inr Let_def fixed_ordinary
        qualify_chain_ordinary)
qed


section \<open>Admissions\<close>

text \<open>Dispatches admitted one after the other, each on the window the one before returned.\<close>

fun admissions :: "window \<Rightarrow> (tick \<times> tick) list \<Rightarrow> window res" where
  "admissions w [] = Inr w"
| "admissions w ((utc, monotonic) # rs) = bind_res (before_dispatch w utc monotonic) (\<lambda>v. admissions v rs)"

definition in_window :: "window \<Rightarrow> tick \<times> tick \<Rightarrow> bool" where
  "in_window w r \<longleftrightarrow> finite_tick (fst r) \<and> finite_tick (snd r) \<and>
     tick_of (start_utc w) \<le> tick_of (fst r) \<and> tick_of (fst r) < tick_of (end_utc w) \<and>
     0 \<le> tick_of (snd r) - tick_of (started_monotonic w) \<and>
     tick_of (snd r) - tick_of (started_monotonic w) < tick_of (end_utc w) - tick_of (start_utc w) \<and>
     tick_of (end_utc w) - tick_of (start_utc w) \<le> 900"

lemma before_dispatch_step:
  assumes "before_dispatch w utc monotonic = Inr v"
  shows "in_window w (utc, monotonic)" and "tick_of (previous_utc w) \<le> tick_of utc"
    and "tick_of (previous_monotonic w) \<le> tick_of monotonic"
    and "v = w\<lparr>previous_utc := utc, previous_monotonic := monotonic\<rparr>"
  using assms by (simp_all add: before_dispatch_def in_window_def Let_def)

lemma admissions_in_window: "admissions w rs = Inr v \<Longrightarrow> r \<in> set rs \<Longrightarrow> in_window w r"
proof (induction w rs arbitrary: v rule: admissions.induct)
  case (2 w utc monotonic rs)
  then obtain u where u: "before_dispatch w utc monotonic = Inr u" "admissions u rs = Inr v"
    by (auto simp: bind_res_Inr)
  note step = before_dispatch_step [OF u(1)]
  have "in_window u r \<Longrightarrow> in_window w r" by (simp add: step(4) in_window_def)
  with 2 u step(1) show ?case by auto
qed simp

lemma admissions_later:
  "admissions w rs = Inr v \<Longrightarrow>
     sorted (tick_of (previous_utc w) # map (tick_of \<circ> fst) rs) \<and>
     sorted (tick_of (previous_monotonic w) # map (tick_of \<circ> snd) rs)"
proof (induction w rs arbitrary: v rule: admissions.induct)
  case (2 w utc monotonic rs)
  then obtain u where u: "before_dispatch w utc monotonic = Inr u" "admissions u rs = Inr v"
    by (auto simp: bind_res_Inr)
  note step = before_dispatch_step [OF u(1)]
  from "2.IH" [OF u(2)] step(2,3) show ?case by (auto simp: step(4) intro: order_trans)
qed simp

lemma admissions_sorted:
  "admissions w rs = Inr v \<Longrightarrow> sorted (map (tick_of \<circ> fst) rs) \<and> sorted (map (tick_of \<circ> snd) rs)"
  using admissions_later by fastforce

end
