(* ===== verification/Held_Properties.thy ===== *)
theory Held_Properties
  imports Held_Custody
begin

text \<open>
  The properties of the held-handle custody model and of its path-policy extension, with a
  qualified chain of four directories and a source file as the concrete case.
\<close>

section \<open>A concrete case\<close>

definition case_policy :: policy where
  "case_policy = \<lparr>current_user_sid = ''S-1-5-21-100-200-300-1001'', trustedinstaller_sid = TRUSTEDINSTALLER\<rparr>"

definition case_ace :: "string \<Rightarrow> string \<Rightarrow> int \<Rightarrow> ace_item" where
  "case_ace kind sid rights = AceItem \<lparr>a_kind = PStr kind, a_sid = PStr sid, a_mask = PInt rights, a_inherit_only = PBool False\<rparr>"

definition case_directory :: "string \<Rightarrow> int \<Rightarrow> ace_item list \<Rightarrow> node" where
  "case_directory name object aces = \<lparr>n_path = PStr (DRIVE @ name), n_owner = PStr SYSTEM, n_aces = Some aces,
     n_directory = PBool True, n_reparse = PBool False, n_disk = PBool True, n_links = PInt 1,
     n_desired_access = PInt 0x20081, n_share_mode = PInt 1, n_protected_dacl = PBool True,
     n_handle_id = Some [PInt 7, PInt object], n_held = PBool True, n_metadata_by_handle = PBool True,
     n_security_by_handle = PBool True, n_flags = PInt 0x2200000, n_disposition = PInt 3,
     n_creation_security_at_open = PBool False\<rparr>"

definition case_users :: string where "case_users = ''S-1-5-32-545''"

definition case_chain :: "node list" where
  "case_chain =
     [case_directory [] 1 [case_ace ''allow'' TRUSTEDINSTALLER 0x1F01FF, case_ace ''allow'' case_users 0x1200A9],
      case_directory ''work'' 2 [case_ace ''allow'' SYSTEM 0x1F01FF, case_ace ''allow'' case_users 0x1200A9],
      case_directory (''work'' @ [CHR 0x5C] @ ''Keys'') 3 [case_ace ''allow'' SYSTEM 0x1F01FF, case_ace ''deny'' case_users 0x1F01FF]]"

definition case_premises :: model_premises where
  "case_premises = \<lparr>no_untrusted_prior_attribute_or_security_handles = PBool True,
     trusted_current_user_and_privileged_os = PBool True, ordinary_local_ntfs = PBool True,
     stable_dos_device_mapping = PBool True\<rparr>"

definition case_source :: node where
  "case_source = (case_directory (''WORK'' @ [CHR 0x5C] @ ''keys'' @ [CHR 0x5C] @ ''input.bin'') 4 [case_ace ''allow'' SYSTEM 0x1F01FF])
     \<lparr>n_directory := PBool False, n_desired_access := PInt 0x80000000, n_share_mode := PInt 0, n_flags := PInt 0x200000\<rparr>"

lemma case_chain_qualified:
  "qualify_chain case_policy (Some case_chain) (PInt 2) (Some case_premises) = Inr [(7, 1), (7, 2), (7, 3)]"
  by code_simp

lemma case_source_qualified:
  "qualify_source (base_methods case_policy) case_policy case_source case_chain (Some case_premises) = Inr ()"
  by code_simp


section \<open>Properties\<close>

text \<open>
  C8: a token that carries none of the trusted principals obtains no mutation right on any
  directory of a qualified chain, and no right at all on its private part: the access check
  of Windows on the observed owner and list denies every non-empty set of such rights. It
  holds for the chain of either policy; TrustedInstaller counts as trusted only on a root
  that is not private.
\<close>

theorem held_chain_denies_untrusted:
  assumes "qualify_chain p (Some ns) private_from prem = Inr ids \<or>
      role_qualify_chain p (Some ns) private_from prem = Inr ids"
    and "i < length ns"
    and "set token \<inter> {current_user_sid p, SYSTEM, ADMINISTRATORS} = {}"
    and "i = 0 \<longrightarrow> \<not> is_private private_from 0 \<longrightarrow> TRUSTEDINSTALLER \<notin> set token"
    and "wanted \<noteq> 0" and "wanted AND NOT (forbidden (is_private private_from i)) = 0"
  shows "\<not> access_granted token wanted (ns ! i)"
  using assms(1)
proof
  assume "qualify_chain p (Some ns) private_from prem = Inr ids"
  then show ?thesis by (rule base.chain_denies) (use assms in auto)
next
  assume "role_qualify_chain p (Some ns) private_from prem = Inr ids"
  then show ?thesis by (rule role.chain_denies) (use assms in auto)
qed

lemma held_chain_denies_untrusted_witness:
  "\<not> access_granted [case_users] (GENERIC_WRITE OR DELETE) (case_chain ! 1) \<and>
   \<not> access_granted [case_users] 1 (case_chain ! 2)"
proof
  show "\<not> access_granted [case_users] (GENERIC_WRITE OR DELETE) (case_chain ! 1)"
    by (rule held_chain_denies_untrusted [OF disjI1 [OF case_chain_qualified]]) code_simp+
  show "\<not> access_granted [case_users] 1 (case_chain ! 2)"
    by (rule held_chain_denies_untrusted [OF disjI1 [OF case_chain_qualified]]) code_simp+
qed

text \<open>
  A qualified chain is the complete ancestry of its last directory: the node at place
  \<open>i\<close> has \<open>i\<close> components, which are the first \<open>i\<close> components of every later node up to the
  case of letters; no two nodes are the same object, and all lie on one volume.
\<close>

theorem held_chain_is_ancestry:
  assumes "qualify_chain p (Some ns) private_from prem = Inr ids" and "i < j" and "j < length ns"
  shows "\<exists>above path. fixed_path (n_path (ns ! i)) = Inr above \<and> fixed_path (n_path (ns ! j)) = Inr path \<and>
    length above = i \<and> length path = j \<and> map lower (take i path) = map lower above \<and>
    ids ! i \<noteq> ids ! j \<and> fst (ids ! i) = fst (ids ! j)"
proof -
  have good: "chain_good fixed_path p private_from 0 None ns" and ids: "ids = map handle ns"
    using base.chain_sound [OF assms(1)] by (simp_all add: chain_rules_def)
  note order = base.chain_ancestry [OF assms(1)]
  obtain above where a: "fixed_path (n_path (ns ! i)) = Inr above"
    using chain_good_nth [OF good, of i] assms(2,3) by auto
  obtain path where b: "fixed_path (n_path (ns ! j)) = Inr path"
    using chain_good_nth [OF good assms(3)] by auto
  from order [of i j] order [of j j] assms(2,3) a b show ?thesis
    by (auto simp: ids path_at_def win_eq_def)
qed

lemma held_chain_is_ancestry_witness:
  "\<exists>above path. fixed_path (n_path (case_chain ! 1)) = Inr above \<and> fixed_path (n_path (case_chain ! 2)) = Inr path \<and>
    length above = 1 \<and> length path = 2 \<and> map lower (take 1 path) = map lower above"
proof -
  have "2 < length case_chain" by (simp add: case_chain_def)
  from held_chain_is_ancestry [OF case_chain_qualified _ this, of 1] show ?thesis by auto
qed

text \<open>
  C18: a qualified source or new file, under either policy, is closed to every token without
  a trusted principal: it obtains no right on the file and none on the directory that holds
  it. The path of that directory is the parent of the file's up to the case of letters, both
  lie on the same volume, and the file is none of the directories held.
\<close>

theorem held_file_is_private:
  assumes "self = base_methods p \<and> parse = fixed_path \<or> self = role_methods p \<and> parse = role_path"
    and "qualify_source self p n parents prem = Inr () \<or> qualify_new_file self p n parents prem = Inr ()"
    and "set token \<inter> {current_user_sid p, SYSTEM, ADMINISTRATORS} = {}"
    and "wanted \<noteq> 0" and "wanted AND NOT (forbidden True) = 0"
  shows "\<not> access_granted token wanted n \<and> \<not> access_granted token wanted (last parents) \<and>
    win_eq (win_parent (path_at parse n)) (path_at parse (last parents)) \<and>
    fst (handle n) = fst (handle (last parents)) \<and> handle n \<notin> handle ` set parents"
  using assms(1)
proof
  assume self: "self = base_methods p \<and> parse = fixed_path"
  then have "qualify_source (base_methods p) p n parents prem = Inr () \<or>
      qualify_new_file (base_methods p) p n parents prem = Inr ()" using assms(2) by simp
  from base.file_denies [OF this assms(3-5)] base.file_parent [OF this] self show ?thesis by simp
next
  assume self: "self = role_methods p \<and> parse = role_path"
  then have "qualify_source (role_methods p) p n parents prem = Inr () \<or>
      qualify_new_file (role_methods p) p n parents prem = Inr ()" using assms(2) by simp
  from role.file_denies [OF this assms(3-5)] role.file_parent [OF this] self show ?thesis by simp
qed

lemma held_file_is_private_witness:
  "\<not> access_granted [case_users] 1 case_source \<and> \<not> access_granted [case_users] 1 (last case_chain) \<and>
    win_eq (win_parent (path_at fixed_path case_source)) (path_at fixed_path (last case_chain)) \<and>
    fst (handle case_source) = fst (handle (last case_chain)) \<and> handle case_source \<notin> handle ` set case_chain"
  by (rule held_file_is_private [OF disjI1 [OF conjI [OF refl refl]] disjI1 [OF case_source_qualified]]) code_simp+

text \<open>
  The extension is conservative: on observations whose paths do not contain the extra
  component, the overridden methods qualify exactly what the pinned ones do, chains, sources
  and new files alike; and whatever the pinned policy qualifies contains no such component.
\<close>

theorem role_policy_conservative:
  "(qualify_chain p nodes private_from prem = Inr ids \<longleftrightarrow>
      role_qualify_chain p nodes private_from prem = Inr ids \<and> list_all ordinary (the nodes)) \<and>
   (qualify_source (base_methods p) p n parents prem = Inr () \<longleftrightarrow>
      qualify_source (role_methods p) p n parents prem = Inr () \<and> list_all ordinary (n # parents)) \<and>
   (qualify_new_file (base_methods p) p n parents prem = Inr () \<longleftrightarrow>
      qualify_new_file (role_methods p) p n parents prem = Inr () \<and> list_all ordinary (n # parents))"
  using qualify_chain_ordinary metadata_ordinary [of n] private_parent_ordinary [of n p parents prem]
  by (auto simp: qualify_source_def qualify_new_file_def base_methods_def role_methods_def bind_res_Inr)

text \<open>
  Every admitted dispatch lies in the window: after any number of successful admissions,
  in the order of the calls, wall times never fall and stay from the start to before the
  end, monotonic times never fall, and the time passed on the monotonic clock stays below
  the length of the window, itself at most 900.
\<close>

theorem window_admissions_bounded:
  assumes "admissions w rs = Inr v" and "r \<in> set rs"
  shows "sorted (map (tick_of \<circ> fst) rs) \<and> sorted (map (tick_of \<circ> snd) rs) \<and>
    finite_tick (fst r) \<and> finite_tick (snd r) \<and>
    tick_of (start_utc w) \<le> tick_of (fst r) \<and> tick_of (fst r) < tick_of (end_utc w) \<and>
    0 \<le> tick_of (snd r) - tick_of (started_monotonic w) \<and>
    tick_of (snd r) - tick_of (started_monotonic w) < tick_of (end_utc w) - tick_of (start_utc w) \<and>
    tick_of (end_utc w) - tick_of (start_utc w) \<le> 900"
  using admissions_sorted [OF assms(1)] admissions_in_window [OF assms] by (simp add: in_window_def)

lemma window_admissions_bounded_witness:
  "sorted (map (tick_of \<circ> fst) [(Tick 1000, Tick 5), (Tick 1899, Tick 904)]) \<and>
   tick_of (snd (Tick 1899, Tick 904)) - tick_of (Tick 5) < tick_of (Tick 1900) - tick_of (Tick 1000)"
  using window_admissions_bounded [of "\<lparr>start_utc = Tick 1000, end_utc = Tick 1900, started_monotonic = Tick 5,
      previous_utc = Tick 1000, previous_monotonic = Tick 5\<rparr>" "[(Tick 1000, Tick 5), (Tick 1899, Tick 904)]" _ "(Tick 1899, Tick 904)"]
  by (simp add: before_dispatch_def finite_tick_def tick_of_def)

end
