(* ===== verification/Trial_Pause.thy ===== *)
theory Trial_Pause
  imports Encoding
begin

text \<open>
  The controlled trial pause (\<open>scripts/controlled_trial_pause.py\<close>): the closed operator plan,
  the five fixed statements of the batch, the inspection, the envelope of the provider's
  answer, the receipt, and the command without its argument parser. What the statements do
  to the database is in \<open>Trial_Database\<close>. The plan file and the provider's answer arrive
  decoded; an error while decoding is a \<open>None\<close>.
\<close>

section \<open>The plan\<close>

record plan =
  accountId :: string
  databaseId :: string
  fgaUserId :: string
  operationId :: string
  expectedDeploymentRevision :: int
  expectedDeploymentEnabled :: int
  expectedUserRevision :: int
  expectedUserEnabled :: int

definition FIELDS :: "string list" where
  "FIELDS = [''schemaVersion'', ''accountId'', ''databaseId'', ''fgaUserId'', ''operationId'',
     ''expectedDeploymentRevision'', ''expectedDeploymentEnabled'', ''expectedUserRevision'', ''expectedUserEnabled'']"

text \<open>\<open>str(uuid.UUID(s)) == s\<close>; where \<open>uuid.UUID\<close> itself raises, it is a \<open>ValueError\<close> too.\<close>

definition canonical_uuid :: "string \<Rightarrow> bool" where
  "canonical_uuid s \<longleftrightarrow> map length (split_on (CHR ''-'') s) = [8, 4, 4, 4, 12] \<and>
     list_all (list_all is_hex) (split_on (CHR ''-'') s)"

text \<open>\<open>[A-Za-z0-9][A-Za-z0-9@._:-]{0,127}\<close>\<close>

definition is_alnum :: "char \<Rightarrow> bool" where
  "is_alnum c \<longleftrightarrow> is_lower c \<or> is_upper c \<or> is_digit c"

definition owner_match :: "string \<Rightarrow> bool" where
  "owner_match s \<longleftrightarrow> 1 \<le> length s \<and> length s \<le> 128 \<and> is_alnum (hd s) \<and>
     list_all (\<lambda>c. is_alnum c \<or> c \<in> {CHR ''@'', CHR ''.'', CHR ''_'', CHR '':'', CHR ''-''}) (tl s)"

definition text_field :: "(string \<Rightarrow> bool) \<Rightarrow> string \<Rightarrow> pyval \<Rightarrow> string res" where
  "text_field ok code v = (case v of PStr s \<Rightarrow> if ok s then Inr s else Inl (Refused code) | _ \<Rightarrow> Inl (Refused code))"

definition int_field :: "(int \<Rightarrow> bool) \<Rightarrow> string \<Rightarrow> pyval \<Rightarrow> int res" where
  "int_field ok code v = (case v of PInt n \<Rightarrow> if ok n then Inr n else Inl (Refused code) | _ \<Rightarrow> Inl (Refused code))"

definition revision_ok :: "int \<Rightarrow> bool" where
  "revision_ok n \<longleftrightarrow> 1 \<le> n \<and> n < 9007199254740991"

definition validate :: "pyval \<Rightarrow> plan res" where
  "validate value = (case value of
     PDict d \<Rightarrow>
       bind_res (require (set (map fst d) = set FIELDS \<and> dict_get d ''schemaVersion'' = PInt 1) ''invalid_operator_plan'') (\<lambda>_.
       bind_res (text_field (fullmatch_hex 32) ''invalid_account_id'' (dict_get d ''accountId'')) (\<lambda>account.
       bind_res (text_field canonical_uuid ''invalid_opaque_id'' (dict_get d ''databaseId'')) (\<lambda>database.
       bind_res (text_field canonical_uuid ''invalid_opaque_id'' (dict_get d ''operationId'')) (\<lambda>operation.
       bind_res (text_field owner_match ''invalid_owner_id'' (dict_get d ''fgaUserId'')) (\<lambda>user.
       bind_res (int_field revision_ok ''invalid_expected_revision'' (dict_get d ''expectedDeploymentRevision'')) (\<lambda>dr.
       bind_res (int_field revision_ok ''invalid_expected_revision'' (dict_get d ''expectedUserRevision'')) (\<lambda>ur.
       bind_res (int_field (\<lambda>n. n = 0 \<or> n = 1) ''invalid_expected_gate_state'' (dict_get d ''expectedDeploymentEnabled'')) (\<lambda>de.
       bind_res (int_field (\<lambda>n. n = 0 \<or> n = 1) ''invalid_expected_gate_state'' (dict_get d ''expectedUserEnabled'')) (\<lambda>ue.
       Inr \<lparr>accountId = account, databaseId = database, fgaUserId = user, operationId = operation,
         expectedDeploymentRevision = dr, expectedDeploymentEnabled = de,
         expectedUserRevision = ur, expectedUserEnabled = ue\<rparr>)))))))))
   | _ \<Rightarrow> Inl (Refused ''invalid_operator_plan''))"


section \<open>The statements\<close>

record statement =
  st_sql :: string
  st_params :: "string list"

definition lines_text :: "string list \<Rightarrow> string" where
  "lines_text ls = join [CHR 0x0A] ls"

definition GUARD_SQL :: string where
  "GUARD_SQL = lines_text [''INSERT INTO transaction_guards(transaction_id,approved)'',
     ''          SELECT ?1, EXISTS(SELECT 1 FROM flickr_write_gates'',
     ''           WHERE scope='deployment' AND scope_id='*'' @ [CHR 0x27],
     ''           AND revision=CAST(?2 AS INTEGER) AND enabled=CAST(?3 AS INTEGER))'',
     ''          AND EXISTS(SELECT 1 FROM flickr_write_gates'',
     ''           WHERE scope='user' AND scope_id=?4'',
     ''           AND revision=CAST(?5 AS INTEGER) AND enabled=CAST(?6 AS INTEGER))'']"

definition PAUSE_SQL :: string where
  "PAUSE_SQL = lines_text [''UPDATE flickr_write_gates SET enabled=0,revision=revision+1'',
     ''          WHERE enabled=1 AND ((scope='deployment' AND scope_id='*')'',
     ''          OR (scope='user' AND scope_id=?1))'']"

definition AUDIT_SQL :: string where
  "AUDIT_SQL = lines_text [''INSERT INTO audit_events(event_id,user_id,action,request_correlation_id,'',
     ''          outcome,reason,target_id,source_component)'',
     ''          VALUES(?1,?2,'flickr.operator_write_pause',?1,'succeeded',?3,?2,'fga_deployment_operator')'']"

definition RELEASE_SQL :: string where
  "RELEASE_SQL = ''DELETE FROM transaction_guards WHERE transaction_id=?1''"

definition INSPECT_SQL :: string where
  "INSPECT_SQL = lines_text [''SELECT scope,enabled,CAST(revision AS TEXT) AS revision,'',
     ''      EXISTS(SELECT 1 FROM audit_events WHERE event_id=?1 AND request_correlation_id=?1'',
     ''       AND user_id=?2 AND action='flickr.operator_write_pause'' @ [CHR 0x27],
     ''       AND source_component='fga_deployment_operator'' @ [CHR 0x27],
     ''       AND outcome='succeeded') AS operation_recorded,'',
     ''      EXISTS(SELECT 1 FROM flickr_write_gate_events e WHERE e.scope=g.scope'',
     ''       AND e.scope_id=g.scope_id AND e.revision=g.revision'',
     ''       AND e.reason='gate_paused') AS pause_recorded'',
     ''      FROM flickr_write_gates g WHERE (scope='deployment' AND scope_id='*')'',
     ''       OR (scope='user' AND scope_id=?2) ORDER BY scope'']"

definition reason_text :: "plan \<Rightarrow> string" where
  "reason_text p = ''controlled_trial_stop_d'' @ py_str_int (expectedDeploymentRevision p) @ ''_'' @
     py_str_int (expectedDeploymentRevision p + expectedDeploymentEnabled p) @ ''_u'' @
     py_str_int (expectedUserRevision p) @ ''_'' @
     py_str_int (expectedUserRevision p + expectedUserEnabled p)"

definition inspection_statement :: "plan \<Rightarrow> statement" where
  "inspection_statement p = \<lparr>st_sql = INSPECT_SQL, st_params = [operationId p, fgaUserId p]\<rparr>"

definition statements :: "plan \<Rightarrow> statement list" where
  "statements p =
     [\<lparr>st_sql = GUARD_SQL, st_params = [operationId p,
         py_str_int (expectedDeploymentRevision p), py_str_int (expectedDeploymentEnabled p), fgaUserId p,
         py_str_int (expectedUserRevision p), py_str_int (expectedUserEnabled p)]\<rparr>,
      \<lparr>st_sql = PAUSE_SQL, st_params = [fgaUserId p]\<rparr>,
      \<lparr>st_sql = AUDIT_SQL, st_params = [operationId p, fgaUserId p, reason_text p]\<rparr>,
      \<lparr>st_sql = RELEASE_SQL, st_params = [operationId p]\<rparr>,
      inspection_statement p]"


section \<open>The provider's answer\<close>

text \<open>The body of the one request: a batch, or a single statement.\<close>

datatype body = Batch "statement list" | Single statement

definition body_length :: "body \<Rightarrow> nat" where
  "body_length b = (case b of Batch ss \<Rightarrow> length ss | Single _ \<Rightarrow> 1)"

text \<open>
  What the transport returns: an \<open>OSError\<close>, or a status, the number of bytes read (at most
  65537) and the decoded body.
\<close>

datatype answer = NoAnswer | Answer int nat "pyval option"

definition endpoint :: "plan \<Rightarrow> string" where
  "endpoint p = ''https://api.cloudflare.com/client/v4/accounts/'' @ accountId p @ ''/d1/database/'' @ databaseId p @ ''/query''"

definition unconfirmed :: "'a res" where
  "unconfirmed = Inl (Refused ''provider_result_unconfirmed'')"

definition succeeded :: "pyval \<Rightarrow> bool" where
  "succeeded v \<longleftrightarrow> (case v of PDict d \<Rightarrow> dict_get d ''success'' = PBool True | _ \<Rightarrow> False)"

definition request :: "body \<Rightarrow> answer \<Rightarrow> pyval res" where
  "request b response = (case response of
     NoAnswer \<Rightarrow> unconfirmed
   | Answer status bytes decoded \<Rightarrow>
       if status \<noteq> 200 \<or> 65536 < bytes then unconfirmed
       else (case decoded of
         None \<Rightarrow> Inl Crash
       | Some value \<Rightarrow>
           if \<not> succeeded value then unconfirmed
           else (case value of PDict d \<Rightarrow> (case dict_get d ''result'' of
                PList results \<Rightarrow>
                  if length results \<noteq> body_length b \<or> \<not> list_all succeeded results then unconfirmed
                  else (case last results of PDict row \<Rightarrow> Inr (dict_get row ''results'') | _ \<Rightarrow> Inl Crash)
              | _ \<Rightarrow> unconfirmed)
            | _ \<Rightarrow> unconfirmed)))"


section \<open>The receipt\<close>

definition inspect_required :: pyval where
  "inspect_required = PDict [(''state'', PStr ''unconfirmed_inspect_required'')]"

definition expected_of :: "plan \<Rightarrow> string \<Rightarrow> int" where
  "expected_of p scope = (if scope = ''deployment'' then expectedDeploymentRevision p + expectedDeploymentEnabled p
     else expectedUserRevision p + expectedUserEnabled p)"

definition changed_of :: "plan \<Rightarrow> string \<Rightarrow> int" where
  "changed_of p scope = (if scope = ''deployment'' then expectedDeploymentEnabled p else expectedUserEnabled p)"

definition confirmed :: "plan \<Rightarrow> pyval" where
  "confirmed p = PDict [(''state'', PStr ''confirmed_paused''), (''operationId'', PStr (operationId p)),
     (''deploymentRevision'', PStr (py_str_int (expected_of p ''deployment''))),
     (''userRevision'', PStr (py_str_int (expected_of p ''user'')))]"

fun receipt_rows :: "plan \<Rightarrow> string list \<Rightarrow> pyval list \<Rightarrow> pyval res" where
  "receipt_rows p seen [] = Inr (confirmed p)"
| "receipt_rows p seen (row # rows) = (case row of
     PDict d \<Rightarrow>
       if \<not> hashable (dict_get d ''scope'') then Inl Crash
       else (case dict_get d ''scope'' of
         PStr scope \<Rightarrow>
           if scope \<notin> {''deployment'', ''user''} then Inr inspect_required
           else if scope \<in> set seen \<or> \<not> py_eq (dict_get d ''enabled'') (PInt 0) \<or>
             dict_get d ''revision'' \<noteq> PStr (py_str_int (expected_of p scope)) \<or>
             \<not> py_eq (dict_get d ''operation_recorded'') (PInt 1) then Inr inspect_required
           else if changed_of p scope \<noteq> 0 \<and> \<not> py_eq (dict_get d ''pause_recorded'') (PInt 1) then Inr inspect_required
           else receipt_rows p (scope # seen) rows
       | _ \<Rightarrow> Inr inspect_required)
   | _ \<Rightarrow> Inr inspect_required)"

definition receipt :: "plan \<Rightarrow> pyval \<Rightarrow> pyval res" where
  "receipt p rows = (case rows of
     PList xs \<Rightarrow> if length xs \<noteq> 2 then Inr inspect_required else receipt_rows p [] xs
   | _ \<Rightarrow> Inr inspect_required)"


section \<open>The command\<close>

datatype mode = Offline | Apply | Inspect

text \<open>\<open>json.dumps(p, sort_keys=True)\<close> of the plan: the default separators.\<close>

definition plan_json :: "plan \<Rightarrow> string" where
  "plan_json p = ''{'' @ join '', '' (map (\<lambda>(k, v). dumps_string k @ '': '' @ v)
     [(''accountId'', dumps_string (accountId p)), (''databaseId'', dumps_string (databaseId p)),
      (''expectedDeploymentEnabled'', py_str_int (expectedDeploymentEnabled p)),
      (''expectedDeploymentRevision'', py_str_int (expectedDeploymentRevision p)),
      (''expectedUserEnabled'', py_str_int (expectedUserEnabled p)),
      (''expectedUserRevision'', py_str_int (expectedUserRevision p)),
      (''fgaUserId'', dumps_string (fgaUserId p)), (''operationId'', dumps_string (operationId p)),
      (''schemaVersion'', ''1'')]) @ ''}''"

text \<open>\<open>[A-Za-z0-9_-]{35,256}\<close>\<close>

definition token_match :: "string \<Rightarrow> bool" where
  "token_match s \<longleftrightarrow> 35 \<le> length s \<and> length s \<le> 256 \<and> list_all (\<lambda>c. is_alnum c \<or> c \<in> {CHR ''_'', CHR ''-''}) s"

text \<open>
  The command after its arguments: the decoded plan file, the stripped text of the token file
  (the outer \<open>None\<close>: no such argument; the inner one: an unreadable file), and the transport.
  It returns what it prints, its exit code and the body it sent, if any.
\<close>

definition operator ::
    "mode \<Rightarrow> plan \<Rightarrow> string option option \<Rightarrow> (body \<Rightarrow> answer) \<Rightarrow> (pyval \<times> nat) res" where
  "operator m p token transport =
     (if m = Offline then Inr (PDict [(''state'', PStr ''offline_plan''), (''statements'', PInt (int (length (statements p)))),
         (''planSha2_256'', PStr (sha256_hex (plan_json p)))], 0)
      else case token of
        None \<Rightarrow> Inl (Refused ''operator_token_file_required'')
      | Some None \<Rightarrow> Inl Crash
      | Some (Some t) \<Rightarrow>
          bind_res (require (token_match t) ''invalid_operator_token_file'') (\<lambda>_.
          let b = (if m = Inspect then Single (inspection_statement p) else Batch (statements p)) in
          bind_res (request b (transport b)) (\<lambda>rows.
          bind_res (receipt p rows) (\<lambda>result.
          Inr (result, if result = confirmed p then 0 else 1)))))"

definition main ::
    "mode \<Rightarrow> pyval option \<Rightarrow> string option option \<Rightarrow> (body \<Rightarrow> answer) \<Rightarrow> pyval \<times> nat" where
  "main m planfile token transport =
     (case bind_res (case planfile of None \<Rightarrow> Inl Crash | Some v \<Rightarrow> validate v) (\<lambda>p. operator m p token transport) of
        Inr r \<Rightarrow> r
      | Inl _ \<Rightarrow> (if m = Offline then PDict [(''state'', PStr ''invalid_offline_plan'')] else inspect_required, 1))"

end
