(* ===== verification/Trial_Database.thy ===== *)
theory Trial_Database
  imports Trial_Pause
begin

text \<open>
  The tables the pause statements touch, with the checks and triggers of the migrations
  (\<open>migrations/0001_foundation.sql\<close>, \<open>0003\<close>, \<open>0009\<close> and \<open>0011\<close>), the meaning of each of the five
  statements on them, the batch as one transaction, and what any other writer can do. The
  random identity of a gate event is taken to be fresh.
\<close>

section \<open>Tables\<close>

record gate =
  gt_scope :: string
  gt_id :: string
  gt_enabled :: int
  gt_revision :: int

record gate_event =
  ev_scope :: string
  ev_id :: string
  ev_revision :: int
  ev_reason :: string

record audit =
  au_event :: string
  au_user :: "string option"
  au_action :: string
  au_request :: string
  au_outcome :: string
  au_reason :: string
  au_target :: "string option"
  au_component :: string

record trial_db =
  db_users :: "string list"
  db_gates :: "gate list"
  db_events :: "gate_event list"
  db_audits :: "audit list"
  db_guards :: "string list"

definition gate_key :: "gate \<Rightarrow> string \<times> string" where
  "gate_key g = (gt_scope g, gt_id g)"

text \<open>The checks and the primary key of \<open>flickr_write_gates\<close>.\<close>

definition gate_ok :: "gate \<Rightarrow> bool" where
  "gate_ok g \<longleftrightarrow> gt_scope g \<in> {''deployment'', ''user''} \<and> gt_enabled g \<in> {0, 1} \<and>
     0 < gt_revision g \<and> gt_revision g \<le> 9223372036854775807"

definition gates_ok :: "gate list \<Rightarrow> bool" where
  "gates_ok gs \<longleftrightarrow> distinct (map gate_key gs) \<and> list_all gate_ok gs"

text \<open>The trigger \<open>write_gate_transition\<close> on one updated row.\<close>

definition gate_transition :: "gate \<Rightarrow> gate \<Rightarrow> gate_event list \<Rightarrow> gate_event list" where
  "gate_transition old new evs =
     (if gt_revision new = gt_revision old \<and> gt_enabled new = gt_enabled old then evs
      else if \<exists>e\<in>set evs. ev_scope e = gt_scope new \<and> ev_id e = gt_id new \<and> ev_revision e = gt_revision new then evs
      else evs @ [\<lparr>ev_scope = gt_scope new, ev_id = gt_id new, ev_revision = gt_revision new,
        ev_reason = (if gt_enabled new = 1 then ''gate_enabled'' else ''gate_paused'')\<rparr>])"


section \<open>The statements\<close>

definition has_gate :: "trial_db \<Rightarrow> string \<Rightarrow> string \<Rightarrow> int \<Rightarrow> int \<Rightarrow> bool" where
  "has_gate db scope i revision enabled \<longleftrightarrow> (\<exists>g\<in>set (db_gates db). gt_scope g = scope \<and> gt_id g = i \<and>
     gt_revision g = revision \<and> gt_enabled g = enabled)"

text \<open>\<open>CHECK(approved=1)\<close> and the primary key fail the insertion of the guard.\<close>

definition insert_guard :: "string list \<Rightarrow> trial_db \<Rightarrow> trial_db option" where
  "insert_guard ps db = (case ps of
     [operation, dr, de, user, ur, ue] \<Rightarrow>
       if has_gate db ''deployment'' ''*'' (decimal_value dr) (decimal_value de) \<and>
          has_gate db ''user'' user (decimal_value ur) (decimal_value ue) \<and> operation \<notin> set (db_guards db)
       then Some (db\<lparr>db_guards := db_guards db @ [operation]\<rparr>) else None
   | _ \<Rightarrow> None)"

definition selected :: "string \<Rightarrow> gate \<Rightarrow> bool" where
  "selected user g \<longleftrightarrow> gt_scope g = ''deployment'' \<and> gt_id g = ''*'' \<or> gt_scope g = ''user'' \<and> gt_id g = user"

definition paused_gate :: "gate \<Rightarrow> gate" where
  "paused_gate g = g\<lparr>gt_enabled := 0, gt_revision := gt_revision g + 1\<rparr>"

fun pause_rows :: "string \<Rightarrow> gate list \<Rightarrow> gate_event list \<Rightarrow> (gate list \<times> gate_event list) option" where
  "pause_rows user [] evs = Some ([], evs)"
| "pause_rows user (g # gs) evs =
     (if gt_enabled g = 1 \<and> selected user g then
        if \<not> gate_ok (paused_gate g) then None
        else map_option (\<lambda>(hs, es). (paused_gate g # hs, es)) (pause_rows user gs (gate_transition g (paused_gate g) evs))
      else map_option (\<lambda>(hs, es). (g # hs, es)) (pause_rows user gs evs))"

definition pause_gates :: "string list \<Rightarrow> trial_db \<Rightarrow> trial_db option" where
  "pause_gates ps db = (case ps of
     [user] \<Rightarrow> map_option (\<lambda>(gs, evs). db\<lparr>db_gates := gs, db_events := evs\<rparr>) (pause_rows user (db_gates db) (db_events db))
   | _ \<Rightarrow> None)"

text \<open>The foreign key of the user and the trigger \<open>audit_no_replace\<close>.\<close>

definition insert_audit :: "audit \<Rightarrow> trial_db \<Rightarrow> trial_db option" where
  "insert_audit a db =
     (if (case au_user a of None \<Rightarrow> True | Some u \<Rightarrow> u \<in> set (db_users db)) \<and> au_outcome a \<in> {''succeeded'', ''failed''} \<and>
         au_event a \<notin> au_event ` set (db_audits db)
      then Some (db\<lparr>db_audits := db_audits db @ [a]\<rparr>) else None)"

definition pause_audit :: "string \<Rightarrow> string \<Rightarrow> string \<Rightarrow> audit" where
  "pause_audit operation user reason = \<lparr>au_event = operation, au_user = Some user,
     au_action = ''flickr.operator_write_pause'', au_request = operation, au_outcome = ''succeeded'',
     au_reason = reason, au_target = Some user, au_component = ''fga_deployment_operator''\<rparr>"

definition record_audit :: "string list \<Rightarrow> trial_db \<Rightarrow> trial_db option" where
  "record_audit ps db = (case ps of
     [operation, user, reason] \<Rightarrow> insert_audit (pause_audit operation user reason) db
   | _ \<Rightarrow> None)"

definition release_guard :: "string list \<Rightarrow> trial_db \<Rightarrow> trial_db option" where
  "release_guard ps db = (case ps of
     [operation] \<Rightarrow> Some (db\<lparr>db_guards := filter (\<lambda>i. i \<noteq> operation) (db_guards db)\<rparr>)
   | _ \<Rightarrow> None)"

definition operation_recorded :: "string \<Rightarrow> string \<Rightarrow> trial_db \<Rightarrow> bool" where
  "operation_recorded operation user db \<longleftrightarrow> (\<exists>a\<in>set (db_audits db). au_event a = operation \<and> au_request a = operation \<and>
     au_user a = Some user \<and> au_action a = ''flickr.operator_write_pause'' \<and>
     au_component a = ''fga_deployment_operator'' \<and> au_outcome a = ''succeeded'')"

definition pause_recorded :: "gate \<Rightarrow> trial_db \<Rightarrow> bool" where
  "pause_recorded g db \<longleftrightarrow> (\<exists>e\<in>set (db_events db). ev_scope e = gt_scope g \<and> ev_id e = gt_id g \<and>
     ev_revision e = gt_revision g \<and> ev_reason e = ''gate_paused'')"

definition inspection_row :: "string \<Rightarrow> string \<Rightarrow> trial_db \<Rightarrow> gate \<Rightarrow> pyval" where
  "inspection_row operation user db g = PDict [(''scope'', PStr (gt_scope g)), (''enabled'', PInt (gt_enabled g)),
     (''revision'', PStr (py_str_int (gt_revision g))),
     (''operation_recorded'', PInt (of_bool (operation_recorded operation user db))),
     (''pause_recorded'', PInt (of_bool (pause_recorded g db)))]"

text \<open>\<open>ORDER BY scope\<close>: the deployment row before the row of the user.\<close>

definition inspect :: "string list \<Rightarrow> trial_db \<Rightarrow> pyval list option" where
  "inspect ps db = (case ps of
     [operation, user] \<Rightarrow>
       let gs = filter (selected user) (db_gates db) in
       Some (map (inspection_row operation user db)
         (filter (\<lambda>g. gt_scope g = ''deployment'') gs @ filter (\<lambda>g. gt_scope g \<noteq> ''deployment'') gs))
   | _ \<Rightarrow> None)"


section \<open>The batch\<close>

text \<open>One statement: the new database and its rows; \<open>None\<close> where it fails.\<close>

definition execute :: "statement \<Rightarrow> trial_db \<Rightarrow> (trial_db \<times> pyval list) option" where
  "execute st db =
     (if st_sql st = GUARD_SQL then map_option (\<lambda>d. (d, [])) (insert_guard (st_params st) db)
      else if st_sql st = PAUSE_SQL then map_option (\<lambda>d. (d, [])) (pause_gates (st_params st) db)
      else if st_sql st = AUDIT_SQL then map_option (\<lambda>d. (d, [])) (record_audit (st_params st) db)
      else if st_sql st = RELEASE_SQL then map_option (\<lambda>d. (d, [])) (release_guard (st_params st) db)
      else if st_sql st = INSPECT_SQL then map_option (\<lambda>rows. (db, rows)) (inspect (st_params st) db)
      else None)"

fun execute_all :: "statement list \<Rightarrow> trial_db \<Rightarrow> (trial_db \<times> pyval list list) option" where
  "execute_all [] db = Some (db, [])"
| "execute_all (st # sts) db = (case execute st db of
     None \<Rightarrow> None
   | Some (d, rows) \<Rightarrow> map_option (\<lambda>(e, rest). (e, rows # rest)) (execute_all sts d))"

definition body_statements :: "body \<Rightarrow> statement list" where
  "body_statements b = (case b of Batch ss \<Rightarrow> ss | Single s \<Rightarrow> [s])"

text \<open>
  The provider: one transaction, rolled back as a whole when a statement fails, and the
  envelope of its answer, of the given size.
\<close>

definition result_row :: "pyval list \<Rightarrow> pyval" where
  "result_row rows = PDict [(''success'', PBool True), (''results'', PList rows)]"

definition provide :: "nat \<Rightarrow> body \<Rightarrow> trial_db \<Rightarrow> trial_db \<times> answer" where
  "provide bytes b db = (case execute_all (body_statements b) db of
     None \<Rightarrow> (db, Answer 400 bytes (Some (PDict [(''success'', PBool False)])))
   | Some (d, rows) \<Rightarrow> (d, Answer 200 bytes (Some (PDict [(''success'', PBool True), (''result'', PList (map result_row rows))]))))"


section \<open>Other writers\<close>

text \<open>
  What the rest of the system can do between two commands: gates are inserted, updated and
  removed under the checks and triggers of the migrations, gate events and audit events are
  inserted, guards come and go. Audit events are never changed, removed or replaced.
\<close>

inductive writer :: "trial_db \<Rightarrow> trial_db \<Rightarrow> bool" where
  update: "g \<in> set (db_gates db) \<Longrightarrow> gate_ok h \<Longrightarrow> gate_key h = gate_key g \<Longrightarrow>
    writer db (db\<lparr>db_gates := map (\<lambda>k. if k = g then h else k) (db_gates db),
      db_events := gate_transition g h (db_events db)\<rparr>)"
| insert: "gate_ok h \<Longrightarrow> gate_key h \<notin> gate_key ` set (db_gates db) \<Longrightarrow>
    writer db (db\<lparr>db_gates := db_gates db @ [h], db_events := db_events db @
      [\<lparr>ev_scope = gt_scope h, ev_id = gt_id h, ev_revision = gt_revision h,
        ev_reason = (if gt_enabled h = 1 then ''initially_enabled'' else ''initially_paused'')\<rparr>]\<rparr>)"
| remove: "writer db (db\<lparr>db_gates := filter (\<lambda>k. k \<noteq> g) (db_gates db)\<rparr>)"
| event: "writer db (db\<lparr>db_events := db_events db @ [e]\<rparr>)"
| audit: "insert_audit a db = Some d \<Longrightarrow> writer db d"
| guards: "writer db (db\<lparr>db_guards := gs\<rparr>)"
| users: "set (db_users db) \<subseteq> set us \<Longrightarrow> writer db (db\<lparr>db_users := us\<rparr>)"
| command: "execute_all sts db = Some (d, rows) \<Longrightarrow> writer db d"

end
