(* ===== verification/Trial_Properties.thy ===== *)
theory Trial_Properties
  imports Trial_Database
begin

text \<open>
  The properties of the controlled trial pause on the database of the migrations: what the
  batch does and when it does it, what a confirmation means, and that a plan takes effect
  once.
\<close>

section \<open>Plans\<close>

definition plan_ok :: "plan \<Rightarrow> bool" where
  "plan_ok p \<longleftrightarrow> revision_ok (expectedDeploymentRevision p) \<and> revision_ok (expectedUserRevision p) \<and>
     expectedDeploymentEnabled p \<in> {0, 1} \<and> expectedUserEnabled p \<in> {0, 1}"

lemma text_field_Inr: "text_field ok code v = Inr s \<longleftrightarrow> v = PStr s \<and> ok s"
  by (auto simp: text_field_def split: pyval.splits)

lemma int_field_Inr: "int_field ok code v = Inr n \<longleftrightarrow> v = PInt n \<and> ok n"
  by (auto simp: int_field_def split: pyval.splits)

lemma validate_ok: "validate v = Inr p \<Longrightarrow> plan_ok p"
  by (auto simp: validate_def plan_ok_def bind_res_Inr text_field_Inr int_field_Inr split: pyval.splits)

lemma plan_numbers:
  "plan_ok p \<Longrightarrow> decimal_value (py_str_int (expectedDeploymentRevision p)) = expectedDeploymentRevision p"
  "plan_ok p \<Longrightarrow> decimal_value (py_str_int (expectedUserRevision p)) = expectedUserRevision p"
  "plan_ok p \<Longrightarrow> decimal_value (py_str_int (expectedDeploymentEnabled p)) = expectedDeploymentEnabled p"
  "plan_ok p \<Longrightarrow> decimal_value (py_str_int (expectedUserEnabled p)) = expectedUserEnabled p"
  by (auto simp: plan_ok_def revision_ok_def decimal_py_str_int)


section \<open>Statements\<close>

lemma sql_distinct:
  "PAUSE_SQL \<noteq> GUARD_SQL" "AUDIT_SQL \<noteq> GUARD_SQL" "AUDIT_SQL \<noteq> PAUSE_SQL" "RELEASE_SQL \<noteq> GUARD_SQL"
  "RELEASE_SQL \<noteq> PAUSE_SQL" "RELEASE_SQL \<noteq> AUDIT_SQL" "INSPECT_SQL \<noteq> GUARD_SQL" "INSPECT_SQL \<noteq> PAUSE_SQL"
  "INSPECT_SQL \<noteq> AUDIT_SQL" "INSPECT_SQL \<noteq> RELEASE_SQL"
  by (simp_all add: GUARD_SQL_def PAUSE_SQL_def AUDIT_SQL_def RELEASE_SQL_def INSPECT_SQL_def lines_text_def)

lemma execute_simps [simp]:
  "execute \<lparr>st_sql = GUARD_SQL, st_params = ps\<rparr> db = map_option (\<lambda>d. (d, [])) (insert_guard ps db)"
  "execute \<lparr>st_sql = PAUSE_SQL, st_params = ps\<rparr> db = map_option (\<lambda>d. (d, [])) (pause_gates ps db)"
  "execute \<lparr>st_sql = AUDIT_SQL, st_params = ps\<rparr> db = map_option (\<lambda>d. (d, [])) (record_audit ps db)"
  "execute \<lparr>st_sql = RELEASE_SQL, st_params = ps\<rparr> db = map_option (\<lambda>d. (d, [])) (release_guard ps db)"
  "execute \<lparr>st_sql = INSPECT_SQL, st_params = ps\<rparr> db = map_option (\<lambda>rows. (db, rows)) (inspect ps db)"
  by (simp_all add: execute_def sql_distinct)

definition pause_of :: "string \<Rightarrow> gate \<Rightarrow> gate" where
  "pause_of user g = (if gt_enabled g = 1 \<and> selected user g then paused_gate g else g)"

definition eventful :: "gate \<Rightarrow> gate_event \<Rightarrow> bool" where
  "eventful g e \<longleftrightarrow> ev_scope e = gt_scope g \<and> ev_id e = gt_id g \<and> ev_revision e = gt_revision g"

lemma paused_gate_simps [simp]:
  "gt_scope (paused_gate g) = gt_scope g" "gt_id (paused_gate g) = gt_id g" "gt_enabled (paused_gate g) = 0"
  "gt_revision (paused_gate g) = gt_revision g + 1" "gate_key (paused_gate g) = gate_key g"
  by (simp_all add: paused_gate_def gate_key_def)

lemma pause_transition:
  "gate_transition g (paused_gate g) evs =
     (if \<exists>e\<in>set evs. eventful (paused_gate g) e then evs
      else evs @ [\<lparr>ev_scope = gt_scope g, ev_id = gt_id g, ev_revision = gt_revision g + 1, ev_reason = ''gate_paused''\<rparr>])"
  by (auto simp: gate_transition_def eventful_def)

lemma pause_rows_some:
  assumes "list_all (\<lambda>g. gt_enabled g = 1 \<and> selected user g \<longrightarrow> gate_ok (paused_gate g)) gs"
  shows "\<exists>es. pause_rows user gs evs = Some (map (pause_of user) gs, es)"
  using assms by (induction gs arbitrary: evs) (auto simp: pause_of_def)

text \<open>The events after the update: none is lost, and each changed gate has its own.\<close>

lemma pause_rows_keep: "pause_rows user gs evs = Some (hs, es) \<Longrightarrow> set evs \<subseteq> set es"
proof (induction gs arbitrary: evs hs)
  case (Cons k gs)
  have "set evs \<subseteq> set (gate_transition k (paused_gate k) evs)" by (auto simp: pause_transition)
  with Cons show ?case by (fastforce split: if_splits)
qed simp

lemma pause_rows_events:
  "pause_rows user gs evs = Some (hs, es) \<Longrightarrow> distinct (map gate_key gs) \<Longrightarrow>
     g \<in> set gs \<Longrightarrow> gt_enabled g = 1 \<Longrightarrow> selected user g \<Longrightarrow> \<not> (\<exists>e\<in>set evs. eventful (paused_gate g) e) \<Longrightarrow>
      \<exists>e\<in>set es. eventful (paused_gate g) e \<and> ev_reason e = ''gate_paused''"
proof (induction gs arbitrary: evs hs)
  case (Cons k gs)
  let ?t = "gate_transition k (paused_gate k) evs"
  show ?case
  proof (cases "gt_enabled k = 1 \<and> selected user k")
    case False
    with Cons.prems obtain hs' where rest: "pause_rows user gs evs = Some (hs', es)" by auto
    from False Cons.prems have "g \<in> set gs" by auto
    with Cons.IH [OF rest] Cons.prems show ?thesis by auto
  next
    case True
    with Cons.prems(1) obtain hs' where rest: "pause_rows user gs ?t = Some (hs', es)"
      by (auto split: if_splits)
    show ?thesis
    proof (cases "g = k")
      case here: True
      with Cons.prems have "\<exists>e\<in>set ?t. eventful (paused_gate g) e \<and> ev_reason e = ''gate_paused''"
        by (auto simp: pause_transition eventful_def)
      with pause_rows_keep [OF rest] show ?thesis by auto
    next
      case False
      with Cons.prems have g: "g \<in> set gs" by simp
      with Cons.prems have "gate_key k \<noteq> gate_key g" by auto
      then have "\<not> (\<exists>e\<in>set ?t. eventful (paused_gate g) e)"
        using Cons.prems by (auto simp: pause_transition eventful_def gate_key_def)
      with Cons.IH [OF rest _ g] Cons.prems show ?thesis by auto
    qed
  qed
qed simp

text \<open>The events of the gates an update pauses, where none stands at their next revision.\<close>

definition pause_event :: "gate \<Rightarrow> gate_event" where
  "pause_event g = \<lparr>ev_scope = gt_scope g, ev_id = gt_id g, ev_revision = gt_revision g + 1, ev_reason = ''gate_paused''\<rparr>"

definition pause_events :: "string \<Rightarrow> gate list \<Rightarrow> gate_event list \<Rightarrow> gate_event list" where
  "pause_events user gs evs = map pause_event
     (filter (\<lambda>g. gt_enabled g = 1 \<and> selected user g \<and> \<not> (\<exists>e\<in>set evs. eventful (paused_gate g) e)) gs)"

lemma pause_events_other:
  "gate_key k \<notin> gate_key ` set gs \<Longrightarrow> pause_events user gs (evs @ [pause_event k]) = pause_events user gs evs"
  unfolding pause_events_def
  by (rule arg_cong [of _ _ "map pause_event"], rule filter_cong)
     (auto simp: eventful_def pause_event_def gate_key_def)

lemma pause_rows_exact:
  "pause_rows user gs evs = Some (hs, es) \<Longrightarrow> distinct (map gate_key gs) \<Longrightarrow> es = evs @ pause_events user gs evs"
proof (induction gs arbitrary: evs hs)
  case Nil
  then show ?case by (simp add: pause_events_def)
next
  case (Cons k gs)
  let ?t = "gate_transition k (paused_gate k) evs"
  show ?case
  proof (cases "gt_enabled k = 1 \<and> selected user k")
    case False
    with Cons show ?thesis by (auto simp: pause_events_def)
  next
    case True
    with Cons.prems(1) obtain hs' where rest: "pause_rows user gs ?t = Some (hs', es)"
      by (auto split: if_splits)
    have "es = ?t @ pause_events user gs ?t" using Cons.IH [OF rest] Cons.prems(2) by simp
    moreover have "pause_events user gs (evs @ [pause_event k]) = pause_events user gs evs"
      by (rule pause_events_other) (use Cons.prems(2) in simp)
    ultimately show ?thesis
      using True by (cases "\<exists>e\<in>set evs. eventful (paused_gate k) e")
        (simp_all add: pause_transition pause_events_def pause_event_def)
  qed
qed


section \<open>The batch\<close>

definition guard_holds :: "plan \<Rightarrow> trial_db \<Rightarrow> bool" where
  "guard_holds p db \<longleftrightarrow>
     has_gate db ''deployment'' ''*'' (expectedDeploymentRevision p) (expectedDeploymentEnabled p) \<and>
     has_gate db ''user'' (fgaUserId p) (expectedUserRevision p) (expectedUserEnabled p)"

text \<open>The batch goes through exactly when the two gates are as expected and the operation is new.\<close>

definition batch_ready :: "plan \<Rightarrow> trial_db \<Rightarrow> bool" where
  "batch_ready p db \<longleftrightarrow> guard_holds p db \<and> operationId p \<notin> set (db_guards db) \<and>
     operationId p \<notin> au_event ` set (db_audits db) \<and> fgaUserId p \<in> set (db_users db)"

text \<open>No event is recorded yet at the revision a changed gate will have.\<close>

definition no_later_event :: "plan \<Rightarrow> trial_db \<Rightarrow> bool" where
  "no_later_event p db \<longleftrightarrow> (\<forall>g\<in>set (db_gates db). gt_enabled g = 1 \<longrightarrow> selected (fgaUserId p) g \<longrightarrow>
     \<not> (\<exists>e\<in>set (db_events db). eventful (paused_gate g) e))"

lemma gates_unique:
  assumes "gates_ok gs" and "g \<in> set gs" and "h \<in> set gs" and "gate_key g = gate_key h"
  shows "g = h"
  using assms by (auto simp: gates_ok_def distinct_map inj_on_def)

lemma selected_gate:
  assumes "gates_ok (db_gates db)" and "guard_holds p db" and "g \<in> set (db_gates db)" and "selected (fgaUserId p) g"
  shows "gt_revision g = (if gt_scope g = ''deployment'' then expectedDeploymentRevision p else expectedUserRevision p)"
    and "gt_enabled g = changed_of p (gt_scope g)"
proof -
  from assms(2) obtain d u where d: "d \<in> set (db_gates db)" "gate_key d = (''deployment'', ''*'')"
      "gt_revision d = expectedDeploymentRevision p" "gt_enabled d = expectedDeploymentEnabled p"
    and u: "u \<in> set (db_gates db)" "gate_key u = (''user'', fgaUserId p)"
      "gt_revision u = expectedUserRevision p" "gt_enabled u = expectedUserEnabled p"
    by (auto simp: guard_holds_def has_gate_def gate_key_def)
  from assms(4) have "gate_key g = gate_key d \<and> gt_scope g = ''deployment'' \<or> gate_key g = gate_key u \<and> gt_scope g = ''user''"
    using d(2) u(2) by (auto simp: selected_def gate_key_def)
  then have "g = d \<and> gt_scope g = ''deployment'' \<or> g = u \<and> gt_scope g = ''user''"
    using gates_unique [OF assms(1,3)] d(1) u(1) by blast
  then show "gt_revision g = (if gt_scope g = ''deployment'' then expectedDeploymentRevision p else expectedUserRevision p)"
    and "gt_enabled g = changed_of p (gt_scope g)"
    using d u by (auto simp: changed_of_def)
qed

lemma selected_paused_ok:
  assumes "gates_ok (db_gates db)" and "guard_holds p db" and "plan_ok p"
  shows "list_all (\<lambda>g. gt_enabled g = 1 \<and> selected (fgaUserId p) g \<longrightarrow> gate_ok (paused_gate g)) (db_gates db)"
  using assms(1,3) selected_gate(1) [OF assms(1,2)]
  by (auto simp: list_all_iff gates_ok_def gate_ok_def plan_ok_def revision_ok_def)

lemma insert_guard_plan:
  assumes "plan_ok p"
  shows "insert_guard (st_params (hd (statements p))) db =
    (if guard_holds p db \<and> operationId p \<notin> set (db_guards db)
     then Some (db\<lparr>db_guards := db_guards db @ [operationId p]\<rparr>) else None)"
  by (simp add: insert_guard_def statements_def guard_holds_def plan_numbers [OF assms])

text \<open>The database after a batch that goes through.\<close>

lemma batch_runs:
  assumes ok: "plan_ok p" and gates: "gates_ok (db_gates db)" and ready: "batch_ready p db"
  obtains es rows where "pause_rows (fgaUserId p) (db_gates db) (db_events db) = Some (map (pause_of (fgaUserId p)) (db_gates db), es)"
    and "execute_all (statements p) db = Some
      (db\<lparr>db_gates := map (pause_of (fgaUserId p)) (db_gates db), db_events := es,
          db_audits := db_audits db @ [pause_audit (operationId p) (fgaUserId p) (reason_text p)]\<rparr>,
       [[], [], [], [], rows])"
    and "inspect [operationId p, fgaUserId p] (db\<lparr>db_gates := map (pause_of (fgaUserId p)) (db_gates db), db_events := es,
          db_audits := db_audits db @ [pause_audit (operationId p) (fgaUserId p) (reason_text p)]\<rparr>) = Some rows"
proof -
  from ready have g: "guard_holds p db" by (simp add: batch_ready_def)
  obtain es where es: "pause_rows (fgaUserId p) (db_gates db) (db_events db) =
      Some (map (pause_of (fgaUserId p)) (db_gates db), es)"
    using pause_rows_some [OF selected_paused_ok [OF gates g ok]] by blast
  define d where "d = db\<lparr>db_gates := map (pause_of (fgaUserId p)) (db_gates db), db_events := es,
          db_audits := db_audits db @ [pause_audit (operationId p) (fgaUserId p) (reason_text p)]\<rparr>"
  obtain rows where rows: "inspect [operationId p, fgaUserId p] d = Some rows"
    by (simp add: inspect_def Let_def)
  have free: "filter (\<lambda>i. i \<noteq> operationId p) (db_guards db) = db_guards db"
    using ready by (auto simp: batch_ready_def filter_id_conv)
  have "execute_all (statements p) db = Some (d, [[], [], [], [], rows])"
    using ready insert_guard_plan [OF ok, of db] es rows free
    by (simp add: statements_def batch_ready_def pause_gates_def record_audit_def insert_audit_def pause_audit_def
        release_guard_def inspection_statement_def d_def)
  then show ?thesis using es rows that by (simp add: d_def)
qed

lemma batch_refused:
  assumes ok: "plan_ok p" and "\<not> batch_ready p db"
  shows "execute_all (statements p) db = None"
proof (cases "guard_holds p db \<and> operationId p \<notin> set (db_guards db)")
  case False
  with insert_guard_plan [OF ok, of db] show ?thesis by (auto simp: statements_def)
next
  case True
  with assms(2) have "fgaUserId p \<notin> set (db_users db) \<or> operationId p \<in> au_event ` set (db_audits db)"
    by (auto simp: batch_ready_def)
  then have "record_audit [operationId p, fgaUserId p, r] d = None"
    if "db_users d = db_users db" "db_audits d = db_audits db" for r d
    using that by (auto simp: record_audit_def insert_audit_def pause_audit_def)
  then show ?thesis
    using insert_guard_plan [OF ok, of db]
    by (auto simp: statements_def pause_gates_def split: option.splits)
qed


section \<open>The receipt of an inspection\<close>

definition gates_at :: "trial_db \<Rightarrow> string \<times> string \<Rightarrow> gate list" where
  "gates_at db key = filter (\<lambda>g. gate_key g = key) (db_gates db)"

lemma filter_key_unique:
  "distinct (map k xs) \<Longrightarrow> x \<in> set xs \<Longrightarrow> filter (\<lambda>y. k y = k x) xs = [x]"
proof (induction xs)
  case (Cons a xs)
  show ?case
  proof (cases "x = a")
    case True
    with Cons.prems have "filter (\<lambda>y. k y = k x) xs = []" by (auto simp: filter_empty_conv image_iff)
    with True show ?thesis by simp
  next
    case False
    with Cons show ?thesis by (auto simp: image_iff)
  qed
qed simp

lemma gates_at_in:
  "gates_ok (db_gates db) \<Longrightarrow> g \<in> set (db_gates db) \<Longrightarrow> gates_at db (gate_key g) = [g]"
  by (simp add: gates_at_def filter_key_unique gates_ok_def)

lemma gates_at_cases:
  assumes "gates_ok (db_gates db)"
  obtains "gates_at db key = []" | g where "gates_at db key = [g]" "g \<in> set (db_gates db)" "gate_key g = key"
proof (cases "\<exists>g\<in>set (db_gates db). gate_key g = key")
  case True
  then obtain g where "g \<in> set (db_gates db)" "gate_key g = key" by blast
  with gates_at_in [OF assms, of g] that(2) show ?thesis by auto
next
  case False
  then have "gates_at db key = []" by (auto simp: gates_at_def filter_empty_conv)
  with that(1) show ?thesis .
qed

lemma inspect_rows:
  "inspect [operation, user] db =
     Some (map (inspection_row operation user db) (gates_at db (''deployment'', ''*'') @ gates_at db (''user'', user)))"
proof -
  have "filter (\<lambda>g. gt_scope g = ''deployment'') (filter (selected user) (db_gates db)) = gates_at db (''deployment'', ''*'')"
    by (auto simp: gates_at_def gate_key_def selected_def intro: filter_cong)
  moreover have "filter (\<lambda>g. gt_scope g \<noteq> ''deployment'') (filter (selected user) (db_gates db)) = gates_at db (''user'', user)"
    by (auto simp: gates_at_def gate_key_def selected_def intro!: filter_cong)
  ultimately show ?thesis by (simp add: inspect_def Let_def)
qed

lemma confirmed_not_inspect [simp]: "inspect_required \<noteq> confirmed p" "confirmed p \<noteq> inspect_required"
  by (simp_all add: inspect_required_def confirmed_def)

text \<open>What one row must say.\<close>

definition row_confirms :: "plan \<Rightarrow> trial_db \<Rightarrow> gate \<Rightarrow> bool" where
  "row_confirms p db g \<longleftrightarrow> gt_enabled g = 0 \<and> py_str_int (gt_revision g) = py_str_int (expected_of p (gt_scope g)) \<and>
     operation_recorded (operationId p) (fgaUserId p) db \<and>
     (changed_of p (gt_scope g) \<noteq> 0 \<longrightarrow> pause_recorded g db)"

lemma receipt_step:
  assumes "gt_scope g \<in> {''deployment'', ''user''}" and "gt_scope g \<notin> set seen"
  shows "receipt_rows p seen (inspection_row (operationId p) (fgaUserId p) db g # rows) =
    (if row_confirms p db g then receipt_rows p (gt_scope g # seen) rows else Inr inspect_required)"
  using assms by (auto simp: inspection_row_def dict_get_def hashable_def row_confirms_def)

lemma receipt_inspection:
  assumes "gates_ok (db_gates db)" and "inspect [operationId p, fgaUserId p] db = Some rows"
  shows "receipt p (PList rows) = Inr (confirmed p) \<longleftrightarrow> (\<exists>d u. d \<in> set (db_gates db) \<and> u \<in> set (db_gates db) \<and>
    gate_key d = (''deployment'', ''*'') \<and> gate_key u = (''user'', fgaUserId p) \<and> row_confirms p db d \<and> row_confirms p db u)"
    (is "_ \<longleftrightarrow> ?R")
proof -
  have rows: "rows = map (inspection_row (operationId p) (fgaUserId p) db)
      (gates_at db (''deployment'', ''*'') @ gates_at db (''user'', fgaUserId p))"
    using assms(2) by (simp add: inspect_rows)
  have none: "\<not> ?R" if "gates_at db (''deployment'', ''*'') = [] \<or> gates_at db (''user'', fgaUserId p) = []"
    using that by (auto simp: gates_at_def filter_empty_conv)
  show ?thesis
  proof (cases rule: gates_at_cases [OF assms(1), of "(''deployment'', ''*'')"])
    case 1
    with none show ?thesis
      by (cases rule: gates_at_cases [OF assms(1), of "(''user'', fgaUserId p)"]) (auto simp: rows receipt_def)
  next
    case (2 d)
    note d = this
    show ?thesis
    proof (cases rule: gates_at_cases [OF assms(1), of "(''user'', fgaUserId p)"])
      case 1
      with none d show ?thesis by (auto simp: rows receipt_def)
    next
      case (2 u)
      have "receipt p (PList rows) = Inr (confirmed p) \<longleftrightarrow> row_confirms p db d \<and> row_confirms p db u"
        using d 2 by (simp add: rows receipt_def receipt_step gate_key_def del: receipt_rows.simps(2))
      moreover have "g = d" if "g \<in> set (db_gates db)" "gate_key g = (''deployment'', ''*'')" for g
        using that d gates_unique [OF assms(1)] by metis
      moreover have "g = u" if "g \<in> set (db_gates db)" "gate_key g = (''user'', fgaUserId p)" for g
        using that 2 gates_unique [OF assms(1)] by metis
      ultimately show ?thesis using d(2,3) 2(2,3) by blast
    qed
  qed
qed

text \<open>The same, read as facts about the database.\<close>

definition paused_at :: "plan \<Rightarrow> trial_db \<Rightarrow> bool" where
  "paused_at p db \<longleftrightarrow> has_gate db ''deployment'' ''*'' (expected_of p ''deployment'') 0 \<and>
     has_gate db ''user'' (fgaUserId p) (expected_of p ''user'') 0 \<and>
     operation_recorded (operationId p) (fgaUserId p) db"

lemma row_confirms_revision:
  assumes "plan_ok p" and "gate_ok g" and "row_confirms p db g"
  shows "gt_revision g = expected_of p (gt_scope g)"
proof -
  have "0 \<le> gt_revision g" "0 \<le> expected_of p (gt_scope g)"
    using assms(1,2) by (auto simp: gate_ok_def expected_of_def plan_ok_def revision_ok_def)
  with assms(3) show ?thesis unfolding row_confirms_def by (metis decimal_py_str_int)
qed

lemma receipt_paused:
  assumes "plan_ok p" and "gates_ok (db_gates db)" and "inspect [operationId p, fgaUserId p] db = Some rows"
    and "receipt p (PList rows) = Inr (confirmed p)"
  shows "paused_at p db"
proof -
  obtain d u where d: "d \<in> set (db_gates db)" "gate_key d = (''deployment'', ''*'')" "row_confirms p db d"
    and u: "u \<in> set (db_gates db)" "gate_key u = (''user'', fgaUserId p)" "row_confirms p db u"
    using assms(4) receipt_inspection [OF assms(2,3)] by blast
  have "gate_ok d" "gate_ok u" using d u assms(2) by (auto simp: gates_ok_def list_all_iff)
  with d u have "gt_revision d = expected_of p ''deployment''" "gt_revision u = expected_of p ''user''"
    using row_confirms_revision [OF assms(1)] by (fastforce simp: gate_key_def)+
  with d u show ?thesis
    unfolding paused_at_def has_gate_def by (auto simp: gate_key_def row_confirms_def)
qed

lemma pause_of_key [simp]: "gate_key (pause_of user g) = gate_key g"
  by (simp add: pause_of_def)

lemma pause_gates_ok:
  assumes "gates_ok (db_gates db)" and "guard_holds p db" and "plan_ok p"
  shows "gates_ok (map (pause_of (fgaUserId p)) (db_gates db))"
proof -
  have "map gate_key (map (pause_of (fgaUserId p)) (db_gates db)) = map gate_key (db_gates db)"
    by (simp add: comp_def)
  moreover have "list_all gate_ok (map (pause_of (fgaUserId p)) (db_gates db))"
    using assms(1) selected_paused_ok [OF assms] by (auto simp: gates_ok_def list_all_iff pause_of_def)
  ultimately show ?thesis using assms(1) by (simp add: gates_ok_def del: map_map list.map_comp)
qed

lemma batch_confirms:
  assumes ok: "plan_ok p" and gates: "gates_ok (db_gates db)" and ready: "batch_ready p db"
    and es: "pause_rows (fgaUserId p) (db_gates db) (db_events db) = Some (map (pause_of (fgaUserId p)) (db_gates db), es)"
    and d: "d = db\<lparr>db_gates := map (pause_of (fgaUserId p)) (db_gates db), db_events := es,
          db_audits := db_audits db @ [pause_audit (operationId p) (fgaUserId p) (reason_text p)]\<rparr>"
    and rows: "inspect [operationId p, fgaUserId p] d = Some rows" and fresh: "no_later_event p db"
  shows "receipt p (PList rows) = Inr (confirmed p)"
proof -
  from ready have g: "guard_holds p db" by (simp add: batch_ready_def)
  have gates': "gates_ok (db_gates d)" using pause_gates_ok [OF gates g ok] by (simp add: d)
  have op: "operation_recorded (operationId p) (fgaUserId p) d"
    by (simp add: operation_recorded_def d pause_audit_def)
  have confirms: "row_confirms p d (pause_of (fgaUserId p) k)"
    if k: "k \<in> set (db_gates db)" "selected (fgaUserId p) k" for k
  proof -
    note sel = selected_gate [OF gates g k]
    have "gt_enabled k \<in> {0, 1}" using gates k(1) by (auto simp: gates_ok_def list_all_iff gate_ok_def)
    moreover have "pause_recorded (paused_gate k) d" if "gt_enabled k = 1"
      using pause_rows_events [OF es _ k(1) that k(2)] gates fresh k that
      by (auto simp: gates_ok_def no_later_event_def pause_recorded_def eventful_def d)
    moreover have "gt_revision k + gt_enabled k = expected_of p (gt_scope k)"
      using sel k(2) by (auto simp: expected_of_def changed_of_def selected_def)
    ultimately show ?thesis using sel(2) op by (auto simp: row_confirms_def pause_of_def k(2))
  qed
  from g obtain a b where a: "a \<in> set (db_gates db)" "gate_key a = (''deployment'', ''*'')"
    and b: "b \<in> set (db_gates db)" "gate_key b = (''user'', fgaUserId p)"
    by (auto simp: guard_holds_def has_gate_def gate_key_def)
  have "pause_of (fgaUserId p) a \<in> set (db_gates d)" "pause_of (fgaUserId p) b \<in> set (db_gates d)"
    using a b by (auto simp: d)
  moreover have "selected (fgaUserId p) a" "selected (fgaUserId p) b"
    using a b by (auto simp: selected_def gate_key_def)
  ultimately show ?thesis
    using receipt_inspection [OF gates' rows] confirms [OF a(1)] confirms [OF b(1)] a(2) b(2) by auto
qed


section \<open>The command against the provider\<close>

lemma batch_paused:
  assumes ok: "plan_ok p" and gates: "gates_ok (db_gates db)" and run: "execute_all (statements p) db = Some (d, rows)"
  shows "paused_at p d" and "gates_ok (db_gates d)"
    and "inspect [operationId p, fgaUserId p] d = Some (last rows) \<and> length rows = 5"
proof -
  have ready: "batch_ready p db" using batch_refused [OF ok] run by force
  then have g: "guard_holds p db" by (simp add: batch_ready_def)
  obtain es out where d: "d = db\<lparr>db_gates := map (pause_of (fgaUserId p)) (db_gates db), db_events := es,
          db_audits := db_audits db @ [pause_audit (operationId p) (fgaUserId p) (reason_text p)]\<rparr>"
    and rows: "rows = [[], [], [], [], out]" and out: "inspect [operationId p, fgaUserId p] d = Some out"
    using batch_runs [OF ok gates ready] run by (metis option.inject prod.inject)
  show "gates_ok (db_gates d)" using pause_gates_ok [OF gates g ok] by (simp add: d)
  show "inspect [operationId p, fgaUserId p] d = Some (last rows) \<and> length rows = 5" by (simp add: rows out)
  have after: "gt_enabled (pause_of (fgaUserId p) k) = 0 \<and> gt_revision (pause_of (fgaUserId p) k) = expected_of p (gt_scope k)"
    if k: "k \<in> set (db_gates db)" "selected (fgaUserId p) k" for k
  proof -
    have "gt_enabled k \<in> {0, 1}" using gates k(1) by (auto simp: gates_ok_def list_all_iff gate_ok_def)
    then show ?thesis
      using selected_gate [OF gates g k] k(2) by (auto simp: expected_of_def changed_of_def selected_def pause_of_def)
  qed
  have at: "has_gate d scope i (expected_of p scope) 0"
    if "k \<in> set (db_gates db)" "gt_scope k = scope" "gt_id k = i" "selected (fgaUserId p) k" for k scope i
    unfolding has_gate_def
  proof (rule bexI [of _ "pause_of (fgaUserId p) k"])
    show "pause_of (fgaUserId p) k \<in> set (db_gates d)" using that by (simp add: d)
    show "gt_scope (pause_of (fgaUserId p) k) = scope \<and> gt_id (pause_of (fgaUserId p) k) = i \<and>
        gt_revision (pause_of (fgaUserId p) k) = expected_of p scope \<and> gt_enabled (pause_of (fgaUserId p) k) = 0"
      using that after [of k] pause_of_key [of "fgaUserId p" k] by (simp add: gate_key_def)
  qed
  from g at [of _ "''deployment''" "''*''"] at [of _ "''user''" "fgaUserId p"] show "paused_at p d"
    by (auto simp: paused_at_def guard_holds_def has_gate_def [of db] selected_def operation_recorded_def d pause_audit_def)
qed

lemma request_provide:
  assumes "n \<le> 65536" and "execute_all (body_statements b) db = Some (d, rows)" and "length rows = body_length b" and "rows \<noteq> []"
  shows "request b (snd (provide n b db)) = Inr (PList (last rows))"
  using assms by (simp add: request_def provide_def succeeded_def dict_get_def result_row_def last_map list_all_iff)

lemma request_refused:
  "execute_all (body_statements b) db = None \<Longrightarrow> request b (snd (provide n b db)) = unconfirmed \<and> fst (provide n b db) = db"
  by (simp add: request_def provide_def)

lemma receipt_results: "receipt p rows = Inr r \<Longrightarrow> r = confirmed p \<or> r = inspect_required"
proof -
  have "receipt_rows p seen xs = Inr r \<Longrightarrow> r = confirmed p \<or> r = inspect_required" for seen xs
    by (induction p seen xs rule: receipt_rows.induct) (auto split: pyval.splits if_splits)
  then show "receipt p rows = Inr r \<Longrightarrow> r = confirmed p \<or> r = inspect_required"
    by (auto simp: receipt_def split: pyval.splits if_splits)
qed

text \<open>Exit code 0 of an online command: the receipt of what the provider answered is confirmed.\<close>

lemma main_confirmed:
  assumes "main m (Some v) token transport = (r, 0)" and "m \<noteq> Offline" and "validate v = Inr p"
  obtains rows where "r = confirmed p"
    and "request (if m = Inspect then Single (inspection_statement p) else Batch (statements p))
      (transport (if m = Inspect then Single (inspection_statement p) else Batch (statements p))) = Inr rows"
    and "receipt p rows = Inr (confirmed p)"
proof -
  from assms obtain t rows result where
    "request (if m = Inspect then Single (inspection_statement p) else Batch (statements p))
      (transport (if m = Inspect then Single (inspection_statement p) else Batch (statements p))) = Inr rows"
    and "receipt p rows = Inr result" and "r = result" and "result = confirmed p"
    by (auto simp: main_def operator_def bind_res_Inr Let_def split: sum.splits option.splits if_splits)
  then show ?thesis using that by simp
qed

text \<open>An apply whose batch goes through and confirms itself ends with exit code 0.\<close>

lemma apply_confirms:
  assumes "validate v = Inr p" and "gates_ok (db_gates db)" and "n \<le> 65536" and "token_match t"
    and "execute_all (statements p) db = Some (d, rows)" and "receipt p (PList (last rows)) = Inr (confirmed p)"
  shows "main Apply (Some v) (Some (Some t)) (\<lambda>b. snd (provide n b db)) = (confirmed p, 0)"
proof -
  have "length rows = 5" using batch_paused(3) [OF validate_ok [OF assms(1)] assms(2,5)] by simp
  then have "request (Batch (statements p)) (snd (provide n (Batch (statements p)) db)) = Inr (PList (last rows))"
    using assms(3,5)
    by (intro request_provide) (auto simp: body_statements_def body_length_def statements_def)
  with assms(1,4,6) show ?thesis
    by (simp add: main_def operator_def require_def Let_def)
qed

lemma inspection_runs:
  "execute_all (body_statements (Single (inspection_statement p))) db =
     map_option (\<lambda>rows. (db, [rows])) (inspect [operationId p, fgaUserId p] db)"
  by (cases "inspect [operationId p, fgaUserId p] db") (simp_all add: body_statements_def inspection_statement_def)

lemma audits_grow:
  "execute st db = Some (d, rows) \<Longrightarrow> set (db_audits db) \<subseteq> set (db_audits d)"
  by (auto simp: execute_def insert_guard_def pause_gates_def record_audit_def insert_audit_def release_guard_def
      split: if_splits list.splits option.splits)

lemma audits_grow_all:
  "execute_all sts db = Some (d, rows) \<Longrightarrow> set (db_audits db) \<subseteq> set (db_audits d)"
  by (induction sts arbitrary: db d rows) (fastforce split: option.splits dest!: audits_grow)+

lemma writer_audits: "writer db d \<Longrightarrow> set (db_audits db) \<subseteq> set (db_audits d)"
  by (induction rule: writer.induct) (auto simp: insert_audit_def dest: audits_grow_all split: if_splits)

lemma writers_audits: "writer\<^sup>*\<^sup>* db d \<Longrightarrow> set (db_audits db) \<subseteq> set (db_audits d)"
  by (induction rule: rtranclp_induct) (auto dest: writer_audits)


section \<open>Properties\<close>

text \<open>
  C7: the batch of a validated plan goes through exactly when both gates stand as expected,
  the user exists and the operation is new; then the enabled ones of the two gates are paused
  at the next revision, each with its event unless one already stands at that revision, one
  audit event is added, and nothing else changes: no other gate, no user, and no guard is
  left behind. Unless an event already stood at a revision a gate moves to, the batch's own
  inspection rows confirm the pause. Otherwise the provider's database is unchanged.
\<close>

theorem pause_batch_effect:
  assumes "validate v = Inr p" and "gates_ok (db_gates db)"
  shows "if batch_ready p db then \<exists>d rows. execute_all (statements p) db = Some (d, rows) \<and> paused_at p d \<and>
      d = \<lparr>db_users = db_users db, db_gates = map (pause_of (fgaUserId p)) (db_gates db),
        db_events = db_events db @ pause_events (fgaUserId p) (db_gates db) (db_events db),
        db_audits = db_audits db @ [pause_audit (operationId p) (fgaUserId p) (reason_text p)], db_guards = db_guards db\<rparr> \<and>
      (no_later_event p db \<longrightarrow> receipt p (PList (last rows)) = Inr (confirmed p))
    else fst (provide n (Batch (statements p)) db) = db"
proof (cases "batch_ready p db")
  case True
  note ok = validate_ok [OF assms(1)]
  obtain es rows where es: "pause_rows (fgaUserId p) (db_gates db) (db_events db) =
      Some (map (pause_of (fgaUserId p)) (db_gates db), es)"
    and run: "execute_all (statements p) db = Some
      (db\<lparr>db_gates := map (pause_of (fgaUserId p)) (db_gates db), db_events := es,
          db_audits := db_audits db @ [pause_audit (operationId p) (fgaUserId p) (reason_text p)]\<rparr>,
       [[], [], [], [], rows])"
    and rows: "inspect [operationId p, fgaUserId p] (db\<lparr>db_gates := map (pause_of (fgaUserId p)) (db_gates db), db_events := es,
          db_audits := db_audits db @ [pause_audit (operationId p) (fgaUserId p) (reason_text p)]\<rparr>) = Some rows"
    by (rule batch_runs [OF ok assms(2) True])
  have "es = db_events db @ pause_events (fgaUserId p) (db_gates db) (db_events db)"
    by (rule pause_rows_exact [OF es]) (use assms(2) in \<open>simp add: gates_ok_def\<close>)
  with batch_confirms [OF ok assms(2) True es refl rows] batch_paused(1) [OF ok assms(2) run] run True
  show ?thesis by simp
next
  case False
  with batch_refused [OF validate_ok [OF assms(1)] False] show ?thesis
    by (simp add: provide_def body_statements_def)
qed

text \<open>
  C13: a confirmation means that production is paused: when an online command, an apply or an
  inspection, ends with exit code 0 against a provider that answers as its database does, with
  well-formed gates and replies within the limit of 65536 bytes, the database it leaves has
  both gates disabled at exactly the revisions of the plan and holds the audit event of its
  operation; and an inspection has changed nothing. The offline mode asks no provider and
  confirms nothing.
\<close>

theorem pause_confirmation_sound:
  assumes "validate v = Inr p" and "gates_ok (db_gates db)" and "n \<le> 65536" and "m \<noteq> Offline"
    and "main m (Some v) token (\<lambda>b. snd (provide n b db)) = (r, 0)"
  shows "r = confirmed p \<and>
    paused_at p (fst (provide n (if m = Inspect then Single (inspection_statement p) else Batch (statements p)) db)) \<and>
    fst (provide n (Single (inspection_statement p)) db) = db"
proof -
  note ok = validate_ok [OF assms(1)]
  obtain rows where r: "r = confirmed p"
    and q: "request (if m = Inspect then Single (inspection_statement p) else Batch (statements p))
      (snd (provide n (if m = Inspect then Single (inspection_statement p) else Batch (statements p)) db)) = Inr rows"
    and c: "receipt p rows = Inr (confirmed p)"
    using main_confirmed [OF assms(5,4,1)] .
  obtain out where out: "inspect [operationId p, fgaUserId p] db = Some out" by (simp add: inspect_rows)
  have single: "execute_all (body_statements (Single (inspection_statement p))) db = Some (db, [out])"
    by (simp add: inspection_runs out)
  then have same: "fst (provide n (Single (inspection_statement p)) db) = db" by (simp add: provide_def)
  show ?thesis
  proof (cases "m = Inspect")
    case True
    with request_provide [OF assms(3) single] q have "rows = PList out" by (simp add: body_length_def)
    with receipt_paused [OF ok assms(2) out] c same r True show ?thesis by simp
  next
    case False
    show ?thesis
    proof (cases "execute_all (statements p) db")
      case None
      with request_refused [of "Batch (statements p)" db n] q False show ?thesis
        by (simp add: body_statements_def unconfirmed_def)
    next
      case (Some dr)
      obtain d rs where run: "execute_all (statements p) db = Some (d, rs)" using Some by (cases dr) auto
      then have "fst (provide n (Batch (statements p)) db) = d" by (simp add: provide_def body_statements_def)
      with batch_paused(1) [OF ok assms(2) run] same r False show ?thesis by simp
    qed
  qed
qed

text \<open>
  C17: a plan takes effect once: after its batch went through, whatever other writers and
  other commands do, it never goes through again, and no attempt to apply it changes
  anything or is confirmed.
\<close>

theorem pause_never_replays:
  assumes "validate v = Inr p" and "execute_all (statements p) db = Some (d, rows)" and "writer\<^sup>*\<^sup>* d e"
  shows "execute_all (statements p) e = None \<and> fst (provide n (Batch (statements p)) e) = e \<and>
    main Apply (Some v) token (\<lambda>b. snd (provide n b e)) = (inspect_required, 1)"
proof -
  note ok = validate_ok [OF assms(1)]
  have "operationId p \<in> au_event ` set (db_audits d)"
    using assms(2) by (auto simp: statements_def inspection_statement_def pause_gates_def record_audit_def
        insert_audit_def pause_audit_def release_guard_def split: option.splits if_splits)
  with writers_audits [OF assms(3)] have "\<not> batch_ready p e" by (auto simp: batch_ready_def)
  with batch_refused [OF ok] have none: "execute_all (statements p) e = None" by blast
  with request_refused [of "Batch (statements p)" e n] have refused:
    "request (Batch (statements p)) (snd (provide n (Batch (statements p)) e)) = unconfirmed"
    "fst (provide n (Batch (statements p)) e) = e" by (simp_all add: body_statements_def)
  have "\<exists>x. operator Apply p token (\<lambda>b. snd (provide n b e)) = Inl x"
    by (auto simp: operator_def refused unconfirmed_def require_def Let_def split: option.splits)
  then have "main Apply (Some v) token (\<lambda>b. snd (provide n b e)) = (inspect_required, 1)"
    by (auto simp: main_def assms(1))
  with none refused show ?thesis by simp
qed


section \<open>A concrete case\<close>

definition case_plan :: pyval where
  "case_plan = PDict [(''schemaVersion'', PInt 1), (''accountId'', PStr (replicate 32 (CHR ''a''))),
     (''databaseId'', PStr ''11111111-1111-4111-8111-111111111111''),
     (''operationId'', PStr ''22222222-2222-4222-8222-222222222222''), (''fgaUserId'', PStr ''owner''),
     (''expectedDeploymentRevision'', PInt 7), (''expectedDeploymentEnabled'', PInt 1),
     (''expectedUserRevision'', PInt 4), (''expectedUserEnabled'', PInt 0)]"

definition case_decoded :: plan where
  "case_decoded = \<lparr>accountId = replicate 32 (CHR ''a''), databaseId = ''11111111-1111-4111-8111-111111111111'',
     fgaUserId = ''owner'', operationId = ''22222222-2222-4222-8222-222222222222'',
     expectedDeploymentRevision = 7, expectedDeploymentEnabled = 1, expectedUserRevision = 4, expectedUserEnabled = 0\<rparr>"

definition case_db :: trial_db where
  "case_db = \<lparr>db_users = [''owner'', ''other''],
     db_gates = [\<lparr>gt_scope = ''user'', gt_id = ''other'', gt_enabled = 1, gt_revision = 2\<rparr>,
       \<lparr>gt_scope = ''deployment'', gt_id = ''*'', gt_enabled = 1, gt_revision = 7\<rparr>,
       \<lparr>gt_scope = ''user'', gt_id = ''owner'', gt_enabled = 0, gt_revision = 4\<rparr>],
     db_events = [\<lparr>ev_scope = ''deployment'', ev_id = ''*'', ev_revision = 7, ev_reason = ''gate_enabled''\<rparr>],
     db_audits = [], db_guards = []\<rparr>"

lemma case_plan_valid: "validate case_plan = Inr case_decoded"
  by code_simp

lemma case_db_ok: "gates_ok (db_gates case_db)"
  by code_simp

definition case_after :: trial_db where
  "case_after = fst (the (execute_all (statements case_decoded) case_db))"

lemma case_batch: "execute_all (statements case_decoded) case_db = Some (case_after, snd (the (execute_all (statements case_decoded) case_db)))"
proof -
  have "execute_all (statements case_decoded) case_db \<noteq> None" by code_simp
  then show ?thesis by (auto simp: case_after_def)
qed

lemma pause_batch_effect_witness:
  "\<exists>d rows. execute_all (statements case_decoded) case_db = Some (d, rows) \<and> paused_at case_decoded d \<and>
    receipt case_decoded (PList (last rows)) = Inr (confirmed case_decoded)"
proof -
  have "batch_ready case_decoded case_db" by code_simp
  moreover have "no_later_event case_decoded case_db" by code_simp
  ultimately show ?thesis
    using pause_batch_effect [OF case_plan_valid case_db_ok] by auto
qed

lemma pause_confirmation_sound_witness:
  "paused_at case_decoded (fst (provide 700 (Batch (statements case_decoded)) case_db))"
proof -
  have "receipt case_decoded (PList (last (snd (the (execute_all (statements case_decoded) case_db))))) =
      Inr (confirmed case_decoded)" by code_simp
  then have "main Apply (Some case_plan) (Some (Some (replicate 40 (CHR ''t'')))) (\<lambda>b. snd (provide 700 b case_db)) =
      (confirmed case_decoded, 0)"
    by (intro apply_confirms [OF case_plan_valid case_db_ok _ _ case_batch]) (simp, code_simp)
  from pause_confirmation_sound [OF case_plan_valid case_db_ok _ _ this] show ?thesis by simp
qed

text \<open>Both gates are enabled again by hand before the second attempt.\<close>

lemma pause_never_replays_witness:
  "\<exists>e. writer case_after e \<and> has_gate e ''deployment'' ''*'' 7 1 \<and> execute_all (statements case_decoded) e = None"
proof -
  let ?g = "\<lparr>gt_scope = ''deployment'', gt_id = ''*'', gt_enabled = 0, gt_revision = 8\<rparr>"
  let ?h = "\<lparr>gt_scope = ''deployment'', gt_id = ''*'', gt_enabled = 1, gt_revision = 7\<rparr>"
  let ?e = "case_after\<lparr>db_gates := map (\<lambda>k. if k = ?g then ?h else k) (db_gates case_after),
      db_events := gate_transition ?g ?h (db_events case_after)\<rparr>"
  have gates: "db_gates case_after = [\<lparr>gt_scope = ''user'', gt_id = ''other'', gt_enabled = 1, gt_revision = 2\<rparr>,
       ?g, \<lparr>gt_scope = ''user'', gt_id = ''owner'', gt_enabled = 0, gt_revision = 4\<rparr>]" by code_simp
  have w: "writer case_after ?e"
    by (rule writer.update) (simp_all add: gates gate_ok_def gate_key_def)
  then have ws: "writer\<^sup>*\<^sup>* case_after ?e" by (rule r_into_rtranclp [of writer])
  have "has_gate ?e ''deployment'' ''*'' 7 1" by (simp add: has_gate_def gates)
  with w show ?thesis
    using pause_never_replays [OF case_plan_valid case_batch ws] by blast
qed

end
