(* ===== verification/Composition_Delta.thy ===== *)
theory Composition_Delta
  imports Encoding
begin

text \<open>
  The temporary composition delta (\<open>scripts/temporary_composition_delta.py\<close>): the bounded JSON
  envelope, the inventories of bindings and resources, the complete baseline, the fixed
  additions, the delta that appends them, and its validation. Values are JSON without
  floats, whose dicts have distinct keys; reading the file in \<open>load_json\<close> is not modelled.
\<close>

section \<open>Access\<close>

definition is_obj :: "json \<Rightarrow> bool" where
  "is_obj v \<longleftrightarrow> (case v of JObj _ \<Rightarrow> True | _ \<Rightarrow> False)"

definition is_arr :: "json \<Rightarrow> bool" where
  "is_arr v \<longleftrightarrow> (case v of JArr _ \<Rightarrow> True | _ \<Rightarrow> False)"

definition items :: "json \<Rightarrow> (string \<times> json) list" where
  "items v = (case v of JObj kvs \<Rightarrow> kvs | _ \<Rightarrow> [])"

definition elements :: "json \<Rightarrow> json list" where
  "elements v = (case v of JArr xs \<Rightarrow> xs | _ \<Rightarrow> [])"

text \<open>\<open>value.get(key)\<close>, and \<open>value[key]\<close> where the key is known to be there.\<close>

definition jget :: "json \<Rightarrow> string \<Rightarrow> json" where
  "jget v k = (case map_of (items v) k of None \<Rightarrow> JNull | Some x \<Rightarrow> x)"

definition jstring :: "json \<Rightarrow> string" where
  "jstring v = (case v of JStr s \<Rightarrow> s | _ \<Rightarrow> [])"

text \<open>\<open>value[key] = x\<close> on an existing key keeps its place.\<close>

fun put :: "string \<Rightarrow> json \<Rightarrow> (string \<times> json) list \<Rightarrow> (string \<times> json) list" where
  "put k x [] = [(k, x)]"
| "put k x ((a, y) # kvs) = (if a = k then (a, x) # kvs else (a, y) # put k x kvs)"

definition jput :: "string \<Rightarrow> json \<Rightarrow> json \<Rightarrow> json" where
  "jput k x v = JObj (put k x (items v))"


section \<open>Checks\<close>

definition MAX_BYTES :: int where "MAX_BYTES = 4000000"

definition CONFIG_KEYS :: "string list" where
  "CONFIG_KEYS = [''bindings'', ''resources'', ''runtime'', ''assets'', ''classLifecycle'', ''secretReferences'',
     ''attachment'', ''routes'', ''domains'', ''effectiveEdge'', ''capabilities'']"

definition BASELINE_KEYS :: "string list" where
  "BASELINE_KEYS = [''schemaVersion'', ''kind'', ''target'', ''retainedVersion'', ''deploymentWeights'',
     ''moduleSha256'', ''configuration'', ''productionState'']"

definition ADDITION_KEYS :: "string list" where
  "ADDITION_KEYS = [''run'', ''temporaryVersion'', ''moduleSha256'', ''bindings'', ''resources'', ''receiver'', ''scope'']"

definition DELTA_KEYS :: "string list" where
  "DELTA_KEYS = [''schemaVersion'', ''kind'', ''baselineSha256'', ''temporarySha256'', ''baseline'', ''temporary'',
     ''additions'', ''restore'']"

definition keys_are :: "json \<Rightarrow> string list \<Rightarrow> string \<Rightarrow> unit res" where
  "keys_are v keys reason = require (is_obj v \<and> set (map fst (items v)) = set keys) reason"

text \<open>\<open>[A-Za-z0-9_.:-]{1,128}\<close> and \<open>[a-f0-9]{n}\<close> on a JSON value.\<close>

definition identity :: "json \<Rightarrow> bool" where
  "identity v \<longleftrightarrow> (case v of JStr s \<Rightarrow> 1 \<le> length s \<and> length s \<le> 128 \<and>
     list_all (\<lambda>c. is_lower c \<or> is_upper c \<or> is_digit c \<or> c \<in> {CHR ''_'', CHR ''.'', CHR '':'', CHR ''-''}) s
   | _ \<Rightarrow> False)"

definition hex_text :: "nat \<Rightarrow> json \<Rightarrow> bool" where
  "hex_text n v \<longleftrightarrow> (case v of JStr s \<Rightarrow> fullmatch_hex n s | _ \<Rightarrow> False)"

lemma each_res_cong [fundef_cong]:
  "xs = ys \<Longrightarrow> (\<And>x. x \<in> set ys \<Longrightarrow> f x = g x) \<Longrightarrow> each_res f xs = each_res g ys"
  by (induction ys arbitrary: xs) (auto intro!: arg_cong2 [of _ _ _ _ bind_res])

lemma bind_res_cong [fundef_cong]:
  "m = n \<Longrightarrow> (\<And>x. n = Inr x \<Longrightarrow> f x = g x) \<Longrightarrow> bind_res m f = bind_res n g"
  by (cases n) auto

fun check_json :: "nat \<Rightarrow> json \<Rightarrow> unit res" where
  "check_json depth (JObj kvs) = bind_res (require (depth \<le> 32) ''configuration_depth'')
     (\<lambda>_. each_res (\<lambda>(k, x). check_json (Suc depth) x) kvs)"
| "check_json depth (JArr xs) = bind_res (require (depth \<le> 32) ''configuration_depth'')
     (\<lambda>_. each_res (\<lambda>x. check_json (Suc depth) x) xs)"
| "check_json depth JNull = require (depth \<le> 32) ''configuration_depth''"
| "check_json depth (JBool b) = require (depth \<le> 32) ''configuration_depth''"
| "check_json depth (JInt n) = require (depth \<le> 32) ''configuration_depth''"
| "check_json depth (JStr s) = require (depth \<le> 32) ''configuration_depth''"

definition bounded :: "json \<Rightarrow> unit res" where
  "bounded v = bind_res (check_json 0 v) (\<lambda>_. require (int (length (dumps v)) \<le> MAX_BYTES) ''configuration_size'')"

text \<open>\<open>_bindings\<close>: the names, the latest first.\<close>

fun scan_bindings :: "string list \<Rightarrow> json list \<Rightarrow> string list res" where
  "scan_bindings names [] = Inr names"
| "scan_bindings names (b # bs) =
     bind_res (require (is_obj b \<and> identity (jget b ''name'') \<and> identity (jget b ''type'')) ''binding_identity'') (\<lambda>_.
     bind_res (require (jstring (jget b ''name'') \<notin> set names) ''duplicate_binding'') (\<lambda>_.
     bind_res (require (jget b ''type'' \<noteq> JStr ''secret_text'') ''secret_value_not_supported'') (\<lambda>_.
     scan_bindings (jstring (jget b ''name'') # names) bs)))"

definition bindings :: "json \<Rightarrow> string list res" where
  "bindings v = bind_res (require (is_arr v \<and> length (elements v) \<le> 128) ''binding_inventory'') (\<lambda>_.
     scan_bindings [] (elements v))"

fun scan_resources :: "string option \<Rightarrow> string list \<Rightarrow> json list \<Rightarrow> string list res" where
  "scan_resources owner ids [] = Inr ids"
| "scan_resources owner ids (r # rs) =
     bind_res (require (is_obj r \<and> identity (jget r ''kind'') \<and> identity (jget r ''identity'')) ''resource_identity'') (\<lambda>_.
     bind_res (case owner of None \<Rightarrow> Inr ()
       | Some run \<Rightarrow> bind_res (keys_are r [''kind'', ''identity'', ''run''] ''owned_resource_fields'') (\<lambda>_.
           require (jget r ''run'' = JStr run) ''resource_owner'')) (\<lambda>_.
     bind_res (require (jstring (jget r ''identity'') \<notin> set ids) ''duplicate_resource'') (\<lambda>_.
     scan_resources owner (jstring (jget r ''identity'') # ids) rs)))"

definition resources :: "string option \<Rightarrow> json \<Rightarrow> string list res" where
  "resources owner v = bind_res (require (is_arr v \<and> length (elements v) \<le> 128) ''resource_inventory'') (\<lambda>_.
     scan_resources owner [] (elements v))"

function reference_strings :: "json \<Rightarrow> string list" where
  "reference_strings (JStr s) = [s]"
| "reference_strings (JObj kvs) = concat (map (\<lambda>(k, x). reference_strings x) kvs)"
| "reference_strings (JArr xs) = concat (map reference_strings xs)"
| "reference_strings JNull = []"
| "reference_strings (JBool b) = []"
| "reference_strings (JInt n) = []"
  by pat_completeness auto
termination
proof (relation "measure size")
  fix kvs :: "(string \<times> json) list" and p k x
  assume "p \<in> set kvs" "(k, x) = p"
  then show "(x, JObj kvs) \<in> measure size" by (induction kvs) (auto simp: size_prod_def)
next
  fix xs :: "json list" and x
  assume "x \<in> set xs"
  then show "(x, JArr xs) \<in> measure size" by (induction xs) auto
qed simp

definition binding_references :: "json \<Rightarrow> string list" where
  "binding_references b = reference_strings (JObj (filter (\<lambda>(k, v). k \<notin> {''name'', ''type''} \<and>
     \<not> (jget b ''type'' = JStr ''plain_text'' \<and> k = ''text'')) (items b)))"

definition production_references :: "json \<Rightarrow> string list res" where
  "production_references config = bind_res (resources None (jget config ''resources'')) (\<lambda>ids.
     Inr (ids @ concat (map binding_references (elements (jget config ''bindings''))) @
       concat (map (\<lambda>k. reference_strings (jget config k))
         [''assets'', ''classLifecycle'', ''secretReferences'', ''attachment'', ''routes'', ''domains'', ''effectiveEdge''])))"


section \<open>The baseline\<close>

definition config_rules :: "json \<Rightarrow> unit res" where
  "config_rules config =
     bind_res (keys_are config CONFIG_KEYS ''complete_configuration_required'') (\<lambda>_.
     bind_res (bindings (jget config ''bindings'')) (\<lambda>_.
     bind_res (resources None (jget config ''resources'')) (\<lambda>_.
     bind_res (require (list_all (\<lambda>k. is_obj (jget config k))
       (filter (\<lambda>k. k \<notin> {''bindings'', ''resources'', ''routes'', ''domains''}) CONFIG_KEYS)) ''configuration_section_type'') (\<lambda>_.
     bind_res (require (list_all (\<lambda>k. is_arr (jget config k)) [''routes'', ''domains'']) ''configuration_section_type'') (\<lambda>_.
     bind_res (keys_are (jget config ''capabilities'') [''intake'', ''dispatch'', ''thumbnail''] ''capability_fields'') (\<lambda>_.
     require (list_all (\<lambda>(k, v). v = JBool False) (items (jget config ''capabilities''))) ''production_not_paused''))))))"

definition validate_baseline :: "json \<Rightarrow> unit res" where
  "validate_baseline b =
     bind_res (bounded b) (\<lambda>_.
     bind_res (keys_are b BASELINE_KEYS ''baseline_fields'') (\<lambda>_.
     bind_res (require (jget b ''schemaVersion'' = JInt 1 \<and> jget b ''kind'' = JStr ''temporary_composition_baseline'') ''baseline_schema'') (\<lambda>_.
     bind_res (keys_are (jget b ''target'') [''accountId'', ''scriptName''] ''target_fields'') (\<lambda>_.
     bind_res (require (list_all (\<lambda>(k, v). identity v) (items (jget b ''target''))) ''target_identity'') (\<lambda>_.
     bind_res (require (identity (jget b ''retainedVersion'')) ''retained_version'') (\<lambda>_.
     bind_res (require (let w = jget b ''deploymentWeights''; v = jstring (jget b ''retainedVersion'') in
       is_obj w \<and> set (map fst (items w)) = {v} \<and> jget w v = JInt 100) ''retained_weights'') (\<lambda>_.
     bind_res (require (hex_text 64 (jget b ''moduleSha256'')) ''module_digest'') (\<lambda>_.
     bind_res (config_rules (jget b ''configuration'')) (\<lambda>_.
     require (is_obj (jget b ''productionState'') \<and> items (jget b ''productionState'') \<noteq> []) ''complete_production_state_required'')))))))))"


section \<open>The additions\<close>

text \<open>\<open>a == b\<close> of two dicts.\<close>

definition same_dict :: "json \<Rightarrow> (string \<times> json) list \<Rightarrow> bool" where
  "same_dict v kvs \<longleftrightarrow> is_obj v \<and> set (items v) = set kvs"

definition pair_rule :: "json \<times> json \<Rightarrow> unit res" where
  "pair_rule br = (let b = fst br; r = snd br;
       field = (if jget b ''type'' = JStr ''d1'' then ''database_id'' else ''service'') in
     bind_res (keys_are b [''name'', ''type'', field] ''synthetic_binding_fields'') (\<lambda>_.
     require (jget b field = jget r ''identity'') ''binding_resource_mismatch''))"

definition inventory_rules :: "json \<Rightarrow> json \<Rightarrow> string \<Rightarrow> unit res" where
  "inventory_rules baseline additions run =
     (let config = jget baseline ''configuration''; bs = jget additions ''bindings''; rs = jget additions ''resources'' in
     bind_res (bindings bs) (\<lambda>names.
     bind_res (require (length (elements bs) = 4) ''fixed_binding_inventory'') (\<lambda>_.
     bind_res (bindings (jget config ''bindings'')) (\<lambda>existing.
     bind_res (require (set names \<inter> set existing = {}) ''binding_collision'') (\<lambda>_.
     bind_res (resources (Some run) rs) (\<lambda>ids.
     bind_res (require (map (\<lambda>r. jget r ''kind'') (elements rs) = [JStr ''d1'', JStr ''d1'', JStr ''worker'']) ''fixed_resource_inventory'') (\<lambda>_.
     bind_res (production_references config) (\<lambda>refs.
     bind_res (require (set ids \<inter> set refs = {} \<and> jget (jget baseline ''target'') ''scriptName'' \<notin> JStr ` set ids)
       ''production_resource_collision'') (\<lambda>_.
     bind_res (require (map (\<lambda>b. jget b ''type'') (elements bs) = [JStr ''d1'', JStr ''d1'', JStr ''service'', JStr ''plain_text''])
       ''fixed_binding_types'') (\<lambda>_.
     each_res pair_rule (zip (take 3 (elements bs)) (elements rs))))))))))))"

definition scope_rules :: "json \<Rightarrow> string \<Rightarrow> unit res" where
  "scope_rules additions run =
     (let scope = jget additions ''scope''; bs = elements (jget additions ''bindings'') in
     bind_res (keys_are scope [''run'', ''startsAt'', ''expiresAt'', ''canary'', ''bindingKeys''] ''scope_fields'') (\<lambda>_.
     bind_res (require (jget scope ''run'' = JStr run \<and>
       (case (jget scope ''startsAt'', jget scope ''expiresAt'') of
          (JInt s, JInt e) \<Rightarrow> 0 \<le> s \<and> s \<le> 2 ^ 53 - 1200000 \<and> e = s + 600000 | _ \<Rightarrow> False) \<and>
       hex_text 64 (jget scope ''canary'')) ''scope_lifetime'') (\<lambda>_.
     bind_res (require (same_dict (jget scope ''bindingKeys'')
       (zip [''syntheticDb'', ''quotaDb'', ''receiver'', ''capability''] (map (\<lambda>b. jget b ''name'') bs))) ''scope_binding_keys'') (\<lambda>_.
     bind_res (keys_are (bs ! 3) [''name'', ''type'', ''text''] ''capability_binding_fields'') (\<lambda>_.
     require (hex_text 64 (jget (bs ! 3) ''text'')) ''synthetic_capability'')))))"

definition receiver_rules :: "json \<Rightarrow> json \<Rightarrow> string \<Rightarrow> unit res" where
  "receiver_rules baseline additions run =
     (let receiver = jget additions ''receiver''; config = jget receiver ''configuration'';
        bs = elements (jget additions ''bindings''); rs = elements (jget additions ''resources'') in
     bind_res (keys_are receiver [''binding'', ''identity'', ''run'', ''target'', ''configuration'', ''moduleSha256''] ''receiver_fields'') (\<lambda>_.
     bind_res (require (jget receiver ''binding'' = jget (bs ! 2) ''name'' \<and>
       jget receiver ''identity'' = jget (rs ! 2) ''identity'' \<and> jget receiver ''run'' = JStr run \<and>
       hex_text 64 (jget receiver ''moduleSha256'')) ''receiver_scope'') (\<lambda>_.
     bind_res (keys_are (jget receiver ''target'') [''accountId'', ''scriptName''] ''receiver_target_fields'') (\<lambda>_.
     bind_res (require (same_dict (jget receiver ''target'')
       [(''accountId'', jget (jget baseline ''target'') ''accountId''), (''scriptName'', jget (rs ! 2) ''identity'')]) ''receiver_target_scope'') (\<lambda>_.
     bind_res (validate_baseline (jput ''configuration'' config baseline)) (\<lambda>_.
     bind_res (require (dumps (jget config ''bindings'') = dumps (JArr [bs ! 1, bs ! 3]) \<and>
       dumps (jget config ''resources'') = dumps (JArr [rs ! 1])) ''receiver_isolation'') (\<lambda>_.
     bind_res (require (list_all (\<lambda>k. jget config k = JObj [])
       [''assets'', ''classLifecycle'', ''secretReferences'', ''attachment'', ''effectiveEdge'']) ''receiver_relationship_not_supported'') (\<lambda>_.
     require (list_all (\<lambda>k. jget config k = JArr []) [''routes'', ''domains'']) ''receiver_relationship_not_supported''))))))))"

definition addition_rules :: "json \<Rightarrow> json \<Rightarrow> unit res" where
  "addition_rules baseline additions =
     bind_res (bounded additions) (\<lambda>_.
     bind_res (keys_are additions ADDITION_KEYS ''addition_fields'') (\<lambda>_.
     bind_res (require (hex_text 32 (jget additions ''run'')) ''run_identity'') (\<lambda>_.
     let run = jstring (jget additions ''run'') in
     bind_res (require (identity (jget additions ''temporaryVersion'') \<and>
       jget additions ''temporaryVersion'' \<noteq> jget baseline ''retainedVersion'') ''temporary_version'') (\<lambda>_.
     bind_res (require (hex_text 64 (jget additions ''moduleSha256'')) ''module_digest'') (\<lambda>_.
     bind_res (inventory_rules baseline additions run) (\<lambda>_.
     bind_res (scope_rules additions run) (\<lambda>_.
     receiver_rules baseline additions run)))))))"


section \<open>The delta\<close>

definition extend :: "string \<Rightarrow> json \<Rightarrow> json \<Rightarrow> json" where
  "extend k additions config = jput k (JArr (elements (jget config k) @ elements (jget additions k))) config"

definition temporary_of :: "json \<Rightarrow> json \<Rightarrow> json" where
  "temporary_of baseline additions =
     (let version = jget additions ''temporaryVersion'';
          t1 = jput ''retainedVersion'' version baseline;
          t2 = jput ''moduleSha256'' (jget additions ''moduleSha256'') t1;
          t3 = jput ''deploymentWeights'' (JObj [(jstring version, JInt 100)]) t2
      in jput ''configuration'' (extend ''resources'' additions (extend ''bindings'' additions (jget baseline ''configuration''))) t3)"

definition digest :: "json \<Rightarrow> json" where
  "digest v = JStr (sha256_hex (dumps v))"

definition delta_of :: "json \<Rightarrow> json \<Rightarrow> json" where
  "delta_of baseline additions =
     JObj [(''schemaVersion'', JInt 1), (''kind'', JStr ''offline_temporary_composition_delta''),
       (''baselineSha256'', digest baseline), (''temporarySha256'', digest (temporary_of baseline additions)),
       (''baseline'', baseline), (''temporary'', temporary_of baseline additions), (''additions'', additions),
       (''restore'', JObj [(''strategy'', JStr ''percentage''), (''force'', JBool False),
          (''versions'', JArr [JObj [(''version_id'', jget baseline ''retainedVersion''), (''percentage'', JInt 100)]])])]"

definition build_delta :: "json \<Rightarrow> json \<Rightarrow> json res" where
  "build_delta baseline additions =
     bind_res (validate_baseline baseline) (\<lambda>_.
     bind_res (addition_rules baseline additions) (\<lambda>_.
     Inr (delta_of baseline additions)))"

definition validate_delta :: "json \<Rightarrow> unit res" where
  "validate_delta delta =
     bind_res (bounded delta) (\<lambda>_.
     bind_res (keys_are delta DELTA_KEYS ''delta_fields'') (\<lambda>_.
     bind_res (build_delta (jget delta ''baseline'') (jget delta ''additions'')) (\<lambda>expected.
     require (dumps delta = dumps expected) ''configuration_delta_mismatch'')))"

end
