(* ===== verification/Composition_Provider.thy ===== *)
theory Composition_Provider
  imports Composition_Delta Latch
begin

text \<open>
  The complete composition plan, the synthetic provider it is rehearsed against and the
  durable journal of the rehearsal (\<open>scripts/temporary_composition_lifecycle.py\<close>). Requests
  are JSON values with their keys in the order of the code; a fault is the name the provider
  was built with for an operation.
\<close>

section \<open>The plan\<close>

definition WORK_MS :: int where "WORK_MS = 600000"
definition OUTER_MS :: int where "OUTER_MS = 1200000"

definition numbered :: "string \<Rightarrow> nat \<Rightarrow> string" where
  "numbered prefix n = prefix @ nat_digits n"

definition COMPOSITION_OPERATIONS :: "string list" where
  "COMPOSITION_OPERATIONS = [''read_baseline''] @
     concat (map (\<lambda>n. [numbered ''create_resource_'' n, numbered ''read_resource_'' n]) [0, 1, 2]) @
     [''initialize_synthetic'', ''read_initialized'', ''upload_version'', ''read_version'', ''apply_temporary'',
      ''read_temporary'', ''disable_temporary'', ''read_disabled'', ''restore_retained'', ''read_restored''] @
     concat (map (\<lambda>n. [numbered ''delete_resource_'' n, numbered ''read_absent_'' n]) [2, 1, 0])"

definition RECONCILE :: "string list" where
  "RECONCILE = [''reconcile_1'', ''reconcile_2'']"

definition FAULTS :: "string list" where
  "FAULTS = [''refused'', ''unknown'', ''exception'', ''malformed'', ''identity_drift'', ''data_drift'', ''typed_data_drift'',
     ''schema_drift'', ''secret_drift'', ''gate_drift'', ''reference_drift'', ''version_drift'', ''weights_drift'', ''stop'']"

definition COMPOSITION_FAULTS :: "string list" where
  "COMPOSITION_FAULTS = FAULTS @ [''ownership_drift'', ''configuration_drift'', ''module_drift'']"

definition scope_start :: "json \<Rightarrow> json" where
  "scope_start delta = jget (jget (jget delta ''additions'') ''scope'') ''startsAt''"

definition plan_json :: "json \<Rightarrow> int \<Rightarrow> json" where
  "plan_json delta start = JObj [(''schemaVersion'', JInt 1), (''kind'', JStr ''offline_complete_composition_lifecycle''),
     (''run'', jget (jget delta ''additions'') ''run''), (''startMs'', JInt start), (''workExpiresMs'', JInt (start + WORK_MS)),
     (''outerExpiresMs'', JInt (start + OUTER_MS)), (''delta'', delta), (''operations'', JArr (map JStr COMPOSITION_OPERATIONS)),
     (''operationCap'', JInt (int (length COMPOSITION_OPERATIONS) + 2)), (''reconciliationReadCap'', JInt 2),
     (''deploymentAllowed'', JBool False), (''providerRestorationVerified'', JBool False),
     (''changedSecretSemanticsVerified'', JBool False), (''productionStateVerified'', JBool False),
     (''nativeQualified'', JBool False), (''transportQualified'', JBool False)]"

definition build_composition_plan :: "json \<Rightarrow> json \<Rightarrow> json res" where
  "build_composition_plan delta start =
     bind_res (validate_delta delta) (\<lambda>_.
     bind_res (require (case start of JInt n \<Rightarrow> 0 \<le> n \<and> n \<le> 2 ^ 53 - OUTER_MS | _ \<Rightarrow> False) ''operation_time'') (\<lambda>_.
     bind_res (require (start = scope_start delta) ''composition_start_mismatch'') (\<lambda>_.
     Inr (plan_json delta (case start of JInt n \<Rightarrow> n | _ \<Rightarrow> 0)))))"

text \<open>
  The branch of \<open>validate_plan\<close> for a complete plan; a plan of the other kind is not accepted
  here, as the composition provider does not accept it either. A missing key is a mismatch.
\<close>

definition validate_plan :: "json \<Rightarrow> unit res" where
  "validate_plan plan =
     (if \<not> is_obj plan \<or> jget plan ''kind'' \<noteq> JStr ''offline_complete_composition_lifecycle'' \<or>
         map_of (items plan) ''delta'' = None \<or> map_of (items plan) ''startMs'' = None
      then Inl (Refused ''closed_plan_mismatch'')
      else bind_res (build_composition_plan (jget plan ''delta'') (jget plan ''startMs'')) (\<lambda>expected.
        require (dumps plan = dumps expected) ''closed_plan_mismatch''))"

definition start_of :: "json \<Rightarrow> int" where
  "start_of plan = (case jget plan ''startMs'' of JInt n \<Rightarrow> n | _ \<Rightarrow> 0)"

definition work_end :: "json \<Rightarrow> int" where
  "work_end plan = start_of plan + WORK_MS"

definition outer_end :: "json \<Rightarrow> int" where
  "outer_end plan = start_of plan + OUTER_MS"


section \<open>The provider\<close>

record provider_state =
  ps_snapshot :: json
  ps_admission :: json
  ps_initialized :: bool
  ps_owned :: "json list"
  ps_artifact :: json
  ps_quota :: json
  ps_uploaded :: json

definition state_json :: "provider_state \<Rightarrow> json" where
  "state_json s = JObj [(''snapshot'', ps_snapshot s), (''admission'', ps_admission s), (''initialized'', JBool (ps_initialized s)),
     (''ownedResources'', JArr (ps_owned s)), (''receiverArtifact'', ps_artifact s), (''quotaScope'', ps_quota s),
     (''uploadedVersion'', ps_uploaded s)]"

record provider =
  pr_plan :: json
  pr_faults :: "(string \<times> string) list"
  pr_tick :: int
  pr_elapsed :: int
  pr_stop :: bool
  pr_calls :: "string list"
  pr_state :: provider_state

definition admission :: "json \<Rightarrow> bool \<Rightarrow> int \<Rightarrow> json" where
  "admission plan enabled revision = JObj [(''run'', jget plan ''run''), (''enabled'', JBool enabled), (''revision'', JInt revision)]"

definition initial_state :: "json \<Rightarrow> provider_state" where
  "initial_state plan = \<lparr>ps_snapshot = jget (jget plan ''delta'') ''baseline'', ps_admission = admission plan False 1,
     ps_initialized = False, ps_owned = [], ps_artifact = JNull, ps_quota = JNull, ps_uploaded = JNull\<rparr>"

definition make_provider :: "json \<Rightarrow> (string \<times> string) list \<Rightarrow> int \<Rightarrow> provider res" where
  "make_provider plan faults tick =
     bind_res (validate_plan plan) (\<lambda>_.
     bind_res (require (set (map fst faults) \<subseteq> set COMPOSITION_OPERATIONS \<union> set RECONCILE \<and>
       set (map snd faults) \<subseteq> set COMPOSITION_FAULTS) ''synthetic_fault'') (\<lambda>_.
     bind_res (require (0 \<le> tick \<and> tick \<le> OUTER_MS) ''synthetic_tick'') (\<lambda>_.
     Inr \<lparr>pr_plan = plan, pr_faults = faults, pr_tick = tick, pr_elapsed = 0, pr_stop = False, pr_calls = [],
       pr_state = initial_state plan\<rparr>)))"

definition quota_scope :: "json \<Rightarrow> bool \<Rightarrow> json" where
  "quota_scope plan enabled = JObj [(''run'', jget plan ''run''), (''startsAt'', jget plan ''startMs''),
     (''expiresAt'', jget plan ''outerExpiresMs''), (''enabled'', JBool enabled), (''fga'', JInt 0), (''receiver'', JInt 0),
     (''arrivals'', JInt 0), (''authorizationPresent'', JBool False), (''canaryMatch'', JBool False), (''initialized'', JBool True),
     (''limits'', JObj [(''fga'', JInt 96), (''receiver'', JInt 16), (''lifetimeMs'', JInt OUTER_MS)])]"

text \<open>The parts of the delta an operation names.\<close>

definition additions_of :: "json \<Rightarrow> json" where "additions_of plan = jget (jget plan ''delta'') ''additions''"
definition temporary_part :: "json \<Rightarrow> json" where "temporary_part plan = jget (jget plan ''delta'') ''temporary''"
definition baseline_part :: "json \<Rightarrow> json" where "baseline_part plan = jget (jget plan ''delta'') ''baseline''"
definition resource_at :: "json \<Rightarrow> nat \<Rightarrow> json" where
  "resource_at plan n = elements (jget (additions_of plan) ''resources'') ! n"

definition create_request :: "json \<Rightarrow> nat \<Rightarrow> json" where
  "create_request plan n = (if n \<noteq> 2 then resource_at plan n
     else JObj [(''resource'', resource_at plan n), (''artifact'', jget (additions_of plan) ''receiver'')])"

definition upload_request :: "json \<Rightarrow> json" where
  "upload_request plan = JObj [(''version'', jget (additions_of plan) ''temporaryVersion''),
     (''moduleSha256'', jget (temporary_part plan) ''moduleSha256''),
     (''configurationSha256'', digest (jget (temporary_part plan) ''configuration''))]"

definition deploy_request :: "json \<Rightarrow> json" where
  "deploy_request plan = JObj [(''strategy'', JStr ''percentage''), (''force'', JBool False),
     (''versions'', JArr [JObj [(''version_id'', jget (additions_of plan) ''temporaryVersion''), (''percentage'', JInt 100)]])]"

definition start_request :: "json \<Rightarrow> json" where
  "start_request plan = JObj [(''run'', jget plan ''run''), (''startsAt'', jget plan ''startMs'')]"

definition run_request :: "json \<Rightarrow> json" where
  "run_request plan = JObj [(''run'', jget plan ''run'')]"

definition keep_production :: "json \<Rightarrow> provider_state \<Rightarrow> provider_state" where
  "keep_production chosen s = s\<lparr>ps_snapshot := jput ''productionState'' (jget (ps_snapshot s) ''productionState'') chosen\<rparr>"

text \<open>
  Python's equality of two requests: the order of the keys does not matter. A value equals
  itself, as the keys of a dictionary are distinct.
\<close>

fun as_py :: "json \<Rightarrow> pyval" where
  "as_py JNull = PNone"
| "as_py (JBool b) = PBool b"
| "as_py (JInt n) = PInt n"
| "as_py (JStr s) = PStr s"
| "as_py (JArr xs) = PList (map as_py xs)"
| "as_py (JObj xs) = PDict (map (\<lambda>(k, x). (k, as_py x)) xs)"

definition same_value :: "json \<Rightarrow> json \<Rightarrow> bool" where
  "same_value a b \<longleftrightarrow> a = b \<or> py_eq (as_py a) (as_py b)"

lemma same_value_refl [simp]: "same_value a a"
  by (simp add: same_value_def)

text \<open>The effect of an operation; \<open>None\<close> where the provider refuses it.\<close>

definition create_effect :: "json \<Rightarrow> nat \<Rightarrow> json \<Rightarrow> provider_state \<Rightarrow> provider_state option" where
  "create_effect plan n request s =
     (if dumps request \<noteq> dumps (create_request plan n) \<or>
        list_ex (\<lambda>item. jget item ''identity'' = jget (resource_at plan n) ''identity'') (ps_owned s) then None
      else Some (s\<lparr>ps_owned := ps_owned s @ [resource_at plan n],
        ps_artifact := (if n = 2 then jget (additions_of plan) ''receiver'' else ps_artifact s)\<rparr>))"

definition delete_effect :: "json \<Rightarrow> nat \<Rightarrow> json \<Rightarrow> provider_state \<Rightarrow> provider_state option" where
  "delete_effect plan n request s =
     (if \<not> same_value request (resource_at plan n) \<or> ps_owned s = [] \<or> dumps (last (ps_owned s)) \<noteq> dumps request \<or>
        dumps (ps_snapshot s) \<noteq> dumps (baseline_part plan) \<or> jget (ps_admission s) ''enabled'' \<noteq> JBool False then None
      else Some (s\<lparr>ps_owned := butlast (ps_owned s), ps_artifact := (if n = 2 then JNull else ps_artifact s),
        ps_quota := (if n = 1 then JNull else ps_quota s)\<rparr>))"

definition initialize_effect :: "json \<Rightarrow> json \<Rightarrow> provider_state \<Rightarrow> provider_state option" where
  "initialize_effect plan request s =
     (if \<not> same_value request (start_request plan) \<or>
        dumps (JArr (ps_owned s)) \<noteq> dumps (jget (additions_of plan) ''resources'') \<or> ps_initialized s then None
      else Some (s\<lparr>ps_initialized := True, ps_admission := jput ''enabled'' (JBool True) (ps_admission s),
        ps_quota := quota_scope plan True\<rparr>))"

text \<open>\<open>int(operation.rsplit("_", 1)[1])\<close> of an operation that starts with the prefix.\<close>

definition number_of :: "string \<Rightarrow> string \<Rightarrow> nat option" where
  "number_of prefix = map_of (map (\<lambda>n. (numbered prefix n, n)) [0, 1, 2])"

definition effect :: "json \<Rightarrow> string \<Rightarrow> json \<Rightarrow> provider_state \<Rightarrow> provider_state option" where
  "effect plan operation request s =
     (case number_of ''create_resource_'' operation of
        Some n \<Rightarrow> create_effect plan n request s
      | None \<Rightarrow>
          if operation = ''initialize_synthetic'' then initialize_effect plan request s
          else if operation = ''upload_version'' then
            if \<not> same_value request (upload_request plan) \<or> ps_uploaded s \<noteq> JNull then None
            else Some (s\<lparr>ps_uploaded := upload_request plan\<rparr>)
          else if operation = ''apply_temporary'' then
            if \<not> same_value request (deploy_request plan) \<or> ps_uploaded s = JNull then None
            else Some (keep_production (temporary_part plan) s)
          else if operation = ''disable_temporary'' then
            if \<not> same_value request (run_request plan) then None
            else Some (s\<lparr>ps_admission := admission plan False 2,
              ps_quota := (if ps_quota s = JNull then JNull else jput ''enabled'' (JBool False) (ps_quota s))\<rparr>)
          else if operation = ''restore_retained'' then
            if \<not> same_value request (jget (jget plan ''delta'') ''restore'') \<or> jget (ps_admission s) ''enabled'' \<noteq> JBool False then None
            else Some (keep_production (baseline_part plan) s)
          else (case number_of ''delete_resource_'' operation of
              Some n \<Rightarrow> delete_effect plan n request s
            | None \<Rightarrow> if request \<noteq> JObj [] then None else Some s))"

definition drift_snapshot :: "string \<Rightarrow> json \<Rightarrow> json" where
  "drift_snapshot fault v =
     (if fault \<in> {''identity_drift'', ''configuration_drift'', ''reference_drift''} then
        jput ''configuration'' (jput ''runtime'' (jput ''syntheticDrift'' (JBool True)
          (jget (jget v ''configuration'') ''runtime'')) (jget v ''configuration'')) v
      else if fault \<in> {''data_drift'', ''typed_data_drift'', ''schema_drift'', ''secret_drift'', ''gate_drift''} then
        jput ''productionState'' (jput ''syntheticDrift'' (JStr fault) (jget v ''productionState'')) v
      else if fault = ''version_drift'' then jput ''retainedVersion'' (JStr ''synthetic-foreign-version'') v
      else if fault = ''weights_drift'' then
        jput ''deploymentWeights'' (JObj [(jstring (jget v ''retainedVersion''), JInt 99)]) v
      else if fault = ''module_drift'' then jput ''moduleSha256'' (JStr (replicate 64 (CHR ''0''))) v
      else v)"

definition drift :: "string \<Rightarrow> provider_state \<Rightarrow> provider_state" where
  "drift fault s = s\<lparr>ps_snapshot := drift_snapshot fault (ps_snapshot s),
     ps_owned := (if fault = ''ownership_drift'' \<and> ps_owned s \<noteq> []
       then butlast (ps_owned s) @ [jput ''run'' (JStr (replicate 32 (CHR ''b''))) (last (ps_owned s))] else ps_owned s)\<rparr>"

datatype reply = Accepted json | RefusedReply | UnknownReply | Malformed | Raised

definition fault_reply :: "string option \<Rightarrow> provider_state \<Rightarrow> reply" where
  "fault_reply fault s =
     (if fault = Some ''exception'' then Raised
      else if fault = Some ''unknown'' then UnknownReply
      else if fault = Some ''malformed'' then Malformed
      else Accepted (state_json s))"

text \<open>\<open>_call\<close>\<close>

definition provider_call :: "string \<Rightarrow> json \<Rightarrow> provider \<Rightarrow> reply \<times> provider" where
  "provider_call operation request p =
     (if operation \<notin> set COMPOSITION_OPERATIONS \<union> set RECONCILE then (Raised, p)
      else let q = p\<lparr>pr_calls := pr_calls p @ [operation], pr_elapsed := pr_elapsed p + pr_tick p\<rparr>;
           fault = map_of (pr_faults p) operation in
        if fault = Some ''refused'' then (RefusedReply, q)
        else (case effect (pr_plan p) operation request (pr_state p) of
            None \<Rightarrow> (RefusedReply, q)
          | Some s \<Rightarrow> (let t = (case fault of None \<Rightarrow> s | Some f \<Rightarrow> drift f s) in
              (fault_reply fault t, q\<lparr>pr_state := t, pr_stop := pr_stop q \<or> fault = Some ''stop''\<rparr>))))"


section \<open>The journal\<close>

text \<open>
  The file with its tables, the owner marker beside it, and an open handle on them.
  \<open>jf_attempts\<close> is in the order of insertion.
\<close>

record journal_file =
  jf_plans :: "json list"
  jf_attempts :: "(string \<times> string) list"
  jf_started :: bool
  jf_marker :: "string option"

record handle =
  hd_plan :: json
  hd_token :: string
  hd_closed :: bool

definition empty_file :: journal_file where
  "empty_file = \<lparr>jf_plans = [], jf_attempts = [], jf_started = False, jf_marker = None\<rparr>"

text \<open>The exclusive creation of the marker fails with an \<open>OSError\<close>; the token is fresh.\<close>

definition open_journal :: "json \<Rightarrow> string \<Rightarrow> journal_file \<Rightarrow> handle res \<times> journal_file" where
  "open_journal plan token f =
     (case validate_plan plan of
        Inl e \<Rightarrow> (Inl e, f)
      | Inr _ \<Rightarrow>
          if jf_marker f \<noteq> None then (Inl Crash, f)
          else if jf_plans f \<noteq> [] \<and> jf_plans f \<noteq> [digest plan] then (Inl (Refused ''journal_plan_mismatch''), f)
          else (Inr \<lparr>hd_plan = plan, hd_token = token, hd_closed = False\<rparr>,
            f\<lparr>jf_plans := [digest plan], jf_marker := Some token\<rparr>))"

definition assert_owner :: "handle \<Rightarrow> journal_file \<Rightarrow> unit res" where
  "assert_owner h f = bind_res (require (\<not> hd_closed h) ''journal_closed'') (\<lambda>_.
     require (jf_marker f = Some (hd_token h)) ''journal_owner_mismatch'')"

definition start_once :: "handle \<Rightarrow> journal_file \<Rightarrow> journal_file res" where
  "start_once h f = bind_res (assert_owner h f) (\<lambda>_.
     bind_res (require (\<not> jf_started f) ''run_already_attempted'') (\<lambda>_. Inr (f\<lparr>jf_started := True\<rparr>)))"

definition operation_cap :: "json \<Rightarrow> int" where
  "operation_cap plan = (case jget plan ''operationCap'' of JInt n \<Rightarrow> n | _ \<Rightarrow> 0)"

definition latch :: "string \<Rightarrow> handle \<Rightarrow> journal_file \<Rightarrow> journal_file res" where
  "latch operation h f = bind_res (assert_owner h f) (\<lambda>_.
     bind_res (require (JStr operation \<in> set (elements (jget (hd_plan h) ''operations'')) \<or> operation \<in> set RECONCILE)
       ''operation_outside_plan'') (\<lambda>_.
     bind_res (require (int (length (jf_attempts f)) < operation_cap (hd_plan h)) ''operation_cap'') (\<lambda>_.
     bind_res (require (operation \<notin> fst ` set (jf_attempts f)) ''operation_replay'') (\<lambda>_.
     Inr (f\<lparr>jf_attempts := jf_attempts f @ [(operation, ''pending'')]\<rparr>)))))"

definition settle :: "string \<Rightarrow> string \<Rightarrow> (string \<times> string) list \<Rightarrow> (string \<times> string) list" where
  "settle operation disposition = map (\<lambda>(i, d). (i, if i = operation \<and> d = ''pending'' then disposition else d))"

text \<open>The update is committed before its count is checked.\<close>

definition finish :: "string \<Rightarrow> string \<Rightarrow> handle \<Rightarrow> journal_file \<Rightarrow> unit res \<times> journal_file" where
  "finish operation disposition h f =
     (case assert_owner h f of
        Inl e \<Rightarrow> (Inl e, f)
      | Inr _ \<Rightarrow>
          if disposition \<notin> {''accepted'', ''refused''} then (Inl (Refused ''invalid_disposition''), f)
          else (require ((operation, ''pending'') \<in> set (jf_attempts f)) ''no_pending_attempt'',
            f\<lparr>jf_attempts := settle operation disposition (jf_attempts f)\<rparr>))"

definition close_journal :: "handle \<Rightarrow> journal_file \<Rightarrow> handle \<times> journal_file" where
  "close_journal h f = (if hd_closed h then (h, f)
     else (h\<lparr>hd_closed := True\<rparr>, if jf_marker f = Some (hd_token h) then f\<lparr>jf_marker := None\<rparr> else f))"

definition pending :: "journal_file \<Rightarrow> string list" where
  "pending f = map fst (filter (\<lambda>(i, d). d = ''pending'') (jf_attempts f))"

lemma latched_iff: "latch operation h f = Inr g \<longleftrightarrow>
    assert_owner h f = Inr () \<and> (JStr operation \<in> set (elements (jget (hd_plan h) ''operations'')) \<or> operation \<in> set RECONCILE) \<and>
    int (length (jf_attempts f)) < operation_cap (hd_plan h) \<and> operation \<notin> fst ` set (jf_attempts f) \<and>
    g = f\<lparr>jf_attempts := jf_attempts f @ [(operation, ''pending'')]\<rparr>"
  by (auto simp: latch_def bind_res_Inr)

text \<open>The journal is a one-shot latch for the operations of its plan.\<close>

interpretation rj: one_shot "\<lambda>f. fst ` set (jf_attempts f)" snd "\<lambda>x. latch (snd x) (fst x)"
  by unfold_locales (auto simp: latched_iff)

end
