(* ===== verification/Composition_Lifecycle.thy ===== *)
theory Composition_Lifecycle
  imports Composition_Provider
begin

text \<open>
  \<open>rehearse_composition\<close> of \<open>scripts/temporary_composition_lifecycle.py\<close>: the one attempt
  that creates the synthetic resources, applies the temporary version, disables it, restores
  the retained one and deletes what it created, each step latched before it is dispatched
  and read back after it.
\<close>

section \<open>The attempt\<close>

text \<open>
  The provider, the journal, and the local variables of the function that its helpers
  change; \<open>at_created\<close> and \<open>at_absent\<close> are in the order of the code.
\<close>

record attempt =
  at_provider :: provider
  at_journal :: journal_file
  at_expected :: provider_state
  at_reason :: string
  at_halted :: bool
  at_cleanup :: string
  at_applied :: bool
  at_initialized :: bool
  at_uploaded :: bool
  at_created :: "nat list"
  at_absent :: "nat list"

text \<open>
  What the function is called with, and the provider call at which the process dies, if it
  does: \<open>se_dies\<close> is the number of calls before it.
\<close>

record setting =
  se_plan :: json
  se_handle :: handle
  se_base :: int
  se_stop :: bool
  se_dies :: "nat option"

definition expired :: "setting \<Rightarrow> attempt \<Rightarrow> bool" where
  "expired se a \<longleftrightarrow> outer_end (se_plan se) \<le> se_base se + pr_elapsed (at_provider a)"

definition halt :: "string \<Rightarrow> (attempt, unit) act" where
  "halt reason = modify_act (\<lambda>a. a\<lparr>at_reason := reason, at_halted := True\<rparr>)"

definition latch_act :: "setting \<Rightarrow> string \<Rightarrow> (attempt, unit) act" where
  "latch_act se operation a = (case latch operation (se_handle se) (at_journal a) of
     Inl e \<Rightarrow> (Inl e, a) | Inr f \<Rightarrow> (Inr (), a\<lparr>at_journal := f\<rparr>))"

definition finish_act :: "setting \<Rightarrow> string \<Rightarrow> string \<Rightarrow> (attempt, unit) act" where
  "finish_act se operation disposition a = (case finish operation disposition (se_handle se) (at_journal a) of
     (r, f) \<Rightarrow> (r, a\<lparr>at_journal := f\<rparr>))"

text \<open>
  A call to the provider. When the process dies at it the provider has received the call, and
  nothing of the function runs any more: \<open>Killed\<close> is not caught, and a dead process counts
  as halted.
\<close>

definition provider_act :: "setting \<Rightarrow> string \<Rightarrow> json \<Rightarrow> (attempt, reply) act" where
  "provider_act se operation request a = (case provider_call operation request (at_provider a) of
     (r, p) \<Rightarrow>
       if se_dies se = Some (length (pr_calls (at_provider a))) then (Inl Killed, a\<lparr>at_provider := p, at_halted := True\<rparr>)
       else (Inr r, a\<lparr>at_provider := p\<rparr>))"

text \<open>One reconciling read, and the two of them: the loop breaks at the outer end.\<close>

definition reconcile_one :: "setting \<Rightarrow> string \<Rightarrow> (attempt, unit) act" where
  "reconcile_one se name =
     then_act (latch_act se name)
     (bind_act (provider_act se name (JObj [])) (\<lambda>r. case r of
        Accepted _ \<Rightarrow> catch_act (finish_act se name ''accepted'') (\<lambda>_. return_act ())
      | RefusedReply \<Rightarrow> catch_act (finish_act se name ''refused'') (\<lambda>_. return_act ())
      | _ \<Rightarrow> return_act ()))"

fun reconcile :: "setting \<Rightarrow> string list \<Rightarrow> (attempt, unit) act" where
  "reconcile se [] = return_act ()"
| "reconcile se (name # names) = bind_act (gets_act (expired se)) (\<lambda>over.
     if over then return_act () else then_act (reconcile_one se name) (reconcile se names))"

text \<open>\<open>call\<close>: \<open>None\<close> stops the caller; only an accepted reply in time returns its state.\<close>

definition call :: "setting \<Rightarrow> string \<Rightarrow> json \<Rightarrow> (attempt, json option) act" where
  "call se operation request =
     bind_act (gets_act at_halted) (\<lambda>halted.
     if halted then return_act None
     else bind_act (gets_act (expired se)) (\<lambda>over.
     if over then then_act (halt ''outer_expired'') (return_act None)
     else then_act (latch_act se operation)
       (bind_act (provider_act se operation request) (\<lambda>r. case r of
          Accepted state \<Rightarrow>
            then_act (finish_act se operation ''accepted'')
            (bind_act (gets_act (expired se)) (\<lambda>late.
             if late then then_act (halt ''outer_expired'') (return_act None) else return_act (Some state)))
        | RefusedReply \<Rightarrow>
            then_act (finish_act se operation ''refused'') (then_act (halt ''operation_refused'') (return_act None))
        | _ \<Rightarrow> then_act (halt ''ambiguous_dispatch'') (then_act (reconcile se RECONCILE) (return_act None))))))"

definition observed :: "setting \<Rightarrow> string \<Rightarrow> (attempt, bool) act" where
  "observed se operation =
     bind_act (call se operation (JObj [])) (\<lambda>state.
     bind_act (gets_act at_expected) (\<lambda>expected.
     case state of
       None \<Rightarrow> return_act False
     | Some s \<Rightarrow>
         if dumps s \<noteq> dumps (state_json expected)
         then then_act (modify_act (\<lambda>a. a\<lparr>at_reason := ''independent_state_mismatch''\<rparr>)) (return_act False)
         else return_act True))"

definition work_open :: "setting \<Rightarrow> (attempt, bool) act" where
  "work_open se = bind_act (gets_act (\<lambda>a. a)) (\<lambda>a.
     if se_stop se \<or> pr_stop (at_provider a)
     then then_act (modify_act (\<lambda>a. a\<lparr>at_reason := ''stopped_before_apply''\<rparr>)) (return_act False)
     else if work_end (se_plan se) \<le> se_base se + pr_elapsed (at_provider a)
     then then_act (modify_act (\<lambda>a. a\<lparr>at_reason := ''work_expired_before_apply''\<rparr>)) (return_act False)
     else return_act True)"

definition expect :: "(provider_state \<Rightarrow> provider_state) \<Rightarrow> (attempt, unit) act" where
  "expect f = modify_act (\<lambda>a. a\<lparr>at_expected := f (at_expected a)\<rparr>)"


section \<open>The stages\<close>

text \<open>One call and, when it was accepted, an update of the local variables: whether it was.\<close>

definition called :: "setting \<Rightarrow> string \<Rightarrow> json \<Rightarrow> (attempt \<Rightarrow> attempt) \<Rightarrow> (attempt, bool) act" where
  "called se operation request f =
     bind_act (call se operation request) (\<lambda>state. if state = None then return_act False
       else then_act (modify_act f) (return_act True))"

definition created_update :: "json \<Rightarrow> nat \<Rightarrow> attempt \<Rightarrow> attempt" where
  "created_update plan n a = a\<lparr>at_created := at_created a @ [n],
     at_expected := (at_expected a)\<lparr>ps_owned := ps_owned (at_expected a) @ [resource_at plan n],
       ps_artifact := (if n = 2 then jget (additions_of plan) ''receiver'' else ps_artifact (at_expected a))\<rparr>\<rparr>"

text \<open>The creating loop: whether every resource was created and read back.\<close>

fun create_resources :: "setting \<Rightarrow> nat list \<Rightarrow> (attempt, bool) act" where
  "create_resources se [] = return_act True"
| "create_resources se (n # ns) =
     bind_act (work_open se) (\<lambda>open.
     if \<not> open then return_act False
     else bind_act (called se (numbered ''create_resource_'' n) (create_request (se_plan se) n) (created_update (se_plan se) n)) (\<lambda>ok.
     if \<not> ok then return_act False
     else bind_act (observed se (numbered ''read_resource_'' n)) (\<lambda>seen.
     if \<not> seen then return_act False else create_resources se ns)))"

definition initialized_update :: "json \<Rightarrow> attempt \<Rightarrow> attempt" where
  "initialized_update plan a = a\<lparr>at_initialized := True, at_expected := (at_expected a)\<lparr>ps_initialized := True,
     ps_admission := jput ''enabled'' (JBool True) (ps_admission (at_expected a)), ps_quota := quota_scope plan True\<rparr>\<rparr>"

definition uploaded_update :: "json \<Rightarrow> attempt \<Rightarrow> attempt" where
  "uploaded_update plan a = a\<lparr>at_uploaded := True, at_expected := (at_expected a)\<lparr>ps_uploaded := upload_request plan\<rparr>\<rparr>"

definition applied_update :: "json \<Rightarrow> attempt \<Rightarrow> attempt" where
  "applied_update plan a = a\<lparr>at_applied := True, at_expected := (at_expected a)\<lparr>ps_snapshot := temporary_part plan\<rparr>\<rparr>"

text \<open>\<open>if ready and work_open(): ready = (call accepted, then observed) else: ready = False\<close>\<close>

definition stage :: "setting \<Rightarrow> bool \<Rightarrow> string \<Rightarrow> json \<Rightarrow> (attempt \<Rightarrow> attempt) \<Rightarrow> string \<Rightarrow> (attempt, bool) act" where
  "stage se ready operation request f readback =
     (if \<not> ready then return_act False
      else bind_act (work_open se) (\<lambda>open. if \<not> open then return_act False
        else bind_act (called se operation request f) (\<lambda>ok. if \<not> ok then return_act False else observed se readback)))"

definition disabled_update :: "json \<Rightarrow> attempt \<Rightarrow> attempt" where
  "disabled_update plan a = a\<lparr>at_expected := (at_expected a)\<lparr>ps_admission := admission plan False 2, ps_quota := quota_scope plan False\<rparr>\<rparr>"

definition disable :: "setting \<Rightarrow> (attempt, bool) act" where
  "disable se = bind_act (gets_act at_initialized) (\<lambda>initialized.
     if \<not> initialized then return_act True
     else bind_act (called se ''disable_temporary'' (run_request (se_plan se)) (disabled_update (se_plan se))) (\<lambda>ok.
       if \<not> ok then return_act False else observed se ''read_disabled''))"

definition restored_update :: "json \<Rightarrow> attempt \<Rightarrow> attempt" where
  "restored_update plan a = a\<lparr>at_expected := (at_expected a)\<lparr>ps_snapshot := baseline_part plan\<rparr>\<rparr>"

definition restore :: "setting \<Rightarrow> (attempt, bool) act" where
  "restore se = bind_act (gets_act at_applied) (\<lambda>applied.
     if \<not> applied then return_act True
     else called se ''restore_retained'' (jget (jget (se_plan se) ''delta'') ''restore'') (restored_update (se_plan se)))"

definition deleted_update :: "nat \<Rightarrow> attempt \<Rightarrow> attempt" where
  "deleted_update n a = a\<lparr>at_expected := (at_expected a)\<lparr>ps_owned := butlast (ps_owned (at_expected a)),
     ps_artifact := (if n = 2 then JNull else ps_artifact (at_expected a)),
     ps_quota := (if n = 1 then JNull else ps_quota (at_expected a))\<rparr>\<rparr>"

text \<open>The deleting loop: it ends in the \<open>else\<close> of the loop when nothing broke it.\<close>

fun delete_resources :: "setting \<Rightarrow> nat list \<Rightarrow> (attempt, unit) act" where
  "delete_resources se [] = modify_act (\<lambda>a. a\<lparr>at_cleanup := ''confirmed_offline'', at_reason := ''restored_and_absent''\<rparr>)"
| "delete_resources se (n # ns) =
     bind_act (called se (numbered ''delete_resource_'' n) (resource_at (se_plan se) n) (deleted_update n)) (\<lambda>ok.
     if \<not> ok then return_act ()
     else bind_act (observed se (numbered ''read_absent_'' n)) (\<lambda>seen.
     if \<not> seen then return_act ()
     else then_act (modify_act (\<lambda>a. a\<lparr>at_absent := at_absent a @ [n]\<rparr>)) (delete_resources se ns)))"

definition clean_up :: "setting \<Rightarrow> (attempt, unit) act" where
  "clean_up se =
     bind_act (disable se) (\<lambda>stopped.
     bind_act (gets_act at_halted) (\<lambda>halted.
     if \<not> stopped \<or> halted then return_act ()
     else bind_act (restore se) (\<lambda>restored.
     if \<not> restored then return_act ()
     else bind_act (observed se ''read_restored'') (\<lambda>seen.
     if \<not> seen then return_act ()
     else bind_act (gets_act at_created) (\<lambda>created. delete_resources se (rev created))))))"

definition apply_temporary :: "setting \<Rightarrow> bool \<Rightarrow> (attempt, unit) act" where
  "apply_temporary se ready =
     (if \<not> ready then return_act ()
      else bind_act (work_open se) (\<lambda>open. if \<not> open then return_act ()
        else bind_act (called se ''apply_temporary'' (deploy_request (se_plan se)) (applied_update (se_plan se))) (\<lambda>ok.
          if \<not> ok then return_act ()
          else bind_act (observed se ''read_temporary'') (\<lambda>_. return_act ()))))"

definition not_applied :: "(attempt, unit) act" where
  "not_applied = modify_act (\<lambda>a. a\<lparr>at_cleanup := ''not_applied''\<rparr>)"

definition rehearse_body :: "setting \<Rightarrow> (attempt, unit) act" where
  "rehearse_body se =
     bind_act (work_open se) (\<lambda>open.
     if \<not> open then not_applied
     else bind_act (observed se ''read_baseline'') (\<lambda>seen.
     if \<not> seen then return_act ()
     else bind_act (work_open se) (\<lambda>still.
     if \<not> still then not_applied
     else bind_act (create_resources se [0, 1, 2]) (\<lambda>r1.
       bind_act (stage se r1 ''initialize_synthetic'' (start_request (se_plan se)) (initialized_update (se_plan se)) ''read_initialized'') (\<lambda>r2.
       bind_act (stage se r2 ''upload_version'' (upload_request (se_plan se)) (uploaded_update (se_plan se)) ''read_version'') (\<lambda>r3.
       then_act (apply_temporary se r3) (clean_up se)))))))"

definition last_reason :: "(attempt, unit) act" where
  "last_reason = modify_act (\<lambda>a. if at_reason a = ''not_started'' then a\<lparr>at_reason := ''independent_state_mismatch''\<rparr> else a)"


section \<open>The function\<close>

definition start_attempt :: "json \<Rightarrow> provider \<Rightarrow> journal_file \<Rightarrow> attempt" where
  "start_attempt plan p f = \<lparr>at_provider = p, at_journal = f, at_expected = initial_state plan, at_reason = ''not_started'',
     at_halted = False, at_cleanup = ''cleanup_unconfirmed'', at_applied = False, at_initialized = False, at_uploaded = False,
     at_created = [], at_absent = []\<rparr>"

text \<open>
  The fields of the receipt that the run decides. Left out are the constant ones
  (\<open>schemaVersion\<close>, \<open>kind\<close> and the six flags that are always false) and the digest of the
  plan.
\<close>

record composition_receipt =
  cr_cleanup :: string
  cr_reason :: string
  cr_stop_observed :: bool
  cr_attempted :: nat
  cr_pending :: "string list"
  cr_retained :: "json option"
  cr_disposition :: string
  cr_requiring :: "json list"
  cr_unacknowledged :: "string list"

definition receipt_of :: "setting \<Rightarrow> attempt \<Rightarrow> composition_receipt" where
  "receipt_of se a = \<lparr>cr_cleanup = at_cleanup a, cr_reason = at_reason a,
     cr_stop_observed = (se_stop se \<or> pr_stop (at_provider a)), cr_attempted = length (jf_attempts (at_journal a)),
     cr_pending = pending (at_journal a),
     cr_retained = (if at_uploaded a then Some (jget (additions_of (se_plan se)) ''temporaryVersion'') else None),
     cr_disposition = (if at_uploaded a then ''acknowledged_retained''
       else if (''upload_version'', ''pending'') \<in> set (jf_attempts (at_journal a)) then ''unknown'' else ''not_uploaded''),
     cr_requiring = map (resource_at (se_plan se)) (filter (\<lambda>n. n \<notin> set (at_absent a)) (at_created a)),
     cr_unacknowledged = map fst (filter (\<lambda>(i, d). take 16 i = ''create_resource_'' \<and> d = ''pending'') (jf_attempts (at_journal a)))\<rparr>"

text \<open>
  The checks in front of the run, then the run. \<open>now\<close> is \<open>None\<close> where the argument is left
  out, and \<open>dies\<close> the provider call at which the process dies, if it does; the classes of
  the provider and of the journal are their types.
\<close>

definition rehearse_composition ::
    "json \<Rightarrow> handle \<Rightarrow> journal_file \<Rightarrow> provider \<Rightarrow> pyval \<Rightarrow> pyval \<Rightarrow> nat option \<Rightarrow>
    composition_receipt res \<times> attempt" where
  "rehearse_composition plan h f p now stop dies =
     (let a = start_attempt plan p f;
          base = (case now of PNone \<Rightarrow> start_of plan | PInt n \<Rightarrow> n | _ \<Rightarrow> 0);
          se = \<lparr>se_plan = plan, se_handle = h, se_base = base, se_stop = (stop = PBool True), se_dies = dies\<rparr> in
      case bind_res (validate_plan plan) (\<lambda>_.
           bind_res (require (dumps plan = dumps (hd_plan h) \<and> dumps plan = dumps (pr_plan p)) ''plan_identity_mismatch'') (\<lambda>_.
           bind_res (require ((now = PNone \<or> (\<exists>n. now = PInt n)) \<and> start_of plan \<le> base \<and> base \<le> 2 ^ 53) ''operation_time'') (\<lambda>_.
           bind_res (require (stop \<in> {PBool True, PBool False}) ''stop_flag'') (\<lambda>_.
           bind_res (require (jf_attempts f = [] \<and> pr_calls p = []) ''run_already_attempted'') (\<lambda>_.
           start_once h f))))) of
        Inl e \<Rightarrow> (Inl e, a)
      | Inr g \<Rightarrow> (case then_act (rehearse_body se) last_reason (a\<lparr>at_journal := g\<rparr>) of
            (Inl e, b) \<Rightarrow> (Inl e, b)
          | (Inr _, b) \<Rightarrow> (Inr (receipt_of se b), b)))"

end
