(* ===== verification/Composition_Properties.thy ===== *)
theory Composition_Properties
  imports Composition_Delta Encoding_Lengths
begin

text \<open>
  The properties of the temporary composition delta: the additions come off again without a
  trace, they touch nothing production refers to, and a delta validates exactly when it is
  the one its baseline and additions build.
\<close>

section \<open>Access\<close>

lemma map_of_put: "map_of (put k x kvs) j = (if j = k then Some x else map_of kvs j)"
  by (induction kvs) auto

lemma jget_jput [simp]: "jget (jput k x v) j = (if j = k then x else jget v j)"
  by (simp add: jget_def jput_def items_def map_of_put)

lemma put_same: "map_of kvs k = Some x \<Longrightarrow> put k x kvs = kvs"
  by (induction kvs) auto

lemma put_put: "put k x (put k y kvs) = put k x kvs"
  by (induction kvs) auto

lemma put_commute: "map_of kvs k = Some a \<Longrightarrow> map_of kvs j = Some b \<Longrightarrow> k \<noteq> j \<Longrightarrow> put k x (put j y kvs) = put j y (put k x kvs)"
  by (induction kvs) auto

lemma jput_same:
  assumes "is_obj v" and "k \<in> set (map fst (items v))"
  shows "jput k (jget v k) v = v"
proof -
  from assms(2) obtain x where x: "map_of (items v) k = Some x" by (metis map_of_eq_None_iff image_set not_None_eq)
  obtain kvs where v: "v = JObj kvs" using assms(1) by (cases v) (auto simp: is_obj_def)
  with x show ?thesis by (simp add: jput_def jget_def put_same items_def)
qed

lemma jput_obj [simp]: "is_obj (jput k x v)"
  by (simp add: jput_def is_obj_def)

lemma jput_keys: "set (map fst (items (jput k x v))) = insert k (set (map fst (items v)))"
proof -
  have "fst ` set (put k x kvs) = insert k (fst ` set kvs)" for kvs
    by (induction k x kvs rule: put.induct) auto
  then show ?thesis by (simp add: jput_def items_def)
qed

lemma keys_are_Inr: "keys_are v ks r = Inr u \<longleftrightarrow> is_obj v \<and> set (map fst (items v)) = set ks"
  by (simp add: keys_are_def)

lemma arr_elements: "is_arr v \<Longrightarrow> JArr (elements v) = v"
  by (cases v) (simp_all add: is_arr_def elements_def)


section \<open>Inventories\<close>

lemma scan_bindings_names:
  "scan_bindings seen bs = Inr names \<Longrightarrow> set names = set seen \<union> (\<lambda>b. jstring (jget b ''name'')) ` set bs"
  by (induction seen bs rule: scan_bindings.induct) auto

lemma bindings_names:
  "bindings v = Inr names \<Longrightarrow> is_arr v \<and> set names = (\<lambda>b. jstring (jget b ''name'')) ` set (elements v)"
  by (auto simp: bindings_def dest: scan_bindings_names)

lemma scan_resources_ids:
  "scan_resources owner seen rs = Inr ids \<Longrightarrow> set ids = set seen \<union> (\<lambda>r. jstring (jget r ''identity'')) ` set rs"
  by (induction owner seen rs rule: scan_resources.induct) (auto simp: bind_res_Inr split: option.splits)

lemma scan_resources_identity:
  "scan_resources owner seen rs = Inr ids \<Longrightarrow> r \<in> set rs \<Longrightarrow> jget r ''identity'' \<in> JStr ` UNIV"
proof (induction owner seen rs rule: scan_resources.induct)
  case (2 owner ids r rs)
  then show ?case by (auto simp: bind_res_Inr identity_def split: json.splits)
qed simp

lemma resources_ids:
  "resources owner v = Inr ids \<Longrightarrow> is_arr v \<and> set ids = (\<lambda>r. jstring (jget r ''identity'')) ` set (elements v)"
  by (auto simp: resources_def dest: scan_resources_ids)

text \<open>What the rules of a built delta say of its inventories.\<close>

lemma built_inventories:
  assumes "build_delta baseline additions = Inr delta"
  obtains names existing ids refs where "delta = delta_of baseline additions"
    and "keys_are (jget baseline ''configuration'') CONFIG_KEYS ''complete_configuration_required'' = Inr ()"
    and "bindings (jget (jget baseline ''configuration'') ''bindings'') = Inr existing"
    and "bindings (jget additions ''bindings'') = Inr names" and "set names \<inter> set existing = {}"
    and "resources (Some (jstring (jget additions ''run''))) (jget additions ''resources'') = Inr ids"
    and "production_references (jget baseline ''configuration'') = Inr refs" and "set ids \<inter> set refs = {}"
    and "jget (jget baseline ''target'') ''scriptName'' \<notin> JStr ` set ids"
    and "map (\<lambda>b. jget b ''type'') (elements (jget additions ''bindings'')) = [JStr ''d1'', JStr ''d1'', JStr ''service'', JStr ''plain_text'']"
    and "map (\<lambda>r. jget r ''kind'') (elements (jget additions ''resources'')) = [JStr ''d1'', JStr ''d1'', JStr ''worker'']"
    and "each_res pair_rule (zip (take 3 (elements (jget additions ''bindings''))) (elements (jget additions ''resources''))) = Inr ()"
proof -
  from assms have base: "validate_baseline baseline = Inr ()" and add: "addition_rules baseline additions = Inr ()"
    and d: "delta = delta_of baseline additions"
    by (auto simp: build_delta_def bind_res_Inr)
  from base have config: "keys_are (jget baseline ''configuration'') CONFIG_KEYS ''complete_configuration_required'' = Inr ()"
    by (auto simp: validate_baseline_def config_rules_def bind_res_Inr)
  from add have "inventory_rules baseline additions (jstring (jget additions ''run'')) = Inr ()"
    by (auto simp: addition_rules_def bind_res_Inr Let_def)
  then show ?thesis
    using that [OF d config] by (auto simp: inventory_rules_def bind_res_Inr Let_def)
qed


section \<open>The depth of a value\<close>

text \<open>The recursion of \<open>_json\<close> stops at depth 33; what it accepts is nested 32 deep at most.\<close>

fun nesting :: "json \<Rightarrow> nat" where
  "nesting (JObj kvs) = fold max (map (\<lambda>(k, x). Suc (nesting x)) kvs) 0"
| "nesting (JArr xs) = fold max (map (\<lambda>x. Suc (nesting x)) xs) 0"
| "nesting JNull = 0"
| "nesting (JBool b) = 0"
| "nesting (JInt n) = 0"
| "nesting (JStr s) = 0"

lemma fold_max_le: "fold max xs a \<le> b \<longleftrightarrow> a \<le> b \<and> (\<forall>x\<in>set xs. x \<le> b)" for a b :: nat
  by (induction xs arbitrary: a) auto

lemma check_json_nesting: "check_json depth v = Inr () \<longleftrightarrow> depth + nesting v \<le> 32"
proof -
  have split: "depth + fold max ns 0 \<le> 32 \<longleftrightarrow> depth \<le> 32 \<and> (\<forall>n\<in>set ns. depth + n \<le> 32)" for depth :: nat and ns
    using fold_max_le [of ns 0 "32 - depth"] by (cases "depth \<le> 32") auto
  show ?thesis
  proof (induction depth v rule: check_json.induct)
    case (1 depth kvs)
    then show ?case by (auto simp: split each_res_Inr simp del: add_Suc_right simp flip: add_Suc_right)
  next
    case (2 depth xs)
    then show ?case by (auto simp: split each_res_Inr)
  qed simp_all
qed


section \<open>Taking the additions off\<close>

text \<open>The configuration without the bindings and the resources the additions name.\<close>

definition without :: "string \<Rightarrow> string \<Rightarrow> json \<Rightarrow> json \<Rightarrow> json" where
  "without section key additions config = jput section (JArr (filter
     (\<lambda>x. jget x key \<notin> (\<lambda>a. jget a key) ` set (elements (jget additions section)))
     (elements (jget config section)))) config"

definition withdraw :: "json \<Rightarrow> json \<Rightarrow> json" where
  "withdraw additions config = without ''resources'' ''identity'' additions (without ''bindings'' ''name'' additions config)"

lemma jput_jput: "jput k x (jput k y v) = jput k x v"
  by (simp add: jput_def items_def put_put)

lemma jput_commute:
  assumes "k \<in> set (map fst (items v))" and "j \<in> set (map fst (items v))" and "k \<noteq> j"
  shows "jput k x (jput j y v) = jput j y (jput k x v)"
proof -
  from assms obtain a b where "map_of (items v) k = Some a" "map_of (items v) j = Some b"
    by (metis map_of_eq_None_iff image_set not_None_eq)
  from put_commute [OF this assms(3), of x y] show ?thesis by (simp add: jput_def items_def)
qed

lemma filter_appended:
  assumes "\<And>x a. x \<in> set xs \<Longrightarrow> a \<in> set ys \<Longrightarrow> f x \<noteq> f a"
  shows "filter (\<lambda>x. f x \<notin> f ` set ys) (xs @ ys) = xs"
proof -
  have "filter (\<lambda>x. f x \<notin> f ` set ys) xs = xs" using assms by (auto simp: filter_id_conv)
  moreover have "filter (\<lambda>x. f x \<notin> f ` set ys) ys = []" by (auto simp: filter_empty_conv)
  ultimately show ?thesis by simp
qed

lemma without_extend:
  assumes "\<And>x a. x \<in> set (elements (jget config k)) \<Longrightarrow> a \<in> set (elements (jget additions k)) \<Longrightarrow> jget x key \<noteq> jget a key"
    and "is_arr (jget config k)" and "is_obj config" and "k \<in> set (map fst (items config))"
  shows "without k key additions (extend k additions config) = config"
proof -
  have "elements (jget (extend k additions config) k) = elements (jget config k) @ elements (jget additions k)"
    by (simp add: extend_def elements_def)
  then have "without k key additions (extend k additions config) = jput k (JArr (elements (jget config k))) config"
    using filter_appended [of "elements (jget config k)" "elements (jget additions k)" "\<lambda>x. jget x key"] assms(1)
    by (simp add: without_def extend_def jput_jput)
  also have "\<dots> = config" using assms(2-4) by (simp add: arr_elements jput_same)
  finally show ?thesis .
qed

lemma disjoint_keys:
  assumes "A = (\<lambda>x. jstring (jget x key)) ` set xs" and "B = (\<lambda>x. jstring (jget x key)) ` set ys" and "A \<inter> B = {}"
    and "x \<in> set xs" and "y \<in> set ys"
  shows "jget x key \<noteq> jget y key"
  using assms by fastforce

lemma extend_commute:
  assumes "k \<in> set (map fst (items config))" and "j \<in> set (map fst (items config))" and "k \<noteq> j"
  shows "extend k additions (extend j additions config) = extend j additions (extend k additions config)"
  using jput_commute [OF assms] assms(3) by (simp add: extend_def)

lemma withdraw_extended:
  assumes b: "\<And>x a. x \<in> set (elements (jget config ''bindings'')) \<Longrightarrow> a \<in> set (elements (jget additions ''bindings'')) \<Longrightarrow>
      jget x ''name'' \<noteq> jget a ''name''"
    and r: "\<And>x a. x \<in> set (elements (jget config ''resources'')) \<Longrightarrow> a \<in> set (elements (jget additions ''resources'')) \<Longrightarrow>
      jget x ''identity'' \<noteq> jget a ''identity''"
    and arr: "is_arr (jget config ''bindings'')" "is_arr (jget config ''resources'')" and obj: "is_obj config"
    and ks: "''bindings'' \<in> set (map fst (items config))" "''resources'' \<in> set (map fst (items config))"
  shows "withdraw additions (extend ''resources'' additions (extend ''bindings'' additions config)) = config"
proof -
  let ?r = "extend ''resources'' additions config"
  have swap: "extend ''resources'' additions (extend ''bindings'' additions config) = extend ''bindings'' additions ?r"
    by (rule extend_commute) (use ks in auto)
  have "without ''bindings'' ''name'' additions (extend ''bindings'' additions ?r) = ?r"
  proof (rule without_extend)
    show "jget x ''name'' \<noteq> jget a ''name''"
      if "x \<in> set (elements (jget ?r ''bindings''))" "a \<in> set (elements (jget additions ''bindings''))" for x a
      using b that by (simp add: extend_def)
    show "is_arr (jget ?r ''bindings'')" using arr(1) by (simp add: extend_def)
    show "is_obj ?r" by (simp add: extend_def)
    show "''bindings'' \<in> set (map fst (items ?r))" using ks(1) jput_keys by (simp add: extend_def)
  qed
  then show ?thesis
    using without_extend [OF r arr(2) obj ks(2)] by (simp add: withdraw_def swap)
qed


section \<open>Properties\<close>

text \<open>
  C14: a temporary composition is reversible: in a built delta, removing from the temporary
  configuration the bindings named and the resources identified by the additions gives back
  the baseline configuration exactly; the additions stand behind everything the baseline
  has, and every other section of the configuration is unchanged. Of the other fields of the
  baseline exactly three are replaced: the retained version is the temporary one of the
  additions, the module digest is theirs, and the weights give that version 100 percent. The
  delta carries the baseline itself, and the restoration pins its retained version at 100
  percent.
\<close>

theorem composition_reversible:
  assumes "build_delta baseline additions = Inr delta"
  shows "withdraw additions (jget (jget delta ''temporary'') ''configuration'') = jget baseline ''configuration'' \<and>
    jget (jget (jget delta ''temporary'') ''configuration'') ''bindings'' =
      JArr (elements (jget (jget baseline ''configuration'') ''bindings'') @ elements (jget additions ''bindings'')) \<and>
    jget (jget (jget delta ''temporary'') ''configuration'') ''resources'' =
      JArr (elements (jget (jget baseline ''configuration'') ''resources'') @ elements (jget additions ''resources'')) \<and>
    (\<forall>k. k \<notin> {''bindings'', ''resources''} \<longrightarrow>
      jget (jget (jget delta ''temporary'') ''configuration'') k = jget (jget baseline ''configuration'') k) \<and>
    (\<forall>k. k \<notin> {''retainedVersion'', ''moduleSha256'', ''deploymentWeights'', ''configuration''} \<longrightarrow>
      jget (jget delta ''temporary'') k = jget baseline k) \<and>
    jget (jget delta ''temporary'') ''retainedVersion'' = jget additions ''temporaryVersion'' \<and>
    jget (jget delta ''temporary'') ''moduleSha256'' = jget additions ''moduleSha256'' \<and>
    jget (jget delta ''temporary'') ''deploymentWeights'' =
      JObj [(jstring (jget additions ''temporaryVersion''), JInt 100)] \<and>
    jget delta ''baseline'' = baseline \<and>
    jget (jget delta ''restore'') ''versions'' =
      JArr [JObj [(''version_id'', jget baseline ''retainedVersion''), (''percentage'', JInt 100)]]"
proof -
  let ?c = "jget baseline ''configuration''"
  obtain names existing ids refs where d: "delta = delta_of baseline additions"
    and config: "keys_are ?c CONFIG_KEYS ''complete_configuration_required'' = Inr ()"
    and existing: "bindings (jget ?c ''bindings'') = Inr existing" and names: "bindings (jget additions ''bindings'') = Inr names"
    and apart: "set names \<inter> set existing = {}"
    and ids: "resources (Some (jstring (jget additions ''run''))) (jget additions ''resources'') = Inr ids"
    and refs: "production_references ?c = Inr refs" "set ids \<inter> set refs = {}"
    by (rule built_inventories [OF assms])
  obtain own where own: "resources None (jget ?c ''resources'') = Inr own" "set own \<subseteq> set refs"
    using refs(1) by (auto simp: production_references_def bind_res_Inr)
  have temporary: "jget delta ''temporary'' = temporary_of baseline additions"
    and rest: "jget delta ''baseline'' = baseline" "jget (jget delta ''restore'') ''versions'' =
      JArr [JObj [(''version_id'', jget baseline ''retainedVersion''), (''percentage'', JInt 100)]]"
    by (simp_all add: d delta_of_def jget_def items_def)
  have conf: "jget (temporary_of baseline additions) ''configuration'' =
      extend ''resources'' additions (extend ''bindings'' additions ?c)"
    by (simp add: temporary_of_def Let_def)
  have "withdraw additions (extend ''resources'' additions (extend ''bindings'' additions ?c)) = ?c"
  proof (rule withdraw_extended)
    show "jget x ''name'' \<noteq> jget a ''name''"
      if "x \<in> set (elements (jget ?c ''bindings''))" "a \<in> set (elements (jget additions ''bindings''))" for x a
      by (rule disjoint_keys [OF conjunct2 [OF bindings_names [OF existing]] conjunct2 [OF bindings_names [OF names]] _ that])
        (use apart in blast)
    show "jget x ''identity'' \<noteq> jget a ''identity''"
      if "x \<in> set (elements (jget ?c ''resources''))" "a \<in> set (elements (jget additions ''resources''))" for x a
      by (rule disjoint_keys [OF conjunct2 [OF resources_ids [OF own(1)]] conjunct2 [OF resources_ids [OF ids]] _ that])
        (use refs(2) own(2) in blast)
    show "is_arr (jget ?c ''bindings'')" "is_arr (jget ?c ''resources'')"
      using bindings_names [OF existing] resources_ids [OF own(1)] by simp_all
    show "is_obj ?c" "''bindings'' \<in> set (map fst (items ?c))" "''resources'' \<in> set (map fst (items ?c))"
      using config by (simp_all add: keys_are_Inr CONFIG_KEYS_def del: set_map)
  qed
  then show ?thesis
    unfolding temporary conf rest by (simp add: extend_def temporary_of_def Let_def)
qed

text \<open>
  The additions touch nothing of production: no identity they add occurs among the
  resources, the opaque fields of the bindings or the referring sections of the baseline, or
  is the production script; and each of the first three added bindings points at the added
  resource at its place, so none points into production.
\<close>

theorem composition_isolated:
  assumes "build_delta baseline additions = Inr delta" and "i < 3"
  shows "\<exists>refs. production_references (jget baseline ''configuration'') = Inr refs \<and>
    jstring (jget (elements (jget additions ''resources'') ! i) ''identity'') \<notin> set refs \<and>
    jget (elements (jget additions ''resources'') ! i) ''identity'' \<noteq> jget (jget baseline ''target'') ''scriptName'' \<and>
    jget (elements (jget additions ''bindings'') ! i) (if i < 2 then ''database_id'' else ''service'') =
      jget (elements (jget additions ''resources'') ! i) ''identity''"
proof -
  let ?bs = "elements (jget additions ''bindings'')" and ?rs = "elements (jget additions ''resources'')"
  obtain names existing ids refs where
    ids: "resources (Some (jstring (jget additions ''run''))) (jget additions ''resources'') = Inr ids"
    and refs: "production_references (jget baseline ''configuration'') = Inr refs" "set ids \<inter> set refs = {}"
    and script: "jget (jget baseline ''target'') ''scriptName'' \<notin> JStr ` set ids"
    and types: "map (\<lambda>b. jget b ''type'') ?bs = [JStr ''d1'', JStr ''d1'', JStr ''service'', JStr ''plain_text'']"
    and kinds: "map (\<lambda>r. jget r ''kind'') ?rs = [JStr ''d1'', JStr ''d1'', JStr ''worker'']"
    and pairs: "each_res pair_rule (zip (take 3 ?bs) ?rs) = Inr ()"
    by (rule built_inventories [OF assms(1)])
  have len: "length ?bs = 4" "length ?rs = 3" using arg_cong [OF types, of length] arg_cong [OF kinds, of length] by simp_all
  have r: "?rs ! i \<in> set ?rs" using assms(2) len by simp
  then have id: "jstring (jget (?rs ! i) ''identity'') \<in> set ids" using resources_ids [OF ids] by blast
  have "jget (?rs ! i) ''identity'' \<in> JStr ` UNIV"
    using ids r by (auto simp: resources_def dest: scan_resources_identity)
  then have str: "jget (?rs ! i) ''identity'' = JStr (jstring (jget (?rs ! i) ''identity''))" by (auto simp: jstring_def)
  have "(?bs ! i, ?rs ! i) \<in> set (zip (take 3 ?bs) ?rs)"
    using assms(2) len by (auto simp: in_set_zip intro: exI [of _ i])
  with pairs have "pair_rule (?bs ! i, ?rs ! i) = Inr ()" by (simp add: each_res_Inr)
  moreover have "jget (?bs ! i) ''type'' = [JStr ''d1'', JStr ''d1'', JStr ''service'', JStr ''plain_text''] ! i"
    using arg_cong [OF types, of "\<lambda>xs. xs ! i"] assms(2) len by simp
  moreover have "i = 0 \<or> i = 1 \<or> i = 2" using assms(2) by auto
  ultimately have "jget (?bs ! i) (if i < 2 then ''database_id'' else ''service'') = jget (?rs ! i) ''identity''"
    by (auto simp: pair_rule_def Let_def bind_res_Inr)
  with refs id script str show ?thesis by (metis IntI empty_iff image_eqI)
qed

lemma bounded_iff: "bounded v = Inr () \<longleftrightarrow> nesting v \<le> 32 \<and> int (length (dumps v)) \<le> MAX_BYTES"
  using check_json_nesting [of 0 v] by (simp add: bounded_def bind_res_Inr)

lemma built_validates:
  assumes b: "build_delta baseline additions = Inr delta"
  shows "validate_delta delta = Inr () \<longleftrightarrow> nesting delta \<le> 32 \<and> int (length (dumps delta)) \<le> MAX_BYTES"
proof -
  from b have d: "delta = delta_of baseline additions" by (auto simp: build_delta_def bind_res_Inr)
  then have "jget delta ''baseline'' = baseline" "jget delta ''additions'' = additions"
    by (simp_all add: delta_of_def jget_def items_def)
  moreover have "keys_are delta DELTA_KEYS ''delta_fields'' = Inr ()"
    by (simp add: d delta_of_def keys_are_Inr DELTA_KEYS_def is_obj_def items_def insert_commute)
  ultimately show ?thesis
    by (simp add: validate_delta_def b bind_res_Inr bounded_iff)
qed

text \<open>
  A delta validates exactly when it is built: the delta that a baseline and additions
  build is refused only where it is nested more than 32 deep or its canonical text is longer
  than the bound, and a delta that validates builds from its own baseline and additions,
  equal to the result in canonical text.
\<close>

theorem composition_validates:
  "(build_delta baseline additions = Inr delta \<longrightarrow>
     (validate_delta delta = Inr () \<longleftrightarrow> nesting delta \<le> 32 \<and> int (length (dumps delta)) \<le> MAX_BYTES)) \<and>
   (validate_delta other = Inr () \<longrightarrow>
     (\<exists>expected. build_delta (jget other ''baseline'') (jget other ''additions'') = Inr expected \<and> dumps other = dumps expected))"
  using built_validates by (auto simp: validate_delta_def bind_res_Inr)


section \<open>A concrete case\<close>

definition case_run :: string where "case_run = replicate 32 (CHR ''a'')"

definition case_target :: "string \<Rightarrow> json" where
  "case_target script = JObj [(''accountId'', JStr ''synthetic-account''), (''scriptName'', JStr script)]"

definition case_config :: "json list \<Rightarrow> json list \<Rightarrow> (string \<times> json) list \<Rightarrow> json list \<Rightarrow> json" where
  "case_config bs rs secrets routes = JObj [(''bindings'', JArr bs), (''resources'', JArr rs),
     (''runtime'', JObj [(''compatibility_date'', JStr ''2026-10-15'')]), (''assets'', JObj []), (''classLifecycle'', JObj []),
     (''secretReferences'', JObj secrets), (''attachment'', JObj []), (''routes'', JArr routes), (''domains'', JArr []),
     (''effectiveEdge'', JObj []),
     (''capabilities'', JObj [(''intake'', JBool False), (''dispatch'', JBool False), (''thumbnail'', JBool False)])]"

definition case_baseline :: json where
  "case_baseline = JObj [(''schemaVersion'', JInt 1), (''kind'', JStr ''temporary_composition_baseline''),
     (''target'', case_target ''ordinary-worker''), (''retainedVersion'', JStr ''original-version''),
     (''deploymentWeights'', JObj [(''original-version'', JInt 100)]), (''moduleSha256'', JStr (replicate 64 (CHR ''1''))),
     (''configuration'', case_config
       [JObj [(''name'', JStr ''PRODUCTION_DB''), (''type'', JStr ''d1''), (''database_id'', JStr ''ordinary-db'')]]
       [JObj [(''kind'', JStr ''d1''), (''identity'', JStr ''ordinary-db'')]]
       [(''INSTALLATION_SECRET'', JObj [(''reference'', JStr ''opaque-generation-7'')])]
       [JObj [(''pattern'', JStr ''example.invalid'')]]),
     (''productionState'', JObj [(''schema'', JStr ''ordinary-v1'')])]"

definition case_bindings :: "json list" where
  "case_bindings = [JObj [(''name'', JStr ''Q_DB''), (''type'', JStr ''d1''), (''database_id'', JStr ''synthetic-db'')],
     JObj [(''name'', JStr ''Q_QUOTA''), (''type'', JStr ''d1''), (''database_id'', JStr ''synthetic-quota'')],
     JObj [(''name'', JStr ''Q_RECEIVER''), (''type'', JStr ''service''), (''service'', JStr ''synthetic-receiver'')],
     JObj [(''name'', JStr ''Q_CAP''), (''type'', JStr ''plain_text''), (''text'', JStr (replicate 64 (CHR ''b'')))]]"

definition case_resources :: "json list" where
  "case_resources = map (\<lambda>(k, i). JObj [(''kind'', JStr k), (''identity'', JStr i), (''run'', JStr case_run)])
     [(''d1'', ''synthetic-db''), (''d1'', ''synthetic-quota''), (''worker'', ''synthetic-receiver'')]"

definition case_additions :: json where
  "case_additions = JObj [(''run'', JStr case_run), (''temporaryVersion'', JStr ''temporary-version''),
     (''moduleSha256'', JStr (replicate 64 (CHR ''2''))), (''bindings'', JArr case_bindings), (''resources'', JArr case_resources),
     (''receiver'', JObj [(''binding'', JStr ''Q_RECEIVER''), (''identity'', JStr ''synthetic-receiver''), (''run'', JStr case_run),
       (''target'', case_target ''synthetic-receiver''),
       (''configuration'', case_config [case_bindings ! 1, case_bindings ! 3] [case_resources ! 1] [] []),
       (''moduleSha256'', JStr (replicate 64 (CHR ''3'')))]),
     (''scope'', JObj [(''run'', JStr case_run), (''startsAt'', JInt 1000), (''expiresAt'', JInt 601000),
       (''canary'', JStr (replicate 64 (CHR ''c''))),
       (''bindingKeys'', JObj [(''syntheticDb'', JStr ''Q_DB''), (''quotaDb'', JStr ''Q_QUOTA''),
         (''receiver'', JStr ''Q_RECEIVER''), (''capability'', JStr ''Q_CAP'')])])]"

lemma case_baseline_ok: "validate_baseline case_baseline = Inr ()"
  by code_simp

lemmas case_simps = case_baseline_def case_additions_def case_config_def case_target_def case_bindings_def
  case_resources_def case_run_def MAX_BYTES_def py_str_int_def nat_digits.simps

lemma case_temporary: "temporary_of case_baseline case_additions = JObj [(''schemaVersion'', JInt 1), (''kind'', JStr ''temporary_composition_baseline''),
     (''target'', case_target ''ordinary-worker''), (''retainedVersion'', JStr ''temporary-version''),
     (''deploymentWeights'', JObj [(''temporary-version'', JInt 100)]), (''moduleSha256'', JStr (replicate 64 (CHR ''2''))),
     (''configuration'', case_config
       (JObj [(''name'', JStr ''PRODUCTION_DB''), (''type'', JStr ''d1''), (''database_id'', JStr ''ordinary-db'')] # case_bindings)
       (JObj [(''kind'', JStr ''d1''), (''identity'', JStr ''ordinary-db'')] # case_resources)
       [(''INSTALLATION_SECRET'', JObj [(''reference'', JStr ''opaque-generation-7'')])]
       [JObj [(''pattern'', JStr ''example.invalid'')]]),
     (''productionState'', JObj [(''schema'', JStr ''ordinary-v1'')])]"
  by code_simp

lemma case_nesting: "nesting case_additions = 5"
  by (simp add: case_simps)

lemma case_text: "text_bound case_additions \<le> MAX_BYTES"
  by (simp add: case_simps)

lemma bounded_text_bound: "check_json 0 v = Inr () \<Longrightarrow> text_bound v \<le> MAX_BYTES \<Longrightarrow> bounded v = Inr ()"
  using dumps_text_bound [of v] by (simp add: bounded_def)

lemma case_bounded: "bounded case_additions = Inr ()"
  by (rule bounded_text_bound) (simp_all add: check_json_nesting case_nesting case_text)

lemma case_inventory: "inventory_rules case_baseline case_additions case_run = Inr ()"
  by code_simp

lemma case_scope: "scope_rules case_additions case_run = Inr ()"
  by code_simp

lemma case_receiver: "receiver_rules case_baseline case_additions case_run = Inr ()"
  by code_simp

lemma case_heads: "map (jget case_additions) [''run'', ''temporaryVersion'', ''moduleSha256''] =
    [JStr case_run, JStr ''temporary-version'', JStr (replicate 64 (CHR ''2''))] \<and>
    keys_are case_additions ADDITION_KEYS ''addition_fields'' = Inr () \<and>
    jget case_baseline ''retainedVersion'' = JStr ''original-version'' \<and>
    hex_text 32 (JStr case_run) \<and> identity (JStr ''temporary-version'') \<and> hex_text 64 (JStr (replicate 64 (CHR ''2'')))"
  by code_simp

lemma case_additions_ok: "addition_rules case_baseline case_additions = Inr ()"
  using case_heads
  by (simp add: addition_rules_def case_bounded case_inventory case_scope case_receiver jstring_def)

lemma case_built: "build_delta case_baseline case_additions = Inr (delta_of case_baseline case_additions)"
  by (simp add: build_delta_def case_baseline_ok case_additions_ok)

lemma composition_reversible_witness:
  "withdraw case_additions (jget (temporary_of case_baseline case_additions) ''configuration'') = jget case_baseline ''configuration''"
proof -
  have "jget (delta_of case_baseline case_additions) ''temporary'' = temporary_of case_baseline case_additions"
    by (simp add: delta_of_def jget_def items_def)
  with composition_reversible [OF case_built] show ?thesis by simp
qed

lemma composition_isolated_witness:
  "\<exists>refs. production_references (jget case_baseline ''configuration'') = Inr refs \<and> ''synthetic-quota'' \<notin> set refs"
proof -
  have "jstring (jget (elements (jget case_additions ''resources'') ! 1) ''identity'') = ''synthetic-quota''" by code_simp
  with composition_isolated [OF case_built, of 1] show ?thesis by auto
qed

text \<open>The built delta, its two digests apart, is within the bounds.\<close>

lemma case_delta_bounded: "nesting (delta_of case_baseline case_additions) \<le> 32 \<and>
    int (length (dumps (delta_of case_baseline case_additions))) \<le> MAX_BYTES"
proof -
  have "text_bound (temporary_of case_baseline case_additions) \<le> 20000"
    unfolding case_temporary by (simp add: case_simps)
  moreover have "text_bound case_baseline \<le> 20000" "text_bound case_additions \<le> 20000"
    by (simp_all add: case_simps)
  moreover have "length (sha256_hex s) = 64" for s
    using sha256_hex_text by blast
  moreover have case_retained: "jget case_baseline ''retainedVersion'' = JStr ''original-version''" by code_simp
  ultimately have "text_bound (delta_of case_baseline case_additions) \<le> MAX_BYTES"
    by (simp add: delta_of_def digest_def case_retained MAX_BYTES_def py_str_int_def nat_digits.simps)
  then have "int (length (dumps (delta_of case_baseline case_additions))) \<le> MAX_BYTES"
    using dumps_text_bound order_trans by blast
  moreover have "nesting (delta_of case_baseline case_additions) \<le> 32"
    unfolding delta_of_def digest_def case_temporary case_retained by (simp add: case_simps)
  ultimately show ?thesis by blast
qed

lemma composition_validates_witness: "validate_delta (delta_of case_baseline case_additions) = Inr ()"
  using composition_validates case_built case_delta_bounded by blast

text \<open>The same without the claims, for the plan that is built on it.\<close>

lemma case_delta_validates: "validate_delta (delta_of case_baseline case_additions) = Inr ()"
  using built_validates [OF case_built] case_delta_bounded by blast

end
