(* ===== verification/Composition_Safety.thy ===== *)
theory Composition_Safety
  imports Composition_Lifecycle Composition_Properties
begin

text \<open>
  The trace of a rehearsal: every dispatch is latched first and at most once, the first
  operation that is not acknowledged ends the attempt, and the journal agrees with the
  provider. The properties are in \<open>Composition_Attempt\<close>.
\<close>

section \<open>The operations\<close>

lemma operations: "COMPOSITION_OPERATIONS = [''read_baseline'', ''create_resource_0'', ''read_resource_0'', ''create_resource_1'',
    ''read_resource_1'', ''create_resource_2'', ''read_resource_2'', ''initialize_synthetic'', ''read_initialized'',
    ''upload_version'', ''read_version'', ''apply_temporary'', ''read_temporary'', ''disable_temporary'', ''read_disabled'',
    ''restore_retained'', ''read_restored'', ''delete_resource_2'', ''read_absent_2'', ''delete_resource_1'',
    ''read_absent_1'', ''delete_resource_0'', ''read_absent_0'']"
  by code_simp

lemma numbered_names:
  "numbered ''create_resource_'' 0 = ''create_resource_0''" "numbered ''create_resource_'' 1 = ''create_resource_1''"
  "numbered ''create_resource_'' 2 = ''create_resource_2''" "numbered ''read_resource_'' 0 = ''read_resource_0''"
  "numbered ''read_resource_'' 1 = ''read_resource_1''" "numbered ''read_resource_'' 2 = ''read_resource_2''"
  "numbered ''delete_resource_'' 0 = ''delete_resource_0''" "numbered ''delete_resource_'' 1 = ''delete_resource_1''"
  "numbered ''delete_resource_'' 2 = ''delete_resource_2''" "numbered ''read_absent_'' 0 = ''read_absent_0''"
  "numbered ''read_absent_'' 1 = ''read_absent_1''" "numbered ''read_absent_'' 2 = ''read_absent_2''"
  by code_simp+

lemma reconcile_apart: "set RECONCILE \<inter> set COMPOSITION_OPERATIONS = {}"
  by (simp add: RECONCILE_def operations)

lemma operations_distinct: "distinct (COMPOSITION_OPERATIONS @ RECONCILE)"
  by (simp add: RECONCILE_def operations)


section \<open>One call\<close>

text \<open>The attempts that were not acknowledged, from the first on: only reads may follow it.\<close>

definition failed :: "(string \<times> string) list \<Rightarrow> (string \<times> string) list" where
  "failed = dropWhile (\<lambda>(i, d). d = ''accepted'')"

definition fails_once :: "(string \<times> string) list \<Rightarrow> bool" where
  "fails_once xs \<longleftrightarrow> (case failed xs of
     [] \<Rightarrow> True
   | (i, d) # rest \<Rightarrow> i \<in> set COMPOSITION_OPERATIONS \<and>
       (d = ''refused'' \<and> rest = [] \<or> d = ''pending'' \<and> fst ` set rest \<subseteq> set RECONCILE))"

definition agrees :: "attempt \<Rightarrow> bool" where
  "agrees a \<longleftrightarrow> pr_calls (at_provider a) = map fst (jf_attempts (at_journal a)) \<and>
     distinct (map fst (jf_attempts (at_journal a))) \<and>
     fst ` set (jf_attempts (at_journal a)) \<subseteq> set COMPOSITION_OPERATIONS \<union> set RECONCILE \<and>
     fails_once (jf_attempts (at_journal a)) \<and> (at_halted a \<or> failed (jf_attempts (at_journal a)) = []) \<and>
     set (at_created a) \<subseteq> {0, 1, 2}"

lemma failed_append: "failed (xs @ ys) = (if failed xs = [] then failed ys else failed xs @ ys)"
  by (induction xs) (auto simp: failed_def)

lemma failed_Nil: "failed xs = [] \<longleftrightarrow> (\<forall>(i, d)\<in>set xs. d = ''accepted'')"
  by (auto simp: failed_def)

lemma settle_append [simp]: "settle i d (xs @ ys) = settle i d xs @ settle i d ys"
  by (simp add: settle_def)

lemma settle_other: "i \<notin> fst ` set xs \<Longrightarrow> settle i d xs = xs"
  by (induction xs) (auto simp: settle_def)

lemma settle_names [simp]: "map fst (settle i d xs) = map fst xs"
  by (simp add: settle_def o_def split_beta)

lemma settle_names_set [simp]: "fst ` set (settle i d xs) = fst ` set xs"
  by (metis list.set_map settle_names)

lemma settle_single [simp]: "settle i d [(i, ''pending'')] = [(i, d)]"
  by (simp add: settle_def)

lemma assert_owner_marker: "jf_marker g = jf_marker f \<Longrightarrow> assert_owner h g = assert_owner h f"
  by (simp add: assert_owner_def)

lemma finish_latched:
  assumes "latch operation h f = Inr g" and "d \<in> {''accepted'', ''refused''}"
  shows "finish operation d h g = (Inr (), f\<lparr>jf_attempts := jf_attempts f @ [(operation, d)]\<rparr>)"
  using assms assert_owner_marker [of g f h] by (auto simp: latched_iff finish_def settle_other)

lemma provider_call_known:
  assumes "operation \<in> set COMPOSITION_OPERATIONS \<union> set RECONCILE" and "provider_call operation request p = (r, q)"
  shows "pr_calls q = pr_calls p @ [operation] \<and> pr_plan q = pr_plan p \<and> pr_faults q = pr_faults p \<and>
    (\<forall>v. r = Accepted v \<longrightarrow> v = state_json (pr_state q))"
  using assms by (auto simp: provider_call_def Let_def fault_reply_def split: if_splits option.splits)

text \<open>The outcomes of a call, one rule: what the attempt is after it, on every branch.\<close>

lemma call_cases [consumes 2, case_names halted expired latch died accepted refused ambiguous]:
  assumes "call se operation request a = (r, b)" and "operation \<in> set COMPOSITION_OPERATIONS"
  obtains
    "at_halted a" "r = Inr None" "b = a"
  | "\<not> at_halted a" "expired se a" "r = Inr None" "b = a\<lparr>at_reason := ''outer_expired'', at_halted := True\<rparr>"
  | e where "\<not> at_halted a" "\<not> expired se a" "latch operation (se_handle se) (at_journal a) = Inl e" "r = Inl e" "b = a"
  | f p q where "\<not> at_halted a" "\<not> expired se a" "latch operation (se_handle se) (at_journal a) = Inr f"
      "provider_call operation request (at_provider a) = (q, p)" "r = Inl Killed"
      "b = a\<lparr>at_journal := f, at_provider := p, at_halted := True\<rparr>"
  | f p reason late where "\<not> at_halted a" "\<not> expired se a" "latch operation (se_handle se) (at_journal a) = Inr f"
      "provider_call operation request (at_provider a) = (Accepted (state_json (pr_state p)), p)"
      "b = a\<lparr>at_provider := p, at_journal := (at_journal a)\<lparr>jf_attempts := jf_attempts (at_journal a) @ [(operation, ''accepted'')]\<rparr>,
         at_reason := reason, at_halted := late\<rparr>"
      "r = Inr (if late then None else Some (state_json (pr_state p)))" "late = expired se b"
      "reason = (if late then ''outer_expired'' else at_reason a)"
  | f p where "\<not> at_halted a" "\<not> expired se a" "latch operation (se_handle se) (at_journal a) = Inr f"
      "provider_call operation request (at_provider a) = (RefusedReply, p)" "r = Inr None"
      "b = a\<lparr>at_provider := p, at_journal := (at_journal a)\<lparr>jf_attempts := jf_attempts (at_journal a) @ [(operation, ''refused'')]\<rparr>,
         at_reason := ''operation_refused'', at_halted := True\<rparr>"
  | f p q where "\<not> at_halted a" "\<not> expired se a" "latch operation (se_handle se) (at_journal a) = Inr f"
      "provider_call operation request (at_provider a) = (q, p)" "q \<noteq> RefusedReply" "\<And>v. q \<noteq> Accepted v"
      "then_act (reconcile se RECONCILE) (return_act None)
         (a\<lparr>at_journal := f, at_provider := p, at_reason := ''ambiguous_dispatch'', at_halted := True\<rparr>) = (r, b)"
proof (cases "at_halted a \<or> expired se a")
  case True
  show thesis
  proof (cases "at_halted a")
    case True
    with assms(1) show thesis by (intro that(1)) (simp_all add: call_def act_simps)
  next
    case False
    with True assms(1) show thesis by (intro that(2)) (simp_all add: call_def halt_def act_simps)
  qed
next
  case False
  then have opened: "\<not> at_halted a" "\<not> expired se a" by auto
  show thesis
  proof (cases "latch operation (se_handle se) (at_journal a)")
    case (Inl e)
    with assms(1) opened show thesis
      by (intro that(3) [OF opened Inl]) (simp_all add: call_def latch_act_def act_simps)
  next
    case (Inr f)
    obtain q p where p: "provider_call operation request (at_provider a) = (q, p)" by force
    note sent = Inr p opened
    show thesis
    proof (cases "se_dies se = Some (length (pr_calls (at_provider a)))")
      case True
      show thesis
        by (rule that(4) [OF opened Inr p])
           (use assms(1) sent True in \<open>auto simp: call_def latch_act_def provider_act_def act_simps\<close>)
    next
    case False
      note sent = sent False
      show thesis
      proof (cases q)
        case (Accepted v)
        have v: "v = state_json (pr_state p)" using provider_call_known [OF _ p] assms(2) Accepted by blast
        have fin: "finish operation ''accepted'' (se_handle se) f =
            (Inr (), (at_journal a)\<lparr>jf_attempts := jf_attempts (at_journal a) @ [(operation, ''accepted'')]\<rparr>)"
          by (rule finish_latched [OF Inr]) simp
        show thesis
          by (rule that(5) [OF opened Inr, of p "expired se (a\<lparr>at_provider := p\<rparr>)"
                "if expired se (a\<lparr>at_provider := p\<rparr>) then ''outer_expired'' else at_reason a"])
             (use assms(1) sent Accepted v fin in
               \<open>auto simp: call_def latch_act_def provider_act_def finish_act_def halt_def expired_def act_simps split: if_splits\<close>)
      next
        case RefusedReply
        have fin: "finish operation ''refused'' (se_handle se) f =
            (Inr (), (at_journal a)\<lparr>jf_attempts := jf_attempts (at_journal a) @ [(operation, ''refused'')]\<rparr>)"
          by (rule finish_latched [OF Inr]) simp
        show thesis
          by (rule that(6) [OF opened Inr, of p])
             (use assms(1) sent RefusedReply fin in
               \<open>auto simp: call_def latch_act_def provider_act_def finish_act_def halt_def act_simps\<close>)
      qed (use assms(1) sent in \<open>auto intro!: that(7) [OF opened Inr p]
             simp: call_def latch_act_def provider_act_def halt_def act_simps\<close>)
    qed
  qed
qed


section \<open>The trace of a rehearsal\<close>

text \<open>During the reconciling reads the attempt has failed and only reads are added.\<close>

definition reconciling :: "attempt \<Rightarrow> bool" where
  "reconciling a \<longleftrightarrow> agrees a \<and> at_halted a \<and>
     (case failed (jf_attempts (at_journal a)) of [] \<Rightarrow> False | (i, d) # rest \<Rightarrow> d = ''pending'')"

lemma reconciling_append:
  assumes "reconciling a" and "i \<in> set RECONCILE" and "i \<notin> fst ` set (jf_attempts (at_journal a))"
    and "pr_calls p = pr_calls (at_provider a) @ [i]"
  shows "reconciling (a\<lparr>at_provider := p, at_journal := (at_journal a)\<lparr>jf_attempts := jf_attempts (at_journal a) @ [(i, d)]\<rparr>\<rparr>)"
  using assms by (auto simp: reconciling_def agrees_def fails_once_def failed_append split: list.splits)

lemma keeps_reconcile_one:
  assumes "i \<in> set RECONCILE"
  shows "keeps reconciling (reconcile_one se i)"
  unfolding keeps_def
proof (intro allI impI)
  fix a assume R: "reconciling a"
  show "reconciling (snd (reconcile_one se i a))"
  proof (cases "latch i (se_handle se) (at_journal a)")
    case (Inl e)
    with R show ?thesis by (simp add: reconcile_one_def latch_act_def act_simps)
  next
    case (Inr f)
    obtain q p where p: "provider_call i (JObj []) (at_provider a) = (q, p)" by force
    have fresh: "i \<notin> fst ` set (jf_attempts (at_journal a))" using rj.spend_fresh [of "(se_handle se, i)"] Inr by simp
    have calls: "pr_calls p = pr_calls (at_provider a) @ [i]" using provider_call_known [OF _ p] assms by blast
    have f: "f = (at_journal a)\<lparr>jf_attempts := jf_attempts (at_journal a) @ [(i, ''pending'')]\<rparr>"
      using Inr by (simp add: latched_iff)
    have fin: "finish i d (se_handle se) f = (Inr (), (at_journal a)\<lparr>jf_attempts := jf_attempts (at_journal a) @ [(i, d)]\<rparr>)"
      if "d \<in> {''accepted'', ''refused''}" for d by (rule finish_latched [OF Inr that])
    let ?dead = "se_dies se = Some (length (pr_calls (at_provider a)))"
    let ?d = "if ?dead then ''pending'' else case q of Accepted _ \<Rightarrow> ''accepted'' | RefusedReply \<Rightarrow> ''refused'' | _ \<Rightarrow> ''pending''"
    have "snd (reconcile_one se i a) =
        a\<lparr>at_provider := p, at_journal := (at_journal a)\<lparr>jf_attempts := jf_attempts (at_journal a) @ [(i, ?d)]\<rparr>\<rparr>"
      using Inr p f fin R
      by (cases q; cases ?dead; intro attempt.equality)
         (simp_all add: reconcile_one_def latch_act_def provider_act_def finish_act_def act_simps reconciling_def)
    with reconciling_append [OF R assms fresh calls] show ?thesis by simp
  qed
qed

lemma keeps_reconcile: "set is \<subseteq> set RECONCILE \<Longrightarrow> keeps reconciling (reconcile se is)"
  by (induction "is") (auto intro!: keeps_intros keeps_reconcile_one)

lemma agrees_append:
  assumes "agrees a" and "\<not> at_halted a" and "i \<in> set COMPOSITION_OPERATIONS"
    and "i \<notin> fst ` set (jf_attempts (at_journal a))" and "pr_calls p = pr_calls (at_provider a) @ [i]"
    and "at_provider b = p" and "jf_attempts (at_journal b) = jf_attempts (at_journal a) @ [(i, d)]"
    and "d = ''accepted'' \<or> d \<in> {''refused'', ''pending''} \<and> at_halted b" and "at_created b = at_created a"
  shows "agrees b"
  using assms by (auto simp: agrees_def fails_once_def failed_append) (auto simp: failed_def)

lemma keeps_call:
  assumes "operation \<in> set COMPOSITION_OPERATIONS"
  shows "keeps agrees (call se operation request)"
  unfolding keeps_def
proof (intro allI impI)
  fix a assume A: "agrees a"
  obtain r b where c: "call se operation request a = (r, b)" by force
  from c assms have "agrees b"
  proof (cases rule: call_cases)
    case (died f p q)
    with A assms provider_call_known [of operation request "at_provider a"] show ?thesis
      by (intro agrees_append [of a operation p b "''pending''"]) (auto simp: latched_iff)
  next
    case (accepted f p reason late)
    with A assms provider_call_known [of operation request "at_provider a"] show ?thesis
      by (intro agrees_append [of a operation p b "''accepted''"]) (auto simp: latched_iff)
  next
    case (refused f p)
    with A assms provider_call_known [of operation request "at_provider a"] show ?thesis
      by (intro agrees_append [of a operation p b "''refused''"]) (auto simp: latched_iff)
  next
    case (ambiguous f p q)
    let ?a = "a\<lparr>at_journal := f, at_provider := p, at_reason := ''ambiguous_dispatch'', at_halted := True\<rparr>"
    have f: "jf_attempts f = jf_attempts (at_journal a) @ [(operation, ''pending'')]" using ambiguous(3) by (auto simp: latched_iff)
    have "failed (jf_attempts (at_journal a)) = []" using A ambiguous(1) by (simp add: agrees_def)
    then have "failed (jf_attempts f) = [(operation, ''pending'')]" by (simp add: f failed_append) (simp add: failed_def)
    moreover have "agrees ?a"
      using A ambiguous assms provider_call_known [of operation request "at_provider a"]
      by (intro agrees_append [of a operation p ?a "''pending''"]) (auto simp: latched_iff)
    ultimately have "reconciling ?a" by (simp add: reconciling_def)
    moreover have "keeps reconciling (then_act (reconcile se RECONCILE) (return_act (None :: json option)))"
      by (intro keeps_intros keeps_reconcile) simp
    ultimately have "reconciling b" using ambiguous(7) by (blast dest: keepsD)
    then show ?thesis by (simp add: reconciling_def)
  qed (use A in \<open>auto simp: agrees_def\<close>)
  with c show "agrees (snd (call se operation request a))" by simp
qed

text \<open>Everything else the function does is local.\<close>

lemma agrees_local:
  "at_provider b = at_provider a \<Longrightarrow> at_journal b = at_journal a \<Longrightarrow> at_halted b = at_halted a \<Longrightarrow> at_created b = at_created a \<Longrightarrow>
    agrees b \<longleftrightarrow> agrees a"
  by (simp add: agrees_def)

lemmas updates = initialized_update_def uploaded_update_def applied_update_def disabled_update_def
  restored_update_def deleted_update_def

lemma agrees_updates [simp]:
  "agrees (initialized_update plan a) = agrees a" "agrees (uploaded_update plan a) = agrees a"
  "agrees (applied_update plan a) = agrees a" "agrees (disabled_update plan a) = agrees a"
  "agrees (restored_update plan a) = agrees a" "agrees (deleted_update n a) = agrees a"
  "agrees (a\<lparr>at_reason := reason\<rparr>) = agrees a" "agrees (a\<lparr>at_cleanup := cleanup\<rparr>) = agrees a"
  "agrees (a\<lparr>at_absent := absent\<rparr>) = agrees a"
  by (rule agrees_local; simp add: updates)+

lemma agrees_created [simp]: "n \<in> {0, 1, 2} \<Longrightarrow> agrees a \<Longrightarrow> agrees (created_update plan n a)"
  by (simp add: agrees_def created_update_def)

lemma keeps_observed [keeps_intros]: "operation \<in> set COMPOSITION_OPERATIONS \<Longrightarrow> keeps agrees (observed se operation)"
  unfolding observed_def
  by (intro keeps_intros keeps_call) (auto split: option.splits intro!: keeps_intros keeps_modify)

lemma keeps_work_open [keeps_intros]: "keeps agrees (work_open se)"
  unfolding work_open_def by (intro keeps_intros keeps_modify) simp_all

lemma keeps_called [keeps_intros]:
  assumes "operation \<in> set COMPOSITION_OPERATIONS" and "\<And>a. agrees a \<Longrightarrow> agrees (f a)"
  shows "keeps agrees (called se operation request f)"
  unfolding called_def by (intro keeps_intros keeps_call keeps_modify assms)

lemma keeps_stage [keeps_intros]:
  assumes "operation \<in> set COMPOSITION_OPERATIONS" and "readback \<in> set COMPOSITION_OPERATIONS"
    and "\<And>a. agrees a \<Longrightarrow> agrees (f a)"
  shows "keeps agrees (stage se ready operation request f readback)"
  unfolding stage_def by (intro keeps_intros assms)

lemma known_number:
  "n \<in> {0, 1, 2} \<Longrightarrow> numbered ''create_resource_'' n \<in> set COMPOSITION_OPERATIONS \<and>
    numbered ''read_resource_'' n \<in> set COMPOSITION_OPERATIONS \<and>
    numbered ''delete_resource_'' n \<in> set COMPOSITION_OPERATIONS \<and> numbered ''read_absent_'' n \<in> set COMPOSITION_OPERATIONS"
  by (auto simp: operations numbered_names numbered_names(2,5,8,11) [unfolded One_nat_def])

lemma keeps_create_resources: "set ns \<subseteq> {0, 1, 2} \<Longrightarrow> keeps agrees (create_resources se ns)"
proof (induction ns)
  case (Cons n ns)
  with known_number [of n] show ?case
    unfolding create_resources.simps by (intro keeps_intros) simp_all
qed simp

lemma keeps_delete_resources: "set ns \<subseteq> {0, 1, 2} \<Longrightarrow> keeps agrees (delete_resources se ns)"
proof (induction ns)
  case (Cons n ns)
  with known_number [of n] show ?case
    unfolding delete_resources.simps by (intro keeps_intros keeps_modify) simp_all
qed (auto intro: keeps_modify simp: agrees_def)

lemma keeps_deletions: "keeps agrees (bind_act (gets_act at_created) (\<lambda>created. delete_resources se (rev created)))"
  unfolding keeps_def
proof (intro allI impI)
  fix a assume A: "agrees a"
  then have "set (rev (at_created a)) \<subseteq> {0, 1, 2}" by (simp add: agrees_def)
  from keeps_delete_resources [OF this] A
  show "agrees (snd (bind_act (gets_act at_created) (\<lambda>created. delete_resources se (rev created)) a))"
    by (simp add: keeps_def)
qed

lemma keeps_clean_up: "keeps agrees (clean_up se)"
  unfolding clean_up_def disable_def restore_def
  by (intro keeps_intros keeps_deletions) (simp_all add: operations)

lemma keeps_rehearse_body: "keeps agrees (rehearse_body se)"
  unfolding rehearse_body_def apply_temporary_def not_applied_def
  by (intro keeps_intros keeps_clean_up keeps_create_resources keeps_modify) (simp_all add: operations)

lemma keeps_last_reason: "keeps agrees last_reason"
  unfolding last_reason_def by (intro keeps_modify) simp

lemma agrees_start: "jf_attempts f = [] \<Longrightarrow> pr_calls p = [] \<Longrightarrow> agrees (start_attempt plan p f)"
  by (simp add: agrees_def start_attempt_def fails_once_def failed_def)


section \<open>The journal file\<close>

text \<open>The attempt changes nothing in the file but its attempts.\<close>

definition file_rest :: "attempt \<Rightarrow> json list \<times> bool \<times> string option" where
  "file_rest a = (jf_plans (at_journal a), jf_started (at_journal a), jf_marker (at_journal a))"

lemma silent_latch: "silent file_rest (latch_act se i)"
  by (auto simp: silent_def latch_act_def latched_iff file_rest_def split: sum.splits)

lemma silent_finish: "silent file_rest (finish_act se i d)"
  by (auto simp: silent_def finish_act_def finish_def file_rest_def split: sum.splits prod.splits)

lemma silent_provider: "silent file_rest (provider_act se i request)"
  by (auto simp: silent_def provider_act_def file_rest_def split: prod.splits)

lemma silent_if: "silent v m \<Longrightarrow> silent v k \<Longrightarrow> silent v (if b then m else k)"
  by simp

lemma silent_catch: "silent v m \<Longrightarrow> (\<And>e. silent v (h e)) \<Longrightarrow> silent v (catch_act m h)"
  by (simp add: silent_iff_keeps keeps_catch)

lemmas silent_intros = silent_bind silent_then silent_if silent_catch silent_latch silent_finish silent_provider

lemma silent_local: "(\<And>a. at_journal (f a) = at_journal a) \<Longrightarrow> silent file_rest (modify_act f)"
  by (rule silent_modify) (simp add: file_rest_def)

lemma silent_reconcile_one: "silent file_rest (reconcile_one se i)"
  unfolding reconcile_one_def by (intro silent_intros) (auto intro!: silent_intros split: reply.splits)

lemma silent_reconcile: "silent file_rest (reconcile se is)"
proof (induction "is")
  case (Cons i "is")
  then show ?case unfolding reconcile.simps by (intro silent_intros silent_reconcile_one) simp_all
qed simp

lemma silent_call: "silent file_rest (call se i request)"
  unfolding call_def halt_def
  by (intro silent_intros) (auto intro!: silent_intros silent_local silent_reconcile split: reply.splits)

lemma silent_observed: "silent file_rest (observed se i)"
  unfolding observed_def
  by (intro silent_intros silent_call) (auto intro!: silent_intros silent_local split: option.splits)

lemma silent_called: "(\<And>a. at_journal (f a) = at_journal a) \<Longrightarrow> silent file_rest (called se i request f)"
  unfolding called_def by (intro silent_intros silent_call silent_local) simp_all

lemma silent_work_open: "silent file_rest (work_open se)"
  unfolding work_open_def by (intro silent_intros silent_local) simp_all

lemmas silent_steps = silent_intros silent_called silent_observed silent_work_open silent_local

lemma silent_create_resources: "silent file_rest (create_resources se ns)"
proof (induction ns)
  case (Cons n ns)
  then show ?case unfolding create_resources.simps by (intro silent_steps) (simp_all add: created_update_def)
qed simp

lemma silent_delete_resources: "silent file_rest (delete_resources se ns)"
proof (induction ns)
  case (Cons n ns)
  then show ?case unfolding delete_resources.simps by (intro silent_steps) (simp_all add: updates)
qed (auto intro: silent_local)

lemma silent_stage: "(\<And>a. at_journal (f a) = at_journal a) \<Longrightarrow> silent file_rest (stage se ready i request f readback)"
  unfolding stage_def by (intro silent_steps) simp_all

lemma silent_rehearse_body: "silent file_rest (rehearse_body se)"
  unfolding rehearse_body_def apply_temporary_def clean_up_def disable_def restore_def not_applied_def
  by (intro silent_steps silent_stage silent_create_resources silent_delete_resources) (simp_all add: updates)


section \<open>The local variables\<close>

text \<open>Calls and reads leave them alone, the reason and the halt apart.\<close>

definition locals :: "attempt \<Rightarrow> provider_state \<times> bool \<times> bool \<times> bool \<times> nat list \<times> nat list \<times> string" where
  "locals a = (at_expected a, at_applied a, at_initialized a, at_uploaded a, at_created a, at_absent a, at_cleanup a)"

lemma locals_acts:
  "silent locals (latch_act se i)" "silent locals (finish_act se i d)" "silent locals (provider_act se i request)"
  "silent locals (modify_act (\<lambda>a. a\<lparr>at_reason := reason\<rparr>))" "silent locals (halt reason)"
  by (auto simp: silent_def latch_act_def finish_act_def provider_act_def halt_def locals_def act_simps split: sum.splits prod.splits)

lemmas locals_intros = silent_bind silent_then silent_if silent_catch locals_acts

lemma locals_reconcile_one: "silent locals (reconcile_one se i)"
  unfolding reconcile_one_def by (intro locals_intros) (auto intro!: locals_intros split: reply.splits)

lemma locals_reconcile: "silent locals (reconcile se is)"
proof (induction "is")
  case (Cons i "is")
  then show ?case unfolding reconcile.simps by (intro locals_intros locals_reconcile_one) simp_all
qed simp

lemma locals_call: "silent locals (call se i request)"
  unfolding call_def by (intro locals_intros) (auto intro!: locals_intros locals_reconcile split: reply.splits)

lemma locals_observed: "silent locals (observed se i)"
  unfolding observed_def by (intro locals_intros locals_call) (auto intro!: locals_intros split: option.splits)

lemma locals_work_open: "silent locals (work_open se)"
  unfolding work_open_def by (intro locals_intros) simp_all

text \<open>An observation that succeeds found the expected state, and the attempt goes on.\<close>

definition synced :: "attempt \<Rightarrow> bool" where
  "synced a \<longleftrightarrow> \<not> at_halted a \<and> dumps (state_json (pr_state (at_provider a))) = dumps (state_json (at_expected a))"

lemma call_some:
  assumes "call se operation request a = (Inr (Some v), b)" and "operation \<in> set COMPOSITION_OPERATIONS"
  shows "\<not> at_halted b \<and> v = state_json (pr_state (at_provider b))"
  using assms
proof (cases rule: call_cases)
  case (ambiguous f p q)
  then show ?thesis by (auto simp: act_simps split: prod.splits sum.splits)
qed (auto split: if_splits)

lemma observed_synced:
  assumes "observed se operation a = (Inr True, b)" and "operation \<in> set COMPOSITION_OPERATIONS"
  shows "synced b \<and> locals b = locals a"
proof -
  from assms(1) obtain v where "call se operation (JObj []) a = (Inr (Some v), b)"
    and "dumps v = dumps (state_json (at_expected b))"
    by (auto simp: observed_def bind_act_def gets_act_def return_act_def modify_act_def then_act_def
        split: prod.splits sum.splits option.splits if_splits)
  moreover have "locals b = locals a" by (rule silentD [OF locals_observed assms(1)])
  ultimately show ?thesis using call_some [of se operation "JObj []" a v b] assms(2) by (simp add: synced_def)
qed

end
