(* ===== verification/Composition_Attempt.thy ===== *)
theory Composition_Attempt
  imports Composition_Safety
begin

text \<open>
  The properties of the rehearsal of a temporary composition: it dispatches every operation
  at most once and stops at the first that is not acknowledged; a journal file is good for
  one attempt, whatever sessions follow; and a confirmed cleanup leaves the provider in its
  initial state, the initialised mark, the admission revision and an uploaded version apart.
\<close>

section \<open>One run\<close>

lemma rehearse_cases:
  assumes "rehearse_composition plan h f p now stop dies = (r, b)"
  obtains e where "r = Inl e" "b = start_attempt plan p f"
  | g se q where "jf_attempts f = []" "pr_calls p = []" "start_once h f = Inr g" "se_plan se = plan" "se_handle se = h"
      "then_act (rehearse_body se) last_reason (start_attempt plan p g) = (q, b)"
      "r = (case q of Inl e \<Rightarrow> Inl e | Inr _ \<Rightarrow> Inr (receipt_of se b))"
proof -
  let ?se = "\<lparr>se_plan = plan, se_handle = h, se_base = (case now of PNone \<Rightarrow> start_of plan | PInt n \<Rightarrow> n | _ \<Rightarrow> 0), se_stop = (stop = PBool True), se_dies = dies\<rparr>"
  let ?checks = "bind_res (validate_plan plan) (\<lambda>_.
           bind_res (require (dumps plan = dumps (hd_plan h) \<and> dumps plan = dumps (pr_plan p)) ''plan_identity_mismatch'') (\<lambda>_.
           bind_res (require ((now = PNone \<or> (\<exists>n. now = PInt n)) \<and> start_of plan \<le> se_base ?se \<and> se_base ?se \<le> 2 ^ 53) ''operation_time'') (\<lambda>_.
           bind_res (require (stop \<in> {PBool True, PBool False}) ''stop_flag'') (\<lambda>_.
           bind_res (require (jf_attempts f = [] \<and> pr_calls p = []) ''run_already_attempted'') (\<lambda>_.
           start_once h f)))))"
  show thesis
  proof (cases ?checks)
    case (Inl e)
    with assms show thesis by (intro that(1) [of e]) (auto simp: rehearse_composition_def Let_def)
  next
    case (Inr g)
    obtain q b' where q: "then_act (rehearse_body ?se) last_reason (start_attempt plan p g) = (q, b')" by force
    have "(start_attempt plan p f)\<lparr>at_journal := g\<rparr> = start_attempt plan p g" by (simp add: start_attempt_def)
    with assms Inr q have "r = (case q of Inl e \<Rightarrow> Inl e | Inr _ \<Rightarrow> Inr (receipt_of ?se b))" "b = b'"
      by (auto simp: rehearse_composition_def Let_def split: sum.splits)
    with Inr q show thesis by (intro that(2) [of g ?se q]) (auto simp: bind_res_Inr)
  qed
qed

lemma started: "start_once h f = Inr g \<Longrightarrow> \<not> jf_started f \<and> assert_owner h f = Inr () \<and> g = f\<lparr>jf_started := True\<rparr>"
  by (auto simp: start_once_def bind_res_Inr)

lemma run_agrees:
  assumes "rehearse_composition plan h f p now stop dies = (r, b)" and "jf_attempts f = []" and "pr_calls p = []"
  shows "agrees b"
  using assms(1)
proof (cases rule: rehearse_cases)
  case (1 e)
  with assms(2,3) show ?thesis by (simp add: agrees_start)
next
  case (2 g se q)
  have "agrees (start_attempt plan p g)" using 2 started [OF 2(3)] by (auto intro!: agrees_start)
  moreover have "keeps agrees (then_act (rehearse_body se) last_reason)"
    by (intro keeps_intros keeps_rehearse_body keeps_last_reason)
  ultimately show ?thesis using 2(6) by (blast dest: keepsD)
qed

text \<open>
  C5: the first failure is the last operation: whatever the provider answers and wherever the
  process dies at a call, the journal holds exactly the operations that were sent, in their
  order, the one it died at included: each is latched before it is sent. Each is sent at most
  once, no more than 25 in all; all before the first failure were acknowledged, nothing
  follows a refused one, and after one of unknown outcome at most the two reconciling reads
  follow.
\<close>

theorem rehearsal_fails_once:
  assumes "rehearse_composition plan h f p now stop dies = (r, b)" and "jf_attempts f = []" and "pr_calls p = []"
  shows "pr_calls (at_provider b) = map fst (jf_attempts (at_journal b)) \<and> distinct (pr_calls (at_provider b)) \<and>
    length (pr_calls (at_provider b)) \<le> 25 \<and> fails_once (jf_attempts (at_journal b))"
proof -
  have A: "agrees b" by (rule run_agrees [OF assms])
  then have "set (pr_calls (at_provider b)) \<subseteq> set (COMPOSITION_OPERATIONS @ RECONCILE)" by (simp add: agrees_def)
  then have "card (set (pr_calls (at_provider b))) \<le> card (set (COMPOSITION_OPERATIONS @ RECONCILE))"
    by (intro card_mono) simp_all
  also have "\<dots> = 25" using distinct_card [OF operations_distinct] by (simp add: operations RECONCILE_def)
  finally have "card (set (pr_calls (at_provider b))) \<le> 25" .
  moreover have d: "distinct (pr_calls (at_provider b))" using A by (simp add: agrees_def)
  ultimately show ?thesis using A distinct_card [OF d] by (simp add: agrees_def)
qed


section \<open>Sessions on one file\<close>

text \<open>
  A session opens the journal for a plan, rehearses with a provider and closes the journal,
  unless the process dies before it does, at a provider call or later. What it dispatched, and the file after it.
\<close>

fun session :: "json \<times> string \<times> provider \<times> pyval \<times> pyval \<times> nat option \<times> bool \<Rightarrow> journal_file \<Rightarrow> string list \<times> journal_file" where
  "session (plan, token, p, now, stop, dies, closes) f =
     (case open_journal plan token f of
        (Inl e, g) \<Rightarrow> ([], g)
      | (Inr h, g) \<Rightarrow> (case rehearse_composition plan h g p now stop dies of
          (r, b) \<Rightarrow> (drop (length (pr_calls p)) (pr_calls (at_provider b)),
            if closes \<and> r \<noteq> Inl Killed then snd (close_journal h (at_journal b)) else at_journal b)))"

fun sessions :: "(json \<times> string \<times> provider \<times> pyval \<times> pyval \<times> nat option \<times> bool) list \<Rightarrow> journal_file \<Rightarrow> string list list \<times> journal_file" where
  "sessions [] f = ([], f)"
| "sessions (s # ss) f = (case session s f of (calls, g) \<Rightarrow> (case sessions ss g of (rest, k) \<Rightarrow> (calls # rest, k)))"

lemma close_rest [simp]:
  "jf_attempts (snd (close_journal h f)) = jf_attempts f" "jf_started (snd (close_journal h f)) = jf_started f"
  by (simp_all add: close_journal_def)

lemma open_rest:
  "open_journal plan token f = (r, g) \<Longrightarrow> jf_attempts g = jf_attempts f \<and> jf_started g = jf_started f"
  by (auto simp: open_journal_def split: sum.splits if_splits)

text \<open>A file that was started stays as it is, and nothing is dispatched.\<close>

lemma session_again:
  assumes "session s f = (calls, g)" and "jf_started f"
  shows "calls = [] \<and> jf_started g \<and> jf_attempts g = jf_attempts f"
proof -
  obtain plan token p now stop dies closes where s: "s = (plan, token, p, now, stop, dies, closes)" by (cases s)
  obtain r k where o: "open_journal plan token f = (r, k)" by force
  then have k: "jf_attempts k = jf_attempts f \<and> jf_started k = jf_started f" by (rule open_rest)
  show ?thesis
  proof (cases r)
    case (Inl e)
    with assms s o k show ?thesis by simp
  next
    case (Inr h)
    obtain q b where b: "rehearse_composition plan h k p now stop dies = (q, b)" by force
    from b have "b = start_attempt plan p k" by (rule rehearse_cases) (use assms(2) k started in auto)
    with assms s o k Inr b show ?thesis by (auto simp: start_attempt_def)
  qed
qed

text \<open>A file that was not, and has no attempts, records what is dispatched, and is started when anything is.\<close>

lemma session_first:
  assumes "session s f = (calls, g)" and "jf_attempts f = []" and "\<not> jf_started f"
  shows "calls = map fst (jf_attempts g) \<and> distinct calls \<and> (jf_started g \<or> calls = [])"
proof -
  obtain plan token p now stop dies closes where s: "s = (plan, token, p, now, stop, dies, closes)" by (cases s)
  obtain r k where o: "open_journal plan token f = (r, k)" by force
  then have k: "jf_attempts k = jf_attempts f \<and> jf_started k = jf_started f" by (rule open_rest)
  show ?thesis
  proof (cases r)
    case (Inl e)
    with assms s o k show ?thesis by simp
  next
    case (Inr h)
    obtain q b where b: "rehearse_composition plan h k p now stop dies = (q, b)" by force
    from b show ?thesis
    proof (cases rule: rehearse_cases)
      case (1 e)
      with assms s o k Inr b show ?thesis by (auto simp: start_attempt_def)
    next
      case (2 g' se u)
      have "agrees b" by (rule run_agrees [OF b 2(1,2)])
      moreover have "silent file_rest (then_act (rehearse_body se) last_reason)"
        unfolding last_reason_def by (intro silent_then silent_rehearse_body silent_local) simp
      then have "file_rest b = file_rest (start_attempt plan p g')" using 2(6) by (rule silentD)
      then have "jf_started (at_journal b)" using started [OF 2(3)] by (simp add: file_rest_def start_attempt_def)
      ultimately show ?thesis using assms s o k Inr b 2(2) by (auto simp: agrees_def)
    qed
  qed
qed

lemma sessions_again:
  "sessions ss f = (callss, g) \<Longrightarrow> jf_started f \<Longrightarrow> concat callss = [] \<and> jf_attempts g = jf_attempts f"
proof (induction ss arbitrary: f callss)
  case (Cons s ss)
  then show ?case by (auto split: prod.splits dest!: session_again)
qed simp

text \<open>
  C11: one attempt per journal file: over any sequence of sessions on a fresh file, with any
  plans, providers and clocks and with or without a proper close, at most one session
  dispatches anything, no operation is dispatched twice, and the file records exactly what
  was dispatched.
\<close>

theorem journal_runs_once:
  assumes "sessions ss empty_file = (callss, f)"
  shows "length (filter (\<lambda>calls. calls \<noteq> []) callss) \<le> 1 \<and> distinct (concat callss) \<and>
    concat callss = map fst (jf_attempts f)"
proof -
  have run: "length (filter (\<lambda>calls. calls \<noteq> []) callss) \<le> 1 \<and> distinct (concat callss) \<and> concat callss = map fst (jf_attempts g)"
    if "sessions ss f = (callss, g)" "jf_attempts f = []" "\<not> jf_started f" for ss callss f g
    using that
  proof (induction ss arbitrary: f callss)
    case (Cons s ss)
    obtain calls k where s: "session s f = (calls, k)" by force
    obtain rest where rest: "sessions ss k = (rest, g)" "callss = calls # rest"
      using Cons.prems(1) s by (auto split: prod.splits)
    note first = session_first [OF s Cons.prems(2,3)]
    show ?case
    proof (cases "jf_started k")
      case True
      then have again: "concat rest = []" "jf_attempts g = jf_attempts k" using sessions_again [OF rest(1)] by auto
      then have "filter (\<lambda>calls. calls \<noteq> []) rest = []" by (simp add: filter_empty_conv)
      with first rest(2) show ?thesis by (auto simp: again)
    next
      case False
      with first Cons.IH [OF rest(1)] rest(2) show ?thesis by auto
    qed
  qed simp
  show ?thesis by (rule run [OF assms]) (simp_all add: empty_file_def)
qed


section \<open>A confirmed cleanup\<close>

text \<open>What the local expectation is while the temporary version is built up.\<close>

definition tracks :: "json \<Rightarrow> attempt \<Rightarrow> bool" where
  "tracks plan a \<longleftrightarrow>
     at_expected a = \<lparr>ps_snapshot = (if at_applied a then temporary_part plan else baseline_part plan),
       ps_admission = admission plan (at_initialized a) 1, ps_initialized = at_initialized a,
       ps_owned = map (resource_at plan) (at_created a),
       ps_artifact = (if 2 \<in> set (at_created a) then jget (additions_of plan) ''receiver'' else JNull),
       ps_quota = (if at_initialized a then quota_scope plan True else JNull),
       ps_uploaded = (if at_uploaded a then upload_request plan else JNull)\<rparr> \<and>
     (at_initialized a \<longrightarrow> 1 \<in> set (at_created a)) \<and> at_cleanup a \<noteq> ''confirmed_offline''"

lemma tracks_locals: "locals b = locals a \<Longrightarrow> tracks plan b = tracks plan a"
  by (simp add: tracks_def locals_def)

lemma tracks_silent: "silent locals m \<Longrightarrow> hoare (tracks plan) (\<lambda>a. A (locals a)) m (\<lambda>_ a. A (locals a))"
  unfolding hoare_def by (auto dest: silentD) (metis silentD tracks_locals)

lemmas tracks_steps = tracks_silent [OF locals_call] tracks_silent [OF locals_observed] tracks_silent [OF locals_work_open]

lemma tracks_start: "tracks plan (start_attempt plan p f)"
  by (simp add: tracks_def start_attempt_def initial_state_def baseline_part_def)

lemma tracks_updates:
  "tracks plan a \<Longrightarrow> tracks plan (created_update plan n a)"
  "tracks plan a \<Longrightarrow> 1 \<in> set (at_created a) \<Longrightarrow> tracks plan (initialized_update plan a)"
  "tracks plan a \<Longrightarrow> tracks plan (uploaded_update plan a)"
  "tracks plan a \<Longrightarrow> tracks plan (applied_update plan a)"
  by (auto simp: tracks_def created_update_def updates admission_def jput_def items_def)


lemma update_created [simp]:
  "at_created (created_update plan n a) = at_created a @ [n]" "at_created (initialized_update plan a) = at_created a"
  "at_created (uploaded_update plan a) = at_created a" "at_created (applied_update plan a) = at_created a"
  by (simp_all add: created_update_def updates)

definition has_created :: "nat set \<Rightarrow> provider_state \<times> bool \<times> bool \<times> bool \<times> nat list \<times> nat list \<times> string \<Rightarrow> bool" where
  "has_created N l \<longleftrightarrow> N \<subseteq> set (fst (snd (snd (snd (snd l)))))"

lemma has_created_locals [simp]: "has_created N (locals a) \<longleftrightarrow> N \<subseteq> set (at_created a)"
  by (simp add: has_created_def locals_def)

lemma tracks_called:
  assumes "\<And>a. tracks plan a \<Longrightarrow> A (locals a) \<Longrightarrow> tracks plan (f a) \<and> B (locals (f a))"
  shows "hoare (tracks plan) (\<lambda>a. A (locals a)) (called se i request f) (\<lambda>ok a. ok \<longrightarrow> B (locals a))"
  unfolding called_def
proof (rule hoare_bind [OF tracks_steps(1)])
  fix state
  show "hoare (tracks plan) (\<lambda>a. A (locals a)) (if state = None then return_act False else then_act (modify_act f) (return_act True))
      (\<lambda>ok a. ok \<longrightarrow> B (locals a))"
    using assms by (auto simp: hoare_def act_simps)
qed

text \<open>\<open>if not ok: return False\<close>, and otherwise the rest.\<close>

lemma tracks_guard:
  assumes "hoare (tracks plan) A m (\<lambda>ok a. ok \<longrightarrow> B a)" and "hoare (tracks plan) B k (\<lambda>ok a. ok \<longrightarrow> C a)"
  shows "hoare (tracks plan) A (bind_act m (\<lambda>ok. if \<not> ok then return_act False else k)) (\<lambda>ok a. ok \<longrightarrow> C a)"
proof (rule hoare_bind [OF assms(1)])
  fix ok
  show "hoare (tracks plan) (\<lambda>a. ok \<longrightarrow> B a) (if \<not> ok then return_act False else k) (\<lambda>ok a. ok \<longrightarrow> C a)"
    using assms(2) by (cases ok) (auto simp: hoare_def act_simps)
qed

lemma tracks_pass:
  assumes "silent locals (m :: (attempt, bool) act)"
  shows "hoare (tracks plan) (\<lambda>a. A (locals a)) m (\<lambda>ok a. ok \<longrightarrow> A (locals a))"
  by (rule hoare_post [OF tracks_silent [OF assms]]) simp

lemma tracks_stage:
  assumes "\<And>a. tracks plan a \<Longrightarrow> A (locals a) \<Longrightarrow> tracks plan (f a)"
  shows "hoare (tracks plan) (\<lambda>a. ready \<longrightarrow> A (locals a)) (stage se ready i request f readback) (\<lambda>ok _. ok \<longrightarrow> True)"
proof (cases ready)
  case True
  have c: "hoare (tracks plan) (\<lambda>a. A (locals a)) (called se i request f) (\<lambda>ok a. ok \<longrightarrow> True)"
    by (rule tracks_called) (use assms in auto)
  have "hoare (tracks plan) (\<lambda>_. True) (observed se readback) (\<lambda>ok _. ok \<longrightarrow> True)"
    by (rule tracks_pass [OF locals_observed, of _ "\<lambda>_. True"])
  then have "hoare (tracks plan) (\<lambda>a. A (locals a)) (stage se True i request f readback) (\<lambda>ok a. ok \<longrightarrow> True)"
    unfolding stage_def not_True_eq_False if_False
    by (rule tracks_guard [OF tracks_pass [OF locals_work_open] tracks_guard [OF c]])
  with True show ?thesis by simp
qed (simp add: stage_def hoare_def act_simps)

lemma tracks_create_resources:
  "hoare (tracks plan) (\<lambda>a. has_created N (locals a)) (create_resources se ns)
     (\<lambda>ok a. ok \<longrightarrow> has_created (N \<union> set ns) (locals a))" if "se_plan se = plan"
proof (induction ns arbitrary: N)
  case Nil
  show ?case by (simp add: hoare_def act_simps)
next
  case (Cons n ns)
  have c: "hoare (tracks plan) (\<lambda>a. has_created N (locals a))
      (called se (numbered ''create_resource_'' n) (create_request (se_plan se) n) (created_update (se_plan se) n))
      (\<lambda>ok a. ok \<longrightarrow> has_created (insert n N) (locals a))"
    by (rule tracks_called) (auto simp: tracks_updates that)
  have seen: "hoare (tracks plan) (\<lambda>a. has_created (insert n N) (locals a)) (observed se (numbered ''read_resource_'' n))
      (\<lambda>ok a. ok \<longrightarrow> has_created (insert n N) (locals a))"
    by (rule hoare_post [OF tracks_steps(2)]) simp
  have opened: "hoare (tracks plan) (\<lambda>a. has_created N (locals a)) (work_open se) (\<lambda>ok a. ok \<longrightarrow> has_created N (locals a))"
    by (rule hoare_post [OF tracks_steps(3)]) simp
  from Cons.IH [of "insert n N"] show ?case
    unfolding create_resources.simps
    by (intro tracks_guard [OF opened] tracks_guard [OF c] tracks_guard [OF seen]) simp
qed


section \<open>Taking the composition down\<close>

text \<open>The expectation while the resources \<open>ns\<close> are still to be deleted.\<close>

definition deleting :: "json \<Rightarrow> nat list \<Rightarrow> attempt \<Rightarrow> bool" where
  "deleting plan ns a \<longleftrightarrow>
     (let e = at_expected a; i = at_initialized a in
      ps_snapshot e = baseline_part plan \<and> ps_admission e = admission plan False (if i then 2 else 1) \<and>
      ps_initialized e = i \<and> ps_owned e = map (resource_at plan) (rev ns) \<and>
      (ps_artifact e = JNull \<or> 2 \<in> set ns) \<and> (ps_quota e = JNull \<or> 1 \<in> set ns) \<and>
      ps_uploaded e = (if at_uploaded a then upload_request plan else JNull)) \<and>
     set (at_created a) \<subseteq> set ns \<union> set (at_absent a) \<and> at_cleanup a \<noteq> ''confirmed_offline''"

text \<open>The same before the retained version is back.\<close>

definition stopped :: "json \<Rightarrow> attempt \<Rightarrow> bool" where
  "stopped plan a \<longleftrightarrow> ps_snapshot (at_expected a) = (if at_applied a then temporary_part plan else baseline_part plan) \<and>
     deleting plan (rev (at_created a)) (restored_update plan a)"

definition offline :: "json \<Rightarrow> attempt \<Rightarrow> bool" where
  "offline plan a \<longleftrightarrow> synced a \<and> set (at_created a) \<subseteq> set (at_absent a) \<and>
     at_expected a = (initial_state plan)\<lparr>ps_admission := admission plan False (if at_initialized a then 2 else 1),
       ps_initialized := at_initialized a, ps_uploaded := (if at_uploaded a then upload_request plan else JNull)\<rparr>"

definition quiet :: "(attempt \<Rightarrow> bool) \<Rightarrow> bool" where
  "quiet P \<longleftrightarrow> (\<forall>a b. locals a = locals b \<longrightarrow> P a = P b)"

lemma quiet_facts: "quiet (tracks plan)" "quiet (deleting plan ns)" "quiet (stopped plan)"
    "quiet (\<lambda>a. tracks plan a \<and> at_initialized a)" "quiet (\<lambda>a. stopped plan a \<and> at_applied a)"
  by (auto simp: quiet_def tracks_def deleting_def stopped_def locals_def restored_update_def Let_def)

lemma quiet_triple: "quiet P \<Longrightarrow> silent locals m \<Longrightarrow> hoare (\<lambda>_. True) P m (\<lambda>_. P)"
  unfolding hoare_def quiet_def by (metis silentD)

lemma hoare_called_quiet:
  assumes "quiet P" and "\<And>a. P a \<Longrightarrow> Q (f a)"
  shows "hoare (\<lambda>_. True) P (called se i request f) (\<lambda>ok a. ok \<longrightarrow> Q a)"
  unfolding called_def
proof (rule hoare_bind [OF quiet_triple [OF assms(1) locals_call]])
  fix state
  show "hoare (\<lambda>_. True) P (if state = None then return_act False else then_act (modify_act f) (return_act True)) (\<lambda>ok a. ok \<longrightarrow> Q a)"
    using assms(2) by (auto simp: hoare_def act_simps)
qed

lemma returns_guard:
  assumes "hoare (\<lambda>_. True) P m (\<lambda>ok a. ok \<longrightarrow> Q a)" and "hoare (\<lambda>_. True) Q k R" and "\<And>a. R x a"
  shows "hoare (\<lambda>_. True) P (bind_act m (\<lambda>ok. if \<not> ok then return_act x else k)) R"
proof (rule hoare_bind [OF assms(1)])
  fix ok
  show "hoare (\<lambda>_. True) (\<lambda>a. ok \<longrightarrow> Q a) (if \<not> ok then return_act x else k) R"
    using assms(2,3) by (cases ok) (auto simp: hoare_def act_simps)
qed

lemma hoare_synced:
  assumes "quiet P" and "i \<in> set COMPOSITION_OPERATIONS"
  shows "hoare (\<lambda>_. True) P (observed se i) (\<lambda>ok a. ok \<longrightarrow> P a \<and> synced a)"
proof (rule hoareI)
  fix a r b assume a: "P a" and b: "observed se i a = (r, b)"
  have "P b \<and> synced b" if "r = Inr True"
  proof -
    from b that have "observed se i a = (Inr True, b)" by simp
    then have "synced b" "locals b = locals a" using observed_synced [OF _ assms(2)] by blast+
    with assms(1) a show ?thesis unfolding quiet_def by blast
  qed
  then show "True \<and> (\<forall>ok. r = Inr ok \<longrightarrow> ok \<longrightarrow> P b \<and> synced b)" by auto
qed


lemma deleted_deleting:
  assumes "deleting plan (n # ns) a"
  shows "deleting plan ns (deleted_update n a\<lparr>at_absent := at_absent (deleted_update n a) @ [n]\<rparr>)"
  using assms by (auto simp: deleting_def deleted_update_def Let_def)

lemma tracks_stopped: "tracks plan a \<Longrightarrow> \<not> at_initialized a \<Longrightarrow> stopped plan a"
  by (auto simp: tracks_def stopped_def deleting_def restored_update_def)

lemma disabled_stopped: "tracks plan a \<and> at_initialized a \<Longrightarrow> stopped plan (disabled_update plan a)"
  by (auto simp: tracks_def stopped_def deleting_def restored_update_def disabled_update_def)

lemma disable_stops:
  assumes "se_plan se = plan"
  shows "hoare (\<lambda>_. True) (tracks plan) (disable se) (\<lambda>ok a. ok \<longrightarrow> stopped plan a)"
  unfolding disable_def
proof (rule hoare_bind [OF hoare_gets])
  fix initialized
  have "hoare (\<lambda>_. True) (\<lambda>a. tracks plan a \<and> at_initialized a)
      (called se ''disable_temporary'' (run_request plan) (disabled_update plan)) (\<lambda>ok a. ok \<longrightarrow> stopped plan a)"
    by (rule hoare_called_quiet [OF quiet_facts(4)], rule disabled_stopped)
  moreover have "hoare (\<lambda>_. True) (stopped plan) (observed se ''read_disabled'') (\<lambda>ok a. ok \<longrightarrow> stopped plan a)"
    by (rule hoare_post [OF quiet_triple [OF quiet_facts(3) locals_observed]]) simp
  ultimately have "hoare (\<lambda>_. True) (\<lambda>a. tracks plan a \<and> at_initialized a)
      (bind_act (called se ''disable_temporary'' (run_request plan) (disabled_update plan))
        (\<lambda>ok. if \<not> ok then return_act False else observed se ''read_disabled'')) (\<lambda>ok a. ok \<longrightarrow> stopped plan a)"
    by (rule returns_guard) simp
  then show "hoare (\<lambda>_. True) (\<lambda>a. tracks plan a \<and> initialized = at_initialized a)
      (if \<not> initialized then return_act True
       else bind_act (called se ''disable_temporary'' (run_request (se_plan se)) (disabled_update (se_plan se)))
         (\<lambda>ok. if \<not> ok then return_act False else observed se ''read_disabled'')) (\<lambda>ok a. ok \<longrightarrow> stopped plan a)"
    using tracks_stopped assms by (cases initialized) (auto simp: hoare_def return_act_def)
qed

lemma restored_deleting:
  assumes "stopped plan a"
  shows "at_applied a \<Longrightarrow> deleting plan (rev (at_created (restored_update plan a))) (restored_update plan a)"
    and "\<not> at_applied a \<Longrightarrow> deleting plan (rev (at_created a)) a"
  using assms by (auto simp: stopped_def deleting_def restored_update_def Let_def)


definition taking_down :: "json \<Rightarrow> attempt \<Rightarrow> bool" where
  "taking_down plan a \<longleftrightarrow> deleting plan (rev (at_created a)) a"

lemma quiet_taking_down: "quiet (taking_down plan)"
  by (auto simp: quiet_def deleting_def taking_down_def locals_def Let_def)

lemma restore_takes_down:
  assumes "se_plan se = plan"
  shows "hoare (\<lambda>_. True) (stopped plan) (restore se) (\<lambda>ok a. ok \<longrightarrow> taking_down plan a)"
  unfolding restore_def
proof (rule hoare_bind [OF hoare_gets])
  fix applied
  have "hoare (\<lambda>_. True) (\<lambda>a. stopped plan a \<and> at_applied a)
      (called se ''restore_retained'' (jget (jget plan ''delta'') ''restore'') (restored_update plan)) (\<lambda>ok a. ok \<longrightarrow> taking_down plan a)"
    by (rule hoare_called_quiet [OF quiet_facts(5)]) (simp add: taking_down_def restored_deleting)
  then show "hoare (\<lambda>_. True) (\<lambda>a. stopped plan a \<and> applied = at_applied a)
      (if \<not> applied then return_act True
       else called se ''restore_retained'' (jget (jget (se_plan se) ''delta'') ''restore'') (restored_update (se_plan se)))
      (\<lambda>ok a. ok \<longrightarrow> taking_down plan a)"
    using restored_deleting(2) assms by (cases applied) (auto simp: hoare_def return_act_def taking_down_def)
qed

lemma deleting_done: "deleting plan [] a \<Longrightarrow> synced a \<Longrightarrow> offline plan a"
  by (auto simp: deleting_def offline_def initial_state_def baseline_part_def Let_def)

lemma offline_cleanup [simp]: "offline plan (a\<lparr>at_cleanup := cleanup, at_reason := reason\<rparr>) = offline plan a"
  by (simp add: offline_def synced_def)

text \<open>A step that stops the deletion leaves the cleanup unconfirmed.\<close>

definition unconfirmed :: "attempt \<Rightarrow> bool" where
  "unconfirmed a \<longleftrightarrow> at_cleanup a \<noteq> ''confirmed_offline''"

definition settled :: "json \<Rightarrow> attempt \<Rightarrow> bool" where
  "settled plan a \<longleftrightarrow> (at_cleanup a = ''confirmed_offline'' \<longrightarrow> offline plan a)"

lemma unconfirmed_facts: "deleting plan ns a \<Longrightarrow> unconfirmed a" "tracks plan a \<Longrightarrow> unconfirmed a"
    "stopped plan a \<Longrightarrow> unconfirmed a" "taking_down plan a \<Longrightarrow> unconfirmed a" "unconfirmed a \<Longrightarrow> settled plan a"
  by (auto simp: unconfirmed_def deleting_def tracks_def stopped_def taking_down_def settled_def restored_update_def)

lemma keeps_unconfirmed: "silent locals m \<Longrightarrow> keeps unconfirmed m"
  unfolding keeps_def silent_def unconfirmed_def locals_def by simp

lemma unconfirmed_called:
  assumes "\<And>a. at_cleanup (f a) = at_cleanup a"
  shows "keeps unconfirmed (called se i request f)"
  unfolding called_def by (intro keeps_intros keeps_unconfirmed locals_call keeps_modify) (simp add: unconfirmed_def assms)

lemma hoare_modify: "(\<And>a. P a \<Longrightarrow> Q (f a)) \<Longrightarrow> hoare (\<lambda>_. True) P (modify_act f) (\<lambda>_. Q)"
  by (simp add: hoare_def modify_act_def)

lemma settled_guard:
  assumes "hoare I P m (\<lambda>ok a. ok \<longrightarrow> Q a)" and "keeps unconfirmed m" and "\<And>a. P a \<Longrightarrow> unconfirmed a"
    and "hoare I Q k (\<lambda>_. settled plan)"
  shows "hoare I P (bind_act m (\<lambda>ok. if \<not> ok then return_act () else k)) (\<lambda>_. settled plan)"
proof (rule hoare_bind)
  show "hoare I P m (\<lambda>ok a. (ok \<longrightarrow> Q a) \<and> unconfirmed a)"
    by (rule hoare_pre [OF hoare_frame [OF assms(1,2)]]) (simp add: assms(3))
next
  fix ok
  show "hoare I (\<lambda>a. (ok \<longrightarrow> Q a) \<and> unconfirmed a) (if \<not> ok then return_act () else k) (\<lambda>_. settled plan)"
    using assms(4) unconfirmed_facts(5) by (cases ok) (auto simp: hoare_def return_act_def)
qed

lemma delete_resources_settled:
  assumes "se_plan se = plan"
  shows "set ns \<subseteq> {0, 1, 2} \<Longrightarrow> hoare (\<lambda>_. True) (\<lambda>a. deleting plan ns a \<and> synced a) (delete_resources se ns) (\<lambda>_. settled plan)"
proof (induction ns)
  case Nil
  show ?case using deleting_done by (auto simp: hoare_def modify_act_def settled_def)
next
  case (Cons n ns)
  let ?R = "\<lambda>a. deleting plan ns (a\<lparr>at_absent := at_absent a @ [n]\<rparr>)"
  have q: "quiet ?R" by (auto simp: quiet_def deleting_def locals_def Let_def)
  have u: "unconfirmed a" if "?R a" for a using that by (simp add: deleting_def unconfirmed_def)
  have d: "hoare (\<lambda>_. True) (\<lambda>a. deleting plan (n # ns) a \<and> synced a)
      (called se (numbered ''delete_resource_'' n) (resource_at plan n) (deleted_update n)) (\<lambda>ok a. ok \<longrightarrow> ?R a)"
    by (rule hoare_pre, rule hoare_called_quiet [OF quiet_facts(2)], erule deleted_deleting) simp
  have "hoare (\<lambda>_. True) ?R (observed se (numbered ''read_absent_'' n)) (\<lambda>ok a. ok \<longrightarrow> ?R a \<and> synced a)"
    by (rule hoare_synced [OF q]) (use known_number [of n] Cons.prems in auto)
  moreover have "hoare (\<lambda>_. True) (\<lambda>a. ?R a \<and> synced a)
      (then_act (modify_act (\<lambda>a. a\<lparr>at_absent := at_absent a @ [n]\<rparr>)) (delete_resources se ns)) (\<lambda>_. settled plan)"
    by (rule hoare_then [OF hoare_modify Cons.IH]) (use Cons.prems in \<open>auto simp: synced_def\<close>)
  ultimately have k: "hoare (\<lambda>_. True) ?R (bind_act (observed se (numbered ''read_absent_'' n)) (\<lambda>seen. if \<not> seen then return_act ()
      else then_act (modify_act (\<lambda>a. a\<lparr>at_absent := at_absent a @ [n]\<rparr>)) (delete_resources se ns))) (\<lambda>_. settled plan)"
    by (intro settled_guard [OF _ keeps_unconfirmed [OF locals_observed] u])
  show ?case
    unfolding delete_resources.simps assms
    by (rule settled_guard [OF d unconfirmed_called _ k]) (auto simp: deleted_update_def unconfirmed_facts)
qed


lemma deletions_settled:
  assumes "se_plan se = plan"
  shows "hoare agrees (\<lambda>a. taking_down plan a \<and> synced a)
    (bind_act (gets_act at_created) (\<lambda>created. delete_resources se (rev created))) (\<lambda>_. settled plan)"
proof (rule hoare_bind [OF hoare_gets])
  fix created
  show "hoare agrees (\<lambda>a. (taking_down plan a \<and> synced a) \<and> created = at_created a) (delete_resources se (rev created)) (\<lambda>_. settled plan)"
  proof (rule hoareI)
    fix a r b
    assume A: "agrees a" and P: "(taking_down plan a \<and> synced a) \<and> created = at_created a"
      and b: "delete_resources se (rev created) a = (r, b)"
    then have known: "set (rev created) \<subseteq> {0, 1, 2}" by (simp add: agrees_def)
    have "agrees b" by (rule keepsD [OF keeps_delete_resources [OF known] A b])
    moreover have "settled plan b" if "r = Inr x" for x
      using hoareD_value [OF delete_resources_settled [OF assms known], of a x b] P b that by (simp add: taking_down_def)
    ultimately show "agrees b \<and> (\<forall>x. r = Inr x \<longrightarrow> settled plan b)" by blast
  qed
qed

lemma with_agrees: "hoare (\<lambda>_. True) P m Q \<Longrightarrow> keeps agrees m \<Longrightarrow> hoare agrees P m Q"
  by (auto simp: hoare_def dest: keepsD)


lemma keeps_disable: "keeps agrees (disable se)"
  unfolding disable_def by (intro keeps_intros) (simp_all add: operations)

lemma keeps_restore: "keeps agrees (restore se)"
  unfolding restore_def by (intro keeps_intros) (simp_all add: operations)

lemma unconfirmed_disable: "keeps unconfirmed (disable se)"
  unfolding disable_def
  by (intro keeps_intros unconfirmed_called keeps_unconfirmed locals_observed) (simp add: updates)

lemma unconfirmed_restore: "keeps unconfirmed (restore se)"
  unfolding restore_def by (intro keeps_intros unconfirmed_called) (simp add: updates)

lemma clean_up_settled:
  assumes "se_plan se = plan"
  shows "hoare agrees (tracks plan) (clean_up se) (\<lambda>_. settled plan)"
proof -
  let ?last = "bind_act (gets_act at_created) (\<lambda>created. delete_resources se (rev created))"
  have seen: "hoare agrees (taking_down plan) (observed se ''read_restored'') (\<lambda>ok a. ok \<longrightarrow> taking_down plan a \<and> synced a)"
    by (intro with_agrees hoare_synced quiet_taking_down keeps_observed) (simp_all add: operations)
  let ?reads = "bind_act (observed se ''read_restored'') (\<lambda>seen. if \<not> seen then return_act () else ?last)"
  have reads: "hoare agrees (taking_down plan) ?reads (\<lambda>_. settled plan)"
    by (rule settled_guard [OF seen keeps_unconfirmed [OF locals_observed] unconfirmed_facts(4) deletions_settled [OF assms]])
  let ?rest = "bind_act (restore se) (\<lambda>restored. if \<not> restored then return_act () else ?reads)"
  have rest: "hoare agrees (stopped plan) ?rest (\<lambda>_. settled plan)"
    by (rule settled_guard [OF with_agrees [OF restore_takes_down [OF assms] keeps_restore]
        unconfirmed_restore unconfirmed_facts(3) reads])
  have "hoare agrees (tracks plan) (disable se) (\<lambda>ok a. (ok \<longrightarrow> stopped plan a) \<and> unconfirmed a)"
    by (rule hoare_pre [OF hoare_frame [OF with_agrees [OF disable_stops [OF assms] keeps_disable] unconfirmed_disable]])
       (simp add: unconfirmed_facts)
  then show ?thesis
    unfolding clean_up_def
  proof (rule hoare_bind)
    fix ok
    show "hoare agrees (\<lambda>a. (ok \<longrightarrow> stopped plan a) \<and> unconfirmed a)
        (bind_act (gets_act at_halted) (\<lambda>halted. if \<not> ok \<or> halted then return_act () else ?rest)) (\<lambda>_. settled plan)"
    proof (rule hoare_bind [OF hoare_gets])
      fix halted
      show "hoare agrees (\<lambda>a. ((ok \<longrightarrow> stopped plan a) \<and> unconfirmed a) \<and> halted = at_halted a)
          (if \<not> ok \<or> halted then return_act () else ?rest) (\<lambda>_. settled plan)"
        using rest unconfirmed_facts(5) by (cases "ok \<and> \<not> halted") (auto simp: hoare_def return_act_def)
    qed
  qed
qed


section \<open>The mark of the initialization\<close>

text \<open>
  The mark of the initialization is what the journal says of it, while the attempt goes on.
\<close>

definition marked :: "attempt \<Rightarrow> bool" where
  "marked a \<longleftrightarrow> agrees a \<and> (at_halted a \<or>
     at_initialized a = (''initialize_synthetic'' \<in> fst ` set (jf_attempts (at_journal a))))"

lemma halted_reconcile: "keeps at_halted (reconcile se is)"
proof -
  have "keeps at_halted (provider_act se i request)" for i request
    by (auto simp: keeps_def provider_act_def split: prod.split)
  moreover have "keeps at_halted (latch_act se i)" "keeps at_halted (finish_act se i d)" for i d
    by (auto simp: keeps_def latch_act_def finish_act_def split: sum.split prod.split)
  ultimately have "keeps at_halted (reconcile_one se i)" for i
    unfolding reconcile_one_def by (intro keeps_intros keeps_catch) (auto intro!: keeps_intros keeps_catch split: reply.split)
  then show ?thesis by (induction "is") (auto intro!: keeps_intros)
qed

lemma call_initialized: "call se i request a = (r, b) \<Longrightarrow> at_initialized b = at_initialized a"
  using silentD [OF locals_call, of se i request a r b] by (simp add: locals_def)

lemma call_marks:
  assumes "call se i request a = (r, b)" and "i \<in> set COMPOSITION_OPERATIONS" and "marked a"
  shows "(r = Inr (Some v) \<longrightarrow> i \<in> fst ` set (jf_attempts (at_journal b))) \<and> agrees b \<and>
    (marked b \<or> i = ''initialize_synthetic'' \<and> (\<exists>v. r = Inr (Some v)))"
proof -
  have b: "agrees b" using keepsD [OF keeps_call [OF assms(2)] _ assms(1)] assms(3) by (simp add: marked_def)
  from assms(1,2) show ?thesis
  proof (cases rule: call_cases)
    case (ambiguous f p q)
    have "keeps at_halted (then_act (reconcile se RECONCILE) (return_act (None :: json option)))"
      by (intro keeps_intros halted_reconcile)
    from keepsD [OF this _ ambiguous(7)] have "at_halted b" by simp
    with b ambiguous(7) show ?thesis by (auto simp: marked_def act_simps split: prod.splits sum.splits)
  qed (use b assms(3) in \<open>auto simp: marked_def\<close>)
qed

lemma marked_call:
  "i \<in> set COMPOSITION_OPERATIONS \<Longrightarrow> i \<noteq> ''initialize_synthetic'' \<Longrightarrow> keeps marked (call se i request)"
  unfolding keeps_def by (metis call_marks prod.collapse)

lemma marked_local:
  "(\<And>a. marked a \<Longrightarrow> agrees (f a) \<and> at_halted (f a) = at_halted a \<and> at_initialized (f a) = at_initialized a \<and> at_journal (f a) = at_journal a) \<Longrightarrow>
    keeps marked (modify_act f)"
  by (rule keeps_modify) (auto simp: marked_def)

lemma marked_called:
  assumes "i \<in> set COMPOSITION_OPERATIONS" and "i \<noteq> ''initialize_synthetic''"
    and "\<And>a. marked a \<Longrightarrow> agrees (f a) \<and> at_halted (f a) = at_halted a \<and> at_initialized (f a) = at_initialized a \<and> at_journal (f a) = at_journal a"
  shows "keeps marked (called se i request f)"
  unfolding called_def by (intro keeps_intros marked_call marked_local assms)

lemma marked_initialize: "keeps marked (called se ''initialize_synthetic'' request (initialized_update plan))"
  unfolding keeps_def
proof (intro allI impI)
  fix a assume a: "marked a"
  obtain r b where c: "call se ''initialize_synthetic'' request a = (r, b)" by force
  have "''initialize_synthetic'' \<in> set COMPOSITION_OPERATIONS" by (simp add: operations)
  note marks = call_marks [OF c this a]
  have "marked (initialized_update plan b)" if "r = Inr (Some v)" for v
    using marks [of v] that by (simp add: marked_def) (simp add: updates)
  moreover have "marked b" if "\<And>v. r \<noteq> Inr (Some v)" using marks that by blast
  ultimately show "marked (snd (called se ''initialize_synthetic'' request (initialized_update plan) a))"
    using c by (cases r; cases "projr r") (auto simp: called_def act_simps)
qed

lemma marked_agrees: "marked a \<Longrightarrow> agrees a"
  by (simp add: marked_def)

lemma marked_simps [simp]:
  "marked (a\<lparr>at_reason := reason\<rparr>) = marked a" "marked (a\<lparr>at_cleanup := cleanup\<rparr>) = marked a"
  "marked (a\<lparr>at_cleanup := cleanup, at_reason := reason\<rparr>) = marked a" "marked (a\<lparr>at_absent := absent\<rparr>) = marked a"
  by (simp_all add: marked_def agrees_def)

lemma marked_observed: "i \<in> set COMPOSITION_OPERATIONS \<Longrightarrow> i \<noteq> ''initialize_synthetic'' \<Longrightarrow> keeps marked (observed se i)"
  unfolding observed_def
  by (intro keeps_intros marked_call) (auto split: option.splits intro!: keeps_intros marked_local marked_agrees)

lemma marked_work_open: "keeps marked (work_open se)"
  unfolding work_open_def by (intro keeps_intros marked_local) (simp_all add: marked_agrees)

lemma marked_stage:
  assumes "keeps marked (called se i request f)" and "readback \<in> set COMPOSITION_OPERATIONS" and "readback \<noteq> ''initialize_synthetic''"
  shows "keeps marked (stage se ready i request f readback)"
  unfolding stage_def by (intro keeps_intros marked_work_open marked_observed assms)

lemma other_number:
  "numbered ''create_resource_'' n \<noteq> ''initialize_synthetic''" "numbered ''read_resource_'' n \<noteq> ''initialize_synthetic''"
  "numbered ''delete_resource_'' n \<noteq> ''initialize_synthetic''" "numbered ''read_absent_'' n \<noteq> ''initialize_synthetic''"
  by (simp_all add: numbered_def)

lemma marked_create_resources: "set ns \<subseteq> {0, 1, 2} \<Longrightarrow> keeps marked (create_resources se ns)"
proof (induction ns)
  case (Cons n ns)
  with known_number [of n] show ?case
    unfolding create_resources.simps
    by (intro keeps_intros marked_called marked_observed marked_work_open other_number)
      (simp_all add: marked_agrees, simp_all add: created_update_def)
qed simp

lemma marked_delete_resources: "set ns \<subseteq> {0, 1, 2} \<Longrightarrow> keeps marked (delete_resources se ns)"
proof (induction ns)
  case Nil
  show ?case unfolding delete_resources.simps by (rule marked_local) (simp add: marked_def agrees_def)
next
  case (Cons n ns)
  with known_number [of n] show ?case
    unfolding delete_resources.simps
    by (intro keeps_intros marked_called marked_observed marked_local other_number)
      (simp_all add: marked_agrees, simp_all add: updates)
qed

lemma marked_deletions: "keeps marked (bind_act (gets_act at_created) (\<lambda>created. delete_resources se (rev created)))"
  unfolding keeps_def
proof (intro allI impI)
  fix a assume a: "marked a"
  then have "set (rev (at_created a)) \<subseteq> {0, 1, 2}" by (simp add: marked_def agrees_def)
  from marked_delete_resources [OF this] a
  show "marked (snd (bind_act (gets_act at_created) (\<lambda>created. delete_resources se (rev created)) a))"
    by (simp add: keeps_def)
qed

lemma marked_rehearse_body: "keeps marked (rehearse_body se)"
  unfolding rehearse_body_def apply_temporary_def not_applied_def clean_up_def disable_def restore_def
  by (intro keeps_intros marked_deletions marked_create_resources marked_stage marked_initialize marked_called
      marked_observed marked_work_open marked_local)
    (simp_all add: operations marked_agrees, simp_all add: updates)



section \<open>The whole attempt\<close>

lemma tracks_with:
  "hoare (tracks plan) P m Q \<Longrightarrow> keeps agrees m \<Longrightarrow> hoare agrees (\<lambda>a. tracks plan a \<and> P a) m (\<lambda>x a. tracks plan a \<and> Q x a)"
  by (auto simp: hoare_def dest: keepsD)

lemma tracks_both: "keeps agrees m \<Longrightarrow> keeps (tracks plan) m \<Longrightarrow> hoare agrees (tracks plan) m (\<lambda>_. tracks plan)"
  by (auto simp: hoare_def dest: keepsD)

lemma keeps_tracks: "silent locals m \<Longrightarrow> keeps (tracks plan) m"
  unfolding keeps_def silent_def using tracks_locals by blast

lemma keeps_apply: "keeps agrees (apply_temporary se ready)"
  unfolding apply_temporary_def by (intro keeps_intros) (simp_all add: operations)

lemma tracks_apply: "se_plan se = plan \<Longrightarrow> keeps (tracks plan) (apply_temporary se ready)"
  unfolding apply_temporary_def called_def
  by (intro keeps_intros keeps_tracks locals_call locals_observed locals_work_open keeps_modify) (simp add: tracks_updates)

lemma build_settled:
  assumes "se_plan se = plan"
  shows "hoare agrees (tracks plan)
    (bind_act (create_resources se [0, 1, 2]) (\<lambda>r1.
       bind_act (stage se r1 ''initialize_synthetic'' (start_request (se_plan se)) (initialized_update (se_plan se)) ''read_initialized'') (\<lambda>r2.
       bind_act (stage se r2 ''upload_version'' (upload_request (se_plan se)) (uploaded_update (se_plan se)) ''read_version'') (\<lambda>r3.
       then_act (apply_temporary se r3) (clean_up se))))) (\<lambda>_. settled plan)"
proof (rule hoare_bind)
  have "hoare (tracks plan) (\<lambda>a. has_created {} (locals a)) (create_resources se [0, 1, 2])
      (\<lambda>ok a. ok \<longrightarrow> has_created ({} \<union> set [0, 1, 2]) (locals a))"
    by (rule tracks_create_resources [OF assms])
  from tracks_with [OF this keeps_create_resources]
  show "hoare agrees (tracks plan) (create_resources se [0, 1, 2])
      (\<lambda>ok a. tracks plan a \<and> (ok \<longrightarrow> has_created {0, 1, 2} (locals a)))" by simp
next
  fix r1
  have s1: "hoare agrees (\<lambda>a. tracks plan a \<and> (r1 \<longrightarrow> has_created {0, 1, 2} (locals a)))
      (stage se r1 ''initialize_synthetic'' (start_request (se_plan se)) (initialized_update (se_plan se)) ''read_initialized'')
      (\<lambda>_. tracks plan)"
    by (rule hoare_post, rule tracks_with [OF tracks_stage keeps_stage]) (simp_all add: assms operations tracks_updates)
  have s2: "hoare agrees (tracks plan)
      (stage se r2 ''upload_version'' (upload_request (se_plan se)) (uploaded_update (se_plan se)) ''read_version'')
      (\<lambda>_. tracks plan)" for r2
    by (rule hoare_pre, rule hoare_post, rule tracks_with [OF tracks_stage [where A = "\<lambda>_. True"] keeps_stage])
       (simp_all add: assms operations tracks_updates)
  have "hoare agrees (tracks plan) (then_act (apply_temporary se r3) (clean_up se)) (\<lambda>_. settled plan)" for r3
    by (rule hoare_then [OF tracks_both [OF keeps_apply tracks_apply [OF assms]] clean_up_settled [OF assms]])
  then show "hoare agrees (\<lambda>a. tracks plan a \<and> (r1 \<longrightarrow> has_created {0, 1, 2} (locals a)))
     (bind_act (stage se r1 ''initialize_synthetic'' (start_request (se_plan se)) (initialized_update (se_plan se)) ''read_initialized'') (\<lambda>r2.
       bind_act (stage se r2 ''upload_version'' (upload_request (se_plan se)) (uploaded_update (se_plan se)) ''read_version'') (\<lambda>r3.
       then_act (apply_temporary se r3) (clean_up se)))) (\<lambda>_. settled plan)"
    by (intro hoare_bind [OF s1] hoare_bind [OF s2])
qed

lemma pass_settled:
  assumes "silent locals (m :: (attempt, bool) act)" and "keeps agrees m" and "hoare agrees (tracks plan) k (\<lambda>_. settled plan)"
    and "hoare agrees (tracks plan) l (\<lambda>_. settled plan)"
  shows "hoare agrees (tracks plan) (bind_act m (\<lambda>ok. if \<not> ok then l else k)) (\<lambda>_. settled plan)"
  by (rule hoare_bind [OF tracks_both [OF assms(2) keeps_tracks [OF assms(1)]]]) (auto intro: assms(3,4))

lemma body_settled:
  assumes "se_plan se = plan"
  shows "hoare agrees (tracks plan) (rehearse_body se) (\<lambda>_. settled plan)"
proof -
  have n: "hoare agrees (tracks plan) not_applied (\<lambda>_. settled plan)"
    by (simp add: hoare_def not_applied_def modify_act_def settled_def)
  have r: "hoare agrees (tracks plan) (return_act ()) (\<lambda>_. settled plan)"
    by (rule hoare_return) (simp add: unconfirmed_facts)
  show ?thesis
    unfolding rehearse_body_def
    by (intro pass_settled n r build_settled assms locals_work_open locals_observed keeps_work_open keeps_observed)
       (simp add: operations)
qed

lemma all_accepted: "\<forall>(i, d)\<in>set xs. d = c \<Longrightarrow> i \<in> fst ` set xs \<longleftrightarrow> (i, c) \<in> set xs"
  by (induction xs) auto

lemma settled_reason: "settled plan (a\<lparr>at_reason := reason\<rparr>) = settled plan a" "agrees (a\<lparr>at_reason := reason\<rparr>) = agrees a"
  by (simp_all add: settled_def offline_def synced_def)

lemma run_settled:
  assumes "rehearse_composition plan h f p now stop dies = (Inr c, b)"
  obtains se where "c = receipt_of se b" "se_plan se = plan" "agrees b" "settled plan b" "marked b"
  using assms
proof (cases rule: rehearse_cases)
  case (2 g se q)
  then obtain u where q: "q = Inr u" and c: "c = receipt_of se b" by (cases q) auto
  with 2(6) obtain a where body: "rehearse_body se (start_attempt plan p g) = (Inr (), a)" and b: "last_reason a = (Inr (), b)"
    by (auto simp: then_act_def bind_act_Inr)
  have A: "agrees (start_attempt plan p g)" using 2 started [OF 2(3)] by (auto intro: agrees_start)
  have "marked (start_attempt plan p g)"
    using A 2(1) started [OF 2(3)] by (simp add: marked_def start_attempt_def)
  from keepsD [OF marked_rehearse_body this body] have "marked a" .
  moreover have "settled plan a" by (rule hoareD_value [OF body_settled [OF 2(4)] A tracks_start body])
  ultimately have "marked b \<and> settled plan b"
    using b by (auto simp: last_reason_def modify_act_def settled_reason)
  then have "agrees b \<and> settled plan b \<and> marked b" by (simp add: marked_agrees)
  with c 2(4) that show thesis by blast
qed simp

text \<open>
  C4: a confirmed cleanup leaves the baseline: when the receipt says so, the state of the
  provider is in canonical text the state it started from, with no resource owned, no
  receiver and no quota scope, admission closed and the baseline serving, except for three
  fields: an attempt whose initialization was accepted leaves the initialised mark and the
  admission revision 2, and an uploaded version stays exactly when the receipt names a
  retained one. No operation is pending and no resource is left to reconcile.
\<close>

theorem rehearsal_confirms:
  assumes "rehearse_composition plan h f p now stop dies = (Inr c, b)" and "cr_cleanup c = ''confirmed_offline''"
  shows "(let initialized = ((''initialize_synthetic'', ''accepted'') \<in> set (jf_attempts (at_journal b))) in
      dumps (state_json (pr_state (at_provider b))) =
      dumps (state_json ((initial_state plan)\<lparr>ps_admission := admission plan False (if initialized then 2 else 1),
        ps_initialized := initialized, ps_uploaded := (if cr_retained c = None then JNull else upload_request plan)\<rparr>))) \<and>
    cr_pending c = [] \<and> cr_requiring c = [] \<and> cr_unacknowledged c = []"
proof -
  from assms(1) obtain se where c: "c = receipt_of se b" "se_plan se = plan" and A: "agrees b" and S: "settled plan b" and M: "marked b"
    by (rule run_settled)
  with assms(2) have o: "offline plan b" by (simp add: settled_def receipt_of_def)
  then have accepted: "\<forall>(i, d)\<in>set (jf_attempts (at_journal b)). d = ''accepted''"
    using A by (simp add: offline_def synced_def agrees_def failed_Nil)
  have "dumps (state_json (pr_state (at_provider b))) = dumps (state_json (at_expected b))"
    using o by (simp add: offline_def synced_def)
  moreover have "at_initialized b = ((''initialize_synthetic'', ''accepted'') \<in> set (jf_attempts (at_journal b)))"
    using M o by (simp add: marked_def offline_def synced_def all_accepted [OF accepted])
  moreover have "cr_retained c = None \<longleftrightarrow> \<not> at_uploaded b" by (simp add: c receipt_of_def)
  moreover have "cr_pending c = []" "cr_unacknowledged c = []"
    using accepted by (auto simp: c receipt_of_def pending_def filter_empty_conv)
  moreover have "cr_requiring c = []"
    using o by (auto simp: c receipt_of_def offline_def filter_empty_conv)
  ultimately show ?thesis using o by (simp add: offline_def)
qed

end
