(* ===== verification/Composition_Faultless.thy ===== *)
theory Composition_Faultless
  imports Composition_Attempt
begin

text \<open>
  The rehearsal without faults: on every plan that builds, a provider that answers in time
  carries the attempt through to the confirmed cleanup.
\<close>

section \<open>What a built plan provides\<close>

definition rehearsable :: "json \<Rightarrow> bool" where
  "rehearsable plan \<longleftrightarrow>
     jget (additions_of plan) ''resources'' = JArr (map (resource_at plan) [0, 1, 2]) \<and>
     distinct (map (\<lambda>n. jget (resource_at plan n) ''identity'') [0, 1, 2]) \<and>
     jput ''productionState'' (jget (baseline_part plan) ''productionState'') (temporary_part plan) = temporary_part plan \<and>
     jput ''productionState'' (jget (temporary_part plan) ''productionState'') (baseline_part plan) = baseline_part plan"

lemma scan_resources_distinct:
  "scan_resources owner seen rs = Inr ids \<Longrightarrow> distinct (map (\<lambda>r. jget r ''identity'') rs) \<and>
     (\<forall>r\<in>set rs. jget r ''identity'' \<notin> JStr ` set seen)"
proof (induction owner seen rs rule: scan_resources.induct)
  case (2 owner seen r rs)
  from 2(2) obtain j where j: "jget r ''identity'' = JStr j" and r: "scan_resources owner (j # seen) rs = Inr ids" "j \<notin> set seen"
    by (auto simp: bind_res_Inr identity_def jstring_def split: json.splits)
  have "distinct (map (\<lambda>r. jget r ''identity'') rs) \<and> (\<forall>x\<in>set rs. jget x ''identity'' \<notin> JStr ` set (j # seen))"
    using 2(1) 2(2) r(1) j by (auto simp: bind_res_Inr jstring_def)
  with j r(2) show ?case by (auto simp: image_iff)
qed simp


lemma built_plan:
  assumes "build_delta baseline additions = Inr delta" and "build_composition_plan delta start = Inr plan"
  obtains n where "plan = plan_json delta n" "rehearsable plan" "start = JInt n"
proof -
  obtain names existing ids refs where d: "delta = delta_of baseline additions"
    and ids: "resources (Some (jstring (jget additions ''run''))) (jget additions ''resources'') = Inr ids"
    and kinds: "map (\<lambda>r. jget r ''kind'') (elements (jget additions ''resources'')) = [JStr ''d1'', JStr ''d1'', JStr ''worker'']"
    by (rule built_inventories [OF assms(1)])
  obtain n where n: "start = JInt n" and p: "plan = plan_json delta n"
    using assms(2) by (auto simp: build_composition_plan_def bind_res_Inr split: json.splits)
  have parts: "additions_of plan = additions" "baseline_part plan = baseline" "temporary_part plan = temporary_of baseline additions"
    by (simp_all add: additions_of_def baseline_part_def temporary_part_def p plan_json_def d delta_of_def jget_def items_def)
  let ?rs = "elements (jget additions ''resources'')"
  have len: "length ?rs = 3" using arg_cong [OF kinds, of length] by simp
  have at: "map (resource_at plan) [0, 1, 2] = ?rs"
    using len by (auto simp: resource_at_def parts list_eq_iff_nth_eq less_Suc_eq numeral_3_eq_3 numeral_2_eq_2)
  have arr: "is_arr (jget additions ''resources'')" and "scan_resources (Some (jstring (jget additions ''run''))) [] ?rs = Inr ids"
    using ids by (auto simp: resources_def)
  then have "distinct (map (\<lambda>r. jget r ''identity'') ?rs)" using scan_resources_distinct by blast
  then have "distinct (map (\<lambda>n. jget (resource_at plan n) ''identity'') [0, 1, 2])"
    unfolding at [symmetric] by (simp add: o_def)
  moreover have "validate_baseline baseline = Inr ()" using assms(1) by (auto simp: build_delta_def bind_res_Inr)
  then have "is_obj baseline" "''productionState'' \<in> set (map fst (items baseline))"
    by (auto simp: validate_baseline_def keys_are_Inr BASELINE_KEYS_def bind_res_Inr)
  then have "jput ''productionState'' (jget baseline ''productionState'') baseline = baseline" by (rule jput_same)
  moreover have t: "is_obj (temporary_of baseline additions)"
    "''productionState'' \<in> set (map fst (items (temporary_of baseline additions)))"
    "jget (temporary_of baseline additions) ''productionState'' = jget baseline ''productionState''"
    using \<open>''productionState'' \<in> set (map fst (items baseline))\<close>
    by (simp_all add: temporary_of_def Let_def jput_keys del: set_map)
  moreover have "jput ''productionState'' (jget (temporary_of baseline additions) ''productionState'') (temporary_of baseline additions)
      = temporary_of baseline additions"
    by (rule jput_same [OF t(1,2)])
  ultimately have "rehearsable plan"
    using arr_elements [OF arr] at by (simp add: rehearsable_def parts)
  with n p that show thesis by blast
qed



section \<open>One step\<close>

text \<open>After \<open>k\<close> operations, all acknowledged, the provider is where the attempt expects it to be.\<close>

definition at_step :: "setting \<Rightarrow> int \<Rightarrow> nat \<Rightarrow> provider_state \<Rightarrow> provider_state \<Rightarrow> bool \<Rightarrow> bool \<Rightarrow> nat list \<Rightarrow> attempt \<Rightarrow> bool" where
  "at_step se tick k s e applied initialized created a \<longleftrightarrow>
     \<not> at_halted a \<and> jf_attempts (at_journal a) = map (\<lambda>i. (i, ''accepted'')) (take k COMPOSITION_OPERATIONS) \<and>
     assert_owner (se_handle se) (at_journal a) = Inr () \<and>
     pr_plan (at_provider a) = se_plan se \<and> pr_faults (at_provider a) = [] \<and> pr_tick (at_provider a) = tick \<and>
     pr_elapsed (at_provider a) = int k * tick \<and> \<not> pr_stop (at_provider a) \<and>
     pr_state (at_provider a) = s \<and> at_expected a = e \<and> at_applied a = applied \<and> at_initialized a = initialized \<and> at_created a = created"

text \<open>The setting of a rehearsal that is in time.\<close>

definition in_time :: "setting \<Rightarrow> int \<Rightarrow> bool" where
  "in_time se tick \<longleftrightarrow> 0 \<le> tick \<and> tick \<le> 25000 \<and> se_base se = start_of (se_plan se) \<and> \<not> se_stop se \<and> se_dies se = None \<and>
     hd_plan (se_handle se) = se_plan se \<and>
     jget (se_plan se) ''operations'' = JArr (map JStr COMPOSITION_OPERATIONS) \<and> jget (se_plan se) ''operationCap'' = JInt 25"

lemma at_step_time:
  assumes "in_time se tick" and "k \<le> 23"
  shows "se_base se + int k * tick < work_end (se_plan se)" and "se_base se + int k * tick < outer_end (se_plan se)"
proof -
  have "int k * tick \<le> 23 * 25000" using assms by (intro mult_mono) (simp_all add: in_time_def)
  with assms show "se_base se + int k * tick < work_end (se_plan se)" "se_base se + int k * tick < outer_end (se_plan se)"
    by (simp_all add: in_time_def work_end_def outer_end_def WORK_MS_def OUTER_MS_def)
qed

lemma operations_length: "length COMPOSITION_OPERATIONS = 23"
  by (simp add: operations)

lemma call_step:
  assumes t: "in_time se tick" and a: "at_step se tick k s e applied initialized created a" and k: "k < 23"
    and i: "COMPOSITION_OPERATIONS ! k = i" and e: "effect (se_plan se) i request s = Some s'"
  shows "\<exists>b. call se i request a = (Inr (Some (state_json s')), b) \<and> at_step se tick (Suc k) s' e applied initialized created b"
proof -
  let ?p = "(at_provider a)\<lparr>pr_calls := pr_calls (at_provider a) @ [i], pr_elapsed := int (Suc k) * tick, pr_state := s'\<rparr>"
  let ?f = "\<lambda>d. (at_journal a)\<lparr>jf_attempts := jf_attempts (at_journal a) @ [(i, d)]\<rparr>"
  have mem: "i \<in> set COMPOSITION_OPERATIONS" using i k by (auto simp: operations_length)
  have fresh: "i \<notin> set (take k COMPOSITION_OPERATIONS)"
    using operations_distinct i k by (auto simp: in_set_conv_nth nth_eq_iff_index_eq operations_length)
  have l: "latch i (se_handle se) (at_journal a) = Inr (?f ''pending'')"
    using t a mem fresh k by (auto simp: latched_iff in_time_def at_step_def elements_def operation_cap_def operations_length image_image)
  have c: "provider_call i request (at_provider a) = (Accepted (state_json s'), ?p)"
    using a mem e by (simp add: provider_call_def at_step_def Let_def fault_reply_def distrib_right)
  have "\<not> expired se a" using at_step_time(2) [OF t, of k] a k by (simp add: expired_def at_step_def)
  moreover have "\<not> expired se (a\<lparr>at_provider := ?p, at_journal := ?f ''accepted''\<rparr>)"
    using at_step_time(2) [OF t, of "Suc k"] k by (simp add: expired_def)
  moreover have "\<not> at_halted a" using a by (simp add: at_step_def)
  moreover have "finish i ''accepted'' (se_handle se) (?f ''pending'') = (Inr (), ?f ''accepted'')"
    by (rule finish_latched [OF l]) simp
  ultimately have "call se i request a = (Inr (Some (state_json s')), a\<lparr>at_provider := ?p, at_journal := ?f ''accepted''\<rparr>)"
    using l c t by (simp add: in_time_def call_def latch_act_def provider_act_def finish_act_def act_simps)
  moreover have "at_step se tick (Suc k) s' e applied initialized created (a\<lparr>at_provider := ?p, at_journal := ?f ''accepted''\<rparr>)"
    using a i k by (simp add: at_step_def take_Suc_conv_app_nth operations_length assert_owner_def)
  ultimately show ?thesis by blast
qed


lemma total_called:
  assumes "in_time se tick" and "k < 23" and "COMPOSITION_OPERATIONS ! k = i" and "effect (se_plan se) i request s = Some s'"
    and "\<And>a. at_step se tick (Suc k) s' e applied initialized created a \<Longrightarrow> at_step se tick (Suc k) s' e' applied' initialized' created' (f a)"
  shows "total (at_step se tick k s e applied initialized created) (called se i request f)
    (\<lambda>ok a. ok \<and> at_step se tick (Suc k) s' e' applied' initialized' created' a)"
proof (rule totalI)
  fix a assume a: "at_step se tick k s e applied initialized created a"
  from call_step [OF assms(1) a assms(2-4)] assms(5)
  show "\<exists>ok b. called se i request f a = (Inr ok, b) \<and> (ok \<and> at_step se tick (Suc k) s' e' applied' initialized' created' b)"
    by (auto simp: called_def act_simps)
qed

lemma total_observed:
  assumes "in_time se tick" and "k < 23" and "COMPOSITION_OPERATIONS ! k = i" and "effect (se_plan se) i (JObj []) e = Some e"
  shows "total (at_step se tick k e e applied initialized created) (observed se i)
    (\<lambda>ok a. ok \<and> at_step se tick (Suc k) e e applied initialized created a)"
proof (rule totalI)
  fix a assume a: "at_step se tick k e e applied initialized created a"
  obtain b where b: "call se i (JObj []) a = (Inr (Some (state_json e)), b)"
    and s: "at_step se tick (Suc k) e e applied initialized created b"
    using call_step [OF assms(1) a assms(2-4)] by blast
  from s have "at_expected b = e" by (simp add: at_step_def)
  with b have "observed se i a = (Inr True, b)" by (simp add: observed_def act_simps)
  with s show "\<exists>ok b. observed se i a = (Inr ok, b) \<and> (ok \<and> at_step se tick (Suc k) e e applied initialized created b)" by blast
qed

lemma total_work_open:
  assumes "in_time se tick" and "k \<le> 23"
  shows "total (at_step se tick k s e applied initialized created) (work_open se)
    (\<lambda>ok a. ok \<and> at_step se tick k s e applied initialized created a)"
proof (rule totalI)
  fix a assume a: "at_step se tick k s e applied initialized created a"
  have "work_open se a = (Inr True, a)"
    using assms(1) at_step_time(1) [OF assms] a by (simp add: work_open_def at_step_def in_time_def act_simps)
  with a show "\<exists>ok b. work_open se a = (Inr ok, b) \<and> (ok \<and> at_step se tick k s e applied initialized created b)" by blast
qed

lemma total_guard:
  assumes "total P m (\<lambda>ok a. ok \<and> Q a)" and "total Q k R"
  shows "total P (bind_act m (\<lambda>ok. if \<not> ok then l else k)) R"
proof (rule total_bind [OF assms(1)])
  fix ok
  show "total (\<lambda>a. ok \<and> Q a) (if \<not> ok then l else k) R"
    using assms(2) by (cases ok) (simp_all add: total_def)
qed

lemma total_stage:
  assumes "in_time se tick" and "k < 22" and "COMPOSITION_OPERATIONS ! k = i" and "COMPOSITION_OPERATIONS ! Suc k = j"
    and "effect (se_plan se) i request e = Some e'" and "effect (se_plan se) j (JObj []) e' = Some e'"
    and "\<And>a. at_step se tick (Suc k) e' e applied initialized created a \<Longrightarrow> at_step se tick (Suc k) e' e' applied' initialized' created' (f a)"
  shows "total (at_step se tick k e e applied initialized created) (stage se True i request f j)
    (\<lambda>ok a. ok \<and> at_step se tick (Suc (Suc k)) e' e' applied' initialized' created' a)"
  unfolding stage_def not_True_eq_False if_False
  by (rule total_guard [OF total_work_open [OF assms(1)] total_guard [OF total_called [OF assms(1) _ assms(3,5,7)]
        total_observed [OF assms(1) _ assms(4,6)]]]) (use assms(2) in simp_all)


section \<open>The states of the run\<close>

definition with_owned :: "json \<Rightarrow> nat \<Rightarrow> provider_state \<Rightarrow> provider_state" where
  "with_owned plan n s = s\<lparr>ps_owned := map (resource_at plan) [0..<n],
     ps_artifact := (if n = 3 then jget (additions_of plan) ''receiver'' else JNull)\<rparr>"

definition reads :: "string list" where
  "reads = [''read_baseline'', ''read_resource_0'', ''read_resource_1'', ''read_resource_2'', ''read_initialized'', ''read_version'',
     ''read_temporary'', ''read_disabled'', ''read_restored'', ''read_absent_2'', ''read_absent_1'', ''read_absent_0'']"

definition others :: "string list" where
  "others = [''initialize_synthetic'', ''upload_version'', ''apply_temporary'', ''disable_temporary'', ''restore_retained'']"

lemma read_names: "list_all (\<lambda>i. number_of ''create_resource_'' i = None \<and> number_of ''delete_resource_'' i = None \<and> i \<notin> set others) reads"
  by code_simp

lemma other_names: "list_all (\<lambda>i. number_of ''create_resource_'' i = None) others"
  by code_simp

lemma create_names: "list_all (\<lambda>n. number_of ''create_resource_'' (numbered ''create_resource_'' n) = Some n) [0, 1, 2]"
  by code_simp

lemma delete_names: "list_all (\<lambda>n. number_of ''create_resource_'' (numbered ''delete_resource_'' n) = None \<and>
    numbered ''delete_resource_'' n \<notin> set others \<and> number_of ''delete_resource_'' (numbered ''delete_resource_'' n) = Some n) [0, 1, 2]"
  by code_simp

lemma effect_read: "i \<in> set reads \<Longrightarrow> effect plan i (JObj []) s = Some s"
  using read_names by (simp add: effect_def list_all_iff others_def)

lemma effect_create: "n < 3 \<Longrightarrow> effect plan (numbered ''create_resource_'' n) request s = create_effect plan n request s"
proof -
  assume "n < 3"
  then have "n \<in> set [0, 1, 2]" by auto
  with create_names have "number_of ''create_resource_'' (numbered ''create_resource_'' n) = Some n" unfolding list_all_iff by blast
  then show ?thesis by (simp only: effect_def option.case)
qed

lemma effect_delete: "n < 3 \<Longrightarrow> effect plan (numbered ''delete_resource_'' n) request s = delete_effect plan n request s"
proof -
  assume "n < 3"
  then have "n \<in> set [0, 1, 2]" by auto
  with delete_names have "number_of ''create_resource_'' (numbered ''delete_resource_'' n) = None"
    "numbered ''delete_resource_'' n \<notin> set others" "number_of ''delete_resource_'' (numbered ''delete_resource_'' n) = Some n"
    unfolding list_all_iff by blast+
  then show ?thesis by (simp only: effect_def option.case others_def list.set insert_iff empty_iff de_Morgan_disj if_False)
qed

lemma created_step:
  assumes "rehearsable plan" and "n < 3" and "s = with_owned plan n (initial_state plan)"
  shows "create_effect plan n (create_request plan n) s = Some (with_owned plan (Suc n) (initial_state plan))"
  using assms by (auto simp: create_effect_def rehearsable_def with_owned_def initial_state_def less_Suc_eq numeral_3_eq_3 numeral_2_eq_2)


lemma places: "list_all (\<lambda>n. COMPOSITION_OPERATIONS ! (2 * n + 1) = numbered ''create_resource_'' n \<and>
    COMPOSITION_OPERATIONS ! (2 * n + 2) = numbered ''read_resource_'' n \<and>
    COMPOSITION_OPERATIONS ! (21 - 2 * n) = numbered ''delete_resource_'' n \<and>
    COMPOSITION_OPERATIONS ! (22 - 2 * n) = numbered ''read_absent_'' n \<and>
    numbered ''read_resource_'' n \<in> set reads \<and> numbered ''read_absent_'' n \<in> set reads) [0, 1, 2]"
  by code_simp

lemma place:
  assumes "n < 3"
  shows "COMPOSITION_OPERATIONS ! (2 * n + 1) = numbered ''create_resource_'' n"
    and "COMPOSITION_OPERATIONS ! Suc (2 * n + 1) = numbered ''read_resource_'' n"
    and "COMPOSITION_OPERATIONS ! (21 - 2 * n) = numbered ''delete_resource_'' n"
    and "COMPOSITION_OPERATIONS ! Suc (21 - 2 * n) = numbered ''read_absent_'' n"
    and "numbered ''read_resource_'' n \<in> set reads" and "numbered ''read_absent_'' n \<in> set reads"
proof -
  have "n \<in> set [0, 1, 2]" using assms by auto
  moreover have "Suc (2 * n + 1) = 2 * n + 2" "Suc (21 - 2 * n) = 22 - 2 * n" using assms by simp_all
  ultimately show "COMPOSITION_OPERATIONS ! (2 * n + 1) = numbered ''create_resource_'' n"
    "COMPOSITION_OPERATIONS ! Suc (2 * n + 1) = numbered ''read_resource_'' n"
    "COMPOSITION_OPERATIONS ! (21 - 2 * n) = numbered ''delete_resource_'' n"
    "COMPOSITION_OPERATIONS ! Suc (21 - 2 * n) = numbered ''read_absent_'' n"
    "numbered ''read_resource_'' n \<in> set reads" "numbered ''read_absent_'' n \<in> set reads"
    using places unfolding list_all_iff by metis+
qed

lemma total_create_one:
  assumes t: "in_time se tick" and r: "rehearsable (se_plan se)" and n: "n < 3" and e: "e = with_owned (se_plan se) n (initial_state (se_plan se))"
    and rest: "total (at_step se tick (2 * n + 3) e' e' False False [0..<Suc n]) (create_resources se ns) Q"
    and e': "e' = with_owned (se_plan se) (Suc n) (initial_state (se_plan se))"
  shows "total (at_step se tick (2 * n + 1) e e False False [0..<n]) (create_resources se (n # ns)) Q"
  unfolding create_resources.simps
proof (intro total_guard)
  have k: "2 * n + 1 < 23" "Suc (2 * n + 1) < 23" "2 * n + 1 \<le> 23" using n by simp_all
  show "total (at_step se tick (2 * n + 1) e e False False [0..<n]) (work_open se)
      (\<lambda>ok a. ok \<and> at_step se tick (2 * n + 1) e e False False [0..<n] a)" by (rule total_work_open [OF t k(3)])
  have "effect (se_plan se) (numbered ''create_resource_'' n) (create_request (se_plan se) n) e = Some e'"
    unfolding effect_create [OF n] e' by (rule created_step [OF r n e])
  then show "total (at_step se tick (2 * n + 1) e e False False [0..<n])
      (called se (numbered ''create_resource_'' n) (create_request (se_plan se) n) (created_update (se_plan se) n))
      (\<lambda>ok a. ok \<and> at_step se tick (Suc (2 * n + 1)) e' e' False False [0..<Suc n] a)"
    by (rule total_called [OF t k(1) place(1) [OF n]])
       (use n in \<open>auto simp: at_step_def created_update_def e e' with_owned_def\<close>)
  show "total (at_step se tick (Suc (2 * n + 1)) e' e' False False [0..<Suc n]) (observed se (numbered ''read_resource_'' n))
      (\<lambda>ok a. ok \<and> at_step se tick (2 * n + 3) e' e' False False [0..<Suc n] a)"
    using total_observed [OF t k(2) place(2) [OF n] effect_read [OF place(5) [OF n]]] by (simp add: numeral_3_eq_3)
qed (rule rest)


lemma upto_3: "[0..<3] = [0, 1, 2 :: nat]"
  by code_simp

lemma total_created:
  assumes "in_time se tick" and "rehearsable (se_plan se)"
  shows "total (at_step se tick 1 (initial_state (se_plan se)) (initial_state (se_plan se)) False False []) (create_resources se [0, 1, 2])
    (\<lambda>ok a. ok \<and> at_step se tick 7 (with_owned (se_plan se) 3 (initial_state (se_plan se)))
       (with_owned (se_plan se) 3 (initial_state (se_plan se))) False False [0, 1, 2] a)"
proof -
  let ?E = "\<lambda>n. with_owned (se_plan se) n (initial_state (se_plan se))"
  let ?S = "\<lambda>n. at_step se tick (2 * n + 1) (?E n) (?E n) False False [0..<n]"
  let ?Q = "\<lambda>ok a. ok \<and> ?S 3 a"
  have c3: "total (?S 3) (create_resources se []) ?Q" unfolding create_resources.simps by (rule total_return) simp
  have next_step: "total (?S (Suc n)) (create_resources se ns) ?Q \<Longrightarrow> n < 3 \<Longrightarrow> total (?S n) (create_resources se (n # ns)) ?Q" for n ns
    by (rule total_create_one [OF assms _ refl _ refl]) (simp_all add: numeral_3_eq_3)
  from next_step [of 2] c3 have "total (?S 2) (create_resources se [2]) ?Q" by (simp add: numeral_3_eq_3)
  with next_step [of 1] have "total (?S 1) (create_resources se [1, 2]) ?Q" by (simp add: numeral_2_eq_2)
  with next_step [of 0] have "total (?S 0) (create_resources se [0, 1, 2]) ?Q" by simp
  moreover have "?E 0 = initial_state (se_plan se)" by (simp add: with_owned_def initial_state_def)
  ultimately show ?thesis by (simp add: upto_3 del: create_resources.simps)
qed

text \<open>The states from the initialization on.\<close>

definition initialized_state :: "json \<Rightarrow> provider_state" where
  "initialized_state plan = (with_owned plan 3 (initial_state plan))\<lparr>ps_initialized := True,
     ps_admission := admission plan True 1, ps_quota := quota_scope plan True\<rparr>"

definition uploaded_state :: "json \<Rightarrow> provider_state" where
  "uploaded_state plan = (initialized_state plan)\<lparr>ps_uploaded := upload_request plan\<rparr>"

definition applied_state :: "json \<Rightarrow> provider_state" where
  "applied_state plan = (uploaded_state plan)\<lparr>ps_snapshot := temporary_part plan\<rparr>"

definition disabled_state :: "json \<Rightarrow> provider_state" where
  "disabled_state plan = (applied_state plan)\<lparr>ps_admission := admission plan False 2, ps_quota := quota_scope plan False\<rparr>"

definition remaining :: "json \<Rightarrow> nat \<Rightarrow> provider_state" where
  "remaining plan n = (with_owned plan n (disabled_state plan))\<lparr>ps_snapshot := baseline_part plan,
     ps_quota := (if n \<le> 1 then JNull else quota_scope plan False)\<rparr>"

lemmas run_states = initialized_state_def uploaded_state_def applied_state_def disabled_state_def remaining_def with_owned_def
  initial_state_def

lemma initialize_step:
  "rehearsable plan \<Longrightarrow> effect plan ''initialize_synthetic'' (start_request plan) (with_owned plan 3 (initial_state plan)) = Some (initialized_state plan)"
  using other_names
  by (auto simp: effect_def others_def initialize_effect_def rehearsable_def run_states upto_3 admission_def jput_def items_def)

lemma upload_step: "effect plan ''upload_version'' (upload_request plan) (initialized_state plan) = Some (uploaded_state plan)"
  using other_names by (simp add: effect_def others_def run_states)

lemma apply_step: "rehearsable plan \<Longrightarrow> effect plan ''apply_temporary'' (deploy_request plan) (uploaded_state plan) = Some (applied_state plan)"
  using other_names
  by (simp add: effect_def others_def run_states keep_production_def upload_request_def rehearsable_def baseline_part_def [symmetric])

lemma disable_step: "effect plan ''disable_temporary'' (run_request plan) (applied_state plan) = Some (disabled_state plan)"
  using other_names by (simp add: effect_def others_def run_states quota_scope_def jput_def items_def)

lemma restore_step: "rehearsable plan \<Longrightarrow>
    effect plan ''restore_retained'' (jget (jget plan ''delta'') ''restore'') (disabled_state plan) = Some (remaining plan 3)"
  using other_names
  by (simp add: effect_def others_def run_states keep_production_def rehearsable_def admission_def jget_def items_def)

lemma delete_step: "n < 3 \<Longrightarrow> delete_effect plan n (resource_at plan n) (remaining plan (Suc n)) = Some (remaining plan n)"
  by (auto simp: delete_effect_def run_states admission_def jget_def items_def)



section \<open>The run\<close>

lemma total_delete_one:
  assumes t: "in_time se tick" and n: "n < 3"
    and rest: "total (at_step se tick (23 - 2 * n) (remaining (se_plan se) n) (remaining (se_plan se) n) True True created) (delete_resources se ns) Q"
  shows "total (at_step se tick (21 - 2 * n) (remaining (se_plan se) (Suc n)) (remaining (se_plan se) (Suc n)) True True created)
    (delete_resources se (n # ns)) Q"
  unfolding delete_resources.simps
proof (intro total_guard)
  let ?e = "remaining (se_plan se) (Suc n)" and ?e' = "remaining (se_plan se) n" and ?k = "21 - 2 * n"
  have k: "?k < 23" "Suc ?k < 23" "Suc (Suc ?k) = 23 - 2 * n" using n by simp_all
  have "effect (se_plan se) (numbered ''delete_resource_'' n) (resource_at (se_plan se) n) ?e = Some ?e'"
    unfolding effect_delete [OF n] by (rule delete_step [OF n])
  then show "total (at_step se tick ?k ?e ?e True True created)
      (called se (numbered ''delete_resource_'' n) (resource_at (se_plan se) n) (deleted_update n))
      (\<lambda>ok a. ok \<and> at_step se tick (Suc ?k) ?e' ?e' True True created a)"
    by (rule total_called [OF t k(1) place(3) [OF n]])
       (use n in \<open>auto simp: at_step_def deleted_update_def run_states\<close>)
  show "total (at_step se tick (Suc ?k) ?e' ?e' True True created) (observed se (numbered ''read_absent_'' n))
      (\<lambda>ok a. ok \<and> at_step se tick (23 - 2 * n) ?e' ?e' True True created a)"
    using total_observed [OF t k(2) place(4) [OF n] effect_read [OF place(6) [OF n]]] k(3) by simp
  show "total (at_step se tick (23 - 2 * n) ?e' ?e' True True created)
      (then_act (modify_act (\<lambda>a. a\<lparr>at_absent := at_absent a @ [n]\<rparr>)) (delete_resources se ns)) Q"
    by (rule total_then [OF total_modify rest]) (simp add: at_step_def)
qed

lemma total_deleted:
  assumes "in_time se tick"
  shows "total (at_step se tick 17 (remaining (se_plan se) 3) (remaining (se_plan se) 3) True True created) (delete_resources se [2, 1, 0])
    (\<lambda>_ a. at_cleanup a = ''confirmed_offline'' \<and> at_reason a = ''restored_and_absent'')"
proof -
  let ?S = "\<lambda>k n. at_step se tick k (remaining (se_plan se) n) (remaining (se_plan se) n) True True created"
  let ?Q = "\<lambda>_ a. at_cleanup a = ''confirmed_offline'' \<and> at_reason a = ''restored_and_absent''"
  have "total (?S 23 0) (delete_resources se []) ?Q"
    unfolding delete_resources.simps by (rule total_modify) simp
  with total_delete_one [OF assms, of 0] have "total (?S 21 1) (delete_resources se [0]) ?Q" by simp
  with total_delete_one [OF assms, of 1] have "total (?S 19 2) (delete_resources se [1, 0]) ?Q" by (simp add: numeral_2_eq_2)
  with total_delete_one [OF assms, of 2] show ?thesis by (simp add: numeral_3_eq_3)
qed

lemma later_places:
  "COMPOSITION_OPERATIONS ! 0 = ''read_baseline'' \<and> COMPOSITION_OPERATIONS ! 7 = ''initialize_synthetic'' \<and>
   COMPOSITION_OPERATIONS ! 8 = ''read_initialized'' \<and> COMPOSITION_OPERATIONS ! 9 = ''upload_version'' \<and>
   COMPOSITION_OPERATIONS ! 10 = ''read_version'' \<and> COMPOSITION_OPERATIONS ! 11 = ''apply_temporary'' \<and>
   COMPOSITION_OPERATIONS ! 12 = ''read_temporary'' \<and> COMPOSITION_OPERATIONS ! 13 = ''disable_temporary'' \<and>
   COMPOSITION_OPERATIONS ! 14 = ''read_disabled'' \<and> COMPOSITION_OPERATIONS ! 15 = ''restore_retained'' \<and>
   COMPOSITION_OPERATIONS ! 16 = ''read_restored''"
  by code_simp

lemma read_members: "set [''read_baseline'', ''read_initialized'', ''read_version'', ''read_temporary'', ''read_disabled'', ''read_restored''] \<subseteq> set reads"
  by code_simp

lemma effect_reads:
  "effect plan ''read_baseline'' (JObj []) s = Some s" "effect plan ''read_initialized'' (JObj []) s = Some s"
  "effect plan ''read_version'' (JObj []) s = Some s" "effect plan ''read_temporary'' (JObj []) s = Some s"
  "effect plan ''read_disabled'' (JObj []) s = Some s" "effect plan ''read_restored'' (JObj []) s = Some s"
  by (rule effect_read, use read_members in simp)+

text \<open>The rules at a place that is written as a number.\<close>

lemma called_at:
  assumes "in_time se tick" and "effect (se_plan se) i request s = Some s'" and "COMPOSITION_OPERATIONS ! k = i" and "k < 23" and "k' = Suc k"
    and "\<And>a. at_step se tick k' s' e applied initialized created a \<Longrightarrow> at_step se tick k' s' e' applied' initialized' created' (f a)"
  shows "total (at_step se tick k s e applied initialized created) (called se i request f)
    (\<lambda>ok a. ok \<and> at_step se tick k' s' e' applied' initialized' created' a)"
  using total_called [OF assms(1,4,3,2)] assms(5,6) by blast

lemma observed_at:
  assumes "in_time se tick" and "effect (se_plan se) i (JObj []) e = Some e" and "COMPOSITION_OPERATIONS ! k = i" and "k < 23" and "k' = Suc k"
  shows "total (at_step se tick k e e applied initialized created) (observed se i)
    (\<lambda>ok a. ok \<and> at_step se tick k' e e applied initialized created a)"
  using total_observed [OF assms(1,4,3,2)] assms(5) by blast

lemma total_known:
  assumes "\<And>a. P a \<Longrightarrow> g a = x" and "total P (k x) Q"
  shows "total P (bind_act (gets_act g) k) Q"
  using assms by (simp add: total_def)

lemma at_step_flags:
  "at_step se tick k s e applied initialized created a \<Longrightarrow> at_applied a = applied"
  "at_step se tick k s e applied initialized created a \<Longrightarrow> at_initialized a = initialized"
  "at_step se tick k s e applied initialized created a \<Longrightarrow> at_created a = created"
  "at_step se tick k s e applied initialized created a \<Longrightarrow> at_halted a = False"
  by (simp_all add: at_step_def)

lemma total_clean_up:
  assumes t: "in_time se tick" and r: "rehearsable (se_plan se)"
  shows "total (at_step se tick 13 (applied_state (se_plan se)) (applied_state (se_plan se)) True True [0, 1, 2]) (clean_up se)
    (\<lambda>_ a. at_cleanup a = ''confirmed_offline'' \<and> at_reason a = ''restored_and_absent'')"
proof -
  let ?p = "se_plan se" and ?c = "[0, 1, 2] :: nat list"
  let ?S = "\<lambda>k e. at_step se tick k (e ?p) (e ?p) True True ?c" and ?R = "\<lambda>p. remaining p 3"
  let ?Q = "\<lambda>_ a. at_cleanup a = ''confirmed_offline'' \<and> at_reason a = ''restored_and_absent''"
  let ?last = "bind_act (gets_act at_created) (\<lambda>created. delete_resources se (rev created))"
  have last: "total (?S 17 ?R) ?last ?Q"
    by (rule total_known [OF at_step_flags(3)]) (assumption, use total_deleted [OF t] in \<open>simp del: delete_resources.simps\<close>)
  have dispatched: "total (?S 13 applied_state) (called se ''disable_temporary'' (run_request ?p) (disabled_update ?p))
      (\<lambda>ok a. ok \<and> ?S 14 disabled_state a)"
    by (rule called_at [OF t disable_step]) (use later_places in \<open>simp_all add: at_step_def disabled_update_def disabled_state_def\<close>)
  have "total (?S 14 disabled_state) (observed se ''read_disabled'') (\<lambda>ok a. ok \<and> ?S 15 disabled_state a)"
    by (rule observed_at [OF t effect_reads(5)]) (use later_places in simp_all)
  from total_guard [OF dispatched this]
  have disable: "total (?S 13 applied_state) (disable se) (\<lambda>ok a. ok \<and> ?S 15 disabled_state a)"
    unfolding disable_def by (intro total_known [OF at_step_flags(2)]) auto
  have "total (?S 15 disabled_state)
      (called se ''restore_retained'' (jget (jget ?p ''delta'') ''restore'') (restored_update ?p)) (\<lambda>ok a. ok \<and> ?S 16 ?R a)"
    by (rule called_at [OF t restore_step [OF r]])
       (use later_places in \<open>simp_all add: at_step_def restored_update_def run_states\<close>)
  then have restore: "total (?S 15 disabled_state) (restore se) (\<lambda>ok a. ok \<and> ?S 16 ?R a)"
    unfolding restore_def by (intro total_known [OF at_step_flags(1)]) auto
  have "total (?S 16 ?R) (observed se ''read_restored'') (\<lambda>ok a. ok \<and> ?S 17 ?R a)"
    by (rule observed_at [OF t effect_reads(6)]) (use later_places in simp_all)
  from total_guard [OF restore total_guard [OF this last]]
  have rest: "total (?S 15 disabled_state) (bind_act (restore se) (\<lambda>restored. if \<not> restored then return_act ()
      else bind_act (observed se ''read_restored'') (\<lambda>seen. if \<not> seen then return_act () else ?last))) ?Q" .
  show ?thesis
    unfolding clean_up_def
  proof (rule total_bind [OF disable])
    fix ok
    show "total (\<lambda>a. ok \<and> ?S 15 disabled_state a) (bind_act (gets_act at_halted) (\<lambda>halted. if \<not> ok \<or> halted then return_act ()
        else bind_act (restore se) (\<lambda>restored. if \<not> restored then return_act ()
          else bind_act (observed se ''read_restored'') (\<lambda>seen. if \<not> seen then return_act () else ?last)))) ?Q"
      by (rule total_known [where x = False]) (use rest in \<open>auto simp: at_step_flags total_def simp del: bind_gets\<close>)
  qed
qed


lemma stage_at:
  assumes "in_time se tick" and "effect (se_plan se) i request e = Some e'" and "effect (se_plan se) j (JObj []) e' = Some e'"
    and "COMPOSITION_OPERATIONS ! k = i" and "COMPOSITION_OPERATIONS ! k' = j" and "k < 22" and "k' = Suc k" and "k'' = Suc k'"
    and "\<And>a. at_step se tick k' e' e applied initialized created a \<Longrightarrow> at_step se tick k' e' e' applied' initialized' created' (f a)"
  shows "total (at_step se tick k e e applied initialized created) (stage se True i request f j)
    (\<lambda>ok a. ok \<and> at_step se tick k'' e' e' applied' initialized' created' a)"
  using total_stage [OF assms(1,6,4)] assms by blast

lemma total_true:
  assumes "total P m (\<lambda>ok a. ok \<and> R a)" and "total R (k True) Q"
  shows "total P (bind_act m k) Q"
proof (rule total_bind [OF assms(1)])
  fix ok
  show "total (\<lambda>a. ok \<and> R a) (k ok) Q" using assms(2) by (cases ok) (simp_all add: total_def)
qed

lemma total_rehearse_body:
  assumes t: "in_time se tick" and r: "rehearsable (se_plan se)"
  shows "total (at_step se tick 0 (initial_state (se_plan se)) (initial_state (se_plan se)) False False []) (rehearse_body se)
    (\<lambda>_ a. at_cleanup a = ''confirmed_offline'' \<and> at_reason a = ''restored_and_absent'')"
proof -
  let ?p = "se_plan se" and ?c = "[0, 1, 2] :: nat list" and ?E = "\<lambda>p. with_owned p 3 (initial_state p)"
  let ?S = "\<lambda>k e. at_step se tick k (e ?p) (e ?p)"
  let ?Q = "\<lambda>_ a. at_cleanup a = ''confirmed_offline'' \<and> at_reason a = ''restored_and_absent''"
  have seen: "total (?S 0 initial_state False False []) (observed se ''read_baseline'') (\<lambda>ok a. ok \<and> ?S 1 initial_state False False [] a)"
    by (rule observed_at [OF t effect_reads(1)]) (use later_places in simp_all)
  have initialize: "total (?S 7 ?E False False ?c)
      (stage se True ''initialize_synthetic'' (start_request ?p) (initialized_update ?p) ''read_initialized'')
      (\<lambda>ok a. ok \<and> ?S 9 initialized_state False True ?c a)"
    by (rule stage_at [OF t initialize_step [OF r] effect_reads(2), where k' = 8])
       (use later_places in \<open>simp_all add: at_step_def initialized_update_def run_states admission_def jput_def items_def\<close>)
  have upload: "total (?S 9 initialized_state False True ?c)
      (stage se True ''upload_version'' (upload_request ?p) (uploaded_update ?p) ''read_version'')
      (\<lambda>ok a. ok \<and> ?S 11 uploaded_state False True ?c a)"
    by (rule stage_at [OF t upload_step effect_reads(3), where k' = 10])
       (use later_places in \<open>simp_all add: at_step_def uploaded_update_def uploaded_state_def\<close>)
  have "total (?S 11 uploaded_state False True ?c) (called se ''apply_temporary'' (deploy_request ?p) (applied_update ?p))
      (\<lambda>ok a. ok \<and> ?S 12 applied_state True True ?c a)"
    by (rule called_at [OF t apply_step [OF r]]) (use later_places in \<open>simp_all add: at_step_def applied_update_def applied_state_def\<close>)
  moreover have "total (?S 12 applied_state True True ?c) (bind_act (observed se ''read_temporary'') (\<lambda>_. return_act ()))
      (\<lambda>_. ?S 13 applied_state True True ?c)"
    by (rule total_true [OF observed_at [OF t effect_reads(4)]]) (use later_places in \<open>auto intro: total_return\<close>)
  ultimately have applied: "total (?S 11 uploaded_state False True ?c) (apply_temporary se True) (\<lambda>_. ?S 13 applied_state True True ?c)"
    unfolding apply_temporary_def not_True_eq_False if_False
    by (intro total_guard [OF total_work_open [OF t]] total_guard) simp_all
  have build: "total (?S 1 initial_state False False []) (bind_act (create_resources se ?c) (\<lambda>r1.
       bind_act (stage se r1 ''initialize_synthetic'' (start_request ?p) (initialized_update ?p) ''read_initialized'') (\<lambda>r2.
       bind_act (stage se r2 ''upload_version'' (upload_request ?p) (uploaded_update ?p) ''read_version'') (\<lambda>r3.
       then_act (apply_temporary se r3) (clean_up se))))) ?Q"
    by (rule total_true [OF total_created [OF t r]], rule total_true [OF initialize], rule total_true [OF upload])
       (rule total_then [OF applied total_clean_up [OF t r]])
  show ?thesis
    unfolding rehearse_body_def
    by (rule total_guard [OF total_work_open [OF t] total_guard [OF seen total_guard [OF total_work_open [OF t] build]]]) simp_all
qed


section \<open>The property\<close>

lemma built_validates_plan:
  assumes "build_composition_plan delta start = Inr plan"
  shows "validate_plan plan = Inr ()"
proof -
  obtain n where "start = JInt n" and p: "plan = plan_json delta n"
    using assms by (auto simp: build_composition_plan_def bind_res_Inr split: json.splits)
  then have "is_obj plan" "jget plan ''kind'' = JStr ''offline_complete_composition_lifecycle''"
    "map_of (items plan) ''delta'' = Some delta" "map_of (items plan) ''startMs'' = Some start"
    "jget plan ''delta'' = delta" "jget plan ''startMs'' = start"
    by (simp_all add: plan_json_def is_obj_def jget_def items_def)
  with assms show ?thesis by (simp add: validate_plan_def)
qed

lemma faultless_run:
  assumes d: "build_delta baseline additions = Inr delta" and b: "build_composition_plan delta start = Inr plan"
    and p: "make_provider plan [] tick = Inr p" and tick: "tick \<le> 25000" and o: "open_journal plan token empty_file = (Inr h, f)"
  shows "\<exists>c b. rehearse_composition plan h f p PNone (PBool False) None = (Inr c, b) \<and>
    cr_cleanup c = ''confirmed_offline'' \<and> cr_reason c = ''restored_and_absent''"
proof -
  obtain n where n: "plan = plan_json delta n" and r: "rehearsable plan" and s: "start = JInt n" by (rule built_plan [OF d b])
  have "0 \<le> n \<and> n \<le> 2 ^ 53 - OUTER_MS" using b s by (auto simp: build_composition_plan_def bind_res_Inr)
  then have start: "start_of plan \<le> 2 ^ 53" by (simp add: n start_of_def plan_json_def jget_def items_def OUTER_MS_def)
  have v: "validate_plan plan = Inr ()" by (rule built_validates_plan [OF b])
  have prov: "0 \<le> tick" "p = \<lparr>pr_plan = plan, pr_faults = [], pr_tick = tick, pr_elapsed = 0, pr_stop = False, pr_calls = [],
      pr_state = initial_state plan\<rparr>"
    using p by (auto simp: make_provider_def bind_res_Inr)
  have h: "h = \<lparr>hd_plan = plan, hd_token = token, hd_closed = False\<rparr>" and f: "jf_attempts f = []" "\<not> jf_started f" "jf_marker f = Some token"
    using o v by (auto simp: open_journal_def empty_file_def)
  let ?se = "\<lparr>se_plan = plan, se_handle = h, se_base = start_of plan, se_stop = False, se_dies = None\<rparr>"
  let ?f = "f\<lparr>jf_started := True\<rparr>"
  have g: "start_once h f = Inr ?f" using h f by (simp add: start_once_def assert_owner_def require_def)
  have ops: "length COMPOSITION_OPERATIONS = 23" by (rule operations_length)
  have t: "in_time ?se tick"
    using prov(1) tick by (simp add: in_time_def h n plan_json_def jget_def items_def ops)
  have "at_step ?se tick 0 (initial_state plan) (initial_state plan) False False [] (start_attempt plan p ?f)"
    using h f by (simp add: at_step_def start_attempt_def prov assert_owner_def)
  then obtain a where a: "rehearse_body ?se (start_attempt plan p ?f) = (Inr (), a)"
    "at_cleanup a = ''confirmed_offline''" "at_reason a = ''restored_and_absent''"
    using totalD [OF total_rehearse_body [OF t]] r by force
  then have "then_act (rehearse_body ?se) last_reason ((start_attempt plan p f)\<lparr>at_journal := ?f\<rparr>) = (Inr (), a)"
    by (simp add: act_simps last_reason_def start_attempt_def)
  moreover have "hd_plan h = plan" "pr_plan p = plan" by (simp_all add: h prov)
  moreover have "pr_calls p = []" by (simp add: prov)
  ultimately have "rehearse_composition plan h f p PNone (PBool False) None = (Inr (receipt_of ?se a), a)"
    using v start f(1) g by (simp add: rehearse_composition_def require_def)
  with a show ?thesis by (simp add: receipt_of_def)
qed


text \<open>
  C12: without faults the rehearsal is confirmed: for every delta that builds and every plan
  that is bound to it, on a fresh journal and with a provider that answers each operation
  within 25 seconds, the attempt returns a receipt, and the receipt confirms the cleanup.
\<close>

theorem rehearsal_completes:
  assumes "build_delta baseline additions = Inr delta" and "build_composition_plan delta start = Inr plan"
    and "make_provider plan [] tick = Inr p" and "tick \<le> 25000" and "open_journal plan token empty_file = (Inr h, f)"
  shows "\<exists>c b. rehearse_composition plan h f p PNone (PBool False) None = (Inr c, b) \<and>
    cr_cleanup c = ''confirmed_offline'' \<and> cr_reason c = ''restored_and_absent''"
  by (rule faultless_run [OF assms])


section \<open>A concrete case\<close>

definition case_plan :: json where
  "case_plan = plan_json (delta_of case_baseline case_additions) 1000"

definition case_provider :: "(string \<times> string) list \<Rightarrow> provider" where
  "case_provider faults = \<lparr>pr_plan = case_plan, pr_faults = faults, pr_tick = 250, pr_elapsed = 0, pr_stop = False, pr_calls = [],
     pr_state = initial_state case_plan\<rparr>"

definition case_handle :: handle where
  "case_handle = \<lparr>hd_plan = case_plan, hd_token = ''owner'', hd_closed = False\<rparr>"

definition case_file :: journal_file where
  "case_file = empty_file\<lparr>jf_plans := [digest case_plan], jf_marker := Some ''owner''\<rparr>"

lemma case_plan_built: "build_composition_plan (delta_of case_baseline case_additions) (JInt 1000) = Inr case_plan"
proof -
  have "jget (jget case_additions ''scope'') ''startsAt'' = JInt 1000" by code_simp
  then have "scope_start (delta_of case_baseline case_additions) = JInt 1000"
    by (simp add: scope_start_def delta_of_def jget_def items_def)
  then show ?thesis
    by (simp add: build_composition_plan_def case_delta_validates case_plan_def OUTER_MS_def)
qed

lemma case_made: "make_provider case_plan [] 250 = Inr (case_provider [])"
  by (simp add: make_provider_def built_validates_plan [OF case_plan_built] case_provider_def OUTER_MS_def)

lemma case_opened: "open_journal case_plan ''owner'' empty_file = (Inr case_handle, case_file)"
  by (simp add: open_journal_def built_validates_plan [OF case_plan_built] empty_file_def case_handle_def case_file_def)

lemmas case_run_done = faultless_run [OF case_built case_plan_built case_made _ case_opened]

lemma rehearsal_completes_witness:
  "\<exists>c b. rehearse_composition case_plan case_handle case_file (case_provider []) PNone (PBool False) None = (Inr c, b) \<and>
    cr_cleanup c = ''confirmed_offline''"
  using rehearsal_completes [OF case_built case_plan_built case_made _ case_opened] by auto

lemma rehearsal_confirms_witness:
  "\<exists>c b. rehearse_composition case_plan case_handle case_file (case_provider []) PNone (PBool False) None = (Inr c, b) \<and>
    cr_cleanup c = ''confirmed_offline'' \<and> cr_pending c = [] \<and> cr_requiring c = []"
proof -
  obtain c b where c: "rehearse_composition case_plan case_handle case_file (case_provider []) PNone (PBool False) None = (Inr c, b)"
    "cr_cleanup c = ''confirmed_offline''"
    using case_run_done by auto
  from rehearsal_confirms [OF c] c show ?thesis by blast
qed

lemma rehearsal_fails_once_witness:
  "\<exists>c b. rehearse_composition case_plan case_handle case_file (case_provider []) PNone (PBool False) None = (Inr c, b) \<and>
    distinct (pr_calls (at_provider b)) \<and> fails_once (jf_attempts (at_journal b))"
proof -
  obtain c b where c: "rehearse_composition case_plan case_handle case_file (case_provider []) PNone (PBool False) None = (Inr c, b)"
    using case_run_done by auto
  have "jf_attempts case_file = []" "pr_calls (case_provider []) = []"
    by (simp_all add: case_file_def empty_file_def case_provider_def)
  from rehearsal_fails_once [OF c this] c show ?thesis by blast
qed

lemma journal_runs_once_witness:
  "\<exists>callss f. sessions [(case_plan, ''owner'', case_provider [(''upload_version'', ''unknown'')], PNone, PBool False, None, True),
      (case_plan, ''later'', case_provider [], PNone, PBool False, None, True)] empty_file = (callss, f) \<and>
    distinct (concat callss) \<and> concat callss = map fst (jf_attempts f)"
proof -
  obtain callss f where "sessions [(case_plan, ''owner'', case_provider [(''upload_version'', ''unknown'')], PNone, PBool False, None, True),
      (case_plan, ''later'', case_provider [], PNone, PBool False, None, True)] empty_file = (callss, f)"
    by (rule prod.exhaust)
  with journal_runs_once [OF this] show ?thesis by blast
qed

end
