(* ===== verification/Spec2Isabelle.thy ===== *)
theory Spec2Isabelle
  imports Fixed_Origin_Lifecycle Runner_Properties Operator_Properties Native_Properties Secret_Lifecycle Secret_Ownership
    Budget_Schedule Successor_Properties Snapshot_Properties Statement_Control Binary64_Oracle
    Held_Properties Trial_Properties Composition_Faultless
begin

text \<open>
  Verification of the operator tooling of FlickrGroupAddr/api-cloudflare.

  \<^bold>\<open>The program.\<close> The repository holds a Cloudflare Worker and, in Python under
  \<open>src/scripts\<close> and \<open>src/probes\<close>, the tools its operators run against production: they
  reserve an attempt in a durable journal, dispatch a bounded number of effects to a
  provider, read the result back independently, and clean up. What makes them correct is
  what they do when a reply is lost, a process dies, a clock runs out or a second operator
  is at work. The development models the tools that carry such logic, as written, and proves
  what their journals, budgets, guards and receipts promise.

  \<^bold>\<open>How code is modelled.\<close> \<open>Prelude\<close> gives the shared ground: exceptions as values of a sum
  type (\<open>Refused\<close> with the category of the source, \<open>Crash\<close>, \<open>Killed\<close> for the death of the
  process), stateful code as functions from a state to an outcome and a new state with
  \<open>try\<close>, \<open>except\<close> and \<open>finally\<close>, triples over them (\<open>hoare\<close> for every outcome, \<open>total\<close> for
  code that returns, \<open>silent\<close> and \<open>keeps\<close> for frames), dynamic Python values where the code
  inspects types, and the regular expressions the sources match. An injected port, clock or
  provider is an arbitrary strategy that sees the trace of the earlier calls, so a theorem
  over it holds in every environment, also one that raises or kills the process. A SQLite
  transaction is one step that commits, fails, loses its acknowledgement or dies. Strings
  are code points below 256 (full code points in the snapshot codec); integers are
  unbounded, as in Python; words appear where the code works on bits. \<open>Encoding\<close> defines
  \<open>json.dumps\<close> with sorted keys and SHA-256 itself, so digests in plans and journals are
  computed, not assumed; \<open>Encoding_Lengths\<close> and \<open>Encoding_Sizes\<close> bound their lengths. \<open>Latch\<close> is
  the locale of a one-shot journal (a key is spent once, and effects under spent keys are
  distinct), interpreted on the journals of four components below.

  \<^bold>\<open>Fixed-origin lifecycle\<close> (\<open>scripts/fixed_origin_lifecycle.py\<close>; \<open>Fixed_Origin_Lifecycle\<close>). The
  class \<open>Lifecycle\<close>: journal latch, guards, provisioning, cleanup and attempt. Every effect
  is issued at most once over every history, in the order the protocol requires; a recorded
  confirmation means every attempted creation was acknowledged and removed; a process death
  fences all later calls.

  \<^bold>\<open>Finite runner\<close> (\<open>probes/pmb1-finite-runner/runner.py\<close>, \<open>mechanism.py\<close>). \<open>Runner_Packet\<close> holds
  the packet and its validator, \<open>Campaign_Journal\<close> the journal, \<open>Runner\<close> the loop of
  \<open>Runner.run\<close>; \<open>Runner_Safety\<close> (what a history can dispatch), \<open>Runner_Trace\<close> (when, and what
  completion means), \<open>Runner_Progress\<close> (a cooperative environment completes) carry
  \<open>Runner_Properties\<close>. \<open>Mechanism_Program\<close> builds the packets of the source, \<open>Mechanism_Checks\<close>
  evaluates the validator on them case by case, \<open>Packet_Properties\<close> concludes.

  \<^bold>\<open>D1 operator control\<close> (\<open>probes/pmb1-d1-adapter/adapter.py\<close>, \<open>probes/pmb1-native-d1-binding/journal.py\<close>).
  \<open>Control_Types\<close> (intents, generations, validators), \<open>Operator_Journal\<close> (five tables, all
  transactions with their clock guards), \<open>Operator_Control\<close> (the adapter). \<open>Operator_Invariants\<close>
  and \<open>Operator_History\<close> hold the chain of transitions and the accounts, \<open>Operator_Lease\<close> the
  contract machine and the refinement to it, \<open>Operator_Safety\<close>, \<open>Operator_Evidence\<close> and
  \<open>Operator_Progress\<close> the sessions, and \<open>Operator_Properties\<close> the results.

  \<^bold>\<open>Successor qualification\<close> (\<open>probes/pmb1-native-d1-binding/successor_control.py\<close>; \<open>Successor_Control\<close>,
  \<open>Successor_Safety\<close>, \<open>Successor_Custody\<close>, \<open>Successor_Properties\<close>). The same protocol with an exact
  two-statement batch, and the custodian of returned receipts.

  \<^bold>\<open>Native leaf broker\<close> (\<open>probes/pmb1-finite-runner/native_journal.py\<close>; \<open>Native_Lease\<close>,
  \<open>Native_Broker\<close>, \<open>Native_Broker_Safety\<close>, \<open>Native_History\<close>, \<open>Native_Accounts\<close>, \<open>Native_Progress\<close>,
  \<open>Native_Properties\<close>). Leaves are granted in order, once, by one owner, and paid for by the
  reserved tree, for any number of instances on one file.

  \<^bold>\<open>Temporary composition\<close> (\<open>scripts/temporary_composition_delta.py\<close>,
  \<open>scripts/temporary_composition_lifecycle.py\<close>). \<open>Composition_Delta\<close> is the delta of a temporary
  version and its validation, \<open>Composition_Properties\<close> shows that the additions come off again
  and touch nothing of production. \<open>Composition_Provider\<close> holds the plan, the synthetic provider
  and \<open>LifecycleJournal\<close>, \<open>Composition_Lifecycle\<close> the function \<open>rehearse_composition\<close>, stage by
  stage; the process may die at any call to the provider. \<open>Composition_Safety\<close> follows its trace,
  \<open>Composition_Attempt\<close> proves what the journal and the receipt promise, \<open>Composition_Faultless\<close> that every plan that builds is carried through.

  \<^bold>\<open>Controlled trial pause\<close> (\<open>scripts/controlled_trial_pause.py\<close>). \<open>Trial_Pause\<close> is the command,
  \<open>Trial_Database\<close> interprets its statements on the tables and triggers of the migrations,
  \<open>Trial_Properties\<close> shows when the batch goes through, that a confirmation means a paused
  production, and that a plan takes effect once among arbitrary other writers.

  \<^bold>\<open>Held-handle path policy\<close> (\<open>probes/local-delivery-path-proof/bounded_local_delivery_path_proof.py\<close>,
  \<open>probes/post-local-preparation/role_policy.py\<close>). \<open>Held_Path\<close> and \<open>Role_Path\<close> model the two policies,
  \<open>Held_Custody\<close> proves the laws of both in the locale \<open>held_policy\<close> against the Windows access
  check, \<open>Held_Properties\<close> states them.

  \<^bold>\<open>Private snapshot codec\<close> (\<open>scripts/private_d1_snapshot_codec.py\<close>, with the encoding and the bounds
  of \<open>scripts/fixed_origin_preservation.py\<close>). \<open>Snapshot_Text\<close>, \<open>Snapshot_Plan\<close>, \<open>Snapshot_Codec\<close> and
  \<open>Snapshot_Collect\<close> are the code; \<open>Snapshot_Wellformed\<close>, \<open>Snapshot_Queries\<close>, \<open>Snapshot_Wire\<close>,
  \<open>Snapshot_Exact\<close>, \<open>Snapshot_Faithful\<close> and \<open>Snapshot_Quoting\<close> show that a capture is the stored
  database, asked for within the bounds; \<open>Snapshot_Properties\<close> states it.

  \<^bold>\<open>Smaller models.\<close> \<open>Secret_Lifecycle\<close> (\<open>scripts/secret_lifecycle_model.py\<close>), \<open>Secret_Ownership\<close>
  (\<open>scripts/secret_ownership_model.py\<close>), \<open>Budget_Schedule\<close> (\<open>scripts/fixed_origin_schedule.py\<close>),
  \<open>Statement_Control\<close> (\<open>probes/pmb1-d1/control.py\<close> with its SQL) and \<open>Binary64_Oracle\<close>
  (\<open>probes/typed-real-encoding/typed_real.py\<close>).

  \<^bold>\<open>How the parts interact.\<close> The runner and the broker spend budgets of the same \<open>cost\<close> record;
  the adapter of the operator control runs on the operator journal, and the successor runs on
  both; the composition lifecycle rehearses the delta the composition module builds. Where one
  part calls another the model composes the two definitions as the code does.

  \<^bold>\<open>Bounds and fuel.\<close> No definition runs on fuel: loops are structural recursion over the
  operations, rows or nodes they visit, over the number of blocks or rounds of SHA-256, or over
  the digits of a number; the closed comparison of plans and the strings inside a JSON value
  recurse on nested values with termination proofs. Numeric limits of the code (operation and
  byte caps, the 600 and 1200 second windows, \<open>2 ^ 53\<close>) stand in the definitions as in the source.

  \<^bold>\<open>Not modelled.\<close> Transports and processes (HTTP, subprocesses, ctypes, Git), the SQLite engine,
  reading and decoding of files, argument parsers and printed reports; these are arguments of
  the models or their environment. Fractional clock readings and floats in JSON. The older
  receiver-only half of \<open>temporary_composition_lifecycle.py\<close>; the SQLite execution inside
  \<open>mechanism.py\<close>; the wire decoder of \<open>typed_real.py\<close>; the codec under a reviewed profile
  manifest, and its refusal of values too deep for Python's JSON encoder; a custodian file left
  half created by a process that died. The hosted publisher, production matrix, native operator,
  binding and custody, group post, historical recovery, provisioning and release tools, whose
  decisions are spread over replies of providers and processes that the repository does not
  define; the test drivers; and the TypeScript Workers, the plug-in and the other migrations.
\<close>

end
